(* ===== verification/Prelude.thy ===== *)
theory Prelude
  imports Main "HOL-Library.Word"
begin

unbundle bit_operations_syntax

text \<open>
  Shared vocabulary of the development: the machine integer types of the code, memory
  blocks as lists with the copies of \<open>memcpy\<close> written out (a copy that leaves its block is
  \<open>None\<close>), big- and little-endian bytes of words, and the arithmetic of ring buffers that
  both byte rings and the pointer ring of the program use.
\<close>

section \<open>Machine integers\<close>

type_synonym u8 = "8 word"
type_synonym u16 = "16 word"
type_synonym u32 = "32 word"

named_theorems mem_simps "blocks of memory and copies into them"
named_theorems ring_simps "wrap-around positions and the content of a ring"

lemma xor_right_cancel: "x XOR z = y XOR z \<longleftrightarrow> x = y" for x y z :: "'a::len word"
proof
  assume "x XOR z = y XOR z"
  then have "(x XOR z) XOR z = (y XOR z) XOR z" by (rule arg_cong)
  then show "x = y" by (simp add: xor.assoc)
qed simp

lemma xor_left_cancel: "z XOR x = z XOR y \<longleftrightarrow> x = y" for x y z :: "'a::len word"
  by (simp add: xor.commute [of z] xor_right_cancel)

text \<open>Readings of word arithmetic on \<open>nat\<close>, for values that stay inside the width.\<close>

named_theorems word_nat "words read as natural numbers"

lemma word_le_unat [word_nat]: "a \<le> b \<longleftrightarrow> unat a \<le> unat b" for a b :: "'a::len word"
  by (rule word_le_nat_alt)

lemma word_less_unat [word_nat]: "a < b \<longleftrightarrow> unat a < unat b" for a b :: "'a::len word"
  by (rule word_less_nat_alt)

lemma unat_add_exact [word_nat]:
  "unat a + unat b < 2 ^ LENGTH('a) \<Longrightarrow> unat (a + b) = unat a + unat b" for a b :: "'a::len word"
  by (simp add: unat_word_ariths)

lemma unat_sub_exact [word_nat]:
  "unat b \<le> unat a \<Longrightarrow> unat (a - b) = unat a - unat b" for a b :: "'a::len word"
  by (simp add: unat_sub word_le_nat_alt)

lemma unat_mod_exact [word_nat]: "unat (a mod b) = unat a mod unat b" for a b :: "'a::len word"
  by (rule unat_mod)

lemma unat_of_nat_exact [word_nat]:
  "n < 2 ^ LENGTH('a) \<Longrightarrow> unat (word_of_nat n :: 'a::len word) = n"
  by (simp add: unat_of_nat)

lemma ucast_bit: "bit (ucast a :: 'b::len word) n \<longleftrightarrow> n < LENGTH('b) \<and> bit a n"
  for a :: "'a::len word"
  by (simp add: bit_ucast_iff)

lemma unat_ucast_up: "LENGTH('a) \<le> LENGTH('b) \<Longrightarrow> unat (ucast a :: 'b::len word) = unat a"
  for a :: "'a::len word"
proof -
  assume le: "LENGTH('a) \<le> LENGTH('b)"
  have "unat a < 2 ^ LENGTH('a)" by (rule unsigned_less)
  also have "\<dots> \<le> 2 ^ LENGTH('b)" using le by (rule power_increasing) simp
  finally show ?thesis by (simp add: unsigned_ucast_eq take_bit_nat_eq_self_iff)
qed

section \<open>Blocks of memory\<close>

text \<open>\<open>blit dst off src\<close> overwrites \<open>dst\<close> from position \<open>off\<close> with all of \<open>src\<close>; it is
  the effect of a \<open>memcpy\<close> that stays inside the block.\<close>

definition blit :: "'a list \<Rightarrow> nat \<Rightarrow> 'a list \<Rightarrow> 'a list" where
  "blit dst off src = take off dst @ src @ drop (off + length src) dst"

definition mem_slice :: "'a list \<Rightarrow> nat \<Rightarrow> nat \<Rightarrow> 'a list" where
  "mem_slice xs off n = take n (drop off xs)"

text \<open>\<open>memcpy (dst + off, src + soff, n)\<close>; \<open>None\<close> when either block is left.\<close>

definition mem_copy :: "'a list \<Rightarrow> nat \<Rightarrow> 'a list \<Rightarrow> nat \<Rightarrow> nat \<Rightarrow> 'a list option" where
  "mem_copy dst off src soff n =
     (if off + n \<le> length dst \<and> soff + n \<le> length src
      then Some (blit dst off (mem_slice src soff n)) else None)"

text \<open>Reading \<open>n\<close> elements from position \<open>off\<close>; \<open>None\<close> when the block is left.\<close>

definition mem_read :: "'a list \<Rightarrow> nat \<Rightarrow> nat \<Rightarrow> 'a list option" where
  "mem_read xs off n = (if off + n \<le> length xs then Some (mem_slice xs off n) else None)"

lemma length_blit [simp]:
  "off + length src \<le> length dst \<Longrightarrow> length (blit dst off src) = length dst"
  by (simp add: blit_def)

lemma length_mem_slice [simp]:
  "off + n \<le> length xs \<Longrightarrow> length (mem_slice xs off n) = n"
  by (simp add: mem_slice_def)

lemma nth_mem_slice [mem_simps]:
  "off + n \<le> length xs \<Longrightarrow> i < n \<Longrightarrow> mem_slice xs off n ! i = xs ! (off + i)"
  by (simp add: mem_slice_def)

lemma nth_blit [mem_simps]:
  assumes "off + length src \<le> length dst" "i < length dst"
  shows "blit dst off src ! i =
    (if i < off then dst ! i else if i < off + length src then src ! (i - off) else dst ! i)"
  using assms by (auto simp: blit_def nth_append min_def)

lemma mem_slice_full [simp]: "mem_slice xs 0 (length xs) = xs"
  by (simp add: mem_slice_def)

lemma mem_slice_0 [mem_simps]: "mem_slice xs 0 n = take n xs"
  by (simp add: mem_slice_def)

lemma mem_copy_Some:
  "off + n \<le> length dst \<Longrightarrow> soff + n \<le> length src \<Longrightarrow>
   mem_copy dst off src soff n = Some (blit dst off (mem_slice src soff n))"
  by (simp add: mem_copy_def)

lemma mem_copy_None:
  "mem_copy dst off src soff n = None \<longleftrightarrow> length dst < off + n \<or> length src < soff + n"
  by (auto simp: mem_copy_def)

lemma mem_read_Some:
  "off + n \<le> length xs \<Longrightarrow> mem_read xs off n = Some (mem_slice xs off n)"
  by (simp add: mem_read_def)

section \<open>Rings\<close>

text \<open>\<open>ring_view buf r n\<close> is the content of a ring of \<open>length buf\<close> slots: the \<open>n\<close> elements
  from the read position \<open>r\<close> on, wrapping round at the end of the buffer.\<close>

definition ring_view :: "'a list \<Rightarrow> nat \<Rightarrow> nat \<Rightarrow> 'a list" where
  "ring_view buf r n = map (\<lambda>i. buf ! ((r + i) mod length buf)) [0..<n]"

text \<open>The two-segment write and read that byte rings use.\<close>

definition ring_put :: "'a list \<Rightarrow> nat \<Rightarrow> 'a list \<Rightarrow> 'a list" where
  "ring_put buf w src =
     (let k = length buf - w in
      if length src \<le> k then blit buf w src
      else blit (blit buf w (take k src)) 0 (drop k src))"

definition ring_get :: "'a list \<Rightarrow> nat \<Rightarrow> nat \<Rightarrow> 'a list" where
  "ring_get buf r n =
     (let k = length buf - r in
      if n \<le> k then mem_slice buf r n else mem_slice buf r k @ mem_slice buf 0 (n - k))"

lemma ring_put_near: "w + length src \<le> length buf \<Longrightarrow> ring_put buf w src = blit buf w src"
  by (auto simp: ring_put_def Let_def)

lemma ring_get_near: "r + n \<le> length buf \<Longrightarrow> ring_get buf r n = mem_slice buf r n"
  by (auto simp: ring_get_def Let_def)

lemma length_ring_view [simp]: "length (ring_view buf r n) = n"
  by (simp add: ring_view_def)

lemma nth_ring_view [ring_simps]:
  "i < n \<Longrightarrow> ring_view buf r n ! i = buf ! ((r + i) mod length buf)"
  by (simp add: ring_view_def)

lemma ring_view_0 [simp]: "ring_view buf r 0 = []"
  by (simp add: ring_view_def)

lemma ring_view_add [ring_simps]:
  "ring_view buf r (m + n) = ring_view buf r m @ ring_view buf ((r + m) mod length buf) n"
proof (rule nth_equalityI)
  fix i assume i: "i < length (ring_view buf r (m + n))"
  show "ring_view buf r (m + n) ! i
      = (ring_view buf r m @ ring_view buf ((r + m) mod length buf) n) ! i"
  proof (cases "i < m")
    case True
    then show ?thesis by (simp add: nth_append nth_ring_view)
  next
    case False
    then obtain k where "i = m + k" using le_Suc_ex by (metis not_less)
    then show ?thesis
      using i by (simp add: nth_append nth_ring_view mod_add_left_eq add.assoc)
  qed
qed simp

lemma ring_view_Suc:
  "ring_view buf r (Suc n) = ring_view buf r n @ [buf ! ((r + n) mod length buf)]"
  by (simp add: ring_view_def)

lemma ring_view_Cons:
  "ring_view buf r (Suc n) = buf ! (r mod length buf) # ring_view buf ((r + 1) mod length buf) n"
  using ring_view_add [of buf r 1 n] by (simp add: ring_view_def)

lemma take_ring_view [ring_simps]:
  "m \<le> n \<Longrightarrow> take m (ring_view buf r n) = ring_view buf r m"
  by (rule nth_equalityI) (auto simp: ring_simps)

lemma drop_ring_view [ring_simps]:
  "m \<le> n \<Longrightarrow> drop m (ring_view buf r n) = ring_view buf ((r + m) mod length buf) (n - m)"
  by (rule nth_equalityI) (auto simp: ring_simps mod_simps add.assoc)

lemma length_ring_put [simp]:
  "w < length buf \<Longrightarrow> length src \<le> length buf \<Longrightarrow> length (ring_put buf w src) = length buf"
  by (auto simp: ring_put_def Let_def)

lemma mod_in_ring:
  "w < n \<Longrightarrow> j < n \<Longrightarrow> (w + j) mod n = (if w + j < n then w + j else w + j - n)" for n :: nat
  by (simp add: mod_if)

lemma nth_ring_put:
  assumes "w < length buf" "length src \<le> length buf" "j < length buf"
  shows "ring_put buf w src ! ((w + j) mod length buf) =
    (if j < length src then src ! j else buf ! ((w + j) mod length buf))"
proof -
  have "(w + j) mod length buf < length buf"
    using assms by (intro mod_less_divisor) linarith
  then show ?thesis
    using assms
    by (auto simp: ring_put_def Let_def nth_blit mod_in_ring min_def)
qed

text \<open>Writing behind the content extends it; nothing of it is lost while it fits.\<close>

lemma ring_view_put:
  assumes N: "length buf > 0" and r: "r < length buf" and fits: "n + length src \<le> length buf"
  shows "ring_view (ring_put buf ((r + n) mod length buf) src) r (n + length src)
         = ring_view buf r n @ src"
proof -
  let ?N = "length buf" and ?w = "(r + n) mod length buf"
  have w: "?w < ?N" using N by simp
  have len: "length (ring_put buf ?w src) = ?N" using w fits by simp
  have old: "ring_put buf ?w src ! ((r + i) mod ?N) = buf ! ((r + i) mod ?N)" if "i < n" for i
  proof -
    have j: "?N - n + i < ?N" using that fits by simp
    have "(r + n + (?N - n + i)) mod ?N = (r + i + ?N) mod ?N"
      using that fits by (intro arg_cong [where f = "\<lambda>k. k mod ?N"]) simp
    then have "(?w + (?N - n + i)) mod ?N = (r + i) mod ?N"
      by (simp only: mod_add_left_eq mod_add_self2)
    moreover have "\<not> ?N - n + i < length src" using fits by simp
    ultimately show ?thesis
      using nth_ring_put [OF w _ j, of src] fits by simp
  qed
  have new: "ring_put buf ?w src ! ((r + (n + j)) mod ?N) = src ! j" if "j < length src" for j
    using nth_ring_put [OF w _, of src j] that fits by (simp add: mod_simps add.assoc)
  show ?thesis
  proof (rule nth_equalityI)
    fix i assume "i < length (ring_view (ring_put buf ?w src) r (n + length src))"
    then have i: "i < n + length src" by simp
    show "ring_view (ring_put buf ?w src) r (n + length src) ! i = (ring_view buf r n @ src) ! i"
    proof (cases "i < n")
      case True
      then show ?thesis using i by (simp add: nth_append ring_simps old len)
    next
      case False
      then obtain k where k: "i = n + k" using le_Suc_ex by (metis not_less)
      then have "ring_put buf ?w src ! ((?w + k) mod ?N) = src ! k"
        using i new [of k] by (simp add: mod_add_left_eq add.assoc)
      then show ?thesis
        using i k by (simp add: nth_append nth_ring_view ring_view_add len)
    qed
  qed simp
qed

text \<open>The two-segment read returns the front of the content.\<close>

lemma ring_get_view:
  assumes "r < length buf" "n \<le> length buf"
  shows "ring_get buf r n = ring_view buf r n"
proof (rule nth_equalityI)
  show "length (ring_get buf r n) = length (ring_view buf r n)"
    using assms by (auto simp: ring_get_def Let_def)
next
  fix i assume "i < length (ring_get buf r n)"
  moreover have "length (ring_get buf r n) = n"
    using assms by (auto simp: ring_get_def Let_def)
  ultimately have "i < n" by simp
  then show "ring_get buf r n ! i = ring_view buf r n ! i"
    using assms
    by (auto simp: ring_get_def Let_def ring_simps nth_mem_slice nth_append mod_in_ring add.commute)
qed

section \<open>The two segments as two copies\<close>

lemma blit_Nil [simp]: "off \<le> length b \<Longrightarrow> blit b off [] = b"
  by (simp add: blit_def)

lemma copy_near:
  assumes "w + n \<le> length b" "n \<le> length d"
  shows "mem_copy b w d 0 n = Some (ring_put b w (take n d))"
  using assms by (simp add: mem_copy_def mem_slice_0 ring_put_near)

lemma copy_far:
  assumes w: "w < length b" and n: "n \<le> length d" "n \<le> length b" "length b \<le> w + n"
  shows "mem_copy b w d 0 (length b - w) = Some (blit b w (take (length b - w) d))"
    and "mem_copy (blit b w (take (length b - w) d)) 0 d (length b - w) (n - (length b - w))
      = Some (ring_put b w (take n d))"
    and "n = length b - w \<Longrightarrow> blit b w (take (length b - w) d) = ring_put b w (take n d)"
proof -
  let ?k = "length b - w"
  have kn: "?k \<le> n" using n by simp
  have len: "length (blit b w (take ?k d)) = length b" using w n kn by simp
  have tk: "take ?k (take n d) = take ?k d" "drop ?k (take n d) = mem_slice d ?k (n - ?k)"
    using kn by (auto simp: mem_slice_def drop_take)
  show "mem_copy b w d 0 ?k = Some (blit b w (take ?k d))"
    using w n kn by (simp add: mem_copy_def mem_slice_0)
  show near: "blit b w (take ?k d) = ring_put b w (take n d)" if "n = ?k"
    using that w n by (simp add: ring_put_near)
  show "mem_copy (blit b w (take ?k d)) 0 d ?k (n - ?k) = Some (ring_put b w (take n d))"
  proof (cases "n = ?k")
    case True
    then have "mem_slice d ?k (n - ?k) = []" by (simp add: mem_slice_def)
    then show ?thesis using len n near True by (simp add: mem_copy_def)
  next
    case False
    then have "ring_put b w (take n d)
        = blit (blit b w (take ?k d)) 0 (mem_slice d ?k (n - ?k))"
      using n kn tk by (simp add: ring_put_def Let_def min_absorb2)
    then show ?thesis using len n by (simp add: mem_copy_def)
  qed
qed

lemma read_far:
  assumes "r < length b" "n \<le> length b" "length b \<le> r + n"
  shows "mem_read b r (length b - r) = Some (mem_slice b r (length b - r))"
    and "mem_read b 0 (n - (length b - r)) = Some (mem_slice b 0 (n - (length b - r)))"
    and "mem_slice b r (length b - r) @ mem_slice b 0 (n - (length b - r)) = ring_get b r n"
    and "n = length b - r \<Longrightarrow> mem_slice b r (length b - r) = ring_get b r n"
proof -
  have "n = length b - r" if "n \<le> length b - r" using that assms by simp
  then show "mem_slice b r (length b - r) @ mem_slice b 0 (n - (length b - r)) = ring_get b r n"
    using assms by (auto simp: ring_get_def Let_def mem_slice_0)
qed (use assms in \<open>auto simp: mem_read_def ring_get_def Let_def\<close>)

section \<open>First elements\<close>

lemma takeWhile_all_iff:
  "length (takeWhile (\<lambda>x. \<not> P x) xs) = length xs \<longleftrightarrow> (\<forall>x \<in> set xs. \<not> P x)"
  by (induction xs) auto

lemma find_takeWhile:
  "List.find P xs = (if \<forall>x \<in> set xs. \<not> P x then None
     else Some (xs ! length (takeWhile (\<lambda>x. \<not> P x) xs)))"
  by (induction xs) auto

lemma takeWhile_less:
  "\<exists>x \<in> set xs. P x \<Longrightarrow> length (takeWhile (\<lambda>x. \<not> P x) xs) < length xs"
  by (induction xs) auto

end
