(* ===== verification/Crc32.thy ===== *)
theory Crc32
  imports Prelude
begin

text \<open>
  The reflected CRC-32 of \<open>util/util.c\<close> (\<open>crc32_le\<close>) and of
  \<open>hw/common/source/comUart.c\<close> (\<open>jcrc32_le\<close>), which are the same loop. The target is
  32-bit ARM, where \<open>unsigned long\<close> has 32 bits. Shown: the checksum is incremental, and
  its state and input byte can be recovered, so that two equally long messages which
  differ in exactly one byte never have the same checksum.
\<close>

section \<open>The loop\<close>

definition CRCPOLY_LE :: u32 where
  "CRCPOLY_LE = 0xedb88320"

definition crc32_bit :: "u32 \<Rightarrow> u32" where
  "crc32_bit crc = drop_bit 1 crc XOR (if crc AND 1 \<noteq> 0 then CRCPOLY_LE else 0)"

definition crc32_byte :: "u32 \<Rightarrow> u8 \<Rightarrow> u32" where
  "crc32_byte crc p = (crc32_bit ^^ 8) (crc XOR ucast p)"

fun crc32_le :: "u32 \<Rightarrow> u8 list \<Rightarrow> u32" where
  "crc32_le crc [] = crc"
| "crc32_le crc (p # ps) = crc32_le (crc32_byte crc p) ps"

text \<open>\<open>jcrc32_le\<close> of the serial link is textually the same loop.\<close>

fun jcrc32_le :: "u32 \<Rightarrow> u8 list \<Rightarrow> u32" where
  "jcrc32_le crc [] = crc"
| "jcrc32_le crc (p # ps) =
     jcrc32_le ((((\<lambda>c. drop_bit 1 c XOR (if c AND 1 \<noteq> 0 then CRCPOLY_LE else 0)) ^^ 8)
       (crc XOR ucast p))) ps"

lemma jcrc32_le_eq: "jcrc32_le crc ps = crc32_le crc ps"
proof (induction ps arbitrary: crc)
  case (Cons p ps)
  have "(\<lambda>c. drop_bit 1 c XOR (if c AND 1 \<noteq> 0 then CRCPOLY_LE else 0)) = crc32_bit"
    by (rule ext) (simp add: crc32_bit_def)
  with Cons.IH show ?case by (simp only: jcrc32_le.simps crc32_le.simps crc32_byte_def)
qed simp

lemma crc32_le_append: "crc32_le crc (xs @ ys) = crc32_le (crc32_le crc xs) ys"
  by (induction xs arbitrary: crc) auto

section \<open>No information is lost\<close>

text \<open>The top bit of the polynomial is set, so the top bit of a step's result is the bit
  that was shifted out.\<close>

lemma crc32_bit_top: "bit (crc32_bit c) 31 \<longleftrightarrow> bit c 0"
proof -
  have "c AND 1 \<noteq> 0 \<longleftrightarrow> bit c 0"
    by (metis and_one_eq bit_0 even_iff_mod_2_eq_zero)
  moreover have "bit CRCPOLY_LE 31" by (simp add: CRCPOLY_LE_def)
  moreover have "\<not> bit (drop_bit 1 c) 31"
    using bit_imp_le_length [of c 32] by (auto simp: bit_drop_bit_eq)
  ultimately show ?thesis by (simp add: crc32_bit_def bit_xor_iff)
qed

lemma crc32_bit_inj: "crc32_bit c = crc32_bit d \<Longrightarrow> c = d"
proof -
  assume eq: "crc32_bit c = crc32_bit d"
  then have low: "bit c 0 = bit d 0" by (metis crc32_bit_top)
  then have "c AND 1 \<noteq> 0 \<longleftrightarrow> d AND 1 \<noteq> 0"
    by (metis and_one_eq bit_0 even_iff_mod_2_eq_zero)
  with eq have high: "drop_bit 1 c = drop_bit 1 d"
    by (auto simp: crc32_bit_def xor_right_cancel split: if_splits)
  show "c = d"
  proof (rule bit_word_eqI)
    fix n assume "n < LENGTH(32)"
    show "bit c n = bit d n"
    proof (cases n)
      case 0
      with low show ?thesis by simp
    next
      case (Suc m)
      with high show ?thesis
        by (metis bit_drop_bit_eq comp_apply plus_1_eq_Suc)
    qed
  qed
qed

lemma crc32_bits_inj: "(crc32_bit ^^ n) c = (crc32_bit ^^ n) d \<Longrightarrow> c = d"
  by (induction n) (auto dest: crc32_bit_inj)

lemma crc32_byte_inj_state: "crc32_byte c p = crc32_byte d p \<Longrightarrow> c = d"
  unfolding crc32_byte_def
  by (drule crc32_bits_inj) (simp add: xor_right_cancel)

lemma crc32_byte_inj_data: "crc32_byte c p = crc32_byte c q \<Longrightarrow> p = q"
proof -
  assume "crc32_byte c p = crc32_byte c q"
  then have "c XOR ucast p = c XOR ucast q"
    unfolding crc32_byte_def by (rule crc32_bits_inj)
  then have "(ucast p :: u32) = ucast q" by (simp add: xor_left_cancel)
  then have "bit (ucast p :: u32) n = bit (ucast q :: u32) n" for n by simp
  then have bits: "n < 32 \<and> bit p n \<longleftrightarrow> n < 32 \<and> bit q n" for n
    by (simp add: bit_ucast_iff)
  show "p = q"
  proof (rule bit_word_eqI)
    fix n assume "n < LENGTH(8)"
    then show "bit p n = bit q n" using bits [of n] by simp
  qed
qed

lemma crc32_le_inj_state: "crc32_le c ps = crc32_le d ps \<Longrightarrow> c = d"
  by (induction ps arbitrary: c d) (auto dest: crc32_byte_inj_state)

lemma crc32_le_one_byte:
  "crc32_le c (xs @ p # ys) = crc32_le c (xs @ q # ys) \<longleftrightarrow> p = q"
  by (auto simp: crc32_le_append dest!: crc32_le_inj_state dest: crc32_byte_inj_data)

end
