(* ===== verification/ByteFifo.thy ===== *)
theory ByteFifo
  imports Prelude
begin

text \<open>
  The contract of a byte FIFO, shared by the receive buffer of the network protocol
  (\<open>packsocket/packsocket.c\<close>) and the ring buffer of the serial drivers
  (\<open>hw/common/include/ringBuf.h\<close>): an accepted write appends its bytes to the content, a
  read that the content covers returns its front and removes it. The client's lemma is
  that over any sequence of operations the bytes leave in the order they came in, none
  lost and none repeated.
\<close>

datatype fifo_op = Put "u8 list" | Get nat

text \<open>A run of operations. A refused write or read leaves the state as it is; the result
  holds the bytes accepted and the bytes delivered, in order.\<close>

fun fifo_run :: "('s \<Rightarrow> u8 list \<Rightarrow> 's option) \<Rightarrow> ('s \<Rightarrow> nat \<Rightarrow> ('s \<times> u8 list) option) \<Rightarrow>
    's \<Rightarrow> fifo_op list \<Rightarrow> 's \<times> u8 list \<times> u8 list" where
  "fifo_run put get s [] = (s, [], [])"
| "fifo_run put get s (Put d # ops) =
     (case put s d of
        None \<Rightarrow> fifo_run put get s ops
      | Some s' \<Rightarrow> (case fifo_run put get s' ops of (t, ins, outs) \<Rightarrow> (t, d @ ins, outs)))"
| "fifo_run put get s (Get n # ops) =
     (case get s n of
        None \<Rightarrow> fifo_run put get s ops
      | Some (s', d) \<Rightarrow> (case fifo_run put get s' ops of (t, ins, outs) \<Rightarrow> (t, ins, d @ outs)))"

text \<open>What a client may ask for: every write fits when it is made.\<close>

fun fifo_admissible :: "('s \<Rightarrow> nat \<Rightarrow> bool) \<Rightarrow> ('s \<Rightarrow> u8 list \<Rightarrow> 's option) \<Rightarrow>
    ('s \<Rightarrow> nat \<Rightarrow> ('s \<times> u8 list) option) \<Rightarrow> 's \<Rightarrow> fifo_op list \<Rightarrow> bool" where
  "fifo_admissible fits put get s [] \<longleftrightarrow> True"
| "fifo_admissible fits put get s (Put d # ops) \<longleftrightarrow> fits s (length d) \<and>
     (case put s d of None \<Rightarrow> True | Some s' \<Rightarrow> fifo_admissible fits put get s' ops)"
| "fifo_admissible fits put get s (Get n # ops) \<longleftrightarrow>
     (case get s n of None \<Rightarrow> fifo_admissible fits put get s ops
      | Some (s', d) \<Rightarrow> fifo_admissible fits put get s' ops)"

locale byte_fifo =
  fixes good :: "'s \<Rightarrow> bool"
    and content :: "'s \<Rightarrow> u8 list"
    and fits :: "'s \<Rightarrow> nat \<Rightarrow> bool"
    and put :: "'s \<Rightarrow> u8 list \<Rightarrow> 's option"
    and get :: "'s \<Rightarrow> nat \<Rightarrow> ('s \<times> u8 list) option"
  assumes put_ok: "good s \<Longrightarrow> fits s (length d) \<Longrightarrow>
      \<exists>s'. put s d = Some s' \<and> good s' \<and> content s' = content s @ d"
    and get_ok: "good s \<Longrightarrow> n \<le> length (content s) \<Longrightarrow>
      \<exists>s'. get s n = Some (s', take n (content s)) \<and> good s' \<and> content s' = drop n (content s)"
    and get_short: "good s \<Longrightarrow> length (content s) < n \<Longrightarrow> get s n = None"
begin

lemma put_then_get:
  assumes "good s" "fits s (length d)" "content s = []"
  shows "\<exists>s' s''. put s d = Some s' \<and> get s' (length d) = Some (s'', d)
           \<and> good s'' \<and> content s'' = []"
proof -
  obtain s' where p: "put s d = Some s'" "good s'" "content s' = d"
    using put_ok [OF assms(1,2)] assms(3) by auto
  with get_ok [of s' "length d"] show ?thesis by auto
qed

lemma run_order:
  assumes "good s" "fifo_admissible fits put get s ops" "fifo_run put get s ops = (t, ins, outs)"
  shows "good t \<and> content s @ ins = outs @ content t"
  using assms
proof (induction ops arbitrary: s t ins outs)
  case Nil
  then show ?case by simp
next
  case (Cons x ops)
  show ?case
  proof (cases x)
    case (Put d)
    with Cons.prems obtain s' where s': "put s d = Some s'" "good s'" "content s' = content s @ d"
      using put_ok [of s d] by auto
    with Cons.prems Put obtain ins' where
      "fifo_run put get s' ops = (t, ins', outs)" "ins = d @ ins'" "fifo_admissible fits put get s' ops"
      by (auto split: prod.splits)
    with Cons.IH [of s' t ins' outs] s' show ?thesis by simp
  next
    case (Get n)
    show ?thesis
    proof (cases "n \<le> length (content s)")
      case True
      then obtain s' where s': "get s n = Some (s', take n (content s))" "good s'"
          "content s' = drop n (content s)"
        using get_ok Cons.prems(1) by blast
      with Cons.prems Get obtain outs' where "fifo_run put get s' ops = (t, ins, outs')"
        "outs = take n (content s) @ outs'" "fifo_admissible fits put get s' ops"
        by (auto split: prod.splits)
      moreover from this have "drop n (content s) @ ins = outs' @ content t" "good t"
        using Cons.IH [of s' t ins outs'] s' by auto
      moreover have "content s @ ins = take n (content s) @ drop n (content s) @ ins" by simp
      ultimately show ?thesis by simp
    next
      case False
      then have "get s n = None" using get_short Cons.prems(1) by simp
      then show ?thesis using Cons Get by simp
    qed
  qed
qed

end

end
