(* ===== verification/CmdFifo.thy ===== *)
theory CmdFifo
  imports ByteFifo "HOL-Library.Monad_Syntax"
begin

text \<open>
  The receive buffer of \<open>packsocket/packsocket.c\<close>: \<open>cmd_fifo_t\<close> with
  \<open>init_cmd_fifo\<close>, \<open>write_cmd_fifo\<close>, \<open>read_cmd_try_read\<close> and \<open>read_cmd_fifo\<close>. Counters are
  32-bit words as in the code; a copy that leaves its memory block is the result \<open>None\<close>.
  Shown: no operation leaves the buffer, the invariant is kept, and the buffer is a byte
  FIFO of 40960 bytes.
\<close>

definition SYNC_HEAD :: u16 where "SYNC_HEAD = 0x4747"
definition FIFO_MAX_LEN :: u32 where "FIFO_MAX_LEN = 40960"
definition PACKAGE_MAX_LEN :: u32 where "PACKAGE_MAX_LEN = 1600"

text \<open>\<open>sizeof(socket_cmd_head_info_t)\<close>: the header is packed, 2+2+4+2+2+2+2 bytes.\<close>

definition HEAD_LEN :: u32 where "HEAD_LEN = 16"

record cmd_fifo =
  ff_cmd :: "u8 list"
  ff_read :: u32
  ff_write :: u32
  ff_len :: u32
  ff_maxLen :: u32
  ff_bInit :: u32

section \<open>Operations\<close>

definition init_cmd_fifo :: "cmd_fifo \<Rightarrow> cmd_fifo" where
  "init_cmd_fifo f =
     (if ff_bInit f \<noteq> 1
      then f\<lparr>ff_len := 0, ff_maxLen := FIFO_MAX_LEN, ff_read := 0, ff_write := 0, ff_bInit := 1\<rparr>
      else f)"

definition write_cmd_fifo :: "cmd_fifo \<Rightarrow> u8 list \<Rightarrow> u32 \<Rightarrow> (cmd_fifo \<times> int) option" where
  "write_cmd_fifo f pData len =
     (if ff_len f + len > ff_maxLen f then Some (f, -1)
      else do {
        f1 \<leftarrow> (if ff_write f \<ge> ff_read f then
                (if ff_write f + len < ff_maxLen f then do {
                   c \<leftarrow> mem_copy (ff_cmd f) (unat (ff_write f)) pData 0 (unat len);
                   Some (f\<lparr>ff_cmd := c, ff_write := ff_write f + len\<rparr>)
                 } else (let len1 = ff_maxLen f - ff_write f in do {
                   c1 \<leftarrow> mem_copy (ff_cmd f) (unat (ff_write f)) pData 0 (unat len1);
                   c2 \<leftarrow> mem_copy c1 0 pData (unat len1) (unat (len - len1));
                   Some (f\<lparr>ff_cmd := c2, ff_write := len - len1\<rparr>)
                 }))
               else do {
                 c \<leftarrow> mem_copy (ff_cmd f) (unat (ff_write f)) pData 0 (unat len);
                 Some (f\<lparr>ff_cmd := c, ff_write := ff_write f + len\<rparr>)
               });
        Some (f1\<lparr>ff_len := ff_len f1 + len, ff_write := ff_write f1 mod ff_maxLen f1\<rparr>, 0)
      })"

text \<open>Big-endian fields of a byte block.\<close>

definition be16 :: "u8 list \<Rightarrow> nat \<Rightarrow> u16" where
  "be16 b i = push_bit 8 (ucast (b ! i)) OR ucast (b ! (i + 1))"

definition be32 :: "u8 list \<Rightarrow> nat \<Rightarrow> u32" where
  "be32 b i = push_bit 24 (ucast (b ! i)) OR push_bit 16 (ucast (b ! (i + 1)))
              OR push_bit 8 (ucast (b ! (i + 2))) OR ucast (b ! (i + 3))"

text \<open>\<open>read_cmd_try_read\<close>: outer \<open>None\<close> is a read outside the buffer; \<open>Some None\<close> is the
  code's \<open>-1\<close>; \<open>Some (Some n)\<close> is its \<open>0\<close> with \<open>*len = n\<close>.\<close>

definition read_cmd_try_read :: "cmd_fifo \<Rightarrow> u32 option option" where
  "read_cmd_try_read f =
     (if ff_len f \<ge> HEAD_LEN + 4 then do {
        let len1 = ff_maxLen f - ff_read f;
        hd16 \<leftarrow> (if len1 > HEAD_LEN then mem_read (ff_cmd f) (unat (ff_read f)) 16
                 else do {
                   a \<leftarrow> mem_read (ff_cmd f) (unat (ff_read f)) (unat len1);
                   b \<leftarrow> mem_read (ff_cmd f) 0 (unat (HEAD_LEN - len1));
                   Some (a @ b)
                 });
        if be16 hd16 0 = SYNC_HEAD then
          (let validLen = be16 hd16 14 in
           if ff_len f \<ge> HEAD_LEN + ucast validLen + 4
           then Some (Some (HEAD_LEN + ucast validLen + 4))
           else Some None)
        else Some None
      } else Some None)"

definition read_cmd_fifo :: "cmd_fifo \<Rightarrow> u32 \<Rightarrow> (cmd_fifo \<times> u8 list) option" where
  "read_cmd_fifo f len = do {
     b \<leftarrow> (if ff_read f + len > ff_maxLen f then (let len1 = ff_maxLen f - ff_read f in do {
             x \<leftarrow> mem_read (ff_cmd f) (unat (ff_read f)) (unat len1);
             y \<leftarrow> mem_read (ff_cmd f) 0 (unat (len - len1));
             Some (x @ y)
           })
           else mem_read (ff_cmd f) (unat (ff_read f)) (unat len));
     Some (f\<lparr>ff_read := (ff_read f + len) mod ff_maxLen f, ff_len := ff_len f - len\<rparr>, b)
   }"

section \<open>Invariant and content\<close>

definition fifo_inv :: "cmd_fifo \<Rightarrow> bool" where
  "fifo_inv f \<longleftrightarrow> length (ff_cmd f) = 40960 \<and> ff_maxLen f = FIFO_MAX_LEN \<and> ff_bInit f = 1
     \<and> unat (ff_read f) < 40960 \<and> unat (ff_len f) \<le> 40960
     \<and> unat (ff_write f) = (unat (ff_read f) + unat (ff_len f)) mod 40960"

definition fifo_content :: "cmd_fifo \<Rightarrow> u8 list" where
  "fifo_content f = ring_view (ff_cmd f) (unat (ff_read f)) (unat (ff_len f))"

lemma fifo_consts [simp]:
  "unat FIFO_MAX_LEN = 40960" "unat HEAD_LEN = 16"
  by (simp_all add: FIFO_MAX_LEN_def HEAD_LEN_def)

lemma length_fifo_content [simp]: "length (fifo_content f) = unat (ff_len f)"
  by (simp add: fifo_content_def)

lemma fifo_init:
  assumes "length (ff_cmd f) = 40960" "ff_bInit f \<noteq> 1"
  shows "fifo_inv (init_cmd_fifo f)" "fifo_content (init_cmd_fifo f) = []"
  using assms by (auto simp: fifo_inv_def init_cmd_fifo_def fifo_content_def)

lemma fifo_init_again [simp]: "fifo_inv f \<Longrightarrow> init_cmd_fifo f = f"
  by (simp add: fifo_inv_def init_cmd_fifo_def)

section \<open>Writing\<close>

text \<open>The three branches of the write all put the bytes behind the content.\<close>

lemma mem_copy_at:
  "off + length d \<le> length b \<Longrightarrow> mem_copy b off d 0 (length d) = Some (blit b off d)"
  by (simp add: mem_copy_def)

lemma write_cmd_fifo_put:
  assumes inv: "fifo_inv f" and n: "unat n \<le> length d" and fit: "unat (ff_len f) + unat n \<le> 40960"
  shows "\<exists>w. write_cmd_fifo f d n =
      Some (f\<lparr>ff_cmd := ring_put (ff_cmd f) (unat (ff_write f)) (take (unat n) d),
              ff_len := ff_len f + n, ff_write := w\<rparr>, 0)
    \<and> unat w = (unat (ff_write f) + unat n) mod 40960"
proof -
  have N: "length (ff_cmd f) = 40960" using inv by (simp add: fifo_inv_def)
  let ?w = "unat (ff_write f)" and ?r = "unat (ff_read f)" and ?l = "unat (ff_len f)"
  have max: "unat (ff_maxLen f) = 40960" using inv by (simp add: fifo_inv_def)
  have w: "?w < 40960" using inv by (simp add: fifo_inv_def)
  have ok: "\<not> ff_len f + n > ff_maxLen f"
    using fit max by (simp add: word_nat not_less)
  have wn: "unat (ff_write f + n) = ?w + unat n" using w fit by (simp add: word_nat)
  show ?thesis
  proof (cases "ff_write f \<ge> ff_read f")
    case True
    show ?thesis
    proof (cases "ff_write f + n < ff_maxLen f")
      case lt: True
      then have le: "?w + unat n < 40960" using wn max by (simp add: word_nat)
      then have "mem_copy (ff_cmd f) ?w d 0 (unat n) = Some (ring_put (ff_cmd f) ?w (take (unat n) d))"
        using N n by (simp add: copy_near)
      then show ?thesis
        using ok True lt wn max
        by (auto simp: write_cmd_fifo_def word_nat)
    next
      case ge: False
      let ?k = "40960 - ?w"
      have k: "unat (ff_maxLen f - ff_write f) = ?k" using max w by (simp add: word_nat)
      have kn: "?k \<le> unat n" using ge wn max by (simp add: word_nat)
      have nk: "unat (n - (ff_maxLen f - ff_write f)) = unat n - ?k"
        using kn k by (simp add: word_nat)
      have le: "unat n \<le> length (ff_cmd f)" "length (ff_cmd f) \<le> ?w + unat n" "?w < length (ff_cmd f)"
        using N fit kn w by simp_all
      note copies = copy_far [OF le(3) n le(1,2), unfolded N]
      have "(unat n - ?k + 40960) mod 40960 = (?w + unat n) mod 40960"
        using kn w by (intro arg_cong [where f = "\<lambda>x. x mod 40960"]) linarith
      then have "unat ((n - (ff_maxLen f - ff_write f)) mod ff_maxLen f) = (?w + unat n) mod 40960"
        using nk max by (simp only: unat_mod_exact mod_add_self2)
      moreover have "write_cmd_fifo f d n =
        Some (f\<lparr>ff_cmd := ring_put (ff_cmd f) ?w (take (unat n) d), ff_len := ff_len f + n,
          ff_write := (n - (ff_maxLen f - ff_write f)) mod ff_maxLen f\<rparr>, 0)"
        using ok True ge k nk copies(1,2) by (simp add: write_cmd_fifo_def Let_def)
      ultimately show ?thesis by blast
    qed
  next
    case False
    then have lt: "?w < ?r" by (simp add: word_nat)
    have r: "?r < 40960" and wr: "?w = (?r + ?l) mod 40960"
      using inv by (simp_all add: fifo_inv_def)
    have le: "?w + unat n < 40960"
      using lt fit r unfolding wr by (simp add: mod_if split: if_splits)
    then have "mem_copy (ff_cmd f) ?w d 0 (unat n) = Some (ring_put (ff_cmd f) ?w (take (unat n) d))"
      using N n by (simp add: copy_near)
    then show ?thesis
      using ok False wn max
      by (auto simp: write_cmd_fifo_def word_nat)
  qed
qed

lemma write_cmd_fifo_ok:
  assumes inv: "fifo_inv f" and n: "unat n \<le> length d" and fit: "unat (ff_len f) + unat n \<le> 40960"
  shows "\<exists>f'. write_cmd_fifo f d n = Some (f', 0) \<and> fifo_inv f'
    \<and> fifo_content f' = fifo_content f @ take (unat n) d"
proof -
  from write_cmd_fifo_put [OF assms] obtain w where w: "write_cmd_fifo f d n =
      Some (f\<lparr>ff_cmd := ring_put (ff_cmd f) (unat (ff_write f)) (take (unat n) d),
              ff_len := ff_len f + n, ff_write := w\<rparr>, 0)"
    and wpos: "unat w = (unat (ff_write f) + unat n) mod 40960" by blast
  note inv' = inv [unfolded fifo_inv_def]
  have len: "unat (ff_len f + n) = unat (ff_len f) + unat n" using fit by (simp add: word_nat)
  have "ring_view (ring_put (ff_cmd f) (unat (ff_write f)) (take (unat n) d)) (unat (ff_read f))
          (unat (ff_len f) + unat n)
        = ring_view (ff_cmd f) (unat (ff_read f)) (unat (ff_len f)) @ take (unat n) d"
    using ring_view_put [of "ff_cmd f" "unat (ff_read f)" "unat (ff_len f)" "take (unat n) d"]
      inv' fit n min_absorb2 [OF n] by simp
  with w wpos len show ?thesis
    using inv' fit n by (auto simp: fifo_inv_def fifo_content_def mod_simps add.assoc)
qed

text \<open>A write that does not fit is refused and changes nothing. The test is made on wrapped
  32-bit sums; it is exact for every length below \<open>2 ^ 32 - 40960\<close>.\<close>

lemma write_cmd_fifo_refused:
  assumes "fifo_inv f" "40960 < unat (ff_len f) + unat n" "unat n < 2 ^ 32 - 40960"
  shows "write_cmd_fifo f d n = Some (f, -1)"
  using assms by (simp add: write_cmd_fifo_def fifo_inv_def word_nat)

section \<open>Reading\<close>

lemma read_cmd_fifo_ok:
  assumes inv: "fifo_inv f" and n: "unat n \<le> unat (ff_len f)"
  shows "\<exists>f'. read_cmd_fifo f n = Some (f', take (unat n) (fifo_content f)) \<and> fifo_inv f'
    \<and> fifo_content f' = drop (unat n) (fifo_content f)"
proof -
  note inv' = inv [unfolded fifo_inv_def]
  let ?r = "unat (ff_read f)" and ?f' = "f\<lparr>ff_read := (ff_read f + n) mod ff_maxLen f,
    ff_len := ff_len f - n\<rparr>"
  have rn: "unat (ff_read f + n) = ?r + unat n" using inv' n by (simp add: word_nat)
  have bytes: "ring_get (ff_cmd f) ?r (unat n) = take (unat n) (fifo_content f)"
    using inv' n by (simp add: ring_get_view fifo_content_def take_ring_view)
  have "read_cmd_fifo f n = Some (?f', ring_get (ff_cmd f) ?r (unat n))"
  proof (cases "ff_read f + n > ff_maxLen f")
    case True
    then have gt: "40960 < ?r + unat n" using rn inv' by (simp add: word_nat)
    have k: "unat (ff_maxLen f - ff_read f) = 40960 - ?r" using inv' by (simp add: word_nat)
    then have "unat (n - (ff_maxLen f - ff_read f)) = unat n - (40960 - ?r)"
      using gt by (simp add: word_nat)
    moreover have "\<not> unat n \<le> 40960 - ?r" "unat n - (40960 - ?r) \<le> 40960"
      using gt n inv' by linarith+
    ultimately show ?thesis
      using True inv' k
      by (simp add: read_cmd_fifo_def Let_def mem_read_def ring_get_def del: diff_diff_right)
  next
    case False
    then show ?thesis
      using rn inv' by (simp add: read_cmd_fifo_def mem_read_def ring_get_near word_nat)
  qed
  moreover have "unat (ff_len f - n) = unat (ff_len f) - unat n" using n by (simp add: word_nat)
  moreover have "unat ((ff_read f + n) mod ff_maxLen f) = (?r + unat n) mod 40960"
    using rn inv' by (simp add: word_nat)
  moreover have "((?r + unat n) mod 40960 + (unat (ff_len f) - unat n)) mod 40960
      = (?r + unat (ff_len f)) mod 40960"
    using n by (simp only: mod_add_left_eq) simp
  moreover from calculation(2-4) have "fifo_inv ?f'"
    using inv' n le_trans [OF diff_le_self] by (simp add: fifo_inv_def)
  ultimately show ?thesis
    using bytes inv' n by (auto simp: fifo_content_def drop_ring_view)
qed

section \<open>The test for a complete frame\<close>

text \<open>What \<open>read_cmd_try_read\<close> decides, on the content: the content starts with the sync
  word and holds the whole frame that its length field announces.\<close>

definition frame_ready :: "u8 list \<Rightarrow> nat option" where
  "frame_ready c =
     (if 20 \<le> length c \<and> be16 c 0 = SYNC_HEAD \<and> 20 + unat (be16 c 14) \<le> length c
      then Some (20 + unat (be16 c 14)) else None)"

lemma be16_take: "i + 1 < n \<Longrightarrow> be16 (take n c) i = be16 c i"
  by (simp add: be16_def)

lemma unat_frame_len: "unat (HEAD_LEN + ucast (v :: u16) + 4) = 20 + unat v"
proof -
  have v: "unat (ucast v :: u32) = unat v" by (simp add: unat_ucast_up)
  have "unat v < 2 ^ 16" using unsigned_less [of v] by simp
  with v have "unat (HEAD_LEN + ucast v) = 16 + unat v" by (subst unat_add_exact) simp_all
  with \<open>unat v < 2 ^ 16\<close> show ?thesis by (subst unat_add_exact) simp_all
qed

lemma read_cmd_try_read_ready:
  assumes inv: "fifo_inv f"
  shows "read_cmd_try_read f = Some (map_option word_of_nat (frame_ready (fifo_content f)))"
proof (cases "20 \<le> unat (ff_len f)")
  case False
  then have "\<not> ff_len f \<ge> HEAD_LEN + 4"
    by (simp add: word_le_nat_alt HEAD_LEN_def)
  then show ?thesis using False by (simp add: read_cmd_try_read_def frame_ready_def)
next
  case True
  let ?r = "unat (ff_read f)" and ?c = "fifo_content f"
  have N: "length (ff_cmd f) = 40960" and r: "?r < 40960" and max: "ff_maxLen f = FIFO_MAX_LEN"
    using inv by (simp_all add: fifo_inv_def)
  have ge: "ff_len f \<ge> HEAD_LEN + 4"
    using True by (simp add: word_le_nat_alt HEAD_LEN_def)
  have hd16: "ring_get (ff_cmd f) ?r 16 = take 16 ?c"
    using N r True by (simp add: ring_get_view fifo_content_def take_ring_view)
  have k: "unat (ff_maxLen f - ff_read f) = 40960 - ?r" using r max by (simp add: word_nat)
  have hd: "(if ff_maxLen f - ff_read f > HEAD_LEN then mem_read (ff_cmd f) ?r 16
      else do {
        a \<leftarrow> mem_read (ff_cmd f) ?r (unat (ff_maxLen f - ff_read f));
        b \<leftarrow> mem_read (ff_cmd f) 0 (unat (HEAD_LEN - (ff_maxLen f - ff_read f)));
        Some (a @ b)
      }) = Some (take 16 ?c)"
  proof (cases "ff_maxLen f - ff_read f > HEAD_LEN")
    case far: True
    then have "16 < 40960 - ?r" using k by (simp add: word_less_nat_alt)
    then show ?thesis
      using far N hd16 by (simp add: mem_read_def ring_get_near)
  next
    case False
    then have le: "40960 - ?r \<le> 16" using k by (simp add: word_less_nat_alt)
    then have "unat (HEAD_LEN - (ff_maxLen f - ff_read f)) = 16 - (40960 - ?r)"
      using k by (simp add: word_nat)
    moreover have "ring_get (ff_cmd f) ?r 16
        = mem_slice (ff_cmd f) ?r (40960 - ?r) @ mem_slice (ff_cmd f) 0 (16 - (40960 - ?r))"
    proof (cases "40960 - ?r = 16")
      case True
      then show ?thesis using N by (simp add: ring_get_def mem_slice_def)
    next
      case neq: False
      then have "\<not> 16 \<le> 40960 - ?r" using le by linarith
      then show ?thesis using N by (simp add: ring_get_def Let_def)
    qed
    ultimately show ?thesis
      using False k N r le hd16 by (simp add: mem_read_def del: diff_diff_right)
  qed
  have cmp: "ff_len f \<ge> HEAD_LEN + ucast (v :: u16) + 4 \<longleftrightarrow> 20 + unat v \<le> unat (ff_len f)" for v
    by (simp add: word_le_nat_alt unat_frame_len)
  have num: "(word_of_nat (20 + unat v) :: u32) = HEAD_LEN + ucast (v :: u16) + 4" for v
    by (simp flip: unat_frame_len)
  show ?thesis
    using True ge num [symmetric]
    by (simp add: read_cmd_try_read_def Let_def hd [unfolded Let_def] frame_ready_def be16_take cmp)
qed

section \<open>The buffer is a byte FIFO\<close>

definition fifo_put :: "cmd_fifo \<Rightarrow> u8 list \<Rightarrow> cmd_fifo option" where
  "fifo_put f d = (case write_cmd_fifo f d (word_of_nat (length d)) of
     Some (f', r) \<Rightarrow> if r = 0 then Some f' else None | None \<Rightarrow> None)"

definition fifo_get :: "cmd_fifo \<Rightarrow> nat \<Rightarrow> (cmd_fifo \<times> u8 list) option" where
  "fifo_get f n = (if n \<le> unat (ff_len f) then read_cmd_fifo f (word_of_nat n) else None)"

definition fifo_fits :: "cmd_fifo \<Rightarrow> nat \<Rightarrow> bool" where
  "fifo_fits f n \<longleftrightarrow> unat (ff_len f) + n \<le> 40960"

interpretation cf: byte_fifo fifo_inv fifo_content fifo_fits fifo_put fifo_get
proof unfold_locales
  fix f and d :: "u8 list" assume inv: "fifo_inv f" and fit: "fifo_fits f (length d)"
  then have "unat (word_of_nat (length d) :: u32) = length d"
    by (simp add: fifo_fits_def word_nat)
  then show "\<exists>f'. fifo_put f d = Some f' \<and> fifo_inv f' \<and> fifo_content f' = fifo_content f @ d"
    using write_cmd_fifo_ok [OF inv, of "word_of_nat (length d)" d] fit
    by (auto simp: fifo_put_def fifo_fits_def)
next
  fix f n assume inv: "fifo_inv f" and n: "n \<le> length (fifo_content f)"
  then have "unat (word_of_nat n :: u32) = n"
    by (simp add: fifo_inv_def word_nat)
  then show "\<exists>f'. fifo_get f n = Some (f', take n (fifo_content f)) \<and> fifo_inv f'
      \<and> fifo_content f' = drop n (fifo_content f)"
    using read_cmd_fifo_ok [OF inv, of "word_of_nat n"] n by (simp add: fifo_get_def)
next
  fix f n assume "fifo_inv f" "length (fifo_content f) < n"
  then show "fifo_get f n = None" by (simp add: fifo_get_def)
qed

end
