(* ===== verification/PackSocket.thy ===== *)
theory PackSocket
  imports Crc32 CmdFifo
begin

text \<open>
  The network packet protocol, \<open>packsocket/packsocket.c\<close>: \<open>sendSocketCmd\<close> builds a frame,
  \<open>recvSocketCmd\<close> queues received bytes, \<open>parseSocketCmd\<close> takes frames out of the buffer,
  keeps them in a linked list until every part of a command is there, and returns the
  joined command. The list is modelled in a store of nodes, because the removal of a
  finished command depends on how the nodes are linked: \<open>None\<close> stands for a dereference
  of a freed or null node or for a copy outside a block. Allocation is by fresh addresses.
\<close>

section \<open>Data\<close>

record sock_info =
  si_sync :: u16
  si_cmd :: u16
  si_ipnum :: u32
  si_curNo :: u16
  si_lastNo :: u16
  si_type :: u16
  si_length :: u16
  si_pValid :: "u8 list"
  si_crc :: u32

record socket_cmd =
  sk_cmd :: u16
  sk_type :: u16
  sk_ipnum :: u32
  sk_len :: u32
  sk_pcmd :: "u8 list"

type_synonym recv_heap = "nat \<rightharpoonup> (sock_info \<times> nat)"

record sock_class =
  sc_head :: nat
  sc_heap :: recv_heap
  sc_brk :: nat
  sc_fifo :: cmd_fifo

section \<open>Sending\<close>

definition int2buffer :: "u32 \<Rightarrow> u8 list" where
  "int2buffer d = [ucast (drop_bit 24 d), ucast (drop_bit 16 d AND 0xFF),
                   ucast (drop_bit 8 d AND 0xFF), ucast (d AND 0xFF)]"

definition short2buffer :: "u16 \<Rightarrow> u8 list" where
  "short2buffer d = [ucast (drop_bit 8 d AND 0xFF), ucast (d AND 0xFF)]"

definition getPackageMaxLen :: u32 where
  "getPackageMaxLen = PACKAGE_MAX_LEN"

text \<open>The bytes written to the send buffer for one packet descriptor.\<close>

definition frame_bytes :: "sock_info \<Rightarrow> u8 list" where
  "frame_bytes i =
     short2buffer (si_sync i) @ short2buffer (si_cmd i) @ int2buffer (si_ipnum i)
     @ short2buffer (si_curNo i) @ short2buffer (si_lastNo i) @ short2buffer (si_type i)
     @ short2buffer (si_length i)
     @ (if si_length i \<noteq> 0 then take (unat (si_length i)) (si_pValid i) else [])
     @ int2buffer (si_crc i)"

definition send_info :: "u32 \<Rightarrow> u32 \<Rightarrow> u16 \<Rightarrow> u16 \<Rightarrow> u8 list \<Rightarrow> u32 \<Rightarrow> sock_info" where
  "send_info typeCmd ipnum curNo lastNo pData len =
     (let i = \<lparr>si_sync = SYNC_HEAD, si_cmd = ucast (typeCmd AND 0xFFFF), si_ipnum = ipnum,
               si_curNo = curNo, si_lastNo = lastNo, si_type = ucast (drop_bit 16 typeCmd),
               si_length = 0, si_pValid = [], si_crc = 0\<rparr>
      in if len = 0 then i
         else i\<lparr>si_length := ucast len, si_pValid := take (unat len) pData,
                si_crc := crc32_le CRCPOLY_LE (take (unat (ucast len :: u16)) (take (unat len) pData))\<rparr>)"

text \<open>\<open>send\<close> of the socket library is the parameter \<open>snd_fn\<close>: it takes the frame and returns
  its result. The value is the returned flag and the frame handed to \<open>send\<close>, if any;
  \<open>None\<close> when \<open>len\<close> exceeds the caller's data.\<close>

definition sendSocketCmd :: "(u8 list \<Rightarrow> int) \<Rightarrow> int \<Rightarrow> u32 \<Rightarrow> u32 \<Rightarrow> u16 \<Rightarrow> u16 \<Rightarrow> u8 list \<Rightarrow> u32
    \<Rightarrow> (int \<times> u8 list option) option" where
  "sendSocketCmd snd_fn sendFd typeCmd ipnum curNo lastNo pData len =
     (if sendFd = -1 then Some (-1, None)
      else if unat len > length pData then None
      else let b = frame_bytes (send_info typeCmd ipnum curNo lastNo pData len) in
           Some (if snd_fn b \<le> 0 then -1 else 0, Some b))"

section \<open>The receive list\<close>

definition initRecvCmdList :: "sock_class \<Rightarrow> sock_class" where
  "initRecvCmdList s = s\<lparr>sc_head := 0\<rparr>"

text \<open>The walk to the last node: \<open>prev\<close> is the node before \<open>temp\<close>.\<close>

partial_function (option) walk_end :: "recv_heap \<Rightarrow> nat \<Rightarrow> nat \<Rightarrow> nat option" where
  "walk_end h temp prev =
     (if temp = 0 then Some prev
      else case h temp of None \<Rightarrow> None | Some (i, q) \<Rightarrow> walk_end h q temp)"

definition addRecvList :: "sock_class \<Rightarrow> nat \<Rightarrow> sock_class option" where
  "addRecvList s p =
     (if sc_head s = 0 then Some (s\<lparr>sc_head := p\<rparr>)
      else do {
        prev \<leftarrow> walk_end (sc_heap s) (sc_head s) 0;
        (j, _) \<leftarrow> sc_heap s prev;
        Some (s\<lparr>sc_heap := (sc_heap s)(prev \<mapsto> (j, p))\<rparr>)
      })"

text \<open>\<open>_checkRecvList2\<close>: the number of parts comes from the first node of the command; the
  parts are counted, their numbers are not looked at.\<close>

partial_function (option) checkRecvList2_walk ::
    "recv_heap \<Rightarrow> u16 \<Rightarrow> nat \<Rightarrow> int \<Rightarrow> int \<Rightarrow> bool option" where
  "checkRecvList2_walk h c p num totalnum =
     (if p = 0 then Some False
      else case h p of None \<Rightarrow> None | Some (i, q) \<Rightarrow>
        (let num' = (if si_cmd i = c then num + 1 else num);
             total' = (if si_cmd i = c \<and> totalnum = -1 then int (unat (si_lastNo i)) + 1
                       else totalnum)
         in if num' = total' then Some True else checkRecvList2_walk h c q num' total'))"

definition checkRecvList2 :: "sock_class \<Rightarrow> u16 \<Rightarrow> bool option" where
  "checkRecvList2 s c = checkRecvList2_walk (sc_heap s) c (sc_head s) 0 (-1)"

text \<open>\<open>_destoryRecvList2\<close>: nodes of the command are freed while the list is walked; the link
  of the node before is rewritten only when the freed node is the last one.\<close>

partial_function (option) destoryRecvList2_walk ::
    "u16 \<Rightarrow> recv_heap \<Rightarrow> nat \<Rightarrow> nat \<Rightarrow> nat \<Rightarrow> (recv_heap \<times> nat) option" where
  "destoryRecvList2_walk c h head prv tmp =
     (if tmp = 0 then Some (h, head)
      else case h tmp of None \<Rightarrow> None | Some (i, q) \<Rightarrow>
        if si_cmd i = c then do {
          h1 \<leftarrow> (if q = 0 \<and> prv \<noteq> 0
                 then (case h prv of None \<Rightarrow> None | Some (j, _) \<Rightarrow> Some (h(prv \<mapsto> (j, 0))))
                 else Some h);
          destoryRecvList2_walk c (h1(tmp := None)) (if prv = 0 then q else head) prv q
        } else destoryRecvList2_walk c h head tmp q)"

definition destoryRecvList2 :: "sock_class \<Rightarrow> u16 \<Rightarrow> sock_class option" where
  "destoryRecvList2 s c = do {
     (h, head) \<leftarrow> destoryRecvList2_walk c (sc_heap s) (sc_head s) 0 (sc_head s);
     Some (s\<lparr>sc_heap := h, sc_head := head\<rparr>)
   }"

text \<open>\<open>_destoryRecvList\<close> frees the whole list.\<close>

partial_function (option) destoryRecvList_walk :: "recv_heap \<Rightarrow> nat \<Rightarrow> recv_heap option" where
  "destoryRecvList_walk h tmp =
     (if tmp = 0 then Some h
      else case h tmp of None \<Rightarrow> None | Some (i, q) \<Rightarrow> destoryRecvList_walk (h(tmp := None)) q)"

definition destoryRecvList :: "sock_class \<Rightarrow> sock_class option" where
  "destoryRecvList s = do {
     h \<leftarrow> destoryRecvList_walk (sc_heap s) (sc_head s);
     Some (s\<lparr>sc_heap := h, sc_head := 0\<rparr>)
   }"

section \<open>Receiving\<close>

definition init_class_fifo :: "sock_class \<Rightarrow> sock_class" where
  "init_class_fifo s =
     (if ff_bInit (sc_fifo s) \<noteq> 1
      then initRecvCmdList (s\<lparr>sc_fifo := init_cmd_fifo (sc_fifo s)\<rparr>) else s)"

definition recvSocketCmd :: "sock_class \<Rightarrow> u8 list \<Rightarrow> u32 \<Rightarrow> sock_class option" where
  "recvSocketCmd s pData len =
     (let s0 = init_class_fifo s in
      do { (f, r) \<leftarrow> write_cmd_fifo (sc_fifo s0) pData len;
           Some (s0\<lparr>sc_fifo := f\<rparr>) })"

text \<open>The fields of a frame buffer, with the verdict of the checksum test.\<close>

definition frame_info :: "u8 list \<Rightarrow> sock_info" where
  "frame_info b =
     (let validLen = be16 b 14 in
      \<lparr>si_sync = SYNC_HEAD, si_cmd = be16 b 2, si_ipnum = be32 b 4, si_curNo = be16 b 8,
       si_lastNo = be16 b 10, si_type = be16 b 12, si_length = validLen,
       si_pValid = (if validLen > 0 then mem_slice b 16 (unat validLen) else []),
       si_crc = be32 b (unat validLen + 16)\<rparr>)"

definition frame_crc_ok :: "u8 list \<Rightarrow> bool" where
  "frame_crc_ok b =
     (let validLen = unat (be16 b 14); crc = be32 b (validLen + 16) in
      crc = 0 \<or> crc = crc32_le CRCPOLY_LE (mem_slice b 16 validLen))"

definition addcmd :: "socket_cmd \<Rightarrow> u8 list \<Rightarrow> u16 \<Rightarrow> socket_cmd" where
  "addcmd k pcmd len =
     k\<lparr>sk_pcmd := take (unat (sk_len k)) (sk_pcmd k) @ take (unat len) pcmd,
       sk_len := sk_len k + ucast len\<rparr>"

partial_function (option) join_walk :: "recv_heap \<Rightarrow> u16 \<Rightarrow> nat \<Rightarrow> socket_cmd \<Rightarrow> socket_cmd option" where
  "join_walk h c p k =
     (if p = 0 then Some k
      else case h p of None \<Rightarrow> None | Some (i, q) \<Rightarrow>
        join_walk h c q
          (if si_length i > 0 \<and> si_cmd i = c then addcmd k (si_pValid i) (si_length i) else k))"

definition push_frame :: "sock_class \<Rightarrow> u8 list \<Rightarrow> sock_class option" where
  "push_frame s b =
     (if frame_crc_ok b
      then addRecvList (s\<lparr>sc_heap := (sc_heap s)(sc_brk s \<mapsto> (frame_info b, 0)),
                          sc_brk := sc_brk s + 1\<rparr>) (sc_brk s)
      else Some s)"

definition take_command :: "sock_class \<Rightarrow> sock_info \<Rightarrow> (sock_class \<times> socket_cmd) option" where
  "take_command s i = do {
     k \<leftarrow> join_walk (sc_heap s) (si_cmd i) (sc_head s)
            \<lparr>sk_cmd = si_cmd i, sk_type = si_type i, sk_ipnum = si_ipnum i, sk_len = 0, sk_pcmd = []\<rparr>;
     s' \<leftarrow> destoryRecvList2 s (si_cmd i);
     Some (s', k)
   }"

partial_function (option) parse_loop :: "sock_class \<Rightarrow> (sock_class \<times> socket_cmd option) option" where
  "parse_loop s = do {
     r \<leftarrow> read_cmd_try_read (sc_fifo s);
     (case r of
        None \<Rightarrow> Some (s, None)
      | Some readLen \<Rightarrow> do {
          fb \<leftarrow> read_cmd_fifo (sc_fifo s) readLen;
          s1 \<leftarrow> push_frame (s\<lparr>sc_fifo := fst fb\<rparr>) (snd fb);
          complete \<leftarrow> checkRecvList2 s1 (si_cmd (frame_info (snd fb)));
          (if complete then do {
             r2 \<leftarrow> take_command s1 (frame_info (snd fb));
             Some (fst r2, Some (snd r2))
           } else parse_loop s1)
        })
   }"

definition parseSocketCmd :: "sock_class \<Rightarrow> (sock_class \<times> socket_cmd option) option" where
  "parseSocketCmd s = parse_loop (init_class_fifo s)"

section \<open>Setting up\<close>

text \<open>\<open>init_socket_cmd_class\<close>: the function pointers are the operations above; the buffer
  \<open>mem\<close> of \<open>recvFifoLen\<close> bytes is what \<open>malloc\<close> gives, its content arbitrary. The other
  fields of the class object keep what the client's memory holds.\<close>

definition init_socket_cmd_class :: "u8 list \<Rightarrow> sock_class \<Rightarrow> sock_class" where
  "init_socket_cmd_class mem s = s\<lparr>sc_fifo := (sc_fifo s)\<lparr>ff_cmd := mem\<rparr>\<rparr>"

end
