(* ===== verification/PackList.thy ===== *)
theory PackList
  imports PackSocket
begin

text \<open>
  The receive list of \<open>packsocket/packsocket.c\<close> as a list: what each pointer operation of
  the theory PackSocket does to the sequence of nodes. Removing a finished command is
  right when its parts stand at the two ends of the list; when a part stands between two
  nodes of other commands, the link of the node before is left pointing to freed memory.
\<close>

section \<open>Paths through the nodes\<close>

fun rpath :: "recv_heap \<Rightarrow> nat \<Rightarrow> (nat \<times> sock_info) list \<Rightarrow> nat \<Rightarrow> bool" where
  "rpath h p [] q \<longleftrightarrow> p = q"
| "rpath h p (x # xs) q \<longleftrightarrow> p = fst x \<and> fst x \<noteq> 0 \<and> (\<exists>r. h (fst x) = Some (snd x, r) \<and> rpath h r xs q)"

lemma rpath_append [simp]:
  "rpath h p (xs @ ys) q \<longleftrightarrow> (\<exists>r. rpath h p xs r \<and> rpath h r ys q)"
  by (induction xs arbitrary: p) auto

lemma rpath_upd [simp]:
  "a \<notin> fst ` set xs \<Longrightarrow> rpath (h(a := v)) p xs q = rpath h p xs q"
  by (induction xs arbitrary: p) auto

lemma rpath_restrict:
  "A \<inter> fst ` set xs = {} \<Longrightarrow> rpath (h |` (- A)) p xs q = rpath h p xs q"
  by (induction xs arbitrary: p) (auto simp: restrict_map_def)

lemma rpath_null [simp]: "rpath h 0 xs 0 \<longleftrightarrow> xs = []"
  by (cases xs) auto

lemma rpath_snoc:
  "rpath h p (xs @ [x]) t \<Longrightarrow> fst x \<notin> fst ` set xs \<Longrightarrow>
   rpath (h(fst x \<mapsto> (snd x, b))) p (xs @ [x]) b"
  by auto

text \<open>The list held by a class object: distinct nodes below the allocation mark.\<close>

definition recv_ok :: "sock_class \<Rightarrow> (nat \<times> sock_info) list \<Rightarrow> bool" where
  "recv_ok s xs \<longleftrightarrow> rpath (sc_heap s) (sc_head s) xs 0 \<and> distinct (map fst xs)
     \<and> (\<forall>x \<in> set xs. fst x < sc_brk s) \<and> 0 < sc_brk s"

lemma recv_ok_fifo [simp]: "recv_ok (s\<lparr>sc_fifo := f\<rparr>) xs = recv_ok s xs"
  by (simp add: recv_ok_def)

section \<open>Walks\<close>

lemma walk_end_path:
  "rpath h p xs 0 \<Longrightarrow> walk_end h p prev = Some (last (prev # map fst xs))"
proof (induction xs arbitrary: p prev)
  case Nil
  then show ?case by (simp add: walk_end.simps)
next
  case (Cons x xs)
  then show ?case by (auto simp: walk_end.simps [of h "fst x"] split: if_splits)
qed

lemma addRecvList_ok:
  assumes ok: "recv_ok s xs"
  shows "\<exists>s'. addRecvList (s\<lparr>sc_heap := (sc_heap s)(sc_brk s \<mapsto> (i, 0)), sc_brk := sc_brk s + 1\<rparr>)
             (sc_brk s) = Some s'
    \<and> recv_ok s' (xs @ [(sc_brk s, i)]) \<and> sc_fifo s' = sc_fifo s"
proof (cases xs rule: rev_cases)
  case Nil
  with ok show ?thesis by (auto simp: recv_ok_def addRecvList_def)
next
  case (snoc ys y)
  let ?a = "sc_brk s" and ?h = "(sc_heap s)(sc_brk s \<mapsto> (i, 0))"
  have fresh: "?a \<notin> fst ` set xs" and pos: "0 < ?a" using ok by (auto simp: recv_ok_def)
  have path: "rpath ?h (sc_head s) xs 0" using ok fresh by (simp add: recv_ok_def)
  have head: "sc_head s \<noteq> 0" using ok snoc by (cases ys) (auto simp: recv_ok_def)
  have y: "?h (fst y) = Some (snd y, 0)" "fst y \<notin> fst ` set ys" "fst y \<noteq> ?a"
    using path ok snoc fresh by (auto simp: recv_ok_def)
  have "rpath (?h(fst y \<mapsto> (snd y, ?a))) (sc_head s) (ys @ [y]) ?a"
    using path snoc y(2) rpath_snoc [of ?h "sc_head s" ys y 0 ?a] by simp
  moreover have "(?h(fst y \<mapsto> (snd y, ?a))) ?a = Some (i, 0)" using y(3) by simp
  ultimately have "rpath (?h(fst y \<mapsto> (snd y, ?a))) (sc_head s) (xs @ [(?a, i)]) 0"
    using snoc pos by simp
  then show ?thesis
    using ok snoc fresh head y(1) walk_end_path [OF path, of 0]
    by (auto simp: recv_ok_def addRecvList_def less_Suc_eq)
qed

text \<open>The completeness test on the sequence of descriptors.\<close>

fun check_infos :: "u16 \<Rightarrow> sock_info list \<Rightarrow> int \<Rightarrow> int \<Rightarrow> bool" where
  "check_infos c [] num totalnum = False"
| "check_infos c (i # is) num totalnum =
     (let num' = (if si_cmd i = c then num + 1 else num);
          total' = (if si_cmd i = c \<and> totalnum = -1 then int (unat (si_lastNo i)) + 1
                    else totalnum)
      in num' = total' \<or> check_infos c is num' total')"

lemma checkRecvList2_path:
  "rpath h p xs 0 \<Longrightarrow> checkRecvList2_walk h c p num tot = Some (check_infos c (map snd xs) num tot)"
proof (induction xs arbitrary: p num tot)
  case Nil
  then show ?case by (simp add: checkRecvList2_walk.simps)
next
  case (Cons x xs)
  then show ?case by (auto simp: checkRecvList2_walk.simps [of h _ "fst x"] Let_def)
qed

lemma check_infos_other:
  "\<forall>i \<in> set is. si_cmd i \<noteq> c \<Longrightarrow> num \<noteq> tot \<Longrightarrow>
   check_infos c (is @ js) num tot = check_infos c js num tot"
  by (induction "is") auto

lemma check_infos_count:
  "\<forall>i \<in> set is. si_cmd i = c \<Longrightarrow> tot \<noteq> -1 \<Longrightarrow> num < tot \<Longrightarrow>
   check_infos c is num tot \<longleftrightarrow> tot \<le> num + int (length is)"
proof (induction "is" arbitrary: num)
  case (Cons i "is")
  then show ?case by (cases "num + 1 = tot") (auto simp: Let_def)
qed simp

text \<open>With the parts of one command behind nodes of other commands, the test says whether
  as many parts are there as the first of them announces.\<close>

lemma check_infos_parts:
  assumes "\<forall>i \<in> set is. si_cmd i \<noteq> c" and "\<forall>j \<in> set js. si_cmd j = c \<and> unat (si_lastNo j) = n"
  shows "check_infos c (is @ js) 0 (-1) \<longleftrightarrow> n + 1 \<le> length js"
proof (cases js)
  case Nil
  with assms(1) check_infos_other [of "is" c 0 "-1" "[]"] show ?thesis by simp
next
  case (Cons j ks)
  have "check_infos c (is @ js) 0 (-1) \<longleftrightarrow> check_infos c js 0 (-1)"
    using assms(1) by (simp add: check_infos_other)
  also have "\<dots> \<longleftrightarrow> n = 0 \<or> int n + 1 \<le> 1 + int (length ks)"
    using Cons assms(2) check_infos_count [of ks c "int n + 1" 1]
    by (cases "n = 0") (auto simp: Let_def)
  also have "\<dots> \<longleftrightarrow> n + 1 \<le> length js" using Cons by auto
  finally show ?thesis .
qed

section \<open>Joining the parts\<close>

fun join_infos :: "u16 \<Rightarrow> sock_info list \<Rightarrow> socket_cmd \<Rightarrow> socket_cmd" where
  "join_infos c [] k = k"
| "join_infos c (i # is) k = join_infos c is
     (if si_length i > 0 \<and> si_cmd i = c then addcmd k (si_pValid i) (si_length i) else k)"

lemma join_walk_path:
  "rpath h p xs 0 \<Longrightarrow> join_walk h c p k = Some (join_infos c (map snd xs) k)"
proof (induction xs arbitrary: p k)
  case Nil
  then show ?case by (simp add: join_walk.simps)
next
  case (Cons x xs)
  then show ?case by (auto simp: join_walk.simps [of h _ "fst x"])
qed

lemma join_infos_other:
  "\<forall>i \<in> set is. si_cmd i \<noteq> c \<Longrightarrow> join_infos c (is @ js) k = join_infos c js k"
  by (induction "is") auto

text \<open>A descriptor is well formed when its length field is the length of its data.\<close>

definition wf_info :: "sock_info \<Rightarrow> bool" where
  "wf_info i \<longleftrightarrow> length (si_pValid i) = unat (si_length i)"

lemma join_infos_parts:
  assumes "\<forall>j \<in> set js. si_cmd j = c \<and> wf_info j"
    and "length (sk_pcmd k) = unat (sk_len k)"
    and "unat (sk_len k) + length (concat (map si_pValid js)) < 2 ^ 32"
  shows "join_infos c js k
    = k\<lparr>sk_pcmd := sk_pcmd k @ concat (map si_pValid js),
        sk_len := sk_len k + word_of_nat (length (concat (map si_pValid js)))\<rparr>"
  using assms
proof (induction js arbitrary: k)
  case Nil
  then show ?case by simp
next
  case (Cons j js)
  have wf: "length (si_pValid j) = unat (si_length j)" "si_cmd j = c"
    using Cons.prems(1) by (auto simp: wf_info_def)
  show ?case
  proof (cases "si_length j > 0")
    case False
    then have "si_pValid j = []" using wf(1) by (simp add: word_less_unat)
    then show ?thesis using Cons False by simp
  next
    case True
    let ?k = "addcmd k (si_pValid j) (si_length j)"
    have uc: "unat (ucast (si_length j) :: u32) = length (si_pValid j)"
      using wf(1) by (simp add: unat_ucast_up)
    have len: "unat (sk_len ?k) = unat (sk_len k) + length (si_pValid j)"
      using uc Cons.prems(3) by (simp add: addcmd_def unat_add_exact)
    have pcmd: "sk_pcmd ?k = sk_pcmd k @ si_pValid j"
      using Cons.prems(2) wf(1) by (simp add: addcmd_def)
    have "join_infos c js ?k = ?k\<lparr>sk_pcmd := sk_pcmd ?k @ concat (map si_pValid js),
        sk_len := sk_len ?k + word_of_nat (length (concat (map si_pValid js)))\<rparr>"
      using Cons.IH [of ?k] Cons.prems len pcmd by simp
    moreover have "(ucast (si_length j) :: u32) = word_of_nat (length (si_pValid j))"
      using uc by (metis word_unat_eq_iff of_nat_unat ucast_id unat_of_nat word_of_nat_eq_iff)
    ultimately show ?thesis
      using True wf(2) pcmd by (simp add: addcmd_def add.assoc)
  qed
qed

section \<open>Removing a command\<close>

lemma destory_prefix:
  assumes "rpath h p (ms @ xs) 0" "distinct (map fst (ms @ xs))" "\<forall>x \<in> set ms. si_cmd (snd x) = c"
  shows "\<exists>r. destoryRecvList2_walk c h p 0 p
      = destoryRecvList2_walk c (h |` (- fst ` set ms)) r 0 r
    \<and> rpath (h |` (- fst ` set ms)) r xs 0"
  using assms
proof (induction ms arbitrary: h p)
  case Nil
  then show ?case by (auto simp: restrict_map_def)
next
  case (Cons m ms)
  then obtain q where p: "p = fst m" "fst m \<noteq> 0" "h (fst m) = Some (snd m, q)"
    and q: "rpath h q (ms @ xs) 0" by auto
  have "rpath (h(fst m := None)) q (ms @ xs) 0"
    using q Cons.prems(2) by (subst rpath_upd) auto
  moreover have "distinct (map fst (ms @ xs))" "\<forall>x \<in> set ms. si_cmd (snd x) = c"
    using Cons.prems by auto
  ultimately obtain r where r: "destoryRecvList2_walk c (h(fst m := None)) q 0 q
      = destoryRecvList2_walk c (h(fst m := None) |` (- fst ` set ms)) r 0 r"
    "rpath (h(fst m := None) |` (- fst ` set ms)) r xs 0"
    using Cons.IH by blast
  have "h(fst m := None) |` (- fst ` set ms) = h |` (- fst ` set (m # ms))"
    by (auto simp: restrict_map_def)
  moreover have "destoryRecvList2_walk c h p 0 p = destoryRecvList2_walk c (h(fst m := None)) q 0 q"
    using p Cons.prems(3) by (simp add: destoryRecvList2_walk.simps [of c h])
  ultimately show ?case using r by (metis (no_types))
qed

lemma destory_keep:
  "rpath h p ns r \<Longrightarrow> \<forall>x \<in> set ns. si_cmd (snd x) \<noteq> c \<Longrightarrow>
   destoryRecvList2_walk c h head prv p
     = destoryRecvList2_walk c h head (last (prv # map fst ns)) r"
proof (induction ns arbitrary: p prv)
  case Nil
  then show ?case by simp
next
  case (Cons n ns)
  then obtain q where "p = fst n" "fst n \<noteq> 0" "h (fst n) = Some (snd n, q)" "rpath h q ns r"
    by auto
  then show ?case
    using Cons.IH [of q "fst n"] Cons.prems(2) by (simp add: destoryRecvList2_walk.simps [of c h])
qed

text \<open>Nodes behind the last kept node \<open>prv\<close> are freed; its link is set at the very end.\<close>

lemma destory_suffix:
  assumes "rpath h p ms 0" "ms \<noteq> []" "distinct (map fst ms)" "\<forall>x \<in> set ms. si_cmd (snd x) = c"
    and "prv \<noteq> 0" "prv \<notin> fst ` set ms" "h prv = Some (j, k)"
  shows "destoryRecvList2_walk c h head prv p
    = Some ((h(prv \<mapsto> (j, 0))) |` (- fst ` set ms), head)"
  using assms
proof (induction ms arbitrary: h p)
  case Nil
  then show ?case by simp
next
  case (Cons m ms)
  then obtain q where p: "p = fst m" "fst m \<noteq> 0" "h (fst m) = Some (snd m, q)"
    and q: "rpath h q ms 0" by auto
  have c: "si_cmd (snd m) = c" "prv \<noteq> fst m" "fst m \<notin> fst ` set ms" using Cons.prems by auto
  show ?case
  proof (cases "ms = []")
    case True
    then have "destoryRecvList2_walk c h head prv p = Some ((h(prv \<mapsto> (j, 0)))(fst m := None), head)"
      using p q c Cons.prems(5,7)
      by (simp add: destoryRecvList2_walk.simps [of c h] destoryRecvList2_walk.simps [of c _ _ _ 0])
    moreover have "(h(prv \<mapsto> (j, 0)))(fst m := None)
        = (h(prv \<mapsto> (j, 0))) |` (- fst ` set (m # ms))"
      using True by (auto simp: restrict_map_def)
    ultimately show ?thesis by (simp only:)
  next
    case False
    have "q \<noteq> 0" using q False by (cases ms) auto
    then have "destoryRecvList2_walk c h head prv p
        = destoryRecvList2_walk c (h(fst m := None)) head prv q"
      using p c Cons.prems(5) by (simp add: destoryRecvList2_walk.simps [of c h])
    also have "\<dots> = Some (((h(fst m := None))(prv \<mapsto> (j, 0))) |` (- fst ` set ms), head)"
    proof (rule Cons.IH)
      show "rpath (h(fst m := None)) q ms 0" using q c(3) by (subst rpath_upd) auto
      show "(h(fst m := None)) prv = Some (j, k)" using Cons.prems(7) c(2) by simp
    qed (use Cons.prems False in auto)
    also have "((h(fst m := None))(prv \<mapsto> (j, 0))) |` (- fst ` set ms)
        = (h(prv \<mapsto> (j, 0))) |` (- fst ` set (m # ms))"
      using c(2) by (auto simp: restrict_map_def)
    finally show ?thesis .
  qed
qed

text \<open>Nodes in the middle are freed and nothing else changes: the node before keeps its link.\<close>

lemma destory_middle:
  assumes "rpath h p ms r" "r \<noteq> 0" "distinct (map fst ms)" "\<forall>x \<in> set ms. si_cmd (snd x) = c"
    and "prv \<noteq> 0" "rpath h r ns 0" "fst ` set ms \<inter> fst ` set ns = {}"
  shows "destoryRecvList2_walk c h head prv p
    = destoryRecvList2_walk c (h |` (- fst ` set ms)) head prv r"
  using assms
proof (induction ms arbitrary: h p)
  case Nil
  then show ?case by (auto simp: restrict_map_def)
next
  case (Cons m ms)
  then obtain q where p: "p = fst m" "fst m \<noteq> 0" "h (fst m) = Some (snd m, q)"
    and q: "rpath h q ms r" by auto
  have new: "fst m \<notin> fst ` set ms" "fst m \<notin> fst ` set ns" using Cons.prems by auto
  have "q \<noteq> 0" using q Cons.prems(2) by (cases ms) auto
  then have "destoryRecvList2_walk c h head prv p
      = destoryRecvList2_walk c (h(fst m := None)) head prv q"
    using p Cons.prems(4,5) by (simp add: destoryRecvList2_walk.simps [of c h])
  also have "\<dots> = destoryRecvList2_walk c (h(fst m := None) |` (- fst ` set ms)) head prv r"
  proof (rule Cons.IH)
    show "rpath (h(fst m := None)) q ms r" using q new(1) by (subst rpath_upd) auto
    show "rpath (h(fst m := None)) r ns 0" using Cons.prems(6) new(2) by (subst rpath_upd) auto
  qed (use Cons.prems in auto)
  also have "h(fst m := None) |` (- fst ` set ms) = h |` (- fst ` set (m # ms))"
    by (auto simp: restrict_map_def)
  finally show ?case .
qed

text \<open>Parts of the command at both ends only: exactly the other nodes remain, still linked.\<close>

lemma destory_ends:
  assumes ok: "recv_ok s (ms1 @ ns @ ms2)"
    and ms: "\<forall>x \<in> set ms1 \<union> set ms2. si_cmd (snd x) = c"
    and ns: "\<forall>x \<in> set ns. si_cmd (snd x) \<noteq> c"
  shows "\<exists>s'. destoryRecvList2 s c = Some s' \<and> recv_ok s' ns \<and> sc_fifo s' = sc_fifo s"
proof -
  let ?h = "sc_heap s" and ?p = "sc_head s" and ?A = "fst ` set ms1"
  have path: "rpath ?h ?p (ms1 @ ns @ ms2) 0" and dist: "distinct (map fst (ms1 @ ns @ ms2))"
    using ok by (auto simp: recv_ok_def)
  obtain r where r: "destoryRecvList2_walk c ?h ?p 0 ?p
      = destoryRecvList2_walk c (?h |` (- ?A)) r 0 r"
    and rp: "rpath (?h |` (- ?A)) r (ns @ ms2) 0"
    using destory_prefix [OF path dist] ms by blast
  let ?h1 = "?h |` (- ?A)"
  obtain t where t: "rpath ?h1 r ns t" "rpath ?h1 t ms2 0" using rp by auto
  have keep: "destoryRecvList2_walk c ?h1 r 0 r
      = destoryRecvList2_walk c ?h1 r (last (0 # map fst ns)) t"
    using destory_keep [OF t(1)] ns by blast
  show ?thesis
  proof (cases "ns = [] \<or> ms2 = []")
    case True
    then have "\<exists>h' r'. destoryRecvList2_walk c ?h1 r 0 r = Some (h', r') \<and> rpath h' r' ns 0"
    proof
      assume e: "ns = []"
      have "\<exists>r'. destoryRecvList2_walk c ?h1 r 0 r
          = destoryRecvList2_walk c (?h1 |` (- fst ` set ms2)) r' 0 r'
        \<and> rpath (?h1 |` (- fst ` set ms2)) r' [] 0"
        using destory_prefix [of ?h1 r ms2 "[]" c] rp e ms dist by auto
      then show ?thesis using e by (auto simp: destoryRecvList2_walk.simps)
    next
      assume "ms2 = []"
      then have "t = 0" using t(2) by simp
      then show ?thesis using keep t(1) by (simp add: destoryRecvList2_walk.simps [of c _ _ _ 0])
    qed
    then show ?thesis
      using r ok by (auto simp: destoryRecvList2_def recv_ok_def)
  next
    case False
    then obtain ns' y where y: "ns = ns' @ [y]" by (metis rev_exhaust)
    have yh: "?h1 (fst y) = Some (snd y, t)" "fst y \<noteq> 0" using t(1) y by auto
    have "destoryRecvList2_walk c ?h1 r (fst y) t
        = Some ((?h1(fst y \<mapsto> (snd y, 0))) |` (- fst ` set ms2), r)"
    proof (rule destory_suffix [OF t(2) _ _ _ yh(2) _ yh(1)])
      show "ms2 \<noteq> []" "distinct (map fst ms2)" "\<forall>x \<in> set ms2. si_cmd (snd x) = c"
        "fst y \<notin> fst ` set ms2" using False ms dist y by auto
    qed
    moreover have "rpath (?h1(fst y \<mapsto> (snd y, 0))) r ns 0"
      unfolding y using t(1) dist y by (intro rpath_snoc) auto
    then have "rpath ((?h1(fst y \<mapsto> (snd y, 0))) |` (- fst ` set ms2)) r ns 0"
      using dist by (subst rpath_restrict) auto
    ultimately show ?thesis
      using r keep y ok by (auto simp: destoryRecvList2_def recv_ok_def)
  qed
qed

text \<open>Parts in the middle of the list: the node before them keeps the address of the first
  freed part, and no list is reachable from the head any more.\<close>

lemma rpath_unique: "rpath h p xs 0 \<Longrightarrow> rpath h p ys 0 \<Longrightarrow> xs = ys"
proof (induction xs arbitrary: p ys)
  case Nil
  then show ?case by simp
next
  case (Cons x xs)
  then obtain y zs where "ys = y # zs" by (cases ys) auto
  with Cons show ?case by (auto intro: prod_eqI)
qed

lemma rpath_dangling:
  "rpath h p ns q \<Longrightarrow> q \<noteq> 0 \<Longrightarrow> h q = None \<Longrightarrow> \<not> rpath h p xs 0"
proof (induction ns arbitrary: p xs)
  case Nil
  then show ?case by (cases xs) auto
next
  case (Cons n ns)
  then show ?case by (cases xs) auto
qed

lemma walk_end_dangling:
  "rpath h p ns q \<Longrightarrow> q \<noteq> 0 \<Longrightarrow> h q = None \<Longrightarrow> walk_end h p prev = None"
proof (induction ns arbitrary: p prev)
  case Nil
  then show ?case by (simp add: walk_end.simps)
next
  case (Cons n ns)
  then show ?case by (auto simp: walk_end.simps [of h "fst n"])
qed

lemma destory_dangling:
  assumes ok: "recv_ok s (ns1 @ ms @ ns2)"
    and ms: "\<forall>x \<in> set ms. si_cmd (snd x) = c" "ms \<noteq> []"
    and ns: "\<forall>x \<in> set ns1 \<union> set ns2. si_cmd (snd x) \<noteq> c" "ns1 \<noteq> []" "ns2 \<noteq> []"
  shows "\<exists>s'. destoryRecvList2 s c = Some s' \<and> sc_head s' = sc_head s
    \<and> rpath (sc_heap s') (sc_head s') ns1 (fst (hd ms)) \<and> sc_heap s' (fst (hd ms)) = None
    \<and> fst (hd ms) \<noteq> 0"
proof -
  let ?h = "sc_heap s" and ?p = "sc_head s" and ?h' = "sc_heap s |` (- fst ` set ms)"
  have path: "rpath ?h ?p (ns1 @ ms @ ns2) 0" and dist: "distinct (map fst (ns1 @ ms @ ns2))"
    using ok by (auto simp: recv_ok_def)
  then obtain q r where q: "rpath ?h ?p ns1 q" "rpath ?h q ms r" "rpath ?h r ns2 0" by auto
  have hd_q: "fst (hd ms) = q" "q \<noteq> 0" "q \<in> fst ` set ms" using q(2) ms(2) by (cases ms; auto)+
  have r: "r \<noteq> 0" using q(3) ns(3) by (cases ns2) auto
  obtain n ns1' where n: "ns1 = ns1' @ [n]" using ns(2) by (metis rev_exhaust)
  have n0: "fst n \<noteq> 0" using q(1) n by auto
  have "destoryRecvList2_walk c ?h ?p 0 ?p = destoryRecvList2_walk c ?h ?p (fst n) q"
    using destory_keep [OF q(1), of c ?p 0] ns(1) n by simp
  also have "\<dots> = destoryRecvList2_walk c ?h' ?p (fst n) r"
    using destory_middle [OF q(2) r _ _ n0 q(3)] dist ms(1) by auto
  also have "rpath ?h' r ns2 0" using q(3) dist by (subst rpath_restrict) auto
  then have "destoryRecvList2_walk c ?h' ?p (fst n) r
      = destoryRecvList2_walk c ?h' ?p (last (fst n # map fst ns2)) 0"
    by (rule destory_keep) (use ns(1) in auto)
  also have "\<dots> = Some (?h', ?p)" by (simp add: destoryRecvList2_walk.simps)
  finally have "destoryRecvList2 s c = Some (s\<lparr>sc_heap := ?h', sc_head := ?p\<rparr>)"
    by (simp add: destoryRecvList2_def)
  moreover have "rpath ?h' ?p ns1 q" using q(1) dist by (subst rpath_restrict) auto
  moreover have "?h' q = None" using hd_q(3) by simp
  ultimately show ?thesis using hd_q by simp
qed

end
