(* ===== verification/FrameCodec.thy ===== *)
theory FrameCodec
  imports Prelude
begin

text \<open>
  The contract of a self-delimiting message format, shared by the network packets
  (\<open>packsocket/packsocket.c\<close>) and the serial frames (\<open>hw/common/source/comUart.c\<close>): an encoded
  message at the front of a byte stream is decoded to the message and the rest of the
  stream. The client's lemmas are about streams of messages and about uniqueness.
\<close>

section \<open>Streams of frames\<close>

text \<open>Taking up to \<open>n\<close> messages off a byte stream.\<close>

fun decode_upto :: "(u8 list \<Rightarrow> ('m \<times> u8 list) option) \<Rightarrow> nat \<Rightarrow> u8 list \<Rightarrow> 'm list \<times> u8 list" where
  "decode_upto dec 0 bs = ([], bs)"
| "decode_upto dec (Suc n) bs =
     (case dec bs of None \<Rightarrow> ([], bs)
      | Some (m, rest) \<Rightarrow> (case decode_upto dec n rest of (ms, r) \<Rightarrow> (m # ms, r)))"

locale frame_codec =
  fixes ok :: "'m \<Rightarrow> bool"
    and enc :: "'m \<Rightarrow> u8 list"
    and dec :: "u8 list \<Rightarrow> ('m \<times> u8 list) option"
  assumes dec_enc: "ok m \<Longrightarrow> dec (enc m @ rest) = Some (m, rest)"
begin

lemma decode_stream:
  "\<forall>m \<in> set ms. ok m \<Longrightarrow>
   decode_upto dec (length ms) (concat (map enc ms) @ rest) = (ms, rest)"
  by (induction ms) (auto simp: dec_enc)

lemma decode_stream_more:
  "\<forall>m \<in> set ms. ok m \<Longrightarrow> dec rest = None \<Longrightarrow>
   decode_upto dec (length ms + k) (concat (map enc ms) @ rest) = (ms, rest)"
proof (induction ms)
  case Nil
  then show ?case by (cases k) auto
qed (auto simp: dec_enc)

lemma enc_inj: "ok m \<Longrightarrow> ok m' \<Longrightarrow> enc m = enc m' \<Longrightarrow> m = m'"
  using dec_enc [of m "[]"] dec_enc [of m' "[]"] by simp

lemma enc_stream_inj:
  assumes "\<forall>m \<in> set ms. ok m" "\<forall>m \<in> set ms'. ok m" "length ms = length ms'"
    and "concat (map enc ms) = concat (map enc ms')"
  shows "ms = ms'"
  using decode_stream [OF assms(1), of "[]"] decode_stream [OF assms(2), of "[]"] assms(3,4)
  by simp

end

end
