(* ===== verification/PackFrame.thy ===== *)
theory PackFrame
  imports PackList FrameCodec
begin

text \<open>
  Frames of the packet protocol: what \<open>sendSocketCmd\<close> writes is what \<open>parseSocketCmd\<close> reads
  back, for one frame and for a stream of frames, and what a damaged frame leads to.
\<close>

section \<open>Fields\<close>

lemma length_short2buffer [simp]: "length (short2buffer d) = 2"
  by (simp add: short2buffer_def)

lemma length_int2buffer [simp]: "length (int2buffer d) = 4"
  by (simp add: int2buffer_def)

lemma bits_below: "m AND 255 = take_bit 8 m" for m :: "'a::len word"
  by (simp add: mask_eq_exp_minus_1 take_bit_eq_mask)

lemma join16: "push_bit 8 (ucast (ucast (drop_bit 8 d AND 0xFF) :: u8)) OR ucast (ucast (d AND 0xFF) :: u8)
    = (d :: u16)"
  by (rule bit_word_eqI)
     (auto simp: bit_or_iff bit_and_iff bit_push_bit_iff bit_drop_bit_eq ucast_bit bits_below bit_take_bit_iff)

lemma join32: "push_bit 24 (ucast (ucast (drop_bit 24 d) :: u8))
    OR push_bit 16 (ucast (ucast (drop_bit 16 d AND 0xFF) :: u8))
    OR push_bit 8 (ucast (ucast (drop_bit 8 d AND 0xFF) :: u8))
    OR ucast (ucast (d AND 0xFF) :: u8) = (d :: u32)"
    (is "?l = d")
proof (rule bit_word_eqI)
  fix n assume n: "n < LENGTH(32)"
  then consider "n < 8" | "8 \<le> n" "n < 16" | "16 \<le> n" "n < 24" | "24 \<le> n" by linarith
  then show "bit ?l n = bit d n"
    using n
    by cases (auto simp: bit_or_iff bit_and_iff bit_push_bit_iff bit_drop_bit_eq ucast_bit
        bits_below bit_take_bit_iff)
qed

lemma be16_short2buffer [simp]:
  "be16 (xs @ short2buffer d @ ys) (length xs) = d"
  by (simp add: be16_def short2buffer_def nth_append join16)

lemma be32_int2buffer [simp]:
  "be32 (xs @ int2buffer d @ ys) (length xs) = d"
  by (simp add: be32_def int2buffer_def nth_append join32)

section \<open>One frame\<close>

text \<open>A packet descriptor that the sender builds: sync word, matching length, a checksum the
  receiver accepts.\<close>

definition sendable :: "sock_info \<Rightarrow> bool" where
  "sendable i \<longleftrightarrow> si_sync i = SYNC_HEAD \<and> wf_info i
     \<and> (si_crc i = 0 \<or> si_crc i = crc32_le CRCPOLY_LE (si_pValid i))"

definition frame_header :: "sock_info \<Rightarrow> u8 list" where
  "frame_header i =
     short2buffer (si_sync i) @ short2buffer (si_cmd i) @ int2buffer (si_ipnum i)
     @ short2buffer (si_curNo i) @ short2buffer (si_lastNo i) @ short2buffer (si_type i)
     @ short2buffer (si_length i)"

lemma length_frame_header [simp]: "length (frame_header i) = 16"
  by (simp add: frame_header_def)

lemma frame_bytes_parts:
  "wf_info i \<Longrightarrow> frame_bytes i = frame_header i @ si_pValid i @ int2buffer (si_crc i)"
  by (auto simp: frame_bytes_def frame_header_def wf_info_def)

lemma length_frame_bytes: "wf_info i \<Longrightarrow> length (frame_bytes i) = 20 + unat (si_length i)"
  by (simp add: frame_bytes_parts wf_info_def)

lemma header_fields:
  "be16 (frame_header i @ xs) 0 = si_sync i" "be16 (frame_header i @ xs) 2 = si_cmd i"
  "be32 (frame_header i @ xs) 4 = si_ipnum i" "be16 (frame_header i @ xs) 8 = si_curNo i"
  "be16 (frame_header i @ xs) 10 = si_lastNo i" "be16 (frame_header i @ xs) 12 = si_type i"
  "be16 (frame_header i @ xs) 14 = si_length i"
  by (simp_all add: frame_header_def be16_def be32_def short2buffer_def int2buffer_def join16 join32)

lemma frame_crc_field:
  "wf_info i \<Longrightarrow> be32 (frame_bytes i @ xs) (unat (si_length i) + 16) = si_crc i"
  using be32_int2buffer [of "frame_header i @ si_pValid i" "si_crc i" xs]
  by (simp add: frame_bytes_parts wf_info_def add.commute)

lemma frame_data: "wf_info i \<Longrightarrow> mem_slice (frame_bytes i) 16 (unat (si_length i)) = si_pValid i"
  by (simp add: frame_bytes_parts mem_slice_def wf_info_def)

lemma frame_info_frame_bytes:
  assumes "sendable i" shows "frame_info (frame_bytes i) = i"
proof -
  have wf: "wf_info i" "si_sync i = SYNC_HEAD" using assms by (auto simp: sendable_def)
  have "si_pValid i = []" if "\<not> 0 < si_length i"
    using that wf(1) by (simp add: wf_info_def word_less_unat)
  then show ?thesis
    using wf frame_crc_field [OF wf(1), of "[]"] frame_data [OF wf(1)]
    by (auto simp: frame_info_def Let_def frame_bytes_parts header_fields intro!: sock_info.equality)
qed

lemma frame_crc_ok_frame_bytes: "sendable i \<Longrightarrow> frame_crc_ok (frame_bytes i)"
  using frame_crc_field [of i "[]"] frame_data [of i]
  by (auto simp: frame_crc_ok_def sendable_def Let_def frame_bytes_parts header_fields)

lemma frame_ready_frame_bytes:
  assumes "sendable i" shows "frame_ready (frame_bytes i @ rest) = Some (length (frame_bytes i))"
  using assms by (simp add: frame_ready_def sendable_def frame_bytes_parts header_fields wf_info_def)

text \<open>The next frame of a byte stream, as the receiver takes it.\<close>

definition next_frame :: "u8 list \<Rightarrow> (sock_info \<times> u8 list) option" where
  "next_frame c = (case frame_ready c of None \<Rightarrow> None
     | Some n \<Rightarrow> Some (frame_info (take n c), drop n c))"

interpretation pf: frame_codec sendable frame_bytes next_frame
  by unfold_locales
     (simp add: next_frame_def frame_ready_frame_bytes frame_info_frame_bytes)

lemma send_info_sendable:
  assumes "unat len \<le> length pData" "unat len < 65536"
  shows "sendable (send_info typeCmd ipnum curNo lastNo pData len)"
    and "si_pValid (send_info typeCmd ipnum curNo lastNo pData len) = take (unat len) pData"
proof -
  have "unat (ucast len :: u16) = unat len"
    using assms(2) by (simp add: unsigned_ucast_eq take_bit_nat_eq_self_iff)
  then show "sendable (send_info typeCmd ipnum curNo lastNo pData len)"
    "si_pValid (send_info typeCmd ipnum curNo lastNo pData len) = take (unat len) pData"
    using assms(1)
    by (auto simp: send_info_def sendable_def wf_info_def Let_def unat_eq_zero)
qed

end
