(* ===== verification/PackParse.thy ===== *)
theory PackParse
  imports PackFrame
begin

text \<open>
  \<open>parseSocketCmd\<close> on a class object whose list and buffer are in order: each round takes one
  frame off the buffer, and when the last part of a command arrives the joined command is
  returned. Also the behaviour the code has when the buffer does not start with a frame.
\<close>

section \<open>One round of the loop\<close>

definition class_ok :: "sock_class \<Rightarrow> (nat \<times> sock_info) list \<Rightarrow> u8 list \<Rightarrow> bool" where
  "class_ok s xs c \<longleftrightarrow> fifo_inv (sc_fifo s) \<and> fifo_content (sc_fifo s) = c \<and> recv_ok s xs"

lemma class_ok_init [simp]: "class_ok s xs c \<Longrightarrow> init_class_fifo s = s"
  by (simp add: class_ok_def init_class_fifo_def fifo_inv_def)

text \<open>No complete frame at the front of the buffer: \<open>NULL\<close>, and nothing changes.\<close>

lemma parse_loop_none:
  assumes "class_ok s xs c" "frame_ready c = None"
  shows "parse_loop s = Some (s, None)"
  using assms by (simp add: class_ok_def parse_loop.simps [of s] read_cmd_try_read_ready)

lemma frame_ready_le: "frame_ready c = Some n \<Longrightarrow> 20 \<le> n \<and> n \<le> length c"
  by (auto simp: frame_ready_def split: if_splits)

text \<open>A frame at the front: it leaves the buffer and, if its checksum is accepted, joins the list.\<close>

lemma parse_loop_frame:
  assumes ok: "class_ok s xs c" and rdy: "frame_ready c = Some n"
  shows "\<exists>s1. class_ok s1 (xs @ (if frame_crc_ok (take n c)
                  then [(sc_brk s, frame_info (take n c))] else [])) (drop n c)
    \<and> parse_loop s = do {
        complete \<leftarrow> checkRecvList2 s1 (si_cmd (frame_info (take n c)));
        (if complete then do {
           r2 \<leftarrow> take_command s1 (frame_info (take n c));
           Some (fst r2, Some (snd r2))
         } else parse_loop s1)
      }"
proof -
  have inv: "fifo_inv (sc_fifo s)" and c: "fifo_content (sc_fifo s) = c" and xs: "recv_ok s xs"
    using ok by (auto simp: class_ok_def)
  have n: "n \<le> length c" using frame_ready_le [OF rdy] by simp
  have "length c \<le> 40960" using inv c by (auto simp: fifo_inv_def)
  with n have un: "unat (word_of_nat n :: u32) = n" by (simp add: unat_of_nat_exact)
  obtain f where f: "read_cmd_fifo (sc_fifo s) (word_of_nat n) = Some (f, take n c)" "fifo_inv f"
      "fifo_content f = drop n c"
    using read_cmd_fifo_ok [OF inv, of "word_of_nat n"] un n c by auto
  let ?s0 = "s\<lparr>sc_fifo := f\<rparr>" and ?b = "take n c"
  let ?xs = "xs @ (if frame_crc_ok ?b then [(sc_brk s, frame_info ?b)] else [])"
  have "\<exists>s1. push_frame ?s0 ?b = Some s1 \<and> class_ok s1 ?xs (drop n c)"
  proof (cases "frame_crc_ok ?b")
    case True
    then show ?thesis
      using addRecvList_ok [of ?s0 xs "frame_info ?b"] xs f by (auto simp: push_frame_def class_ok_def)
  next
    case False
    then show ?thesis using xs f by (simp add: push_frame_def class_ok_def)
  qed
  then obtain s1 where s1: "push_frame ?s0 ?b = Some s1" "class_ok s1 ?xs (drop n c)" by blast
  have "read_cmd_try_read (sc_fifo s) = Some (Some (word_of_nat n))"
    using read_cmd_try_read_ready [OF inv] c rdy by simp
  with s1 f(1) show ?thesis
    by (intro exI [of _ s1]) (simp add: parse_loop.simps [of s] cong: if_cong)
qed

lemma check_class:
  "class_ok s xs c \<Longrightarrow> checkRecvList2 s k = Some (check_infos k (map snd xs) 0 (-1))"
  by (simp add: class_ok_def recv_ok_def checkRecvList2_def checkRecvList2_path)

section \<open>All parts of a command\<close>

text \<open>The parts of one command: \<open>n + 1\<close> sendable packets that announce \<open>n\<close> as the last number.\<close>

definition parts_of :: "u16 \<Rightarrow> nat \<Rightarrow> sock_info list \<Rightarrow> bool" where
  "parts_of k n ps \<longleftrightarrow> (\<forall>p \<in> set ps. sendable p \<and> si_cmd p = k \<and> unat (si_lastNo p) = n)"

definition joined :: "sock_info list \<Rightarrow> socket_cmd" where
  "joined ps = \<lparr>sk_cmd = si_cmd (last ps), sk_type = si_type (last ps),
     sk_ipnum = si_ipnum (last ps),
     sk_len = word_of_nat (length (concat (map si_pValid ps))),
     sk_pcmd = concat (map si_pValid ps)\<rparr>"

lemma take_command_ok:
  assumes ok: "class_ok s (xs @ ds) c" and xs: "\<forall>x \<in> set xs. si_cmd (snd x) \<noteq> k"
    and ds: "parts_of k n (map snd ds)" "ds \<noteq> []"
    and small: "length (concat (map si_pValid (map snd ds))) < 2 ^ 32"
  shows "\<exists>s'. take_command s (snd (last ds)) = Some (s', joined (map snd ds)) \<and> class_ok s' xs c"
proof -
  let ?i = "snd (last ds)"
  let ?k0 = "\<lparr>sk_cmd = si_cmd ?i, sk_type = si_type ?i, sk_ipnum = si_ipnum ?i,
             sk_len = 0, sk_pcmd = []\<rparr>"
  have k: "si_cmd ?i = k" using ds by (auto simp: parts_of_def)
  have parts: "\<forall>j \<in> set (map snd ds). si_cmd j = k \<and> wf_info j"
    using ds(1) by (auto simp: parts_of_def sendable_def)
  have "join_walk (sc_heap s) k (sc_head s) ?k0 = Some (join_infos k (map snd xs @ map snd ds) ?k0)"
    using join_walk_path [of "sc_heap s" "sc_head s" "xs @ ds" k ?k0] ok
    by (simp add: class_ok_def recv_ok_def)
  also have "join_infos k (map snd xs @ map snd ds) ?k0 = join_infos k (map snd ds) ?k0"
    using xs by (intro join_infos_other) auto
  also have "\<dots> = joined (map snd ds)"
    using join_infos_parts [OF parts, of ?k0] small ds(2) k by (simp add: joined_def last_map)
  finally have join: "join_walk (sc_heap s) k (sc_head s) ?k0 = Some (joined (map snd ds))" .
  obtain s' where "destoryRecvList2 s k = Some s'" "recv_ok s' xs" "sc_fifo s' = sc_fifo s"
    using destory_ends [of s "[]" xs ds k] ok xs ds(1) by (auto simp: class_ok_def parts_of_def)
  with join ok k show ?thesis by (auto simp: take_command_def class_ok_def)
qed

text \<open>One round with a part of command \<open>k\<close> at the front: the last part ends the loop.\<close>

lemma parse_loop_part:
  assumes ok: "class_ok s (xs @ ds) (frame_bytes r @ rest)"
    and xs: "\<forall>x \<in> set xs. si_cmd (snd x) \<noteq> k"
    and ds: "parts_of k n (map snd ds @ [r])" and le: "length ds \<le> n"
    and small: "length (concat (map si_pValid (map snd ds @ [r]))) < 2 ^ 32"
  shows "if length ds = n
    then \<exists>s'. parse_loop s = Some (s', Some (joined (map snd ds @ [r]))) \<and> class_ok s' xs rest
    else \<exists>s1. parse_loop s = parse_loop s1 \<and> class_ok s1 (xs @ ds @ [(sc_brk s, r)]) rest"
proof -
  let ?ds = "ds @ [(sc_brk s, r)]"
  have r: "sendable r" "si_cmd r = k" using ds by (auto simp: parts_of_def)
  have rdy: "frame_ready (frame_bytes r @ rest) = Some (length (frame_bytes r))"
    using frame_ready_frame_bytes [OF r(1)] by simp
  have tk: "take (length (frame_bytes r)) (frame_bytes r @ rest) = frame_bytes r"
    "drop (length (frame_bytes r)) (frame_bytes r @ rest) = rest" by simp_all
  obtain s1 where s1: "class_ok s1 (xs @ ?ds) rest"
    and step: "parse_loop s = do {
        complete \<leftarrow> checkRecvList2 s1 k;
        (if complete then do {
           r2 \<leftarrow> take_command s1 r;
           Some (fst r2, Some (snd r2))
         } else parse_loop s1)
      }"
    using parse_loop_frame [OF ok rdy] r
    unfolding tk frame_info_frame_bytes [OF r(1)] by (auto simp: frame_crc_ok_frame_bytes)
  have ds': "parts_of k n (map snd ?ds)" using ds by simp
  have "check_infos k (map snd xs @ map snd ?ds) 0 (-1) \<longleftrightarrow> n + 1 \<le> length (map snd ?ds)"
    using xs ds' by (intro check_infos_parts) (auto simp: parts_of_def)
  then have check: "checkRecvList2 s1 k = Some (length ds = n)"
    using check_class [OF s1, of k] le by auto
  show ?thesis
  proof (cases "length ds = n")
    case True
    obtain s' where "take_command s1 (snd (last ?ds)) = Some (s', joined (map snd ?ds))"
        "class_ok s' xs rest"
      using take_command_ok [OF s1 xs ds'] small by auto
    with step check True show ?thesis by simp
  next
    case False
    then have "parse_loop s = parse_loop s1" using step check by simp
    with s1 False show ?thesis by auto
  qed
qed

lemma parse_loop_parts:
  assumes "class_ok s (xs @ ds) (concat (map frame_bytes rs) @ rest)"
    and "\<forall>x \<in> set xs. si_cmd (snd x) \<noteq> k"
    and "parts_of k n (map snd ds @ rs)" "length ds + length rs = n + 1" "rs \<noteq> []"
    and "length (concat (map si_pValid (map snd ds @ rs))) < 2 ^ 32"
  shows "\<exists>s'. parse_loop s = Some (s', Some (joined (map snd ds @ rs))) \<and> class_ok s' xs rest"
  using assms
proof (induction rs arbitrary: s ds)
  case Nil
  then show ?case by simp
next
  case (Cons r rs)
  have step: "if length ds = n
    then \<exists>s'. parse_loop s = Some (s', Some (joined (map snd ds @ [r])))
           \<and> class_ok s' xs (concat (map frame_bytes rs) @ rest)
    else \<exists>s1. parse_loop s = parse_loop s1
           \<and> class_ok s1 (xs @ ds @ [(sc_brk s, r)]) (concat (map frame_bytes rs) @ rest)"
  proof (rule parse_loop_part [where k = k])
    show "class_ok s (xs @ ds) (frame_bytes r @ concat (map frame_bytes rs) @ rest)"
      using Cons.prems(1) by simp
    show "\<forall>x \<in> set xs. si_cmd (snd x) \<noteq> k" by (rule Cons.prems(2))
    show "parts_of k n (map snd ds @ [r])" using Cons.prems(3) by (simp add: parts_of_def)
    show "length ds \<le> n" using Cons.prems(4) by simp
    show "length (concat (map si_pValid (map snd ds @ [r]))) < 2 ^ 32" using Cons.prems(6) by simp
  qed
  show ?case
  proof (cases "length ds = n")
    case True
    then have "rs = []" using Cons.prems(4) by simp
    with step True show ?thesis by simp
  next
    case False
    then obtain s1 where s1: "parse_loop s = parse_loop s1"
      "class_ok s1 (xs @ ds @ [(sc_brk s, r)]) (concat (map frame_bytes rs) @ rest)"
      using step by auto
    have "rs \<noteq> []" using Cons.prems(4) False by auto
    have "\<exists>s'. parse_loop s1 = Some (s', Some (joined (map snd (ds @ [(sc_brk s, r)]) @ rs)))
        \<and> class_ok s' xs rest"
      using Cons.prems(3-6) by (intro Cons.IH [OF s1(2) Cons.prems(2)] \<open>rs \<noteq> []\<close>) simp_all
    with s1(1) show ?thesis by simp
  qed
qed

lemma parse_class: "class_ok s xs c \<Longrightarrow> parseSocketCmd s = parse_loop s"
  by (simp add: parseSocketCmd_def)

section \<open>Damaged input\<close>

text \<open>A buffer whose first bytes are not the sync word yields nothing, whatever is received
  later: no code path drops bytes that are not the start of a frame.\<close>

lemma frame_ready_append_bad:
  "2 \<le> length c \<Longrightarrow> be16 c 0 \<noteq> SYNC_HEAD \<Longrightarrow> frame_ready (c @ d) = None"
  by (cases c) (auto simp: frame_ready_def be16_def nth_append)

lemma recv_class:
  assumes "class_ok s xs c" "length c + length d \<le> 40960"
  shows "\<exists>s'. recvSocketCmd s d (word_of_nat (length d)) = Some s' \<and> class_ok s' xs (c @ d)
    \<and> sc_heap s' = sc_heap s \<and> sc_head s' = sc_head s"
proof -
  have inv: "fifo_inv (sc_fifo s)" and c: "fifo_content (sc_fifo s) = c" "recv_ok s xs"
    using assms(1) by (auto simp: class_ok_def)
  have n: "unat (word_of_nat (length d) :: u32) = length d" "unat (ff_len (sc_fifo s)) = length c"
    using assms(2) c(1) by (auto simp: unat_of_nat_exact)
  obtain f where "write_cmd_fifo (sc_fifo s) d (word_of_nat (length d)) = Some (f, 0)" "fifo_inv f"
      "fifo_content f = c @ d"
    using write_cmd_fifo_ok [OF inv, of "word_of_nat (length d)" d] n assms(2) c by auto
  then show ?thesis
    using c(2) class_ok_init [OF assms(1)] by (simp add: recvSocketCmd_def class_ok_def recv_ok_def)
qed

lemma recv_class_full:
  assumes "class_ok s xs c" "40960 < length c + length d" "length d < 2 ^ 31"
  shows "recvSocketCmd s d (word_of_nat (length d)) = Some s"
proof -
  have inv: "fifo_inv (sc_fifo s)" and c: "fifo_content (sc_fifo s) = c"
    using assms(1) by (auto simp: class_ok_def)
  have "unat (ff_len (sc_fifo s)) = length c" "length c \<le> 40960"
    using c inv by (auto simp: fifo_inv_def)
  then have "write_cmd_fifo (sc_fifo s) d (word_of_nat (length d)) = Some (sc_fifo s, -1)"
    using assms(2,3) inv by (intro write_cmd_fifo_refused) (auto simp: unat_of_nat_exact)
  then show ?thesis using assms(1) by (simp add: recvSocketCmd_def)
qed

end
