(* ===== verification/PackStream.thy ===== *)
theory PackStream
  imports PackParse
begin

text \<open>
  The receive loop of the client (\<open>server_start\<close> in \<open>client.c\<close>) over the packet protocol:
  bytes arrive in segments of any size, each is queued with \<open>recvSocketCmd\<close>, then
  \<open>parseSocketCmd\<close> is called until it returns \<open>NULL\<close>. The abstract specification
  \<open>deframe\<close> groups packets into commands; the loop refines it for every segmentation of the
  stream. Also \<open>client_rebackMipiCode\<close>, which cuts a long answer into packets, and what
  the loop does with damaged packets and with bytes that are not a packet.
\<close>

section \<open>The receive loop\<close>

partial_function (option) drain_cmds :: "sock_class \<Rightarrow> (sock_class \<times> socket_cmd list) option" where
  "drain_cmds s = do {
     r \<leftarrow> parseSocketCmd s;
     (case snd r of
        None \<Rightarrow> Some (fst r, [])
      | Some k \<Rightarrow> do { t \<leftarrow> drain_cmds (fst r); Some (fst t, k # snd t) })
   }"

fun server_recv :: "sock_class \<Rightarrow> u8 list list \<Rightarrow> (sock_class \<times> socket_cmd list) option" where
  "server_recv s [] = Some (s, [])"
| "server_recv s (g # gs) = do {
     s1 \<leftarrow> recvSocketCmd s g (word_of_nat (length g));
     r \<leftarrow> drain_cmds s1;
     t \<leftarrow> server_recv (fst r) gs;
     Some (fst t, snd r @ snd t)
   }"

section \<open>Abstract specification\<close>

text \<open>Packets are collected until the number announced by the last-number field is there.\<close>

fun deframe :: "sock_info list \<Rightarrow> sock_info list \<Rightarrow> socket_cmd list \<times> sock_info list" where
  "deframe acc [] = ([], acc)"
| "deframe acc (r # rs) =
     (if length acc = unat (si_lastNo r)
      then (case deframe [] rs of (ks, acc') \<Rightarrow> (joined (acc @ [r]) # ks, acc'))
      else deframe (acc @ [r]) rs)"

text \<open>The packets of a command follow each other and agree on its number and size.\<close>

fun in_turn :: "sock_info list \<Rightarrow> sock_info list \<Rightarrow> bool" where
  "in_turn acc [] \<longleftrightarrow> True"
| "in_turn acc (r # rs) \<longleftrightarrow>
     sendable r \<and> length acc \<le> unat (si_lastNo r)
     \<and> parts_of (si_cmd r) (unat (si_lastNo r)) (acc @ [r])
     \<and> in_turn (if length acc = unat (si_lastNo r) then [] else acc @ [r]) rs"

lemma deframe_append:
  "deframe acc (xs @ ys) =
    (case deframe acc xs of (k1, a1) \<Rightarrow> (case deframe a1 ys of (k2, a2) \<Rightarrow> (k1 @ k2, a2)))"
  by (induction acc xs rule: deframe.induct) (auto split: prod.splits)

lemma in_turn_append:
  "in_turn acc (xs @ ys) \<longleftrightarrow> in_turn acc xs \<and> in_turn (snd (deframe acc xs)) ys"
  by (induction acc xs rule: deframe.induct) (auto split: prod.splits)

lemma in_turn_sendable: "in_turn acc rs \<Longrightarrow> r \<in> set rs \<Longrightarrow> sendable r"
  by (induction acc rs rule: in_turn.induct) auto

text \<open>Payloads are bounded by the 16-bit length and part fields, so a command's length fits.\<close>

lemma parts_payload_le:
  "parts_of k n ps \<Longrightarrow> length (concat (map si_pValid ps)) \<le> length ps * 65535"
proof (induction ps)
  case Nil
  then show ?case by simp
next
  case (Cons p ps)
  then have "length (si_pValid p) = unat (si_length p)"
    by (simp add: parts_of_def sendable_def wf_info_def)
  moreover have "unat (si_length p) < 2 ^ 16" using unsigned_less [of "si_length p"] by simp
  moreover have "parts_of k n ps" using Cons.prems by (simp add: parts_of_def)
  ultimately show ?case using Cons.IH by simp
qed

lemma parts_payload_small:
  assumes "parts_of (si_cmd r) (unat (si_lastNo r)) (acc @ [r])" "length acc \<le> unat (si_lastNo r)"
  shows "length (concat (map si_pValid (acc @ [r]))) < 2 ^ 32"
proof -
  have "unat (si_lastNo r) < 2 ^ 16" using unsigned_less [of "si_lastNo r"] by simp
  then have "length (acc @ [r]) \<le> 65536" using assms(2) by simp
  then have "length (acc @ [r]) * 65535 \<le> 65536 * 65535" by (rule mult_le_mono1)
  then show ?thesis using parts_payload_le [OF assms(1)] by simp
qed

section \<open>Damaged packets\<close>

text \<open>A packet on the wire: as it was sent, or with another payload.\<close>

datatype wire = Whole sock_info | Spoilt sock_info "u8 list"

definition damaged :: "sock_info \<Rightarrow> u8 list \<Rightarrow> u8 list" where
  "damaged i pl = frame_header i @ pl @ int2buffer (si_crc i)"

lemma damaged_crc:
  assumes "sendable i" "si_crc i \<noteq> 0" "si_pValid i = xs @ p # ys" "q \<noteq> p"
  shows "\<not> frame_crc_ok (damaged i (xs @ q # ys))"
proof -
  let ?j = "i\<lparr>si_pValid := xs @ q # ys\<rparr>"
  have wf: "wf_info ?j" using assms(1,3) by (simp add: sendable_def wf_info_def)
  have eq: "damaged i (xs @ q # ys) = frame_bytes ?j"
    using wf by (simp add: frame_bytes_parts damaged_def frame_header_def)
  have crc: "si_crc i = crc32_le CRCPOLY_LE (xs @ p # ys)"
    using assms(1-3) by (simp add: sendable_def)
  have ne: "crc32_le CRCPOLY_LE (xs @ p # ys) \<noteq> crc32_le CRCPOLY_LE (xs @ q # ys)"
    using assms(4) by (simp add: crc32_le_one_byte)
  have "be16 (frame_bytes ?j) 14 = si_length i"
    using wf by (simp add: frame_bytes_parts header_fields)
  then show ?thesis
    using frame_crc_field [OF wf, of "[]"] frame_data [OF wf] assms(2) crc ne
    by (simp add: eq frame_crc_ok_def Let_def)
qed

lemma damaged_ready:
  assumes "sendable i" "length pl = length (si_pValid i)"
  shows "frame_ready (damaged i pl @ rest) = Some (length (damaged i pl))"
  using assms
  by (simp add: frame_ready_def sendable_def damaged_def header_fields wf_info_def)


fun wire_bytes :: "wire \<Rightarrow> u8 list" where
  "wire_bytes (Whole i) = frame_bytes i"
| "wire_bytes (Spoilt i pl) = damaged i pl"

text \<open>A damaged packet was sent with a checksum, and one byte of its payload has another value.\<close>

fun wire_ok :: "wire \<Rightarrow> bool" where
  "wire_ok (Whole i) \<longleftrightarrow> sendable i"
| "wire_ok (Spoilt i pl) \<longleftrightarrow> sendable i \<and> si_crc i \<noteq> 0
     \<and> (\<exists>xs p ys q. si_pValid i = xs @ p # ys \<and> pl = xs @ q # ys \<and> q \<noteq> p)"

fun goods :: "wire list \<Rightarrow> sock_info list" where
  "goods [] = []"
| "goods (Whole i # ws) = i # goods ws"
| "goods (Spoilt i pl # ws) = goods ws"

lemma goods_append [simp]: "goods (xs @ ys) = goods xs @ goods ys"
  by (induction xs rule: goods.induct) auto

lemma goods_Whole [simp]: "goods (map Whole rs) = rs"
  by (induction rs) auto

lemma wire_ready:
  assumes "wire_ok w"
  shows "frame_ready (wire_bytes w @ rest) = Some (length (wire_bytes w))"
  using assms by (cases w) (auto simp: frame_ready_frame_bytes damaged_ready)

text \<open>The packets in the list between two rounds: an unfinished command.\<close>

definition pending :: "sock_info list \<Rightarrow> bool" where
  "pending acc \<longleftrightarrow> (\<exists>k n. parts_of k n acc \<and> length acc \<le> n)"

lemma pending_Nil [simp]: "pending []"
  by (auto simp: pending_def parts_of_def)

lemma pending_deframe: "pending acc \<Longrightarrow> in_turn acc rs \<Longrightarrow> pending (snd (deframe acc rs))"
proof (induction acc rs rule: deframe.induct)
  case (2 acc r rs)
  have "pending (acc @ [r])" if "length acc \<noteq> unat (si_lastNo r)"
    unfolding pending_def using 2(4) that
    by (intro exI [of _ "si_cmd r"] exI [of _ "unat (si_lastNo r)"]) simp
  with 2 show ?case by (auto split: prod.splits)
qed simp

lemma pending_incomplete:
  assumes "pending acc" shows "\<not> check_infos k acc 0 (-1)"
proof -
  obtain c n where p: "\<forall>j \<in> set acc. si_cmd j = c \<and> unat (si_lastNo j) = n" "length acc \<le> n"
    using assms by (auto simp: pending_def parts_of_def)
  show ?thesis
  proof (cases "k = c")
    case True
    then show ?thesis using check_infos_parts [of "[]" k acc n] p by simp
  next
    case False
    then show ?thesis using check_infos_parts [of acc k "[]" n] p by simp
  qed
qed

text \<open>A damaged packet leaves the buffer and nothing else changes.\<close>

lemma parse_loop_spoilt:
  assumes "class_ok s xs (damaged i pl @ rest)" "wire_ok (Spoilt i pl)" "pending (map snd xs)"
  shows "\<exists>s1. parse_loop s = parse_loop s1 \<and> class_ok s1 xs rest"
proof -
  have rdy: "frame_ready (damaged i pl @ rest) = Some (length (damaged i pl))"
    using wire_ready [OF assms(2), of rest] by simp
  have "\<not> frame_crc_ok (damaged i pl)" using assms(2) damaged_crc by auto
  moreover have tk: "take (length (damaged i pl)) (damaged i pl @ rest) = damaged i pl"
    "drop (length (damaged i pl)) (damaged i pl @ rest) = rest" by simp_all
  ultimately obtain s1 where "class_ok s1 xs rest"
    "parse_loop s = do {
        complete \<leftarrow> checkRecvList2 s1 (si_cmd (frame_info (damaged i pl)));
        (if complete then do {
           r2 \<leftarrow> take_command s1 (frame_info (damaged i pl));
           Some (fst r2, Some (snd r2))
         } else parse_loop s1)
      }" using parse_loop_frame [OF assms(1) rdy] unfolding tk by auto
  then show ?thesis
    using pending_incomplete [OF assms(3)] by (intro exI [of _ s1]) (simp add: check_class)
qed

section \<open>Draining the buffer\<close>

lemma drain_cmds_wires:
  assumes "class_ok s ds (concat (map wire_bytes ws) @ q)" "in_turn (map snd ds) (goods ws)"
    and "\<forall>w \<in> set ws. wire_ok w" "pending (map snd ds)" and "frame_ready q = None"
  shows "\<exists>s' ds'. drain_cmds s = Some (s', fst (deframe (map snd ds) (goods ws)))
    \<and> class_ok s' ds' q \<and> map snd ds' = snd (deframe (map snd ds) (goods ws))"
  using assms(1-4)
proof (induction ws arbitrary: s ds rule: goods.induct)
  case 1
  then show ?case
    using assms(5)
    by (intro exI [of _ s] exI [of _ ds]) (simp add: drain_cmds.simps [of s] parse_class parse_loop_none)
next
  case (2 r ws)
  let ?n = "unat (si_lastNo r)" and ?rest = "concat (map wire_bytes ws) @ q"
  have step: "if length ds = ?n
    then \<exists>s'. parse_loop s = Some (s', Some (joined (map snd ds @ [r]))) \<and> class_ok s' [] ?rest
    else \<exists>s1. parse_loop s = parse_loop s1 \<and> class_ok s1 ([] @ ds @ [(sc_brk s, r)]) ?rest"
  proof (rule parse_loop_part [where k = "si_cmd r"])
    show "class_ok s ([] @ ds) (frame_bytes r @ ?rest)" using 2(2) by simp
    show "parts_of (si_cmd r) ?n (map snd ds @ [r])" "length ds \<le> ?n" using 2(3) by simp_all
    then show "length (concat (map si_pValid (map snd ds @ [r]))) < 2 ^ 32"
      by (intro parts_payload_small) simp_all
  qed simp
  show ?case
  proof (cases "length ds = ?n")
    case True
    then obtain s' where s': "parse_loop s = Some (s', Some (joined (map snd ds @ [r])))"
        "class_ok s' [] ?rest"
      using step by auto
    obtain t ds' where "drain_cmds s' = Some (t, fst (deframe [] (goods ws)))" "class_ok t ds' q"
      "map snd ds' = snd (deframe [] (goods ws))"
      using 2(1) [OF s'(2)] 2(3,4) True by auto
    then show ?thesis
      using s'(1) True by (intro exI [of _ t] exI [of _ ds'])
        (simp add: drain_cmds.simps [of s] parse_class [OF 2(2)] case_prod_beta)
  next
    case False
    then obtain s1 where s1: "parse_loop s = parse_loop s1"
        "class_ok s1 (ds @ [(sc_brk s, r)]) ?rest"
      using step by auto
    have "pending (map snd (ds @ [(sc_brk s, r)]))"
      using 2(3) False unfolding pending_def
      by (intro exI [of _ "si_cmd r"] exI [of _ ?n]) simp
    note IH = 2(1) [OF s1(2) _ _ this]
    have "drain_cmds s = drain_cmds s1"
      using s1(1) by (simp add: drain_cmds.simps [of s] drain_cmds.simps [of s1]
          parse_class [OF 2(2)] parse_class [OF s1(2)])
    with IH 2(3,4) False show ?thesis by simp
  qed
next
  case (3 i pl ws)
  have "class_ok s ds (damaged i pl @ concat (map wire_bytes ws) @ q)" "wire_ok (Spoilt i pl)"
    using 3(2,4) by simp_all
  from parse_loop_spoilt [OF this 3(5)] obtain s1 where
    s1: "parse_loop s = parse_loop s1" "class_ok s1 ds (concat (map wire_bytes ws) @ q)" by blast
  have "drain_cmds s = drain_cmds s1"
    using s1(1) by (simp add: drain_cmds.simps [of s] drain_cmds.simps [of s1]
        parse_class [OF 3(2)] parse_class [OF s1(2)])
  with 3(1) [OF s1(2)] 3(3-5) show ?case by simp
qed

section \<open>Segments of a stream\<close>

text \<open>A strict prefix of a stream of packets is whole packets and a strict prefix of one.\<close>

lemma stream_prefix:
  assumes "p @ e = concat (map f rs)" "e \<noteq> []"
  shows "\<exists>rs1 r rs2 q d. rs = rs1 @ r # rs2 \<and> p = concat (map f rs1) @ q
    \<and> f r = q @ d \<and> d \<noteq> []"
  using assms(1)
proof (induction rs arbitrary: p)
  case Nil
  then show ?case using assms(2) by simp
next
  case (Cons r rs)
  show ?case
  proof (cases "length p < length (f r)")
    case True
    have "p = take (length p) (p @ e)" by simp
    also have "\<dots> = take (length p) (f r)" using Cons.prems True by simp
    finally have p: "p = take (length p) (f r)" .
    have "f r = p @ drop (length p) (f r)"
      using append_take_drop_id [of "length p" "f r"] p by simp
    moreover have "drop (length p) (f r) \<noteq> []" using True by simp
    ultimately show ?thesis
      by (intro exI [of _ "[]"] exI [of _ r] exI [of _ rs] exI [of _ p]
          exI [of _ "drop (length p) (f r)"]) simp
  next
    case False
    let ?l = "length (f r)"
    have "take ?l p = f r"
      using Cons.prems False by (metis append_eq_append_conv_if append_eq_conv_conj concat.simps(2)
          list.simps(9) not_less)
    then have p: "p = f r @ drop ?l p" by (metis append_take_drop_id)
    have "drop ?l p @ e = concat (map f rs)"
      using Cons.prems by (subst (asm) p) simp
    from Cons.IH [OF this] obtain rs1 x rs2 q d where
      "rs = rs1 @ x # rs2" "drop ?l p = concat (map f rs1) @ q"
      "f x = q @ d" "d \<noteq> []" by blast
    with p show ?thesis
      by (intro exI [of _ "r # rs1"] exI [of _ x] exI [of _ rs2] exI [of _ q] exI [of _ d]) simp
  qed
qed

lemma frame_ready_prefix:
  assumes "frame_ready b = Some (length b)" "b = q @ d" "d \<noteq> []"
  shows "frame_ready q = None"
proof (rule ccontr)
  assume "frame_ready q \<noteq> None"
  then obtain n where n: "frame_ready q = Some n" by blast
  then have q: "20 \<le> length q" "n = 20 + unat (be16 q 14)" "n \<le> length q"
    by (auto simp: frame_ready_def split: if_splits)
  have "unat (be16 b 14) = unat (be16 q 14)"
    using q(1) assms(2) by (simp add: be16_def nth_append)
  moreover have "length b = 20 + unat (be16 b 14)"
    using assms(1) by (auto simp: frame_ready_def split: if_splits)
  moreover have "length b = length q + length d" using assms(2) by simp
  moreover have "length d \<noteq> 0" using assms(3) by simp
  ultimately show False using q by linarith
qed

lemma frame_ready_Nil [simp]: "frame_ready [] = None"
  by (simp add: frame_ready_def)

text \<open>The loop over segments, from a buffer that holds the beginning of the next packet.\<close>

lemma server_recv_wires:
  assumes "class_ok s ds q" "q @ concat gs = concat (map wire_bytes ws)"
    and "in_turn (map snd ds) (goods ws)" "frame_ready q = None"
    and "\<forall>g \<in> set gs. length g \<le> 20480"
    and "\<forall>w \<in> set ws. wire_ok w \<and> length (wire_bytes w) \<le> 20480"
    and "length q < 20480" "pending (map snd ds)"
  shows "\<exists>s' ds'. server_recv s gs = Some (s', fst (deframe (map snd ds) (goods ws)))
    \<and> class_ok s' ds' [] \<and> map snd ds' = snd (deframe (map snd ds) (goods ws))"
  using assms
proof (induction gs arbitrary: s ds q ws)
  case Nil
  have q: "q = concat (map wire_bytes ws)" using Nil.prems(2) by simp
  have "ws = []"
  proof (cases ws)
    case (Cons w ws')
    then have "frame_ready q = Some (length (wire_bytes w))"
      using q Nil.prems(6) by (simp add: wire_ready)
    then show ?thesis using Nil.prems(4) by simp
  qed
  then show ?case using Nil.prems(1) q by auto
next
  case (Cons g gs)
  have len: "length q + length g \<le> 40960" using Cons.prems(5,7) by simp
  obtain s1 where s1: "recvSocketCmd s g (word_of_nat (length g)) = Some s1"
      "class_ok s1 ds (q @ g)"
    using recv_class [OF Cons.prems(1) len] by blast
  show ?case
  proof (cases "concat gs = []")
    case True
    have "class_ok s1 ds (concat (map wire_bytes ws) @ [])"
      using s1(2) Cons.prems(2) True by simp
    from drain_cmds_wires [OF this Cons.prems(3) _ Cons.prems(8)] Cons.prems(6)
    obtain s2 ds2 where
      d: "drain_cmds s1 = Some (s2, fst (deframe (map snd ds) (goods ws)))" "class_ok s2 ds2 []"
        "map snd ds2 = snd (deframe (map snd ds) (goods ws))" by auto
    have "pending (map snd ds2)" using pending_deframe Cons.prems(3,8) d(3) by simp
    then have "\<exists>s' ds'. server_recv s2 gs = Some (s', fst (deframe (map snd ds2) (goods [])))
        \<and> class_ok s' ds' [] \<and> map snd ds' = snd (deframe (map snd ds2) (goods []))"
      using d(2) True Cons.prems(5) by (intro Cons.IH [where q = "[]"]) simp_all
    with s1(1) d show ?thesis by auto
  next
    case False
    have "(q @ g) @ concat gs = concat (map wire_bytes ws)" using Cons.prems(2) by simp
    from stream_prefix [OF this False] obtain ws1 w ws2 q' d where
      split: "ws = ws1 @ w # ws2" "q @ g = concat (map wire_bytes ws1) @ q'"
        "wire_bytes w = q' @ d" "d \<noteq> []" by blast
    have "wire_ok w" using Cons.prems(6) split(1) by simp
    then have rdy: "frame_ready q' = None"
      using frame_ready_prefix [OF _ split(3,4)] wire_ready [of w "[]"] by simp
    let ?a = "snd (deframe (map snd ds) (goods ws1))"
    have turn: "in_turn (map snd ds) (goods ws1)" "in_turn ?a (goods (w # ws2))"
      using Cons.prems(3) split(1) in_turn_append [of "map snd ds" "goods ws1" "goods (w # ws2)"]
        goods_append [of ws1 "w # ws2"] by simp_all
    have "class_ok s1 ds (concat (map wire_bytes ws1) @ q')" using s1(2) split(2) by simp
    from drain_cmds_wires [OF this turn(1) _ Cons.prems(8) rdy] Cons.prems(6) split(1)
    obtain s2 ds2 where
      d: "drain_cmds s1 = Some (s2, fst (deframe (map snd ds) (goods ws1)))" "class_ok s2 ds2 q'"
        "map snd ds2 = ?a" by auto
    have pend: "pending (map snd ds2)" using pending_deframe [OF Cons.prems(8) turn(1)] d(3) by simp
    have "(q @ g) @ concat gs = concat (map wire_bytes ws)" using Cons.prems(2) by simp
    then have rest: "q' @ concat gs = concat (map wire_bytes (w # ws2))"
      unfolding split(1,2) by simp
    have lenq: "length q' < 20480"
      using Cons.prems(6) split(1,3,4) by (cases d) auto
    obtain s' ds' where
      t: "server_recv s2 gs = Some (s', fst (deframe (map snd ds2) (goods (w # ws2))))"
        "class_ok s' ds' []" "map snd ds' = snd (deframe (map snd ds2) (goods (w # ws2)))"
      using Cons.IH [OF d(2) rest _ rdy _ _ lenq pend] turn(2) d(3) Cons.prems(5,6) split(1)
      by auto
    have "deframe (map snd ds) (goods ws) = (fst (deframe (map snd ds) (goods ws1))
        @ fst (deframe (map snd ds2) (goods (w # ws2))), snd (deframe (map snd ds2) (goods (w # ws2))))"
      unfolding split(1) goods_append deframe_append d(3) by (simp add: case_prod_beta)
    with s1(1) d t show ?thesis by auto
  qed
qed

section \<open>Set-up, and what the loop cannot recover from\<close>

text \<open>A zeroed class object with a buffer of \<open>FIFO_MAX_LEN\<close> bytes is ready after its first use.\<close>

lemma class_ok_start:
  assumes "length mem = 40960" "ff_bInit (sc_fifo s) \<noteq> 1" "0 < sc_brk s"
  shows "class_ok (init_class_fifo (init_socket_cmd_class mem s)) [] []"
  using assms fifo_init [of "(sc_fifo s)\<lparr>ff_cmd := mem\<rparr>"]
  by (simp add: class_ok_def init_class_fifo_def init_socket_cmd_class_def initRecvCmdList_def
      recv_ok_def)

text \<open>Once the first two bytes are not the sync word, no input is ever taken off the buffer.\<close>

lemma drain_stuck:
  assumes "class_ok s xs c" "frame_ready c = None"
  shows "drain_cmds s = Some (s, [])"
  using assms by (simp add: drain_cmds.simps [of s] parse_class parse_loop_none)

lemma stuck_stream:
  assumes "class_ok s xs c" "2 \<le> length c" "be16 c 0 \<noteq> SYNC_HEAD"
    and "\<forall>g \<in> set gs. length g < 2 ^ 31"
  shows "\<exists>s' c'. server_recv s gs = Some (s', []) \<and> class_ok s' xs c' \<and> take (length c) c' = c"
  using assms
proof (induction gs arbitrary: s c)
  case Nil
  then show ?case by auto
next
  case (Cons g gs)
  have none: "frame_ready (c @ d) = None" for d
    using Cons.prems(2,3) by (rule frame_ready_append_bad)
  show ?case
  proof (cases "length c + length g \<le> 40960")
    case True
    obtain s1 where s1: "recvSocketCmd s g (word_of_nat (length g)) = Some s1" "class_ok s1 xs (c @ g)"
      using recv_class [OF Cons.prems(1) True] by blast
    have "be16 (c @ g) 0 \<noteq> SYNC_HEAD" using Cons.prems(2,3) by (cases c) (auto simp: be16_def nth_append)
    with Cons.IH [OF s1(2)] Cons.prems(2,4) obtain s' c' where
      "server_recv s1 gs = Some (s', [])" "class_ok s' xs c'" "take (length (c @ g)) c' = c @ g" by auto
    moreover from this have "take (length c) c' = c"
      by (metis append_eq_conv_conj length_append take_add take_take min.absorb1 le_add1)
    ultimately show ?thesis using s1(1) drain_stuck [OF s1(2) none] by auto
  next
    case False
    then have "recvSocketCmd s g (word_of_nat (length g)) = Some s"
      using recv_class_full [OF Cons.prems(1)] Cons.prems(4) by simp
    moreover have "drain_cmds s = Some (s, [])"
      using drain_stuck [OF Cons.prems(1)] none [of "[]"] by simp
    ultimately show ?thesis using Cons.IH [OF Cons.prems(1-3)] Cons.prems(4) by auto
  qed
qed

section \<open>A long answer in packets\<close>

definition CLIENT_MSG_REBACK :: u32 where "CLIENT_MSG_REBACK = 0x2020"
definition REBACK_MIPI_CODE :: u32 where "REBACK_MIPI_CODE = 2"

text \<open>The loop of \<open>client_rebackMipiCode\<close>: the arguments of each \<open>sendSocketCmd\<close> call, as the
  packet descriptor that call builds.\<close>

fun reback_loop :: "u8 list \<Rightarrow> nat \<Rightarrow> nat \<Rightarrow> nat \<Rightarrow> nat list \<Rightarrow> sock_info list" where
  "reback_loop code packetLen lastNo remain [] = []"
| "reback_loop code packetLen lastNo remain (i # is) =
     (let sendLen = (if remain \<ge> packetLen then packetLen else remain)
      in send_info (push_bit 16 REBACK_MIPI_CODE OR CLIENT_MSG_REBACK) 0
           (word_of_nat i) (word_of_nat lastNo) (drop (i * packetLen) code) (word_of_nat sendLen)
         # reback_loop code packetLen lastNo (remain - sendLen) is)"

definition client_rebackMipiCode :: "u8 list \<Rightarrow> int \<Rightarrow> sock_info list" where
  "client_rebackMipiCode code len =
     (if 0 < len then
        let packetLen = unat getPackageMaxLen; lastNo = nat len div packetLen
        in reback_loop code packetLen lastNo (nat len) [0..<lastNo + 1]
      else [])"

lemma chunk_info:
  assumes "m \<le> 1600" "m \<le> length d"
  shows "sendable (send_info (push_bit 16 REBACK_MIPI_CODE OR CLIENT_MSG_REBACK) 0 c l d (word_of_nat m))"
    "si_pValid (send_info (push_bit 16 REBACK_MIPI_CODE OR CLIENT_MSG_REBACK) 0 c l d (word_of_nat m))
       = take m d"
    "si_cmd (send_info (push_bit 16 REBACK_MIPI_CODE OR CLIENT_MSG_REBACK) 0 c l d w) = 0x2020"
    "si_type (send_info (push_bit 16 REBACK_MIPI_CODE OR CLIENT_MSG_REBACK) 0 c l d w) = 2"
    "si_ipnum (send_info (push_bit 16 REBACK_MIPI_CODE OR CLIENT_MSG_REBACK) 0 c l d w) = 0"
    "si_lastNo (send_info (push_bit 16 REBACK_MIPI_CODE OR CLIENT_MSG_REBACK) 0 c l d w) = l"
proof -
  have "unat (word_of_nat m :: u32) = m" using assms(1) by (simp add: unat_of_nat_exact)
  then show "sendable (send_info (push_bit 16 REBACK_MIPI_CODE OR CLIENT_MSG_REBACK) 0 c l d (word_of_nat m))"
    "si_pValid (send_info (push_bit 16 REBACK_MIPI_CODE OR CLIENT_MSG_REBACK) 0 c l d (word_of_nat m))
       = take m d"
    using send_info_sendable [of "word_of_nat m" d] assms by simp_all
qed (simp_all add: send_info_def Let_def REBACK_MIPI_CODE_def CLIENT_MSG_REBACK_def)

lemma reback_loop_parts:
  assumes "length code = i * 1600 + remain" "k * 1600 \<le> remain" "remain < (k + 1) * 1600" "lastNo < 65536"
  shows "parts_of 0x2020 lastNo (reback_loop code 1600 lastNo remain [i..<i + k + 1])
    \<and> concat (map si_pValid (reback_loop code 1600 lastNo remain [i..<i + k + 1]))
        = take ((k + 1) * 1600) (drop (i * 1600) code)
    \<and> (\<forall>p \<in> set (reback_loop code 1600 lastNo remain [i..<i + k + 1]).
         si_type p = 2 \<and> si_ipnum p = 0)"
  using assms(1-3)
proof (induction k arbitrary: i remain)
  case 0
  then show ?case
    using assms(4) chunk_info [of remain "drop (i * 1600) code"]
    by (auto simp: parts_of_def unat_of_nat_exact)
next
  case (Suc k)
  let ?tl = "reback_loop code 1600 lastNo (remain - 1600) [Suc i..<Suc i + k + 1]"
  have up: "[i..<i + Suc k + 1] = i # [Suc i..<Suc i + k + 1]" by (simp add: upt_rec)
  have IH: "parts_of 0x2020 lastNo ?tl
      \<and> concat (map si_pValid ?tl) = take ((k + 1) * 1600) (drop (Suc i * 1600) code)
      \<and> (\<forall>p \<in> set ?tl. si_type p = 2 \<and> si_ipnum p = 0)"
    using Suc.prems by (intro Suc.IH) simp_all
  have "take ((Suc k + 1) * 1600) (drop (i * 1600) code)
      = take 1600 (drop (i * 1600) code) @ take ((k + 1) * 1600) (drop (Suc i * 1600) code)"
    using take_add [of 1600 "(k + 1) * 1600" "drop (i * 1600) code"] by (simp add: add.commute)
  moreover have "reback_loop code 1600 lastNo remain [i..<i + Suc k + 1] =
      send_info (push_bit 16 REBACK_MIPI_CODE OR CLIENT_MSG_REBACK) 0 (word_of_nat i)
        (word_of_nat lastNo) (drop (i * 1600) code) (word_of_nat 1600) # ?tl"
    unfolding up using Suc.prems(2) by simp
  moreover have "unat (word_of_nat lastNo :: u16) = lastNo"
    using assms(4) by (simp add: unat_of_nat_exact)
  moreover have "1600 \<le> length (drop (i * 1600) code)" using Suc.prems(1,2) by simp
  note chunk_info [OF le_refl this]
  ultimately show ?case
    using IH by (simp only: parts_of_def list.set ball_simps list.map concat.simps simp_thms)
      (simp add: parts_of_def)
qed

lemma length_reback_loop [simp]: "length (reback_loop code p l r is) = length is"
  by (induction "is" arbitrary: r) (simp_all add: Let_def)

lemma rebackMipi_parts:
  assumes "0 < length code" "length code < 65536 * 1600"
  shows "\<exists>ps n. client_rebackMipiCode code (int (length code)) = ps \<and> parts_of 0x2020 n ps
    \<and> length ps = n + 1 \<and> concat (map si_pValid ps) = code
    \<and> (\<forall>p \<in> set ps. si_type p = 2 \<and> si_ipnum p = 0)"
proof -
  let ?n = "length code div 1600"
  have "length code div 1600 * 1600 + length code mod 1600 = length code" by simp
  moreover have "length code mod 1600 < 1600" by simp
  ultimately have "length code < ?n * 1600 + 1600" by linarith
  then have le: "?n * 1600 \<le> length code" "length code < (?n + 1) * 1600" by simp_all
  have "?n < 65536" using assms(2) by (simp add: less_mult_imp_div_less)
  from reback_loop_parts [of code 0 "length code" ?n ?n, OF _ le this]
  show ?thesis
    using assms(1) le(2)
    by (intro exI [of _ "client_rebackMipiCode code (int (length code))"] exI [of _ ?n])
       (simp add: Let_def client_rebackMipiCode_def getPackageMaxLen_def PACKAGE_MAX_LEN_def)
qed

lemma frame_bytes_le: "length (frame_bytes p) \<le> 20 + length (si_pValid p)"
  by (simp add: frame_bytes_def)

lemma send_info_le: "length (si_pValid (send_info t n c l d (word_of_nat m))) \<le> m"
proof -
  have "unat (word_of_nat m :: u32) \<le> m" by (simp add: unat_of_nat)
  then show ?thesis by (simp add: send_info_def Let_def min.coboundedI2)
qed

lemma reback_loop_le:
  "\<forall>p \<in> set (reback_loop code 1600 l r is). length (si_pValid p) \<le> 1600"
proof (induction "is" arbitrary: r)
  case (Cons i "is")
  have "length (si_pValid (send_info t n c k d (word_of_nat (if 1600 \<le> r then 1600 else r)))) \<le> 1600"
    for t n c k d
    by (rule order_trans [OF send_info_le]) simp
  with Cons.IH show ?case by (simp only: reback_loop.simps Let_def list.set ball_simps) simp
qed simp

lemma rebackMipi_short:
  assumes "p \<in> set (client_rebackMipiCode code len)"
  shows "length (frame_bytes p) \<le> 20480"
proof -
  have "length (si_pValid p) \<le> 1600"
    using assms by (auto simp: client_rebackMipiCode_def getPackageMaxLen_def PACKAGE_MAX_LEN_def Let_def
        reback_loop_le [rule_format] simp del: upt_Suc split: if_splits)
  then show ?thesis using frame_bytes_le [of p] by linarith
qed

text \<open>A run of parts of one command, as the specification groups it.\<close>

lemma deframe_parts:
  assumes "parts_of k n (acc @ ps)" "length acc + length ps = n + 1" "ps \<noteq> []"
  shows "deframe acc ps = ([joined (acc @ ps)], []) \<and> in_turn acc ps"
  using assms
proof (induction ps arbitrary: acc)
  case Nil
  then show ?case by simp
next
  case (Cons p ps)
  have p: "si_cmd p = k" "unat (si_lastNo p) = n" "sendable p"
    using Cons.prems(1) by (auto simp: parts_of_def)
  show ?case
  proof (cases ps)
    case Nil
    then show ?thesis using Cons.prems p by simp
  next
    case (Cons q qs)
    have "deframe (acc @ [p]) ps = ([joined ((acc @ [p]) @ ps)], []) \<and> in_turn (acc @ [p]) ps"
      using Cons.prems Cons by (intro Cons.IH) simp_all
    moreover have "parts_of k n (acc @ [p])"
      using Cons.prems(1) by (auto simp: parts_of_def)
    ultimately show ?thesis using Cons.prems(2) Cons p by simp
  qed
qed

end
