(* ===== verification/PackDelivery.thy ===== *)
theory PackDelivery
  imports PackStream
begin

text \<open>
  What the packet protocol of \<open>packsocket.c\<close> promises the host and the box, over the receive
  loop of \<open>PackStream\<close>: a long answer arrives as one command, the loop refines the grouping
  \<open>deframe\<close> for every segmentation, a sent frame is read back, damaged packets are dropped
  without harm to the packets around them, and a lost sync word is never recovered. Also the
  order kept by the command buffer, and what the removal of a command does to the list.
\<close>

section \<open>The packet protocol\<close>

lemma recv_from_init:
  "gs \<noteq> [] \<Longrightarrow> server_recv s gs = server_recv (init_class_fifo s) gs"
proof (cases gs)
  case (Cons g gs')
  have "init_class_fifo (init_class_fifo s) = init_class_fifo s"
    by (simp add: init_class_fifo_def init_cmd_fifo_def initRecvCmdList_def)
  then have "recvSocketCmd s d n = recvSocketCmd (init_class_fifo s) d n" for d n
    by (simp add: recvSocketCmd_def)
  then show ?thesis using Cons by simp
qed simp

lemma parts_single_command:
  assumes "parts_of k n ps" "length ps = n + 1"
  shows "deframe [] ps = ([joined ps], [])" "in_turn [] ps"
proof -
  have "ps \<noteq> []" using assms(2) by auto
  then have "deframe [] ps = ([joined ps], []) \<and> in_turn [] ps"
    using deframe_parts [of k n "[]" ps] assms by simp
  then show "deframe [] ps = ([joined ps], [])" "in_turn [] ps" by auto
qed

lemma frame_bytes_not_Nil [simp]: "frame_bytes i \<noteq> []"
proof
  assume "frame_bytes i = []"
  then have "length (frame_bytes i) = 0" by simp
  then show False by (simp add: frame_bytes_def del: length_0_conv)
qed

lemma long_answer_length:
  "parts_of k n ps \<Longrightarrow> p \<in> set ps \<Longrightarrow> length (frame_bytes p) = 20 + length (si_pValid p)"
  by (auto simp: parts_of_def sendable_def length_frame_bytes wf_info_def)

text \<open>A fresh object and at least one segment; packets may be intact or damaged.\<close>

lemma receive_wires_from_start:
  assumes "length mem = 40960" "ff_bInit (sc_fifo s) \<noteq> 1" "0 < sc_brk s" "gs \<noteq> []"
    and "concat gs = concat (map wire_bytes ws)" "in_turn [] (goods ws)"
    and "\<forall>g \<in> set gs. length g \<le> 20480"
    and "\<forall>w \<in> set ws. wire_ok w \<and> length (wire_bytes w) \<le> 20480"
  shows "\<exists>s' ds. server_recv (init_socket_cmd_class mem s) gs = Some (s', fst (deframe [] (goods ws)))
    \<and> class_ok s' ds [] \<and> map snd ds = snd (deframe [] (goods ws))"
  using server_recv_wires [OF class_ok_start [OF assms(1-3)], of gs ws] assms(5-8)
  by (subst recv_from_init [OF assms(4)]) simp

lemma receive_from_start:
  assumes "length mem = 40960" "ff_bInit (sc_fifo s) \<noteq> 1" "0 < sc_brk s" "gs \<noteq> []"
    and "concat gs = concat (map frame_bytes rs)" "in_turn [] rs"
    and "\<forall>g \<in> set gs. length g \<le> 20480" "\<forall>r \<in> set rs. length (frame_bytes r) \<le> 20480"
  shows "\<exists>s' ds. server_recv (init_socket_cmd_class mem s) gs = Some (s', fst (deframe [] rs))
    \<and> class_ok s' ds [] \<and> map snd ds = snd (deframe [] rs)"
  using receive_wires_from_start [OF assms(1-4), of "map Whole rs"] assms(5-8)
    in_turn_sendable [OF assms(6)] by (simp add: comp_def)

definition class0 :: sock_class where
  "class0 = \<lparr>sc_head = 0, sc_heap = Map.empty, sc_brk = 1,
     sc_fifo = \<lparr>ff_cmd = [], ff_read = 0, ff_write = 0, ff_len = 0, ff_maxLen = 0, ff_bInit = 0\<rparr>\<rparr>"

text \<open>
  C1: An answer of 1 to 65536 * 1600 - 1 bytes that client_rebackMipiCode cuts into packets,
  received by a fresh class object over the stream in segments of any sizes up to 20480 bytes,
  leaves the receive loop as exactly one command that holds all its bytes in order.
\<close>

theorem long_answer_delivered:
  assumes mem: "length mem = 40960" "ff_bInit (sc_fifo s) \<noteq> 1" "0 < sc_brk s"
    and code: "0 < length code" "length code < 65536 * 1600"
    and gs: "concat gs = concat (map frame_bytes (client_rebackMipiCode code (int (length code))))"
      "\<forall>g \<in> set gs. length g \<le> 20480"
  shows "\<exists>s'. server_recv (init_socket_cmd_class mem s) gs =
    Some (s', [\<lparr>sk_cmd = 0x2020, sk_type = 2, sk_ipnum = 0,
                sk_len = word_of_nat (length code), sk_pcmd = code\<rparr>])"
proof -
  obtain ps n where ps: "client_rebackMipiCode code (int (length code)) = ps" "parts_of 0x2020 n ps"
      "length ps = n + 1" "concat (map si_pValid ps) = code"
      "\<forall>p \<in> set ps. si_type p = 2 \<and> si_ipnum p = 0"
    using rebackMipi_parts [OF code] by blast
  then have ne: "ps \<noteq> []" and wf: "\<forall>p \<in> set ps. wf_info p"
    by (auto simp: parts_of_def sendable_def)
  have short: "\<forall>p \<in> set ps. length (frame_bytes p) \<le> 20480"
    using ps(1) rebackMipi_short by blast
  from ne obtain p ps' where "ps = p # ps'" by (cases ps) auto
  then have "gs \<noteq> []" using gs(1) ps(1) by auto
  then obtain s' where "server_recv (init_socket_cmd_class mem s) gs = Some (s', [joined ps])"
    using receive_from_start [OF mem, of gs ps] gs short
    by (auto simp only: ps(1) parts_single_command [OF ps(2,3)] fst_conv)
  moreover have "joined ps = \<lparr>sk_cmd = 0x2020, sk_type = 2, sk_ipnum = 0,
      sk_len = word_of_nat (length code), sk_pcmd = code\<rparr>"
    using ps(2,4,5) ne by (simp add: joined_def parts_of_def)
  ultimately show ?thesis by simp
qed

lemma long_answer_delivered_witness:
  "\<exists>s'. server_recv (init_socket_cmd_class (replicate 40960 0) class0)
      (map (\<lambda>b. [b]) (concat (map frame_bytes (client_rebackMipiCode [7, 8, 9] 3)))) =
    Some (s', [\<lparr>sk_cmd = 0x2020, sk_type = 2, sk_ipnum = 0, sk_len = 3, sk_pcmd = [7, 8, 9]\<rparr>])"
  using long_answer_delivered [of "replicate 40960 0" class0 "[7, 8, 9]"
      "map (\<lambda>b. [b]) (concat (map frame_bytes (client_rebackMipiCode [7, 8, 9] 3)))"]
  by (simp add: class0_def concat_map_singleton)

text \<open>
  C2: Let packets of at most 20480 bytes each be well formed and in turn: all packets of a
  command carry the same command and the same last number, they follow each other without a
  packet of another command in between, and none comes before the packets of the previous
  command are complete (the last command may be unfinished). Cut their bytes into one or more
  segments of at most 20480 bytes each, in any way. From a fresh class object the receive loop
  of server_start over recvSocketCmd and parseSocketCmd then returns, refining the
  specification deframe: exactly the completed commands come out, in order, and the packets
  left in the list are those of the unfinished command. Interleaved commands are outside of
  this statement.
\<close>

theorem receive_loop_refines_deframe:
  assumes "length mem = 40960" "ff_bInit (sc_fifo s) \<noteq> 1" "0 < sc_brk s" "gs \<noteq> []"
    and "concat gs = concat (map frame_bytes rs)" "in_turn [] rs"
    and "\<forall>g \<in> set gs. length g \<le> 20480" "\<forall>r \<in> set rs. length (frame_bytes r) \<le> 20480"
  shows "\<exists>s' ds. server_recv (init_socket_cmd_class mem s) gs = Some (s', fst (deframe [] rs))
    \<and> class_ok s' ds [] \<and> map snd ds = snd (deframe [] rs)"
  by (rule receive_from_start [OF assms])

text \<open>Two one-packet commands with an empty payload each, received byte by byte.\<close>

definition packet0 :: "u16 \<Rightarrow> sock_info" where
  "packet0 c = \<lparr>si_sync = SYNC_HEAD, si_cmd = c, si_ipnum = 5, si_curNo = 0, si_lastNo = 0,
     si_type = 1, si_length = 0, si_pValid = [], si_crc = 0\<rparr>"

lemma packet0_facts:
  "sendable (packet0 c)" "length (frame_bytes (packet0 c)) = 20" "in_turn [] [packet0 c, packet0 d]"
  "in_turn [] [packet0 c]"
  "fst (deframe [] [packet0 c, packet0 d]) = [joined [packet0 c], joined [packet0 d]]"
  "fst (deframe [] [packet0 c]) = [joined [packet0 c]]"
  by (simp_all add: packet0_def sendable_def wf_info_def frame_bytes_def parts_of_def)

lemma receive_loop_refines_deframe_witness:
  "\<exists>s' ds. server_recv (init_socket_cmd_class (replicate 40960 0) class0)
      (map (\<lambda>b. [b]) (concat (map frame_bytes [packet0 3, packet0 4])))
      = Some (s', [joined [packet0 3], joined [packet0 4]])
    \<and> class_ok s' ds [] \<and> map snd ds = snd (deframe [] [packet0 3, packet0 4])"
proof -
  have "\<exists>s' ds. server_recv (init_socket_cmd_class (replicate 40960 0) class0)
      (map (\<lambda>b. [b]) (concat (map frame_bytes [packet0 3, packet0 4])))
      = Some (s', fst (deframe [] [packet0 3, packet0 4]))
    \<and> class_ok s' ds [] \<and> map snd ds = snd (deframe [] [packet0 3, packet0 4])"
    by (rule receive_loop_refines_deframe)
       (auto simp: class0_def concat_map_singleton packet0_facts(2,3) simp del: in_turn.simps)
  then show ?thesis unfolding packet0_facts(5) .
qed

lemma frame_of_call:
  assumes "sendFd \<noteq> -1" "unat len \<le> length pData" "unat len < 65536"
  shows "\<exists>b i. sendSocketCmd snd_fn sendFd typeCmd ipnum curNo lastNo pData len
      = Some (if snd_fn b \<le> 0 then -1 else 0, Some b)
    \<and> next_frame (b @ rest) = Some (i, rest) \<and> frame_crc_ok b
    \<and> si_cmd i = ucast (typeCmd AND 0xFFFF) \<and> si_type i = ucast (drop_bit 16 typeCmd)
    \<and> si_ipnum i = ipnum \<and> si_curNo i = curNo \<and> si_lastNo i = lastNo
    \<and> si_pValid i = take (unat len) pData"
proof -
  let ?i = "send_info typeCmd ipnum curNo lastNo pData len"
  note ok = send_info_sendable [OF assms(2,3), of typeCmd ipnum curNo lastNo]
  have "si_cmd ?i = ucast (typeCmd AND 0xFFFF) \<and> si_type ?i = ucast (drop_bit 16 typeCmd)
    \<and> si_ipnum ?i = ipnum \<and> si_curNo ?i = curNo \<and> si_lastNo ?i = lastNo"
    by (simp add: send_info_def Let_def)
  then show ?thesis
    using ok assms(1,2) pf.dec_enc [OF ok(1), of rest] frame_crc_ok_frame_bytes [OF ok(1)]
    by (intro exI [of _ "frame_bytes ?i"] exI [of _ ?i]) (simp add: sendSocketCmd_def Let_def)
qed

text \<open>
  C3: The bytes sendSocketCmd hands to send are taken off the front of a stream as one frame
  whose checksum is accepted and whose fields and payload are those of the call; the return
  value tells only whether send gave a positive result.
\<close>

theorem sent_frame_is_read_back:
  assumes "sendFd \<noteq> -1" "unat len \<le> length pData" "unat len < 65536"
  shows "\<exists>b i. sendSocketCmd snd_fn sendFd typeCmd ipnum curNo lastNo pData len
      = Some (if snd_fn b \<le> 0 then -1 else 0, Some b)
    \<and> next_frame (b @ rest) = Some (i, rest) \<and> frame_crc_ok b
    \<and> si_cmd i = ucast (typeCmd AND 0xFFFF) \<and> si_type i = ucast (drop_bit 16 typeCmd)
    \<and> si_ipnum i = ipnum \<and> si_curNo i = curNo \<and> si_lastNo i = lastNo
    \<and> si_pValid i = take (unat len) pData"
  by (rule frame_of_call [OF assms])

lemma sent_frame_is_read_back_witness:
  "\<exists>b i. sendSocketCmd (\<lambda>b. int (length b)) 4 0x2C1E3 9 2 7 [1, 2, 3, 4] 3
      = Some (if int (length b) \<le> 0 then -1 else 0, Some b)
    \<and> next_frame (b @ [0x47]) = Some (i, [0x47]) \<and> frame_crc_ok b
    \<and> si_cmd i = ucast (0x2C1E3 AND 0xFFFF :: u32) \<and> si_type i = ucast (drop_bit 16 0x2C1E3 :: u32)
    \<and> si_ipnum i = 9 \<and> si_curNo i = 2 \<and> si_lastNo i = 7
    \<and> si_pValid i = take (unat (3 :: u32)) [1, 2, 3, 4]"
  by (rule sent_frame_is_read_back) simp_all

text \<open>
  C4: Take any sequence of intact and damaged packets of at most 20480 bytes each, a damaged
  packet being one that was sent with a non-zero checksum and of which one payload byte
  arrives with another value, anywhere in the sequence, also between the packets of a command.
  If the intact packets are in turn (the packets of a command agree on command and last number
  and follow each other, with no intact packet of another command in between), then for every
  cut of the bytes into one or more segments of at most 20480 bytes a fresh class object
  delivers exactly the commands of the intact packets and keeps exactly the packets of the
  unfinished one: each damaged packet is taken off the buffer and dropped as if it had not
  been sent.
\<close>

theorem damaged_packet_is_dropped:
  assumes "length mem = 40960" "ff_bInit (sc_fifo s) \<noteq> 1" "0 < sc_brk s" "gs \<noteq> []"
    and "concat gs = concat (map wire_bytes ws)" "in_turn [] (goods ws)"
    and "\<forall>g \<in> set gs. length g \<le> 20480"
    and "\<forall>w \<in> set ws. wire_ok w \<and> length (wire_bytes w) \<le> 20480"
  shows "\<exists>s' ds. server_recv (init_socket_cmd_class mem s) gs = Some (s', fst (deframe [] (goods ws)))
    \<and> class_ok s' ds [] \<and> map snd ds = snd (deframe [] (goods ws))"
  by (rule receive_wires_from_start [OF assms])

text \<open>A packet with two bytes of payload; its checksum is not zero.\<close>

definition packet2 :: sock_info where
  "packet2 = (packet0 3)\<lparr>si_length := 2, si_pValid := [7, 8],
     si_crc := crc32_le CRCPOLY_LE [7, 8]\<rparr>"

lemma packet2_facts:
  "sendable packet2" "si_crc packet2 \<noteq> 0" "si_pValid packet2 = [] @ 7 # [8]"
  "length (frame_bytes packet2) = 22"
proof -
  have "crc32_le CRCPOLY_LE [7, 8] \<noteq> 0" by code_simp
  then show "sendable packet2" "si_crc packet2 \<noteq> 0" "si_pValid packet2 = [] @ 7 # [8]"
    "length (frame_bytes packet2) = 22"
    by (simp_all add: packet2_def packet0_def sendable_def wf_info_def frame_bytes_def)
qed

lemma spoilt_packet2: "wire_ok (Spoilt packet2 [6, 8])" "length (damaged packet2 [6, 8]) = 22"
proof -
  have "si_pValid packet2 = [] @ 7 # [8] \<and> [6, 8] = [] @ 6 # [8] \<and> (6 :: u8) \<noteq> 7"
    using packet2_facts(3) by simp
  then show "wire_ok (Spoilt packet2 [6, 8])"
    using packet2_facts(1,2) by (simp only: wire_ok.simps) blast
  show "length (damaged packet2 [6, 8]) = 22" by (simp add: damaged_def)
qed

lemma damaged_packet_is_dropped_witness:
  "\<exists>s' ds. server_recv (init_socket_cmd_class (replicate 40960 0) class0)
      (map (\<lambda>b. [b]) (concat (map wire_bytes
        [Whole (packet0 3), Spoilt packet2 [6, 8], Whole (packet0 4)])))
      = Some (s', [joined [packet0 3], joined [packet0 4]])
    \<and> class_ok s' ds [] \<and> map snd ds = snd (deframe [] [packet0 3, packet0 4])"
proof -
  let ?ws = "[Whole (packet0 3), Spoilt packet2 [6, 8], Whole (packet0 4)]"
  have "\<exists>s' ds. server_recv (init_socket_cmd_class (replicate 40960 0) class0)
      (map (\<lambda>b. [b]) (concat (map wire_bytes ?ws))) = Some (s', fst (deframe [] (goods ?ws)))
    \<and> class_ok s' ds [] \<and> map snd ds = snd (deframe [] (goods ?ws))"
    by (rule damaged_packet_is_dropped)
       (auto simp: class0_def concat_map_singleton packet0_facts(1-3) spoilt_packet2
         simp del: in_turn.simps wire_ok.simps(2))
  then show ?thesis unfolding goods.simps packet0_facts(5) .
qed

text \<open>
  C5: When the first segment a fresh class object receives has 2 to 40960 bytes and does not
  begin with the sync word, no command is ever delivered again, whatever is received later: no
  path of the code drops bytes that do not start a frame.
\<close>

theorem lost_sync_is_never_regained:
  assumes "length mem = 40960" "ff_bInit (sc_fifo s) \<noteq> 1" "0 < sc_brk s"
    and "2 \<le> length g" "length g \<le> 40960" "be16 g 0 \<noteq> SYNC_HEAD" "\<forall>g \<in> set gs. length g < 2 ^ 31"
  shows "\<exists>s'. server_recv (init_socket_cmd_class mem s) (g # gs) = Some (s', [])"
proof -
  let ?s = "init_class_fifo (init_socket_cmd_class mem s)"
  obtain s1 where s1: "recvSocketCmd ?s g (word_of_nat (length g)) = Some s1" "class_ok s1 [] g"
    using recv_class [OF class_ok_start [OF assms(1-3)], of g] assms(5) by auto
  have "drain_cmds s1 = Some (s1, [])"
    using drain_stuck [OF s1(2)] frame_ready_append_bad [OF assms(4,6), of "[]"] by simp
  then show ?thesis
    using s1(1) stuck_stream [OF s1(2) assms(4,6,7)] recv_from_init [of "g # gs" "init_socket_cmd_class mem s"]
    by auto
qed

lemma lost_sync_is_never_regained_witness:
  "\<exists>s'. server_recv (init_socket_cmd_class (replicate 40960 0) class0)
    ([0x12, 0x47] # [frame_bytes (packet0 4), frame_bytes packet2]) = Some (s', [])"
  by (rule lost_sync_is_never_regained)
     (auto simp: class0_def packet0_facts(2) packet2_facts(4) be16_def SYNC_HEAD_def)

text \<open>
  Over any sequence of writes that fit and of reads, the command buffer keeps its invariant
  and gives out the bytes in the order they went in.
\<close>

theorem cmd_fifo_keeps_order:
  assumes "fifo_inv f" "fifo_admissible fifo_fits fifo_put fifo_get f ops"
    and "fifo_run fifo_put fifo_get f ops = (f', ins, outs)"
  shows "fifo_inv f' \<and> fifo_content f @ ins = outs @ fifo_content f'"
  by (rule cf.run_order [OF assms])

definition fifo0 :: cmd_fifo where
  "fifo0 = init_cmd_fifo \<lparr>ff_cmd = replicate 40960 0, ff_read = 3, ff_write = 9, ff_len = 1,
     ff_maxLen = 0, ff_bInit = 0\<rparr>"

lemma cmd_fifo_keeps_order_witness:
  "\<exists>f'. fifo_run fifo_put fifo_get fifo0 [Put [1, 2, 3], Get 2, Get 9] = (f', [1, 2, 3], [1, 2])
     \<and> fifo_inv f' \<and> fifo_content fifo0 @ [1, 2, 3] = [1, 2] @ fifo_content f'"
proof -
  have f0: "fifo_inv fifo0" "fifo_content fifo0 = []" "fifo_fits fifo0 (length [1, 2, 3 :: u8])"
    by (simp_all add: fifo0_def init_cmd_fifo_def fifo_inv_def fifo_content_def fifo_fits_def ring_view_def)
  obtain f1 where f1: "fifo_put fifo0 [1, 2, 3] = Some f1" "fifo_inv f1" "fifo_content f1 = [1, 2, 3]"
    using cf.put_ok [OF f0(1,3)] f0(2) by auto
  obtain f2 where f2: "fifo_get f1 2 = Some (f2, [1, 2])" "fifo_inv f2" "fifo_content f2 = [3]"
    using cf.get_ok [OF f1(2), of 2] f1(3) by auto
  have "fifo_get f2 9 = None" using cf.get_short [OF f2(2)] f2(3) by simp
  then have run: "fifo_run fifo_put fifo_get fifo0 [Put [1, 2, 3], Get 2, Get 9] = (f2, [1, 2, 3], [1, 2])"
    using f1(1) f2(1) by simp
  have adm: "fifo_admissible fifo_fits fifo_put fifo_get fifo0 [Put [1, 2, 3], Get 2, Get 9]"
    using f0(3) by (auto split: option.split)
  show ?thesis using cmd_fifo_keeps_order [OF f0(1) adm run] run by blast
qed

text \<open>
  When the packets of a command are removed from between the packets of other commands, the
  list keeps a link to a freed node: the next packet that is accepted makes _addRecvList walk
  through freed memory.
\<close>

theorem removed_middle_command_leaves_dangling_link:
  assumes "recv_ok s (ns1 @ ms @ ns2)"
    and "\<forall>x \<in> set ms. si_cmd (snd x) = c" "ms \<noteq> []"
    and "\<forall>x \<in> set ns1 \<union> set ns2. si_cmd (snd x) \<noteq> c" "ns1 \<noteq> []" "ns2 \<noteq> []"
  shows "\<exists>s'. destoryRecvList2 s c = Some s' \<and> (\<forall>b. frame_crc_ok b \<longrightarrow> push_frame s' b = None)"
proof -
  obtain s' where s': "destoryRecvList2 s c = Some s'" "sc_head s' = sc_head s"
      "rpath (sc_heap s') (sc_head s') ns1 (fst (hd ms))" "sc_heap s' (fst (hd ms)) = None"
      "fst (hd ms) \<noteq> 0"
    using destory_dangling [OF assms] by blast
  have brk: "sc_brk s' = sc_brk s"
    using s'(1) by (auto simp: destoryRecvList2_def split: option.splits Option.bind_splits)
  have low: "fst x < sc_brk s" if "x \<in> set (ns1 @ ms)" for x
    using assms(1) that by (auto simp: recv_ok_def)
  let ?h = "\<lambda>b. (sc_heap s')(sc_brk s' \<mapsto> (frame_info b, 0))"
  have "rpath (?h b) (sc_head s') ns1 (fst (hd ms))" for b
    using s'(3) low brk by (subst rpath_upd) fastforce+
  moreover have "?h b (fst (hd ms)) = None" for b
    using s'(4) low [of "hd ms"] assms(3) brk by auto
  ultimately have "walk_end (?h b) (sc_head s') 0 = None" for b
    using walk_end_dangling s'(5) by blast
  moreover have "sc_head s' \<noteq> 0" using s'(3) assms(5) by (cases ns1) auto
  ultimately show ?thesis using s'(1) by (auto simp: push_frame_def addRecvList_def)
qed

text \<open>
  When the packets of the removed command stand only at the two ends of the list,
  _destoryRecvList2 removes exactly them and keeps the list well formed.
\<close>

theorem removed_command_at_the_ends:
  assumes "recv_ok s (ms1 @ ns @ ms2)"
    and "\<forall>x \<in> set ms1 \<union> set ms2. si_cmd (snd x) = c" "\<forall>x \<in> set ns. si_cmd (snd x) \<noteq> c"
  shows "\<exists>s'. destoryRecvList2 s c = Some s' \<and> recv_ok s' ns \<and> sc_fifo s' = sc_fifo s"
  by (rule destory_ends [OF assms])

text \<open>Three packets of commands 1, 2 and 1, as received in this order.\<close>

definition class3 :: "u16 \<Rightarrow> u16 \<Rightarrow> u16 \<Rightarrow> sock_class" where
  "class3 a b c = class0\<lparr>sc_head := 1, sc_brk := 4,
     sc_heap := [1 \<mapsto> (packet0 a, 2), 2 \<mapsto> (packet0 b, 3), 3 \<mapsto> (packet0 c, 0)]\<rparr>"

lemma class3_ok: "recv_ok (class3 a b c) [(1, packet0 a), (2, packet0 b), (3, packet0 c)]"
  by (simp add: recv_ok_def class3_def class0_def)

lemma removed_middle_command_leaves_dangling_link_witness:
  "\<exists>s'. destoryRecvList2 (class3 1 2 1) 2 = Some s' \<and> (\<forall>b. frame_crc_ok b \<longrightarrow> push_frame s' b = None)"
  using removed_middle_command_leaves_dangling_link
    [of "class3 1 2 1" "[(1, packet0 1)]" "[(2, packet0 2)]" "[(3, packet0 1)]" 2]
    class3_ok [of 1 2 1] by (simp add: packet0_def)

lemma removed_command_at_the_ends_witness:
  "\<exists>s'. destoryRecvList2 (class3 1 2 1) 1 = Some s' \<and> recv_ok s' [(2, packet0 2)]
    \<and> sc_fifo s' = sc_fifo (class3 1 2 1)"
  using removed_command_at_the_ends
    [of "class3 1 2 1" "[(1, packet0 1)]" "[(2, packet0 2)]" "[(3, packet0 1)]" 1]
    class3_ok [of 1 2 1] by (simp add: packet0_def)

end
