(* ===== verification/RingBuf.thy ===== *)
theory RingBuf
  imports ByteFifo "HOL-Library.Monad_Syntax"
begin

text \<open>
  The byte ring of the serial drivers, \<open>hw/common/include/ringBuf.h\<close>. It keeps a read and
  a write position and no count: equal positions mean empty. Shown: reads, writes and the
  peek stay inside the block, the ring is a byte FIFO for writes that leave one byte free,
  and a write that fills it completely is accepted and loses everything.
\<close>

record ringbuf =
  rb_read :: u32
  rb_write :: u32
  rb_len :: u32
  rb_data :: "u8 list"

text \<open>\<open>calloc\<close> may fail: the argument \<open>mem\<close> says whether it gave a block.\<close>

definition ringBufInit :: "bool \<Rightarrow> ringbuf \<Rightarrow> u32 \<Rightarrow> ringbuf \<times> int" where
  "ringBufInit mem rb n =
     (if n \<le> 2 then (rb, -1)
      else let rb' = rb\<lparr>rb_len := n, rb_read := 0, rb_write := 0\<rparr>
           in if \<not> mem then (rb'\<lparr>rb_data := []\<rparr>, -1)
              else (rb'\<lparr>rb_data := replicate (unat n) 0\<rparr>, 0))"

definition ringBufClear :: "ringbuf \<Rightarrow> ringbuf" where
  "ringBufClear rb = rb\<lparr>rb_read := 0, rb_write := 0, rb_data := replicate (unat (rb_len rb)) 0\<rparr>"

definition ringBufAvailableBytesForWrite :: "ringbuf \<Rightarrow> u32" where
  "ringBufAvailableBytesForWrite rb =
     (if rb_write rb > rb_read rb then rb_len rb - rb_write rb + rb_read rb
      else if rb_write rb = rb_read rb then rb_len rb
      else rb_read rb - rb_write rb)"

definition ringBufAvailableBytesForRead :: "ringbuf \<Rightarrow> u32" where
  "ringBufAvailableBytesForRead rb =
     (if rb_write rb > rb_read rb then rb_write rb - rb_read rb
      else if rb_write rb = rb_read rb then 0
      else rb_len rb - rb_read rb + rb_write rb)"

definition ringBufWrite :: "ringbuf \<Rightarrow> u8 list \<Rightarrow> u32 \<Rightarrow> (ringbuf \<times> u32) option" where
  "ringBufWrite rb pData n =
     (if ringBufAvailableBytesForWrite rb < n then Some (rb, 0)
      else let nextWrite = rb_write rb + n in
        if nextWrite \<ge> rb_len rb then do {
          let fstSegLen = rb_len rb - rb_write rb;
          let secSegLen = n - fstSegLen;
          b1 \<leftarrow> mem_copy (rb_data rb) (unat (rb_write rb)) pData 0 (unat fstSegLen);
          b2 \<leftarrow> (if secSegLen > 0 then mem_copy b1 0 pData (unat fstSegLen) (unat secSegLen)
                 else Some b1);
          Some (rb\<lparr>rb_data := b2, rb_write := secSegLen\<rparr>, n)
        } else do {
          b1 \<leftarrow> mem_copy (rb_data rb) (unat (rb_write rb)) pData 0 (unat n);
          Some (rb\<lparr>rb_data := b1, rb_write := nextWrite\<rparr>, n)
        })"

text \<open>The bytes copied out; \<open>ringBufRead\<close> and \<open>ringBufClone\<close> share the code text for this.\<close>

definition ringBufCopyOut :: "ringbuf \<Rightarrow> u32 \<Rightarrow> u8 list option" where
  "ringBufCopyOut rb n =
     (if rb_read rb + n \<ge> rb_len rb then do {
        let fstSegLen = rb_len rb - rb_read rb;
        let secSegLen = n - fstSegLen;
        x \<leftarrow> mem_read (rb_data rb) (unat (rb_read rb)) (unat fstSegLen);
        y \<leftarrow> (if secSegLen > 0 then mem_read (rb_data rb) 0 (unat secSegLen) else Some []);
        Some (x @ y)
      } else mem_read (rb_data rb) (unat (rb_read rb)) (unat n))"

definition ringBufRead :: "ringbuf \<Rightarrow> u32 \<Rightarrow> (ringbuf \<times> u32 \<times> u8 list) option" where
  "ringBufRead rb n =
     (if ringBufAvailableBytesForRead rb < n then Some (rb, 0, [])
      else do {
        d \<leftarrow> ringBufCopyOut rb n;
        let nextRead = (if rb_read rb + n \<ge> rb_len rb then n - (rb_len rb - rb_read rb)
                        else rb_read rb + n);
        Some (rb\<lparr>rb_read := nextRead\<rparr>, n, d)
      })"

definition ringBufClone :: "ringbuf \<Rightarrow> u32 \<Rightarrow> (u32 \<times> u8 list) option" where
  "ringBufClone rb n =
     (if ringBufAvailableBytesForRead rb < n then Some (0, [])
      else do { d \<leftarrow> ringBufCopyOut rb n; Some (n, d) })"

section \<open>Invariant and content\<close>

definition rb_inv :: "ringbuf \<Rightarrow> bool" where
  "rb_inv rb \<longleftrightarrow> length (rb_data rb) = unat (rb_len rb) \<and> unat (rb_len rb) < 2 ^ 31
     \<and> rb_read rb < rb_len rb \<and> rb_write rb < rb_len rb"

definition rb_used :: "ringbuf \<Rightarrow> nat" where
  "rb_used rb = unat (ringBufAvailableBytesForRead rb)"

definition rb_content :: "ringbuf \<Rightarrow> u8 list" where
  "rb_content rb = ring_view (rb_data rb) (unat (rb_read rb)) (rb_used rb)"

lemma length_rb_content [simp]: "length (rb_content rb) = rb_used rb"
  by (simp add: rb_content_def)

lemma rb_inv_nat:
  assumes "rb_inv rb"
  shows "length (rb_data rb) = unat (rb_len rb)" "unat (rb_len rb) < 2 ^ 31"
    "unat (rb_read rb) < unat (rb_len rb)" "unat (rb_write rb) < unat (rb_len rb)"
  using assms by (simp_all add: rb_inv_def word_less_unat)

lemma rb_used_nat:
  assumes "rb_inv rb"
  shows "rb_used rb = (if unat (rb_read rb) \<le> unat (rb_write rb)
      then unat (rb_write rb) - unat (rb_read rb)
      else unat (rb_len rb) - unat (rb_read rb) + unat (rb_write rb))"
  using rb_inv_nat [OF assms]
  by (auto simp: rb_used_def ringBufAvailableBytesForRead_def word_nat word_unat_eq_iff)

lemma rb_used_less: "rb_inv rb \<Longrightarrow> rb_used rb < unat (rb_len rb)"
  using rb_inv_nat [of rb] by (auto simp: rb_used_nat)

lemma rb_write_pos:
  "rb_inv rb \<Longrightarrow> unat (rb_write rb) = (unat (rb_read rb) + rb_used rb) mod unat (rb_len rb)"
  using rb_inv_nat [of rb] by (auto simp: rb_used_nat mod_if)

text \<open>The two availability counts add up to the size of the ring.\<close>

lemma rb_free:
  "rb_inv rb \<Longrightarrow> unat (ringBufAvailableBytesForWrite rb) = unat (rb_len rb) - rb_used rb"
  using rb_inv_nat [of rb]
  by (auto simp: rb_used_nat ringBufAvailableBytesForWrite_def word_nat word_unat_eq_iff)

lemma ring_used:
  fixes r w u N :: nat
  assumes "r < N" "u < N" "w = (r + u) mod N"
  shows "(if r \<le> w then w - r else N - r + w) = u"
proof (cases "r + u < N")
  case False
  then have "w = r + u - N" using assms by (simp add: mod_if)
  then show ?thesis using assms(1,2) False by auto
qed (use assms in simp)

lemma rb_used_eq:
  assumes "rb_inv rb" "u < unat (rb_len rb)"
    and "unat (rb_write rb) = (unat (rb_read rb) + u) mod unat (rb_len rb)"
  shows "rb_used rb = u"
  using ring_used [OF rb_inv_nat(3) [OF assms(1)] assms(2,3)] rb_used_nat [OF assms(1)] by simp

section \<open>Writing\<close>

lemma ringBufWrite_put:
  assumes inv: "rb_inv rb" and n: "unat n \<le> length d" and fit: "rb_used rb + unat n \<le> unat (rb_len rb)"
  shows "\<exists>w. ringBufWrite rb d n =
      Some (rb\<lparr>rb_data := ring_put (rb_data rb) (unat (rb_write rb)) (take (unat n) d),
               rb_write := w\<rparr>, n)
    \<and> unat w = (unat (rb_write rb) + unat n) mod unat (rb_len rb)"
proof -
  note i = rb_inv_nat [OF inv]
  have ok: "\<not> ringBufAvailableBytesForWrite rb < n"
    using fit rb_free [OF inv] by (simp add: word_nat)
  have wn: "unat (rb_write rb + n) = unat (rb_write rb) + unat n"
    using i fit by (simp add: word_nat)
  show ?thesis
  proof (cases "rb_write rb + n \<ge> rb_len rb")
    case True
    let ?k = "unat (rb_len rb) - unat (rb_write rb)"
    have ge: "unat (rb_len rb) \<le> unat (rb_write rb) + unat n" using True wn by (simp add: word_nat)
    have k: "unat (rb_len rb - rb_write rb) = ?k" using i by (simp add: word_nat)
    have sec: "unat (n - (rb_len rb - rb_write rb)) = unat n - ?k"
      using k ge by (simp add: word_nat)
    have pos: "unat n - ?k = (unat (rb_write rb) + unat n) mod unat (rb_len rb)"
    proof -
      have "unat (rb_write rb) + unat n - unat (rb_len rb) < unat (rb_len rb)" using i fit by linarith
      then have "(unat (rb_write rb) + unat n) mod unat (rb_len rb)
          = unat (rb_write rb) + unat n - unat (rb_len rb)"
        using ge by (simp add: le_mod_geq)
      then show ?thesis using i by linarith
    qed
    have le: "unat n \<le> length (rb_data rb)" "length (rb_data rb) \<le> unat (rb_write rb) + unat n"
      "unat (rb_write rb) < length (rb_data rb)" using i fit ge by simp_all
    note copies = copy_far [OF le(3) n le(1,2), unfolded i(1)]
    have "(n - (rb_len rb - rb_write rb) > 0) \<longleftrightarrow> unat n \<noteq> ?k"
      using sec ge by (auto simp: word_less_unat)
    then show ?thesis
      using ok True k sec pos copies by (auto simp: ringBufWrite_def Let_def)
  next
    case False
    then have lt: "unat (rb_write rb) + unat n < unat (rb_len rb)" using wn by (simp add: word_nat)
    then have "mem_copy (rb_data rb) (unat (rb_write rb)) d 0 (unat n)
        = Some (ring_put (rb_data rb) (unat (rb_write rb)) (take (unat n) d))"
      using i n by (intro copy_near) simp_all
    then show ?thesis using ok False wn lt by (auto simp: ringBufWrite_def)
  qed
qed

lemma ringBufWrite_refused:
  "rb_inv rb \<Longrightarrow> unat (rb_len rb) < rb_used rb + unat n \<Longrightarrow> ringBufWrite rb d n = Some (rb, 0)"
proof -
  assume "rb_inv rb" "unat (rb_len rb) < rb_used rb + unat n"
  then have "ringBufAvailableBytesForWrite rb < n"
    using rb_free [of rb] rb_used_less [of rb] by (simp add: word_less_unat)
  then show ?thesis by (simp add: ringBufWrite_def)
qed

text \<open>A write that leaves at least one byte free appends.\<close>

lemma ringBufWrite_ok:
  assumes inv: "rb_inv rb" and n: "unat n \<le> length d" and fit: "rb_used rb + unat n < unat (rb_len rb)"
  shows "\<exists>rb'. ringBufWrite rb d n = Some (rb', n) \<and> rb_inv rb' \<and> rb_len rb' = rb_len rb
    \<and> rb_content rb' = rb_content rb @ take (unat n) d"
proof -
  note i = rb_inv_nat [OF inv]
  obtain w where w: "ringBufWrite rb d n =
      Some (rb\<lparr>rb_data := ring_put (rb_data rb) (unat (rb_write rb)) (take (unat n) d),
               rb_write := w\<rparr>, n)" (is "_ = Some (?rb, n)")
    and wpos: "unat w = (unat (rb_write rb) + unat n) mod unat (rb_len rb)"
    using ringBufWrite_put [OF inv n] fit by auto
  have wlt: "unat w < unat (rb_len rb)" using wpos i by (metis mod_less_divisor not_less_zero neq0_conv)
  have inv': "rb_inv ?rb"
    using inv wlt i n fit by (auto simp: rb_inv_def word_less_unat)
  have "unat w = (unat (rb_read rb) + (rb_used rb + unat n)) mod unat (rb_len rb)"
    using wpos rb_write_pos [OF inv] by (simp add: mod_simps add.assoc)
  then have used: "rb_used ?rb = rb_used rb + unat n"
    using fit by (intro rb_used_eq [OF inv']) simp_all
  have "ring_view (ring_put (rb_data rb) (unat (rb_write rb)) (take (unat n) d)) (unat (rb_read rb))
          (rb_used rb + unat n) = rb_content rb @ take (unat n) d"
    using ring_view_put [of "rb_data rb" "unat (rb_read rb)" "rb_used rb" "take (unat n) d"]
      i fit n rb_write_pos [OF inv] by (simp add: rb_content_def min_absorb2)
  then show ?thesis using w inv' used by (simp add: rb_content_def)
qed

text \<open>A write of exactly the free space is accepted too, and the ring then reads as empty.\<close>

lemma ringBufWrite_fill:
  assumes inv: "rb_inv rb" and n: "unat n \<le> length d" and fit: "rb_used rb + unat n = unat (rb_len rb)"
  shows "\<exists>rb'. ringBufWrite rb d n = Some (rb', n) \<and> rb_inv rb' \<and> rb_content rb' = []"
proof -
  note i = rb_inv_nat [OF inv]
  obtain w where w: "ringBufWrite rb d n =
      Some (rb\<lparr>rb_data := ring_put (rb_data rb) (unat (rb_write rb)) (take (unat n) d),
               rb_write := w\<rparr>, n)" (is "_ = Some (?rb, n)")
    and wpos: "unat w = (unat (rb_write rb) + unat n) mod unat (rb_len rb)"
    using ringBufWrite_put [OF inv n] fit by auto
  have "unat w = (unat (rb_read rb) + (rb_used rb + unat n)) mod unat (rb_len rb)"
    using wpos rb_write_pos [OF inv] by (simp add: mod_simps add.assoc)
  then have "unat w = unat (rb_read rb)" using fit i by simp
  then have "w = rb_read rb" by (simp add: word_unat_eq_iff)
  moreover from this have "rb_inv ?rb" using inv i n fit by (auto simp: rb_inv_def)
  ultimately show ?thesis
    using w by (auto simp: rb_content_def rb_used_def ringBufAvailableBytesForRead_def)
qed

section \<open>Reading\<close>

lemma ringBufCopyOut_view:
  assumes inv: "rb_inv rb" and n: "unat n \<le> rb_used rb"
  shows "ringBufCopyOut rb n = Some (take (unat n) (rb_content rb))"
proof -
  note i = rb_inv_nat [OF inv]
  have lt: "unat n < unat (rb_len rb)" using n rb_used_less [OF inv] by simp
  have rn: "unat (rb_read rb + n) = unat (rb_read rb) + unat n" using i lt by (simp add: word_nat)
  have view: "ring_get (rb_data rb) (unat (rb_read rb)) (unat n) = take (unat n) (rb_content rb)"
    using i lt n by (simp add: ring_get_view rb_content_def take_ring_view)
  show ?thesis
  proof (cases "rb_read rb + n \<ge> rb_len rb")
    case True
    let ?k = "unat (rb_len rb) - unat (rb_read rb)"
    have ge: "unat (rb_len rb) \<le> unat (rb_read rb) + unat n" using True rn by (simp add: word_nat)
    have k: "unat (rb_len rb - rb_read rb) = ?k" using i by (simp add: word_nat)
    have sec: "unat (n - (rb_len rb - rb_read rb)) = unat n - ?k" using k ge by (simp add: word_nat)
    have le: "unat (rb_read rb) < length (rb_data rb)" "unat n \<le> length (rb_data rb)"
      "length (rb_data rb) \<le> unat (rb_read rb) + unat n" using i lt ge by simp_all
    note reads = read_far [OF le, unfolded i(1)]
    have "(n - (rb_len rb - rb_read rb) > 0) \<longleftrightarrow> unat n \<noteq> ?k"
      using sec ge by (auto simp: word_less_unat)
    then show ?thesis
      using True k sec reads view by (auto simp: ringBufCopyOut_def Let_def)
  next
    case False
    then have "unat (rb_read rb) + unat n < unat (rb_len rb)" using rn by (simp add: word_nat)
    then show ?thesis
      using False view i by (simp add: ringBufCopyOut_def mem_read_def ring_get_near)
  qed
qed

lemma ringBufRead_ok:
  assumes inv: "rb_inv rb" and n: "unat n \<le> rb_used rb"
  shows "\<exists>rb'. ringBufRead rb n = Some (rb', n, take (unat n) (rb_content rb)) \<and> rb_inv rb'
    \<and> rb_len rb' = rb_len rb \<and> rb_content rb' = drop (unat n) (rb_content rb)"
proof -
  note i = rb_inv_nat [OF inv]
  have lt: "unat n < unat (rb_len rb)" using n rb_used_less [OF inv] by simp
  let ?r = "if rb_read rb + n \<ge> rb_len rb then n - (rb_len rb - rb_read rb) else rb_read rb + n"
  let ?rb = "rb\<lparr>rb_read := ?r\<rparr>"
  have rpos: "unat ?r = (unat (rb_read rb) + unat n) mod unat (rb_len rb)"
    using i lt by (auto simp: word_nat mod_if)
  have rlt: "unat ?r < unat (rb_len rb)" using rpos i by (metis mod_less_divisor not_less_zero neq0_conv)
  have inv': "rb_inv ?rb" using inv rlt by (auto simp: rb_inv_def word_less_unat)
  have used: "rb_used ?rb = rb_used rb - unat n"
  proof (rule rb_used_eq [OF inv'])
    have "rb_used rb - unat n < unat (rb_len rb)" using rb_used_less [OF inv] by simp
    then show "rb_used rb - unat n < unat (rb_len ?rb)" by simp
    have "(unat ?r + (rb_used rb - unat n)) mod unat (rb_len rb)
        = (unat (rb_read rb) + unat n + (rb_used rb - unat n)) mod unat (rb_len rb)"
      unfolding rpos by (rule mod_add_left_eq)
    also have "unat (rb_read rb) + unat n + (rb_used rb - unat n) = unat (rb_read rb) + rb_used rb"
      using n by simp
    finally show "unat (rb_write ?rb) = (unat (rb_read ?rb) + (rb_used rb - unat n)) mod unat (rb_len ?rb)"
      using rb_write_pos [OF inv] by simp
  qed
  have "rb_content ?rb = drop (unat n) (rb_content rb)"
    using used rpos i n by (simp add: rb_content_def drop_ring_view)
  then show ?thesis
    using ringBufCopyOut_view [OF assms] inv' n
    by (auto simp: ringBufRead_def rb_used_def word_nat)
qed

lemma ringBufRead_short:
  "rb_used rb < unat n \<Longrightarrow> ringBufRead rb n = Some (rb, 0, [])"
  by (simp add: ringBufRead_def rb_used_def word_nat)

text \<open>The peek returns what the next read returns and keeps the ring.\<close>

lemma ringBufClone_read:
  assumes "rb_inv rb"
  shows "map_option (\<lambda>(k, d). (k, d)) (ringBufClone rb n) = map_option snd (ringBufRead rb n)"
  using ringBufCopyOut_view [OF assms, of n]
  by (cases "unat n \<le> rb_used rb") (auto simp: ringBufClone_def ringBufRead_def rb_used_def word_nat)

lemma rb_init_ok:
  assumes "2 < n" "unat n < 2 ^ 31"
  shows "snd (ringBufInit True rb n) = 0" "rb_inv (fst (ringBufInit True rb n))"
    "rb_content (fst (ringBufInit True rb n)) = []"
  using assms
  by (auto simp: ringBufInit_def Let_def rb_inv_def rb_content_def rb_used_def
      ringBufAvailableBytesForRead_def word_less_unat word_le_unat)

lemma rb_clear_ok:
  "rb_inv rb \<Longrightarrow> rb_inv (ringBufClear rb) \<and> rb_content (ringBufClear rb) = []"
  by (auto simp: ringBufClear_def rb_inv_def rb_content_def rb_used_def
      ringBufAvailableBytesForRead_def word_less_unat)

section \<open>The ring is a byte FIFO\<close>

definition rb_put :: "ringbuf \<Rightarrow> u8 list \<Rightarrow> ringbuf option" where
  "rb_put rb d = (case ringBufWrite rb d (word_of_nat (length d)) of
     Some (rb', k) \<Rightarrow> if k = word_of_nat (length d) then Some rb' else None | None \<Rightarrow> None)"

definition rb_get :: "ringbuf \<Rightarrow> nat \<Rightarrow> (ringbuf \<times> u8 list) option" where
  "rb_get rb n = (if n < 2 ^ 32 then
     (case ringBufRead rb (word_of_nat n) of
        Some (rb', k, d) \<Rightarrow> if k = word_of_nat n then Some (rb', d) else None | None \<Rightarrow> None)
     else None)"

definition rb_fits :: "ringbuf \<Rightarrow> nat \<Rightarrow> bool" where
  "rb_fits rb n \<longleftrightarrow> rb_used rb + n < unat (rb_len rb)"

interpretation rbf: byte_fifo rb_inv rb_content rb_fits rb_put rb_get
proof unfold_locales
  fix rb and d :: "u8 list" assume inv: "rb_inv rb" and fit: "rb_fits rb (length d)"
  then have "unat (word_of_nat (length d) :: u32) = length d"
    using rb_inv_nat(2) [OF inv] by (simp add: rb_fits_def word_nat)
  then show "\<exists>rb'. rb_put rb d = Some rb' \<and> rb_inv rb' \<and> rb_content rb' = rb_content rb @ d"
    using ringBufWrite_ok [OF inv, of "word_of_nat (length d)" d] fit
    by (auto simp: rb_put_def rb_fits_def)
next
  fix rb n assume inv: "rb_inv rb" and n: "n \<le> length (rb_content rb)"
  then have "n < 2 ^ 31" using rb_inv_nat(2) [OF inv] rb_used_less [OF inv] by simp
  moreover from this have "unat (word_of_nat n :: u32) = n" by (simp add: word_nat)
  ultimately show "\<exists>rb'. rb_get rb n = Some (rb', take n (rb_content rb)) \<and> rb_inv rb'
      \<and> rb_content rb' = drop n (rb_content rb)"
    using ringBufRead_ok [OF inv, of "word_of_nat n"] n by (auto simp: rb_get_def)
next
  fix rb n assume "rb_inv rb" "length (rb_content rb) < n"
  then show "rb_get rb n = None"
    by (cases "n < 2 ^ 32") (auto simp: rb_get_def ringBufRead_short word_nat word_unat_eq_iff)
qed

section \<open>Properties\<close>

text \<open>A ring of eight bytes that holds three and wraps round.\<close>

definition ring8 :: ringbuf where
  "ring8 = \<lparr>rb_read = 6, rb_write = 1, rb_len = 8, rb_data = [11, 12, 13, 14, 15, 16, 17, 18]\<rparr>"

lemma ring8_facts:
  "rb_inv ring8" "rb_used ring8 = 3" "rb_content ring8 = [17, 18, 11]" "rb_len ring8 = 8"
  by (simp_all add: ring8_def word_less_unat rb_inv_def rb_used_def rb_content_def ring_view_def
      ringBufAvailableBytesForRead_def upt_rec)

text \<open>
  Over any sequence of writes that leave a byte free and of reads, the ring buffer gives out
  the bytes in the order they went in.
\<close>

theorem ring_buffer_keeps_order:
  assumes "rb_inv rb" "fifo_admissible rb_fits rb_put rb_get rb ops"
    and "fifo_run rb_put rb_get rb ops = (rb', ins, outs)"
  shows "rb_inv rb' \<and> rb_content rb @ ins = outs @ rb_content rb'"
  by (rule rbf.run_order [OF assms])

lemma ring_buffer_keeps_order_witness:
  "\<exists>rb'. fifo_run rb_put rb_get ring8 [Put [1, 2, 3], Get 4, Get 7] = (rb', [1, 2, 3], [17, 18, 11, 1])
     \<and> rb_inv rb' \<and> [17, 18, 11] @ [1, 2, 3] = [17, 18, 11, 1] @ rb_content rb'"
proof -
  have "rb_fits ring8 (length [1, 2, 3 :: u8])" by (simp add: rb_fits_def ring8_facts)
  from rbf.put_ok [OF ring8_facts(1) this] ring8_facts(3)
  obtain r1 where r1: "rb_put ring8 [1, 2, 3] = Some r1" "rb_inv r1"
      "rb_content r1 = [17, 18, 11, 1, 2, 3]"
    by auto
  obtain r2 where r2: "rb_get r1 4 = Some (r2, [17, 18, 11, 1])" "rb_inv r2" "rb_content r2 = [2, 3]"
    using rbf.get_ok [OF r1(2), of 4] r1(3) by auto
  have "rb_get r2 7 = None" using rbf.get_short [OF r2(2)] r2(3) by simp
  then have run: "fifo_run rb_put rb_get ring8 [Put [1, 2, 3], Get 4, Get 7]
      = (r2, [1, 2, 3], [17, 18, 11, 1])"
    using r1(1) r2(1) by simp
  have adm: "fifo_admissible rb_fits rb_put rb_get ring8 [Put [1, 2, 3], Get 4, Get 7]"
    by (auto simp: rb_fits_def ring8_facts split: option.split)
  show ?thesis
    using ring_buffer_keeps_order [OF ring8_facts(1) adm run] run ring8_facts(3) by auto
qed

text \<open>
  Every ringBufWrite on a well-formed ring: too long a write is refused and changes nothing, a
  write that leaves a byte free is appended, and a write that fills the ring exactly is
  accepted and loses the whole content.
\<close>

theorem ring_write_outcomes:
  assumes "rb_inv rb" "unat n \<le> length d"
  shows "\<exists>rb' k. ringBufWrite rb d n = Some (rb', k) \<and> rb_inv rb'
    \<and> (if unat (rb_len rb) < rb_used rb + unat n then k = 0 \<and> rb' = rb
       else k = n \<and> rb_content rb'
         = (if rb_used rb + unat n = unat (rb_len rb) then [] else rb_content rb @ take (unat n) d))"
  using ringBufWrite_refused [OF assms(1), of n d] ringBufWrite_fill [OF assms] ringBufWrite_ok [OF assms]
    assms(1) by (cases "rb_used rb + unat n" "unat (rb_len rb)" rule: linorder_cases) auto

lemma ring_write_outcomes_witness:
  "\<exists>rb' k. ringBufWrite ring8 [1, 2, 3, 4, 5] 5 = Some (rb', k) \<and> rb_inv rb'
    \<and> k = 5 \<and> rb_content rb' = []"
  using ring_write_outcomes [of ring8 5 "[1, 2, 3, 4, 5]"] ring8_facts by simp

text \<open>
  ringBufRead gives the oldest bytes and removes them when there are enough, and gives nothing
  and changes nothing otherwise; ringBufClone gives what the read would give.
\<close>

theorem ring_read_outcomes:
  assumes "rb_inv rb"
  shows "\<exists>rb'. ringBufRead rb n
      = Some (if unat n \<le> rb_used rb then (rb', n, take (unat n) (rb_content rb)) else (rb, 0, []))
    \<and> rb_inv rb' \<and> (unat n \<le> rb_used rb \<longrightarrow> rb_content rb' = drop (unat n) (rb_content rb))
    \<and> ringBufClone rb n
      = Some (if unat n \<le> rb_used rb then (n, take (unat n) (rb_content rb)) else (0, []))"
  using ringBufRead_ok [OF assms, of n] ringBufRead_short [of rb n] assms
    ringBufClone_read [OF assms, of n]
  by (cases "unat n \<le> rb_used rb") (auto simp: option.map_ident)

lemma ring_read_outcomes_witness:
  "\<exists>rb'. ringBufRead ring8 2 = Some (rb', 2, [17, 18]) \<and> rb_content rb' = [11]
    \<and> ringBufClone ring8 2 = Some (2, [17, 18])"
  using ring_read_outcomes [of ring8 2] ring8_facts by auto

end
