(* ===== verification/BoundedQueue.thy ===== *)
theory BoundedQueue
  imports Main
begin

text \<open>
  The contract of a bounded queue of elements, shared by the pointer queue of
  \<open>loop/loop.c\<close> and the message queue of \<open>pgos/MsOS_queue.c\<close>. The abstract queue is a list with
  a capacity; what happens to an element put into a full queue is a parameter (the pointer queue
  drops its oldest element, the message queue refuses the new one). An operation of an
  implementation gives \<open>None\<close> where it does not return (a crash, a wait without end), so a
  client's lemma that a run gives \<open>Some\<close> says that every operation of it returns, with the results
  of the abstract queue.
\<close>

datatype 'a q_op = Enq 'a | Deq

datatype 'a q_res = Put bool | Got "'a option"

section \<open>The abstract queue\<close>

fun q_step :: "nat \<Rightarrow> ('a list \<Rightarrow> 'a \<Rightarrow> 'a list \<times> bool) \<Rightarrow> 'a list \<Rightarrow> 'a q_op \<Rightarrow> 'a list \<times> 'a q_res" where
  "q_step n full xs (Enq x) =
     (if length xs < n then (xs @ [x], Put True) else (case full xs x of (ys, b) \<Rightarrow> (ys, Put b)))"
| "q_step n full xs Deq = (case xs of [] \<Rightarrow> ([], Got None) | y # ys \<Rightarrow> (ys, Got (Some y)))"

fun q_spec :: "nat \<Rightarrow> ('a list \<Rightarrow> 'a \<Rightarrow> 'a list \<times> bool) \<Rightarrow> 'a list \<Rightarrow> 'a q_op list \<Rightarrow> 'a list \<times> 'a q_res list" where
  "q_spec n full xs [] = (xs, [])"
| "q_spec n full xs (op # ops) =
     (case q_step n full xs op of (ys, r) \<Rightarrow> (case q_spec n full ys ops of (zs, rs) \<Rightarrow> (zs, r # rs)))"

section \<open>A run of an implementation\<close>

fun q_do :: "('s \<Rightarrow> 'a \<Rightarrow> ('s \<times> bool) option) \<Rightarrow> ('s \<Rightarrow> ('s \<times> 'a option) option) \<Rightarrow>
    's \<Rightarrow> 'a q_op \<Rightarrow> ('s \<times> 'a q_res) option" where
  "q_do enq deq s (Enq x) = map_option (\<lambda>(t, b). (t, Put b)) (enq s x)"
| "q_do enq deq s Deq = map_option (\<lambda>(t, y). (t, Got y)) (deq s)"

fun q_exec :: "('s \<Rightarrow> 'a \<Rightarrow> ('s \<times> bool) option) \<Rightarrow> ('s \<Rightarrow> ('s \<times> 'a option) option) \<Rightarrow>
    's \<Rightarrow> 'a q_op list \<Rightarrow> ('s \<times> 'a q_res list) option" where
  "q_exec enq deq s [] = Some (s, [])"
| "q_exec enq deq s (op # ops) = Option.bind (q_do enq deq s op) (\<lambda>(s', r).
     Option.bind (q_exec enq deq s' ops) (\<lambda>(t, rs). Some (t, r # rs)))"

text \<open>The elements put into the queue.\<close>

fun q_puts :: "'a q_op list \<Rightarrow> 'a list" where
  "q_puts [] = []"
| "q_puts (Enq x # ops) = x # q_puts ops"
| "q_puts (Deq # ops) = q_puts ops"

locale bounded_queue =
  fixes good :: "'s \<Rightarrow> bool"
    and view :: "'s \<Rightarrow> 'a list"
    and cap :: "'s \<Rightarrow> nat"
    and ok :: "'a \<Rightarrow> bool"
    and full :: "'a list \<Rightarrow> 'a \<Rightarrow> 'a list \<times> bool"
    and enq :: "'s \<Rightarrow> 'a \<Rightarrow> ('s \<times> bool) option"
    and deq :: "'s \<Rightarrow> ('s \<times> 'a option) option"
  assumes enq_room: "good s \<Longrightarrow> ok x \<Longrightarrow> length (view s) < cap s \<Longrightarrow>
      \<exists>s'. enq s x = Some (s', True) \<and> good s' \<and> view s' = view s @ [x] \<and> cap s' = cap s"
    and enq_full: "good s \<Longrightarrow> ok x \<Longrightarrow> \<not> length (view s) < cap s \<Longrightarrow>
      \<exists>s'. enq s x = Some (s', snd (full (view s) x)) \<and> good s' \<and> view s' = fst (full (view s) x)
        \<and> cap s' = cap s"
    and deq_some: "good s \<Longrightarrow> view s = x # xs \<Longrightarrow>
      \<exists>s'. deq s = Some (s', Some x) \<and> good s' \<and> view s' = xs \<and> cap s' = cap s"
    and deq_none: "good s \<Longrightarrow> view s = [] \<Longrightarrow>
      \<exists>s'. deq s = Some (s', None) \<and> good s' \<and> view s' = [] \<and> cap s' = cap s"
begin

text \<open>One operation returns and does what the abstract queue does.\<close>

lemma do_step:
  assumes "good s" "\<And>x. op = Enq x \<Longrightarrow> ok x"
  shows "\<exists>s'. q_do enq deq s op = Some (s', snd (q_step (cap s) full (view s) op)) \<and> good s'
    \<and> view s' = fst (q_step (cap s) full (view s) op) \<and> cap s' = cap s"
proof (cases op)
  case (Enq x)
  then show ?thesis
    using enq_room [of s x] enq_full [of s x] assms
    by (cases "length (view s) < cap s") (auto split: prod.splits)
next
  case Deq
  then show ?thesis
    using deq_some [of s] deq_none [of s] assms(1) by (cases "view s") auto
qed

lemma exec_refines_spec:
  assumes "good s" "\<forall>x \<in> set (q_puts ops). ok x"
  shows "\<exists>t. q_exec enq deq s ops = Some (t, snd (q_spec (cap s) full (view s) ops)) \<and> good t
    \<and> view t = fst (q_spec (cap s) full (view s) ops) \<and> cap t = cap s"
  using assms
proof (induction ops arbitrary: s)
  case Nil
  then show ?case by simp
next
  case (Cons op ops)
  have ok: "op = Enq x \<Longrightarrow> ok x" for x using Cons.prems(2) by simp
  have rest: "\<forall>x \<in> set (q_puts ops). ok x" using Cons.prems(2) by (cases op) auto
  obtain s' where s': "q_do enq deq s op = Some (s', snd (q_step (cap s) full (view s) op))" "good s'"
      "view s' = fst (q_step (cap s) full (view s) op)" "cap s' = cap s"
    using do_step [OF Cons.prems(1) ok] by blast
  from Cons.IH [OF s'(2) rest] s' show ?case by (auto split: prod.splits)
qed

end

end
