(* ===== verification/LoopQueue.thy ===== *)
theory LoopQueue
  imports Prelude BoundedQueue "HOL-Library.Monad_Syntax"
begin

text \<open>
  The pointer queue \<open>loop/loop.c\<close>: a ring of \<open>size\<close> slots of which \<open>size - 1\<close> can be used. A
  push into a full queue drops an element at the other end and hands it to \<open>del_func\<close>.
  Pointers are natural numbers, \<open>NULL\<close> is 0; the calls of \<open>del_func\<close> are recorded in order
  in \<open>ll_deleted\<close>. Sizes are natural numbers: the code's \<open>int\<close> does not wrap for a queue
  that \<open>malloc\<close> could give. The scans are loops that leave at the tail.
\<close>

record loop_list =
  ll_size :: nat
  ll_head :: nat
  ll_tail :: nat
  ll_items :: "nat list"
  ll_del :: bool
  ll_deleted :: "nat list"

section \<open>Operations\<close>

text \<open>\<open>mem\<close> is the block \<open>malloc\<close> returns, \<open>None\<close> when it fails: the code then stops at
  \<open>assert\<close>.\<close>

definition loop_create :: "nat list option \<Rightarrow> nat \<Rightarrow> bool \<Rightarrow> loop_list option" where
  "loop_create mem n del =
     (case mem of None \<Rightarrow> None
      | Some blk \<Rightarrow> Some \<lparr>ll_size = n, ll_head = 0, ll_tail = 0, ll_items = blk, ll_del = del,
                          ll_deleted = []\<rparr>)"

definition call_del :: "loop_list \<Rightarrow> nat \<Rightarrow> loop_list" where
  "call_del l p = (if ll_del l then l\<lparr>ll_deleted := ll_deleted l @ [p]\<rparr> else l)"

definition loop_push_to_tail :: "loop_list \<Rightarrow> nat \<Rightarrow> loop_list" where
  "loop_push_to_tail l data =
     (let l1 = (if (ll_tail l + 1) mod ll_size l = ll_head l
                then (call_del l (ll_items l ! ll_head l))\<lparr>ll_head := (ll_head l + 1) mod ll_size l\<rparr>
                else l)
      in l1\<lparr>ll_items := (ll_items l1)[ll_tail l1 := data],
            ll_tail := (ll_tail l1 + 1) mod ll_size l1\<rparr>)"

definition loop_push_to_head :: "loop_list \<Rightarrow> nat \<Rightarrow> loop_list" where
  "loop_push_to_head l data =
     (let l1 = (if (ll_size l + ll_head l - 1) mod ll_size l = ll_tail l
                then (let t = (ll_size l + ll_tail l - 1) mod ll_size l
                      in (call_del l (ll_items l ! t))\<lparr>ll_tail := t\<rparr>)
                else l);
          h = (ll_size l1 + ll_head l1 - 1) mod ll_size l1
      in l1\<lparr>ll_head := h, ll_items := (ll_items l1)[h := data]\<rparr>)"

definition loop_pop_from_head :: "loop_list \<Rightarrow> loop_list \<times> nat" where
  "loop_pop_from_head l =
     (if ll_tail l \<noteq> ll_head l
      then (l\<lparr>ll_head := (ll_head l + 1) mod ll_size l\<rparr>, ll_items l ! ll_head l)
      else (l, 0))"

definition loop_pop_from_tail :: "loop_list \<Rightarrow> loop_list \<times> nat" where
  "loop_pop_from_tail l =
     (if ll_tail l \<noteq> ll_head l
      then (let t = (ll_size l + ll_tail l - 1) mod ll_size l
            in (l\<lparr>ll_tail := t\<rparr>, ll_items l ! t))
      else (l, 0))"

text \<open>The offset is neither checked nor wrapped; \<open>None\<close> is an access outside the block.\<close>

definition loop_get_from_head :: "loop_list \<Rightarrow> nat \<Rightarrow> nat option" where
  "loop_get_from_head l offset =
     (if ll_head l + offset < length (ll_items l) then Some (ll_items l ! (ll_head l + offset))
      else None)"

partial_function (option) loop_find :: "loop_list \<Rightarrow> (nat \<Rightarrow> bool) \<Rightarrow> nat \<Rightarrow> nat option" where
  "loop_find l P i =
     (if i = ll_tail l then Some i
      else if P (ll_items l ! i) then Some i
      else loop_find l P ((i + 1) mod ll_size l))"

partial_function (option) loop_shift :: "nat \<Rightarrow> nat \<Rightarrow> nat list \<Rightarrow> nat \<Rightarrow> nat list option" where
  "loop_shift n tail items i =
     (if i = tail then Some items
      else loop_shift n tail (items[i := items ! ((i + 1) mod n)]) ((i + 1) mod n))"

definition loop_remove :: "loop_list \<Rightarrow> nat \<Rightarrow> loop_list option" where
  "loop_remove l data = do {
     i \<leftarrow> loop_find l (\<lambda>p. p = data) (ll_head l);
     (if i = ll_tail l then Some l
      else do {
        let t = (ll_size l + ll_tail l - 1) mod ll_size l;
        items \<leftarrow> loop_shift (ll_size l) t (ll_items l) i;
        Some (l\<lparr>ll_tail := t, ll_items := items\<rparr>)
      })
   }"

definition loop_search :: "loop_list \<Rightarrow> (nat \<Rightarrow> bool) \<Rightarrow> nat option" where
  "loop_search l search = do {
     i \<leftarrow> loop_find l search (ll_head l);
     Some (if i \<noteq> ll_tail l then ll_items l ! i else 0)
   }"

partial_function (option) loop_del_all :: "loop_list \<Rightarrow> nat \<Rightarrow> loop_list option" where
  "loop_del_all l i =
     (if i = ll_tail l then Some l
      else loop_del_all (call_del l (ll_items l ! i)) ((i + 1) mod ll_size l))"

definition loop_clear :: "loop_list \<Rightarrow> loop_list option" where
  "loop_clear l = do {
     l1 \<leftarrow> (if ll_del l then loop_del_all l (ll_head l) else Some l);
     Some (l1\<lparr>ll_head := 0, ll_tail := 0\<rparr>)
   }"

definition loop_cleanup :: "loop_list \<Rightarrow> loop_list option" where
  "loop_cleanup l = do {
     l1 \<leftarrow> (if ll_del l then loop_del_all l (ll_head l) else Some l);
     Some (l1\<lparr>ll_items := []\<rparr>)
   }"

definition loop_is_empty :: "loop_list \<Rightarrow> bool" where
  "loop_is_empty l \<longleftrightarrow> ll_head l = ll_tail l"

definition loop_is_full :: "loop_list \<Rightarrow> bool" where
  "loop_is_full l \<longleftrightarrow> (ll_size l + ll_head l - 1) mod ll_size l = ll_tail l"

section \<open>Invariant and content\<close>

definition ll_inv :: "loop_list \<Rightarrow> bool" where
  "ll_inv l \<longleftrightarrow> 2 \<le> ll_size l \<and> length (ll_items l) = ll_size l
     \<and> ll_head l < ll_size l \<and> ll_tail l < ll_size l"

definition ll_used :: "loop_list \<Rightarrow> nat" where
  "ll_used l = (if ll_head l \<le> ll_tail l then ll_tail l - ll_head l
                else ll_size l - ll_head l + ll_tail l)"

definition ll_view :: "loop_list \<Rightarrow> nat list" where
  "ll_view l = ring_view (ll_items l) (ll_head l) (ll_used l)"

definition ll_cap :: "loop_list \<Rightarrow> nat" where
  "ll_cap l = ll_size l - 1"

lemma length_ll_view [simp]: "length (ll_view l) = ll_used l"
  by (simp add: ll_view_def)

lemma ll_used_less: "ll_inv l \<Longrightarrow> ll_used l < ll_size l"
  by (auto simp: ll_inv_def ll_used_def)

lemma ll_tail_eq: "ll_inv l \<Longrightarrow> ll_tail l = (ll_head l + ll_used l) mod ll_size l"
  by (auto simp: ll_inv_def ll_used_def)

text \<open>A state is determined by its head, tail and the slots between them.\<close>

lemma ll_view_eqI:
  assumes "length (ll_items l) = ll_size l" "ll_head l < ll_size l" "length xs < ll_size l"
    and "ll_tail l = (ll_head l + length xs) mod ll_size l"
    and "\<And>i. i < length xs \<Longrightarrow> ll_items l ! ((ll_head l + i) mod ll_size l) = xs ! i"
  shows "ll_view l = xs"
proof -
  have "ll_used l = length xs"
  proof (cases "ll_head l + length xs < ll_size l")
    case True
    then show ?thesis using assms(4) by (simp add: ll_used_def)
  next
    case False
    then have "ll_tail l = ll_head l + length xs - ll_size l"
      using assms(2-4) by (simp add: mod_if)
    then show ?thesis using assms(2,3) False by (auto simp: ll_used_def)
  qed
  then show ?thesis
    using assms(1,5) by (auto simp: ll_view_def nth_ring_view intro!: nth_equalityI)
qed

lemma nth_ll_view:
  "length (ll_items l) = ll_size l \<Longrightarrow> i < ll_used l \<Longrightarrow>
   ll_view l ! i = ll_items l ! ((ll_head l + i) mod ll_size l)"
  by (simp add: ll_view_def nth_ring_view)

lemma loop_empty_iff: "ll_inv l \<Longrightarrow> loop_is_empty l \<longleftrightarrow> ll_view l = []"
  by (auto simp: loop_is_empty_def ll_used_def ll_inv_def length_0_conv [symmetric] simp del: length_0_conv)

text \<open>Positions behind the head: distinct offsets are distinct slots.\<close>

lemma ring_pos_inj:
  fixes h i j n :: nat
  assumes "i < n" "j < n" "h < n"
  shows "(h + i) mod n = (h + j) mod n \<longleftrightarrow> i = j"
  using assms by (auto simp: mod_if split: if_splits)

lemma ring_pos_pred:
  fixes h k n :: nat
  assumes "0 < k" "k < n" "h < n"
  shows "(n + (h + k) mod n - 1) mod n = (h + (k - 1)) mod n"
proof (cases "h + k < n")
  case True
  then have "n + (h + k) mod n - 1 = n + (h + (k - 1))" using assms by simp
  then show ?thesis by simp
next
  case False
  then have "(h + k) mod n = h + k - n" using assms by (simp add: mod_if)
  then have "n + (h + k) mod n - 1 = h + (k - 1)" using False assms by simp
  then show ?thesis by simp
qed

lemma ring_before:
  fixes h n i :: nat
  assumes "h < n" "0 < n"
  shows "((n + h - 1) mod n + Suc i) mod n = (h + i) mod n"
proof -
  have "((n + h - 1) mod n + Suc i) mod n = (n + h - 1 + Suc i) mod n" by (rule mod_add_left_eq)
  also have "n + h - 1 + Suc i = (h + i) + n" using assms(2) by simp
  finally show ?thesis by simp
qed

lemma loop_full_iff:
  assumes "ll_inv l"
  shows "loop_is_full l \<longleftrightarrow> ll_used l = ll_cap l"
    "(ll_tail l + 1) mod ll_size l = ll_head l \<longleftrightarrow> ll_used l = ll_cap l"
  using assms
  by (auto simp: loop_is_full_def ll_inv_def ll_used_def ll_cap_def mod_if split: if_splits)

section \<open>Pushing and popping\<close>

text \<open>Storing at the tail, when there is room.\<close>

lemma ll_append:
  assumes inv: "ll_inv l" and room: "ll_used l < ll_cap l"
  shows "ll_inv (l\<lparr>ll_items := (ll_items l)[ll_tail l := d], ll_tail := (ll_tail l + 1) mod ll_size l\<rparr>)
    \<and> ll_view (l\<lparr>ll_items := (ll_items l)[ll_tail l := d], ll_tail := (ll_tail l + 1) mod ll_size l\<rparr>)
        = ll_view l @ [d]" (is "ll_inv ?l \<and> _")
proof
  have i: "2 \<le> ll_size l" "length (ll_items l) = ll_size l" "ll_head l < ll_size l" "ll_tail l < ll_size l"
    using inv by (simp_all add: ll_inv_def)
  have t: "ll_tail l = (ll_head l + ll_used l) mod ll_size l" by (rule ll_tail_eq [OF inv])
  have u: "Suc (ll_used l) < ll_size l" using room by (simp add: ll_cap_def)
  show "ll_inv ?l" using i by (simp add: ll_inv_def)
  show "ll_view ?l = ll_view l @ [d]"
  proof (rule ll_view_eqI)
    show "ll_tail ?l = (ll_head ?l + length (ll_view l @ [d])) mod ll_size ?l"
      unfolding t by (simp add: mod_Suc_eq)
  next
    fix j assume "j < length (ll_view l @ [d])"
    then have j: "j \<le> ll_used l" by simp
    have p: "(ll_head l + j) mod ll_size l < ll_size l" using i by simp
    have "(ll_head l + j) mod ll_size l = ll_tail l \<longleftrightarrow> j = ll_used l"
      unfolding t using j u i by (intro ring_pos_inj) simp_all
    then have "ll_items ?l ! ((ll_head ?l + j) mod ll_size ?l)
        = (if j = ll_used l then d else ll_items l ! ((ll_head l + j) mod ll_size l))"
      using p i(2) by (cases "j = ll_used l") (auto simp: nth_list_update)
    then show "ll_items ?l ! ((ll_head ?l + j) mod ll_size ?l) = (ll_view l @ [d]) ! j"
      using j nth_ll_view [OF i(2), of j] by (simp add: nth_append)
  qed (use i u in simp_all)
qed

lemma loop_pop_from_head_ok:
  assumes inv: "ll_inv l" and v: "ll_view l = x # xs"
  shows "\<exists>l'. loop_pop_from_head l = (l', x) \<and> ll_inv l' \<and> ll_view l' = xs \<and> ll_size l' = ll_size l"
proof -
  let ?l = "l\<lparr>ll_head := (ll_head l + 1) mod ll_size l\<rparr>"
  have i: "2 \<le> ll_size l" "length (ll_items l) = ll_size l" "ll_head l < ll_size l" "ll_tail l < ll_size l"
    using inv by (simp_all add: ll_inv_def)
  have u: "ll_used l = Suc (length xs)" using v length_ll_view [of l] by simp
  have ne: "ll_tail l \<noteq> ll_head l" using u by (auto simp: ll_used_def)
  have x: "ll_items l ! ll_head l = x" using nth_ll_view [of l 0] i u v by simp
  have "ll_view ?l = xs"
  proof (rule ll_view_eqI)
    show "ll_tail ?l = (ll_head ?l + length xs) mod ll_size ?l"
      using ll_tail_eq [OF inv] u by (simp add: mod_simps)
    show "length xs < ll_size ?l" using ll_used_less [OF inv] u by simp
  next
    fix j assume "j < length xs"
    then show "ll_items ?l ! ((ll_head ?l + j) mod ll_size ?l) = xs ! j"
      using nth_ll_view [of l "Suc j"] i u v by (simp add: mod_simps)
  qed (use i in simp_all)
  then show ?thesis using ne x i by (simp add: loop_pop_from_head_def ll_inv_def)
qed

lemma loop_pop_from_tail_ok:
  assumes inv: "ll_inv l" and v: "ll_view l = xs @ [x]"
  shows "\<exists>l'. loop_pop_from_tail l = (l', x) \<and> ll_inv l' \<and> ll_view l' = xs \<and> ll_size l' = ll_size l
    \<and> ll_tail l' = (ll_head l + length xs) mod ll_size l \<and> ll_items l' = ll_items l"
proof -
  let ?t = "(ll_size l + ll_tail l - 1) mod ll_size l"
  have i: "2 \<le> ll_size l" "length (ll_items l) = ll_size l" "ll_head l < ll_size l" "ll_tail l < ll_size l"
    using inv by (simp_all add: ll_inv_def)
  have u: "ll_used l = Suc (length xs)" using v length_ll_view [of l] by simp
  have ne: "ll_tail l \<noteq> ll_head l" using u by (auto simp: ll_used_def)
  have t: "?t = (ll_head l + length xs) mod ll_size l"
    using ring_pos_pred [of "ll_used l" "ll_size l" "ll_head l"] ll_tail_eq [OF inv]
      ll_used_less [OF inv] u i by simp
  have x: "ll_items l ! ?t = x" using nth_ll_view [of l "length xs"] i u v t by (simp add: nth_append)
  have "ll_view (l\<lparr>ll_tail := ?t\<rparr>) = xs"
  proof (rule ll_view_eqI)
    show "length xs < ll_size (l\<lparr>ll_tail := ?t\<rparr>)" using ll_used_less [OF inv] u by simp
    fix j assume "j < length xs"
    then show "ll_items (l\<lparr>ll_tail := ?t\<rparr>) ! ((ll_head (l\<lparr>ll_tail := ?t\<rparr>) + j) mod ll_size (l\<lparr>ll_tail := ?t\<rparr>)) = xs ! j"
      using nth_ll_view [of l j] i u v by (simp add: nth_append)
  qed (use i t in simp_all)
  then show ?thesis using ne x i t by (simp add: loop_pop_from_tail_def ll_inv_def Let_def)
qed

lemma loop_pop_empty:
  "ll_inv l \<Longrightarrow> ll_view l = [] \<Longrightarrow> loop_pop_from_head l = (l, 0) \<and> loop_pop_from_tail l = (l, 0)"
  using loop_empty_iff [of l]
  by (simp add: loop_is_empty_def loop_pop_from_head_def loop_pop_from_tail_def)

lemma ll_view_full_Cons:
  assumes "ll_inv l" "ll_used l = ll_cap l"
  shows "ll_view l \<noteq> []"
proof -
  have "length (ll_view l) \<noteq> 0" using assms by (simp add: ll_cap_def ll_inv_def)
  then show ?thesis by (simp only: length_0_conv not_False_eq_True)
qed

text \<open>A push at the tail: into a full queue, the element at the head is dropped first.\<close>

lemma loop_push_to_tail_ok:
  assumes inv: "ll_inv l"
  shows "ll_inv (loop_push_to_tail l d)
    \<and> ll_size (loop_push_to_tail l d) = ll_size l
    \<and> ll_view (loop_push_to_tail l d)
        = (if ll_used l = ll_cap l then tl (ll_view l) else ll_view l) @ [d]
    \<and> ll_deleted (loop_push_to_tail l d)
        = ll_deleted l @ (if ll_used l = ll_cap l \<and> ll_del l then [hd (ll_view l)] else [])"
proof (cases "ll_used l = ll_cap l")
  case False
  then have room: "ll_used l < ll_cap l" using ll_used_less [OF inv] by (simp add: ll_cap_def)
  have nf: "(ll_tail l + 1) mod ll_size l \<noteq> ll_head l" using loop_full_iff(2) [OF inv] False by blast
  have push: "loop_push_to_tail l d = l\<lparr>ll_items := (ll_items l)[ll_tail l := d],
      ll_tail := (ll_tail l + 1) mod ll_size l\<rparr>"
    unfolding loop_push_to_tail_def Let_def if_not_P [OF nf] ..
  show ?thesis using False ll_append [OF inv room, of d] unfolding push by simp
next
  case True
  obtain x xs where v: "ll_view l = x # xs" using ll_view_full_Cons [OF inv True] by (cases "ll_view l") auto
  let ?l0 = "l\<lparr>ll_head := (ll_head l + 1) mod ll_size l\<rparr>"
  let ?l1 = "(call_del l (ll_items l ! ll_head l))\<lparr>ll_head := (ll_head l + 1) mod ll_size l\<rparr>"
  obtain l' where l': "loop_pop_from_head l = (l', x)" "ll_inv l'" "ll_view l' = xs"
    using loop_pop_from_head_ok [OF inv v] by blast
  have "ll_tail l \<noteq> ll_head l" using l'(1) v loop_empty_iff [OF inv] by (auto simp: loop_is_empty_def)
  then have pop: "l' = ?l0" "ll_items l ! ll_head l = x" using l'(1) by (auto simp: loop_pop_from_head_def)
  have l1: "ll_inv ?l1" "ll_view ?l1 = xs" "ll_size ?l1 = ll_size l"
    "ll_deleted ?l1 = ll_deleted l @ (if ll_del l then [x] else [])"
    using l' pop by (auto simp: call_del_def ll_inv_def ll_view_def ll_used_def)
  have room: "ll_used ?l1 < ll_cap ?l1"
    using l1(2,3) v True length_ll_view [of l] length_ll_view [of ?l1]
    by (simp add: ll_cap_def)
  have f: "(ll_tail l + 1) mod ll_size l = ll_head l" using loop_full_iff(2) [OF inv] True by blast
  have push: "loop_push_to_tail l d = ?l1\<lparr>ll_items := (ll_items ?l1)[ll_tail ?l1 := d],
      ll_tail := (ll_tail ?l1 + 1) mod ll_size ?l1\<rparr>"
    unfolding loop_push_to_tail_def Let_def if_P [OF f] ..
  show ?thesis using True ll_append [OF l1(1) room, of d] l1 v unfolding push by simp
qed

text \<open>Storing in front of the head, when there is room.\<close>

lemma ll_prepend:
  assumes inv: "ll_inv l" and room: "ll_used l < ll_cap l"
  defines "h \<equiv> (ll_size l + ll_head l - 1) mod ll_size l"
  shows "ll_inv (l\<lparr>ll_head := h, ll_items := (ll_items l)[h := d]\<rparr>)
    \<and> ll_view (l\<lparr>ll_head := h, ll_items := (ll_items l)[h := d]\<rparr>) = d # ll_view l"
    (is "ll_inv ?l \<and> _")
proof
  have i: "2 \<le> ll_size l" "length (ll_items l) = ll_size l" "ll_head l < ll_size l" "ll_tail l < ll_size l"
    using inv by (simp_all add: ll_inv_def)
  have h: "h < ll_size l" using i by (simp add: h_def)
  have bk: "(h + Suc j) mod ll_size l = (ll_head l + j) mod ll_size l" for j
    unfolding h_def using i by (intro ring_before) simp_all
  have u: "Suc (ll_used l) < ll_size l" using room by (simp add: ll_cap_def)
  show "ll_inv ?l" using i h by (simp add: ll_inv_def)
  show "ll_view ?l = d # ll_view l"
  proof (rule ll_view_eqI)
    show "ll_tail ?l = (ll_head ?l + length (d # ll_view l)) mod ll_size ?l"
      using ll_tail_eq [OF inv] bk [of "ll_used l"] by simp
  next
    fix j assume j: "j < length (d # ll_view l)"
    show "ll_items ?l ! ((ll_head ?l + j) mod ll_size ?l) = (d # ll_view l) ! j"
    proof (cases j)
      case 0
      then show ?thesis using h i by simp
    next
      case (Suc k)
      have "(h + Suc k) mod ll_size l = (h + 0) mod ll_size l \<longleftrightarrow> Suc k = 0"
        using j Suc u h by (intro ring_pos_inj) simp_all
      then have "(ll_head l + k) mod ll_size l \<noteq> h" using bk [of k] h by simp
      then show ?thesis using Suc j i bk [of k] nth_ll_view [OF i(2), of k] by simp
    qed
  qed (use i u h in simp_all)
qed

lemma loop_push_to_head_ok:
  assumes inv: "ll_inv l"
  shows "ll_inv (loop_push_to_head l d)
    \<and> ll_size (loop_push_to_head l d) = ll_size l
    \<and> ll_view (loop_push_to_head l d)
        = d # (if ll_used l = ll_cap l then butlast (ll_view l) else ll_view l)
    \<and> ll_deleted (loop_push_to_head l d)
        = ll_deleted l @ (if ll_used l = ll_cap l \<and> ll_del l then [last (ll_view l)] else [])"
proof (cases "ll_used l = ll_cap l")
  case False
  then have room: "ll_used l < ll_cap l" using ll_used_less [OF inv] by (simp add: ll_cap_def)
  have nf: "(ll_size l + ll_head l - 1) mod ll_size l \<noteq> ll_tail l"
    using loop_full_iff(1) [OF inv] False by (simp add: loop_is_full_def)
  show ?thesis
    using False ll_prepend [OF inv room, of d]
    unfolding loop_push_to_head_def if_not_P [OF nf] Let_def by simp
next
  case True
  obtain x xs where v: "ll_view l = xs @ [x]"
    using ll_view_full_Cons [OF inv True] by (metis rev_exhaust)
  let ?t = "(ll_size l + ll_tail l - 1) mod ll_size l"
  let ?l1 = "(call_del l (ll_items l ! ?t))\<lparr>ll_tail := ?t\<rparr>"
  obtain l' where l': "loop_pop_from_tail l = (l', x)" "ll_inv l'" "ll_view l' = xs"
    using loop_pop_from_tail_ok [OF inv v] by blast
  have "ll_tail l \<noteq> ll_head l" using v loop_empty_iff [OF inv] by (auto simp: loop_is_empty_def)
  then have pop: "l' = l\<lparr>ll_tail := ?t\<rparr>" "ll_items l ! ?t = x"
    using l'(1) by (auto simp: loop_pop_from_tail_def Let_def)
  have l1: "ll_inv ?l1" "ll_view ?l1 = xs" "ll_size ?l1 = ll_size l"
    "ll_deleted ?l1 = ll_deleted l @ (if ll_del l then [x] else [])"
    using l' pop by (auto simp: call_del_def ll_inv_def ll_view_def ll_used_def)
  have room: "ll_used ?l1 < ll_cap ?l1"
    using l1(2,3) v True length_ll_view [of l] length_ll_view [of ?l1]
    by (simp add: ll_cap_def)
  have f: "(ll_size l + ll_head l - 1) mod ll_size l = ll_tail l"
    using loop_full_iff(1) [OF inv] True by (simp add: loop_is_full_def)
  show ?thesis
    using True ll_prepend [OF l1(1) room, of d] l1 v
    unfolding loop_push_to_head_def if_P [OF f] Let_def by simp
qed

section \<open>Scans\<close>

lemma loop_find_view:
  assumes inv: "ll_inv l" and k: "k \<le> ll_used l"
  shows "loop_find l P ((ll_head l + k) mod ll_size l)
    = Some ((ll_head l + (k + length (takeWhile (\<lambda>x. \<not> P x) (drop k (ll_view l))))) mod ll_size l)"
  using k
proof (induction "ll_used l - k" arbitrary: k)
  case 0
  then have "k = ll_used l" by simp
  then show ?case using ll_tail_eq [OF inv] by (simp add: loop_find.simps)
next
  case (Suc m)
  have i: "2 \<le> ll_size l" "length (ll_items l) = ll_size l" "ll_head l < ll_size l"
    using inv by (simp_all add: ll_inv_def)
  have lt: "k < ll_used l" using Suc.hyps(2) by simp
  then have "(ll_head l + k) mod ll_size l = (ll_head l + ll_used l) mod ll_size l \<longleftrightarrow> k = ll_used l"
    using i ll_used_less [OF inv] by (intro ring_pos_inj) simp_all
  then have ne: "(ll_head l + k) mod ll_size l \<noteq> ll_tail l" using lt ll_tail_eq [OF inv] by simp
  have step: "((ll_head l + k) mod ll_size l + 1) mod ll_size l = (ll_head l + Suc k) mod ll_size l"
    by (simp add: mod_simps)
  have IH: "loop_find l P ((ll_head l + Suc k) mod ll_size l)
    = Some ((ll_head l + (Suc k + length (takeWhile (\<lambda>x. \<not> P x) (drop (Suc k) (ll_view l))))) mod ll_size l)"
    using Suc.hyps(2) lt by (intro Suc.hyps(1)) simp_all
  have d: "drop k (ll_view l) = ll_items l ! ((ll_head l + k) mod ll_size l) # drop (Suc k) (ll_view l)"
    using lt nth_ll_view [OF i(2) lt] by (simp add: Cons_nth_drop_Suc [symmetric])
  show ?case
    using ne IH unfolding loop_find.simps [of l P "(ll_head l + k) mod ll_size l"] step d by simp
qed

lemma loop_find_head:
  fixes P :: "nat \<Rightarrow> bool"
  assumes inv: "ll_inv l"
  defines "j \<equiv> length (takeWhile (\<lambda>x. \<not> P x) (ll_view l))"
  shows "loop_find l P (ll_head l) = Some ((ll_head l + j) mod ll_size l)"
    and "(ll_head l + j) mod ll_size l = ll_tail l \<longleftrightarrow> (\<forall>x \<in> set (ll_view l). \<not> P x)"
proof -
  have h: "ll_head l mod ll_size l = ll_head l" using inv by (simp add: ll_inv_def)
  show "loop_find l P (ll_head l) = Some ((ll_head l + j) mod ll_size l)"
    using loop_find_view [OF inv, of 0 P] h by (simp add: j_def)
  have le: "j \<le> ll_used l" using length_takeWhile_le [of _ "ll_view l"] by (simp add: j_def)
  have "(ll_head l + j) mod ll_size l = (ll_head l + ll_used l) mod ll_size l \<longleftrightarrow> j = ll_used l"
    using le ll_used_less [OF inv] inv by (intro ring_pos_inj) (simp_all add: ll_inv_def)
  moreover have "j = ll_used l \<longleftrightarrow> (\<forall>x \<in> set (ll_view l). \<not> P x)"
    unfolding j_def length_ll_view [of l, symmetric] by (rule takeWhile_all_iff)
  ultimately show "(ll_head l + j) mod ll_size l = ll_tail l \<longleftrightarrow> (\<forall>x \<in> set (ll_view l). \<not> P x)"
    using ll_tail_eq [OF inv] by simp
qed

text \<open>The first element with the property, \<open>NULL\<close> if there is none.\<close>

lemma loop_search_ok:
  assumes inv: "ll_inv l"
  shows "loop_search l P = Some (case List.find P (ll_view l) of None \<Rightarrow> 0 | Some x \<Rightarrow> x)"
proof (cases "\<forall>x \<in> set (ll_view l). \<not> P x")
  case True
  then have "List.find P (ll_view l) = None" by (simp add: find_takeWhile)
  then show ?thesis using loop_find_head [OF inv, of P] True by (simp add: loop_search_def)
next
  case False
  let ?j = "length (takeWhile (\<lambda>x. \<not> P x) (ll_view l))"
  have lt: "?j < ll_used l"
    using False unfolding length_ll_view [of l, symmetric] by (intro takeWhile_less) blast
  have "List.find P (ll_view l) = Some (ll_view l ! ?j)"
    using False by (simp add: find_takeWhile)
  moreover have "ll_view l ! ?j = ll_items l ! ((ll_head l + ?j) mod ll_size l)"
    using nth_ll_view [OF _ lt] inv by (simp add: ll_inv_def)
  ultimately show ?thesis using loop_find_head [OF inv, of P] False by (simp add: loop_search_def)
qed

lemma loop_shift_ok:
  assumes "length items = n" "h < n" "j + k < n"
  shows "\<exists>items'. loop_shift n ((h + (j + k)) mod n) items ((h + j) mod n) = Some items'
    \<and> length items' = n
    \<and> (\<forall>m < n. items' ! ((h + m) mod n)
         = (if j \<le> m \<and> m < j + k then items ! ((h + Suc m) mod n) else items ! ((h + m) mod n)))"
  using assms
proof (induction k arbitrary: j items)
  case 0
  then show ?case by (simp add: loop_shift.simps)
next
  case (Suc k)
  let ?i = "(h + j) mod n"
  let ?items = "items[?i := items ! ((h + Suc j) mod n)]"
  have ne: "?i \<noteq> (h + (j + Suc k)) mod n" using Suc.prems ring_pos_inj [of j n "j + Suc k" h] by simp
  have ps: "(?i + 1) mod n = (h + Suc j) mod n" by (simp add: mod_simps)
  from Suc.IH [of ?items "Suc j"] Suc.prems obtain items' where
    it: "loop_shift n ((h + (Suc j + k)) mod n) ?items ((h + Suc j) mod n) = Some items'"
      "length items' = n"
      "\<forall>m < n. items' ! ((h + m) mod n) = (if Suc j \<le> m \<and> m < Suc j + k
         then ?items ! ((h + Suc m) mod n) else ?items ! ((h + m) mod n))" by auto
  have keep: "?items ! ((h + m) mod n) = (if m = j then items ! ((h + Suc j) mod n)
      else items ! ((h + m) mod n))" if "m < n" for m
    using ring_pos_inj [of m n j h] that Suc.prems by (cases "m = j") (auto simp: nth_list_update)
  have "items' ! ((h + m) mod n) = (if j \<le> m \<and> m < j + Suc k
      then items ! ((h + Suc m) mod n) else items ! ((h + m) mod n))" if m: "m < n" for m
  proof (cases "Suc j \<le> m \<and> m < Suc j + k")
    case True
    then have "Suc m < n" "Suc m \<noteq> j" using Suc.prems by simp_all
    then have "?items ! ((h + Suc m) mod n) = items ! ((h + Suc m) mod n)"
      using keep [of "Suc m"] by simp
    then show ?thesis using it(3) m True by simp
  next
    case False
    then have "items' ! ((h + m) mod n) = ?items ! ((h + m) mod n)"
      using it(3) [rule_format, OF m] by (simp only: False if_False)
    then show ?thesis using keep [OF m] False by auto
  qed
  moreover have "loop_shift n ((h + (j + Suc k)) mod n) items ?i = Some items'"
    using ne it(1) ps by (simp add: loop_shift.simps [of _ _ items])
  ultimately show ?case using it(2) by blast
qed

text \<open>The first occurrence of the pointer is removed; the others keep their order.\<close>

lemma remove1_nth:
  "j < length xs \<Longrightarrow> j = length (takeWhile (\<lambda>x. \<not> x = d) xs) \<Longrightarrow> remove1 d xs = take j xs @ drop (Suc j) xs"
  by (induction xs arbitrary: j) auto

lemma loop_remove_ok:
  assumes inv: "ll_inv l"
  shows "\<exists>l'. loop_remove l d = Some l' \<and> ll_inv l' \<and> ll_view l' = remove1 d (ll_view l)
    \<and> ll_deleted l' = ll_deleted l \<and> ll_size l' = ll_size l"
proof (cases "d \<in> set (ll_view l)")
  case False
  then have "loop_remove l d = Some l"
    using loop_find_head [OF inv, of "\<lambda>p. p = d"] by (auto simp: loop_remove_def)
  then show ?thesis using inv False by (simp add: remove1_idem)
next
  case True
  let ?n = "ll_size l" and ?h = "ll_head l" and ?u = "ll_used l"
  let ?j = "length (takeWhile (\<lambda>p. \<not> p = d) (ll_view l))"
  have i: "2 \<le> ?n" "length (ll_items l) = ?n" "?h < ?n" "ll_tail l < ?n" "?u < ?n"
    using inv ll_used_less by (simp_all add: ll_inv_def)
  have lt: "?j < ?u"
    using True takeWhile_less [of "ll_view l" "\<lambda>p. p = d"] by auto
  let ?t = "(?n + ll_tail l - 1) mod ?n" and ?k = "?u - 1 - ?j"
  have t: "?t = (?h + (?j + ?k)) mod ?n"
    using ring_pos_pred [of ?u ?n ?h] ll_tail_eq [OF inv] i lt by simp
  have jk: "?j + ?k < ?n" using i lt by simp
  obtain items' where it: "loop_shift ?n ?t (ll_items l) ((?h + ?j) mod ?n) = Some items'"
      "length items' = ?n"
      "\<forall>m < ?n. items' ! ((?h + m) mod ?n) = (if ?j \<le> m \<and> m < ?j + ?k
         then ll_items l ! ((?h + Suc m) mod ?n) else ll_items l ! ((?h + m) mod ?n))"
    using loop_shift_ok [OF i(2,3) jk] unfolding t by blast
  let ?l = "l\<lparr>ll_tail := ?t, ll_items := items'\<rparr>"
  have "loop_remove l d = Some ?l"
    using loop_find_head [OF inv, of "\<lambda>p. p = d"] True it(1) by (auto simp: loop_remove_def)
  moreover have "ll_inv ?l" using i it(2) by (simp add: ll_inv_def)
  moreover have "ll_view ?l = remove1 d (ll_view l)"
  proof -
    have rm: "remove1 d (ll_view l) = take ?j (ll_view l) @ drop (Suc ?j) (ll_view l)"
      using lt by (intro remove1_nth) simp_all
    have len: "length (remove1 d (ll_view l)) = ?u - 1" using lt rm by simp
    show ?thesis
    proof (rule ll_view_eqI)
      show "ll_tail ?l = (ll_head ?l + length (remove1 d (ll_view l))) mod ll_size ?l"
        using t lt len by simp
    next
      fix m assume "m < length (remove1 d (ll_view l))"
      then have m: "m < ?u - 1" "m < ?n" using len i lt by simp_all
      have "items' ! ((?h + m) mod ?n) = remove1 d (ll_view l) ! m"
      proof (cases "m < ?j")
        case True
        then have "items' ! ((?h + m) mod ?n) = ll_items l ! ((?h + m) mod ?n)" using it(3) m by simp
        then show ?thesis using True lt m nth_ll_view [OF i(2), of m] by (simp add: rm nth_append)
      next
        case False
        then have "items' ! ((?h + m) mod ?n) = ll_items l ! ((?h + Suc m) mod ?n)" using it(3) m lt by simp
        then show ?thesis
          using False lt m nth_ll_view [OF i(2), of "Suc m"] by (simp add: rm nth_append min_def)
      qed
      then show "ll_items ?l ! ((ll_head ?l + m) mod ll_size ?l) = remove1 d (ll_view l) ! m" by simp
    qed (use it(2) i len in simp_all)
  qed
  ultimately show ?thesis by auto
qed

section \<open>Clearing\<close>

lemma loop_del_all_ok:
  assumes inv: "ll_inv l" and k: "k \<le> ll_used l"
  shows "loop_del_all l ((ll_head l + k) mod ll_size l)
    = Some (if ll_del l then l\<lparr>ll_deleted := ll_deleted l @ drop k (ll_view l)\<rparr> else l)"
  using assms
proof (induction "ll_used l - k" arbitrary: k l)
  case 0
  then have "k = ll_used l" by simp
  then show ?case using ll_tail_eq [OF "0.prems"(1)] by (simp add: loop_del_all.simps)
next
  case (Suc m)
  have i: "2 \<le> ll_size l" "length (ll_items l) = ll_size l" "ll_head l < ll_size l"
    using Suc.prems(1) by (simp_all add: ll_inv_def)
  have lt: "k < ll_used l" using Suc.hyps(2) by simp
  let ?i = "(ll_head l + k) mod ll_size l"
  have "?i = (ll_head l + ll_used l) mod ll_size l \<longleftrightarrow> k = ll_used l"
    using i ll_used_less [OF Suc.prems(1)] lt by (intro ring_pos_inj) simp_all
  then have ne: "?i \<noteq> ll_tail l" using lt ll_tail_eq [OF Suc.prems(1)] by simp
  have step: "(?i + 1) mod ll_size l = (ll_head l + Suc k) mod ll_size l" by (simp add: mod_simps)
  let ?l = "call_del l (ll_items l ! ?i)"
  have same: "ll_inv ?l" "ll_used ?l = ll_used l" "ll_head ?l = ll_head l" "ll_size ?l = ll_size l"
    "ll_view ?l = ll_view l" "ll_del ?l = ll_del l"
    using Suc.prems(1) by (simp_all add: call_del_def ll_inv_def ll_used_def ll_view_def)
  have IH: "loop_del_all ?l ((ll_head ?l + Suc k) mod ll_size ?l)
      = Some (if ll_del ?l then ?l\<lparr>ll_deleted := ll_deleted ?l @ drop (Suc k) (ll_view ?l)\<rparr> else ?l)"
    using Suc.hyps(2) lt same by (intro Suc.hyps(1)) simp_all
  have d: "drop k (ll_view l) = ll_items l ! ?i # drop (Suc k) (ll_view l)"
    using lt nth_ll_view [OF i(2) lt] by (simp add: Cons_nth_drop_Suc [symmetric])
  have "loop_del_all l ?i = loop_del_all ?l ((?i + 1) mod ll_size l)"
    using ne by (simp add: loop_del_all.simps [of l ?i])
  also have "\<dots> = Some (if ll_del l then ?l\<lparr>ll_deleted := ll_deleted ?l @ drop (Suc k) (ll_view l)\<rparr> else ?l)"
    using IH unfolding same step .
  finally show ?case by (simp add: d call_del_def)
qed

lemma loop_clear_ok:
  assumes inv: "ll_inv l"
  shows "\<exists>l'. loop_clear l = Some l' \<and> ll_inv l' \<and> ll_view l' = []
    \<and> ll_deleted l' = ll_deleted l @ (if ll_del l then ll_view l else [])"
  using loop_del_all_ok [OF inv, of 0] inv
  by (auto simp: loop_clear_def ll_inv_def ll_view_def ll_used_def)

lemma loop_cleanup_ok:
  assumes inv: "ll_inv l"
  shows "\<exists>l'. loop_cleanup l = Some l' \<and> ll_items l' = []
    \<and> ll_deleted l' = ll_deleted l @ (if ll_del l then ll_view l else [])"
  using loop_del_all_ok [OF inv, of 0] inv
  by (auto simp: loop_cleanup_def ll_inv_def)

lemma loop_create_ok:
  "2 \<le> n \<Longrightarrow> length blk = n \<Longrightarrow>
   \<exists>l. loop_create (Some blk) n del = Some l \<and> ll_inv l \<and> ll_view l = [] \<and> ll_cap l = n - 1"
  by (simp add: loop_create_def ll_inv_def ll_view_def ll_used_def ll_cap_def)

text \<open>The peek at an offset is right only while the content does not wrap round.\<close>

lemma loop_get_near:
  assumes "ll_inv l" "k < ll_used l" "ll_head l + k < ll_size l"
  shows "loop_get_from_head l k = Some (ll_view l ! k)"
  using assms nth_ll_view [of l k] by (simp add: loop_get_from_head_def ll_inv_def)

lemma loop_get_wrapped:
  assumes "ll_inv l" "ll_size l \<le> ll_head l + k"
  shows "loop_get_from_head l k = None"
  using assms by (simp add: loop_get_from_head_def ll_inv_def)

section \<open>A bounded queue\<close>

text \<open>A pop returns NULL where there is nothing.\<close>

definition ll_enq :: "loop_list \<Rightarrow> nat \<Rightarrow> (loop_list \<times> bool) option" where
  "ll_enq l d = Some (loop_push_to_tail l d, True)"

definition ll_deq :: "loop_list \<Rightarrow> (loop_list \<times> nat option) option" where
  "ll_deq l = (case loop_pop_from_head l of (l', p) \<Rightarrow> Some (l', if p = 0 then None else Some p))"

definition ll_good :: "loop_list \<Rightarrow> bool" where
  "ll_good l \<longleftrightarrow> ll_inv l \<and> 0 \<notin> set (ll_view l)"

text \<open>A push into a full queue takes the place of the oldest element.\<close>

definition drop_oldest :: "nat list \<Rightarrow> nat \<Rightarrow> nat list \<times> bool" where
  "drop_oldest xs x = (tl xs @ [x], True)"

lemma set_tl: "a \<in> set (tl xs) \<Longrightarrow> a \<in> set xs"
  by (cases xs) auto

interpretation lq: bounded_queue ll_good ll_view ll_cap "\<lambda>p. p \<noteq> 0" drop_oldest ll_enq ll_deq
proof unfold_locales
  fix l p assume "ll_good l" "p \<noteq> (0::nat)" "length (ll_view l) < ll_cap l"
  then show "\<exists>l'. ll_enq l p = Some (l', True) \<and> ll_good l' \<and> ll_view l' = ll_view l @ [p]
      \<and> ll_cap l' = ll_cap l"
    using loop_push_to_tail_ok [of l p] by (simp add: ll_enq_def ll_good_def ll_cap_def)
next
  fix l p assume l: "ll_good l" "p \<noteq> (0::nat)" "\<not> length (ll_view l) < ll_cap l"
  then have "ll_used l = ll_cap l"
    using ll_used_less [of l] by (simp add: ll_good_def ll_cap_def)
  then show "\<exists>l'. ll_enq l p = Some (l', snd (drop_oldest (ll_view l) p)) \<and> ll_good l'
      \<and> ll_view l' = fst (drop_oldest (ll_view l) p) \<and> ll_cap l' = ll_cap l"
    using l loop_push_to_tail_ok [of l p]
    by (auto simp: ll_enq_def ll_good_def ll_cap_def drop_oldest_def dest: set_tl)
next
  fix l x xs assume l: "ll_good l" "ll_view l = x # xs"
  then obtain l' where "loop_pop_from_head l = (l', x)" "ll_inv l'" "ll_view l' = xs" "ll_size l' = ll_size l"
    using loop_pop_from_head_ok [of l x xs] by (auto simp: ll_good_def)
  then show "\<exists>l'. ll_deq l = Some (l', Some x) \<and> ll_good l' \<and> ll_view l' = xs \<and> ll_cap l' = ll_cap l"
    using l by (auto simp: ll_deq_def ll_good_def ll_cap_def)
next
  fix l assume "ll_good l" "ll_view l = []"
  then show "\<exists>l'. ll_deq l = Some (l', None) \<and> ll_good l' \<and> ll_view l' = [] \<and> ll_cap l' = ll_cap l"
    by (simp add: ll_deq_def ll_good_def loop_pop_empty)
qed

section \<open>Properties\<close>

text \<open>A queue of four slots, full, whose content wraps round.\<close>

definition loop4 :: loop_list where
  "loop4 = \<lparr>ll_size = 4, ll_head = 2, ll_tail = 1, ll_items = [30, 99, 10, 20], ll_del = True,
     ll_deleted = []\<rparr>"

lemma loop4_facts: "ll_inv loop4" "ll_view loop4 = [10, 20, 30]" "ll_used loop4 = 3" "ll_cap loop4 = 3"
    "ll_del loop4" "ll_deleted loop4 = []" "ll_size loop4 = 4"
  by (simp_all add: loop4_def ll_inv_def ll_view_def ll_used_def ll_cap_def ring_view_def upt_rec)

text \<open>
  A push at either end of the pointer queue keeps the invariant, puts the element at that end,
  and, when the queue is full, drops exactly the element at the other end and hands it to
  del_func.
\<close>

theorem loop_push_keeps_newest:
  assumes "ll_inv l"
  shows "ll_inv (loop_push_to_tail l d) \<and> ll_inv (loop_push_to_head l d)
    \<and> ll_view (loop_push_to_tail l d) = (if ll_used l = ll_cap l then tl (ll_view l) else ll_view l) @ [d]
    \<and> ll_view (loop_push_to_head l d) = d # (if ll_used l = ll_cap l then butlast (ll_view l) else ll_view l)
    \<and> ll_deleted (loop_push_to_tail l d)
        = ll_deleted l @ (if ll_used l = ll_cap l \<and> ll_del l then [hd (ll_view l)] else [])
    \<and> ll_deleted (loop_push_to_head l d)
        = ll_deleted l @ (if ll_used l = ll_cap l \<and> ll_del l then [last (ll_view l)] else [])"
  using loop_push_to_tail_ok [OF assms, of d] loop_push_to_head_ok [OF assms, of d] by blast

lemma loop_push_keeps_newest_witness:
  "ll_view (loop_push_to_tail loop4 7) = [20, 30, 7] \<and> ll_deleted (loop_push_to_tail loop4 7) = [10]
   \<and> ll_view (loop_push_to_head loop4 7) = [7, 10, 20] \<and> ll_deleted (loop_push_to_head loop4 7) = [30]"
  using loop_push_keeps_newest [of loop4 7] by (simp add: loop4_facts)

text \<open>
  C6: From any well-formed pointer queue without NULL elements, every sequence of pushes of
  pointers other than NULL to the tail and of pops from the head returns, operation by
  operation, what a list of the same capacity returns: a push into a full queue drops the
  oldest element, a pop returns the oldest element, and NULL exactly when the queue is empty.
  The queue stays well-formed, with the content of the list and its capacity.
\<close>

theorem loop_queue_is_fifo:
  assumes "ll_good l" "\<forall>p \<in> set (q_puts ops). p \<noteq> 0"
  shows "\<exists>l'. q_exec ll_enq ll_deq l ops
      = Some (l', snd (q_spec (ll_cap l) drop_oldest (ll_view l) ops))
    \<and> ll_good l' \<and> ll_view l' = fst (q_spec (ll_cap l) drop_oldest (ll_view l) ops)
    \<and> ll_cap l' = ll_cap l"
  by (rule lq.exec_refines_spec [OF assms])

lemma loop_queue_is_fifo_witness:
  "\<exists>l'. q_exec ll_enq ll_deq loop4 [Deq, Enq 40, Enq 50, Deq, Deq, Deq, Deq]
      = Some (l', [Got (Some 10), Put True, Put True, Got (Some 30), Got (Some 40), Got (Some 50), Got None])
    \<and> ll_view l' = []"
proof -
  have "ll_good loop4" by (simp add: ll_good_def loop4_facts)
  from loop_queue_is_fifo [OF this, of "[Deq, Enq 40, Enq 50, Deq, Deq, Deq, Deq]"]
  show ?thesis by (auto simp: loop4_facts drop_oldest_def)
qed

text \<open>
  loop_search returns the first element in queue order that satisfies the predicate, or NULL,
  and loop_remove deletes the first occurrence and keeps the others in order; both loops end.
\<close>

theorem loop_remove_and_search:
  assumes "ll_inv l"
  shows "loop_search l P = Some (case List.find P (ll_view l) of None \<Rightarrow> 0 | Some x \<Rightarrow> x)
    \<and> (\<exists>l'. loop_remove l d = Some l' \<and> ll_inv l' \<and> ll_view l' = remove1 d (ll_view l)
        \<and> ll_deleted l' = ll_deleted l)"
  using loop_search_ok [OF assms, of P] loop_remove_ok [OF assms, of d] by blast

lemma loop_remove_and_search_witness:
  "loop_search loop4 (\<lambda>x. 10 < x) = Some 20
   \<and> (\<exists>l'. loop_remove loop4 20 = Some l' \<and> ll_view l' = [10, 30] \<and> ll_deleted l' = [])"
  using loop_remove_and_search [of loop4 "\<lambda>x. 10 < x" 20] by (auto simp: loop4_facts)

text \<open>
  loop_clear and loop_cleanup hand every element to del_func once, in queue order, and
  loop_clear leaves an empty well-formed queue.
\<close>

theorem loop_clear_deletes_all:
  assumes "ll_inv l"
  shows "(\<exists>l'. loop_clear l = Some l' \<and> ll_inv l' \<and> ll_view l' = []
      \<and> ll_deleted l' = ll_deleted l @ (if ll_del l then ll_view l else []))
    \<and> (\<exists>l'. loop_cleanup l = Some l' \<and> ll_items l' = []
      \<and> ll_deleted l' = ll_deleted l @ (if ll_del l then ll_view l else []))"
  using loop_clear_ok [OF assms] loop_cleanup_ok [OF assms] by blast

lemma loop_clear_deletes_all_witness:
  "(\<exists>l'. loop_clear loop4 = Some l' \<and> ll_view l' = [] \<and> ll_deleted l' = [10, 20, 30])
   \<and> (\<exists>l'. loop_cleanup loop4 = Some l' \<and> ll_deleted l' = [10, 20, 30])"
  using loop_clear_deletes_all [of loop4] by (auto simp: loop4_facts)

end
