(* ===== verification/MsQueue.thy ===== *)
theory MsQueue
  imports Prelude BoundedQueue "HOL-Library.Monad_Syntax"
begin

text \<open>
  The message queue of the OS layer, \<open>pgos/MsOS_queue.c\<close>, with the semaphore operations of
  \<open>pgos/MsOS_task.c\<close> it uses. Nodes lie in one block and are linked into a free list and a
  used list, whose head nodes point back to the last node. Pointers are 32-bit addresses,
  the nodes a store over them. \<open>None\<close> stands for a call that does not return: it waits
  for ever on a semaphore, or it leaves a node. Semaphores are counts; the calls are
  modelled without other threads in between, which the lock semaphore provides.
\<close>

section \<open>Semaphores\<close>

definition MSOS_WAIT_FOREVER :: u32 where "MSOS_WAIT_FOREVER = 0xFFFFFFFF"

text \<open>\<open>sem_wait\<close> and \<open>sem_timedwait\<close>: take a count if there is one; without one, wait for ever
  or run into the timeout.\<close>

definition MsOS_ObtainSemaphore :: "nat \<Rightarrow> u32 \<Rightarrow> (nat \<times> bool) option" where
  "MsOS_ObtainSemaphore n u32WaitMs =
     (if 0 < n then Some (n - 1, True)
      else if u32WaitMs = MSOS_WAIT_FOREVER then None
      else Some (n, False))"

definition MsOS_ReleaseSemaphore :: "nat \<Rightarrow> nat" where
  "MsOS_ReleaseSemaphore n = n + 1"

section \<open>Nodes and queues\<close>

record ms_node =
  mn_prev :: u32
  mn_next :: u32
  mn_size :: u32
  mn_msg :: "u8 list"

type_synonym ms_heap = "u32 \<rightharpoonup> ms_node"

record ms_queue =
  mq_lock :: nat
  mq_send :: nat
  mq_recv :: nat
  mq_maxNum :: u32
  mq_maxSize :: u32
  mq_pMsgList :: u32
  mq_pFree :: u32
  mq_pUsed :: u32
  mq_heap :: ms_heap

definition MAX_NUM_OF_MSGS :: u32 where "MAX_NUM_OF_MSGS = 0x100"
definition MAX_SIZE_OF_MSG :: u32 where "MAX_SIZE_OF_MSG = 0x100"

definition MsOS_MSG_NODE_HEAD_SIZE :: u32 where "MsOS_MSG_NODE_HEAD_SIZE = 12"

definition MsOS_MSG_SIZE :: "u32 \<Rightarrow> u32" where
  "MsOS_MSG_SIZE maxSize = push_bit 2 (drop_bit 2 (maxSize + 3))"

definition MsOS_MSG_NODE_SIZE :: "u32 \<Rightarrow> u32" where
  "MsOS_MSG_NODE_SIZE maxSize = MsOS_MSG_NODE_HEAD_SIZE + MsOS_MSG_SIZE maxSize"

definition MsOS_MSG_QUEUE_SIZE :: "u32 \<Rightarrow> u32 \<Rightarrow> u32" where
  "MsOS_MSG_QUEUE_SIZE maxNum maxSize = MsOS_MSG_NODE_SIZE maxSize * maxNum"

definition getNodeByIndex :: "ms_queue \<Rightarrow> u32 \<Rightarrow> u32" where
  "getNodeByIndex q curIndex =
     (if curIndex < mq_maxNum q
      then mq_pMsgList q + MsOS_MSG_NODE_SIZE (mq_maxSize q) * curIndex else 0)"

definition getNodeByMsg :: "ms_queue \<Rightarrow> u32 \<Rightarrow> u32" where
  "getNodeByMsg q pMsg =
     (if pMsg = 0 then 0
      else if pMsg < mq_pMsgList q + MsOS_MSG_NODE_HEAD_SIZE then 0
      else if pMsg + MsOS_MSG_SIZE (mq_maxSize q)
           > mq_pMsgList q + MsOS_MSG_QUEUE_SIZE (mq_maxNum q) (mq_maxSize q) then 0
      else if (pMsg - MsOS_MSG_NODE_HEAD_SIZE - mq_pMsgList q) mod MsOS_MSG_NODE_SIZE (mq_maxSize q) \<noteq> 0
           then 0
      else pMsg - MsOS_MSG_NODE_HEAD_SIZE)"

definition mn_update :: "u32 \<Rightarrow> (ms_node \<Rightarrow> ms_node) \<Rightarrow> ms_heap \<Rightarrow> ms_heap option" where
  "mn_update p f h = (case h p of None \<Rightarrow> None | Some n \<Rightarrow> Some (h(p \<mapsto> f n)))"

text \<open>\<open>_AddToListTail\<close> on the list headed by \<open>hd\<close>; the new head is returned.\<close>

definition add_tail :: "ms_heap \<Rightarrow> u32 \<Rightarrow> u32 \<Rightarrow> (ms_heap \<times> u32) option" where
  "add_tail h head pNode =
     (if pNode = 0 then Some (h, head)
      else if head = 0 then do {
        h1 \<leftarrow> mn_update pNode (\<lambda>n. n\<lparr>mn_prev := pNode, mn_next := 0\<rparr>) h;
        Some (h1, pNode)
      } else do {
        c \<leftarrow> h head;
        h1 \<leftarrow> mn_update pNode (\<lambda>n. n\<lparr>mn_prev := mn_prev c, mn_next := 0\<rparr>) h;
        c1 \<leftarrow> h1 head;
        h2 \<leftarrow> mn_update (mn_prev c1) (\<lambda>n. n\<lparr>mn_next := pNode\<rparr>) h1;
        h3 \<leftarrow> mn_update head (\<lambda>n. n\<lparr>mn_prev := pNode\<rparr>) h2;
        Some (h3, head)
      })"

definition AddToListTail :: "ms_queue \<Rightarrow> bool \<Rightarrow> u32 \<Rightarrow> ms_queue option" where
  "AddToListTail q bFree pNode = do {
     (h, p) \<leftarrow> add_tail (mq_heap q) (if bFree then mq_pFree q else mq_pUsed q) pNode;
     Some (if bFree then q\<lparr>mq_heap := h, mq_pFree := p\<rparr> else q\<lparr>mq_heap := h, mq_pUsed := p\<rparr>)
   }"

definition remove_head :: "ms_heap \<Rightarrow> u32 \<Rightarrow> (ms_heap \<times> u32) option" where
  "remove_head h p =
     (if p = 0 then Some (h, 0)
      else do {
        c \<leftarrow> h p;
        h1 \<leftarrow> (if mn_next c \<noteq> 0 then mn_update (mn_next c) (\<lambda>n. n\<lparr>mn_prev := mn_prev c\<rparr>) h
               else Some h);
        c1 \<leftarrow> h1 p;
        Some (h1, mn_next c1)
      })"

definition RemoveFromListHead :: "ms_queue \<Rightarrow> bool \<Rightarrow> (ms_queue \<times> u32) option" where
  "RemoveFromListHead q bFree = do {
     let p = (if bFree then mq_pFree q else mq_pUsed q);
     (h, p') \<leftarrow> remove_head (mq_heap q) p;
     Some (if bFree then q\<lparr>mq_heap := h, mq_pFree := p'\<rparr> else q\<lparr>mq_heap := h, mq_pUsed := p'\<rparr>, p)
   }"

section \<open>Creating and deleting\<close>

definition zero_node :: "u32 \<Rightarrow> ms_node" where
  "zero_node maxSize = \<lparr>mn_prev = 0, mn_next = 0, mn_size = 0,
     mn_msg = replicate (unat (MsOS_MSG_SIZE maxSize)) 0\<rparr>"

fun add_nodes :: "ms_queue \<Rightarrow> nat list \<Rightarrow> ms_queue option" where
  "add_nodes q [] = Some q"
| "add_nodes q (i # is) = do {
     q' \<leftarrow> AddToListTail q True (getNodeByIndex q (word_of_nat i));
     add_nodes q' is
   }"

text \<open>The block of nodes lies at \<open>base\<close>, which the allocator chooses; both allocations are
  taken to succeed (the code tests only the first). The result is \<open>NULL\<close> (\<open>Some None\<close>)
  for sizes the code refuses.\<close>

definition MsOS_CreateQueue :: "u32 \<Rightarrow> u32 \<Rightarrow> u32 \<Rightarrow> ms_queue option option" where
  "MsOS_CreateQueue base u32QueueSize u32MessageSize =
     (if u32QueueSize = 0 \<or> u32MessageSize > MAX_NUM_OF_MSGS then Some None
      else if u32MessageSize = 0 \<or> u32MessageSize > MAX_SIZE_OF_MSG then Some None
      else do {
        let node = (\<lambda>i. base + MsOS_MSG_NODE_SIZE u32MessageSize * word_of_nat i);
        let h = map_of (map (\<lambda>i. (node i, zero_node u32MessageSize)) [0..<unat u32QueueSize]);
        q \<leftarrow> add_nodes
          \<lparr>mq_lock = 0, mq_send = 0, mq_recv = 0, mq_maxNum = u32QueueSize,
           mq_maxSize = u32MessageSize, mq_pMsgList = base, mq_pFree = 0, mq_pUsed = 0, mq_heap = h\<rparr>
          [0..<unat u32QueueSize];
        Some (Some (q\<lparr>mq_lock := 1, mq_send := unat (mq_maxNum q), mq_recv := 0\<rparr>))
      })"

section \<open>Sending and receiving\<close>

text \<open>The lock semaphore around one list operation.\<close>

definition locked :: "(ms_queue \<Rightarrow> (ms_queue \<times> 'a) option) \<Rightarrow> ms_queue \<Rightarrow> (ms_queue \<times> 'a) option" where
  "locked f q = do {
     (n, _) \<leftarrow> MsOS_ObtainSemaphore (mq_lock q) MSOS_WAIT_FOREVER;
     (q1, r) \<leftarrow> f (q\<lparr>mq_lock := n\<rparr>);
     Some (q1\<lparr>mq_lock := MsOS_ReleaseSemaphore (mq_lock q1)\<rparr>, r)
   }"

definition add_locked :: "bool \<Rightarrow> u32 \<Rightarrow> ms_queue \<Rightarrow> ms_queue option" where
  "add_locked bFree pNode q =
     map_option fst (locked (\<lambda>q. map_option (\<lambda>q'. (q', ())) (AddToListTail q bFree pNode)) q)"

definition QueueClaim :: "ms_queue \<Rightarrow> u32 \<Rightarrow> (ms_queue \<times> u32) option" where
  "QueueClaim q u32WaitMs = do {
     (n, got) \<leftarrow> MsOS_ObtainSemaphore (mq_send q) u32WaitMs;
     (if \<not> got then Some (q, 0)
      else locked (\<lambda>q. RemoveFromListHead q True) (q\<lparr>mq_send := n\<rparr>))
   }"

definition QueueSend :: "ms_queue \<Rightarrow> u32 \<Rightarrow> (ms_queue \<times> bool) option" where
  "QueueSend q pNode =
     (if pNode = 0 then Some (q, False)
      else do {
        q1 \<leftarrow> add_locked False pNode q;
        Some (q1\<lparr>mq_recv := MsOS_ReleaseSemaphore (mq_recv q1)\<rparr>, True)
      })"

definition MsOS_SendToQueue :: "ms_queue \<Rightarrow> u8 list \<Rightarrow> u32 \<Rightarrow> u32 \<Rightarrow> (ms_queue \<times> bool) option" where
  "MsOS_SendToQueue q pu8Message u32Size u32WaitMs = do {
     (q1, pNode) \<leftarrow> QueueClaim q u32WaitMs;
     (if pNode = 0 then Some (q1, False)
      else if mq_maxSize q1 \<ge> u32Size then do {
        n \<leftarrow> mq_heap q1 pNode;
        m \<leftarrow> mem_copy (mn_msg n) 0 pu8Message 0 (unat u32Size);
        (q2, sent) \<leftarrow> QueueSend
          (q1\<lparr>mq_heap := (mq_heap q1)(pNode \<mapsto> n\<lparr>mn_msg := m, mn_size := u32Size\<rparr>)\<rparr>) pNode;
        (if \<not> sent then do { q3 \<leftarrow> add_locked True pNode q2; Some (q3, False) }
         else Some (q2, True))
      } else do {
        q2 \<leftarrow> add_locked True pNode q1;
        Some (q2, False)
      })
   }"

definition QueueRecv :: "ms_queue \<Rightarrow> u32 \<Rightarrow> (ms_queue \<times> u32) option" where
  "QueueRecv q ms = do {
     (n, got) \<leftarrow> MsOS_ObtainSemaphore (mq_recv q) ms;
     (if \<not> got then Some (q, 0)
      else locked (\<lambda>q. RemoveFromListHead q False) (q\<lparr>mq_recv := n\<rparr>))
   }"

definition QueueFree :: "ms_queue \<Rightarrow> u32 \<Rightarrow> (ms_queue \<times> bool) option" where
  "QueueFree q pNode =
     (if pNode = 0 then Some (q, False)
      else do {
        q1 \<leftarrow> add_locked True pNode q;
        Some (q1\<lparr>mq_send := MsOS_ReleaseSemaphore (mq_send q1)\<rparr>, True)
      })"

text \<open>What is copied to the caller: the message, or as much of it as the caller's buffer takes.\<close>

definition copy_msg :: "ms_node \<Rightarrow> u32 \<Rightarrow> u8 list option" where
  "copy_msg n u32IntendedSize =
     (if mn_size n \<le> u32IntendedSize then mem_read (mn_msg n) 0 (unat (mn_size n))
      else mem_read (mn_msg n) 0 (unat u32IntendedSize))"

definition MsOS_RecvFromQueue :: "ms_queue \<Rightarrow> u32 \<Rightarrow> u32 \<Rightarrow> (ms_queue \<times> u8 list option) option" where
  "MsOS_RecvFromQueue q u32IntendedSize u32WaitMs = do {
     (q1, pNode) \<leftarrow> QueueRecv q u32WaitMs;
     (if pNode = 0 then Some (q1, None)
      else do {
        n \<leftarrow> mq_heap q1 pNode;
        d \<leftarrow> copy_msg n u32IntendedSize;
        (q2, _) \<leftarrow> QueueFree q1 pNode;
        Some (q2, Some d)
      })
   }"

definition MsOS_PeekFromQueue :: "ms_queue \<Rightarrow> u32 \<Rightarrow> u8 list option option" where
  "MsOS_PeekFromQueue q u32IntendedSize =
     (if mq_pUsed q = 0 then Some None
      else do {
        n \<leftarrow> mq_heap q (mq_pUsed q);
        d \<leftarrow> copy_msg n u32IntendedSize;
        Some (Some d)
      })"

section \<open>Lists in the store\<close>

fun npath :: "ms_heap \<Rightarrow> u32 \<Rightarrow> u32 list \<Rightarrow> u32 \<Rightarrow> bool" where
  "npath h p [] e \<longleftrightarrow> p = e"
| "npath h p (x # xs) e \<longleftrightarrow> p = x \<and> x \<noteq> 0 \<and> (\<exists>n. h x = Some n \<and> npath h (mn_next n) xs e)"

definition mlist :: "ms_heap \<Rightarrow> u32 \<Rightarrow> u32 list \<Rightarrow> bool" where
  "mlist h p xs \<longleftrightarrow> npath h p xs 0 \<and> distinct xs
     \<and> (xs \<noteq> [] \<longrightarrow> map_option mn_prev (h (hd xs)) = Some (last xs))"

definition payload :: "ms_heap \<Rightarrow> u32 \<Rightarrow> (u32 \<times> u8 list) option" where
  "payload h a = map_option (\<lambda>n. (mn_size n, mn_msg n)) (h a)"

lemma npath_append:
  "npath h p (xs @ ys) e \<longleftrightarrow> (\<exists>q. npath h p xs q \<and> npath h q ys e)"
  by (induction xs arbitrary: p) auto

lemma npath_cong:
  "(\<And>a. a \<in> set xs \<Longrightarrow> map_option mn_next (h a) = map_option mn_next (h' a)) \<Longrightarrow>
   npath h p xs e = npath h' p xs e"
proof (induction xs arbitrary: p)
  case Nil
  then show ?case by simp
next
  case (Cons x xs)
  have "map_option mn_next (h x) = map_option mn_next (h' x)" using Cons.prems by simp
  moreover have "npath h q xs e = npath h' q xs e" for q using Cons by simp
  ultimately show ?case by (cases "h x"; cases "h' x") auto
qed

lemma npath_nodes: "npath h p xs e \<Longrightarrow> x \<in> set xs \<Longrightarrow> x \<noteq> 0 \<and> h x \<noteq> None"
  by (induction xs arbitrary: p) auto

lemma mlist_empty: "mlist h p xs \<Longrightarrow> p = 0 \<longleftrightarrow> xs = []"
  by (cases xs) (auto simp: mlist_def)

lemma mlist_cong:
  assumes "\<And>a. a \<in> set xs \<Longrightarrow> h a = h' a"
  shows "mlist h p xs = mlist h' p xs"
proof -
  have "npath h p xs 0 = npath h' p xs 0" using assms by (intro npath_cong) simp
  moreover have "xs \<noteq> [] \<Longrightarrow> h (hd xs) = h' (hd xs)" using assms by simp
  ultimately show ?thesis by (auto simp: mlist_def)
qed

text \<open>Appending a node that is in neither list.\<close>

lemma add_tail_ok:
  assumes l: "mlist h p xs" and x: "x \<notin> set xs" "x \<noteq> 0" "h x = Some n"
  shows "\<exists>h' p'. add_tail h p x = Some (h', p') \<and> mlist h' p' (xs @ [x]) \<and> payload h' = payload h
    \<and> (\<forall>a. a \<notin> set xs \<longrightarrow> a \<noteq> x \<longrightarrow> h' a = h a) \<and> p' = (if p = 0 then x else p)"
proof (cases "p = 0")
  case True
  then have "xs = []" using mlist_empty [OF l] by simp
  then show ?thesis
    using x True
    by (intro exI [of _ "h(x \<mapsto> n\<lparr>mn_prev := x, mn_next := 0\<rparr>)"] exI [of _ x])
       (auto simp: add_tail_def mn_update_def mlist_def payload_def fun_eq_iff)
next
  case False
  define z where "z = last xs"
  have ne: "xs \<noteq> []" using False mlist_empty [OF l] by simp
  have path: "npath h p xs 0" and dist: "distinct xs" using l by (simp_all add: mlist_def)
  have p: "p = hd xs" using path ne by (cases xs) auto
  obtain c where c: "h p = Some c" "mn_prev c = z" using l ne p by (auto simp: mlist_def z_def)
  have zin: "z \<in> set xs" "p \<in> set xs" using ne p by (simp_all add: z_def)
  have zx: "z \<noteq> x" "p \<noteq> x" using zin x(1) by auto
  obtain b where b: "h z = Some b" "z \<noteq> 0" using npath_nodes [OF path zin(1)] by auto
  define h1 where "h1 = h(x \<mapsto> n\<lparr>mn_prev := z, mn_next := 0\<rparr>)"
  define h2 where "h2 = h1(z \<mapsto> b\<lparr>mn_next := x\<rparr>)"
  define c2 where "c2 = (if p = z then b\<lparr>mn_next := x\<rparr> else c)"
  define h3 where "h3 = h2(p \<mapsto> c2\<lparr>mn_prev := x\<rparr>)"
  have steps: "add_tail h p x = Some (h3, p)"
    using False x c b zx
    by (simp add: add_tail_def mn_update_def h1_def h2_def h3_def c2_def)
  have cb: "p = z \<Longrightarrow> c = b" using c(1) b(1) by simp
  have nx: "map_option mn_next (h3 a) =
      (if a = x then Some 0 else if a = z then Some x else map_option mn_next (h a))" for a
    using zx c b cb by (auto simp: h3_def h2_def h1_def c2_def)
  have pay: "payload h3 = payload h"
    using zx x(3) c b cb by (auto simp: fun_eq_iff payload_def h3_def h2_def h1_def c2_def)
  obtain ys where ys: "xs = ys @ [z]" using ne by (metis append_butlast_last_id z_def)
  have "npath h p ys z" using path unfolding ys by (auto simp: npath_append)
  moreover have "npath h3 p ys z = npath h p ys z"
  proof (rule npath_cong)
    fix a assume "a \<in> set ys"
    moreover have "x \<notin> set ys" using x(1) by (subst (asm) ys) simp
    moreover have "z \<notin> set ys" using dist by (subst (asm) ys) simp
    ultimately have "a \<noteq> x" "a \<noteq> z" by auto
    then show "map_option mn_next (h3 a) = map_option mn_next (h a)" using nx [of a] by simp
  qed
  moreover have "npath h3 z [z] x" using nx [of z] zx b(2) by auto
  moreover have "npath h3 x [x] 0" using nx [of x] x(2) by auto
  ultimately have "npath h3 p ((ys @ [z]) @ [x]) 0" unfolding npath_append by blast
  then have "npath h3 p (xs @ [x]) 0" using ys by simp
  moreover have "map_option mn_prev (h3 (hd (xs @ [x]))) = Some (last (xs @ [x]))"
    using ne p by (simp add: h3_def)
  ultimately have "mlist h3 p (xs @ [x])" using dist x(1) by (simp add: mlist_def)
  moreover have "\<forall>a. a \<notin> set xs \<longrightarrow> a \<noteq> x \<longrightarrow> h3 a = h a"
    using zin by (auto simp: h3_def h2_def h1_def)
  ultimately show ?thesis using steps pay False by auto
qed

lemma remove_head_ok:
  assumes l: "mlist h p (x # xs)"
  shows "\<exists>h' p'. remove_head h p = Some (h', p') \<and> mlist h' p' xs \<and> payload h' = payload h
    \<and> (\<forall>a. a \<notin> set (x # xs) \<longrightarrow> h' a = h a) \<and> h' x \<noteq> None"
proof -
  obtain c where c: "p = x" "x \<noteq> 0" "h x = Some c" "npath h (mn_next c) xs 0" "distinct xs" "x \<notin> set xs"
    and prev: "mn_prev c = last (x # xs)"
    using l by (auto simp: mlist_def)
  show ?thesis
  proof (cases xs)
    case Nil
    then show ?thesis using c by (auto simp: remove_head_def mlist_def)
  next
    case (Cons y ys)
    then obtain d where d: "mn_next c = y" "y \<noteq> 0" "h y = Some d" using c by auto
    define h1 where "h1 = h(y \<mapsto> d\<lparr>mn_prev := mn_prev c\<rparr>)"
    have xy: "x \<noteq> y" using c(6) Cons by auto
    have "remove_head h p = Some (h1, y)"
      using c d xy by (simp add: remove_head_def mn_update_def h1_def)
    moreover have "npath h1 (mn_next c) xs 0 = npath h (mn_next c) xs 0"
      using d by (intro npath_cong) (auto simp: h1_def)
    moreover have "map_option mn_prev (h1 (hd xs)) = Some (last xs)"
      using Cons prev by (simp add: h1_def)
    ultimately have "mlist h1 y xs" using c(4,5) d(1) Cons by (simp add: mlist_def)
    moreover have "payload h1 = payload h" using d by (auto simp: payload_def fun_eq_iff h1_def)
    moreover have "\<forall>a. a \<notin> set (x # xs) \<longrightarrow> h1 a = h a" using Cons by (simp add: h1_def)
    moreover have "h1 x \<noteq> None" using c(3) xy by (simp add: h1_def)
    ultimately show ?thesis using \<open>remove_head h p = Some (h1, y)\<close> by blast
  qed
qed

section \<open>Invariant and content\<close>

fun mwalk :: "ms_heap \<Rightarrow> u32 \<Rightarrow> nat \<Rightarrow> u32 list" where
  "mwalk h p 0 = []"
| "mwalk h p (Suc k) = (if p = 0 then [] else case h p of None \<Rightarrow> [] | Some n \<Rightarrow> p # mwalk h (mn_next n) k)"

lemma mwalk_npath: "npath h p xs 0 \<Longrightarrow> length xs \<le> k \<Longrightarrow> mwalk h p k = xs"
proof (induction xs arbitrary: p k)
  case Nil
  then show ?case by (cases k) auto
next
  case (Cons x xs)
  then show ?case by (cases k) auto
qed

text \<open>The free nodes, the used nodes, and the messages in the queue.\<close>

definition free_nodes :: "ms_queue \<Rightarrow> u32 list" where
  "free_nodes q = mwalk (mq_heap q) (mq_pFree q) (unat (mq_maxNum q))"

definition used_nodes :: "ms_queue \<Rightarrow> u32 list" where
  "used_nodes q = mwalk (mq_heap q) (mq_pUsed q) (unat (mq_maxNum q))"

definition msg_of :: "(u32 \<Rightarrow> (u32 \<times> u8 list) option) \<Rightarrow> u32 \<Rightarrow> u8 list" where
  "msg_of pl a = (case pl a of None \<Rightarrow> [] | Some (s, m) \<Rightarrow> take (unat s) m)"

definition mq_msgs :: "ms_queue \<Rightarrow> u8 list list" where
  "mq_msgs q = map (msg_of (payload (mq_heap q))) (used_nodes q)"

definition room_ok :: "u32 \<Rightarrow> (u32 \<Rightarrow> (u32 \<times> u8 list) option) \<Rightarrow> u32 \<Rightarrow> bool" where
  "room_ok mx pl a = (case pl a of None \<Rightarrow> False | Some (s, m) \<Rightarrow> length m = unat (MsOS_MSG_SIZE mx))"

definition size_ok :: "u32 \<Rightarrow> (u32 \<Rightarrow> (u32 \<times> u8 list) option) \<Rightarrow> u32 \<Rightarrow> bool" where
  "size_ok mx pl a = (case pl a of None \<Rightarrow> False | Some (s, m) \<Rightarrow> s \<le> mx)"

text \<open>\<open>lk\<close> counts the free nodes that the send semaphore no longer counts.\<close>

definition mq_rep :: "ms_queue \<Rightarrow> u32 list \<Rightarrow> u32 list \<Rightarrow> nat \<Rightarrow> bool" where
  "mq_rep q fs us lk \<longleftrightarrow>
     mlist (mq_heap q) (mq_pFree q) fs \<and> mlist (mq_heap q) (mq_pUsed q) us
     \<and> set fs \<inter> set us = {} \<and> mq_lock q = 1
     \<and> mq_send q + lk = length fs \<and> mq_recv q = length us
     \<and> length fs + length us = unat (mq_maxNum q) \<and> mq_maxSize q \<le> MAX_SIZE_OF_MSG
     \<and> (\<forall>a \<in> set fs \<union> set us. room_ok (mq_maxSize q) (payload (mq_heap q)) a)
     \<and> (\<forall>a \<in> set us. size_ok (mq_maxSize q) (payload (mq_heap q)) a)"

lemma mq_rep_nodes:
  assumes "mq_rep q fs us lk"
  shows "free_nodes q = fs" "used_nodes q = us"
    "mq_msgs q = map (msg_of (payload (mq_heap q))) us"
  using assms mwalk_npath
  by (auto simp: mq_rep_def free_nodes_def used_nodes_def mq_msgs_def mlist_def)

definition mq_inv :: "ms_queue \<Rightarrow> bool" where
  "mq_inv q \<longleftrightarrow> (\<exists>lk. mq_rep q (free_nodes q) (used_nodes q) lk)"

lemma mq_rep_inv: "mq_rep q fs us lk \<Longrightarrow> mq_inv q"
  using mq_rep_nodes by (auto simp: mq_inv_def)

lemma MSG_SIZE_ge:
  assumes "mx \<le> MAX_SIZE_OF_MSG"
  shows "unat mx \<le> unat (MsOS_MSG_SIZE mx)" "unat (MsOS_MSG_SIZE mx) \<le> 256"
    "unat (MsOS_MSG_SIZE mx) = (unat mx + 3) div 4 * 4"
proof -
  have m: "unat mx \<le> 256" using assms by (simp add: MAX_SIZE_OF_MSG_def word_le_unat)
  have a: "unat (mx + 3) = unat mx + 3" using m by (subst unat_add_exact) simp_all
  have d: "unat (drop_bit 2 (mx + 3)) = (unat mx + 3) div 4"
    by (simp add: drop_bit_eq_div unat_div a)
  have "(unat mx + 3) div 4 \<le> 64" using m by linarith
  then have p: "unat (push_bit 2 (drop_bit 2 (mx + 3))) = (unat mx + 3) div 4 * 4"
    by (simp add: push_bit_eq_mult unat_word_ariths d)
  then show "unat (MsOS_MSG_SIZE mx) = (unat mx + 3) div 4 * 4" by (simp add: MsOS_MSG_SIZE_def)
  then show "unat mx \<le> unat (MsOS_MSG_SIZE mx)" "unat (MsOS_MSG_SIZE mx) \<le> 256"
    using \<open>(unat mx + 3) div 4 \<le> 64\<close> by linarith+
qed

section \<open>List operations under the lock\<close>

lemma add_locked_free:
  assumes "mq_lock q = 1" "add_tail (mq_heap q) (mq_pFree q) x = Some (h, p)"
  shows "add_locked True x q = Some (q\<lparr>mq_heap := h, mq_pFree := p\<rparr>)"
  using assms
  by (cases q) (simp add: add_locked_def locked_def MsOS_ObtainSemaphore_def MsOS_ReleaseSemaphore_def
      AddToListTail_def)

lemma add_locked_used:
  assumes "mq_lock q = 1" "add_tail (mq_heap q) (mq_pUsed q) x = Some (h, p)"
  shows "add_locked False x q = Some (q\<lparr>mq_heap := h, mq_pUsed := p\<rparr>)"
  using assms
  by (cases q) (simp add: add_locked_def locked_def MsOS_ObtainSemaphore_def MsOS_ReleaseSemaphore_def
      AddToListTail_def)

lemma claim_step:
  assumes "mq_lock q = 1" "0 < mq_send q" "remove_head (mq_heap q) (mq_pFree q) = Some (h, p)"
  shows "QueueClaim q w = Some (q\<lparr>mq_send := mq_send q - 1, mq_heap := h, mq_pFree := p\<rparr>, mq_pFree q)"
  using assms
  by (cases q) (simp add: QueueClaim_def locked_def MsOS_ObtainSemaphore_def MsOS_ReleaseSemaphore_def
      RemoveFromListHead_def)

lemma recv_step:
  assumes "mq_lock q = 1" "0 < mq_recv q" "remove_head (mq_heap q) (mq_pUsed q) = Some (h, p)"
  shows "QueueRecv q w = Some (q\<lparr>mq_recv := mq_recv q - 1, mq_heap := h, mq_pUsed := p\<rparr>, mq_pUsed q)"
  using assms
  by (cases q) (simp add: QueueRecv_def locked_def MsOS_ObtainSemaphore_def MsOS_ReleaseSemaphore_def
      RemoveFromListHead_def)

text \<open>Taking the first node of the free list.\<close>

lemma claim_ok:
  assumes rep: "mq_rep q fs us lk" and s: "0 < mq_send q"
  shows "\<exists>q1 x fs1. fs = x # fs1 \<and> QueueClaim q w = Some (q1, x) \<and> x \<noteq> 0
    \<and> mlist (mq_heap q1) (mq_pFree q1) fs1 \<and> mlist (mq_heap q1) (mq_pUsed q1) us
    \<and> payload (mq_heap q1) = payload (mq_heap q) \<and> mq_heap q1 x \<noteq> None
    \<and> mq_lock q1 = 1 \<and> mq_send q1 = mq_send q - 1 \<and> mq_recv q1 = mq_recv q
    \<and> mq_maxNum q1 = mq_maxNum q \<and> mq_maxSize q1 = mq_maxSize q"
proof -
  have r: "mlist (mq_heap q) (mq_pFree q) fs" "mlist (mq_heap q) (mq_pUsed q) us"
    "set fs \<inter> set us = {}" "mq_lock q = 1" "fs \<noteq> []"
    using rep s by (auto simp: mq_rep_def)
  then obtain x fs1 where fs: "fs = x # fs1" by (cases fs) auto
  have x: "mq_pFree q = x" "x \<noteq> 0" using r(1) fs by (auto simp: mlist_def)
  obtain h p where h: "remove_head (mq_heap q) (mq_pFree q) = Some (h, p)" "mlist h p fs1"
      "payload h = payload (mq_heap q)" "\<forall>a. a \<notin> set (x # fs1) \<longrightarrow> h a = mq_heap q a" "h x \<noteq> None"
    using remove_head_ok [of "mq_heap q" "mq_pFree q" x fs1] r(1) fs by auto
  have "mlist h (mq_pUsed q) us = mlist (mq_heap q) (mq_pUsed q) us"
    using h(4) r(3) fs by (intro mlist_cong) auto
  then show ?thesis using claim_step [OF r(4) s h(1)] h r(2,4) x fs by auto
qed

section \<open>Sending\<close>

lemma map_msg_cong:
  "(\<And>a. a \<in> set us \<Longrightarrow> pl a = pl' a) \<Longrightarrow> map (msg_of pl) us = map (msg_of pl') us"
  by (simp add: msg_of_def)

text \<open>A message that fits, with a free node counted by the semaphore: it is queued last.\<close>

lemma MsOS_SendToQueue_ok:
  assumes rep: "mq_rep q fs us lk" and s: "0 < mq_send q"
    and sz: "u32Size \<le> mq_maxSize q" "unat u32Size \<le> length m"
  shows "\<exists>q' x fs1. fs = x # fs1 \<and> MsOS_SendToQueue q m u32Size w = Some (q', True)
    \<and> mq_rep q' fs1 (us @ [x]) lk \<and> mq_msgs q' = mq_msgs q @ [take (unat u32Size) m]
    \<and> mq_maxNum q' = mq_maxNum q \<and> mq_maxSize q' = mq_maxSize q
    \<and> mq_send q' = mq_send q - 1 \<and> mq_recv q' = mq_recv q + 1"
proof -
  obtain q1 x fs1 where fs: "fs = x # fs1" and c: "QueueClaim q w = Some (q1, x)" "x \<noteq> 0"
    and l: "mlist (mq_heap q1) (mq_pFree q1) fs1" "mlist (mq_heap q1) (mq_pUsed q1) us"
    and pl: "payload (mq_heap q1) = payload (mq_heap q)" and hx: "mq_heap q1 x \<noteq> None"
    and k: "mq_lock q1 = 1" "mq_send q1 = mq_send q - 1" "mq_recv q1 = mq_recv q"
      "mq_maxNum q1 = mq_maxNum q" "mq_maxSize q1 = mq_maxSize q"
    using claim_ok [OF rep s] by blast
  have d: "x \<notin> set fs1" "x \<notin> set us" "set fs1 \<inter> set us = {}"
    using rep fs by (auto simp: mq_rep_def mlist_def)
  obtain n where n: "mq_heap q1 x = Some n" using hx by blast
  have mx: "mq_maxSize q \<le> MAX_SIZE_OF_MSG" using rep by (simp add: mq_rep_def)
  have pln: "payload (mq_heap q) x = Some (mn_size n, mn_msg n)"
    using n by (simp add: pl [symmetric] payload_def)
  have len: "length (mn_msg n) = unat (MsOS_MSG_SIZE (mq_maxSize q))"
    using rep fs pln by (auto simp: mq_rep_def room_ok_def)
  have le: "unat u32Size \<le> length (mn_msg n)"
    using MSG_SIZE_ge(1) [OF mx] sz(1) len by (simp add: word_le_unat)
  let ?m = "blit (mn_msg n) 0 (take (unat u32Size) m)"
  have cp: "mem_copy (mn_msg n) 0 m 0 (unat u32Size) = Some ?m"
    using le sz(2) by (simp add: mem_copy_def mem_slice_0)
  have lm: "length ?m = length (mn_msg n)" using le sz(2) by simp
  have tm: "take (unat u32Size) ?m = take (unat u32Size) m" using sz(2) by (simp add: blit_def)
  define h2 where "h2 = (mq_heap q1)(x \<mapsto> n\<lparr>mn_msg := ?m, mn_size := u32Size\<rparr>)"
  have l2: "mlist h2 (mq_pFree q1) fs1" "mlist h2 (mq_pUsed q1) us"
    using l d by (auto simp: h2_def elim!: iffD1 [OF mlist_cong, rotated])
  have pl2: "payload h2 = (payload (mq_heap q))(x \<mapsto> (u32Size, ?m))"
    by (auto simp: h2_def payload_def pl [symmetric] fun_eq_iff)
  obtain h3 p3 where h3: "add_tail h2 (mq_pUsed q1) x = Some (h3, p3)" "mlist h3 p3 (us @ [x])"
      "payload h3 = payload h2" "\<forall>a. a \<notin> set us \<longrightarrow> a \<noteq> x \<longrightarrow> h3 a = h2 a"
    using add_tail_ok [OF l2(2) d(2) c(2)] by (auto simp: h2_def)
  have l3: "mlist h3 (mq_pFree q1) fs1"
    using l2(1) h3(4) d by (subst mlist_cong [of _ _ h2]) auto
  define q' where "q' = q1\<lparr>mq_heap := h3, mq_pUsed := p3, mq_recv := mq_recv q + 1\<rparr>"
  have "QueueSend (q1\<lparr>mq_heap := h2\<rparr>) x = Some (q', True)"
    using add_locked_used [of "q1\<lparr>mq_heap := h2\<rparr>" x h3 p3] h3(1) k(1,3) c(2)
    by (simp add: QueueSend_def q'_def MsOS_ReleaseSemaphore_def)
  then have "MsOS_SendToQueue q m u32Size w = Some (q', True)"
    using c n cp sz(1) k(5) by (simp add: MsOS_SendToQueue_def h2_def)
  moreover have rep': "mq_rep q' fs1 (us @ [x]) lk"
  proof -
    have pl3: "payload h3 a = (if a = x then Some (u32Size, ?m) else payload (mq_heap q) a)" for a
      using h3(3) pl2 by simp
    have "room_ok (mq_maxSize q) (payload h3) a" if "a \<in> set fs1 \<union> set (us @ [x])" for a
    proof (cases "a = x")
      case True
      then show ?thesis using pl3 [of x] lm len by (simp add: room_ok_def)
    next
      case False
      then have "a \<in> set fs \<union> set us" using that fs by auto
      then have "room_ok (mq_maxSize q) (payload (mq_heap q)) a" using rep by (simp add: mq_rep_def)
      then show ?thesis using pl3 [of a] False by (simp add: room_ok_def)
    qed
    moreover have "size_ok (mq_maxSize q) (payload h3) a" if "a \<in> set (us @ [x])" for a
    proof (cases "a = x")
      case True
      then show ?thesis using pl3 [of x] sz(1) by (simp add: size_ok_def)
    next
      case False
      then have "size_ok (mq_maxSize q) (payload (mq_heap q)) a" using that rep by (simp add: mq_rep_def)
      then show ?thesis using pl3 [of a] False by (simp add: size_ok_def)
    qed
    moreover have "mq_send q + lk = length fs" "mq_recv q = length us"
      "length fs + length us = unat (mq_maxNum q)" "mq_maxSize q \<le> MAX_SIZE_OF_MSG"
      using rep by (simp_all add: mq_rep_def)
    ultimately show ?thesis
      using h3(2) l3 d k s fs by (simp add: mq_rep_def q'_def)
  qed
  moreover have "mq_msgs q' = mq_msgs q @ [take (unat u32Size) m]"
  proof -
    have "map (msg_of (payload h3)) us = map (msg_of (payload (mq_heap q))) us"
      using d(2) h3(3) pl2 by (intro map_msg_cong) auto
    moreover have "msg_of (payload h3) x = take (unat u32Size) m"
      using h3(3) pl2 tm by (simp add: msg_of_def)
    ultimately show ?thesis
      using mq_rep_nodes(3) [OF rep] mq_rep_nodes(3) [OF rep'] by (simp add: q'_def)
  qed
  ultimately show ?thesis using fs k s by (auto simp: q'_def)
qed

text \<open>A message that is too long: the node goes back to the free list, but the semaphore that
  was taken for it is not given back.\<close>

lemma MsOS_SendToQueue_oversize:
  assumes rep: "mq_rep q fs us lk" and s: "0 < mq_send q" and sz: "mq_maxSize q < u32Size"
  shows "\<exists>q' fs'. MsOS_SendToQueue q m u32Size w = Some (q', False)
    \<and> mq_rep q' fs' us (lk + 1) \<and> mq_msgs q' = mq_msgs q
    \<and> mq_maxNum q' = mq_maxNum q \<and> mq_maxSize q' = mq_maxSize q
    \<and> mq_send q' = mq_send q - 1 \<and> mq_recv q' = mq_recv q"
proof -
  obtain q1 x fs1 where fs: "fs = x # fs1" and c: "QueueClaim q w = Some (q1, x)" "x \<noteq> 0"
    and l: "mlist (mq_heap q1) (mq_pFree q1) fs1" "mlist (mq_heap q1) (mq_pUsed q1) us"
    and pl: "payload (mq_heap q1) = payload (mq_heap q)" and hx: "mq_heap q1 x \<noteq> None"
    and k: "mq_lock q1 = 1" "mq_send q1 = mq_send q - 1" "mq_recv q1 = mq_recv q"
      "mq_maxNum q1 = mq_maxNum q" "mq_maxSize q1 = mq_maxSize q"
    using claim_ok [OF rep s] by blast
  have d: "x \<notin> set fs1" "x \<notin> set us" "set fs1 \<inter> set us = {}"
    using rep fs by (auto simp: mq_rep_def mlist_def)
  obtain n where n: "mq_heap q1 x = Some n" using hx by blast
  obtain h3 p3 where h3: "add_tail (mq_heap q1) (mq_pFree q1) x = Some (h3, p3)" "mlist h3 p3 (fs1 @ [x])"
      "payload h3 = payload (mq_heap q1)" "\<forall>a. a \<notin> set fs1 \<longrightarrow> a \<noteq> x \<longrightarrow> h3 a = mq_heap q1 a"
    using add_tail_ok [OF l(1) d(1) c(2) n] by auto
  have l3: "mlist h3 (mq_pUsed q1) us"
    using l(2) h3(4) d by (subst mlist_cong [of _ _ "mq_heap q1"]) auto
  define q' where "q' = q1\<lparr>mq_heap := h3, mq_pFree := p3\<rparr>"
  have "MsOS_SendToQueue q m u32Size w = Some (q', False)"
    using c sz k(5) add_locked_free [OF k(1) h3(1)]
    by (simp add: MsOS_SendToQueue_def q'_def not_le [symmetric])
  moreover have rep': "mq_rep q' (fs1 @ [x]) us (lk + 1)"
    using rep fs h3(2,3) l3 d k pl s by (auto simp: mq_rep_def q'_def)
  moreover have "mq_msgs q' = mq_msgs q"
    using mq_rep_nodes(3) [OF rep] mq_rep_nodes(3) [OF rep'] h3(3) pl by (simp add: q'_def)
  ultimately show ?thesis using k by (auto simp: q'_def)
qed

lemma MsOS_SendToQueue_none:
  assumes "mq_send q = 0"
  shows "MsOS_SendToQueue q m sz w = (if w = MSOS_WAIT_FOREVER then None else Some (q, False))"
  using assms by (simp add: MsOS_SendToQueue_def QueueClaim_def MsOS_ObtainSemaphore_def)

section \<open>Receiving\<close>

lemma MsOS_RecvFromQueue_ok:
  assumes rep: "mq_rep q fs (x # us) lk"
  shows "\<exists>q'. MsOS_RecvFromQueue q u32IntendedSize w
      = Some (q', Some (take (unat u32IntendedSize) (hd (mq_msgs q))))
    \<and> mq_rep q' (fs @ [x]) us lk \<and> mq_msgs q' = tl (mq_msgs q)
    \<and> mq_maxNum q' = mq_maxNum q \<and> mq_maxSize q' = mq_maxSize q
    \<and> mq_send q' = mq_send q + 1 \<and> mq_recv q' = mq_recv q - 1"
proof -
  have r: "mlist (mq_heap q) (mq_pFree q) fs" "mlist (mq_heap q) (mq_pUsed q) (x # us)"
    "set fs \<inter> set (x # us) = {}" "mq_lock q = 1" "0 < mq_recv q" "mq_recv q = Suc (length us)"
    "mq_maxSize q \<le> MAX_SIZE_OF_MSG"
    using rep by (auto simp: mq_rep_def)
  have x: "mq_pUsed q = x" "x \<noteq> 0" "x \<notin> set us" "x \<notin> set fs" using r(2,3) by (auto simp: mlist_def)
  obtain h p where h: "remove_head (mq_heap q) (mq_pUsed q) = Some (h, p)" "mlist h p us"
      "payload h = payload (mq_heap q)" "\<forall>a. a \<notin> set (x # us) \<longrightarrow> h a = mq_heap q a" "h x \<noteq> None"
    using remove_head_ok [OF r(2)] by blast
  have lf: "mlist h (mq_pFree q) fs"
    using r(1,3) h(4) by (subst mlist_cong [of _ _ "mq_heap q"]) auto
  obtain n where n: "h x = Some n" using h(5) by blast
  have pl: "payload (mq_heap q) x = Some (mn_size n, mn_msg n)"
    using n h(3) by (metis (no_types, lifting) option.simps(9) payload_def)
  have nl: "length (mn_msg n) = unat (MsOS_MSG_SIZE (mq_maxSize q))" "mn_size n \<le> mq_maxSize q"
    using rep pl by (auto simp: mq_rep_def room_ok_def size_ok_def)
  have fit: "unat (mn_size n) \<le> length (mn_msg n)"
    using MSG_SIZE_ge(1) [OF r(7)] nl by (simp add: word_le_unat)
  have hd: "hd (mq_msgs q) = take (unat (mn_size n)) (mn_msg n)"
    using mq_rep_nodes(3) [OF rep] pl by (simp add: msg_of_def)
  have cp: "copy_msg n u32IntendedSize = Some (take (unat u32IntendedSize) (hd (mq_msgs q)))"
    using fit by (auto simp: copy_msg_def mem_read_def mem_slice_0 hd word_le_unat min_def)
  let ?q1 = "q\<lparr>mq_recv := mq_recv q - 1, mq_heap := h, mq_pUsed := p\<rparr>"
  have rc: "QueueRecv q w = Some (?q1, x)" using recv_step [OF r(4,5) h(1)] x(1) by simp
  obtain h3 p3 where h3: "add_tail h (mq_pFree q) x = Some (h3, p3)" "mlist h3 p3 (fs @ [x])"
      "payload h3 = payload h" "\<forall>a. a \<notin> set fs \<longrightarrow> a \<noteq> x \<longrightarrow> h3 a = h a"
    using add_tail_ok [OF lf x(4,2) n] by auto
  have lu: "mlist h3 p us"
    using h(2) h3(4) r(3) x(3) by (subst mlist_cong [of _ _ h]) auto
  define q' where "q' = ?q1\<lparr>mq_heap := h3, mq_pFree := p3, mq_send := mq_send q + 1\<rparr>"
  have "QueueFree ?q1 x = Some (q', True)"
    using add_locked_free [of ?q1 x h3 p3] h3(1) r(4) x(2)
    by (simp add: QueueFree_def q'_def MsOS_ReleaseSemaphore_def)
  then have "MsOS_RecvFromQueue q u32IntendedSize w
      = Some (q', Some (take (unat u32IntendedSize) (hd (mq_msgs q))))"
    using rc x(2) n cp by (simp add: MsOS_RecvFromQueue_def)
  moreover have rep': "mq_rep q' (fs @ [x]) us lk"
    using rep h3(2,3) h(3) lu r(3,6) x by (auto simp: mq_rep_def q'_def)
  moreover have "mq_msgs q' = tl (mq_msgs q)"
    using mq_rep_nodes(3) [OF rep] mq_rep_nodes(3) [OF rep'] h3(3) h(3) by (simp add: q'_def)
  ultimately show ?thesis by (auto simp: q'_def)
qed

lemma MsOS_RecvFromQueue_none:
  assumes "mq_rep q fs [] lk"
  shows "MsOS_RecvFromQueue q sz w = (if w = MSOS_WAIT_FOREVER then None else Some (q, None))"
  using assms by (simp add: mq_rep_def MsOS_RecvFromQueue_def QueueRecv_def MsOS_ObtainSemaphore_def)

text \<open>The peek shows what the next receive returns.\<close>

lemma MsOS_PeekFromQueue_ok:
  assumes rep: "mq_rep q fs us lk"
  shows "MsOS_PeekFromQueue q sz
    = Some (if us = [] then None else Some (take (unat sz) (hd (mq_msgs q))))"
proof (cases us)
  case Nil
  then show ?thesis using rep by (simp add: MsOS_PeekFromQueue_def mq_rep_def mlist_def)
next
  case (Cons x us')
  obtain n where n: "mq_pUsed q = x" "x \<noteq> 0" "mq_heap q x = Some n"
    using rep Cons by (auto simp: mq_rep_def mlist_def)
  then have pl: "payload (mq_heap q) x = Some (mn_size n, mn_msg n)" by (simp add: payload_def)
  have nl: "length (mn_msg n) = unat (MsOS_MSG_SIZE (mq_maxSize q))" "mn_size n \<le> mq_maxSize q"
    "mq_maxSize q \<le> MAX_SIZE_OF_MSG"
    using rep pl Cons by (auto simp: mq_rep_def room_ok_def size_ok_def)
  have fit: "unat (mn_size n) \<le> length (mn_msg n)"
    using MSG_SIZE_ge(1) [OF nl(3)] nl by (simp add: word_le_unat)
  have hd: "hd (mq_msgs q) = take (unat (mn_size n)) (mn_msg n)"
    using mq_rep_nodes(3) [OF rep] pl Cons by (simp add: msg_of_def)
  have "copy_msg n sz = Some (take (unat sz) (hd (mq_msgs q)))"
    using fit by (auto simp: copy_msg_def mem_read_def mem_slice_0 hd word_le_unat min_def)
  then show ?thesis using n Cons by (simp add: MsOS_PeekFromQueue_def)
qed

section \<open>Node addresses\<close>

text \<open>The block of nodes fits into the address space and does not start at 0.\<close>

definition block_ok :: "u32 \<Rightarrow> u32 \<Rightarrow> u32 \<Rightarrow> bool" where
  "block_ok base num mx \<longleftrightarrow> 0 < base \<and> mx \<le> MAX_SIZE_OF_MSG
     \<and> unat base + (12 + unat (MsOS_MSG_SIZE mx)) * unat num < 2 ^ 32"

definition node_addr :: "u32 \<Rightarrow> u32 \<Rightarrow> nat \<Rightarrow> u32" where
  "node_addr base mx i = base + MsOS_MSG_NODE_SIZE mx * word_of_nat i"

lemma NODE_SIZE_nat:
  "mx \<le> MAX_SIZE_OF_MSG \<Longrightarrow> unat (MsOS_MSG_NODE_SIZE mx) = 12 + unat (MsOS_MSG_SIZE mx)"
  using MSG_SIZE_ge(2) [of mx]
  by (simp add: MsOS_MSG_NODE_SIZE_def MsOS_MSG_NODE_HEAD_SIZE_def word_nat)

lemma node_addr_nat:
  assumes b: "block_ok base num mx" and i: "i \<le> unat num"
  shows "unat (node_addr base mx i) = unat base + (12 + unat (MsOS_MSG_SIZE mx)) * i"
proof -
  let ?z = "12 + unat (MsOS_MSG_SIZE mx)"
  have mx: "mx \<le> MAX_SIZE_OF_MSG" and lt: "unat base + ?z * unat num < 2 ^ 32"
    using b by (simp_all add: block_ok_def)
  have "?z * i \<le> ?z * unat num" using i by (rule mult_le_mono2)
  then have zi: "unat base + ?z * i < 2 ^ 32" using lt by linarith
  have "unat num < 2 ^ 32" using unsigned_less [of num] by simp
  with i have "i < 2 ^ 32" by linarith
  then have "unat (word_of_nat i :: u32) = i" by (simp add: unat_of_nat_exact)
  then have "unat (MsOS_MSG_NODE_SIZE mx * word_of_nat i) = ?z * i"
    using zi by (simp add: unat_word_ariths NODE_SIZE_nat [OF mx])
  then show ?thesis using zi by (simp add: node_addr_def word_nat)
qed

lemma node_addr_inj:
  assumes "block_ok base num mx" "i \<le> unat num" "j \<le> unat num" "node_addr base mx i = node_addr base mx j"
  shows "i = j"
proof -
  have "unat (node_addr base mx i) = unat (node_addr base mx j)" using assms(4) by (rule arg_cong)
  then have "(12 + unat (MsOS_MSG_SIZE mx)) * i = (12 + unat (MsOS_MSG_SIZE mx)) * j"
    unfolding node_addr_nat [OF assms(1,2)] node_addr_nat [OF assms(1,3)] by (rule add_left_imp_eq)
  then show ?thesis by (simp only: mult_cancel1) simp
qed

lemma node_addr_nz:
  assumes "block_ok base num mx" "i \<le> unat num"
  shows "node_addr base mx i \<noteq> 0"
  using node_addr_nat [OF assms] assms(1) by (auto simp: block_ok_def word_less_unat)

lemma getNodeByIndex_addr:
  assumes "i < unat (mq_maxNum q)"
  shows "getNodeByIndex q (word_of_nat i) = node_addr (mq_pMsgList q) (mq_maxSize q) i"
proof -
  have "unat (mq_maxNum q) < 2 ^ 32" using unsigned_less [of "mq_maxNum q"] by simp
  with assms have "i < 2 ^ 32" by linarith
  then show ?thesis
    using assms by (simp add: getNodeByIndex_def node_addr_def word_less_unat unat_of_nat_exact)
qed

text \<open>Going from a node to its message buffer and back.\<close>

lemma getNodeByMsg_index:
  assumes b: "block_ok (mq_pMsgList q) (mq_maxNum q) (mq_maxSize q)" and i: "i < unat (mq_maxNum q)"
  shows "getNodeByMsg q (getNodeByIndex q (word_of_nat i) + MsOS_MSG_NODE_HEAD_SIZE)
    = getNodeByIndex q (word_of_nat i)"
proof -
  let ?base = "mq_pMsgList q" and ?mx = "mq_maxSize q" and ?num = "mq_maxNum q"
  let ?z = "12 + unat (MsOS_MSG_SIZE ?mx)" and ?a = "node_addr ?base ?mx i"
  have mx: "?mx \<le> MAX_SIZE_OF_MSG" and lt: "unat ?base + ?z * unat ?num < 2 ^ 32"
    using b by (simp_all add: block_ok_def)
  have le: "?z * i + ?z \<le> ?z * unat ?num" using mult_le_mono2 [of "Suc i" "unat ?num" ?z] i by simp
  have a: "unat ?a = unat ?base + ?z * i" using node_addr_nat [OF b] i by simp
  have h: "unat (?a + MsOS_MSG_NODE_HEAD_SIZE) = unat ?base + ?z * i + 12"
    using a le lt by (simp add: MsOS_MSG_NODE_HEAD_SIZE_def word_nat)
  have bh: "unat (?base + MsOS_MSG_NODE_HEAD_SIZE) = unat ?base + 12"
    using le lt by (simp add: MsOS_MSG_NODE_HEAD_SIZE_def word_nat)
  have hm: "unat (?a + MsOS_MSG_NODE_HEAD_SIZE + MsOS_MSG_SIZE ?mx) = unat ?base + ?z * i + ?z"
    using h le lt by (simp add: word_nat)
  have qs: "unat (MsOS_MSG_QUEUE_SIZE ?num ?mx) = ?z * unat ?num"
    using lt by (simp add: MsOS_MSG_QUEUE_SIZE_def unat_word_ariths NODE_SIZE_nat [OF mx])
  have e: "unat (?base + MsOS_MSG_QUEUE_SIZE ?num ?mx) = unat ?base + ?z * unat ?num"
    using lt qs by (simp add: word_nat)
  have off: "unat (?a + MsOS_MSG_NODE_HEAD_SIZE - MsOS_MSG_NODE_HEAD_SIZE - ?base) = ?z * i"
    using a by (simp add: word_nat)
  have "unat ((?a + MsOS_MSG_NODE_HEAD_SIZE - MsOS_MSG_NODE_HEAD_SIZE - ?base) mod MsOS_MSG_NODE_SIZE ?mx) = 0"
    unfolding unat_mod_exact off NODE_SIZE_nat [OF mx] by simp
  then have "(?a + MsOS_MSG_NODE_HEAD_SIZE - MsOS_MSG_NODE_HEAD_SIZE - ?base) mod MsOS_MSG_NODE_SIZE ?mx = 0"
    by (simp only: unat_eq_zero)
  moreover have "?a + MsOS_MSG_NODE_HEAD_SIZE \<noteq> 0" using h by (metis add_is_0 unat_0 zero_neq_numeral)
  moreover have "\<not> ?a + MsOS_MSG_NODE_HEAD_SIZE < ?base + MsOS_MSG_NODE_HEAD_SIZE"
    using h bh by (simp add: word_less_unat)
  moreover have "\<not> ?a + MsOS_MSG_NODE_HEAD_SIZE + MsOS_MSG_SIZE ?mx > ?base + MsOS_MSG_QUEUE_SIZE ?num ?mx"
    using hm e le by (simp add: word_less_unat)
  ultimately show ?thesis unfolding getNodeByIndex_addr [OF i] by (simp add: getNodeByMsg_def)
qed

section \<open>A new queue\<close>

lemma add_nodes_ok:
  assumes b: "block_ok (mq_pMsgList q) (mq_maxNum q) (mq_maxSize q)"
    and l: "mlist (mq_heap q) (mq_pFree q) (map (node_addr (mq_pMsgList q) (mq_maxSize q)) [0..<k])"
    and n: "k + j \<le> unat (mq_maxNum q)"
    and h: "\<forall>i < unat (mq_maxNum q). mq_heap q (node_addr (mq_pMsgList q) (mq_maxSize q) i) \<noteq> None"
  shows "\<exists>h p. add_nodes q [k..<k + j] = Some (q\<lparr>mq_heap := h, mq_pFree := p\<rparr>)
    \<and> mlist h p (map (node_addr (mq_pMsgList q) (mq_maxSize q)) [0..<k + j])
    \<and> payload h = payload (mq_heap q)"
  using assms
proof (induction j arbitrary: q k)
  case 0
  then show ?case by (intro exI [of _ "mq_heap q"] exI [of _ "mq_pFree q"]) simp
next
  case (Suc j)
  let ?addr = "node_addr (mq_pMsgList q) (mq_maxSize q)"
  let ?x = "?addr k"
  have k: "k < unat (mq_maxNum q)" using Suc.prems(3) by simp
  have notin: "?x \<notin> set (map ?addr [0..<k])"
  proof
    assume "?x \<in> set (map ?addr [0..<k])"
    then obtain i where i: "i < k" "?addr k = ?addr i" by auto
    have "k = i" by (rule node_addr_inj [OF Suc.prems(1) _ _ i(2)]) (use i k in simp_all)
    then show False using i by simp
  qed
  obtain n where hx: "mq_heap q ?x = Some n" using Suc.prems(4) k by blast
  obtain h1 p1 where h1: "add_tail (mq_heap q) (mq_pFree q) ?x = Some (h1, p1)"
      "mlist h1 p1 (map ?addr [0..<k] @ [?x])" "payload h1 = payload (mq_heap q)"
    using add_tail_ok [OF Suc.prems(2) notin _ hx] node_addr_nz [OF Suc.prems(1), of k] k by auto
  let ?q = "q\<lparr>mq_heap := h1, mq_pFree := p1\<rparr>"
  have dom: "h1 a \<noteq> None \<longleftrightarrow> mq_heap q a \<noteq> None" for a
    using fun_cong [OF h1(3), of a] by (cases "h1 a"; cases "mq_heap q a") (simp_all add: payload_def)
  have step: "AddToListTail q True (getNodeByIndex q (word_of_nat k)) = Some ?q"
    using h1(1) getNodeByIndex_addr [OF k] by (simp add: AddToListTail_def)
  have IH: "\<exists>h p. add_nodes ?q [Suc k..<Suc k + j] = Some (?q\<lparr>mq_heap := h, mq_pFree := p\<rparr>)
    \<and> mlist h p (map (node_addr (mq_pMsgList ?q) (mq_maxSize ?q)) [0..<Suc k + j])
    \<and> payload h = payload (mq_heap ?q)"
    using Suc.prems h1(2) dom by (intro Suc.IH) simp_all
  have up: "[k..<k + Suc j] = k # [Suc k..<Suc k + j]" by (simp add: upt_rec)
  show ?case using IH step h1(3) unfolding up by auto
qed

lemma MsOS_CreateQueue_ok:
  assumes n: "u32QueueSize \<noteq> 0" and m: "u32MessageSize \<noteq> 0" "u32MessageSize \<le> MAX_SIZE_OF_MSG"
    and b: "block_ok base u32QueueSize u32MessageSize"
  shows "\<exists>q. MsOS_CreateQueue base u32QueueSize u32MessageSize = Some (Some q)
    \<and> mq_rep q (map (node_addr base u32MessageSize) [0..<unat u32QueueSize]) [] 0
    \<and> mq_msgs q = [] \<and> mq_maxNum q = u32QueueSize \<and> mq_maxSize q = u32MessageSize"
proof -
  let ?N = "unat u32QueueSize" and ?addr = "node_addr base u32MessageSize"
  define h0 where "h0 = map_of (map (\<lambda>i. (?addr i, zero_node u32MessageSize)) [0..<?N])"
  define q0 where "q0 = \<lparr>mq_lock = 0, mq_send = 0, mq_recv = 0, mq_maxNum = u32QueueSize,
           mq_maxSize = u32MessageSize, mq_pMsgList = base, mq_pFree = 0, mq_pUsed = 0, mq_heap = h0\<rparr>"
  have dom0: "h0 (?addr i) = Some (zero_node u32MessageSize)" if "i < ?N" for i
    using that map_of_eq_Some_iff [of "map (\<lambda>i. (?addr i, zero_node u32MessageSize)) [0..<?N]"]
      node_addr_inj [OF b]
    by (auto simp: h0_def distinct_map inj_on_def)
  have "\<exists>h p. add_nodes q0 [0..<0 + ?N] = Some (q0\<lparr>mq_heap := h, mq_pFree := p\<rparr>)
    \<and> mlist h p (map (node_addr (mq_pMsgList q0) (mq_maxSize q0)) [0..<0 + ?N])
    \<and> payload h = payload (mq_heap q0)"
    using b dom0 by (intro add_nodes_ok) (auto simp: q0_def mlist_def)
  then obtain h p where h: "add_nodes q0 [0..<?N] = Some (q0\<lparr>mq_heap := h, mq_pFree := p\<rparr>)"
      "mlist h p (map ?addr [0..<?N])" "payload h = payload h0"
    by (auto simp: q0_def)
  define q where "q = q0\<lparr>mq_heap := h, mq_pFree := p, mq_lock := 1, mq_send := ?N, mq_recv := 0\<rparr>"
  have "MsOS_CreateQueue base u32QueueSize u32MessageSize = Some (Some q)"
    using n m h(1)
    by (simp add: MsOS_CreateQueue_def MAX_NUM_OF_MSGS_def MAX_SIZE_OF_MSG_def q_def q0_def h0_def
        node_addr_def)
  moreover have rep: "mq_rep q (map ?addr [0..<?N]) [] 0"
    using h(2,3) m dom0 by (auto simp: mq_rep_def q_def q0_def mlist_def room_ok_def payload_def zero_node_def)
  moreover have "mq_msgs q = []" using mq_rep_nodes(3) [OF rep] by simp
  ultimately show ?thesis by (auto simp: q_def q0_def)
qed

section \<open>A bounded queue\<close>

text \<open>Sending and receiving without waiting.\<close>

definition mq_enq :: "ms_queue \<Rightarrow> u8 list \<Rightarrow> (ms_queue \<times> bool) option" where
  "mq_enq q m = MsOS_SendToQueue q m (word_of_nat (length m)) 0"

definition mq_deq :: "ms_queue \<Rightarrow> (ms_queue \<times> u8 list option) option" where
  "mq_deq q = MsOS_RecvFromQueue q MAX_SIZE_OF_MSG 0"

text \<open>A send to a full queue fails and changes nothing.\<close>

definition refuse :: "u8 list list \<Rightarrow> u8 list \<Rightarrow> u8 list list \<times> bool" where
  "refuse ms m = (ms, False)"

definition mq_cap :: "ms_queue \<Rightarrow> nat" where
  "mq_cap q = mq_send q + mq_recv q"

definition mq_good :: "u32 \<Rightarrow> ms_queue \<Rightarrow> bool" where
  "mq_good mx q \<longleftrightarrow> mq_inv q \<and> mq_maxSize q = mx"

lemma mq_goodE:
  assumes "mq_good mx q"
  obtains lk where "mq_rep q (free_nodes q) (used_nodes q) lk" "mq_maxSize q = mx"
    "length (mq_msgs q) = mq_recv q"
  using assms by (auto simp: mq_good_def mq_inv_def mq_msgs_def mq_rep_def)

lemma mq_msg_le:
  assumes rep: "mq_rep q fs us lk" and m: "m \<in> set (mq_msgs q)"
  shows "length m \<le> 256"
proof -
  obtain a where a: "a \<in> set us" "m = msg_of (payload (mq_heap q)) a"
    using m mq_rep_nodes(3) [OF rep] by auto
  obtain s d where p: "payload (mq_heap q) a = Some (s, d)" "s \<le> mq_maxSize q"
    using rep a(1) by (fastforce simp: mq_rep_def size_ok_def split: option.splits)
  have "unat s \<le> 256"
    using p(2) rep by (simp add: mq_rep_def MAX_SIZE_OF_MSG_def word_le_unat)
  then show ?thesis using a(2) p(1) by (simp add: msg_of_def)
qed

interpretation mqq: bounded_queue "mq_good mx" mq_msgs mq_cap "\<lambda>m. length m \<le> unat mx" refuse mq_enq mq_deq
  for mx
proof unfold_locales
  fix q and m :: "u8 list"
  assume g: "mq_good mx q" and m: "length m \<le> unat mx" and c: "length (mq_msgs q) < mq_cap q"
  from g obtain lk where r: "mq_rep q (free_nodes q) (used_nodes q) lk" "mq_maxSize q = mx"
    "length (mq_msgs q) = mq_recv q" by (rule mq_goodE)
  have "unat mx < 2 ^ 32" using unsigned_less [of mx] by simp
  then have l: "unat (word_of_nat (length m) :: u32) = length m" using m by (simp add: unat_of_nat_exact)
  have "0 < mq_send q" using c r(3) by (simp add: mq_cap_def)
  from MsOS_SendToQueue_ok [OF r(1) this, of "word_of_nat (length m)" m 0] l m r(2)
  show "\<exists>q'. mq_enq q m = Some (q', True) \<and> mq_good mx q' \<and> mq_msgs q' = mq_msgs q @ [m]
      \<and> mq_cap q' = mq_cap q"
    using \<open>0 < mq_send q\<close>
    by (auto simp: mq_enq_def mq_good_def mq_cap_def word_le_unat dest: mq_rep_inv)
next
  fix q and m :: "u8 list"
  assume g: "mq_good mx q" and c: "\<not> length (mq_msgs q) < mq_cap q"
  from g have "length (mq_msgs q) = mq_recv q" by (rule mq_goodE)
  then have "mq_send q = 0" using c by (simp add: mq_cap_def)
  then show "\<exists>q'. mq_enq q m = Some (q', snd (refuse (mq_msgs q) m)) \<and> mq_good mx q'
      \<and> mq_msgs q' = fst (refuse (mq_msgs q) m) \<and> mq_cap q' = mq_cap q"
    using g MsOS_SendToQueue_none [of q m _ 0]
    by (simp add: mq_enq_def refuse_def MSOS_WAIT_FOREVER_def)
next
  fix q x xs
  assume g: "mq_good mx q" and v: "mq_msgs q = x # xs"
  from g obtain lk where r: "mq_rep q (free_nodes q) (used_nodes q) lk" "mq_maxSize q = mx"
    "length (mq_msgs q) = mq_recv q" by (rule mq_goodE)
  then obtain a us where us: "used_nodes q = a # us"
    using v by (cases "used_nodes q") (auto simp: mq_msgs_def)
  have "length x \<le> 256" using mq_msg_le [OF r(1), of x] v by simp
  with MsOS_RecvFromQueue_ok [OF r(1) [unfolded us], of MAX_SIZE_OF_MSG 0] v r(2,3)
  show "\<exists>q'. mq_deq q = Some (q', Some x) \<and> mq_good mx q' \<and> mq_msgs q' = xs \<and> mq_cap q' = mq_cap q"
    by (auto simp: mq_deq_def mq_good_def mq_cap_def MAX_SIZE_OF_MSG_def dest: mq_rep_inv)
next
  fix q assume g: "mq_good mx q" and v: "mq_msgs q = []"
  from g obtain lk where r: "mq_rep q (free_nodes q) (used_nodes q) lk" by (rule mq_goodE)
  moreover have "used_nodes q = []" using v by (simp add: mq_msgs_def)
  ultimately show "\<exists>q'. mq_deq q = Some (q', None) \<and> mq_good mx q' \<and> mq_msgs q' = [] \<and> mq_cap q' = mq_cap q"
    using MsOS_RecvFromQueue_none [of q "free_nodes q" lk MAX_SIZE_OF_MSG 0] g v
    by (simp add: mq_deq_def MSOS_WAIT_FOREVER_def)
qed

section \<open>The lost capacity\<close>

text \<open>Each message that is too long costs one slot for good: a queue of \<open>n\<close> slots accepts
  nothing more after \<open>n\<close> of them.\<close>

fun send_tries :: "ms_queue \<Rightarrow> u8 list \<Rightarrow> u32 \<Rightarrow> nat \<Rightarrow> ms_queue option" where
  "send_tries q m sz 0 = Some q"
| "send_tries q m sz (Suc k) = do { (q1, _) \<leftarrow> MsOS_SendToQueue q m sz 0; send_tries q1 m sz k }"

lemma send_tries_ok:
  assumes "mq_rep q fs us lk" "k \<le> mq_send q" "mq_maxSize q < sz"
  shows "\<exists>q' fs'. send_tries q m sz k = Some q' \<and> mq_rep q' fs' us (lk + k)
    \<and> mq_send q' = mq_send q - k \<and> mq_msgs q' = mq_msgs q \<and> mq_maxSize q' = mq_maxSize q"
  using assms
proof (induction k arbitrary: q fs lk)
  case 0
  then show ?case by auto
next
  case (Suc k)
  obtain q1 fs1 where s: "MsOS_SendToQueue q m sz 0 = Some (q1, False)" "mq_rep q1 fs1 us (lk + 1)"
      "mq_msgs q1 = mq_msgs q" "mq_maxSize q1 = mq_maxSize q" "mq_send q1 = mq_send q - 1"
    using MsOS_SendToQueue_oversize [OF Suc.prems(1) _ Suc.prems(3), of m 0] Suc.prems(2) by auto
  have "k \<le> mq_send q1" "mq_maxSize q1 < sz" using s Suc.prems by auto
  from Suc.IH [OF s(2) this] s show ?case by auto
qed

section \<open>Properties\<close>

lemma mq_good_rep:
  "mq_rep q fs us lk \<Longrightarrow> mq_good (mq_maxSize q) q \<and> mq_cap q + lk = unat (mq_maxNum q)"
  by (auto simp: mq_good_def mq_rep_inv mq_cap_def mq_rep_def)

text \<open>
  C7: MsOS_CreateQueue with valid sizes gives a well-formed empty message queue whose capacity
  is the requested number of messages.
\<close>

theorem created_queue_is_ready:
  assumes "u32QueueSize \<noteq> 0" "u32MessageSize \<noteq> 0" "u32MessageSize \<le> MAX_SIZE_OF_MSG"
    and "block_ok base u32QueueSize u32MessageSize"
  shows "\<exists>q. MsOS_CreateQueue base u32QueueSize u32MessageSize = Some (Some q)
    \<and> mq_good u32MessageSize q \<and> mq_msgs q = [] \<and> mq_cap q = unat u32QueueSize"
  using MsOS_CreateQueue_ok [OF assms] mq_good_rep by fastforce

lemma created_queue_is_ready_witness:
  "\<exists>q. MsOS_CreateQueue 4096 2 8 = Some (Some q) \<and> mq_good 8 q \<and> mq_msgs q = [] \<and> mq_cap q = 2"
  using created_queue_is_ready [of 2 8 4096]
  by (simp add: block_ok_def MAX_SIZE_OF_MSG_def MsOS_MSG_SIZE_def)

text \<open>
  C8: From any well-formed message queue, every sequence of sends of messages no longer than
  the queue allows and of receives, all without waiting, returns (no access outside the nodes,
  no wait without end), operation by operation, with the result of a list of messages of the
  queue's capacity: a send succeeds exactly when there is room and a failed one changes
  nothing, a receive returns the oldest message whole, and none exactly when the queue is
  empty. The linked lists of nodes and their three semaphores stay well-formed, with the
  content of the list and the capacity.
\<close>

theorem message_queue_is_fifo:
  assumes "mq_good mx q" "\<forall>m \<in> set (q_puts ops). length m \<le> unat mx"
  shows "\<exists>q'. q_exec mq_enq mq_deq q ops = Some (q', snd (q_spec (mq_cap q) refuse (mq_msgs q) ops))
    \<and> mq_good mx q' \<and> mq_msgs q' = fst (q_spec (mq_cap q) refuse (mq_msgs q) ops)
    \<and> mq_cap q' = mq_cap q"
  by (rule mqq.exec_refines_spec [OF assms])

text \<open>A queue of two messages of at most eight bytes at address 4096.\<close>

lemma sample_queue:
  "\<exists>q. MsOS_CreateQueue 4096 2 8 = Some (Some q)
     \<and> mq_rep q (map (node_addr 4096 8) [0..<2]) [] 0 \<and> mq_msgs q = [] \<and> mq_maxSize q = 8
     \<and> mq_good 8 q \<and> mq_cap q = 2"
  using MsOS_CreateQueue_ok [of 2 8 4096] mq_good_rep
  by (fastforce simp: block_ok_def MAX_SIZE_OF_MSG_def MsOS_MSG_SIZE_def)

lemma message_queue_is_fifo_witness:
  "\<exists>q q'. MsOS_CreateQueue 4096 2 8 = Some (Some q)
     \<and> q_exec mq_enq mq_deq q [Enq [1, 2], Enq [], Enq [3], Deq, Deq, Deq]
         = Some (q', [Put True, Put True, Put False, Got (Some [1, 2]), Got (Some []), Got None])
     \<and> mq_msgs q' = []"
proof -
  obtain q where q: "MsOS_CreateQueue 4096 2 8 = Some (Some q)" "mq_good 8 q" "mq_msgs q = []" "mq_cap q = 2"
    using sample_queue by blast
  from message_queue_is_fifo [OF q(2), of "[Enq [1, 2], Enq [], Enq [3], Deq, Deq, Deq]"] q
  show ?thesis by (auto simp: refuse_def)
qed

text \<open>
  Each message that is longer than the queue allows costs one slot for good: after as many of
  them as there are free slots, every further send blocks or is refused although the queue
  holds no more messages than before.
\<close>

theorem oversize_messages_use_up_the_queue:
  assumes "mq_inv q" "mq_maxSize q < u32Size"
  shows "\<exists>q'. send_tries q m u32Size (mq_send q) = Some q' \<and> mq_msgs q' = mq_msgs q
    \<and> (\<forall>d sz w. MsOS_SendToQueue q' d sz w = (if w = MSOS_WAIT_FOREVER then None else Some (q', False)))"
proof -
  obtain lk where "mq_rep q (free_nodes q) (used_nodes q) lk" using assms(1) by (auto simp: mq_inv_def)
  from send_tries_ok [OF this le_refl assms(2), of m] show ?thesis
    using MsOS_SendToQueue_none by fastforce
qed

lemma oversize_messages_use_up_the_queue_witness:
  "\<exists>q q'. MsOS_CreateQueue 4096 2 8 = Some (Some q)
    \<and> send_tries q (replicate 9 0) 9 2 = Some q' \<and> MsOS_SendToQueue q' [1] 1 5 = Some (q', False)"
proof -
  obtain q where q: "MsOS_CreateQueue 4096 2 8 = Some (Some q)"
      "mq_rep q (map (node_addr 4096 8) [0..<2]) [] 0" "mq_maxSize q = 8"
    using sample_queue by blast
  moreover have "mq_send q = 2" using q(2) by (simp add: mq_rep_def)
  ultimately show ?thesis
    using oversize_messages_use_up_the_queue [of q 9 "replicate 9 0"] mq_rep_inv [OF q(2)]
    by (auto simp: MSOS_WAIT_FOREVER_def)
qed

text \<open>
  MsOS_RecvFromQueue with a time limit returns the oldest message cut to the size asked for
  and removes it, MsOS_PeekFromQueue returns the same and keeps it, and on an empty queue both
  report nothing.
\<close>

theorem receive_and_peek_agree:
  assumes "mq_inv q" "w \<noteq> MSOS_WAIT_FOREVER"
  shows "\<exists>q'. MsOS_RecvFromQueue q n w
      = Some (q', case mq_msgs q of [] \<Rightarrow> None | m # ms \<Rightarrow> Some (take (unat n) m))
    \<and> MsOS_PeekFromQueue q n
      = Some (case mq_msgs q of [] \<Rightarrow> None | m # ms \<Rightarrow> Some (take (unat n) m))
    \<and> mq_inv q' \<and> mq_msgs q' = tl (mq_msgs q) \<and> mq_cap q' = mq_cap q"
proof -
  obtain lk where r: "mq_rep q (free_nodes q) (used_nodes q) lk" using assms(1) by (auto simp: mq_inv_def)
  note peek = MsOS_PeekFromQueue_ok [OF r, of n]
  show ?thesis
  proof (cases "used_nodes q")
    case Nil
    then have "mq_msgs q = []" by (simp add: mq_msgs_def)
    then show ?thesis
      using MsOS_RecvFromQueue_none [OF r [unfolded Nil], of n w] peek assms Nil by simp
  next
    case (Cons a us)
    then obtain m ms where ms: "mq_msgs q = m # ms" by (simp add: mq_msgs_def)
    have "0 < mq_recv q" using r Cons by (simp add: mq_rep_def)
    moreover obtain q' where "MsOS_RecvFromQueue q n w = Some (q', Some (take (unat n) (hd (mq_msgs q))))"
        "mq_inv q'" "mq_msgs q' = tl (mq_msgs q)" "mq_send q' = mq_send q + 1" "mq_recv q' = mq_recv q - 1"
      using MsOS_RecvFromQueue_ok [OF r [unfolded Cons], of n w] mq_rep_inv by blast
    ultimately show ?thesis using peek ms Cons by (simp add: mq_cap_def)
  qed
qed

lemma receive_and_peek_agree_witness:
  "\<exists>q q1 q2. MsOS_CreateQueue 4096 2 8 = Some (Some q) \<and> mq_enq q [5, 6, 7] = Some (q1, True)
    \<and> MsOS_RecvFromQueue q1 2 0 = Some (q2, Some [5, 6]) \<and> MsOS_PeekFromQueue q1 2 = Some (Some [5, 6])"
proof -
  obtain q where q: "MsOS_CreateQueue 4096 2 8 = Some (Some q)" "mq_good 8 q" "mq_msgs q = []" "mq_cap q = 2"
    using sample_queue by blast
  obtain q1 where q1: "mq_enq q [5, 6, 7] = Some (q1, True)" "mq_good 8 q1" "mq_msgs q1 = [[5, 6, 7]]"
    using mqq.enq_room [OF q(2), of "[5, 6, 7]"] q(3,4) by auto
  then show ?thesis
    using receive_and_peek_agree [of q1 0 2] q by (auto simp: mq_good_def MSOS_WAIT_FOREVER_def)
qed

end
