(* ===== verification/MsEvent.thy ===== *)
theory MsEvent
  imports Prelude "HOL-Library.Monad_Syntax"
begin

text \<open>
  Event groups of the OS layer, \<open>pgos/MsOS_event.c\<close>: a group keeps 32 flags and a container
  of waiting requests; a task takes messages (set, clear, wait, release) one at a time and
  after each wakes the requests that the flags satisfy. Shown: what a round wakes, that no
  satisfied request is left waiting, what the clearing modes do to the flags, the poll, and
  the list of groups. Waking a request is recorded as its semaphore, its result address and
  the value written there. \<open>None\<close> is a failed \<open>assert\<close>.
\<close>

section \<open>Requests and groups\<close>

record event_node =
  en_sem :: u32
  en_flag :: u32
  en_mode :: u32
  en_ret :: u32

record ms_event =
  ev_name :: string
  ev_flag :: u32
  ev_deleted :: bool
  ev_nodes :: "event_node list"

record event_message =
  em_id :: u32
  em_param1 :: u32
  em_param2 :: u32
  em_result :: u32
  em_sem :: u32

type_synonym wake = "u32 \<times> u32 \<times> u32"

definition EVENT_NODE_NUM :: nat where "EVENT_NODE_NUM = 32"

definition MESSAGE_CLEAR_EVNET :: u32 where "MESSAGE_CLEAR_EVNET = 0"
definition MESSAGE_SET_EVENT :: u32 where "MESSAGE_SET_EVENT = 1"
definition MESSAGE_WAIT_EVENT :: u32 where "MESSAGE_WAIT_EVENT = 2"
definition MESSAGE_RELEASE_EVENT :: u32 where "MESSAGE_RELEASE_EVENT = 3"

definition E_AND :: u32 where "E_AND = 0"
definition E_OR :: u32 where "E_OR = 1"
definition E_AND_CLEAR :: u32 where "E_AND_CLEAR = 2"
definition E_OR_CLEAR :: u32 where "E_OR_CLEAR = 3"

lemmas message_ids = MESSAGE_CLEAR_EVNET_def MESSAGE_SET_EVENT_def MESSAGE_WAIT_EVENT_def
  MESSAGE_RELEASE_EVENT_def
lemmas event_modes = E_AND_def E_OR_def E_AND_CLEAR_def E_OR_CLEAR_def

definition free_node :: event_node where
  "free_node = \<lparr>en_sem = 0, en_flag = 0, en_mode = 0, en_ret = 0\<rparr>"

definition InitEventList :: "ms_event \<Rightarrow> ms_event" where
  "InitEventList e = e\<lparr>ev_nodes := replicate EVENT_NODE_NUM free_node\<rparr>"

fun AddEventList_loop :: "event_node list \<Rightarrow> event_node \<Rightarrow> event_node list option" where
  "AddEventList_loop [] r = None"
| "AddEventList_loop (n # ns) r =
     (if en_sem n = 0 then Some (r # ns) else map_option ((#) n) (AddEventList_loop ns r))"

definition AddEventList :: "ms_event \<Rightarrow> u32 \<Rightarrow> u32 \<Rightarrow> u32 \<Rightarrow> u32 \<Rightarrow> ms_event option" where
  "AddEventList e sem flag mode ret =
     map_option (\<lambda>ns. e\<lparr>ev_nodes := ns\<rparr>)
       (AddEventList_loop (ev_nodes e) \<lparr>en_sem = sem, en_flag = flag, en_mode = mode, en_ret = ret\<rparr>)"

fun RemoveEventList_loop :: "event_node list \<Rightarrow> u32 \<Rightarrow> event_node list" where
  "RemoveEventList_loop [] sem = []"
| "RemoveEventList_loop (n # ns) sem =
     (if en_sem n = sem then n\<lparr>en_sem := 0\<rparr> # ns else n # RemoveEventList_loop ns sem)"

definition RemoveEventList :: "ms_event \<Rightarrow> u32 \<Rightarrow> ms_event" where
  "RemoveEventList e sem = e\<lparr>ev_nodes := RemoveEventList_loop (ev_nodes e) sem\<rparr>"

text \<open>One entry of the container in \<open>_DisptchEventList\<close>: \<open>snap\<close> is the value of the flags
  before the loop, \<open>flag\<close> the flags themselves.\<close>

definition dispatch_node :: "u32 \<Rightarrow> event_node \<Rightarrow> u32 \<Rightarrow> event_node \<times> u32 \<times> wake list" where
  "dispatch_node snap n flag =
     (let woken = (n\<lparr>en_sem := 0\<rparr>, [(en_sem n, en_ret n, snap)]) in
      if en_sem n = 0 then (n, flag, [])
      else if en_mode n = E_AND then
        (if en_flag n = snap then (fst woken, flag, snd woken) else (n, flag, []))
      else if en_mode n = E_OR then
        (if en_flag n AND snap \<noteq> 0 then (fst woken, flag, snd woken) else (n, flag, []))
      else if en_mode n = E_AND_CLEAR then
        (if en_flag n = snap then (fst woken, flag AND NOT snap, snd woken) else (n, flag, []))
      else if en_mode n = E_OR_CLEAR then
        (if en_flag n AND snap \<noteq> 0 then (fst woken, flag AND NOT snap, snd woken) else (n, flag, []))
      else (n, flag, []))"

fun dispatch_loop :: "u32 \<Rightarrow> event_node list \<Rightarrow> u32 \<Rightarrow> event_node list \<times> u32 \<times> wake list" where
  "dispatch_loop snap [] flag = ([], flag, [])"
| "dispatch_loop snap (n # ns) flag =
     (case dispatch_node snap n flag of (n', flag1, w1) \<Rightarrow>
      case dispatch_loop snap ns flag1 of (ns', flag2, w2) \<Rightarrow> (n' # ns', flag2, w1 @ w2))"

definition DisptchEventList :: "ms_event \<Rightarrow> ms_event \<times> wake list" where
  "DisptchEventList e =
     (case dispatch_loop (ev_flag e) (ev_nodes e) (ev_flag e) of
        (ns, flag, ws) \<Rightarrow> (e\<lparr>ev_nodes := ns, ev_flag := flag\<rparr>, ws))"

text \<open>One round of \<open>MsOS_EventTask\<close>.\<close>

definition event_message_step :: "ms_event \<Rightarrow> event_message \<Rightarrow> ms_event option" where
  "event_message_step e m =
     (if em_id m = MESSAGE_CLEAR_EVNET then Some (e\<lparr>ev_flag := ev_flag e AND NOT (em_param1 m)\<rparr>)
      else if em_id m = MESSAGE_SET_EVENT then Some (e\<lparr>ev_flag := ev_flag e OR em_param1 m\<rparr>)
      else if em_id m = MESSAGE_WAIT_EVENT then
        AddEventList e (em_sem m) (em_param1 m) (em_param2 m) (em_result m)
      else if em_id m = MESSAGE_RELEASE_EVENT then Some (RemoveEventList e (em_sem m))
      else Some e)"

definition event_task_step :: "ms_event \<Rightarrow> event_message \<Rightarrow> (ms_event \<times> wake list) option" where
  "event_task_step e m = map_option DisptchEventList (event_message_step e m)"


text \<open>The messages \<open>MsOS_SetEvent\<close> and \<open>MsOS_ClearEvent\<close> send, and the poll of
  \<open>MsOS_WaitEvent\<close> with a waiting time of 0 (the result, the retrieved flags, the group).
  The case for \<open>E_OR\<close> falls through into the one for \<open>E_OR_CLEAR\<close>.\<close>

definition MsOS_SetEvent :: "ms_event \<Rightarrow> u32 \<Rightarrow> event_message option" where
  "MsOS_SetEvent e flag = (if ev_deleted e then None
     else Some \<lparr>em_id = MESSAGE_SET_EVENT, em_param1 = flag, em_param2 = 0, em_result = 0, em_sem = 0\<rparr>)"

definition MsOS_ClearEvent :: "ms_event \<Rightarrow> u32 \<Rightarrow> event_message option" where
  "MsOS_ClearEvent e flag = (if ev_deleted e then None
     else Some \<lparr>em_id = MESSAGE_CLEAR_EVNET, em_param1 = flag, em_param2 = 0, em_result = 0, em_sem = 0\<rparr>)"

definition MsOS_PollEvent :: "ms_event \<Rightarrow> u32 \<Rightarrow> u32 \<Rightarrow> bool \<times> u32 \<times> ms_event" where
  "MsOS_PollEvent e flag mode =
     (if ev_deleted e then (False, 0, e)
      else let got = flag AND ev_flag e in
        if mode = E_OR \<and> got \<noteq> 0 then (True, got, e)
        else if (mode = E_OR \<or> mode = E_OR_CLEAR) \<and> got \<noteq> 0
        then (True, got, e\<lparr>ev_flag := ev_flag e AND NOT got\<rparr>)
        else (False, got, e))"


section \<open>One round of waking\<close>

text \<open>Whether the flags satisfy a request, as the code tests it, and whether it then clears.\<close>

definition satisfied :: "u32 \<Rightarrow> event_node \<Rightarrow> bool" where
  "satisfied flag n \<longleftrightarrow>
     (en_mode n = E_AND \<or> en_mode n = E_AND_CLEAR) \<and> en_flag n = flag
     \<or> (en_mode n = E_OR \<or> en_mode n = E_OR_CLEAR) \<and> en_flag n AND flag \<noteq> 0"

definition clearing :: "event_node \<Rightarrow> bool" where
  "clearing n \<longleftrightarrow> en_mode n = E_AND_CLEAR \<or> en_mode n = E_OR_CLEAR"

definition waiting :: "event_node \<Rightarrow> bool" where
  "waiting n \<longleftrightarrow> en_sem n \<noteq> 0"

lemma dispatch_node_eq:
  "dispatch_node snap n flag =
     (if waiting n \<and> satisfied snap n
      then (n\<lparr>en_sem := 0\<rparr>, if clearing n then flag AND NOT snap else flag, [(en_sem n, en_ret n, snap)])
      else (n, flag, []))"
  by (auto simp: dispatch_node_def satisfied_def clearing_def waiting_def event_modes Let_def)

lemma and_not_idem: "(flag AND NOT snap) AND NOT snap = flag AND NOT snap" for flag snap :: u32
  by (simp add: and.assoc)

text \<open>The loop over the container in closed form.\<close>

lemma dispatch_loop_eq:
  "dispatch_loop snap ns flag =
     (map (\<lambda>n. if waiting n \<and> satisfied snap n then n\<lparr>en_sem := 0\<rparr> else n) ns,
      if \<exists>n \<in> set ns. waiting n \<and> satisfied snap n \<and> clearing n then flag AND NOT snap else flag,
      map (\<lambda>n. (en_sem n, en_ret n, snap)) (filter (\<lambda>n. waiting n \<and> satisfied snap n) ns))"
  by (induction ns arbitrary: flag) (auto simp: dispatch_node_eq and_not_idem)

lemma DisptchEventList_eq:
  "DisptchEventList e =
     (e\<lparr>ev_nodes := map (\<lambda>n. if waiting n \<and> satisfied (ev_flag e) n then n\<lparr>en_sem := 0\<rparr> else n) (ev_nodes e),
        ev_flag := if \<exists>n \<in> set (ev_nodes e). waiting n \<and> satisfied (ev_flag e) n \<and> clearing n
                   then 0 else ev_flag e\<rparr>,
      map (\<lambda>n. (en_sem n, en_ret n, ev_flag e))
        (filter (\<lambda>n. waiting n \<and> satisfied (ev_flag e) n) (ev_nodes e)))"
  by (cases e) (auto simp: DisptchEventList_def dispatch_loop_eq)

section \<open>Nothing satisfied is left waiting\<close>








lemma AddEventList_loop_None: "AddEventList_loop ns r = None \<longleftrightarrow> (\<forall>n \<in> set ns. waiting n)"
  by (induction ns) (auto simp: waiting_def)

lemma RemoveEventList_loop_length [simp]: "length (RemoveEventList_loop ns s) = length ns"
  by (induction ns) auto


lemma AddEventList_full:
  "AddEventList e sem flag mode ret = None \<longleftrightarrow> (\<forall>n \<in> set (ev_nodes e). waiting n)"
  by (simp add: AddEventList_def AddEventList_loop_None)

lemma AddEventList_loop_mset:
  "AddEventList_loop ns r = Some ns' \<Longrightarrow>
   filter waiting ns' = filter waiting (takeWhile waiting ns) @ filter waiting [r]
     @ filter waiting (dropWhile waiting ns)"
  by (induction ns arbitrary: ns') (auto simp: waiting_def split: if_splits)

text \<open>Setting flags: exactly the waiting requests they satisfy are woken, each with all flags.\<close>

lemma set_event_step:
  assumes "MsOS_SetEvent e f = Some m"
  defines "flag \<equiv> ev_flag e OR f"
  shows "event_task_step e m = Some
    (e\<lparr>ev_nodes := map (\<lambda>n. if waiting n \<and> satisfied flag n then n\<lparr>en_sem := 0\<rparr> else n) (ev_nodes e),
       ev_flag := if \<exists>n \<in> set (ev_nodes e). waiting n \<and> satisfied flag n \<and> clearing n then 0 else flag\<rparr>,
     map (\<lambda>n. (en_sem n, en_ret n, flag)) (filter (\<lambda>n. waiting n \<and> satisfied flag n) (ev_nodes e)))"
proof -
  have id: "em_id m = MESSAGE_SET_EVENT" "em_param1 m = f"
    using assms(1) by (auto simp: MsOS_SetEvent_def split: if_splits)
  have ne: "MESSAGE_SET_EVENT \<noteq> MESSAGE_CLEAR_EVNET" by (simp add: message_ids)
  have step: "event_message_step e m = Some (e\<lparr>ev_flag := flag\<rparr>)"
    using id ne by (simp add: event_message_step_def flag_def)
  show ?thesis unfolding event_task_step_def step by (auto simp: DisptchEventList_eq)
qed

text \<open>The AND mode asks for equality: with a further flag set, the request is not woken.\<close>

lemma and_mode_exact:
  assumes "en_mode n = E_AND \<or> en_mode n = E_AND_CLEAR"
  shows "satisfied flag n \<longleftrightarrow> en_flag n = flag"
  using assms by (auto simp: satisfied_def event_modes)

section \<open>The list of groups\<close>

record event_groups =
  eg_head :: nat
  eg_heap :: "nat \<rightharpoonup> (nat \<times> nat)"
  eg_events :: "nat \<rightharpoonup> ms_event"
  eg_brk :: nat

text \<open>The search for the last list node does not move on: \<open>pList\<close> stays at the head.\<close>

partial_function (option) group_end :: "(nat \<rightharpoonup> (nat \<times> nat)) \<Rightarrow> nat \<Rightarrow> nat option" where
  "group_end h pList =
     (if pList = 0 then Some pList
      else case h pList of None \<Rightarrow> None
        | Some c \<Rightarrow> if snd c = 0 then Some pList else group_end h pList)"

definition AddEventGroupList :: "event_groups \<Rightarrow> nat \<Rightarrow> event_groups option" where
  "AddEventGroupList g pNode = do {
     let new = eg_brk g;
     let h = (eg_heap g)(new \<mapsto> (pNode, 0));
     pList \<leftarrow> group_end h (eg_head g);
     (if pList = eg_head g then Some (g\<lparr>eg_heap := h, eg_brk := new + 1, eg_head := new\<rparr>)
      else do {
        c \<leftarrow> h pList;
        Some (g\<lparr>eg_heap := h(pList \<mapsto> (fst c, new)), eg_brk := new + 1\<rparr>)
      })
   }"

partial_function (option) ResumEventGroupList_walk ::
    "event_groups \<Rightarrow> string \<Rightarrow> nat \<Rightarrow> (event_groups \<times> nat) option" where
  "ResumEventGroupList_walk g name p =
     (if p = 0 then Some (g, 0)
      else case eg_heap g p of None \<Rightarrow> None | Some c \<Rightarrow>
        case eg_events g (fst c) of None \<Rightarrow> None | Some e \<Rightarrow>
          if ev_name e = name \<and> ev_deleted e
          then Some (g\<lparr>eg_events := (eg_events g)(fst c \<mapsto> e\<lparr>ev_deleted := False\<rparr>)\<rparr>, fst c)
          else ResumEventGroupList_walk g name (snd c))"

partial_function (option) SuspendEventGroupList_walk ::
    "event_groups \<Rightarrow> string \<Rightarrow> nat \<Rightarrow> (event_groups \<times> bool) option" where
  "SuspendEventGroupList_walk g name p =
     (if p = 0 then Some (g, False)
      else case eg_heap g p of None \<Rightarrow> None | Some c \<Rightarrow>
        case eg_events g (fst c) of None \<Rightarrow> None | Some e \<Rightarrow>
          if ev_name e = name
          then Some (g\<lparr>eg_events := (eg_events g)(fst c \<mapsto> e\<lparr>ev_deleted := True\<rparr>)\<rparr>, True)
          else SuspendEventGroupList_walk g name (snd c))"

text \<open>A new group; its queue and its task are created beside it.\<close>

definition MsOS_CreateEventGroup :: "event_groups \<Rightarrow> string \<Rightarrow> (event_groups \<times> nat) option" where
  "MsOS_CreateEventGroup g name = do {
     (g1, p) \<leftarrow> ResumEventGroupList_walk g name (eg_head g);
     (if p \<noteq> 0 then Some (g1, p)
      else do {
        let e = InitEventList \<lparr>ev_name = name, ev_flag = 0, ev_deleted = False, ev_nodes = []\<rparr>;
        let a = eg_brk g1;
        g2 \<leftarrow> AddEventGroupList (g1\<lparr>eg_events := (eg_events g1)(a \<mapsto> e), eg_brk := a + 1\<rparr>) a;
        Some (g2, a)
      })
   }"

definition MsOS_DeleteEventGroup :: "event_groups \<Rightarrow> nat \<Rightarrow> (event_groups \<times> bool) option" where
  "MsOS_DeleteEventGroup g p = do {
     e \<leftarrow> eg_events g p;
     (g1, _) \<leftarrow> SuspendEventGroupList_walk g (ev_name e) (eg_head g);
     Some (g1, True)
   }"

text \<open>What the code keeps true: the list has at most one node, and it is the last group made.\<close>

definition eg_inv :: "event_groups \<Rightarrow> bool" where
  "eg_inv g \<longleftrightarrow> 0 < eg_brk g \<and> eg_head g < eg_brk g
     \<and> (eg_head g \<noteq> 0 \<longrightarrow> (\<exists>a. eg_heap g (eg_head g) = Some (a, 0) \<and> eg_events g a \<noteq> None))"

lemma AddEventGroupList_only:
  assumes "eg_inv g"
  shows "AddEventGroupList g a = Some (g\<lparr>eg_heap := (eg_heap g)(eg_brk g \<mapsto> (a, 0)),
    eg_brk := eg_brk g + 1, eg_head := eg_brk g\<rparr>)"
proof -
  have "group_end ((eg_heap g)(eg_brk g \<mapsto> (a, 0))) (eg_head g) = Some (eg_head g)"
    using assms by (auto simp: eg_inv_def group_end.simps [of _ "eg_head g"])
  then show ?thesis by (simp add: AddEventGroupList_def Let_def)
qed

text \<open>A second group replaces the first in the list: the first can be neither deleted nor
  taken up again by its name.\<close>

lemma create_two_groups:
  assumes inv: "eg_inv g" "eg_head g = 0" and ne: "a \<noteq> b"
  shows "\<exists>g1 p g2 q. MsOS_CreateEventGroup g a = Some (g1, p) \<and> MsOS_CreateEventGroup g1 b = Some (g2, q)
    \<and> p \<noteq> q \<and> MsOS_DeleteEventGroup g2 p = Some (g2, True)
    \<and> map_option ev_deleted (eg_events g2 p) = Some False"
proof -
  let ?k = "eg_brk g"
  have k: "0 < ?k" using inv(1) by (simp add: eg_inv_def)
  let ?e = "\<lambda>n. InitEventList \<lparr>ev_name = n, ev_flag = 0, ev_deleted = False, ev_nodes = []\<rparr>"
  let ?ga = "g\<lparr>eg_events := (eg_events g)(?k \<mapsto> ?e a), eg_brk := ?k + 1\<rparr>"
  have "eg_inv ?ga" using inv k by (simp add: eg_inv_def)
  from AddEventGroupList_only [OF this, of ?k] obtain g1 where
    g1: "MsOS_CreateEventGroup g a = Some (g1, ?k)"
      "g1 = ?ga\<lparr>eg_heap := (eg_heap g)(?k + 1 \<mapsto> (?k, 0)), eg_brk := ?k + 2, eg_head := ?k + 1\<rparr>"
    using inv(2) by (simp add: MsOS_CreateEventGroup_def ResumEventGroupList_walk.simps [of g] Let_def)
  have w1: "ResumEventGroupList_walk g1 b (eg_head g1) = Some (g1, 0)"
    using ne unfolding g1(2)
    by (simp add: ResumEventGroupList_walk.simps [of _ _ "Suc ?k"] ResumEventGroupList_walk.simps [of _ _ 0]
        InitEventList_def)
  let ?gb = "g1\<lparr>eg_events := (eg_events g1)(?k + 2 \<mapsto> ?e b), eg_brk := ?k + 3\<rparr>"
  have "eg_inv ?gb" by (simp add: eg_inv_def g1(2))
  from AddEventGroupList_only [OF this, of "?k + 2"] obtain g2 where
    g2: "MsOS_CreateEventGroup g1 b = Some (g2, ?k + 2)"
      "g2 = ?gb\<lparr>eg_heap := (eg_heap g1)(?k + 3 \<mapsto> (?k + 2, 0)), eg_brk := ?k + 4, eg_head := ?k + 3\<rparr>"
    using w1 by (simp add: MsOS_CreateEventGroup_def Let_def g1(2) numeral_3_eq_3 numeral_2_eq_2 eval_nat_numeral)
  have ev: "eg_events g2 ?k = Some (?e a)" by (simp add: g2(2) g1(2))
  have "SuspendEventGroupList_walk g2 a (eg_head g2) = Some (g2, False)"
    using ne unfolding g2(2)
    by (simp add: SuspendEventGroupList_walk.simps [of _ _ "?k + 3"] SuspendEventGroupList_walk.simps [of _ _ 0]
        InitEventList_def)
  then have "MsOS_DeleteEventGroup g2 ?k = Some (g2, True)"
    using ev by (simp add: MsOS_DeleteEventGroup_def InitEventList_def)
  then show ?thesis using g1(1) g2(1) ev by (auto simp: InitEventList_def)
qed

section \<open>Properties\<close>


text \<open>A group with two waiting requests: for both of the flags 1 and 2, and for any of 2 and 4
  with clearing.\<close>

definition event2 :: ms_event where
  "event2 = \<lparr>ev_name = ''e'', ev_flag = 1, ev_deleted = False,
     ev_nodes = [\<lparr>en_sem = 10, en_flag = 3, en_mode = E_AND, en_ret = 20\<rparr>,
                 \<lparr>en_sem = 11, en_flag = 6, en_mode = E_OR_CLEAR, en_ret = 21\<rparr>]\<rparr>"

text \<open>
  Processing a set-event message wakes exactly the waiting requests the new flags satisfy, in
  container order and each with all flags, frees their entries, and clears the flags when one
  of them asked for it.
\<close>

theorem set_event_wakes_satisfied:
  assumes "MsOS_SetEvent e f = Some m"
  shows "event_task_step e m = Some
    (e\<lparr>ev_nodes := map (\<lambda>n. if waiting n \<and> satisfied (ev_flag e OR f) n then n\<lparr>en_sem := 0\<rparr> else n) (ev_nodes e),
       ev_flag := if \<exists>n \<in> set (ev_nodes e). waiting n \<and> satisfied (ev_flag e OR f) n \<and> clearing n
                  then 0 else ev_flag e OR f\<rparr>,
     map (\<lambda>n. (en_sem n, en_ret n, ev_flag e OR f))
       (filter (\<lambda>n. waiting n \<and> satisfied (ev_flag e OR f) n) (ev_nodes e)))"
  by (rule set_event_step [OF assms])

lemma set_event_wakes_satisfied_witness:
  "\<exists>m e'. MsOS_SetEvent event2 2 = Some m
     \<and> event_task_step event2 m = Some (e', [(10, 20, 3), (11, 21, 3)]) \<and> ev_flag e' = 0"
proof -
  obtain m where m: "MsOS_SetEvent event2 2 = Some m" by (simp add: MsOS_SetEvent_def event2_def)
  show ?thesis
    using set_event_wakes_satisfied [OF m] m
    by (simp add: event2_def waiting_def satisfied_def clearing_def event_modes)
qed



text \<open>
  Creating a second event group takes the first one off the list of groups: deleting the first
  then reports success and marks nothing.
\<close>

theorem second_group_hides_first:
  assumes "eg_inv g" "eg_head g = 0" "a \<noteq> b"
  shows "\<exists>g1 p g2 q. MsOS_CreateEventGroup g a = Some (g1, p) \<and> MsOS_CreateEventGroup g1 b = Some (g2, q)
    \<and> p \<noteq> q \<and> MsOS_DeleteEventGroup g2 p = Some (g2, True)
    \<and> map_option ev_deleted (eg_events g2 p) = Some False"
  by (rule create_two_groups [OF assms])

lemma second_group_hides_first_witness:
  "\<exists>g1 p g2 q. MsOS_CreateEventGroup \<lparr>eg_head = 0, eg_heap = Map.empty, eg_events = Map.empty, eg_brk = 1\<rparr> ''a''
       = Some (g1, p) \<and> MsOS_CreateEventGroup g1 ''b'' = Some (g2, q)
    \<and> p \<noteq> q \<and> MsOS_DeleteEventGroup g2 p = Some (g2, True)
    \<and> map_option ev_deleted (eg_events g2 p) = Some False"
  by (rule second_group_hides_first) (simp_all add: eg_inv_def)

text \<open>
  MsOS_WaitEvent with a waiting time of 0 succeeds only in the two OR modes and only when a
  requested flag is set, reports the requested flags that are set, and clears them in the
  clearing OR mode alone; the AND modes never succeed.
\<close>

theorem poll_event_outcomes:
  "MsOS_PollEvent e flag mode =
    ((mode = E_OR \<or> mode = E_OR_CLEAR) \<and> flag AND (if ev_deleted e then 0 else ev_flag e) \<noteq> 0,
     flag AND (if ev_deleted e then 0 else ev_flag e),
     if mode = E_OR_CLEAR \<and> flag AND (if ev_deleted e then 0 else ev_flag e) \<noteq> 0
     then e\<lparr>ev_flag := ev_flag e AND NOT flag\<rparr> else e)"
proof -
  have "ev_flag e AND NOT (flag AND ev_flag e) = ev_flag e AND NOT flag"
    by (rule bit_eqI) (auto simp: bit_and_iff bit_or_iff bit_not_iff simp flip: and.assoc)
  then show ?thesis by (auto simp: MsOS_PollEvent_def event_modes Let_def)
qed

end
