(* ===== verification/ThreadPool.thy ===== *)
theory ThreadPool
  imports Main
begin

text \<open>
  The thread pool, \<open>threadpool/threadpool.c\<close>. The pool structure and what one thread does with it
  while it holds the mutex are functions; the threads are a step relation. A step is one critical
  section: from taking the mutex, at the start or after a wait on a condition variable, to giving
  it up. Threads that sleep on \<open>queue_not_empty\<close> (workers), \<open>queue_not_full\<close> (callers of
  \<open>threadpool_add_job\<close>) and \<open>queue_empty\<close> (the caller of \<open>threadpool_destroy\<close>) are part of the
  state, so that a lost wake-up would be a reachable state. Wake-ups without cause, which POSIX
  allows, are steps too. A job is a number; \<open>malloc\<close> of a job succeeds.
\<close>

section \<open>The pool under its mutex\<close>

record tpool =
  tp_queue_max_num :: nat
  tp_queue_cur_num :: nat
  tp_jobs :: "nat list"
  tp_queue_close :: bool
  tp_pool_close :: bool

definition threadpool_init :: "nat \<Rightarrow> tpool" where
  "threadpool_init queue_max_num =
     \<lparr>tp_queue_max_num = queue_max_num, tp_queue_cur_num = 0, tp_jobs = [], tp_queue_close = False,
      tp_pool_close = False\<rparr>"

text \<open>\<open>threadpool_add_job\<close>: wait, be refused, or append; the flag says whether \<open>queue_not_empty\<close>
  is broadcast.\<close>

datatype add_result = AddWait | AddClosed | AddOk tpool bool

definition threadpool_add_job :: "tpool \<Rightarrow> nat \<Rightarrow> add_result" where
  "threadpool_add_job pool job =
     (if tp_queue_cur_num pool = tp_queue_max_num pool \<and> \<not> (tp_queue_close pool \<or> tp_pool_close pool)
      then AddWait
      else if tp_queue_close pool \<or> tp_pool_close pool then AddClosed
      else AddOk (pool\<lparr>tp_jobs := tp_jobs pool @ [job], tp_queue_cur_num := tp_queue_cur_num pool + 1\<rparr>)
             (tp_jobs pool = []))"

text \<open>\<open>threadpool_function\<close>: wait, leave, or take the first job; the flags say whether
  \<open>queue_empty\<close> is signalled and \<open>queue_not_full\<close> broadcast. \<open>WorkNull\<close>: the head is \<open>NULL\<close>.
  The list is dropped when the count says it is empty.\<close>

datatype work_result = WorkWait | WorkExit | WorkNull | WorkTake tpool nat bool bool

definition threadpool_function :: "tpool \<Rightarrow> work_result" where
  "threadpool_function pool =
     (if tp_queue_cur_num pool = 0 \<and> \<not> tp_pool_close pool then WorkWait
      else if tp_pool_close pool then WorkExit
      else let cur = tp_queue_cur_num pool - 1 in
        case tp_jobs pool of
          [] \<Rightarrow> WorkNull
        | job # rest \<Rightarrow>
            WorkTake (pool\<lparr>tp_queue_cur_num := cur, tp_jobs := (if cur = 0 then [] else rest)\<rparr>) job
              (cur = 0) (int cur = int (tp_queue_max_num pool) - 1))"

text \<open>\<open>threadpool_destroy\<close>: the test at its start, then the wait for the empty queue.\<close>

definition threadpool_destroy_begin :: "tpool \<Rightarrow> tpool option" where
  "threadpool_destroy_begin pool =
     (if tp_queue_close pool \<or> tp_pool_close pool then None else Some (pool\<lparr>tp_queue_close := True\<rparr>))"

definition threadpool_destroy_wait :: "tpool \<Rightarrow> tpool option" where
  "threadpool_destroy_wait pool =
     (if tp_queue_cur_num pool \<noteq> 0 then None else Some (pool\<lparr>tp_pool_close := True\<rparr>))"

section \<open>The threads\<close>

datatype closer = NoClose | CloseTest | CloseSleep | CloseShut | CloseJoin | CloseFreed

record psys =
  ps_pool :: tpool
  ps_ready :: nat
  ps_wsleep :: nat
  ps_busy :: "nat list"
  ps_exited :: nat
  ps_adders :: "nat list"
  ps_asleep :: "nat list"
  ps_closer :: closer
  ps_accepted :: "nat list"
  ps_taken :: "nat list"

definition pool_start :: "nat \<Rightarrow> nat \<Rightarrow> psys" where
  "pool_start thread_num queue_max_num =
     \<lparr>ps_pool = threadpool_init queue_max_num, ps_ready = thread_num, ps_wsleep = 0, ps_busy = [],
      ps_exited = 0, ps_adders = [], ps_asleep = [], ps_closer = NoClose, ps_accepted = [], ps_taken = []\<rparr>"

inductive pool_step :: "psys \<Rightarrow> psys \<Rightarrow> bool" where
  call: "ps_closer s \<noteq> CloseFreed \<Longrightarrow> pool_step s (s\<lparr>ps_adders := job # ps_adders s\<rparr>)"
| add_wait: "ps_closer s \<noteq> CloseFreed \<Longrightarrow> ps_adders s = xs @ job # ys \<Longrightarrow>
    threadpool_add_job (ps_pool s) job = AddWait \<Longrightarrow>
    pool_step s (s\<lparr>ps_adders := xs @ ys, ps_asleep := ps_asleep s @ [job]\<rparr>)"
| add_closed: "ps_closer s \<noteq> CloseFreed \<Longrightarrow> ps_adders s = xs @ job # ys \<Longrightarrow>
    threadpool_add_job (ps_pool s) job = AddClosed \<Longrightarrow> pool_step s (s\<lparr>ps_adders := xs @ ys\<rparr>)"
| add_ok: "ps_closer s \<noteq> CloseFreed \<Longrightarrow> ps_adders s = xs @ job # ys \<Longrightarrow>
    threadpool_add_job (ps_pool s) job = AddOk pool wake \<Longrightarrow>
    pool_step s (s\<lparr>ps_adders := xs @ ys, ps_pool := pool, ps_accepted := ps_accepted s @ [job],
      ps_ready := (if wake then ps_ready s + ps_wsleep s else ps_ready s),
      ps_wsleep := (if wake then 0 else ps_wsleep s)\<rparr>)"
| add_spurious: "ps_asleep s = xs @ job # ys \<Longrightarrow>
    pool_step s (s\<lparr>ps_asleep := xs @ ys, ps_adders := job # ps_adders s\<rparr>)"
| work_wait: "0 < ps_ready s \<Longrightarrow> threadpool_function (ps_pool s) = WorkWait \<Longrightarrow>
    pool_step s (s\<lparr>ps_ready := ps_ready s - 1, ps_wsleep := ps_wsleep s + 1\<rparr>)"
| work_exit: "0 < ps_ready s \<Longrightarrow> threadpool_function (ps_pool s) = WorkExit \<Longrightarrow>
    pool_step s (s\<lparr>ps_ready := ps_ready s - 1, ps_exited := ps_exited s + 1\<rparr>)"
| work_take: "0 < ps_ready s \<Longrightarrow> threadpool_function (ps_pool s) = WorkTake pool job drained full \<Longrightarrow>
    pool_step s (s\<lparr>ps_ready := ps_ready s - 1, ps_busy := job # ps_busy s, ps_pool := pool,
      ps_taken := ps_taken s @ [job],
      ps_closer := (if drained \<and> ps_closer s = CloseSleep then CloseTest else ps_closer s),
      ps_adders := (if full then ps_asleep s @ ps_adders s else ps_adders s),
      ps_asleep := (if full then [] else ps_asleep s)\<rparr>)"
| work_done: "ps_busy s = xs @ job # ys \<Longrightarrow>
    pool_step s (s\<lparr>ps_busy := xs @ ys, ps_ready := ps_ready s + 1\<rparr>)"
| work_spurious: "0 < ps_wsleep s \<Longrightarrow>
    pool_step s (s\<lparr>ps_wsleep := ps_wsleep s - 1, ps_ready := ps_ready s + 1\<rparr>)"
| close_begin: "ps_closer s = NoClose \<Longrightarrow> threadpool_destroy_begin (ps_pool s) = Some pool \<Longrightarrow>
    pool_step s (s\<lparr>ps_pool := pool, ps_closer := CloseTest\<rparr>)"
| close_wait: "ps_closer s = CloseTest \<Longrightarrow> threadpool_destroy_wait (ps_pool s) = None \<Longrightarrow>
    pool_step s (s\<lparr>ps_closer := CloseSleep\<rparr>)"
| close_spurious: "ps_closer s = CloseSleep \<Longrightarrow> pool_step s (s\<lparr>ps_closer := CloseTest\<rparr>)"
| close_shut: "ps_closer s = CloseTest \<Longrightarrow> threadpool_destroy_wait (ps_pool s) = Some pool \<Longrightarrow>
    pool_step s (s\<lparr>ps_pool := pool, ps_closer := CloseShut\<rparr>)"
| close_wake: "ps_closer s = CloseShut \<Longrightarrow>
    pool_step s (s\<lparr>ps_closer := CloseJoin, ps_ready := ps_ready s + ps_wsleep s, ps_wsleep := 0,
      ps_adders := ps_asleep s @ ps_adders s, ps_asleep := []\<rparr>)"
| close_free: "ps_closer s = CloseJoin \<Longrightarrow> ps_ready s = 0 \<Longrightarrow> ps_wsleep s = 0 \<Longrightarrow> ps_busy s = [] \<Longrightarrow>
    pool_step s (s\<lparr>ps_closer := CloseFreed\<rparr>)"

inductive pool_reach :: "nat \<Rightarrow> nat \<Rightarrow> psys \<Rightarrow> bool" for thread_num queue_max_num where
  start: "pool_reach thread_num queue_max_num (pool_start thread_num queue_max_num)"
| step: "pool_reach thread_num queue_max_num s \<Longrightarrow> pool_step s t \<Longrightarrow> pool_reach thread_num queue_max_num t"

section \<open>The invariant\<close>

definition pool_inv :: "nat \<Rightarrow> nat \<Rightarrow> psys \<Rightarrow> bool" where
  "pool_inv n m s \<longleftrightarrow>
     tp_queue_max_num (ps_pool s) = m
     \<and> tp_queue_cur_num (ps_pool s) = length (tp_jobs (ps_pool s))
     \<and> length (tp_jobs (ps_pool s)) \<le> m
     \<and> ps_accepted s = ps_taken s @ tp_jobs (ps_pool s)
     \<and> ps_ready s + ps_wsleep s + length (ps_busy s) + ps_exited s = n
     \<and> (tp_queue_close (ps_pool s) \<longleftrightarrow> ps_closer s \<noteq> NoClose)
     \<and> (tp_pool_close (ps_pool s) \<longleftrightarrow> ps_closer s \<in> {CloseShut, CloseJoin, CloseFreed})
     \<and> (tp_pool_close (ps_pool s) \<longrightarrow> tp_jobs (ps_pool s) = [])
     \<and> (0 < ps_wsleep s \<longrightarrow> tp_jobs (ps_pool s) = [] \<and> ps_closer s \<notin> {CloseJoin, CloseFreed})
     \<and> (ps_asleep s \<noteq> [] \<longrightarrow> length (tp_jobs (ps_pool s)) = m \<and> ps_closer s \<notin> {CloseJoin, CloseFreed})
     \<and> (ps_closer s = CloseSleep \<longrightarrow> tp_jobs (ps_pool s) \<noteq> [])
     \<and> (ps_closer s = CloseFreed \<longrightarrow> ps_ready s = 0 \<and> ps_busy s = [])"

lemmas pool_op_defs = threadpool_add_job_def threadpool_function_def threadpool_destroy_begin_def
  threadpool_destroy_wait_def threadpool_init_def pool_start_def

lemma pool_inv_start: "pool_inv n m (pool_start n m)"
  by (simp add: pool_inv_def pool_op_defs)

lemma pool_inv_step: "pool_step s t \<Longrightarrow> pool_inv n m s \<Longrightarrow> pool_inv n m t"
proof (induction rule: pool_step.induct)
  case (add_ok s xs job ys pool wake)
  then have "pool = (ps_pool s)\<lparr>tp_jobs := tp_jobs (ps_pool s) @ [job],
      tp_queue_cur_num := tp_queue_cur_num (ps_pool s) + 1\<rparr>" "wake = (tp_jobs (ps_pool s) = [])"
    "tp_queue_cur_num (ps_pool s) \<noteq> tp_queue_max_num (ps_pool s)" "\<not> tp_queue_close (ps_pool s)"
    "\<not> tp_pool_close (ps_pool s)"
    by (simp_all add: threadpool_add_job_def split: if_splits)
  with add_ok.prems show ?case by (cases "tp_jobs (ps_pool s)") (simp_all add: pool_inv_def)
next
  case (work_take s pool job drained full)
  obtain rest where "tp_jobs (ps_pool s) = job # rest" "\<not> tp_pool_close (ps_pool s)"
    "pool = (ps_pool s)\<lparr>tp_queue_cur_num := length rest, tp_jobs := rest\<rparr>" "drained = (rest = [])"
    "full = (int (length rest) = int m - 1)"
    using work_take by (auto simp: pool_inv_def threadpool_function_def Let_def split: if_splits list.splits)
  with work_take.hyps(1) work_take.prems show ?case by (simp add: pool_inv_def) auto
qed (auto simp: pool_inv_def threadpool_add_job_def threadpool_function_def threadpool_destroy_begin_def
  threadpool_destroy_wait_def Let_def split: if_splits list.splits)

lemma pool_reach_inv: "pool_reach n m s \<Longrightarrow> pool_inv n m s"
  by (induction rule: pool_reach.induct) (auto intro: pool_inv_start pool_inv_step)

section \<open>Properties\<close>

text \<open>
  C13: In every reachable state of the pool with its workers, callers and destroyer, the
  accepted jobs are the taken ones followed by the queued ones, the queue respects its bound,
  no worker dereferences a NULL head, and a closed pool has had every accepted job taken.
\<close>

theorem pool_runs_jobs_in_order:
  assumes "pool_reach n m s"
  shows "ps_accepted s = ps_taken s @ tp_jobs (ps_pool s)
    \<and> tp_queue_cur_num (ps_pool s) = length (tp_jobs (ps_pool s)) \<and> length (tp_jobs (ps_pool s)) \<le> m
    \<and> (tp_pool_close (ps_pool s) \<longrightarrow> ps_taken s = ps_accepted s)
    \<and> threadpool_function (ps_pool s) \<noteq> WorkNull"
  using pool_reach_inv [OF assms]
  by (auto simp: pool_inv_def threadpool_function_def Let_def split: list.splits)

text \<open>A run with one worker and room for one job: the job is accepted and taken.\<close>

definition pool1 :: "nat list \<Rightarrow> bool \<Rightarrow> bool \<Rightarrow> tpool" where
  "pool1 jobs q c = \<lparr>tp_queue_max_num = 1, tp_queue_cur_num = length jobs, tp_jobs = jobs,
     tp_queue_close = q, tp_pool_close = c\<rparr>"

definition sys1 :: "tpool \<Rightarrow> nat \<Rightarrow> nat list \<Rightarrow> nat \<Rightarrow> nat list \<Rightarrow> closer \<Rightarrow> nat list \<Rightarrow> nat list \<Rightarrow> psys" where
  "sys1 p ready busy exited adders c acc taken =
     \<lparr>ps_pool = p, ps_ready = ready, ps_wsleep = 0, ps_busy = busy, ps_exited = exited,
      ps_adders = adders, ps_asleep = [], ps_closer = c, ps_accepted = acc, ps_taken = taken\<rparr>"

lemmas sys1_defs = sys1_def pool1_def pool_op_defs

lemma run_call: "pool_reach 1 1 (sys1 (pool1 [] False False) 1 [] 0 [5] NoClose [] [])"
proof -
  have "pool_step (pool_start 1 1) (sys1 (pool1 [] False False) 1 [] 0 [5] NoClose [] [])"
    using pool_step.call [of "pool_start 1 1" 5] by (simp add: sys1_defs)
  then show ?thesis using pool_reach.step [OF pool_reach.start] by blast
qed

lemma run_one_job: "pool_reach 1 1 (sys1 (pool1 [] False False) 0 [5] 0 [] NoClose [5] [5])"
proof -
  have "pool_step (sys1 (pool1 [] False False) 1 [] 0 [5] NoClose [] [])
      (sys1 (pool1 [5] False False) 1 [] 0 [] NoClose [5] [])"
    using pool_step.add_ok [of "sys1 (pool1 [] False False) 1 [] 0 [5] NoClose [] []" "[]" 5 "[]"
        "pool1 [5] False False" True] by (simp add: sys1_defs)
  moreover have "pool_step (sys1 (pool1 [5] False False) 1 [] 0 [] NoClose [5] [])
      (sys1 (pool1 [] False False) 0 [5] 0 [] NoClose [5] [5])"
    using pool_step.work_take [of "sys1 (pool1 [5] False False) 1 [] 0 [] NoClose [5] []"
        "pool1 [] False False" 5 True True] by (simp add: sys1_defs Let_def)
  ultimately show ?thesis using pool_reach.step run_call by blast
qed

lemma pool_runs_jobs_in_order_witness:
  "ps_accepted (sys1 (pool1 [] False False) 0 [5] 0 [] NoClose [5] [5]) = [5] @ []
   \<and> threadpool_function (pool1 [] False False) \<noteq> WorkNull"
  using pool_runs_jobs_in_order [OF run_one_job] by (simp add: sys1_defs)

text \<open>
  C14: No wake-up is lost: a worker sleeps only while there is no job or until the broadcast
  of the destroyer, a caller sleeps only while the queue is full, and the destroyer only while
  jobs are queued.
\<close>

theorem pool_has_no_lost_wakeup:
  assumes "pool_reach n m s"
  shows "(0 < ps_wsleep s \<longrightarrow> ps_closer s = CloseShut \<or> threadpool_function (ps_pool s) = WorkWait)
    \<and> (ps_asleep s \<noteq> [] \<longrightarrow> length (tp_jobs (ps_pool s)) = m)
    \<and> (ps_closer s = CloseSleep \<longrightarrow> threadpool_destroy_wait (ps_pool s) = None
         \<and> ps_ready s + length (ps_busy s) + ps_exited s = n)"
  using pool_reach_inv [OF assms]
  by (auto simp: pool_inv_def threadpool_function_def threadpool_destroy_wait_def)

lemma pool_has_no_lost_wakeup_witness:
  "\<exists>s. pool_reach 1 1 s \<and> 0 < ps_wsleep s \<and> threadpool_function (ps_pool s) = WorkWait"
proof -
  let ?s = "(pool_start 1 1)\<lparr>ps_ready := 0, ps_wsleep := 1\<rparr>"
  have "pool_step (pool_start 1 1) ?s"
    using pool_step.work_wait [of "pool_start 1 1"] by (simp add: pool_op_defs)
  then have r: "pool_reach 1 1 ?s" using pool_reach.step [OF pool_reach.start] by blast
  have "threadpool_function (ps_pool ?s) = WorkWait"
    using pool_has_no_lost_wakeup [OF r] by (simp add: pool_start_def)
  then show ?thesis using r by (intro exI [of _ ?s]) simp
qed

text \<open>
  The pool can be destroyed and freed while a caller of threadpool_add_job is still waiting
  for its mutex.
\<close>

theorem pool_freed_under_a_caller:
  "\<exists>s. pool_reach 1 1 s \<and> ps_closer s = CloseFreed \<and> ps_adders s \<noteq> [] \<and> ps_taken s = ps_accepted s"
proof -
  let ?s = "\<lambda>c. sys1 (pool1 [] True c) 1 [] 0 [5]"
  have "pool_step (sys1 (pool1 [] False False) 1 [] 0 [5] NoClose [] []) (?s False CloseTest [] [])"
    using pool_step.close_begin [of "sys1 (pool1 [] False False) 1 [] 0 [5] NoClose [] []" "pool1 [] True False"]
    by (simp add: sys1_defs)
  then have "pool_reach 1 1 (?s False CloseTest [] [])" using pool_reach.step [OF run_call] by blast
  moreover have "pool_step (?s False CloseTest [] []) (?s True CloseShut [] [])"
    using pool_step.close_shut [of "?s False CloseTest [] []" "pool1 [] True True"] by (simp add: sys1_defs)
  moreover have "pool_step (?s True CloseShut [] []) (?s True CloseJoin [] [])"
    using pool_step.close_wake [of "?s True CloseShut [] []"] by (simp add: sys1_defs)
  moreover have "pool_step (?s True CloseJoin [] []) (sys1 (pool1 [] True True) 0 [] 1 [5] CloseJoin [] [])"
    using pool_step.work_exit [of "?s True CloseJoin [] []"] by (simp add: sys1_defs)
  moreover have "pool_step (sys1 (pool1 [] True True) 0 [] 1 [5] CloseJoin [] [])
      (sys1 (pool1 [] True True) 0 [] 1 [5] CloseFreed [] [])"
    using pool_step.close_free [of "sys1 (pool1 [] True True) 0 [] 1 [5] CloseJoin [] []"] by (simp add: sys1_defs)
  ultimately have "pool_reach 1 1 (sys1 (pool1 [] True True) 0 [] 1 [5] CloseFreed [] [])"
    by (meson pool_reach.step)
  then show ?thesis
    by (intro exI [of _ "sys1 (pool1 [] True True) 0 [] 1 [5] CloseFreed [] []"]) (simp add: sys1_def)
qed

end
