(* ===== verification/Clock5338.thy ===== *)
theory Clock5338
  imports Prelude "HOL-Library.Monad_Syntax"
begin

text \<open>
  The Si5338 clock generator, \<open>hw/clk/clk.c\<close>: the register table, the search in it by
  register address, the MultiSynth parameters \<open>P1\<close>, \<open>P2\<close>, \<open>P3\<close> and their spreading over
  the registers 86 to 95, and the sequence of I2C writes. \<open>char\<close> is unsigned (ARM). Shown:
  the parameters represent the divider exactly, the registers give them back, and nothing
  else of the table changes.
\<close>

record Reg_Data =
  Reg_Addr :: u8
  Reg_Val :: u8
  Reg_Mask :: u8

definition reg_table_low :: "(u8 \<times> u8 \<times> u8) list" where
  "reg_table_low =
    [(27,0x70,0x80), (28,0x16,0xFF), (29,0x90,0xFF), (30,0xB0,0xFF), (31,0xC0,0xFF), (32,0xC0,0xFF), 
     (33,0xC0,0xFF), (34,0xC0,0xFF), (35,0x00,0xFF), (36,0x06,0x1F), (37,0x06,0x1F), (38,0x06,0x1F), 
     (39,0x06,0x1F), (40,0x63,0xFF), (41,0x0C,0x7F), (42,0x23,0x3F), (43,0x00,0x00), (44,0x00,0x00), 
     (45,0x00,0xFF), (46,0x00,0xFF), (47,0x14,0x3F), (48,0x3D,0xFF), (49,0x00,0xFF), (50,0xC4,0xFF), 
     (51,0x07,0xFF), (52,0x10,0xFF), (53,0x00,0xFF), (54,0x07,0xFF), (55,0x00,0xFF), (56,0x00,0xFF), 
     (57,0x00,0xFF), (58,0x00,0xFF), (59,0x01,0xFF), (60,0x00,0xFF), (61,0x00,0xFF), (62,0x00,0x3F), 
     (63,0x10,0xFF), (64,0x00,0xFF), (65,0x07,0xFF), (66,0x00,0xFF), (67,0x00,0xFF), (68,0x00,0xFF), 
     (69,0x00,0xFF), (70,0x01,0xFF), (71,0x00,0xFF), (72,0x00,0xFF), (73,0x00,0x3F), (74,0x10,0xFF), 
     (75,0x13,0xFF), (76,0x04,0xFF), (77,0x10,0xFF), (78,0x00,0xFF), (79,0x00,0xFF), (80,0x00,0xFF), 
     (81,0x14,0xFF), (82,0x00,0xFF), (83,0x00,0xFF), (84,0x00,0x3F), (85,0x10,0xFF), (86,0xA5,0xFF), 
     (87,0x0B,0xFF), (88,0xF4,0xFF), (89,0x5A,0xFF), (90,0x00,0xFF), (91,0x00,0xFF), (92,0xC7,0xFF), 
     (93,0x22,0xFF), (94,0x00,0xFF), (95,0x00,0x3F), (96,0x10,0x00), (97,0x99,0xFF), (98,0x2E,0xFF), 
     (99,0x0C,0xFF), (100,0x00,0xFF), (101,0x00,0xFF), (102,0x00,0xFF), (103,0x05,0xFF), 
     (104,0x00,0xFF), (105,0x00,0xFF), (106,0x80,0xBF), (107,0x00,0xFF), (108,0x00,0xFF), 
     (109,0x00,0xFF), (110,0x40,0xFF), (111,0x00,0xFF), (112,0x00,0xFF), (113,0x00,0xFF), 
     (114,0x40,0xFF), (115,0x00,0xFF), (116,0x80,0xFF), (117,0x00,0xFF), (118,0x40,0xFF), 
     (119,0x00,0xFF), (120,0x00,0xFF), (121,0x00,0xFF), (122,0x40,0xFF), (123,0x00,0xFF), 
     (124,0x00,0xFF), (125,0x00,0xFF), (126,0x00,0xFF), (127,0x00,0xFF), (128,0x00,0xFF)]"

definition reg_table_high :: "(u8 \<times> u8 \<times> u8) list" where
  "reg_table_high =
    [(129,0x00,0x0F), (130,0x00,0x0F), (131,0x00,0xFF), (132,0x00,0xFF), (133,0x00,0xFF), 
     (134,0x00,0xFF), (135,0x00,0xFF), (136,0x00,0xFF), (137,0x00,0xFF), (138,0x00,0xFF), 
     (139,0x00,0xFF), (140,0x00,0xFF), (141,0x00,0xFF), (142,0x00,0xFF), (143,0x00,0xFF), 
     (144,0x00,0xFF), (145,0x00,0x00), (146,0xFF,0x00), (147,0x00,0x00), (148,0x00,0x00), 
     (149,0x00,0x00), (150,0x00,0x00), (151,0x00,0x00), (152,0x00,0xFF), (153,0x00,0xFF), 
     (154,0x00,0xFF), (155,0x00,0xFF), (156,0x00,0xFF), (157,0x00,0xFF), (158,0x00,0x0F), 
     (159,0x00,0x0F), (160,0x00,0xFF), (161,0x00,0xFF), (162,0x00,0xFF), (163,0x00,0xFF), 
     (164,0x00,0xFF), (165,0x00,0xFF), (166,0x00,0xFF), (167,0x00,0xFF), (168,0x00,0xFF), 
     (169,0x00,0xFF), (170,0x00,0xFF), (171,0x00,0xFF), (172,0x00,0xFF), (173,0x00,0xFF), 
     (174,0x00,0xFF), (175,0x00,0xFF), (176,0x00,0xFF), (177,0x00,0xFF), (178,0x00,0xFF), 
     (179,0x00,0xFF), (180,0x00,0xFF), (181,0x00,0x0F), (182,0x00,0xFF), (183,0x00,0xFF), 
     (184,0x00,0xFF), (185,0x00,0xFF), (186,0x00,0xFF), (187,0x00,0xFF), (188,0x00,0xFF), 
     (189,0x00,0xFF), (190,0x00,0xFF), (191,0x00,0xFF), (192,0x00,0xFF), (193,0x00,0xFF), 
     (194,0x00,0xFF), (195,0x00,0xFF), (196,0x00,0xFF), (197,0x00,0xFF), (198,0x00,0xFF), 
     (199,0x00,0xFF), (200,0x00,0xFF), (201,0x00,0xFF), (202,0x00,0xFF), (203,0x00,0x0F), 
     (204,0x00,0xFF), (205,0x00,0xFF), (206,0x00,0xFF), (207,0x00,0xFF), (208,0x00,0xFF), 
     (209,0x00,0xFF), (210,0x00,0xFF), (211,0x00,0xFF), (212,0x00,0xFF), (213,0x00,0xFF), 
     (214,0x00,0xFF), (215,0x00,0xFF), (216,0x00,0xFF), (217,0x00,0xFF), (218,0x00,0xFF), 
     (219,0x00,0xFF), (220,0x00,0xFF), (221,0x0D,0xFF), (222,0x00,0xFF), (223,0x00,0xFF), 
     (224,0xF4,0xFF), (225,0xF0,0xFF), (226,0x00,0xFF), (227,0x00,0xFF), (228,0x00,0xFF), 
     (229,0x00,0xFF), (231,0x00,0xFF), (232,0x00,0xFF), (233,0x00,0xFF), (234,0x00,0xFF), 
     (235,0x00,0xFF), (236,0x00,0xFF), (237,0x00,0xFF), (238,0x14,0xFF), (239,0x00,0xFF), 
     (240,0x00,0xFF), (242,0x00,0xFF), (243,0xF0,0xFF), (244,0x00,0xFF), (245,0x00,0xFF), 
     (247,0x00,0xFF), (248,0x00,0xFF), (249,0xA8,0xFF), (250,0x00,0xFF), (251,0x84,0xFF), 
     (246,0x02,0xFF), (246,0x00,0xFF)]"

definition reg_table :: "(u8 \<times> u8 \<times> u8) list" where
  "reg_table = reg_table_low @ reg_table_high"

definition Reg_Store :: "Reg_Data list" where
  "Reg_Store = map (\<lambda>(a, v, m). \<lparr>Reg_Addr = a, Reg_Val = v, Reg_Mask = m\<rparr>) reg_table"

text \<open>The first index with the address, as a \<open>char\<close>; \<open>-1\<close> becomes 255.\<close>

fun find_addr :: "Reg_Data list \<Rightarrow> u8 \<Rightarrow> nat \<Rightarrow> u8" where
  "find_addr [] addr i = -1"
| "find_addr (r # rs) addr i = (if Reg_Addr r = addr then word_of_nat i else find_addr rs addr (i + 1))"

definition getIndexByaddr :: "Reg_Data list \<Rightarrow> u8 \<Rightarrow> u8" where
  "getIndexByaddr rs addr = find_addr rs addr 0"

text \<open>\<open>None\<close>: the \<open>int\<close> arithmetic overflows.\<close>

definition int32 :: "int \<Rightarrow> int option" where
  "int32 x = (if -(2 ^ 31) \<le> x \<and> x < 2 ^ 31 then Some x else None)"

definition calc_p1 :: "int \<Rightarrow> int \<Rightarrow> int \<Rightarrow> int option" where
  "calc_p1 a b c = do {
     m \<leftarrow> int32 (a * c);
     s \<leftarrow> int32 (m + b);
     t \<leftarrow> int32 (s * 128);
     int32 (t div c - 512)
   }"

definition calc_p2 :: "int \<Rightarrow> int \<Rightarrow> int \<Rightarrow> int option" where
  "calc_p2 a b c = do { m \<leftarrow> int32 (b * 128); Some (m mod c) }"

definition calc_p3 :: "int \<Rightarrow> int \<Rightarrow> int \<Rightarrow> int option" where
  "calc_p3 a b c = Some c"

definition set_val :: "Reg_Data list \<Rightarrow> u8 \<Rightarrow> (u8 \<Rightarrow> u8) \<Rightarrow> Reg_Data list" where
  "set_val rs addr f =
     (let i = unat (getIndexByaddr rs addr) in rs[i := (rs ! i)\<lparr>Reg_Val := f (Reg_Val (rs ! i))\<rparr>])"

definition calc_msx_reg_p1 :: "u32 \<Rightarrow> Reg_Data list \<Rightarrow> Reg_Data list" where
  "calc_msx_reg_p1 p rs0 =
     (let rs1 = set_val rs0 86 (\<lambda>_. ucast (p AND 0xFF));
          rs2 = set_val rs1 87 (\<lambda>_. ucast (drop_bit 8 p AND 0xFF))
      in set_val rs2 88 (\<lambda>_. ucast (drop_bit 16 p AND 0x03)))"

definition calc_msx_reg_p2 :: "u32 \<Rightarrow> Reg_Data list \<Rightarrow> Reg_Data list" where
  "calc_msx_reg_p2 p rs0 =
     (let rs1 = set_val rs0 88 (\<lambda>v. v OR ucast (push_bit 2 (p AND 0x3F)));
          rs2 = set_val rs1 89 (\<lambda>_. ucast (drop_bit 6 p AND 0xFF));
          rs3 = set_val rs2 90 (\<lambda>_. ucast (drop_bit 14 p AND 0xFF))
      in set_val rs3 91 (\<lambda>_. ucast (drop_bit 22 p AND 0xFF)))"

definition calc_msx_reg_p3 :: "u32 \<Rightarrow> Reg_Data list \<Rightarrow> Reg_Data list" where
  "calc_msx_reg_p3 p rs0 =
     (let rs1 = set_val rs0 92 (\<lambda>_. ucast (p AND 0xFF));
          rs2 = set_val rs1 93 (\<lambda>_. ucast (drop_bit 8 p AND 0xFF));
          rs3 = set_val rs2 94 (\<lambda>_. ucast (drop_bit 16 p AND 0xFF))
      in set_val rs3 95 (\<lambda>_. ucast (drop_bit 24 p AND 0xFF)))"

text \<open>The I2C writes, as device, register, value.\<close>

definition i2c_writes :: "Reg_Data list \<Rightarrow> (u8 \<times> u8 \<times> u8) list" where
  "i2c_writes rs = map (\<lambda>r. (0x70, Reg_Addr r, Reg_Val r)) rs"

definition clock_5338_init :: "Reg_Data list \<Rightarrow> (u8 \<times> u8 \<times> u8) list" where
  "clock_5338_init rs = i2c_writes rs"

text \<open>The fraction of the divider, in 1/10000, is computed with \<open>double\<close>s in the code; it is
  the argument \<open>msx_b\<close>, at most one below the exact value.\<close>

definition clock_5338_setFreq :: "int \<Rightarrow> int \<Rightarrow> Reg_Data list \<Rightarrow> (Reg_Data list \<times> (u8 \<times> u8 \<times> u8) list) option" where
  "clock_5338_setFreq outFreq msx_b rs = do {
     let msx_a = (2430 * 1000) div outFreq;
     let msx_c = 10000;
     p1 \<leftarrow> calc_p1 msx_a msx_b msx_c;
     p2 \<leftarrow> calc_p2 msx_a msx_b msx_c;
     p3 \<leftarrow> calc_p3 msx_a msx_b msx_c;
     let rs' = calc_msx_reg_p3 (word_of_int p3) (calc_msx_reg_p2 (word_of_int p2)
                 (calc_msx_reg_p1 (word_of_int p1) rs));
     Some (rs', i2c_writes rs')
   }"

section \<open>The table\<close>

definition addrs_ok :: "Reg_Data list \<Rightarrow> bool" where
  "addrs_ok rs \<longleftrightarrow> map Reg_Addr rs = map Reg_Addr Reg_Store"

lemma find_addr_map: "find_addr rs addr i = find_addr (map (\<lambda>a. \<lparr>Reg_Addr = a, Reg_Val = 0, Reg_Mask = 0\<rparr>) (map Reg_Addr rs)) addr i"
  by (induction rs arbitrary: i) auto

lemma getIndex_addrs: "addrs_ok rs \<Longrightarrow> getIndexByaddr rs a = getIndexByaddr Reg_Store a"
  unfolding getIndexByaddr_def addrs_ok_def
  by (subst (1 2) find_addr_map) simp

lemma table_index:
  "getIndexByaddr Reg_Store 86 = 59" "getIndexByaddr Reg_Store 87 = 60" "getIndexByaddr Reg_Store 88 = 61"
  "getIndexByaddr Reg_Store 89 = 62" "getIndexByaddr Reg_Store 90 = 63" "getIndexByaddr Reg_Store 91 = 64"
  "getIndexByaddr Reg_Store 92 = 65" "getIndexByaddr Reg_Store 93 = 66" "getIndexByaddr Reg_Store 94 = 67"
  "getIndexByaddr Reg_Store 95 = 68"
  by (simp_all add: getIndexByaddr_def Reg_Store_def reg_table_def reg_table_low_def reg_table_high_def)

lemma length_Reg_Store: "length Reg_Store = 224"
  by (simp add: Reg_Store_def reg_table_def reg_table_low_def reg_table_high_def)

lemma length_addrs: "addrs_ok rs \<Longrightarrow> length rs = 224"
  unfolding addrs_ok_def by (drule map_eq_imp_length_eq) (simp add: length_Reg_Store)

lemma addrs_ok_set: "addrs_ok rs \<Longrightarrow> addrs_ok (set_val rs a f)"
  unfolding addrs_ok_def set_val_def Let_def
  by (metis (no_types, lifting) Reg_Data.select_convs(1) Reg_Data.surjective Reg_Data.update_convs(2)
      list_update_id map_update)

definition reg_val :: "Reg_Data list \<Rightarrow> nat \<Rightarrow> u8" where
  "reg_val rs i = Reg_Val (rs ! i)"

lemma reg_val_set:
  assumes "addrs_ok rs" "getIndexByaddr Reg_Store a = k" "unat k < 224"
  shows "reg_val (set_val rs a f) j = (if j = unat k then f (reg_val rs j) else reg_val rs j)"
  using assms length_addrs [OF assms(1)] getIndex_addrs [OF assms(1), of a]
  by (auto simp: reg_val_def set_val_def Let_def nth_list_update)

section \<open>The divider parameters\<close>

lemma int32_Some: "int32 x = Some y \<longleftrightarrow> y = x \<and> -(2 ^ 31) \<le> x \<and> x < 2 ^ 31"
  by (auto simp: int32_def)

lemma calc_p12_exact:
  assumes "0 < c" "calc_p1 a b c = Some p1" "calc_p2 a b c = Some p2"
  shows "(p1 + 512) * c + p2 = 128 * (a * c + b)"
proof -
  have p: "p1 = ((a * c + b) * 128) div c - 512" "p2 = (b * 128) mod c"
    using assms(2,3) by (auto simp: calc_p1_def calc_p2_def int32_Some split: Option.bind_splits)
  have "(a * c + b) * 128 = b * 128 + (a * 128) * c" by (simp add: algebra_simps)
  then have "((a * c + b) * 128) div c = (b * 128) div c + a * 128"
    using assms(1) by (simp only: div_mult_self1)
  then have "(p1 + 512) * c + p2 = (b * 128) div c * c + (b * 128) mod c + a * 128 * c"
    by (simp add: p algebra_simps)
  then show ?thesis by (simp add: algebra_simps)
qed

text \<open>For output frequencies that keep the products in range, no step overflows.\<close>

lemma calc_p1_defined:
  assumes "0 \<le> a" "a < 1677" "0 \<le> b" "b < 10000"
  shows "calc_p1 a b 10000 = Some ((a * 10000 + b) * 128 div 10000 - 512)"
proof -
  define t where "t = (a * 10000 + b) * 128"
  have t: "0 \<le> t" "t < 2 ^ 31" using assms by (simp_all add: t_def)
  have "t div 10000 \<le> t div 1" using t by (intro zdiv_mono2) simp_all
  then have "0 \<le> t div 10000" "t div 10000 < 2 ^ 31"
    using t by (simp_all add: pos_imp_zdiv_nonneg_iff)
  then show ?thesis using assms t by (simp add: calc_p1_def int32_def t_def [symmetric])
qed

section \<open>The parameters in the registers\<close>

definition regs_p1 :: "Reg_Data list \<Rightarrow> u32" where
  "regs_p1 rs = ucast (reg_val rs 59) OR push_bit 8 (ucast (reg_val rs 60))
     OR push_bit 16 (ucast (reg_val rs 61 AND 3))"

definition regs_p2 :: "Reg_Data list \<Rightarrow> u32" where
  "regs_p2 rs = ucast (drop_bit 2 (reg_val rs 61)) OR push_bit 6 (ucast (reg_val rs 62))
     OR push_bit 14 (ucast (reg_val rs 63)) OR push_bit 22 (ucast (reg_val rs 64))"

definition regs_p3 :: "Reg_Data list \<Rightarrow> u32" where
  "regs_p3 rs = ucast (reg_val rs 65) OR push_bit 8 (ucast (reg_val rs 66))
     OR push_bit 16 (ucast (reg_val rs 67)) OR push_bit 24 (ucast (reg_val rs 68))"

lemma msx_regs:
  fixes p1 p2 p3 :: u32
  assumes "addrs_ok rs"
  defines "rs' \<equiv> calc_msx_reg_p3 p3 (calc_msx_reg_p2 p2 (calc_msx_reg_p1 p1 rs))"
  shows "addrs_ok rs'"
    and "reg_val rs' 59 = ucast (p1 AND 0xFF)" "reg_val rs' 60 = ucast (drop_bit 8 p1 AND 0xFF)"
    and "reg_val rs' 61 = ucast (drop_bit 16 p1 AND 3) OR ucast (push_bit 2 (p2 AND 0x3F))"
    and "reg_val rs' 62 = ucast (drop_bit 6 p2 AND 0xFF)" "reg_val rs' 63 = ucast (drop_bit 14 p2 AND 0xFF)"
    and "reg_val rs' 64 = ucast (drop_bit 22 p2 AND 0xFF)" "reg_val rs' 65 = ucast (p3 AND 0xFF)"
    and "reg_val rs' 66 = ucast (drop_bit 8 p3 AND 0xFF)" "reg_val rs' 67 = ucast (drop_bit 16 p3 AND 0xFF)"
    and "reg_val rs' 68 = ucast (drop_bit 24 p3 AND 0xFF)"
    and "\<And>j. j < 59 \<or> 68 < j \<Longrightarrow> reg_val rs' j = reg_val rs j"
  using assms(1)
  by (simp_all add: rs'_def calc_msx_reg_p1_def calc_msx_reg_p2_def calc_msx_reg_p3_def Let_def
      addrs_ok_set reg_val_set table_index) auto

lemma and_mask_bit:
  "bit (w AND 0xFF) n \<longleftrightarrow> n < 8 \<and> bit w n" "bit (w AND 0x3F) n \<longleftrightarrow> n < 6 \<and> bit w n"
  "bit (w AND 3) n \<longleftrightarrow> n < 2 \<and> bit w n" for w :: "'a::len word"
proof -
  have e: "w AND 0xFF = take_bit 8 w" "w AND 0x3F = take_bit 6 w" "w AND 3 = take_bit 2 w"
    by (simp_all add: mask_eq_exp_minus_1 take_bit_eq_mask)
  show "bit (w AND 0xFF) n \<longleftrightarrow> n < 8 \<and> bit w n" "bit (w AND 0x3F) n \<longleftrightarrow> n < 6 \<and> bit w n"
    "bit (w AND 3) n \<longleftrightarrow> n < 2 \<and> bit w n"
    unfolding e by (simp_all add: bit_take_bit_iff)
qed

lemma push_mask_bit: "bit (push_bit 2 w AND 252) n \<longleftrightarrow> n < 8 \<and> 2 \<le> n \<and> bit w (n - 2)" for w :: u32
proof -
  have e: "push_bit 2 w AND 252 = push_bit 2 (w AND 0x3F)" by simp
  show ?thesis unfolding e by (simp only: bit_push_bit_iff and_mask_bit) (auto dest: bit_imp_le_length)
qed

lemma small_bits:
  "unat (w :: u32) < 2 ^ k \<Longrightarrow> bit w n \<Longrightarrow> n < k"
proof (rule ccontr)
  assume w: "unat w < 2 ^ k" and b: "bit w n" and "\<not> n < k"
  then have "2 ^ k \<le> (2::nat) ^ n" by simp
  moreover have "2 ^ n \<le> unat w"
  proof (rule ccontr)
    assume "\<not> 2 ^ n \<le> unat w"
    then have "unat w div 2 ^ n = 0" by simp
    then have "\<not> bit (unat w) n" by (simp add: bit_iff_odd)
    moreover have "n < 32" using b by (auto dest: bit_imp_le_length)
    ultimately show False using b by (simp add: bit_unsigned_iff)
  qed
  ultimately show False using w by linarith
qed

lemmas field_bits = bit_or_iff bit_push_bit_iff bit_drop_bit_eq ucast_bit and_mask_bit
  push_mask_bit

text \<open>The registers give the parameters back, and no other register changes.\<close>

lemma msx_regs_roundtrip:
  fixes p1 p2 p3 :: u32
  assumes ok: "addrs_ok rs" and p: "unat p1 < 2 ^ 18" "unat p2 < 2 ^ 30"
  defines "rs' \<equiv> calc_msx_reg_p3 p3 (calc_msx_reg_p2 p2 (calc_msx_reg_p1 p1 rs))"
  shows "regs_p1 rs' = p1" "regs_p2 rs' = p2" "regs_p3 rs' = p3"
proof -
  note r = msx_regs [OF ok, where ?p1.0 = p1 and ?p2.0 = p2 and ?p3.0 = p3, folded rs'_def]
  show "regs_p1 rs' = p1"
  proof (rule bit_word_eqI)
    fix n assume n: "n < LENGTH(32)"
    have b: "bit p1 n \<Longrightarrow> n < 18" by (rule small_bits [OF p(1)])
    consider "n < 8" | "8 \<le> n" "n < 16" | "16 \<le> n" "n < 18" | "18 \<le> n" by linarith
    then show "bit (regs_p1 rs') n \<longleftrightarrow> bit p1 n"
      using n b unfolding regs_p1_def r by cases (auto simp: field_bits)
  qed
  show "regs_p2 rs' = p2"
  proof (rule bit_word_eqI)
    fix n assume n: "n < LENGTH(32)"
    have b: "bit p2 n \<Longrightarrow> n < 30" by (rule small_bits [OF p(2)])
    consider "n < 6" | "6 \<le> n" "n < 14" | "14 \<le> n" "n < 22" | "22 \<le> n" by linarith
    then show "bit (regs_p2 rs') n \<longleftrightarrow> bit p2 n"
      using n b unfolding regs_p2_def r by cases (auto simp: field_bits)
  qed
  show "regs_p3 rs' = p3"
  proof (rule bit_word_eqI)
    fix n assume n: "n < LENGTH(32)"
    then consider "n < 8" | "8 \<le> n" "n < 16" | "16 \<le> n" "n < 24" | "24 \<le> n" by linarith
    then show "bit (regs_p3 rs') n \<longleftrightarrow> bit p3 n"
      using n unfolding regs_p3_def r by cases (auto simp: field_bits)
  qed
qed

text \<open>Setting a frequency: the registers hold a divider whose value is \<open>a + b / 10000\<close>, all
  writes go to the device, and the registers outside 86..95 keep their values.\<close>

lemma setFreq_programs:
  assumes ok: "addrs_ok rs" and f: "1450 \<le> f" "f \<le> 607500" and b: "0 \<le> b" "b < 10000"
  shows "\<exists>rs' p1 p2. clock_5338_setFreq f b rs = Some (rs', i2c_writes rs') \<and> addrs_ok rs'
    \<and> regs_p1 rs' = word_of_int p1 \<and> regs_p2 rs' = word_of_int p2 \<and> regs_p3 rs' = 10000
    \<and> 0 \<le> p1 \<and> p1 < 2 ^ 18 \<and> 0 \<le> p2 \<and> p2 < 2 ^ 30
    \<and> (p1 + 512) * 10000 + p2 = 128 * (2430000 div f * 10000 + b)
    \<and> (\<forall>j. j < 59 \<or> 68 < j \<longrightarrow> reg_val rs' j = reg_val rs j)"
proof -
  let ?a = "2430000 div f"
  have a: "4 \<le> ?a" "?a < 1677"
  proof -
    have "2430000 div 607500 \<le> 2430000 div f" using f by (intro zdiv_mono2) simp_all
    then show "4 \<le> ?a" by simp
    have "2430000 div f \<le> 2430000 div 1450" using f by (intro zdiv_mono2) simp_all
    then show "?a < 1677" by simp
  qed
  define p1 where "p1 = (?a * 10000 + b) * 128 div 10000 - 512"
  define p2 where "p2 = (b * 128) mod 10000"
  have c1: "calc_p1 ?a b 10000 = Some p1" using calc_p1_defined [of ?a b] a b by (simp add: p1_def)
  have c2: "calc_p2 ?a b 10000 = Some p2" using b by (simp add: calc_p2_def int32_def p2_def)
  have eq: "(p1 + 512) * 10000 + p2 = 128 * (?a * 10000 + b)"
    by (rule calc_p12_exact [OF _ c1 c2]) simp
  have p2: "0 \<le> p2" "p2 < 10000" by (simp_all add: p2_def)
  have p1: "0 \<le> p1" "p1 < 2 ^ 18" using eq p2 a b by simp_all
  let ?rs = "calc_msx_reg_p3 10000 (calc_msx_reg_p2 (word_of_int p2) (calc_msx_reg_p1 (word_of_int p1) rs))"
  have u: "unat (word_of_int p1 :: u32) < 2 ^ 18" "unat (word_of_int p2 :: u32) < 2 ^ 30"
    using p1 p2 by (simp_all add: unsigned_of_int take_bit_int_eq_self nat_less_iff)
  have "clock_5338_setFreq f b rs = Some (?rs, i2c_writes ?rs)"
    using c1 c2 by (simp add: clock_5338_setFreq_def calc_p3_def Let_def)
  moreover note msx_regs_roundtrip [OF ok u, where ?p3.0 = 10000] msx_regs(1,12) [OF ok]
  ultimately show ?thesis using p1 p2 eq by (intro exI [of _ ?rs] exI [of _ p1] exI [of _ p2]) simp
qed

text \<open>
  C10: For output frequencies from 1450 to 607500 kHz clock_5338_setFreq overflows nowhere,
  and the registers it writes hold divider parameters that encode exactly the ratio a +
  b/10000; all other registers keep their values.
\<close>

theorem set_frequency_programs_divider:
  assumes ok: "addrs_ok rs" and f: "1450 \<le> f" "f \<le> 607500" and b: "0 \<le> b" "b < 10000"
  shows "\<exists>rs' p1 p2. clock_5338_setFreq f b rs = Some (rs', i2c_writes rs') \<and> addrs_ok rs'
    \<and> regs_p1 rs' = word_of_int p1 \<and> regs_p2 rs' = word_of_int p2 \<and> regs_p3 rs' = 10000
    \<and> 0 \<le> p1 \<and> p1 < 2 ^ 18 \<and> 0 \<le> p2 \<and> p2 < 2 ^ 30
    \<and> (p1 + 512) * 10000 + p2 = 128 * (2430000 div f * 10000 + b)
    \<and> (\<forall>j. j < 59 \<or> 68 < j \<longrightarrow> reg_val rs' j = reg_val rs j)"
  by (rule setFreq_programs [OF assms])

lemma set_frequency_programs_divider_witness:
  "\<exists>rs' p1 p2. clock_5338_setFreq 148500 3636 Reg_Store = Some (rs', i2c_writes rs') \<and> addrs_ok rs'
    \<and> regs_p1 rs' = word_of_int p1 \<and> regs_p2 rs' = word_of_int p2 \<and> regs_p3 rs' = 10000
    \<and> (p1 + 512) * 10000 + p2 = 128 * (16 * 10000 + 3636)"
  using set_frequency_programs_divider [of Reg_Store 148500 3636] by (auto simp: addrs_ok_def)

text \<open>
  For output frequencies of at most 1440 kHz the int arithmetic of calc_p1 overflows.
\<close>

theorem low_frequency_overflows:
  assumes "0 < f" "f \<le> 1440" "0 \<le> b"
  shows "clock_5338_setFreq f b rs = None"
proof -
  have "2430000 div 1440 \<le> 2430000 div f" using assms by (intro zdiv_mono2) simp_all
  then have a: "1687 \<le> 2430000 div f" by simp
  have "int32 (2430000 div f * 10000 + b) = None \<or> int32 ((2430000 div f * 10000 + b) * 128) = None"
    using a assms(3) by (auto simp: int32_def)
  then have "calc_p1 (2430000 div f) b 10000 = None"
    by (auto simp: calc_p1_def int32_def split: Option.bind_splits)
  then show ?thesis by (simp add: clock_5338_setFreq_def Let_def)
qed

lemma low_frequency_overflows_witness: "clock_5338_setFreq 1000 0 Reg_Store = None"
  using low_frequency_overflows [of 1000 0 Reg_Store] by simp


end
