(* ===== verification/PowerTable.thy ===== *)
theory PowerTable
  imports Prelude
begin

text \<open>
  The error numbers of the power check (\<open>hw/common/include/common.h\<close>) and the table of
  messages for them (\<open>sgPwrErrorInfo\<close> in \<open>hw/power/source/pubPwrTask.c\<close>, UTF-8 bytes as the
  code writes them), with the search \<open>getErrorStr\<close>.
\<close>

text \<open>The two enumerations: the first starts at 0 too.\<close>

definition E_PWR_CHECK_ERR_OV :: int where "E_PWR_CHECK_ERR_OV = 0"
definition E_PWR_CHECK_ERR_OC :: int where "E_PWR_CHECK_ERR_OC = 1"
definition E_PWR_CHECK_ERR_UV :: int where "E_PWR_CHECK_ERR_UV = 2"
definition E_PWR_CHECK_ERR_UC :: int where "E_PWR_CHECK_ERR_UC = 3"

definition E_PWR_CHECK_OK :: int where "E_PWR_CHECK_OK = 0"
definition E_PWR_CHECK_ERR_VDD_OV :: int where "E_PWR_CHECK_ERR_VDD_OV = 1"
definition E_PWR_CHECK_ERR_VSP_OV :: int where "E_PWR_CHECK_ERR_VSP_OV = 9"
definition E_PWR_CHECK_ERR_VSN_OV :: int where "E_PWR_CHECK_ERR_VSN_OV = 13"
definition E_PWR_CHECK_ERR_VGH_OV :: int where "E_PWR_CHECK_ERR_VGH_OV = 17"
definition E_PWR_CHECK_ERR_VGL_OV :: int where "E_PWR_CHECK_ERR_VGL_OV = 21"
definition E_PWR_CHECK_ERR_VBL_OV :: int where "E_PWR_CHECK_ERR_VBL_OV = 29"
definition E_PWR_CHECK_ERR_VBL_OPEN :: int where "E_PWR_CHECK_ERR_VBL_OPEN = 33"
definition E_PWR_CHECK_OTHER :: int where "E_PWR_CHECK_OTHER = 39"

lemmas pwr_item_codes = E_PWR_CHECK_ERR_OV_def E_PWR_CHECK_ERR_OC_def E_PWR_CHECK_ERR_UV_def
  E_PWR_CHECK_ERR_UC_def E_PWR_CHECK_OK_def

lemmas pwr_rail_codes = E_PWR_CHECK_ERR_VDD_OV_def E_PWR_CHECK_ERR_VSP_OV_def
  E_PWR_CHECK_ERR_VSN_OV_def E_PWR_CHECK_ERR_VGH_OV_def E_PWR_CHECK_ERR_VGL_OV_def
  E_PWR_CHECK_ERR_VBL_OV_def E_PWR_CHECK_ERR_VBL_OPEN_def

text \<open>The table in three parts: VDD to VSN, VGH to VCOM, the backlight and the rest.\<close>

definition sgPwrErrorInfo_supply :: "(int \<times> u8 list) list" where
  "sgPwrErrorInfo_supply =
    [(1,
      [0xe7, 0x94, 0xb5, 0xe6, 0xba, 0x90, 0xe9, 0x94, 0x99, 0xe8, 0xaf, 0xaf, 0xef, 0xbc, 0x9a, 0x56,
       0x44, 0x44, 0xe8, 0xbf, 0x87, 0xe5, 0x8e, 0x8b, 0xef, 0xbc, 0x8c, 0xe8, 0xae, 0xbe, 0xe5, 0xa4,
       0x87, 0xe5, 0x85, 0xb3, 0xe7, 0x94, 0xb5, 0xef, 0xbc, 0x81, 0x00]),
     (3,
      [0xe7, 0x94, 0xb5, 0xe6, 0xba, 0x90, 0xe9, 0x94, 0x99, 0xe8, 0xaf, 0xaf, 0xef, 0xbc, 0x9a, 0x56,
       0x44, 0x44, 0xe6, 0xac, 0xa0, 0xe5, 0x8e, 0x8b, 0xef, 0xbc, 0x8c, 0xe8, 0xae, 0xbe, 0xe5, 0xa4,
       0x87, 0xe5, 0x85, 0xb3, 0xe7, 0x94, 0xb5, 0xef, 0xbc, 0x81, 0x00]),
     (2,
      [0xe7, 0x94, 0xb5, 0xe6, 0xba, 0x90, 0xe9, 0x94, 0x99, 0xe8, 0xaf, 0xaf, 0xef, 0xbc, 0x9a, 0x56,
       0x44, 0x44, 0xe8, 0xbf, 0x87, 0xe6, 0xb5, 0x81, 0xef, 0xbc, 0x8c, 0xe8, 0xae, 0xbe, 0xe5, 0xa4,
       0x87, 0xe5, 0x85, 0xb3, 0xe7, 0x94, 0xb5, 0x21, 0x00]),
     (4,
      [0xe7, 0x94, 0xb5, 0xe6, 0xba, 0x90, 0xe9, 0x94, 0x99, 0xe8, 0xaf, 0xaf, 0xef, 0xbc, 0x9a, 0x56,
       0x44, 0x44, 0xe6, 0xac, 0xa0, 0xe6, 0xb5, 0x81, 0xef, 0xbc, 0x8c, 0xe8, 0xae, 0xbe, 0xe5, 0xa4,
       0x87, 0xe5, 0x85, 0xb3, 0xe7, 0x94, 0xb5, 0x21, 0x00]),
     (5,
      [0xe7, 0x94, 0xb5, 0xe6, 0xba, 0x90, 0xe9, 0x94, 0x99, 0xe8, 0xaf, 0xaf, 0xef, 0xbc, 0x9a, 0x20,
       0x56, 0x49, 0x4e, 0x54, 0xe8, 0xbf, 0x87, 0xe5, 0x8e, 0x8b, 0xef, 0xbc, 0x8c, 0xe8, 0xae, 0xbe,
       0xe5, 0xa4, 0x87, 0xe5, 0x85, 0xb3, 0xe7, 0x94, 0xb5, 0x21, 0x00]),
     (7,
      [0xe7, 0x94, 0xb5, 0xe6, 0xba, 0x90, 0xe9, 0x94, 0x99, 0xe8, 0xaf, 0xaf, 0xef, 0xbc, 0x9a, 0x20,
       0x56, 0x49, 0x4e, 0x54, 0xe6, 0xac, 0xa0, 0xe5, 0x8e, 0x8b, 0xef, 0xbc, 0x8c, 0xe8, 0xae, 0xbe,
       0xe5, 0xa4, 0x87, 0xe5, 0x85, 0xb3, 0xe7, 0x94, 0xb5, 0x21, 0x00]),
     (6,
      [0xe7, 0x94, 0xb5, 0xe6, 0xba, 0x90, 0xe9, 0x94, 0x99, 0xe8, 0xaf, 0xaf, 0xef, 0xbc, 0x9a, 0x20,
       0x56, 0x49, 0x4e, 0x54, 0xe8, 0xbf, 0x87, 0xe6, 0xb5, 0x81, 0xef, 0xbc, 0x8c, 0xe8, 0xae, 0xbe,
       0xe5, 0xa4, 0x87, 0xe5, 0x85, 0xb3, 0xe7, 0x94, 0xb5, 0x21]),
     (8,
      [0xe7, 0x94, 0xb5, 0xe6, 0xba, 0x90, 0xe9, 0x94, 0x99, 0xe8, 0xaf, 0xaf, 0xef, 0xbc, 0x9a, 0x56,
       0x49, 0x4e, 0x54, 0xe6, 0xac, 0xa0, 0xe6, 0xb5, 0x81, 0xef, 0xbc, 0x8c, 0xe8, 0xae, 0xbe, 0xe5,
       0xa4, 0x87, 0xe5, 0x85, 0xb3, 0xe7, 0x94, 0xb5, 0x21, 0x00]),
     (9,
      [0xe7, 0x94, 0xb5, 0xe6, 0xba, 0x90, 0xe9, 0x94, 0x99, 0xe8, 0xaf, 0xaf, 0xef, 0xbc, 0x9a, 0x20,
       0x56, 0x53, 0x50, 0xe8, 0xbf, 0x87, 0xe5, 0x8e, 0x8b, 0xef, 0xbc, 0x8c, 0xe8, 0xae, 0xbe, 0xe5,
       0xa4, 0x87, 0xe5, 0x85, 0xb3, 0xe7, 0x94, 0xb5, 0x21, 0x00]),
     (11,
      [0xe7, 0x94, 0xb5, 0xe6, 0xba, 0x90, 0xe9, 0x94, 0x99, 0xe8, 0xaf, 0xaf, 0xef, 0xbc, 0x9a, 0x20,
       0x56, 0x53, 0x50, 0xe6, 0xac, 0xa0, 0xe5, 0x8e, 0x8b, 0xef, 0xbc, 0x8c, 0xe8, 0xae, 0xbe, 0xe5,
       0xa4, 0x87, 0xe5, 0x85, 0xb3, 0xe7, 0x94, 0xb5, 0x21, 0x00]),
     (10,
      [0xe7, 0x94, 0xb5, 0xe6, 0xba, 0x90, 0xe9, 0x94, 0x99, 0xe8, 0xaf, 0xaf, 0xef, 0xbc, 0x9a, 0x20,
       0x56, 0x53, 0x50, 0xe8, 0xbf, 0x87, 0xe6, 0xb5, 0x81, 0xef, 0xbc, 0x8c, 0xe8, 0xae, 0xbe, 0xe5,
       0xa4, 0x87, 0xe5, 0x85, 0xb3, 0xe7, 0x94, 0xb5, 0x21, 0x00]),
     (12,
      [0xe7, 0x94, 0xb5, 0xe6, 0xba, 0x90, 0xe9, 0x94, 0x99, 0xe8, 0xaf, 0xaf, 0xef, 0xbc, 0x9a, 0x20,
       0x56, 0x53, 0x50, 0xe6, 0xac, 0xa0, 0xe6, 0xb5, 0x81, 0xef, 0xbc, 0x8c, 0xe8, 0xae, 0xbe, 0xe5,
       0xa4, 0x87, 0xe5, 0x85, 0xb3, 0xe7, 0x94, 0xb5, 0x21, 0x00]),
     (13,
      [0xe7, 0x94, 0xb5, 0xe6, 0xba, 0x90, 0xe9, 0x94, 0x99, 0xe8, 0xaf, 0xaf, 0xef, 0xbc, 0x9a, 0x20,
       0x56, 0x53, 0x4e, 0xe8, 0xbf, 0x87, 0xe5, 0x8e, 0x8b, 0xef, 0xbc, 0x8c, 0xe8, 0xae, 0xbe, 0xe5,
       0xa4, 0x87, 0xe5, 0x85, 0xb3, 0xe7, 0x94, 0xb5, 0x21, 0x00]),
     (15,
      [0xe7, 0x94, 0xb5, 0xe6, 0xba, 0x90, 0xe9, 0x94, 0x99, 0xe8, 0xaf, 0xaf, 0xef, 0xbc, 0x9a, 0x20,
       0x56, 0x53, 0x4e, 0xe6, 0xac, 0xa0, 0xe5, 0x8e, 0x8b, 0xef, 0xbc, 0x8c, 0xe8, 0xae, 0xbe, 0xe5,
       0xa4, 0x87, 0xe5, 0x85, 0xb3, 0xe7, 0x94, 0xb5, 0x21, 0x00]),
     (14,
      [0xe7, 0x94, 0xb5, 0xe6, 0xba, 0x90, 0xe9, 0x94, 0x99, 0xe8, 0xaf, 0xaf, 0xef, 0xbc, 0x9a, 0x20,
       0x56, 0x53, 0x4e, 0xe8, 0xbf, 0x87, 0xe6, 0xb5, 0x81, 0xef, 0xbc, 0x8c, 0xe8, 0xae, 0xbe, 0xe5,
       0xa4, 0x87, 0xe5, 0x85, 0xb3, 0xe7, 0x94, 0xb5, 0x21, 0x00]),
     (16,
      [0xe7, 0x94, 0xb5, 0xe6, 0xba, 0x90, 0xe9, 0x94, 0x99, 0xe8, 0xaf, 0xaf, 0xef, 0xbc, 0x9a, 0x20,
       0x56, 0x53, 0x4e, 0xe6, 0xac, 0xa0, 0xe6, 0xb5, 0x81, 0xef, 0xbc, 0x8c, 0xe8, 0xae, 0xbe, 0xe5,
       0xa4, 0x87, 0xe5, 0x85, 0xb3, 0xe7, 0x94, 0xb5, 0x21, 0x00])]"

definition sgPwrErrorInfo_panel :: "(int \<times> u8 list) list" where
  "sgPwrErrorInfo_panel =
    [(17,
      [0xe7, 0x94, 0xb5, 0xe6, 0xba, 0x90, 0xe9, 0x94, 0x99, 0xe8, 0xaf, 0xaf, 0xef, 0xbc, 0x9a, 0x20,
       0x56, 0x47, 0x48, 0xe8, 0xbf, 0x87, 0xe5, 0x8e, 0x8b, 0xef, 0xbc, 0x8c, 0xe8, 0xae, 0xbe, 0xe5,
       0xa4, 0x87, 0xe5, 0x85, 0xb3, 0xe7, 0x94, 0xb5, 0x21, 0x00]),
     (19,
      [0xe7, 0x94, 0xb5, 0xe6, 0xba, 0x90, 0xe9, 0x94, 0x99, 0xe8, 0xaf, 0xaf, 0xef, 0xbc, 0x9a, 0x20,
       0x56, 0x47, 0x48, 0xe6, 0xac, 0xa0, 0xe5, 0x8e, 0x8b, 0xef, 0xbc, 0x8c, 0xe8, 0xae, 0xbe, 0xe5,
       0xa4, 0x87, 0xe5, 0x85, 0xb3, 0xe7, 0x94, 0xb5, 0x21, 0x00]),
     (18,
      [0xe7, 0x94, 0xb5, 0xe6, 0xba, 0x90, 0xe9, 0x94, 0x99, 0xe8, 0xaf, 0xaf, 0xef, 0xbc, 0x9a, 0x56,
       0x47, 0x48, 0xe8, 0xbf, 0x87, 0xe6, 0xb5, 0x81, 0xef, 0xbc, 0x8c, 0xe8, 0xae, 0xbe, 0xe5, 0xa4,
       0x87, 0xe5, 0x85, 0xb3, 0xe7, 0x94, 0xb5, 0x21, 0x00]),
     (20,
      [0xe7, 0x94, 0xb5, 0xe6, 0xba, 0x90, 0xe9, 0x94, 0x99, 0xe8, 0xaf, 0xaf, 0xef, 0xbc, 0x9a, 0x56,
       0x47, 0x48, 0xe6, 0xac, 0xa0, 0xe6, 0xb5, 0x81, 0xef, 0xbc, 0x8c, 0xe8, 0xae, 0xbe, 0xe5, 0xa4,
       0x87, 0xe5, 0x85, 0xb3, 0xe7, 0x94, 0xb5, 0x21, 0x00]),
     (21,
      [0xe7, 0x94, 0xb5, 0xe6, 0xba, 0x90, 0xe9, 0x94, 0x99, 0xe8, 0xaf, 0xaf, 0xef, 0xbc, 0x9a, 0x56,
       0x47, 0x4c, 0xe8, 0xbf, 0x87, 0xe5, 0x8e, 0x8b, 0xef, 0xbc, 0x8c, 0xe8, 0xae, 0xbe, 0xe5, 0xa4,
       0x87, 0xe5, 0x85, 0xb3, 0xe7, 0x94, 0xb5, 0x21, 0x00]),
     (23,
      [0xe7, 0x94, 0xb5, 0xe6, 0xba, 0x90, 0xe9, 0x94, 0x99, 0xe8, 0xaf, 0xaf, 0xef, 0xbc, 0x9a, 0x56,
       0x47, 0x4c, 0xe6, 0xac, 0xa0, 0xe5, 0x8e, 0x8b, 0xef, 0xbc, 0x8c, 0xe8, 0xae, 0xbe, 0xe5, 0xa4,
       0x87, 0xe5, 0x85, 0xb3, 0xe7, 0x94, 0xb5, 0x21, 0x00]),
     (22,
      [0xe7, 0x94, 0xb5, 0xe6, 0xba, 0x90, 0xe9, 0x94, 0x99, 0xe8, 0xaf, 0xaf, 0xef, 0xbc, 0x9a, 0x56,
       0x47, 0x4c, 0xe8, 0xbf, 0x87, 0xe6, 0xb5, 0x81, 0xef, 0xbc, 0x8c, 0xe8, 0xae, 0xbe, 0xe5, 0xa4,
       0x87, 0xe5, 0x85, 0xb3, 0xe7, 0x94, 0xb5, 0x21, 0x00]),
     (24,
      [0xe7, 0x94, 0xb5, 0xe6, 0xba, 0x90, 0xe9, 0x94, 0x99, 0xe8, 0xaf, 0xaf, 0xef, 0xbc, 0x9a, 0x56,
       0x47, 0x4c, 0xe6, 0xac, 0xa0, 0xe6, 0xb5, 0x81, 0xef, 0xbc, 0x8c, 0xe8, 0xae, 0xbe, 0xe5, 0xa4,
       0x87, 0xe5, 0x85, 0xb3, 0xe7, 0x94, 0xb5, 0x21, 0x00]),
     (25,
      [0xe7, 0x94, 0xb5, 0xe6, 0xba, 0x90, 0xe9, 0x94, 0x99, 0xe8, 0xaf, 0xaf, 0xef, 0xbc, 0x9a, 0x56,
       0x43, 0x4f, 0x4d, 0xe8, 0xbf, 0x87, 0xe5, 0x8e, 0x8b, 0xef, 0xbc, 0x8c, 0xe8, 0xae, 0xbe, 0xe5,
       0xa4, 0x87, 0xe5, 0x85, 0xb3, 0xe7, 0x94, 0xb5, 0x21, 0x00]),
     (27,
      [0xe7, 0x94, 0xb5, 0xe6, 0xba, 0x90, 0xe9, 0x94, 0x99, 0xe8, 0xaf, 0xaf, 0xef, 0xbc, 0x9a, 0x56,
       0x43, 0x4f, 0x4d, 0xe6, 0xac, 0xa0, 0xe5, 0x8e, 0x8b, 0xef, 0xbc, 0x8c, 0xe8, 0xae, 0xbe, 0xe5,
       0xa4, 0x87, 0xe5, 0x85, 0xb3, 0xe7, 0x94, 0xb5, 0x21]),
     (26,
      [0xe7, 0x94, 0xb5, 0xe6, 0xba, 0x90, 0xe9, 0x94, 0x99, 0xe8, 0xaf, 0xaf, 0xef, 0xbc, 0x9a, 0x56,
       0x43, 0x4f, 0x4d, 0xe8, 0xbf, 0x87, 0xe6, 0xb5, 0x81, 0xef, 0xbc, 0x8c, 0xe8, 0xae, 0xbe, 0xe5,
       0xa4, 0x87, 0xe5, 0x85, 0xb3, 0xe7, 0x94, 0xb5, 0x21, 0x00]),
     (28,
      [0xe7, 0x94, 0xb5, 0xe6, 0xba, 0x90, 0xe9, 0x94, 0x99, 0xe8, 0xaf, 0xaf, 0xef, 0xbc, 0x9a, 0x56,
       0x43, 0x4f, 0x4d, 0xe6, 0xac, 0xa0, 0xe6, 0xb5, 0x81, 0xef, 0xbc, 0x8c, 0xe8, 0xae, 0xbe, 0xe5,
       0xa4, 0x87, 0xe5, 0x85, 0xb3, 0xe7, 0x94, 0xb5, 0x21, 0x00])]"

definition sgPwrErrorInfo_vbl :: "(int \<times> u8 list) list" where
  "sgPwrErrorInfo_vbl =
    [(29,
      [0xe7, 0x94, 0xb5, 0xe6, 0xba, 0x90, 0xe9, 0x94, 0x99, 0xe8, 0xaf, 0xaf, 0xef, 0xbc, 0x9a, 0x56,
       0x42, 0x4c, 0xe8, 0xbf, 0x87, 0xe5, 0x8e, 0x8b, 0xef, 0xbc, 0x8c, 0xe8, 0xae, 0xbe, 0xe5, 0xa4,
       0x87, 0xe5, 0x85, 0xb3, 0xe7, 0x94, 0xb5, 0x21, 0x00]),
     (31,
      [0xe7, 0x94, 0xb5, 0xe6, 0xba, 0x90, 0xe9, 0x94, 0x99, 0xe8, 0xaf, 0xaf, 0xef, 0xbc, 0x9a, 0x56,
       0x42, 0x4c, 0xe6, 0xac, 0xa0, 0xe5, 0x8e, 0x8b, 0xef, 0xbc, 0x8c, 0xe8, 0xae, 0xbe, 0xe5, 0xa4,
       0x87, 0xe5, 0x85, 0xb3, 0xe7, 0x94, 0xb5, 0x21, 0x00]),
     (30,
      [0xe7, 0x94, 0xb5, 0xe6, 0xba, 0x90, 0xe9, 0x94, 0x99, 0xe8, 0xaf, 0xaf, 0xef, 0xbc, 0x9a, 0x56,
       0x42, 0x4c, 0xe8, 0xbf, 0x87, 0xe6, 0xb5, 0x81, 0xef, 0xbc, 0x8c, 0xe8, 0xae, 0xbe, 0xe5, 0xa4,
       0x87, 0xe5, 0x85, 0xb3, 0xe7, 0x94, 0xb5, 0x21, 0x00]),
     (32,
      [0xe7, 0x94, 0xb5, 0xe6, 0xba, 0x90, 0xe9, 0x94, 0x99, 0xe8, 0xaf, 0xaf, 0xef, 0xbc, 0x9a, 0x56,
       0x42, 0x4c, 0xe6, 0xac, 0xa0, 0xe6, 0xb5, 0x81, 0xef, 0xbc, 0x8c, 0xe8, 0xae, 0xbe, 0xe5, 0xa4,
       0x87, 0xe5, 0x85, 0xb3, 0xe7, 0x94, 0xb5, 0x21, 0x00]),
     (33,
      [0xe7, 0x94, 0xb5, 0xe6, 0xba, 0x90, 0xe9, 0x94, 0x99, 0xe8, 0xaf, 0xaf, 0xef, 0xbc, 0x9a, 0x56,
       0x42, 0x4c, 0xe5, 0xbc, 0x80, 0xe8, 0xb7, 0xaf, 0xef, 0xbc, 0x8c, 0xe8, 0xae, 0xbe, 0xe5, 0xa4,
       0x87, 0xe5, 0x85, 0xb3, 0xe7, 0x94, 0xb5, 0x21, 0x00]),
     (34,
      [0xe7, 0x94, 0xb5, 0xe6, 0xba, 0x90, 0xe9, 0x94, 0x99, 0xe8, 0xaf, 0xaf, 0xef, 0xbc, 0x9a, 0xe8,
       0x83, 0x8c, 0xe5, 0x85, 0x89, 0xe7, 0x81, 0xaf, 0xe7, 0x8f, 0xa0, 0xe7, 0x9f, 0xad, 0xe8, 0xb7,
       0xaf, 0xe3, 0x80, 0x82, 0xe8, 0xae, 0xbe, 0xe5, 0xa4, 0x87, 0xe5, 0x85, 0xb3, 0xe7, 0x94, 0xb5,
       0x21, 0x00]),
     (35,
      [0xe7, 0x94, 0xb5, 0xe6, 0xba, 0x90, 0xe9, 0x94, 0x99, 0xe8, 0xaf, 0xaf, 0xef, 0xbc, 0x9a, 0xe8,
       0x83, 0x8c, 0xe5, 0x85, 0x89, 0xe6, 0xad, 0xa3, 0xe8, 0xb4, 0x9f, 0xe7, 0x9f, 0xad, 0xe8, 0xb7,
       0xaf, 0xe3, 0x80, 0x82, 0xe8, 0xae, 0xbe, 0xe5, 0xa4, 0x87, 0xe5, 0x85, 0xb3, 0xe7, 0x94, 0xb5,
       0x21, 0x00]),
     (36,
      [0xe7, 0x94, 0xb5, 0xe6, 0xba, 0x90, 0xe9, 0x94, 0x99, 0xe8, 0xaf, 0xaf, 0xef, 0xbc, 0x9a, 0xe8,
       0x83, 0x8c, 0xe5, 0x85, 0x89, 0xe8, 0xb4, 0x9f, 0xe8, 0xb4, 0x9f, 0xe7, 0x9f, 0xad, 0xe8, 0xb7,
       0xaf, 0xe3, 0x80, 0x82, 0xe8, 0xae, 0xbe, 0xe5, 0xa4, 0x87, 0xe5, 0x85, 0xb3, 0xe7, 0x94, 0xb5,
       0x21, 0x00]),
     (37,
      [0xe7, 0x94, 0xb5, 0xe6, 0xba, 0x90, 0xe9, 0x94, 0x99, 0xe8, 0xaf, 0xaf, 0xef, 0xbc, 0x9a, 0xe8,
       0x83, 0x8c, 0xe5, 0x85, 0x89, 0xe8, 0xb4, 0x9f, 0xe5, 0x9c, 0xb0, 0xe7, 0x9f, 0xad, 0xe8, 0xb7,
       0xaf, 0xe3, 0x80, 0x82, 0xe8, 0xae, 0xbe, 0xe5, 0xa4, 0x87, 0xe5, 0x85, 0xb3, 0xe7, 0x94, 0xb5,
       0x21, 0x00]),
     (38,
      [0xe7, 0x94, 0xb5, 0xe6, 0xba, 0x90, 0xe9, 0x94, 0x99, 0xe8, 0xaf, 0xaf, 0xef, 0xbc, 0x9a, 0xe8,
       0x83, 0x8c, 0xe5, 0x85, 0x89, 0xe6, 0xad, 0xa3, 0xe5, 0x9c, 0xb0, 0xe7, 0x9f, 0xad, 0xe8, 0xb7,
       0xaf, 0xe3, 0x80, 0x82, 0xe8, 0xae, 0xbe, 0xe5, 0xa4, 0x87, 0xe5, 0x85, 0xb3, 0xe7, 0x94, 0xb5,
       0x21, 0x00]),
     (39,
      [0xe7, 0x94, 0xb5, 0xe6, 0xba, 0x90, 0xe9, 0x94, 0x99, 0xe8, 0xaf, 0xaf, 0xef, 0xbc, 0x9a, 0xe5,
       0x85, 0xb6, 0xe4, 0xbb, 0x96, 0xe9, 0x94, 0x99, 0xe8, 0xaf, 0xaf, 0xef, 0xbc, 0x8c, 0xe8, 0xae,
       0xbe, 0xe5, 0xa4, 0x87, 0xe5, 0x85, 0xb3, 0xe7, 0x94, 0xb5, 0x21, 0x00])]"

definition sgPwrErrorInfo :: "(int \<times> u8 list) list" where
  "sgPwrErrorInfo = sgPwrErrorInfo_supply @ sgPwrErrorInfo_panel @ sgPwrErrorInfo_vbl"

fun getErrorStr_loop :: "(int \<times> u8 list) list \<Rightarrow> int \<Rightarrow> u8 list \<Rightarrow> u8 list" where
  "getErrorStr_loop [] error dflt = dflt"
| "getErrorStr_loop (e # es) error dflt = (if fst e = error then snd e else getErrorStr_loop es error dflt)"

definition getErrorStr :: "int \<Rightarrow> u8 list" where
  "getErrorStr error = getErrorStr_loop sgPwrErrorInfo error (snd (last sgPwrErrorInfo))"

section \<open>The table is complete\<close>

lemma error_ids_parts:
  "map fst sgPwrErrorInfo_supply = [1, 3, 2, 4, 5, 7, 6, 8, 9, 11, 10, 12, 13, 15, 14, 16]"
  "map fst sgPwrErrorInfo_panel = [17, 19, 18, 20, 21, 23, 22, 24, 25, 27, 26, 28]"
  "map fst sgPwrErrorInfo_vbl = [29, 31, 30, 32, 33, 34, 35, 36, 37, 38, 39]"
  unfolding sgPwrErrorInfo_supply_def sgPwrErrorInfo_panel_def sgPwrErrorInfo_vbl_def
  by (simp_all only: list.map fst_conv)

lemma error_ids: "distinct (map fst sgPwrErrorInfo)" "set (map fst sgPwrErrorInfo) = {1..39}"
proof -
  show "distinct (map fst sgPwrErrorInfo)"
    unfolding sgPwrErrorInfo_def map_append error_ids_parts by simp
  have "{1..39::int} = set [1..39]" by simp
  also have "\<dots> = set (map fst sgPwrErrorInfo)"
    unfolding sgPwrErrorInfo_def map_append error_ids_parts by (auto simp: upto_rec1)
  finally show "set (map fst sgPwrErrorInfo) = {1..39}" by simp
qed

lemma getErrorStr_loop_mem:
  "distinct (map fst es) \<Longrightarrow> (k, s) \<in> set es \<Longrightarrow> getErrorStr_loop es k d = s"
  by (induction es) (auto simp: rev_image_eqI)

lemma getErrorStr_loop_other: "k \<notin> set (map fst es) \<Longrightarrow> getErrorStr_loop es k d = d"
  by (induction es) auto

lemma getErrorStr_entry: "(k, s) \<in> set sgPwrErrorInfo \<Longrightarrow> getErrorStr k = s"
  unfolding getErrorStr_def by (rule getErrorStr_loop_mem [OF error_ids(1)])

text \<open>Every number of the enumeration has its message, any other number the last one.\<close>

lemma getErrorStr_complete: "1 \<le> k \<Longrightarrow> k \<le> 39 \<Longrightarrow> \<exists>s. (k, s) \<in> set sgPwrErrorInfo \<and> getErrorStr k = s"
proof -
  assume "1 \<le> k" "k \<le> 39"
  then have "k \<in> set (map fst sgPwrErrorInfo)" by (simp add: error_ids(2) del: set_map)
  then obtain s where "(k, s) \<in> set sgPwrErrorInfo" by auto
  then show ?thesis using getErrorStr_entry by blast
qed

lemma getErrorStr_other: "k < 1 \<or> 39 < k \<Longrightarrow> getErrorStr k = snd (last sgPwrErrorInfo)"
  unfolding getErrorStr_def
  by (rule getErrorStr_loop_other) (auto simp: error_ids(2) simp del: set_map)

section \<open>What the texts say\<close>

text \<open>The parts of a message in UTF-8: ``power fault:'', the name of the rail, what is wrong with
  it, ``, the device is switched off'', an exclamation mark (plain or full-width) with or without
  the terminating zero written out.\<close>

definition msg_fault :: "u8 list" where
  "msg_fault = [0xe7, 0x94, 0xb5, 0xe6, 0xba, 0x90, 0xe9, 0x94, 0x99, 0xe8, 0xaf, 0xaf, 0xef, 0xbc, 0x9a]"

definition msg_off :: "u8 list" where
  "msg_off = [0xef, 0xbc, 0x8c, 0xe8, 0xae, 0xbe, 0xe5, 0xa4, 0x87, 0xe5, 0x85, 0xb3, 0xe7, 0x94, 0xb5]"

definition msg_blanks :: "u8 list set" where "msg_blanks = {[], [0x20]}"
definition msg_marks :: "u8 list set" where "msg_marks = {[0x21], [0x21, 0], [0xef, 0xbc, 0x81, 0]}"

definition ascii :: "string \<Rightarrow> u8 list" where "ascii s = map (\<lambda>c. word_of_nat (of_char c)) s"

text \<open>The rails in the order of their error numbers, and the four faults of each: too high a
  voltage, too high a current, too low a voltage, too low a current.\<close>

definition pwr_rail_names :: "string list" where
  "pwr_rail_names = [''VDD'', ''VINT'', ''VSP'', ''VSN'', ''VGH'', ''VGL'', ''VCOM'', ''VBL'']"

definition msg_high :: "u8 list" where "msg_high = [0xe8, 0xbf, 0x87]"
definition msg_low :: "u8 list" where "msg_low = [0xe6, 0xac, 0xa0]"
definition msg_voltage :: "u8 list" where "msg_voltage = [0xe5, 0x8e, 0x8b]"
definition msg_current :: "u8 list" where "msg_current = [0xe6, 0xb5, 0x81]"

definition pwr_faults :: "u8 list list" where
  "pwr_faults = [msg_high @ msg_voltage, msg_high @ msg_current, msg_low @ msg_voltage, msg_low @ msg_current]"

definition says :: "u8 list \<Rightarrow> string \<Rightarrow> u8 list \<Rightarrow> bool" where
  "says t rail fault \<longleftrightarrow>
     (\<exists>b \<in> msg_blanks. \<exists>m \<in> msg_marks. t = msg_fault @ b @ ascii rail @ fault @ msg_off @ m)"

lemmas says_defs = says_def msg_fault_def msg_off_def msg_blanks_def msg_marks_def ascii_def
  msg_high_def msg_low_def msg_voltage_def msg_current_def

definition entry_says :: "int \<times> u8 list \<Rightarrow> bool" where
  "entry_says e \<longleftrightarrow> says (snd e) (pwr_rail_names ! (nat (fst e - 1) div 4)) (pwr_faults ! (nat (fst e - 1) mod 4))"

lemma entries_say:
  "list_all entry_says sgPwrErrorInfo_supply"
  "list_all entry_says sgPwrErrorInfo_panel"
  "list_all entry_says (take 4 sgPwrErrorInfo_vbl)"
  unfolding sgPwrErrorInfo_supply_def sgPwrErrorInfo_panel_def sgPwrErrorInfo_vbl_def
  by (simp_all add: entry_says_def pwr_rail_names_def pwr_faults_def says_defs)

text \<open>The text of the error numbers 1 to 32 names the rail and the fault.\<close>

lemma getErrorStr_says:
  assumes "i < 8" "j < 4"
  shows "says (getErrorStr (int (4 * i + j + 1))) (pwr_rail_names ! i) (pwr_faults ! j)"
proof -
  let ?k = "int (4 * i + j + 1)"
  obtain t where t: "(?k, t) \<in> set sgPwrErrorInfo" "getErrorStr ?k = t"
    using getErrorStr_complete [of ?k] assms by auto
  have late: "32 < fst e" if "e \<in> set (drop 4 sgPwrErrorInfo_vbl)" for e
    using that unfolding sgPwrErrorInfo_vbl_def by auto
  have "(?k, t) \<notin> set (drop 4 sgPwrErrorInfo_vbl)" using late [of "(?k, t)"] assms by auto
  then have "(?k, t) \<in> set (sgPwrErrorInfo_supply @ sgPwrErrorInfo_panel @ take 4 sgPwrErrorInfo_vbl)"
    using t(1) append_take_drop_id [of 4 sgPwrErrorInfo_vbl]
    by (metis UnE UnI1 UnI2 set_append sgPwrErrorInfo_def)
  then have "entry_says (?k, t)" using entries_say by (auto simp: list_all_iff)
  moreover have "nat (?k - 1) div 4 = i" "nat (?k - 1) mod 4 = j" using assms by (simp_all add: nat_add_distrib nat_mult_distrib)
  ultimately show ?thesis using t(2) by (simp add: entry_says_def)
qed

end
