(* ===== verification/LittleEndian.thy ===== *)
theory LittleEndian
  imports Prelude
begin

text \<open>
  Integers in memory on the target (little-endian ARM): the bytes of 16- and 32-bit words and
  their reading, for the packed structures the serial protocols send. \<open>short\<close> values are
  integers in the range of 16 bits, \<open>to_short\<close> is the conversion to that type.
\<close>

definition le16 :: "u16 \<Rightarrow> u8 list" where
  "le16 w = [ucast w, ucast (drop_bit 8 w)]"

definition le32 :: "u32 \<Rightarrow> u8 list" where
  "le32 w = [ucast w, ucast (drop_bit 8 w), ucast (drop_bit 16 w), ucast (drop_bit 24 w)]"

definition rd16 :: "u8 list \<Rightarrow> nat \<Rightarrow> u16" where
  "rd16 b i = ucast (b ! i) OR push_bit 8 (ucast (b ! (i + 1)))"

definition rd32 :: "u8 list \<Rightarrow> nat \<Rightarrow> u32" where
  "rd32 b i = ucast (b ! i) OR push_bit 8 (ucast (b ! (i + 1)))
     OR push_bit 16 (ucast (b ! (i + 2))) OR push_bit 24 (ucast (b ! (i + 3)))"

definition to_short :: "int \<Rightarrow> int" where
  "to_short x = signed_take_bit 15 x"

definition is_short :: "int \<Rightarrow> bool" where
  "is_short x \<longleftrightarrow> -(2 ^ 15) \<le> x \<and> x < 2 ^ 15"

text \<open>Division as in C: the quotient is rounded towards 0.\<close>

definition c_div :: "int \<Rightarrow> int \<Rightarrow> int" where
  "c_div a b = (if 0 \<le> a then a div b else - ((- a) div b))"

lemma length_le16 [simp]: "length (le16 w) = 2"
  by (simp add: le16_def)

lemma length_le32 [simp]: "length (le32 w) = 4"
  by (simp add: le32_def)

lemma join_le16: "ucast (ucast w :: u8) OR push_bit 8 (ucast (ucast (drop_bit 8 w) :: u8)) = (w :: u16)"
proof (rule bit_word_eqI)
  fix n assume n: "n < LENGTH(16)"
  consider "n < 8" | "8 \<le> n" by linarith
  then show "bit (ucast (ucast w :: u8) OR push_bit 8 (ucast (ucast (drop_bit 8 w) :: u8)) :: u16) n
      \<longleftrightarrow> bit w n"
    using n by cases (auto simp: bit_or_iff bit_push_bit_iff bit_drop_bit_eq ucast_bit)
qed

lemma join_le32: "ucast (ucast w :: u8) OR push_bit 8 (ucast (ucast (drop_bit 8 w) :: u8))
    OR push_bit 16 (ucast (ucast (drop_bit 16 w) :: u8))
    OR push_bit 24 (ucast (ucast (drop_bit 24 w) :: u8)) = (w :: u32)" (is "?l = w")
proof (rule bit_word_eqI)
  fix n assume n: "n < LENGTH(32)"
  consider "n < 8" | "8 \<le> n" "n < 16" | "16 \<le> n" "n < 24" | "24 \<le> n" by linarith
  then show "bit ?l n \<longleftrightarrow> bit w n"
    using n by cases (auto simp: bit_or_iff bit_push_bit_iff bit_drop_bit_eq ucast_bit)
qed

lemma rd16_le16: "rd16 (xs @ le16 w @ ys) (length xs) = w"
  by (simp add: rd16_def le16_def nth_append join_le16)

lemma rd32_le32: "rd32 (xs @ le32 w @ ys) (length xs) = w"
  by (simp add: rd32_def le32_def nth_append join_le32)

lemma rd16_at: "n = length xs \<Longrightarrow> rd16 (xs @ le16 w @ ys) n = w"
  by (simp add: rd16_le16)

lemma rd32_at: "n = length xs \<Longrightarrow> rd32 (xs @ le32 w @ ys) n = w"
  by (simp add: rd32_le32)

lemma to_short_id: "is_short x \<Longrightarrow> to_short x = x"
  unfolding to_short_def is_short_def
  by (subst signed_take_bit_int_eq_self) simp_all

end
