(* ===== verification/PowerSupply.thy ===== *)
theory PowerSupply
  imports PowerTable LittleEndian "HOL-Library.Monad_Syntax"
begin

text \<open>
  The power board task, \<open>hw/power/source/pubPwrTask.c\<close>: the check of measured voltages and
  backlight channels against the configuration, what the task does with a measurement, the
  messages it sends over the serial line, and the cutting of an upgrade image into packets.
  Voltages are \<open>short\<close>s, kept as integers; messages are byte lists of the packed structures.
\<close>

definition POWER_CHECK_PERCENT :: int where "POWER_CHECK_PERCENT = 4"
definition MIN_POWER_ADJUST :: int where "MIN_POWER_ADJUST = 200"
definition POWER_MIN_0_VALUE :: int where "POWER_MIN_0_VALUE = 1500"

text \<open>The fields of the configuration and of the measurement that the task uses.\<close>

record pwr_cfg =
  pc_VDDIO :: int
  pc_ELVDD :: int
  pc_ELVSS :: int
  pc_VSP :: int
  pc_VSN :: int
  pc_LEDChannel :: int
  pc_LEDNumber :: int
  pc_LEDCurrent :: int
  pc_LEDUVP :: int

record pwr_info =
  pa_VDDIO :: int
  pa_ELVDD :: int
  pa_iELVDD :: int
  pa_ELVSS :: int
  pa_iELVSS :: int
  pa_iVBL :: int
  pa_p_open_short :: u8
  pa_n_open_short :: "u8 list"
  pa_reserved :: "u8 list"
  pa_VSP :: int
  pa_iVSP :: int
  pa_VSN :: int
  pa_iVSN :: int

section \<open>The checks\<close>

definition power_check_item :: "int \<Rightarrow> int \<Rightarrow> int \<Rightarrow> int" where
  "power_check_item fixValue actualValue percent =
     (let range0 = to_short (c_div (fixValue * percent) 100);
          range = (if \<bar>range0\<bar> < MIN_POWER_ADJUST
                   then (if range0 < 0 then - MIN_POWER_ADJUST else MIN_POWER_ADJUST) else range0);
          delta = to_short (fixValue - actualValue)
      in if fixValue = 0 then
           (if \<bar>actualValue\<bar> < POWER_MIN_0_VALUE then E_PWR_CHECK_OK else E_PWR_CHECK_ERR_OV)
         else if fixValue > 0 then
           (if actualValue < 0 then E_PWR_CHECK_ERR_UV
            else if \<bar>delta\<bar> > \<bar>range\<bar>
            then (if delta > 0 then E_PWR_CHECK_ERR_UV else E_PWR_CHECK_ERR_OV)
            else E_PWR_CHECK_OK)
         else
           (if actualValue \<ge> 0 then E_PWR_CHECK_ERR_UV
            else if \<bar>delta\<bar> > \<bar>range\<bar>
            then (if delta > 0 then E_PWR_CHECK_ERR_OV else E_PWR_CHECK_ERR_UV)
            else E_PWR_CHECK_OK))"

definition check_cc_vbl_open_short :: "u8 \<Rightarrow> int" where
  "check_cc_vbl_open_short status =
     (if status \<noteq> 0 then int (unat status) - 1 + E_PWR_CHECK_ERR_VBL_OPEN else E_PWR_CHECK_OK)"

text \<open>The loop over the N channels; \<open>None\<close> when it leaves the array of six.\<close>

fun vbl_channels :: "u8 list \<Rightarrow> nat \<Rightarrow> int option" where
  "vbl_channels st 0 = Some E_PWR_CHECK_OK"
| "vbl_channels [] (Suc k) = None"
| "vbl_channels (b # st) (Suc k) =
     (if check_cc_vbl_open_short b \<noteq> 0 then Some (check_cc_vbl_open_short b) else vbl_channels st k)"

definition power_check_vbl :: "pwr_cfg \<Rightarrow> pwr_info \<Rightarrow> int option" where
  "power_check_vbl f a =
     (if pc_LEDUVP f = 0 \<or> pc_LEDChannel f = 0 \<or> pc_LEDNumber f = 0 then Some E_PWR_CHECK_OK
      else let p = check_cc_vbl_open_short (pa_p_open_short a) in
        if p \<noteq> 0 then Some p
        else do {
          n \<leftarrow> vbl_channels (pa_n_open_short a) (nat (pc_LEDNumber f));
          (if n \<noteq> 0 then Some n
           else let iVblFix = to_short (pc_LEDNumber f * pc_LEDCurrent f);
                    r0 = power_check_item iVblFix (pa_iVBL a) 10;
                    r1 = (if r0 \<noteq> 0 then (r0 - E_PWR_CHECK_ERR_OV) + E_PWR_CHECK_ERR_OC else r0)
                in Some (if r1 \<noteq> 0 then r1 + (r1 + E_PWR_CHECK_ERR_VBL_OV) else r1))
        })"

definition checkPowerEquitable :: "pwr_cfg \<Rightarrow> pwr_info \<Rightarrow> int" where
  "checkPowerEquitable f a =
     (let r1 = power_check_item (pc_VDDIO f) (pa_VDDIO a) POWER_CHECK_PERCENT in
      if r1 \<noteq> 0 then r1 + E_PWR_CHECK_ERR_VDD_OV else
      let r2 = power_check_item (pc_ELVDD f) (pa_ELVDD a) POWER_CHECK_PERCENT in
      if r2 \<noteq> 0 then r2 + E_PWR_CHECK_ERR_VGH_OV else
      let r3 = power_check_item (pc_VSP f) (pa_VSP a) POWER_CHECK_PERCENT in
      if r3 \<noteq> 0 then r3 + E_PWR_CHECK_ERR_VSP_OV else
      let r4 = power_check_item (pc_ELVSS f) (pa_ELVSS a) POWER_CHECK_PERCENT in
      if r4 \<noteq> 0 then r4 + E_PWR_CHECK_ERR_VGL_OV else
      let r5 = power_check_item (pc_VSN f) (pa_VSN a) POWER_CHECK_PERCENT in
      if r5 \<noteq> 0 then r5 + E_PWR_CHECK_ERR_VSN_OV else r5)"

section \<open>The task\<close>

datatype pwr_channel = PWR_CHANNEL_ALL | PWR_CHANNEL_LEFT | PWR_CHANNEL_RIGHT

datatype pwr_action =
    ShutOn
  | NotifyPower "u8 list"
  | BoxFeedback "u8 list"
  | BoxSave pwr_info int int
  | SendPower int pwr_info
  | SendVersion u32
  | NotifyNtc int int int
  | Serial "u8 list"

record main_power =
  mp_power :: pwr_info
  mp_vcom :: int
  mp_ivcom :: int

record pwr_task =
  pt_updStarted :: bool
  pt_updPaused :: bool
  pt_ntcStarted :: bool
  pt_ntcPaused :: bool
  pt_left :: main_power
  pt_right :: main_power

definition pwrErrorProcess :: "int \<Rightarrow> pwr_action list" where
  "pwrErrorProcess error = [NotifyPower (getErrorStr error), BoxFeedback (getErrorStr error)]"

text \<open>The error of one measurement: the rails, then the backlight if its flag is set.\<close>

definition check_error :: "pwr_cfg \<Rightarrow> pwr_info \<Rightarrow> int option" where
  "check_error f a =
     (let r = checkPowerEquitable f a in
      if r \<noteq> 0 then Some r
      else if pa_reserved a ! 0 \<noteq> 1 then Some r
      else power_check_vbl f a)"

definition hide_unused :: "pwr_cfg \<Rightarrow> pwr_info \<Rightarrow> pwr_info" where
  "hide_unused f a =
     (let a1 = (if pc_VSP f = 0 then a\<lparr>pa_VSP := 0, pa_iVSP := 0\<rparr> else a);
          a2 = (if pc_VSN f = 0 then a1\<lparr>pa_VSN := 0, pa_iVSN := 0\<rparr> else a1);
          a3 = (if pc_ELVDD f = 0 then a2\<lparr>pa_ELVDD := 0, pa_iELVDD := 0\<rparr> else a2)
      in if pc_ELVSS f = 0 then a3\<lparr>pa_ELVSS := 0, pa_iELVSS := 0\<rparr> else a3)"

definition checkPwr :: "pwr_cfg \<Rightarrow> pwr_channel \<Rightarrow> pwr_task \<Rightarrow> (pwr_task \<times> pwr_action list) option" where
  "checkPwr f channel t =
     (let m = (if channel = PWR_CHANNEL_LEFT then pt_left t else pt_right t) in do {
        ret \<leftarrow> check_error f (mp_power m);
        let m' = m\<lparr>mp_power := hide_unused f (mp_power m)\<rparr>;
        let t' = (if channel = PWR_CHANNEL_LEFT then t\<lparr>pt_left := m'\<rparr> else t\<lparr>pt_right := m'\<rparr>);
        Some (t', (if ret \<noteq> E_PWR_CHECK_OK then ShutOn # pwrErrorProcess ret else [])
                  @ (if channel = PWR_CHANNEL_LEFT
                     then [BoxSave (mp_power m') (mp_vcom m') (mp_ivcom m')] else []))
      })"

definition setPwrCheckPause :: "bool \<Rightarrow> pwr_task \<Rightarrow> pwr_task" where
  "setPwrCheckPause bPause t = t\<lparr>pt_updPaused := bPause\<rparr>"

definition setNtcCheckPause :: "bool \<Rightarrow> pwr_task \<Rightarrow> pwr_task" where
  "setNtcCheckPause bPause t = t\<lparr>pt_ntcPaused := bPause\<rparr>"

text \<open>One round of \<open>ntcMonitorTask\<close> for the measured value.\<close>

definition ntc_round :: "int \<Rightarrow> int \<Rightarrow> int \<Rightarrow> pwr_task \<Rightarrow> pwr_action list" where
  "ntc_round lo hi ag t =
     (if pt_ntcPaused t then []
      else if ag > 200 * 1000 \<or> ag \<le> 0 then []
      else if ag < lo \<or> ag > hi then [ShutOn, NotifyNtc ag lo hi] else [])"

section \<open>Messages\<close>

record pwr_head =
  ph_cmd :: u8
  ph_type :: u8
  ph_len :: u16
  ph_destAddr :: u16
  ph_signalType :: u16
  ph_signalFd :: u16
  ph_ipaddr :: u32
  ph_ways :: u16
  ph_result :: u32

definition PWR_MSG_HEAD_LEN :: int where "PWR_MSG_HEAD_LEN = 20"
definition MSG_TYPE_POWER :: int where "MSG_TYPE_POWER = 0x05"
definition PWR_MSG_FROM_LOCAL :: int where "PWR_MSG_FROM_LOCAL = 0x03"

definition channel_no :: "pwr_channel \<Rightarrow> int" where
  "channel_no c = (case c of PWR_CHANNEL_ALL \<Rightarrow> 1 | PWR_CHANNEL_LEFT \<Rightarrow> 2 | PWR_CHANNEL_RIGHT \<Rightarrow> 3)"

definition initPwrMsgHead :: "int \<Rightarrow> int \<Rightarrow> int \<Rightarrow> int \<Rightarrow> int \<Rightarrow> int \<Rightarrow> int \<Rightarrow> int \<Rightarrow> int \<Rightarrow> pwr_head" where
  "initPwrMsgHead cmd type len dAddr signalType signalFd ipaddr channel result =
     \<lparr>ph_cmd = word_of_int cmd, ph_type = word_of_int type, ph_len = word_of_int len,
      ph_destAddr = word_of_int dAddr, ph_signalType = word_of_int signalType,
      ph_signalFd = word_of_int signalFd, ph_ipaddr = word_of_int ipaddr,
      ph_ways = word_of_int channel, ph_result = word_of_int result\<rparr>"

text \<open>The packed structure in memory, and reading it.\<close>

definition head_bytes :: "pwr_head \<Rightarrow> u8 list" where
  "head_bytes h = [ph_cmd h, ph_type h] @ le16 (ph_len h) @ le16 (ph_destAddr h)
     @ le16 (ph_signalType h) @ le16 (ph_signalFd h) @ le32 (ph_ipaddr h) @ le16 (ph_ways h)
     @ le32 (ph_result h)"

definition bytes_head :: "u8 list \<Rightarrow> pwr_head" where
  "bytes_head b = \<lparr>ph_cmd = b ! 0, ph_type = b ! 1, ph_len = rd16 b 2, ph_destAddr = rd16 b 4,
     ph_signalType = rd16 b 6, ph_signalFd = rd16 b 8, ph_ipaddr = rd32 b 10, ph_ways = rd16 b 14,
     ph_result = rd32 b 16\<rparr>"

definition powerCmdCalibrationPowerItem :: "pwr_channel \<Rightarrow> int \<Rightarrow> int \<Rightarrow> int \<Rightarrow> u8 list" where
  "powerCmdCalibrationPowerItem channel powerType action powerData =
     head_bytes (initPwrMsgHead 0x80 MSG_TYPE_POWER (PWR_MSG_HEAD_LEN - 4 + 8) 0 PWR_MSG_FROM_LOCAL 0 0
       (channel_no channel) 0)
     @ [0, word_of_int powerType, word_of_int action, if powerData \<ge> 0 then 1 else 2]
     @ le32 (word_of_int \<bar>powerData\<bar>)"

definition pwrSetVol :: "u8 \<Rightarrow> u8 \<Rightarrow> int \<Rightarrow> u8 list" where
  "pwrSetVol isOn type volta =
     head_bytes (initPwrMsgHead 0x12 MSG_TYPE_POWER (PWR_MSG_HEAD_LEN - 4 + 4) 0 PWR_MSG_FROM_LOCAL 0 0
       (channel_no PWR_CHANNEL_ALL) 0)
     @ [isOn, type] @ le16 (word_of_int volta)"

definition pwrSetState :: "bool \<Rightarrow> pwr_channel \<Rightarrow> pwr_task \<Rightarrow> pwr_task \<times> pwr_action list" where
  "pwrSetState bOn channel t =
     (let cmd = (if bOn then 0x01 else 0x02);
          msg = head_bytes (initPwrMsgHead cmd MSG_TYPE_POWER (PWR_MSG_HEAD_LEN - 4) 0 0x03 0 0
                  (channel_no channel) 0)
      in (setPwrCheckPause (\<not> bOn) t, [Serial msg]))"

text \<open>The configuration structure is sent as it lies in memory.\<close>

definition pwrSetCfg :: "u8 list \<Rightarrow> u8 list" where
  "pwrSetCfg cfg =
     head_bytes (initPwrMsgHead 0x09 MSG_TYPE_POWER (PWR_MSG_HEAD_LEN - 4 + int (length cfg)) 0xffff 0 0 0
       0xff 0) @ cfg"

text \<open>Two \<open>int\<close>s are written to the payload, of which six bytes are sent.\<close>

definition pwrContorl :: "bool \<Rightarrow> pwr_channel \<Rightarrow> u8 list" where
  "pwrContorl bOn channel =
     head_bytes (initPwrMsgHead 0x03 MSG_TYPE_POWER (PWR_MSG_HEAD_LEN - 4 + 6) 0 0x03 0 0
       (channel_no channel) 0)
     @ take 6 (le32 6 @ le32 (of_bool bOn))"

definition getPwrInfo :: "pwr_channel \<Rightarrow> pwr_action list" where
  "getPwrInfo channel =
     (if channel = PWR_CHANNEL_ALL then []
      else [Serial (head_bytes (initPwrMsgHead 0x04 MSG_TYPE_POWER (PWR_MSG_HEAD_LEN - 4) 0 0 0 0
              (channel_no channel) 0))])"

text \<open>One round of \<open>pwrInfoGetTask\<close>.\<close>

definition info_round :: "pwr_task \<Rightarrow> pwr_action list" where
  "info_round t = (if pt_updPaused t then []
     else getPwrInfo PWR_CHANNEL_LEFT @ getPwrInfo PWR_CHANNEL_RIGHT)"

section \<open>Upgrade\<close>

record upgrade_pkt =
  up_dataType :: u8
  up_devType :: u8
  up_len :: u16
  up_offset :: u32
  up_blockSize :: u32
  up_totalSize :: u32
  up_payload :: "u8 list"

definition upgrade_bytes :: "upgrade_pkt \<Rightarrow> u8 list" where
  "upgrade_bytes p = [up_dataType p, up_devType p] @ le16 (up_len p) @ le32 (up_offset p)
     @ le32 (up_blockSize p) @ le32 (up_totalSize p) @ up_payload p"

function pwrUpgrade_loop :: "u8 list \<Rightarrow> nat \<Rightarrow> u32 \<Rightarrow> upgrade_pkt list" where
  "pwrUpgrade_loop pBuf length0 offset =
     (if pBuf = [] then []
      else let dataLen = (if length pBuf \<ge> 1024 then 1024 else length pBuf) in
        \<lparr>up_dataType = 0x73, up_devType = word_of_int MSG_TYPE_POWER,
         up_len = word_of_nat (20 - 8 + dataLen), up_offset = offset,
         up_blockSize = word_of_nat dataLen, up_totalSize = word_of_nat length0,
         up_payload = take dataLen pBuf\<rparr>
        # pwrUpgrade_loop (drop dataLen pBuf) length0 (offset + word_of_nat dataLen))"
  by pat_completeness auto
termination
  by (relation "measure (\<lambda>(b, _, _). length b)") (auto simp: Let_def)

declare pwrUpgrade_loop.simps [simp del]

definition pwrUpgrade :: "u8 list \<Rightarrow> u8 list list" where
  "pwrUpgrade pData =
     (if pData = [] then []
      else [0x72, word_of_int MSG_TYPE_POWER, 0x4, 0, 0, 0, 0, 0]
           # map upgrade_bytes (pwrUpgrade_loop pData (length pData) 0))"

section \<open>Receiving\<close>

definition s16 :: "u8 list \<Rightarrow> nat \<Rightarrow> int" where
  "s16 b i = sint (rd16 b i)"

definition s32 :: "u8 list \<Rightarrow> nat \<Rightarrow> int" where
  "s32 b i = sint (rd32 b i)"

text \<open>The packed \<open>sByPtnPwrInfo\<close> that stands in the message from byte 20 on.\<close>

definition bytes_info :: "u8 list \<Rightarrow> pwr_info" where
  "bytes_info b =
     \<lparr>pa_VDDIO = s16 b 39, pa_ELVDD = s16 b 57, pa_iELVDD = s32 b 63, pa_ELVSS = s16 b 75,
      pa_iELVSS = s32 b 81, pa_iVBL = s16 b 95, pa_p_open_short = b ! 97,
      pa_n_open_short = mem_slice b 98 6, pa_reserved = mem_slice b 104 7,
      pa_VSP = s16 b 111, pa_iVSP = s32 b 117, pa_VSN = s16 b 129, pa_iVSN = s32 b 135\<rparr>"

text \<open>\<open>vcom\<close> and \<open>ivcom\<close> come from the micro controller. The handler tests the message for the
  length of the head only; \<open>None\<close>: it reads a structure the message does not hold.\<close>

definition processRcvFromSerial :: "pwr_cfg \<Rightarrow> (pwr_channel \<Rightarrow> int) \<Rightarrow> int \<Rightarrow> u8 list \<Rightarrow> pwr_task
    \<Rightarrow> (pwr_task \<times> pwr_action list) option" where
  "processRcvFromSerial f vcom ivcom pData t =
     (if int (length pData) < PWR_MSG_HEAD_LEN then Some (t, [])
      else let h = bytes_head pData in
        if ph_type h = 0x85 \<and> ph_cmd h = 0x04 then
          (if length pData < 20 + 145 then None
           else let info = bytes_info pData;
                    left = (ph_ways h = 2);
                    ch = (if left then PWR_CHANNEL_LEFT else PWR_CHANNEL_RIGHT);
                    m = \<lparr>mp_power = info, mp_vcom = vcom ch, mp_ivcom = ivcom\<rparr>;
                    t1 = (if left then t\<lparr>pt_left := m\<rparr> else t\<lparr>pt_right := m\<rparr>)
                in do {
                  r \<leftarrow> checkPwr f ch t1;
                  Some (fst r, SendPower (if left then 1 else 2) info # snd r)
                })
        else if ph_cmd h = 0x08 then
          (if length pData < 23 then None
           else Some (t, [SendVersion (push_bit 16 (ucast (pData ! 20)) OR push_bit 8 (ucast (pData ! 21))
                            OR ucast (pData ! 22))]))
        else Some (t, []))"

section \<open>What the checks report\<close>

text \<open>The tolerance for a set value, and an under-voltage: too close to 0 or of the other sign.\<close>

definition tolerance :: "int \<Rightarrow> int \<Rightarrow> int" where
  "tolerance fix percent = max 200 (\<bar>fix\<bar> * percent div 100)"

definition under_voltage :: "int \<Rightarrow> int \<Rightarrow> int \<Rightarrow> bool" where
  "under_voltage fix act percent \<longleftrightarrow>
     (0 < fix \<and> (act < 0 \<or> fix - act > tolerance fix percent))
     \<or> (fix < 0 \<and> (0 \<le> act \<or> act - fix > tolerance fix percent))"

definition over_voltage :: "int \<Rightarrow> int \<Rightarrow> int \<Rightarrow> bool" where
  "over_voltage fix act percent \<longleftrightarrow>
     (fix = 0 \<and> 1500 \<le> \<bar>act\<bar>) \<or> (0 < fix \<and> act - fix > tolerance fix percent)
     \<or> (fix < 0 \<and> fix - act > tolerance fix percent)"

lemma range_tolerance:
  assumes "is_short fix" "0 \<le> percent" "percent \<le> 100"
  defines "r \<equiv> to_short (c_div (fix * percent) 100)"
  shows "\<bar>if \<bar>r\<bar> < 200 then (if r < 0 then - 200 else 200) else r\<bar> = tolerance fix percent"
proof -
  have b: "\<bar>fix\<bar> \<le> 2 ^ 15" using assms(1) by (auto simp: is_short_def)
  have "\<bar>fix\<bar> * percent \<le> 2 ^ 15 * 100" using b assms(2,3) by (intro mult_mono) auto
  then have q: "\<bar>fix\<bar> * percent div 100 \<le> 2 ^ 15" by simp
  have nn: "0 \<le> \<bar>fix\<bar> * percent div 100" using assms(2) by (simp add: pos_imp_zdiv_nonneg_iff)
  have cd: "c_div (fix * percent) 100 = (if 0 \<le> fix then \<bar>fix\<bar> * percent div 100
      else - (\<bar>fix\<bar> * percent div 100))"
    using assms(2) by (cases "0 \<le> fix") (auto simp: c_div_def zero_le_mult_iff)
  have "is_short (c_div (fix * percent) 100)"
  proof (cases "0 \<le> fix")
    case True
    then have "\<bar>fix\<bar> * percent \<le> (2 ^ 15 - 1) * 100"
      using assms(1,2,3) by (intro mult_mono) (auto simp: is_short_def)
    then have "\<bar>fix\<bar> * percent div 100 \<le> 2 ^ 15 - 1" by simp
    then show ?thesis using cd True nn by (simp add: is_short_def)
  next
    case False
    then show ?thesis using cd q nn by (simp add: is_short_def)
  qed
  then have r: "r = c_div (fix * percent) 100" by (simp add: r_def to_short_id)
  show ?thesis unfolding r cd tolerance_def using nn by auto
qed

text \<open>Only under-voltages are reported: the number for over-voltage is the number for OK.\<close>

lemma power_check_item_eq:
  assumes "is_short fix" "is_short act" "0 \<le> percent" "percent \<le> 100"
  shows "power_check_item fix act percent
    = (if under_voltage fix act percent then E_PWR_CHECK_ERR_UV else E_PWR_CHECK_OK)"
proof -
  let ?t = "tolerance fix percent"
  have t: "200 \<le> ?t" by (simp add: tolerance_def)
  note r = range_tolerance [OF assms(1,3,4)]
  have d: "to_short (fix - act) = fix - act" if "0 < fix \<and> 0 \<le> act \<or> fix < 0 \<and> act < 0"
    using that assms(1,2) by (intro to_short_id) (auto simp: is_short_def)
  consider "fix = 0" | "0 < fix" "act < 0" | "0 < fix" "0 \<le> act" | "fix < 0" "0 \<le> act" | "fix < 0" "act < 0"
    by linarith
  then show ?thesis
  proof cases
    case 1
    then show ?thesis by (simp add: power_check_item_def under_voltage_def pwr_item_codes)
  next
    case 2
    then show ?thesis by (simp add: power_check_item_def under_voltage_def Let_def)
  next
    case 3
    then show ?thesis
      using r t d by (auto simp: power_check_item_def under_voltage_def Let_def pwr_item_codes
          MIN_POWER_ADJUST_def)
  next
    case 4
    then show ?thesis by (simp add: power_check_item_def under_voltage_def Let_def)
  next
    case 5
    then show ?thesis
      using r t d by (auto simp: power_check_item_def under_voltage_def Let_def pwr_item_codes
          MIN_POWER_ADJUST_def)
  qed
qed

definition cfg_ok :: "pwr_cfg \<Rightarrow> bool" where
  "cfg_ok f \<longleftrightarrow> is_short (pc_VDDIO f) \<and> is_short (pc_ELVDD f) \<and> is_short (pc_ELVSS f)
     \<and> is_short (pc_VSP f) \<and> is_short (pc_VSN f)"

definition info_ok :: "pwr_info \<Rightarrow> bool" where
  "info_ok a \<longleftrightarrow> is_short (pa_VDDIO a) \<and> is_short (pa_ELVDD a) \<and> is_short (pa_ELVSS a)
     \<and> is_short (pa_VSP a) \<and> is_short (pa_VSN a) \<and> is_short (pa_iVBL a)"

text \<open>The rails in the order of the check, with the number of their under-voltage.\<close>

definition rails :: "pwr_cfg \<Rightarrow> pwr_info \<Rightarrow> (int \<times> int \<times> int) list" where
  "rails f a = [(pc_VDDIO f, pa_VDDIO a, 3), (pc_ELVDD f, pa_ELVDD a, 19), (pc_VSP f, pa_VSP a, 11),
     (pc_ELVSS f, pa_ELVSS a, 23), (pc_VSN f, pa_VSN a, 15)]"



lemma vbl_channels_ok: "k \<le> length st \<Longrightarrow> \<forall>b \<in> set st. b = 0 \<Longrightarrow> vbl_channels st k = Some E_PWR_CHECK_OK"
  by (induction st k rule: vbl_channels.induct) (auto simp: check_cc_vbl_open_short_def pwr_item_codes)

lemma vbl_channels_out: "length st < k \<Longrightarrow> \<forall>b \<in> set st. b = 0 \<Longrightarrow> vbl_channels st k = None"
  by (induction st k rule: vbl_channels.induct) (auto simp: check_cc_vbl_open_short_def pwr_item_codes)

text \<open>A backlight current that is too low is reported as a short circuit (number 35).\<close>

text \<open>
  With no open or short string, a backlight current that is too low is reported with the
  number of a PN short circuit.
\<close>

theorem backlight_under_current_is_called_short:
  assumes "pc_LEDUVP f \<noteq> 0" "pc_LEDChannel f \<noteq> 0" "0 < pc_LEDNumber f" "pc_LEDNumber f \<le> 6"
    and "pa_p_open_short a = 0" "pa_n_open_short a = replicate 6 0"
    and "is_short (pc_LEDNumber f * pc_LEDCurrent f)" "is_short (pa_iVBL a)"
  shows "power_check_vbl f a =
    Some (if under_voltage (pc_LEDNumber f * pc_LEDCurrent f) (pa_iVBL a) 10 then 35 else E_PWR_CHECK_OK)"
proof -
  have "vbl_channels (pa_n_open_short a) (nat (pc_LEDNumber f)) = Some E_PWR_CHECK_OK"
    using assms(3,4,6) by (intro vbl_channels_ok) auto
  moreover have "power_check_item (pc_LEDNumber f * pc_LEDCurrent f) (pa_iVBL a) 10
      = (if under_voltage (pc_LEDNumber f * pc_LEDCurrent f) (pa_iVBL a) 10 then E_PWR_CHECK_ERR_UV
         else E_PWR_CHECK_OK)"
    by (rule power_check_item_eq [OF assms(7,8)]) simp_all
  ultimately show ?thesis
    using assms by (simp add: power_check_vbl_def Let_def to_short_id check_cc_vbl_open_short_def
        pwr_item_codes pwr_rail_codes)
qed


text \<open>
  checkPwr shuts the supply on exactly when the measurement of the channel has an error.
\<close>

theorem supply_is_shut_exactly_on_error:
  assumes "checkPwr f c t = Some (t', acts)"
  shows "(ShutOn \<in> set acts) = (check_error f (mp_power (if c = PWR_CHANNEL_LEFT then pt_left t else pt_right t))
           \<noteq> Some E_PWR_CHECK_OK)"
  using assms by (auto simp: checkPwr_def Let_def pwrErrorProcess_def split: Option.bind_splits if_splits)




section \<open>Messages\<close>

lemma length_head_bytes [simp]: "length (head_bytes h) = 20"
  by (simp add: head_bytes_def)

text \<open>A receiver that reads the packed head gets the fields back.\<close>

lemma bytes_head_bytes: "bytes_head (head_bytes h @ xs) = h"
proof -
  let ?b = "head_bytes h @ xs"
  have b: "?b ! 0 = ph_cmd h" "?b ! 1 = ph_type h" by (simp_all add: head_bytes_def)
  have "rd16 ?b 2 = ph_len h"
    using rd16_at [of 2 "[ph_cmd h, ph_type h]" "ph_len h"] by (simp add: head_bytes_def)
  moreover have "rd16 ?b 4 = ph_destAddr h"
    using rd16_at [of 4 "[ph_cmd h, ph_type h] @ le16 (ph_len h)" "ph_destAddr h"]
    by (simp add: head_bytes_def)
  moreover have "rd16 ?b 6 = ph_signalType h"
    using rd16_at [of 6 "[ph_cmd h, ph_type h] @ le16 (ph_len h) @ le16 (ph_destAddr h)" "ph_signalType h"]
    by (simp add: head_bytes_def)
  moreover have "rd16 ?b 8 = ph_signalFd h"
    using rd16_at [of 8 "[ph_cmd h, ph_type h] @ le16 (ph_len h) @ le16 (ph_destAddr h)
      @ le16 (ph_signalType h)" "ph_signalFd h"] by (simp add: head_bytes_def)
  moreover have "rd32 ?b 10 = ph_ipaddr h"
    using rd32_at [of 10 "[ph_cmd h, ph_type h] @ le16 (ph_len h) @ le16 (ph_destAddr h)
      @ le16 (ph_signalType h) @ le16 (ph_signalFd h)" "ph_ipaddr h"] by (simp add: head_bytes_def)
  moreover have "rd16 ?b 14 = ph_ways h"
    using rd16_at [of 14 "[ph_cmd h, ph_type h] @ le16 (ph_len h) @ le16 (ph_destAddr h)
      @ le16 (ph_signalType h) @ le16 (ph_signalFd h) @ le32 (ph_ipaddr h)" "ph_ways h"]
    by (simp add: head_bytes_def)
  moreover have "rd32 ?b 16 = ph_result h"
    using rd32_at [of 16 "[ph_cmd h, ph_type h] @ le16 (ph_len h) @ le16 (ph_destAddr h)
      @ le16 (ph_signalType h) @ le16 (ph_signalFd h) @ le32 (ph_ipaddr h) @ le16 (ph_ways h)" "ph_result h"]
    by (simp add: head_bytes_def)
  ultimately show ?thesis using b by (simp add: bytes_head_def)
qed

section \<open>Upgrade packets\<close>

text \<open>Laying the blocks at their offsets gives the image, and every field says the truth.\<close>

fun blocks_at :: "nat \<Rightarrow> upgrade_pkt list \<Rightarrow> bool" where
  "blocks_at off [] \<longleftrightarrow> True"
| "blocks_at off (p # ps) \<longleftrightarrow> up_offset p = word_of_nat off \<and> 0 < length (up_payload p)
     \<and> length (up_payload p) \<le> 1024 \<and> unat (up_blockSize p) = length (up_payload p)
     \<and> unat (up_len p) = 12 + length (up_payload p)
     \<and> blocks_at (off + length (up_payload p)) ps"

lemma pwrUpgrade_loop_ok:
  "concat (map up_payload (pwrUpgrade_loop d n (word_of_nat off))) = d
   \<and> blocks_at off (pwrUpgrade_loop d n (word_of_nat off))
   \<and> (\<forall>p \<in> set (pwrUpgrade_loop d n (word_of_nat off)). up_totalSize p = word_of_nat n \<and> up_dataType p = 0x73)"
proof (induction "length d" arbitrary: d off rule: less_induct)
  case less
  show ?case
  proof (cases "d = []")
    case True
    then show ?thesis by (simp add: pwrUpgrade_loop.simps)
  next
    case False
    let ?k = "if length d \<ge> 1024 then 1024 else length d"
    have k: "0 < ?k" "?k \<le> 1024" "?k \<le> length d" using False by auto
    have IH: "concat (map up_payload (pwrUpgrade_loop (drop ?k d) n (word_of_nat (off + ?k)))) = drop ?k d
      \<and> blocks_at (off + ?k) (pwrUpgrade_loop (drop ?k d) n (word_of_nat (off + ?k)))
      \<and> (\<forall>p \<in> set (pwrUpgrade_loop (drop ?k d) n (word_of_nat (off + ?k))).
           up_totalSize p = word_of_nat n \<and> up_dataType p = 0x73)"
      using k False by (intro less) simp
    have "unat (word_of_nat (20 - 8 + ?k) :: u16) = 20 - 8 + ?k"
      by (rule unat_of_nat_exact) (use k(2) in simp)
    moreover have "unat (word_of_nat ?k :: u32) = ?k"
      by (rule unat_of_nat_exact) (use k(2) in simp)
    ultimately have u: "unat (word_of_nat ?k :: u32) = ?k" "unat (word_of_nat (20 - 8 + ?k) :: u16) = 12 + ?k"
      by simp_all
    have step: "pwrUpgrade_loop d n (word_of_nat off) =
        \<lparr>up_dataType = 0x73, up_devType = word_of_int MSG_TYPE_POWER,
         up_len = word_of_nat (20 - 8 + ?k), up_offset = word_of_nat off,
         up_blockSize = word_of_nat ?k, up_totalSize = word_of_nat n, up_payload = take ?k d\<rparr>
        # pwrUpgrade_loop (drop ?k d) n (word_of_nat (off + ?k))"
      using False by (subst pwrUpgrade_loop.simps) (simp add: Let_def)
    show ?thesis unfolding step using IH u k by simp
  qed
qed

section \<open>Properties\<close>

text \<open>A panel with rails of 1.8 V, 5 V and -5 V and two strings of 60 mA, its measurement with a
  low positive rail, and a good one.\<close>

definition cfg1 :: pwr_cfg where
  "cfg1 = \<lparr>pc_VDDIO = 1800, pc_ELVDD = 0, pc_ELVSS = 0, pc_VSP = 5000, pc_VSN = -5000,
     pc_LEDChannel = 1, pc_LEDNumber = 2, pc_LEDCurrent = 600, pc_LEDUVP = 1\<rparr>"

definition info1 :: "int \<Rightarrow> int \<Rightarrow> pwr_info" where
  "info1 vsp ibl = \<lparr>pa_VDDIO = 1810, pa_ELVDD = 12, pa_iELVDD = 7, pa_ELVSS = 3, pa_iELVSS = 8, pa_iVBL = ibl,
     pa_p_open_short = 0, pa_n_open_short = replicate 6 0, pa_reserved = 1 # replicate 6 0,
     pa_VSP = vsp, pa_iVSP = 0, pa_VSN = -5100, pa_iVSN = 0\<rparr>"

lemmas sample_defs = cfg1_def info1_def cfg_ok_def info_ok_def is_short_def rails_def
  under_voltage_def over_voltage_def tolerance_def


lemma backlight_under_current_is_called_short_witness:
  "power_check_vbl cfg1 (info1 5000 900) = Some 35"
  using backlight_under_current_is_called_short [of cfg1 "info1 5000 900"]
  by (simp add: sample_defs)

definition task1 :: "int \<Rightarrow> pwr_task" where
  "task1 vsp = \<lparr>pt_updStarted = True, pt_updPaused = False, pt_ntcStarted = True, pt_ntcPaused = False,
     pt_left = \<lparr>mp_power = info1 vsp 1200, mp_vcom = 0, mp_ivcom = 0\<rparr>,
     pt_right = \<lparr>mp_power = info1 5000 1200, mp_vcom = 0, mp_ivcom = 0\<rparr>\<rparr>"

lemma check_error_low: "check_error cfg1 (info1 4500 1200) = Some 11"
  by (simp add: check_error_def checkPowerEquitable_def power_check_item_def c_div_def to_short_def
      cfg1_def info1_def Let_def POWER_CHECK_PERCENT_def MIN_POWER_ADJUST_def pwr_item_codes pwr_rail_codes)

lemma supply_is_shut_exactly_on_error_witness:
  "\<exists>t acts. checkPwr cfg1 PWR_CHANNEL_LEFT (task1 4500) = Some (t, acts) \<and> ShutOn \<in> set acts"
proof -
  obtain t acts where run: "checkPwr cfg1 PWR_CHANNEL_LEFT (task1 4500) = Some (t, acts)"
    by (simp add: checkPwr_def task1_def check_error_low Let_def)
  then show ?thesis
    using supply_is_shut_exactly_on_error [OF run]
    by (auto simp: task1_def check_error_low pwr_item_codes)
qed


text \<open>
  A voltage above the set value by more than the tolerance is reported as OK, because the
  number of an over-voltage is the number of OK.
\<close>

theorem over_voltage_is_not_reported:
  assumes "is_short fix" "is_short act" "0 \<le> percent" "percent \<le> 100" "over_voltage fix act percent"
  shows "power_check_item fix act percent = E_PWR_CHECK_OK"
proof -
  have "0 \<le> tolerance fix percent" by (simp add: tolerance_def)
  then have "\<not> under_voltage fix act percent"
    using assms(5) by (auto simp: over_voltage_def under_voltage_def)
  then show ?thesis using power_check_item_eq [OF assms(1-4)] by simp
qed

lemma over_voltage_is_not_reported_witness:
  "power_check_item 5000 30000 4 = E_PWR_CHECK_OK"
  using over_voltage_is_not_reported [of 5000 30000 4] by (simp add: sample_defs)

text \<open>
  pwrUpgrade sends a start message and then blocks of at most 1024 bytes whose payloads, laid
  at their offsets, are the image, and whose length fields tell the truth.
\<close>

theorem upgrade_blocks_rebuild_image:
  assumes "pData \<noteq> []"
  shows "\<exists>ps. pwrUpgrade pData = [0x72, 0x05, 0x4, 0, 0, 0, 0, 0] # map upgrade_bytes ps
    \<and> concat (map up_payload ps) = pData \<and> blocks_at 0 ps
    \<and> (\<forall>p \<in> set ps. up_totalSize p = word_of_nat (length pData) \<and> up_dataType p = 0x73)"
  using assms pwrUpgrade_loop_ok [of pData "length pData" 0]
  by (intro exI [of _ "pwrUpgrade_loop pData (length pData) 0"])
     (simp add: pwrUpgrade_def MSG_TYPE_POWER_def)

lemma upgrade_blocks_rebuild_image_witness:
  "\<exists>ps. pwrUpgrade (replicate 1500 9) = [0x72, 0x05, 0x4, 0, 0, 0, 0, 0] # map upgrade_bytes ps
    \<and> concat (map up_payload ps) = replicate 1500 9 \<and> blocks_at 0 ps"
  using upgrade_blocks_rebuild_image [of "replicate 1500 9"] by auto

text \<open>
  A receiver that reads the packed power message head gets back every field that was written.
\<close>

theorem message_head_roundtrip: "bytes_head (head_bytes h @ xs) = h"
  by (rule bytes_head_bytes)

end
