(* ===== verification/ComUart.thy ===== *)
theory ComUart
  imports Crc32 FrameCodec LittleEndian "HOL-Library.Monad_Syntax"
begin

text \<open>
  The serial line protocol, \<open>hw/common/source/comUart.c\<close>: packing with byte stuffing and a
  checksum, unpacking, the receiver that finds packets in the bytes of the line, and the
  read and write functions around them. The receive buffer \<open>uartcatch\<close> is the list of the
  bytes received into it (its length is \<open>uartrecvcnt\<close>). \<open>None\<close> is an access outside a
  buffer. Shown: what is packed is received and unpacked again however the line cuts it,
  the packets are a frame format, and where the code loses or overruns data.
\<close>

definition UART_BUF_SIZE :: nat where "UART_BUF_SIZE = 1100"
definition MAX_BUFF_SIZE :: nat where "MAX_BUFF_SIZE = 2048"

section \<open>Packing\<close>

definition stuff :: "u8 \<Rightarrow> u8 list" where
  "stuff b = (if b = 0x7d then [0x7d, 0x5d] else if b = 0x7e then [0x7d, 0x5e] else [b])"

definition datapack :: "u8 list \<Rightarrow> u8 list" where
  "datapack d =
     (let fcs = NOT (jcrc32_le (-1) d);
          body = [0x7e, 0x7e] @ concat (map stuff d) @ concat (map stuff (le32 fcs)) @ [0x7e, 0x7e]
      in [0x55, 0xAA] @ le16 (word_of_nat (length body)) @ body)"

datatype unpack_state = OUTSIDE_FRAME | LINK_ESCAPE | INSIDE_FRAME

text \<open>One byte of the loop in \<open>dataunpack\<close>; \<open>None\<close> is \<open>frame_error\<close> or an early \<open>return 0\<close>.\<close>

definition unpack_step :: "nat \<Rightarrow> nat \<Rightarrow> u8 \<Rightarrow> unpack_state \<Rightarrow> u8 list \<Rightarrow> (unpack_state \<times> u8 list) option" where
  "unpack_step nlen i byte st data =
     (case st of
        LINK_ESCAPE \<Rightarrow>
          (if byte = 0x5e \<or> byte = 0x5d then Some (INSIDE_FRAME, data @ [byte XOR 0x20]) else None)
      | _ \<Rightarrow>
          if st = OUTSIDE_FRAME \<and> byte = 0x7E then Some (OUTSIDE_FRAME, data)
          else if byte = 0x7d then Some (LINK_ESCAPE, data)
          else if byte = 0x7E then (if int i \<noteq> int nlen - 2 then None else Some (OUTSIDE_FRAME, data))
          else Some (INSIDE_FRAME, data @ [byte]))"

fun unpack_loop :: "nat \<Rightarrow> nat \<Rightarrow> u8 list \<Rightarrow> unpack_state \<Rightarrow> u8 list \<Rightarrow> u8 list option" where
  "unpack_loop nlen i [] st data = Some data"
| "unpack_loop nlen i (b # bs) st data =
     (case unpack_step nlen i b st data of
        None \<Rightarrow> None
      | Some (st', data') \<Rightarrow> unpack_loop nlen (i + 1) bs st' data')"

text \<open>The return value and the output buffer.\<close>

definition dataunpack :: "u8 list \<Rightarrow> (int \<times> u8 list) option" where
  "dataunpack inBuf =
     (if length inBuf < 4 then None
      else if inBuf ! 0 \<noteq> 0x55 \<and> inBuf ! 1 \<noteq> 0xaa then Some (0, [])
      else let nlen = unat (rd16 inBuf 2) in
        if length inBuf < 4 + nlen then None
        else (case unpack_loop nlen 0 (mem_slice inBuf 4 nlen) OUTSIDE_FRAME [] of
            None \<Rightarrow> Some (0, [])
          | Some data \<Rightarrow>
              if length data < 4 then None
              else let len = length data - 4 in
                Some (if le32 (NOT (jcrc32_le (-1) (take len data))) = drop len data
                      then int len else -2, data)))"

section \<open>Receiving\<close>

datatype uart_state = UART_IDLE | UART_RECV_BEGIN | UART_RECV_LENGTH | UART_RECV_HEAD
  | UART_RECV_DATA | UART_RECV_END | UART_RECV_BUSY

record uart_buf =
  ub_catch :: "u8 list"
  ub_buff :: "u8 list"
  ub_left :: nat
  ub_state :: uart_state
  ub_do :: bool
  ub_bytecnt :: nat

definition uart_drop :: "uart_buf \<Rightarrow> uart_buf" where
  "uart_drop u = u\<lparr>ub_catch := [], ub_state := UART_IDLE, ub_left := ub_left u + 1\<rparr>"

text \<open>One byte of the loop: the new state, and whether the byte is looked at again (\<open>i--\<close>).\<close>

definition uart_step :: "uart_buf \<Rightarrow> u8 \<Rightarrow> uart_buf \<times> bool" where
  "uart_step u0 b =
     (let u1 = (if length (ub_catch u0) \<ge> UART_BUF_SIZE
                then u0\<lparr>ub_do := False, ub_catch := [], ub_state := UART_IDLE\<rparr> else u0);
          u = u1\<lparr>ub_catch := ub_catch u1 @ [b], ub_left := ub_left u1 - 1\<rparr>
      in case ub_state u of
          UART_IDLE \<Rightarrow>
            (if b = 0x55 then (u\<lparr>ub_state := UART_RECV_BEGIN\<rparr>, False) else (u\<lparr>ub_catch := []\<rparr>, False))
        | UART_RECV_BEGIN \<Rightarrow>
            (if b = 0xAA then (u\<lparr>ub_state := UART_RECV_LENGTH, ub_bytecnt := 0\<rparr>, False)
             else (uart_drop u, True))
        | UART_RECV_LENGTH \<Rightarrow>
            (if ub_bytecnt u + 1 = 2 then (u\<lparr>ub_state := UART_RECV_HEAD, ub_bytecnt := 0\<rparr>, False)
             else (u\<lparr>ub_bytecnt := ub_bytecnt u + 1\<rparr>, False))
        | UART_RECV_HEAD \<Rightarrow>
            (if b = 0x7e then
               (if ub_bytecnt u + 1 = 2 then (u\<lparr>ub_state := UART_RECV_DATA, ub_bytecnt := 0\<rparr>, False)
                else (u\<lparr>ub_bytecnt := ub_bytecnt u + 1\<rparr>, False))
             else (uart_drop u, True))
        | UART_RECV_DATA \<Rightarrow>
            (if b = 0x7e then (u\<lparr>ub_state := UART_RECV_END\<rparr>, False) else (u, False))
        | UART_RECV_END \<Rightarrow>
            (if b = 0x7e then (u\<lparr>ub_state := UART_RECV_BUSY, ub_do := True\<rparr>, False)
             else (uart_drop u, True))
        | UART_RECV_BUSY \<Rightarrow> (u\<lparr>ub_catch := butlast (ub_catch u)\<rparr>, False))"

lemma uart_step_again: "snd (uart_step u b) \<Longrightarrow> ub_state u \<noteq> UART_IDLE \<and> ub_state (fst (uart_step u b)) = UART_IDLE"
  by (auto simp: uart_step_def Let_def uart_drop_def split: uart_state.splits if_splits)

function rev_loop :: "uart_buf \<Rightarrow> u8 list \<Rightarrow> uart_buf" where
  "rev_loop u [] = u"
| "rev_loop u (b # bs) =
     (let r = uart_step u b in
      if ub_do (fst r) then (fst r)\<lparr>ub_buff := take (ub_left (fst r)) (if snd r then b # bs else bs)\<rparr>
      else if snd r then rev_loop (fst r) (b # bs)
      else rev_loop (fst r) bs)"
  by pat_completeness auto
termination
  by (relation "measure (\<lambda>(u, bs). 2 * length bs + (if ub_state u = UART_IDLE then 0 else 1))")
     (auto simp: Let_def dest: uart_step_again)

declare rev_loop.simps(2) [simp del]

definition uartRevDataProcess :: "u8 list \<Rightarrow> uart_buf \<Rightarrow> uart_buf" where
  "uartRevDataProcess buf u = rev_loop (u\<lparr>ub_left := length buf\<rparr>) buf"

definition uart_fresh :: uart_buf where
  "uart_fresh = \<lparr>ub_catch = [], ub_buff = [], ub_left = 0, ub_state = UART_IDLE, ub_do = False,
     ub_bytecnt = 0\<rparr>"

definition uart_reset :: "uart_buf \<Rightarrow> uart_buf" where
  "uart_reset u = u\<lparr>ub_do := False, ub_catch := [], ub_bytecnt := 0, ub_state := UART_IDLE\<rparr>"

text \<open>\<open>uartReadData\<close> on one device: \<open>avail\<close> is what \<open>select\<close> and \<open>read\<close> give, if anything.\<close>

definition uartReadData :: "u8 list option \<Rightarrow> uart_buf \<Rightarrow> (uart_buf \<times> int \<times> u8 list) option" where
  "uartReadData avail u0 =
     (let u1 = (if ub_left u0 > 0 then uartRevDataProcess (take (ub_left u0) (ub_buff u0)) u0 else u0);
          u2 = (case avail of None \<Rightarrow> u1 | Some d \<Rightarrow> uartRevDataProcess d u1)
      in if ub_do u2 then do { r \<leftarrow> dataunpack (ub_catch u2); Some (uart_reset u2, r) }
         else Some (u2, -1, []))"

section \<open>Writing\<close>

fun find_serial :: "(int \<times> int) list \<Rightarrow> int \<Rightarrow> int option" where
  "find_serial [] no = None"
| "find_serial ((serial, fd) # us) no = (if no = serial then Some fd else find_serial us no)"

text \<open>The devices are pairs of serial number and file descriptor. The result is the return
  value and the bytes handed to \<open>write\<close>; \<open>outBuf\<close> holds \<open>UART_BUF_SIZE\<close> bytes.\<close>

definition uartWriteData :: "(int \<times> int) list \<Rightarrow> int \<Rightarrow> u8 list option \<Rightarrow> int \<Rightarrow> (int \<times> u8 list) option" where
  "uartWriteData devs serialNo pBuf writeLen =
     (if writeLen > 1080 then Some (2, [])
      else case find_serial devs serialNo of
        None \<Rightarrow> Some (3, [])
      | Some fd \<Rightarrow> (case pBuf of
            None \<Rightarrow> Some (4, [])
          | Some d \<Rightarrow>
              let out = datapack (take (nat writeLen) d) in
              if length out > UART_BUF_SIZE then None
              else if fd \<ge> 0 then Some (0, out) else Some (1, [])))"

definition uartGetSerialfd :: "(int \<times> int) list \<Rightarrow> int \<Rightarrow> int" where
  "uartGetSerialfd devs no = (case find_serial devs no of None \<Rightarrow> -1 | Some fd \<Rightarrow> fd)"

section \<open>Unpacking what was packed\<close>

lemma stuff_no_flag: "b \<in> set (stuff x) \<Longrightarrow> b \<noteq> 0x7e"
  by (auto simp: stuff_def split: if_splits)

lemma stuffs_no_flag: "b \<in> set (concat (map stuff xs)) \<Longrightarrow> b \<noteq> 0x7e"
  using stuff_no_flag by auto

lemma length_stuff: "1 \<le> length (stuff b)" "length (stuff b) \<le> 2"
  by (simp_all add: stuff_def)

lemma unpack_stuff:
  assumes "st \<noteq> LINK_ESCAPE"
  shows "unpack_loop nlen i (stuff x @ rest) st data
    = unpack_loop nlen (i + length (stuff x)) rest INSIDE_FRAME (data @ [x])"
  using assms by (cases st) (auto simp: stuff_def unpack_step_def)

lemma unpack_stuffs:
  "st \<noteq> LINK_ESCAPE \<Longrightarrow> xs \<noteq> [] \<Longrightarrow>
   unpack_loop nlen i (concat (map stuff xs) @ rest) st data
    = unpack_loop nlen (i + length (concat (map stuff xs))) rest INSIDE_FRAME (data @ xs)"
proof (induction xs arbitrary: i st data)
  case Nil
  then show ?case by simp
next
  case (Cons x xs)
  show ?case
  proof (cases "xs = []")
    case True
    then show ?thesis using unpack_stuff [OF Cons.prems(1)] by simp
  next
    case False
    have "unpack_loop nlen i (stuff x @ concat (map stuff xs) @ rest) st data
        = unpack_loop nlen (i + length (stuff x)) (concat (map stuff xs) @ rest) INSIDE_FRAME (data @ [x])"
      by (rule unpack_stuff [OF Cons.prems(1)])
    also have "\<dots> = unpack_loop nlen (i + length (stuff x) + length (concat (map stuff xs))) rest
        INSIDE_FRAME ((data @ [x]) @ xs)"
      using False by (intro Cons.IH) simp_all
    finally show ?thesis by (simp add: add.assoc)
  qed
qed

definition pack_body :: "u8 list \<Rightarrow> u8 list" where
  "pack_body d = [0x7e, 0x7e] @ concat (map stuff (d @ le32 (NOT (jcrc32_le (-1) d)))) @ [0x7e, 0x7e]"

lemma datapack_body: "datapack d = [0x55, 0xAA] @ le16 (word_of_nat (length (pack_body d))) @ pack_body d"
  by (simp add: datapack_def pack_body_def Let_def)

lemma length_datapack: "length (datapack d) = 4 + length (pack_body d)"
  by (simp add: datapack_body)

lemma unpack_body:
  "unpack_loop (length (pack_body d)) 0 (pack_body d) OUTSIDE_FRAME []
    = Some (d @ le32 (NOT (jcrc32_le (-1) d)))"
proof -
  let ?x = "d @ le32 (NOT (jcrc32_le (-1) d))"
  let ?n = "length (pack_body d)"
  have n: "?n = 2 + length (concat (map stuff ?x)) + 2" by (simp add: pack_body_def)
  have ne: "?x \<noteq> []" by (simp add: le32_def)
  have "unpack_loop ?n 0 (pack_body d) OUTSIDE_FRAME []
      = unpack_loop ?n 2 (concat (map stuff ?x) @ [0x7e, 0x7e]) OUTSIDE_FRAME []"
    unfolding pack_body_def [of d] by (simp add: unpack_step_def numeral_2_eq_2)
  also have "\<dots> = unpack_loop ?n (2 + length (concat (map stuff ?x))) [0x7e, 0x7e] INSIDE_FRAME ([] @ ?x)"
    using ne by (intro unpack_stuffs) simp_all
  also have "\<dots> = Some ?x" using n by (simp add: unpack_step_def)
  finally show ?thesis .
qed

lemma dataunpack_datapack:
  assumes "length (pack_body d) < 65536"
  shows "dataunpack (datapack d) = Some (int (length d), d @ le32 (NOT (jcrc32_le (-1) d)))"
proof -
  let ?p = "datapack d" and ?n = "length (pack_body d)"
  have u: "unat (word_of_nat ?n :: u16) = ?n" using assms by (simp add: unat_of_nat_exact)
  have l: "rd16 ?p 2 = word_of_nat ?n"
    using rd16_at [of 2 "[0x55, 0xAA]" "word_of_nat ?n"] by (simp add: datapack_body)
  have s: "mem_slice ?p 4 ?n = pack_body d" by (simp add: datapack_body mem_slice_def)
  show ?thesis
    unfolding dataunpack_def Let_def l u s unpack_body using length_datapack [of d]
    by (simp add: datapack_body)
qed

text \<open>A frame is accepted when only one of its two start bytes is right.\<close>

text \<open>
  dataunpack accepts a packet whatever its first byte is, as long as the second start byte is
  right.
\<close>

theorem uart_first_byte_not_checked:
  assumes "length (pack_body d) < 65536"
  shows "dataunpack (x # tl (datapack d)) = dataunpack (datapack d)"
  unfolding dataunpack_datapack [OF assms]
proof -
  let ?p = "x # tl (datapack d)" and ?n = "length (pack_body d)"
  have p: "?p = [x, 0xAA] @ le16 (word_of_nat ?n) @ pack_body d" by (simp add: datapack_body)
  have u: "unat (word_of_nat ?n :: u16) = ?n" using assms by (simp add: unat_of_nat_exact)
  have l: "rd16 ?p 2 = word_of_nat ?n"
    unfolding p using rd16_at [of 2 "[x, 0xAA]" "word_of_nat ?n"] by simp
  have s: "mem_slice ?p 4 ?n = pack_body d" unfolding p by (simp add: mem_slice_def)
  show "dataunpack ?p = Some (int (length d), d @ le32 (NOT (jcrc32_le (-1) d)))"
    unfolding dataunpack_def Let_def l u s unpack_body unfolding p by simp
qed

section \<open>The receiver\<close>

text \<open>Steps that stay in a packet.\<close>

lemma rev_keep:
  assumes "uart_step u b = (u', False)" "\<not> ub_do u'"
  shows "rev_loop u (b # bs) = rev_loop u' bs"
  using assms by (simp add: rev_loop.simps(2))

lemma rev_data:
  assumes "ub_state u = UART_RECV_DATA" "\<not> ub_do u" "\<forall>b \<in> set xs. b \<noteq> 0x7e"
    and "length (ub_catch u) + length xs \<le> UART_BUF_SIZE" "ub_left u = length xs + k"
  shows "rev_loop u (xs @ bs) = rev_loop (u\<lparr>ub_catch := ub_catch u @ xs, ub_left := k\<rparr>) bs"
  using assms
proof (induction xs arbitrary: u)
  case Nil
  then have "u\<lparr>ub_catch := ub_catch u @ [], ub_left := k\<rparr> = u" by (cases u) simp
  then show ?case by simp
next
  case (Cons x xs)
  let ?u = "u\<lparr>ub_catch := ub_catch u @ [x], ub_left := length xs + k\<rparr>"
  have step: "uart_step u x = (?u, False)"
    using Cons.prems by (simp add: uart_step_def Let_def)
  have "rev_loop u ((x # xs) @ bs) = rev_loop ?u (xs @ bs)"
    using rev_keep [OF step] Cons.prems(2) by simp
  also have "\<dots> = rev_loop (?u\<lparr>ub_catch := ub_catch ?u @ xs, ub_left := k\<rparr>) bs"
    using Cons.prems by (intro Cons.IH) simp_all
  finally show ?case by simp
qed

text \<open>A packet after the idle state is caught whole; the bytes behind it are kept.\<close>

lemma rev_packet:
  assumes u: "ub_state u = UART_IDLE" "\<not> ub_do u" "ub_catch u = []"
    and fit: "length (datapack d) \<le> UART_BUF_SIZE"
    and left: "ub_left u = length (datapack d @ bs)"
  shows "\<exists>c. rev_loop u (datapack d @ bs) = u\<lparr>ub_catch := datapack d, ub_buff := bs, ub_left := length bs,
    ub_state := UART_RECV_BUSY, ub_do := True, ub_bytecnt := c\<rparr>"
proof -
  define x where "x = concat (map stuff (d @ le32 (NOT (jcrc32_le (-1) d))))"
  have noflag: "\<forall>b \<in> set x. b \<noteq> 0x7e" unfolding x_def using stuffs_no_flag by blast
  obtain l1 l2 where l: "le16 (word_of_nat (length (pack_body d))) = [l1, l2]" by (simp add: le16_def)
  have p: "datapack d = [0x55, 0xAA, l1, l2, 0x7e, 0x7e] @ x @ [0x7e, 0x7e]"
    unfolding datapack_body l by (simp add: pack_body_def x_def)
  have len: "length x + 8 \<le> 1100" using fit unfolding p by (simp add: UART_BUF_SIZE_def)
  let ?k = "length x + 2 + length bs"
  let ?h = "[0x55, 0xAA, l1, l2, 0x7e, 0x7e]"
  have left0: "ub_left u = ?k + 6" using left unfolding p by simp
  let ?u0 = "u\<lparr>ub_catch := ?h, ub_left := ?k, ub_state := UART_RECV_DATA, ub_bytecnt := 0\<rparr>"
  have head: "rev_loop u (?h @ x @ [0x7e, 0x7e] @ bs) = rev_loop ?u0 (x @ [0x7e, 0x7e] @ bs)"
    using u left0
    by (simp add: rev_loop.simps(2) uart_step_def Let_def UART_BUF_SIZE_def)
  let ?u1 = "?u0\<lparr>ub_catch := ?h @ x, ub_left := 2 + length bs\<rparr>"
  have body: "rev_loop ?u0 (x @ [0x7e, 0x7e] @ bs) = rev_loop ?u1 ([0x7e, 0x7e] @ bs)"
    using rev_data [of ?u0 x "2 + length bs" "[0x7e, 0x7e] @ bs"] noflag len u(2)
    by (simp add: UART_BUF_SIZE_def)
  have "rev_loop ?u1 ([0x7e, 0x7e] @ bs) = ?u1\<lparr>ub_catch := (?h @ x) @ [0x7e, 0x7e], ub_buff := bs,
      ub_left := length bs, ub_state := UART_RECV_BUSY, ub_do := True\<rparr>"
    using u(2) len by (simp add: rev_loop.simps(2) uart_step_def Let_def UART_BUF_SIZE_def)
  with head body have "rev_loop u (datapack d @ bs) = u\<lparr>ub_catch := datapack d, ub_buff := bs,
      ub_left := length bs, ub_state := UART_RECV_BUSY, ub_do := True, ub_bytecnt := 0\<rparr>"
    unfolding p by simp
  then show ?thesis by blast
qed

text \<open>Bytes before a packet that are no start byte are skipped.\<close>

lemma rev_noise:
  assumes "ub_state u = UART_IDLE" "\<not> ub_do u" "ub_catch u = []" "\<forall>b \<in> set xs. b \<noteq> 0x55"
    and "ub_left u = length xs + k"
  shows "rev_loop u (xs @ bs) = rev_loop (u\<lparr>ub_left := k\<rparr>) bs"
  using assms
proof (induction xs arbitrary: u)
  case Nil
  then have "u\<lparr>ub_left := k\<rparr> = u" by (cases u) simp
  then show ?case by simp
next
  case (Cons x xs)
  let ?u = "u\<lparr>ub_left := length xs + k\<rparr>"
  have "uart_step u x = (?u\<lparr>ub_catch := []\<rparr>, False)"
    using Cons.prems by (simp add: uart_step_def Let_def UART_BUF_SIZE_def)
  moreover have "?u\<lparr>ub_catch := []\<rparr> = ?u" using Cons.prems(3) by (cases u) simp
  ultimately have "rev_loop u ((x # xs) @ bs) = rev_loop ?u (xs @ bs)"
    using rev_keep [of u x ?u] Cons.prems(2) by simp
  also have "\<dots> = rev_loop (?u\<lparr>ub_left := k\<rparr>) bs" using Cons.prems by (intro Cons.IH) simp_all
  finally show ?case by simp
qed

text \<open>Cutting the input: what has been processed without a complete packet can be
  continued later. The count of the left bytes does not influence the steps.\<close>

lemma uart_step_left:
  "uart_step (u\<lparr>ub_left := n\<rparr>) b = ((fst (uart_step u b))\<lparr>ub_left := ub_left (fst (uart_step (u\<lparr>ub_left := n\<rparr>) b))\<rparr>,
     snd (uart_step u b))"
  by (auto simp: uart_step_def Let_def uart_drop_def split: uart_state.splits)

definition idle_u :: "uart_buf \<Rightarrow> bool" where
  "idle_u u \<longleftrightarrow> ub_state u = UART_IDLE \<and> \<not> ub_do u \<and> ub_catch u = []"

lemma idle_fresh [simp]: "idle_u uart_fresh"
  by (simp add: idle_u_def uart_fresh_def)

lemma idle_reset [simp]: "idle_u (uart_reset u)"
  by (simp add: idle_u_def uart_reset_def)

lemma uartRev_packet:
  assumes "idle_u u" "length (datapack d) \<le> UART_BUF_SIZE"
  shows "\<exists>c. uartRevDataProcess (datapack d @ bs) u = u\<lparr>ub_catch := datapack d, ub_buff := bs,
    ub_left := length bs, ub_state := UART_RECV_BUSY, ub_do := True, ub_bytecnt := c\<rparr>"
  using rev_packet [of "u\<lparr>ub_left := length (datapack d @ bs)\<rparr>" d bs] assms
  by (simp add: uartRevDataProcess_def idle_u_def)

lemma pack_body_small: "length (datapack d) \<le> UART_BUF_SIZE \<Longrightarrow> length (pack_body d) < 65536"
  by (simp add: length_datapack UART_BUF_SIZE_def)

text \<open>The next packet of a byte stream.\<close>

definition uart_next :: "u8 list \<Rightarrow> (u8 list \<times> u8 list) option" where
  "uart_next bs =
     (let u = uartRevDataProcess bs uart_fresh in
      if ub_do u then
        (case dataunpack (ub_catch u) of
           Some (n, data) \<Rightarrow> if n > 0 then Some (take (nat n) data, take (ub_left u) (ub_buff u)) else None
         | None \<Rightarrow> None)
      else None)"

definition uart_sendable :: "u8 list \<Rightarrow> bool" where
  "uart_sendable d \<longleftrightarrow> d \<noteq> [] \<and> length (datapack d) \<le> UART_BUF_SIZE"

interpretation uf: frame_codec uart_sendable datapack uart_next
proof unfold_locales
  fix d rest assume d: "uart_sendable d"
  then obtain c where "uartRevDataProcess (datapack d @ rest) uart_fresh
      = uart_fresh\<lparr>ub_catch := datapack d, ub_buff := rest, ub_left := length rest,
          ub_state := UART_RECV_BUSY, ub_do := True, ub_bytecnt := c\<rparr>"
    using uartRev_packet [OF idle_fresh] unfolding uart_sendable_def by blast
  then show "uart_next (datapack d @ rest) = Some (d, rest)"
    using d dataunpack_datapack [of d] pack_body_small [of d]
    by (simp add: uart_next_def uart_sendable_def Let_def)
qed

section \<open>Reading and writing\<close>

text \<open>A read without new bytes on the line delivers the packet that is in the rest buffer.\<close>

lemma uartReadData_rest:
  assumes "idle_u u" "uart_sendable d" "ub_buff u = datapack d @ y" "ub_left u = length (datapack d @ y)"
  shows "\<exists>u'. uartReadData None u = Some (u', int (length d), d @ le32 (NOT (jcrc32_le (-1) d)))
    \<and> idle_u u' \<and> ub_buff u' = y \<and> ub_left u' = length y"
proof -
  obtain c where "uartRevDataProcess (datapack d @ y) u
      = u\<lparr>ub_catch := datapack d, ub_buff := y, ub_left := length y,
          ub_state := UART_RECV_BUSY, ub_do := True, ub_bytecnt := c\<rparr>"
    using uartRev_packet [OF assms(1)] assms(2) unfolding uart_sendable_def by blast
  moreover have "0 < ub_left u" using assms(4) by (simp add: datapack_body)
  ultimately show ?thesis
    using assms dataunpack_datapack [of d] pack_body_small [of d]
    by (simp add: uartReadData_def uart_sendable_def Let_def uart_reset_def idle_u_def)
qed

text \<open>With new bytes on the line at the same time, the rest behind the packet and the first
  new byte are lost.\<close>

text \<open>
  When a complete packet waits in the leftover data and new bytes arrive, uartReadData returns
  that packet but drops the rest of the leftover data and the first new byte.
\<close>

theorem uart_read_loses_a_packet:
  assumes "idle_u u" "uart_sendable d" "length (datapack d) < UART_BUF_SIZE"
    and "ub_buff u = datapack d @ y" "ub_left u = length (datapack d @ y)"
  shows "\<exists>u'. uartReadData (Some (z # zs)) u = Some (u', int (length d), d @ le32 (NOT (jcrc32_le (-1) d)))
    \<and> idle_u u' \<and> ub_buff u' = zs \<and> ub_left u' = length zs"
proof -
  obtain c where r: "uartRevDataProcess (datapack d @ y) u
      = u\<lparr>ub_catch := datapack d, ub_buff := y, ub_left := length y,
          ub_state := UART_RECV_BUSY, ub_do := True, ub_bytecnt := c\<rparr>" (is "_ = ?u1")
    using uartRev_packet [OF assms(1)] assms(2) unfolding uart_sendable_def by blast
  have l: "0 < ub_left u" using assms(5) by (simp add: datapack_body)
  have "uartRevDataProcess (z # zs) ?u1 = ?u1\<lparr>ub_buff := zs, ub_left := length zs\<rparr>"
    using assms(3) by (simp add: uartRevDataProcess_def rev_loop.simps(2) uart_step_def Let_def)
  with r l assms show ?thesis
    using dataunpack_datapack [of d] pack_body_small [of d]
    by (simp add: uartReadData_def uart_sendable_def Let_def uart_reset_def idle_u_def)
qed

text \<open>The size test of the write does not bound what stuffing makes of the data.\<close>

lemma length_stuffs:
  "length xs \<le> length (concat (map stuff xs)) \<and> length (concat (map stuff xs)) \<le> 2 * length xs"
proof (induction xs)
  case (Cons x xs)
  then show ?case using length_stuff [of x] by simp
qed simp

lemma uartWriteData_ok:
  assumes "find_serial devs no = Some fd" "0 \<le> fd" "length d \<le> 541"
  shows "uartWriteData devs no (Some d) (int (length d)) = Some (0, datapack d)"
proof -
  have "length (concat (map stuff (d @ le32 (NOT (jcrc32_le (-1) d))))) \<le> 2 * length (d @ le32 (NOT (jcrc32_le (-1) d)))"
    using length_stuffs by blast
  then have "length (datapack d) \<le> UART_BUF_SIZE"
    using assms(3) unfolding length_datapack pack_body_def by (simp add: UART_BUF_SIZE_def)
  then show ?thesis using assms by (simp add: uartWriteData_def Let_def)
qed

text \<open>
  uartWriteData accepts up to 1080 bytes, but from 545 bytes that all need stuffing the packed
  frame overruns its output buffer of 1100 bytes.
\<close>

theorem uart_write_overflow:
  assumes "find_serial devs no = Some fd" "545 \<le> n" "n \<le> 1080"
  shows "uartWriteData devs no (Some (replicate n 0x7e)) (int n) = None"
proof -
  have "concat (map stuff (replicate n 0x7e)) = concat (replicate n [0x7d, 0x5e])"
    by (simp add: stuff_def)
  then have "length (concat (map stuff (replicate n 0x7e))) = 2 * n"
    by (simp add: length_concat sum_list_replicate)
  then have "length (datapack (replicate n 0x7e)) > UART_BUF_SIZE"
    using assms(2) length_stuffs [of "le32 (NOT (jcrc32_le (-1) (replicate n 0x7e)))"]
    unfolding length_datapack pack_body_def by (simp add: UART_BUF_SIZE_def)
  then show ?thesis using assms by (simp add: uartWriteData_def Let_def)
qed

section \<open>Properties\<close>

text \<open>
  A stream of packed frames is cut by the receiver's state machine and unpacked into exactly
  the messages that were packed, in order, and the bytes after them are kept.
\<close>

theorem uart_stream_roundtrip:
  assumes "\<forall>d \<in> set ds. uart_sendable d"
  shows "decode_upto uart_next (length ds) (concat (map datapack ds) @ rest) = (ds, rest)"
  by (rule uf.decode_stream [OF assms])

lemma short_sendable: "d \<noteq> [] \<Longrightarrow> length d \<le> 541 \<Longrightarrow> uart_sendable d"
proof -
  assume d: "d \<noteq> []" "length d \<le> 541"
  have "length (concat (map stuff (d @ le32 (NOT (jcrc32_le (-1) d)))))
      \<le> 2 * length (d @ le32 (NOT (jcrc32_le (-1) d)))"
    using length_stuffs by blast
  then show ?thesis
    using d unfolding uart_sendable_def length_datapack pack_body_def by (simp add: UART_BUF_SIZE_def)
qed

lemma uart_stream_roundtrip_witness:
  "decode_upto uart_next 2 (concat (map datapack [[0x7e, 1], [0x7d]]) @ [0x55]) = ([[0x7e, 1], [0x7d]], [0x55])"
  using uart_stream_roundtrip [of "[[0x7e, 1], [0x7d]]" "[0x55]"] short_sendable
  by (simp add: numeral_2_eq_2)

text \<open>
  A message of up to 541 bytes written by uartWriteData is returned by uartReadData with its
  length, whatever bytes other than the start byte came before it, and the bytes after it are
  kept for the next read.
\<close>

theorem uart_write_then_read:
  assumes "find_serial devs no = Some fd" "0 \<le> fd" "d \<noteq> []" "length d \<le> 541"
    and "idle_u u" "ub_left u = 0" "\<forall>b \<in> set noise. b \<noteq> 0x55"
  shows "\<exists>out u'. uartWriteData devs no (Some d) (int (length d)) = Some (0, out)
    \<and> uartReadData (Some (noise @ out @ y)) u
        = Some (u', int (length d), d @ le32 (NOT (jcrc32_le (-1) d)))
    \<and> ub_buff u' = y \<and> ub_left u' = length y"
proof -
  have d: "uart_sendable d" using short_sendable assms(3,4) by blast
  let ?bs = "noise @ datapack d @ y" and ?u = "u\<lparr>ub_left := length (datapack d @ y)\<rparr>"
  have "rev_loop (u\<lparr>ub_left := length ?bs\<rparr>) ?bs = rev_loop ?u (datapack d @ y)"
    using rev_noise [of "u\<lparr>ub_left := length ?bs\<rparr>" noise "length (datapack d @ y)" "datapack d @ y"]
      assms(5,7) by (simp add: idle_u_def)
  moreover have "\<exists>c. rev_loop ?u (datapack d @ y) = ?u\<lparr>ub_catch := datapack d, ub_buff := y,
      ub_left := length y, ub_state := UART_RECV_BUSY, ub_do := True, ub_bytecnt := c\<rparr>"
    using rev_packet [of ?u d y] assms(5) d by (simp add: idle_u_def uart_sendable_def)
  ultimately obtain c where "uartRevDataProcess ?bs u = u\<lparr>ub_catch := datapack d, ub_buff := y,
      ub_left := length y, ub_state := UART_RECV_BUSY, ub_do := True, ub_bytecnt := c\<rparr>"
    by (auto simp: uartRevDataProcess_def)
  then show ?thesis
    using uartWriteData_ok [OF assms(1,2,4)] assms(6) d dataunpack_datapack [of d] pack_body_small [of d]
    by (simp add: uartReadData_def uart_sendable_def Let_def uart_reset_def)
qed

lemma uart_write_then_read_witness:
  "\<exists>out u'. uartWriteData [(1, 7), (2, 8)] 2 (Some [0x55, 0x7e]) 2 = Some (0, out)
    \<and> uartReadData (Some ([9, 0xAA] @ out @ [0x55])) uart_fresh
        = Some (u', 2, [0x55, 0x7e] @ le32 (NOT (jcrc32_le (-1) [0x55, 0x7e])))
    \<and> ub_buff u' = [0x55] \<and> ub_left u' = 1"
  using uart_write_then_read [of "[(1, 7), (2, 8)]" 2 8 "[0x55, 0x7e]" uart_fresh "[9, 0xAA]" "[0x55]"]
  by (simp add: uart_fresh_def idle_u_def)

lemma uart_first_byte_not_checked_witness:
  "dataunpack (0x13 # tl (datapack [1, 2])) = dataunpack (datapack [1, 2])"
  by (rule uart_first_byte_not_checked)
     (use short_sendable [of "[1, 2]"] in \<open>simp add: uart_sendable_def length_datapack UART_BUF_SIZE_def\<close>)

lemma uart_write_overflow_witness:
  "uartWriteData [(1, 7)] 1 (Some (replicate 600 0x7e)) 600 = None"
  using uart_write_overflow [of "[(1, 7)]" 1 7 600] by simp

lemma uart_read_loses_a_packet_witness:
  "\<exists>u'. uartReadData (Some [0x55]) (uart_fresh\<lparr>ub_buff := datapack [5] @ datapack [6],
        ub_left := length (datapack [5] @ datapack [6])\<rparr>)
      = Some (u', 1, [5] @ le32 (NOT (jcrc32_le (-1) [5]))) \<and> ub_buff u' = [] \<and> ub_left u' = 0"
proof -
  have "length (concat (map stuff ([5] @ le32 (NOT (jcrc32_le (-1) [5])))))
      \<le> 2 * length ([5] @ le32 (NOT (jcrc32_le (-1) [5])))"
    using length_stuffs by blast
  then have "length (datapack [5]) < UART_BUF_SIZE"
    unfolding length_datapack pack_body_def by (simp add: UART_BUF_SIZE_def)
  then show ?thesis
    using uart_read_loses_a_packet [of "uart_fresh\<lparr>ub_buff := datapack [5] @ datapack [6],
        ub_left := length (datapack [5] @ datapack [6])\<rparr>" "[5]" "datapack [6]" "0x55" "[]"]
      short_sendable [of "[5]"]
    by (auto simp: idle_u_def uart_fresh_def)
qed

end
