(* ===== verification/IcManager.thy ===== *)
theory IcManager
  imports Prelude "HOL-Library.Monad_Syntax"
begin

text \<open>
  The manager of panel chips, \<open>icm/ic_manager.c\<close>: a table of 256 chip descriptors, the choice of
  the current chip by its name, and the calls handed on to the operations of that chip. The
  operations of a chip are a partial map from the members of \<open>icm_chip_t\<close> to the values they
  return; the calls made are the trace (chip, member, arguments). Pointer arguments are
  addresses. The second half reads and writes the common voltage over the virtual I2C bus; the
  bytes the chip answers are arguments, the bus operations are a trace.
\<close>

section \<open>Chips and the table\<close>

datatype icm_slot =
    snd_init_code | reset_private_data | id_op | check_ok | read_vcom_otp_times
  | read_vcom_otp_info | write_vcom_otp_value | read_vcom | write_vcom | check_vcom_otp_burn_ok
  | write_analog_gamma_reg_data | read_analog_gamma_reg_data | write_fix_analog_gamma_reg_data
  | write_digital_gamma_reg_data | write_fix_digital_gamma_reg_data | d3g_control
  | burn_gamma_otp_values | check_gamma_otp_values | get_analog_gamma_reg_data
  | get_digital_gamma_reg_data | get_id_otp_info | burn_id

record icm_chip =
  ic_name :: string
  ic_ops :: "icm_slot \<Rightarrow> (int list \<Rightarrow> int) option"

type_synonym icm_call = "string \<times> icm_slot \<times> int list"

definition IC_CHIP_MAX_NUM :: nat where "IC_CHIP_MAX_NUM = 256"

definition CHANNEL_IDLE :: int where "CHANNEL_IDLE = 0"
definition CHANNEL_BUSY :: int where "CHANNEL_BUSY = 1"

record icm_mng =
  im_index :: nat
  im_chips :: "icm_chip option list"
  im_state :: "int list"
  im_initCodeName :: string

text \<open>The block \<open>calloc\<close> gives, and the registrations of the chip files in their order.\<close>

definition icm_empty :: icm_mng where
  "icm_empty = \<lparr>im_index = 0, im_chips = replicate IC_CHIP_MAX_NUM None, im_state = replicate 4 0,
     im_initCodeName = []\<rparr>"

fun register_first :: "icm_chip option list \<Rightarrow> icm_chip \<Rightarrow> icm_chip option list" where
  "register_first [] c = []"
| "register_first (None # cs) c = Some c # cs"
| "register_first (Some d # cs) c = Some d # register_first cs c"

definition registerIcChip :: "icm_chip option \<Rightarrow> icm_mng \<Rightarrow> icm_mng" where
  "registerIcChip pChip m =
     (case pChip of None \<Rightarrow> m | Some c \<Rightarrow> m\<lparr>im_chips := register_first (im_chips m) c\<rparr>)"

definition ic_mgr_init :: "icm_chip list \<Rightarrow> icm_mng" where
  "ic_mgr_init cs = fold (\<lambda>c m. registerIcChip (Some c) m) cs icm_empty"

text \<open>\<open>strcpy\<close> into a field of 256 characters.\<close>

definition icMgrSetInitCodeName :: "string \<Rightarrow> icm_mng \<Rightarrow> icm_mng option" where
  "icMgrSetInitCodeName pName m =
     (if length pName < 256 then Some (m\<lparr>im_initCodeName := pName\<rparr>) else None)"

fun find_chip :: "icm_chip option list \<Rightarrow> string \<Rightarrow> nat \<Rightarrow> nat option" where
  "find_chip [] str i = None"
| "find_chip (None # cs) str i = find_chip cs str (i + 1)"
| "find_chip (Some c # cs) str i = (if str = ic_name c then Some i else find_chip cs str (i + 1))"

definition ic_mgr_set_current_chip_id :: "string \<Rightarrow> icm_mng \<Rightarrow> icm_mng \<times> int" where
  "ic_mgr_set_current_chip_id str_chip_id m =
     (let m0 = m\<lparr>im_index := 0\<rparr> in
      (case find_chip (im_chips m0) str_chip_id 0 of
         None \<Rightarrow> m0 | Some i \<Rightarrow> m0\<lparr>im_index := i\<rparr>, 0))"

text \<open>The test of the channel asks for a number below 0 and above 3, which no number is.\<close>

definition currentIcmChipAndCheckChannel :: "int \<Rightarrow> icm_mng \<Rightarrow> icm_chip option" where
  "currentIcmChipAndCheckChannel channel m =
     (if channel < 0 \<and> channel > 3 then None else im_chips m ! im_index m)"

section \<open>Handing calls on\<close>

text \<open>No chip and no operation give \<open>-1\<close>; otherwise the operation's result is returned.\<close>

definition icm_dispatch :: "icm_slot \<Rightarrow> int list \<Rightarrow> int \<Rightarrow> icm_mng \<Rightarrow> int \<times> icm_call list" where
  "icm_dispatch slot args channel m =
     (case currentIcmChipAndCheckChannel channel m of
        None \<Rightarrow> (-1, [])
      | Some c \<Rightarrow> (case ic_ops c slot of
            None \<Rightarrow> (-1, [])
          | Some f \<Rightarrow> (f args, [(ic_name c, slot, args)])))"

text \<open>The name of the initialisation code is passed by the address \<open>name_addr\<close>.\<close>

definition icMgrSndInitCode :: "int \<Rightarrow> int \<Rightarrow> icm_mng \<Rightarrow> icm_call list" where
  "icMgrSndInitCode name_addr channel m = snd (icm_dispatch snd_init_code [channel, name_addr] channel m)"

definition ic_mgr_set_channel_state :: "int \<Rightarrow> u32 \<Rightarrow> icm_mng \<Rightarrow> (icm_mng \<times> int \<times> icm_call list) option" where
  "ic_mgr_set_channel_state channel state m =
     (let calls = snd (icm_dispatch reset_private_data [channel] channel m) in
      if 0 \<le> channel \<and> nat channel < length (im_state m)
      then Some (m\<lparr>im_state := (im_state m)[nat channel := if state \<noteq> 0 then CHANNEL_BUSY else CHANNEL_IDLE]\<rparr>,
                 0, calls)
      else None)"

definition ic_mgr_read_chip_id :: "int \<Rightarrow> int \<Rightarrow> int \<Rightarrow> icm_mng \<Rightarrow> int \<times> icm_call list" where
  "ic_mgr_read_chip_id channel p_id_data id_data_len =
     icm_dispatch id_op [channel, p_id_data, id_data_len] channel"

definition ic_mgr_check_chip_ok :: "int \<Rightarrow> icm_mng \<Rightarrow> int \<times> icm_call list" where
  "ic_mgr_check_chip_ok channel = icm_dispatch check_ok [channel] channel"

definition ic_mgr_read_chip_vcom_otp_times :: "int \<Rightarrow> int \<Rightarrow> icm_mng \<Rightarrow> int \<times> icm_call list" where
  "ic_mgr_read_chip_vcom_otp_times channel p_otp_vcom_times =
     icm_dispatch read_vcom_otp_times [channel, p_otp_vcom_times] channel"

definition ic_mgr_read_chip_vcom_otp_value :: "int \<Rightarrow> int \<Rightarrow> int \<Rightarrow> icm_mng \<Rightarrow> int \<times> icm_call list" where
  "ic_mgr_read_chip_vcom_otp_value channel p_times p_value =
     icm_dispatch read_vcom_otp_info [channel, p_times, p_value] channel"

definition ic_mgr_write_chip_vcom_otp_value :: "int \<Rightarrow> int \<Rightarrow> icm_mng \<Rightarrow> int \<times> icm_call list" where
  "ic_mgr_write_chip_vcom_otp_value channel otp_vcom_value =
     icm_dispatch write_vcom_otp_value [channel, otp_vcom_value] channel"

definition ic_mgr_read_vcom :: "int \<Rightarrow> int \<Rightarrow> icm_mng \<Rightarrow> int \<times> icm_call list" where
  "ic_mgr_read_vcom channel p_vcom_value = icm_dispatch read_vcom [channel, p_vcom_value] channel"

definition ic_mgr_write_vcom :: "int \<Rightarrow> int \<Rightarrow> icm_mng \<Rightarrow> int \<times> icm_call list" where
  "ic_mgr_write_vcom channel vcom_value = icm_dispatch write_vcom [channel, vcom_value] channel"

definition ic_mgr_check_vcom_otp_burn_ok :: "int \<Rightarrow> int \<Rightarrow> int \<Rightarrow> int \<Rightarrow> icm_mng \<Rightarrow> int \<times> icm_call list" where
  "ic_mgr_check_vcom_otp_burn_ok channel vcom_value last_otp_times p_read_vcom =
     icm_dispatch check_vcom_otp_burn_ok [channel, vcom_value, last_otp_times, p_read_vcom] channel"

definition ic_mgr_write_analog_gamma_data :: "int \<Rightarrow> int \<Rightarrow> int \<Rightarrow> icm_mng \<Rightarrow> int \<times> icm_call list" where
  "ic_mgr_write_analog_gamma_data channel p_data len =
     icm_dispatch write_analog_gamma_reg_data [channel, p_data, len] channel"

definition ic_mgr_read_analog_gamma_data :: "int \<Rightarrow> int \<Rightarrow> int \<Rightarrow> icm_mng \<Rightarrow> int \<times> icm_call list" where
  "ic_mgr_read_analog_gamma_data channel p_data len =
     icm_dispatch read_analog_gamma_reg_data [channel, p_data, len] channel"

definition ic_mgr_write_fix_analog_gamma_data :: "int \<Rightarrow> icm_mng \<Rightarrow> int \<times> icm_call list" where
  "ic_mgr_write_fix_analog_gamma_data channel =
     icm_dispatch write_fix_analog_gamma_reg_data [channel] channel"

definition ic_mgr_write_digital_gamma_data :: "int \<Rightarrow> int \<Rightarrow> int \<Rightarrow> icm_mng \<Rightarrow> int \<times> icm_call list" where
  "ic_mgr_write_digital_gamma_data channel p_data len =
     icm_dispatch write_digital_gamma_reg_data [channel, p_data, len] channel"

definition ic_mgr_write_fix_digital_gamma_data :: "int \<Rightarrow> icm_mng \<Rightarrow> int \<times> icm_call list" where
  "ic_mgr_write_fix_digital_gamma_data channel =
     icm_dispatch write_fix_digital_gamma_reg_data [channel] channel"

definition ic_mgr_d3g_control :: "int \<Rightarrow> int \<Rightarrow> icm_mng \<Rightarrow> int \<times> icm_call list" where
  "ic_mgr_d3g_control channel enable = icm_dispatch d3g_control [channel, enable] channel"

text \<open>\<open>tables\<close>: the addresses and lengths of the four gamma tables, in the order of the code.\<close>

definition ic_mgr_burn_gamma_otp_values :: "int \<Rightarrow> int \<Rightarrow> int \<Rightarrow> int \<Rightarrow> int list \<Rightarrow> icm_mng \<Rightarrow> int \<times> icm_call list" where
  "ic_mgr_burn_gamma_otp_values channel burn_flag enable_burn_vcom vcom tables =
     icm_dispatch burn_gamma_otp_values ([channel, burn_flag, enable_burn_vcom, vcom] @ tables) channel"

definition ic_mgr_check_gamma_otp_values :: "int \<Rightarrow> int \<Rightarrow> int \<Rightarrow> int \<Rightarrow> int list \<Rightarrow> icm_mng \<Rightarrow> int \<times> icm_call list" where
  "ic_mgr_check_gamma_otp_values channel enable_burn_vcom new_vcom_value last_vcom_otp_times tables =
     icm_dispatch check_gamma_otp_values
       ([channel, enable_burn_vcom, new_vcom_value, last_vcom_otp_times] @ tables) channel"

definition ic_mgr_get_analog_gamma_reg_data :: "int \<Rightarrow> int \<Rightarrow> int \<Rightarrow> icm_mng \<Rightarrow> int \<times> icm_call list" where
  "ic_mgr_get_analog_gamma_reg_data channel p_data p_len =
     icm_dispatch get_analog_gamma_reg_data [channel, p_data, p_len] channel"

definition ic_mgr_get_digital_gamma_reg_data_t :: "int \<Rightarrow> int list \<Rightarrow> icm_mng \<Rightarrow> int \<times> icm_call list" where
  "ic_mgr_get_digital_gamma_reg_data_t channel tables =
     icm_dispatch get_digital_gamma_reg_data (channel # tables) channel"

definition ic_mgr_read_chip_id_otp_info :: "int \<Rightarrow> int \<Rightarrow> int \<Rightarrow> int \<Rightarrow> icm_mng \<Rightarrow> int \<times> icm_call list" where
  "ic_mgr_read_chip_id_otp_info channel p_id_data p_id_data_len p_otp_times =
     icm_dispatch get_id_otp_info [channel, p_id_data, p_id_data_len, p_otp_times] channel"

text \<open>Burning an identification calls the operation that reads it, with a length and a number
  where that operation expects addresses.\<close>

definition ic_mgr_burn_chip_id :: "int \<Rightarrow> int \<Rightarrow> int \<Rightarrow> int \<Rightarrow> icm_mng \<Rightarrow> int \<times> icm_call list" where
  "ic_mgr_burn_chip_id channel p_id_data id_data_len ptn_id =
     icm_dispatch get_id_otp_info [channel, p_id_data, id_data_len, ptn_id] channel"

section \<open>The common voltage over I2C\<close>

datatype bus_op =
    GpioOut nat int
  | BusWrite int u8 u8 u8
  | BusRead int u8 u8
  | Sleep nat

definition TTL_GPIO_PIN_UD_L :: nat where "TTL_GPIO_PIN_UD_L = 54"
definition TTL_GPIO_PIN_UD_R :: nat where "TTL_GPIO_PIN_UD_R = 61"

definition setIcWriteState :: "int \<Rightarrow> bool \<Rightarrow> bus_op list" where
  "setIcWriteState channel enable =
     (if channel = 0 \<or> channel = 1
      then [GpioOut TTL_GPIO_PIN_UD_L (if enable then 0 else 1)]
      else [GpioOut TTL_GPIO_PIN_UD_R (if enable then 0 else 1)])"

text \<open>\<open>r10\<close> is what the chip answers for register \<open>0x10\<close>.\<close>

definition burnVcom :: "u8 \<Rightarrow> int \<Rightarrow> u8 \<Rightarrow> bus_op list" where
  "burnVcom r10 channel value =
     setIcWriteState channel True
     @ [BusWrite channel 0x52 0x00 0x01, BusRead channel 0x52 0x10,
        BusWrite channel 0x52 0x10 (r10 OR push_bit 4 1), BusWrite channel 0x52 0x16 value,
        BusWrite channel 0x52 0x00 0x09, BusWrite channel 0x52 0x02 0x66,
        BusWrite channel 0x52 0x01 0x08, BusWrite channel 0x52 0x03 0x01,
        Sleep (50 * 1000), BusRead channel 0x52 0x0F, BusWrite channel 0x52 0x02 0]
     @ setIcWriteState channel False"

definition readVcom :: "u8 \<Rightarrow> int \<Rightarrow> bus_op list \<times> u8" where
  "readVcom r16 channel =
     (setIcWriteState channel True
      @ [BusWrite channel 0x52 0x00 0x01, BusRead channel 0x52 0x16]
      @ setIcWriteState channel False, r16)"

definition writeVcom :: "u8 \<Rightarrow> int \<Rightarrow> u8 \<Rightarrow> bus_op list" where
  "writeVcom r10 channel value =
     setIcWriteState channel True
     @ [BusWrite channel 0x52 0x00 0x01, BusRead channel 0x52 0x10,
        BusWrite channel 0x52 0x10 (r10 OR push_bit 4 1), BusWrite channel 0x52 0x16 value]"

lemma unat_half: "unat (drop_bit 1 w) = unat w div 2" for w :: "'a::len word"
  unfolding unat_drop_bit_eq by (simp add: drop_bit_eq_div)

text \<open>The loop that shifts the value to the right until it is 0.\<close>

function shift_count :: "u16 \<Rightarrow> nat \<Rightarrow> nat" where
  "shift_count value count = (if value = 0 then count else shift_count (drop_bit 1 value) (count + 1))"
  by pat_completeness auto
termination
proof (relation "measure (\<lambda>(v, _). unat v)")
  fix w :: u16 and count :: nat
  assume "w \<noteq> 0"
  then have "0 < unat w" by (simp add: unat_gt_0)
  then have "unat (drop_bit 1 w) < unat w" unfolding unat_half by simp
  then show "((drop_bit 1 w, count + 1), w, count) \<in> measure (\<lambda>(v, _). unat v)"
    by (simp only: in_measure case_prod_conv)
qed simp

declare shift_count.simps [simp del]

definition readVcomOtpTimes :: "u8 \<Rightarrow> u8 \<Rightarrow> int \<Rightarrow> bus_op list \<times> nat" where
  "readVcomOtpTimes r1E r1D channel =
     (let highBits = ucast r1E :: u16; lowBits = ucast r1D :: u16;
          value = push_bit 8 (highBits AND 0x3) OR lowBits
      in ([BusWrite channel 0x52 0x00 0x01, BusRead channel 0x52 0x1E, BusRead channel 0x52 0x1D],
          shift_count value 0))"

section \<open>The table after the registrations\<close>

lemma register_first_free:
  "register_first (map Some cs @ replicate n None) c
    = (if n = 0 then map Some cs else map Some (cs @ [c]) @ replicate (n - 1) None)"
  by (induction cs) (cases n, auto)+

lemma registrations:
  "im_chips (fold (\<lambda>c m. registerIcChip (Some c) m) cs (m\<lparr>im_chips := map Some ds @ replicate n None\<rparr>))
    = map Some (ds @ take n cs) @ replicate (n - length cs) None"
proof (induction cs arbitrary: m ds n)
  case (Cons c cs)
  show ?case
  proof (cases n)
    case 0
    have "registerIcChip (Some c) (m\<lparr>im_chips := map Some ds\<rparr>) = m\<lparr>im_chips := map Some ds\<rparr>"
      using register_first_free [of ds 0 c] by (simp add: registerIcChip_def)
    then show ?thesis using Cons.IH [where m = m and ds = ds and n = 0] 0 by simp
  next
    case (Suc k)
    have "registerIcChip (Some c) (m\<lparr>im_chips := map Some ds @ replicate n None\<rparr>)
        = m\<lparr>im_chips := map Some (ds @ [c]) @ replicate k None\<rparr>"
      using register_first_free [of ds n c] Suc by (simp add: registerIcChip_def)
    then show ?thesis using Cons.IH [where m = m and ds = "ds @ [c]" and n = k] Suc by simp
  qed
qed simp

lemma init_chips:
  "im_chips (ic_mgr_init cs) = map Some (take 256 cs) @ replicate (256 - length cs) None"
proof -
  have "icm_empty = icm_empty\<lparr>im_chips := map Some [] @ replicate 256 None\<rparr>"
    by (simp add: icm_empty_def IC_CHIP_MAX_NUM_def)
  then show ?thesis
    using registrations [where cs = cs and m = icm_empty and ds = "[]" and n = 256] by (simp add: ic_mgr_init_def)
qed

lemma find_chip_table:
  "find_chip (map Some cs @ replicate n None) str i
    = (if \<exists>c \<in> set cs. str = ic_name c
       then Some (i + length (takeWhile (\<lambda>c. str \<noteq> ic_name c) cs)) else None)"
proof (induction cs arbitrary: i)
  case Nil
  have "find_chip (replicate n None) str i = None" by (induction n arbitrary: i) auto
  then show ?case by simp
qed auto

lemma chosen_chip:
  "\<exists>c \<in> set cs. P c \<Longrightarrow>
   length (takeWhile (\<lambda>c. \<not> P c) cs) < length cs
   \<and> List.find P cs = Some (cs ! length (takeWhile (\<lambda>c. \<not> P c) cs))"
  by (induction cs) auto

section \<open>Properties\<close>

text \<open>
  After the registrations, ic_mgr_set_current_chip_id makes the first registered chip of that
  name the one the calls go to, and the first chip of the table when there is none of that
  name, whatever the channel.
\<close>

theorem chip_is_chosen_by_name:
  "currentIcmChipAndCheckChannel channel (fst (ic_mgr_set_current_chip_id name (ic_mgr_init cs)))
    = (case List.find (\<lambda>c. name = ic_name c) (take 256 cs) of
         Some c \<Rightarrow> Some c | None \<Rightarrow> (if cs = [] then None else Some (hd cs)))"
proof (cases "\<exists>c \<in> set (take 256 cs). name = ic_name c")
  case True
  let ?k = "length (takeWhile (\<lambda>c. name \<noteq> ic_name c) (take 256 cs))"
  have k: "?k < length (take 256 cs)"
    "List.find (\<lambda>c. name = ic_name c) (take 256 cs) = Some (take 256 cs ! ?k)"
    using chosen_chip [OF True] by auto
  have "find_chip (im_chips (ic_mgr_init cs)) name 0 = Some ?k"
    using True unfolding init_chips find_chip_table by simp
  then have "im_index (fst (ic_mgr_set_current_chip_id name (ic_mgr_init cs))) = ?k"
    "im_chips (fst (ic_mgr_set_current_chip_id name (ic_mgr_init cs))) = im_chips (ic_mgr_init cs)"
    by (simp_all add: ic_mgr_set_current_chip_id_def Let_def)
  then have "currentIcmChipAndCheckChannel channel (fst (ic_mgr_set_current_chip_id name (ic_mgr_init cs)))
      = (map Some (take 256 cs) @ replicate (256 - length cs) None) ! ?k"
    by (simp add: currentIcmChipAndCheckChannel_def init_chips)
  also have "\<dots> = Some (take 256 cs ! ?k)" using k(1) by (simp only: nth_append length_map if_True nth_map)
  finally show ?thesis using k(2) by simp
next
  case False
  then have none: "List.find (\<lambda>c. name = ic_name c) (take 256 cs) = None" by (auto simp: find_None_iff)
  have "find_chip (im_chips (ic_mgr_init cs)) name 0 = None"
    using False unfolding init_chips find_chip_table by simp
  then have "im_index (fst (ic_mgr_set_current_chip_id name (ic_mgr_init cs))) = 0"
    "im_chips (fst (ic_mgr_set_current_chip_id name (ic_mgr_init cs))) = im_chips (ic_mgr_init cs)"
    by (simp_all add: ic_mgr_set_current_chip_id_def Let_def)
  then have "currentIcmChipAndCheckChannel channel (fst (ic_mgr_set_current_chip_id name (ic_mgr_init cs)))
      = (map Some (take 256 cs) @ replicate (256 - length cs) None) ! 0"
    by (auto simp: currentIcmChipAndCheckChannel_def init_chips)
  then show ?thesis using none by (cases cs) auto
qed

text \<open>
  ic_mgr_burn_chip_id calls the chip's operation that reads the identification: no call of the
  burning operation is ever made.
\<close>

theorem burning_an_id_only_reads_it:
  "ic_mgr_burn_chip_id channel p_id_data id_data_len ptn_id m
     = ic_mgr_read_chip_id_otp_info channel p_id_data id_data_len ptn_id m
   \<and> burn_id \<notin> (\<lambda>(_, slot, _). slot) ` set (snd (ic_mgr_burn_chip_id channel p_id_data id_data_len ptn_id m))"
  by (auto simp: ic_mgr_burn_chip_id_def ic_mgr_read_chip_id_otp_info_def icm_dispatch_def
      split: option.splits)

text \<open>The register writes of a trace are guarded when each is made while the pin is 0; the second
  component is the pin at the end.\<close>

fun guarded :: "nat \<Rightarrow> int \<Rightarrow> bus_op list \<Rightarrow> bool \<times> int" where
  "guarded pin v [] = (True, v)"
| "guarded pin v (GpioOut p x # ops) = guarded pin (if p = pin then x else v) ops"
| "guarded pin v (BusWrite c s r x # ops) = (v = 0 \<and> fst (guarded pin v ops), snd (guarded pin v ops))"
| "guarded pin v (BusRead c s r # ops) = guarded pin v ops"
| "guarded pin v (Sleep t # ops) = guarded pin v ops"

definition ud_pin :: "int \<Rightarrow> nat" where
  "ud_pin channel = (if channel = 0 \<or> channel = 1 then TTL_GPIO_PIN_UD_L else TTL_GPIO_PIN_UD_R)"

text \<open>
  burnVcom, readVcom and writeVcom write registers only while the write-enable pin of the
  channel is active; the first two switch it off again, writeVcom leaves it on.
\<close>

theorem vcom_writes_are_guarded:
  "guarded (ud_pin channel) v (burnVcom r10 channel x) = (True, 1)
   \<and> guarded (ud_pin channel) v (fst (readVcom r16 channel)) = (True, 1)
   \<and> guarded (ud_pin channel) v (writeVcom r10 channel x) = (True, 0)"
  by (simp add: burnVcom_def readVcom_def writeVcom_def setIcWriteState_def ud_pin_def)

lemma shift_count_bits:
  "w \<noteq> 0 \<Longrightarrow> \<exists>k. shift_count w c = c + k + 1 \<and> 2 ^ k \<le> unat w \<and> unat w < 2 ^ (k + 1)"
proof (induction w c rule: shift_count.induct)
  case (1 w c)
  let ?v = "drop_bit 1 w"
  have half: "unat ?v = unat w div 2" by (rule unat_half)
  have step: "shift_count w c = shift_count ?v (c + 1)"
    using "1.prems" by (simp add: shift_count.simps [of w])
  show ?case
  proof (cases "?v = 0")
    case True
    then have "unat w div 2 = 0" using half by simp
    moreover have "0 < unat w" using "1.prems" by (simp add: unat_gt_0)
    ultimately have "unat w = 1" by linarith
    then show ?thesis using step True by (intro exI [of _ 0]) (simp add: shift_count.simps [of 0])
  next
    case False
    from "1.IH" [OF "1.prems" False] obtain k where
      k: "shift_count ?v (c + 1) = c + 1 + k + 1" "2 ^ k \<le> unat ?v" "unat ?v < 2 ^ (k + 1)" by blast
    have "2 ^ (k + 1) \<le> unat w" "unat w < 2 ^ (k + 2)" using k(2,3) half by simp_all
    then show ?thesis using step k(1) by (intro exI [of _ "k + 1"]) simp
  qed
qed

lemma otp_value:
  "unat (push_bit 8 ((ucast r1E :: u16) AND 0x3) OR ucast r1D) = 256 * (unat (r1E :: u8) mod 4) + unat (r1D :: u8)"
proof -
  let ?h = "push_bit 8 ((ucast r1E :: u16) AND 0x3)" and ?l = "ucast r1D :: u16"
  have l: "unat ?l = unat r1D" "unat r1D < 256" using unsigned_less [of r1D] by (simp_all add: unat_ucast_up)
  have "(ucast r1E :: u16) AND 3 = take_bit 2 (ucast r1E)" by (simp add: mask_eq_exp_minus_1 take_bit_eq_mask)
  then have a: "unat ((ucast r1E :: u16) AND 3) = unat r1E mod 4"
    by (simp add: take_bit_eq_mod unat_mod unat_ucast_up)
  have "unat ?h = take_bit 16 (push_bit 8 (unat r1E mod 4))"
    unfolding unsigned_push_bit_eq a [symmetric] by simp
  also have "\<dots> = 256 * (unat r1E mod 4)"
  proof -
    have "unat r1E mod 4 < 4" by simp
    then have "256 * (unat r1E mod 4) < 2 ^ 16" by simp
    then show ?thesis by (simp add: push_bit_eq_mult take_bit_nat_eq_self mult.commute)
  qed
  finally have h: "unat ?h = 256 * (unat r1E mod 4)" .
  have hb: "bit ?h n \<Longrightarrow> 8 \<le> n" for n by (simp only: bit_push_bit_iff)
  have lb: "bit ?l n \<Longrightarrow> n < 8" for n by (auto simp: bit_ucast_iff dest: bit_imp_le_length)
  have "\<not> bit ?h n \<or> \<not> bit ?l n" for n using hb [of n] lb [of n] by linarith
  then have "?h OR ?l = ?h + ?l" by (simp add: disjunctive_add)
  moreover have "unat (?h + ?l) = unat ?h + unat ?l"
    by (rule unat_add_exact) (use h l in simp)
  ultimately show ?thesis using h l by simp
qed

text \<open>
  readVcomOtpTimes returns the bit length of the 10-bit register value, and its loop ends.
\<close>

theorem otp_count_is_bit_length:
  "\<exists>n. snd (readVcomOtpTimes r1E r1D channel) = n \<and> n \<le> 10
     \<and> 256 * (unat r1E mod 4) + unat r1D < 2 ^ n
     \<and> (n = 0 \<or> 2 ^ (n - 1) \<le> 256 * (unat r1E mod 4) + unat r1D)"
proof -
  let ?w = "push_bit 8 ((ucast r1E :: u16) AND 0x3) OR ucast r1D"
  let ?v = "256 * (unat r1E mod 4) + unat r1D"
  have w: "unat ?w = ?v" by (rule otp_value)
  have n: "snd (readVcomOtpTimes r1E r1D channel) = shift_count ?w 0"
    by (simp add: readVcomOtpTimes_def Let_def)
  have "unat r1D < 2 ^ LENGTH(8)" by (rule unsigned_less)
  then have "unat r1D < 256" by simp
  moreover have "unat r1E mod 4 < 4" by simp
  ultimately have "?v < 1024" by linarith
  then have small: "unat ?w < 2 ^ 10" using w by simp
  show ?thesis
  proof (cases "?w = 0")
    case True
    then have "?v = 0" using w by simp
    then show ?thesis unfolding n True by (simp add: shift_count.simps [of 0])
  next
    case False
    then obtain k where k: "shift_count ?w 0 = 0 + k + 1" "2 ^ k \<le> unat ?w" "unat ?w < 2 ^ (k + 1)"
      using shift_count_bits by blast
    have "k < 10"
    proof (rule ccontr)
      assume "\<not> k < 10"
      then have "(2::nat) ^ 10 \<le> 2 ^ k" by (intro power_increasing) simp_all
      then show False using k(2) small by linarith
    qed
    then show ?thesis unfolding n k(1) using k(2,3) unfolding w by auto
  qed
qed

end
