(* ===== verification/OpenShort.thy ===== *)
theory OpenShort
  imports Prelude
begin

text \<open>
  The open and short circuit test of the panel connector, \<open>openshort/openshort.c\<close>. The value the
  micro controller measures depends on what is driven: it is the argument \<open>rd\<close>, a function of the
  channel and of the driven signal pin or general purpose pin. The effects are a trace. The code
  compares a tenth of the measured 16-bit value, as a \<open>float\<close>, with thresholds that are \<open>int\<close>s; that
  is the comparison of the value with ten times the threshold, because tenths that differ are
  further apart than the rounding.
\<close>

datatype os_point = Idle | SignalPin nat | GpioPin nat

datatype pin_status = PIN_STATU_OK | PIN_STATU_OPEN | PIN_STATU_SHORT

datatype os_action =
    EnterMode | OpenSignal | CloseSignal | LeaveMode
  | SetData nat u32
  | GpioSet nat int
  | Measure nat
  | Wait nat
  | NotifySignal nat pin_status
  | NotifyGpio nat pin_status
  | NotifyBegin nat
  | NotifyFailed nat
  | NotifyEnd

record monitor_cfg =
  open_value :: int
  short_value :: int

definition MAX_OPEN_SHORT_PIN_NUMS :: nat where "MAX_OPEN_SHORT_PIN_NUMS = 28"

definition open_short_singal_notify_to_pc :: "nat \<Rightarrow> pin_status \<Rightarrow> os_action list" where
  "open_short_singal_notify_to_pc pin status = [NotifySignal (pin + 1) status]"

definition open_short_gpio_notify_to_pc :: "nat \<Rightarrow> pin_status \<Rightarrow> os_action list" where
  "open_short_gpio_notify_to_pc pin status =
     (if status = PIN_STATU_OK then [] else [NotifyGpio (pin + 1) status])"

text \<open>Pin numbers: enable, then up/down, left/right, mode, standby and reset of each side.\<close>

definition channel_gpios :: "nat \<Rightarrow> nat list" where
  "channel_gpios channel = (if channel = 1 then [61, 63, 72, 64, 10] else [54, 56, 60, 57, 11])"

definition channel_enable :: "nat \<Rightarrow> nat" where
  "channel_enable channel = (if channel = 1 then 58 else 70)"

definition reset_short_gpio :: "nat \<Rightarrow> os_action list" where
  "reset_short_gpio channel =
     map (\<lambda>pin. GpioSet pin 0) (channel_enable channel # channel_gpios channel)"

section \<open>The checks\<close>

definition check_gpio_short :: "(nat \<Rightarrow> os_point \<Rightarrow> u16) \<Rightarrow> monitor_cfg \<Rightarrow> nat \<Rightarrow> nat \<Rightarrow> nat \<times> os_action list" where
  "check_gpio_short rd cfg channel gpioIndex =
     (let v = int (unat (rd channel (GpioPin gpioIndex)));
          act = [GpioSet gpioIndex 1, Wait 50, Measure channel, GpioSet gpioIndex 0]
      in if v < 10 * open_value cfg
         then (1, act @ open_short_gpio_notify_to_pc gpioIndex PIN_STATU_OPEN)
         else if v > 10 * short_value cfg
         then (1, act @ open_short_gpio_notify_to_pc gpioIndex PIN_STATU_SHORT)
         else (0, act @ open_short_gpio_notify_to_pc gpioIndex PIN_STATU_SHORT))"

text \<open>One signal pin of the loop.\<close>

definition check_signal_pin :: "(nat \<Rightarrow> os_point \<Rightarrow> u16) \<Rightarrow> monitor_cfg \<Rightarrow> nat \<Rightarrow> nat \<Rightarrow> nat \<times> os_action list" where
  "check_signal_pin rd cfg devChannel i =
     (let v = int (unat (rd devChannel (SignalPin i)));
          act = [SetData devChannel (push_bit i 1), Wait 100, Measure devChannel]
      in if v < 10 * open_value cfg
         then (1, act @ open_short_singal_notify_to_pc i PIN_STATU_OPEN)
         else if v > 10 * short_value cfg
         then (1, act @ open_short_singal_notify_to_pc i PIN_STATU_SHORT)
         else (0, act @ open_short_singal_notify_to_pc i PIN_STATU_OK))"

fun add_checks :: "(nat \<Rightarrow> nat \<times> os_action list) \<Rightarrow> nat list \<Rightarrow> nat \<times> os_action list" where
  "add_checks f [] = (0, [])"
| "add_checks f (i # is) =
     (case f i of (k, a) \<Rightarrow> (case add_checks f is of (m, b) \<Rightarrow> (k + m, a @ b)))"

definition check_channel :: "(nat \<Rightarrow> os_point \<Rightarrow> u16) \<Rightarrow> monitor_cfg \<Rightarrow> nat \<Rightarrow> nat \<times> os_action list" where
  "check_channel rd cfg devChannel =
     (case add_checks (check_signal_pin rd cfg devChannel) [0..<MAX_OPEN_SHORT_PIN_NUMS] of (k, a) \<Rightarrow>
      case add_checks (check_gpio_short rd cfg devChannel) (channel_gpios devChannel) of (m, b) \<Rightarrow>
        (k + m,
         [NotifyBegin devChannel, SetData devChannel 0, Wait 100, Measure devChannel] @ a
         @ [SetData devChannel 0, Wait 100] @ reset_short_gpio devChannel
         @ [Wait 100, Measure devChannel, Wait 100] @ b
         @ (if k + m \<noteq> 0 then [NotifyFailed devChannel] else []) @ [NotifyEnd]))"

definition open_short_test_singal_and_io :: "(nat \<Rightarrow> os_point \<Rightarrow> u16) \<Rightarrow> monitor_cfg \<Rightarrow> int \<times> os_action list" where
  "open_short_test_singal_and_io rd cfg =
     (case check_channel rd cfg 0 of (k, a) \<Rightarrow>
      case check_channel rd cfg 1 of (m, b) \<Rightarrow>
        (if k = 0 \<and> m = 0 then 1 else if k = 0 then 2 else if m = 0 then 3 else -1,
         [EnterMode, OpenSignal, Wait 100] @ a @ b @ [Wait 200, CloseSignal, LeaveMode]))"

section \<open>What the test finds\<close>

definition in_range :: "monitor_cfg \<Rightarrow> u16 \<Rightarrow> bool" where
  "in_range cfg v \<longleftrightarrow> 10 * open_value cfg \<le> int (unat v) \<and> int (unat v) \<le> 10 * short_value cfg"

definition channel_good :: "(nat \<Rightarrow> os_point \<Rightarrow> u16) \<Rightarrow> monitor_cfg \<Rightarrow> nat \<Rightarrow> bool" where
  "channel_good rd cfg c \<longleftrightarrow> list_all (\<lambda>i. in_range cfg (rd c (SignalPin i))) [0..<28]
     \<and> list_all (\<lambda>g. in_range cfg (rd c (GpioPin g))) (channel_gpios c)"

lemma add_checks_zero: "fst (add_checks f is) = 0 \<longleftrightarrow> (\<forall>i \<in> set is. fst (f i) = 0)"
  by (induction "is") (auto split: prod.splits)

lemma add_checks_actions: "snd (add_checks f is) = concat (map (snd \<circ> f) is)"
  by (induction "is") (auto split: prod.splits)

lemma check_zero:
  "fst (check_signal_pin rd cfg c i) = 0 \<longleftrightarrow> in_range cfg (rd c (SignalPin i))"
  "fst (check_gpio_short rd cfg c g) = 0 \<longleftrightarrow> in_range cfg (rd c (GpioPin g))"
  by (auto simp: check_signal_pin_def check_gpio_short_def in_range_def Let_def)

lemma check_channel_zero: "fst (check_channel rd cfg c) = 0 \<longleftrightarrow> channel_good rd cfg c"
proof -
  have "fst (check_channel rd cfg c)
      = fst (add_checks (check_signal_pin rd cfg c) [0..<28]) + fst (add_checks (check_gpio_short rd cfg c) (channel_gpios c))"
    by (simp add: check_channel_def MAX_OPEN_SHORT_PIN_NUMS_def split: prod.splits)
  then show ?thesis
    by (simp only: add_is_0 add_checks_zero check_zero channel_good_def list_all_iff)
qed

lemma gpio_actions:
  "set (snd (add_checks (check_gpio_short rd cfg c) (channel_gpios c))) \<subseteq> set (snd (check_channel rd cfg c))"
  by (auto simp: check_channel_def split: prod.splits)

lemma verdict_cases:
  "fst (open_short_test_singal_and_io rd cfg) =
    (if channel_good rd cfg 0 then (if channel_good rd cfg 1 then 1 else 2)
     else if channel_good rd cfg 1 then 3 else -1)"
  by (simp add: open_short_test_singal_and_io_def flip: check_channel_zero split: prod.splits)

section \<open>Properties\<close>

text \<open>
  C15: The result of open_short_test_singal_and_io names exactly the channels whose 28 signal
  pins and five general pins all measure between the two thresholds.
\<close>

theorem open_short_verdict:
  "fst (open_short_test_singal_and_io rd cfg) =
    (if channel_good rd cfg 0 then (if channel_good rd cfg 1 then 1 else 2)
     else if channel_good rd cfg 1 then 3 else -1)"
  by (rule verdict_cases)

text \<open>
  A general purpose pin that measures between the thresholds is reported to the host as short-
  circuited.
\<close>

theorem good_gpio_is_reported_short:
  assumes "c < 2" "g \<in> set (channel_gpios c)" "in_range cfg (rd c (GpioPin g))"
  shows "NotifyGpio (g + 1) PIN_STATU_SHORT \<in> set (snd (open_short_test_singal_and_io rd cfg))"
proof -
  have "NotifyGpio (g + 1) PIN_STATU_SHORT \<in> set (snd (check_gpio_short rd cfg c g))"
    using assms(3) by (auto simp: check_gpio_short_def in_range_def Let_def open_short_gpio_notify_to_pc_def)
  then have "NotifyGpio (g + 1) PIN_STATU_SHORT \<in> set (snd (check_channel rd cfg c))"
    using gpio_actions [of rd cfg c] assms(2) by (auto simp: add_checks_actions)
  moreover have "c = 0 \<or> c = 1" using assms(1) by linarith
  ultimately show ?thesis
    by (auto simp: open_short_test_singal_and_io_def split: prod.splits)
qed

lemma good_gpio_is_reported_short_witness:
  "NotifyGpio 55 PIN_STATU_SHORT
    \<in> set (snd (open_short_test_singal_and_io (\<lambda>_ _. 20) \<lparr>open_value = 1, short_value = 3\<rparr>))"
  using good_gpio_is_reported_short [of 0 54 "\<lparr>open_value = 1, short_value = 3\<rparr>" "\<lambda>_ _. 20"]
  by (simp add: channel_gpios_def in_range_def)

end
