(* ===== verification/AutoFlick.thy ===== *)
theory AutoFlick
  imports Prelude
begin

text \<open>
  The search for the common voltage with the least flicker, \<open>hw/mipi/mipiflick.c\<close>. The colour
  analyser is an argument: \<open>cap k vcom\<close> is what the \<open>k\<close>-th capture gives while the voltage is
  \<open>vcom\<close>, its status and the flicker in hundredths as the code truncates it; measurements may
  change with \<open>k\<close>. Writes of the voltage, delays, captures and notifications are a trace. The
  search itself is the recursive \<open>z_auto_flick_2\<close>, one call of which is \<open>flick_round\<close>; its
  parameters \<open>init_vcom\<close> and \<open>left_find_min_flick\<close> to \<open>right_find_min_flick\<close> are never read.
\<close>

section \<open>One measurement\<close>

type_synonym probe = "nat \<Rightarrow> int \<Rightarrow> int \<times> int"

definition PROBE_STATU_OK :: int where "PROBE_STATU_OK = 0"
definition PROBE_STATU_OTHER_ERROR :: int where "PROBE_STATU_OTHER_ERROR = -200"
definition PROBE_STATU_OUT_RANGE :: int where "PROBE_STATU_OUT_RANGE = -50"

text \<open>\<open>99999.99\<close> is stored into, and compared as, an \<open>int\<close>; times 100 it is an integer.\<close>

definition INVALID_FLICK_VALUE :: int where "INVALID_FLICK_VALUE = 99999"

datatype flick_act =
    WriteVcom int int
  | DelayMs int
  | Capture int
  | NotifyPc int int int
  | ShowLcd int int int
  | StartFlick int
  | StopFlick int

definition z_flick_test :: "probe \<Rightarrow> nat \<Rightarrow> int \<Rightarrow> int \<Rightarrow> int \<Rightarrow> int \<Rightarrow> int \<times> int \<times> flick_act list" where
  "z_flick_test cap k mipi_channel porbe_channel read_delay vcom =
     (let acts = [WriteVcom mipi_channel vcom] @ (if read_delay > 0 then [DelayMs read_delay] else [])
                 @ [Capture porbe_channel]
      in case cap k vcom of (retval, f_flick) \<Rightarrow>
        if retval = PROBE_STATU_OK then (PROBE_STATU_OK, f_flick, acts)
        else if retval = PROBE_STATU_OUT_RANGE then (PROBE_STATU_OUT_RANGE, INVALID_FLICK_VALUE, acts)
        else (PROBE_STATU_OTHER_ERROR, INVALID_FLICK_VALUE, acts))"

definition m_channel_1 :: int where "m_channel_1 = 1"
definition m_channel_2 :: int where "m_channel_2 = 4"

definition flick_notify_pc :: "int \<Rightarrow> int \<Rightarrow> int \<Rightarrow> flick_act list" where
  "flick_notify_pc mipi_channel vcom flick =
     (if mipi_channel = m_channel_1
      then [NotifyPc mipi_channel vcom (if flick < 0 then 9999999 else flick)] else [])"

section \<open>The search\<close>

record flick_cfg =
  fc_mipi :: int
  fc_probe :: int
  fc_delay :: int
  fc_min :: int
  fc_max :: int
  fc_notify :: bool
  fc_min_ok :: int
  fc_max_ok :: int

definition change_direct :: "int \<Rightarrow> int" where
  "change_direct direction = (if direction = -1 then 1 else -1)"

definition s_max_error_cnt :: int where "s_max_error_cnt = 10"
definition s_max_change_direct_cnt :: int where "s_max_change_direct_cnt = 5"

text \<open>The five blocks that choose the next voltage differ in the step, in whether the limits
  themselves count as inside (\<open>incl\<close>), and in whether an error is counted. The result is the
  voltage, the direction and the turns to add.\<close>

definition flick_step :: "int \<Rightarrow> int" where
  "flick_step last_flick =
     (if last_flick < 0 then 10 else if last_flick \<ge> INVALID_FLICK_VALUE then 10
      else if last_flick > 50 * 100 then 5 else if last_flick > 20 * 100 then 3 else 1)"

definition flick_invalid :: "int \<Rightarrow> bool" where
  "flick_invalid last_flick \<longleftrightarrow> last_flick < 0 \<or> last_flick \<ge> INVALID_FLICK_VALUE"

definition next_vcom :: "int \<Rightarrow> bool \<Rightarrow> int \<Rightarrow> int \<Rightarrow> int \<Rightarrow> int \<Rightarrow> int \<times> int \<times> int" where
  "next_vcom step incl min_vcom max_vcom last_vcom find_direction =
     (if find_direction = -1 then
        if last_vcom > min_vcom + step \<and> (if incl then last_vcom \<le> max_vcom else last_vcom < max_vcom)
        then (last_vcom - step, find_direction, 0)
        else (min_vcom + step, change_direct find_direction, 1)
      else
        if (if incl then last_vcom \<ge> min_vcom else last_vcom > min_vcom) \<and> last_vcom < max_vcom - step
        then (last_vcom + step, find_direction, 0)
        else (max_vcom - step, change_direct find_direction, 1))"

text \<open>One call: it ends with a return value and perhaps a result, or goes on with the arguments
  \<open>last_vcom\<close>, \<open>last_flick\<close>, \<open>find_direction\<close>, \<open>flick_error_cnt\<close>, \<open>change_direction_cnt\<close>.\<close>

datatype flick_next = Done int "(int \<times> int) option" | Again int int int int int

definition flick_round ::
  "flick_cfg \<Rightarrow> probe \<Rightarrow> nat \<Rightarrow> int \<Rightarrow> int \<Rightarrow> int \<Rightarrow> int \<Rightarrow> int \<Rightarrow> flick_next \<times> flick_act list" where
  "flick_round cfg cap k last_vcom last_flick find_direction flick_error_cnt change_direction_cnt =
    (let errs = (if flick_invalid last_flick then flick_error_cnt + 1 else flick_error_cnt);
         step = flick_step last_flick
     in case next_vcom step (flick_invalid last_flick) (fc_min cfg) (fc_max cfg) last_vcom find_direction of
       (vcom, dir, t) \<Rightarrow>
     case z_flick_test cap k (fc_mipi cfg) (fc_probe cfg) (fc_delay cfg) vcom of (ret, flick, test) \<Rightarrow>
     let turns = change_direction_cnt + t;
         acts = test @ (if fc_notify cfg then flick_notify_pc (fc_mipi cfg) vcom flick else [])
                @ [ShowLcd (fc_mipi cfg) vcom flick];
         worse = (flick > 0 \<and> last_flick > 0 \<and> last_flick < flick)
     in if worse \<and> step = 1 \<and> turns \<ge> 1 then (Done 0 (Some (last_vcom, last_flick)), acts)
        else
        let dir2 = (if worse then (if dir = 0 then -1 else - dir) else dir);
            turns2 = (if worse then turns + 1 else turns)
        in if flick > 0 \<and> flick < fc_min_ok cfg then (Done 0 (Some (vcom, flick)), acts)
           else if flick > 0 \<and> flick < fc_max_ok cfg \<and> turns2 \<ge> s_max_change_direct_cnt
           then (Done 0 (Some (if last_flick < flick then (last_vcom, last_flick) else (vcom, flick))), acts)
           else if errs \<ge> s_max_error_cnt \<and> flick \<ge> INVALID_FLICK_VALUE then (Done 0 None, acts)
           else if turns2 \<ge> s_max_change_direct_cnt then (Done (-1) None, acts)
           else (Again vcom flick dir2 errs turns2, acts))"

text \<open>The distance to the end of the range in the direction of the search; a call that goes on
  has turned or has come closer to it.\<close>

definition flick_dist :: "flick_cfg \<Rightarrow> int \<Rightarrow> int \<Rightarrow> nat" where
  "flick_dist cfg v d = (if d = -1 then nat (v - fc_min cfg) else nat (fc_max cfg - v))"

lemma flick_step_range: "flick_step f \<in> {1, 3, 5, 10}"
  by (simp add: flick_step_def)

lemma flick_step_pos: "1 \<le> flick_step f" "flick_step f \<le> 10"
  by (simp_all add: flick_step_def)

lemma next_vcom_progress:
  assumes "next_vcom s incl (fc_min cfg) (fc_max cfg) v d = (v', d', t)" "1 \<le> s"
  shows "t = 1 \<or> t = 0 \<and> d' = d \<and> flick_dist cfg v' d' < flick_dist cfg v d
    \<and> flick_dist cfg v d \<le> nat (fc_max cfg - fc_min cfg)"
  using assms by (auto simp: next_vcom_def flick_dist_def split: if_splits)

text \<open>What a call does with its measurement.\<close>

lemma flick_round_cases:
  assumes "next_vcom (flick_step f) (flick_invalid f) (fc_min cfg) (fc_max cfg) v d = (w, dir, u)"
    and "z_flick_test cap k (fc_mipi cfg) (fc_probe cfg) (fc_delay cfg) w = (ret, flick, test)"
  obtains (step_min) "fst (flick_round cfg cap k v f d e t) = Done 0 (Some (v, f))"
      "0 < f" "f < flick" "flick_step f = 1" "1 \<le> t + u"
    | (small) "fst (flick_round cfg cap k v f d e t) = Done 0 (Some (w, flick))" "0 < flick" "flick < fc_min_ok cfg"
    | (turned) "fst (flick_round cfg cap k v f d e t)
        = Done 0 (Some (if f < flick then (v, f) else (w, flick)))" "0 < flick" "flick < fc_max_ok cfg"
    | (nothing) r where "fst (flick_round cfg cap k v f d e t) = Done r None"
    | (again) dir2 e2 t2 where "fst (flick_round cfg cap k v f d e t) = Again w flick dir2 e2 t2"
        "t2 < 5" "t2 = t + u \<and> dir2 = dir \<or> t2 = t + u + 1"
proof -
  have "(fst (flick_round cfg cap k v f d e t) = Done 0 (Some (v, f)) \<and> 0 < f \<and> f < flick
           \<and> flick_step f = 1 \<and> 1 \<le> t + u)
      \<or> (fst (flick_round cfg cap k v f d e t) = Done 0 (Some (w, flick)) \<and> 0 < flick \<and> flick < fc_min_ok cfg)
      \<or> (fst (flick_round cfg cap k v f d e t) = Done 0 (Some (if f < flick then (v, f) else (w, flick)))
           \<and> 0 < flick \<and> flick < fc_max_ok cfg)
      \<or> (\<exists>r. fst (flick_round cfg cap k v f d e t) = Done r None)
      \<or> (\<exists>dir2 e2 t2. fst (flick_round cfg cap k v f d e t) = Again w flick dir2 e2 t2 \<and> t2 < 5
           \<and> (t2 = t + u \<and> dir2 = dir \<or> t2 = t + u + 1))"
    by (simp add: flick_round_def assms Let_def s_max_change_direct_cnt_def)
  then show thesis using that by blast
qed

lemma flick_round_again:
  assumes "(Again v' f' d' e' t', acts) = flick_round cfg cap k v f d e t"
  shows "t < t' \<and> t' < 5 \<or> t' = t \<and> t' < 5 \<and> d' = d \<and> flick_dist cfg v' d' < flick_dist cfg v d
    \<and> flick_dist cfg v d \<le> nat (fc_max cfg - fc_min cfg)"
proof -
  obtain w dir u where n: "next_vcom (flick_step f) (flick_invalid f) (fc_min cfg) (fc_max cfg) v d = (w, dir, u)"
    by (cases "next_vcom (flick_step f) (flick_invalid f) (fc_min cfg) (fc_max cfg) v d")
  obtain ret fl test where z: "z_flick_test cap k (fc_mipi cfg) (fc_probe cfg) (fc_delay cfg) w = (ret, fl, test)"
    by (cases "z_flick_test cap k (fc_mipi cfg) (fc_probe cfg) (fc_delay cfg) w")
  from assms have a: "fst (flick_round cfg cap k v f d e t) = Again v' f' d' e' t'" by (metis fst_conv)
  from n z show ?thesis
  proof (cases rule: flick_round_cases [where e = e and t = t])
    case (again dir2 e2 t2)
    with a next_vcom_progress [OF n flick_step_pos(1)] show ?thesis by auto
  qed (use a in auto)
qed

function z_auto_flick_2 ::
  "flick_cfg \<Rightarrow> probe \<Rightarrow> nat \<Rightarrow> int \<Rightarrow> int \<Rightarrow> int \<Rightarrow> int \<Rightarrow> int
     \<Rightarrow> (int \<times> (int \<times> int) option) \<times> flick_act list" where
  "z_auto_flick_2 cfg cap k last_vcom last_flick dir errs turns =
     (case flick_round cfg cap k last_vcom last_flick dir errs turns of
        (Done ret found, acts) \<Rightarrow> ((ret, found), acts)
      | (Again v f d e t, acts) \<Rightarrow>
          (case z_auto_flick_2 cfg cap (k + 1) v f d e t of (res, rest) \<Rightarrow> (res, acts @ rest)))"
  by pat_completeness auto
termination
  by (relation "measures [\<lambda>(cfg, cap, k, v, f, d, e, t). nat (5 - t),
      \<lambda>(cfg, cap, k, v, f, d, e, t). flick_dist cfg v d]")
    (auto dest!: flick_round_again)

declare z_auto_flick_2.simps [simp del]


text \<open>The voltages written, in order.\<close>

definition written :: "flick_act list \<Rightarrow> int list" where
  "written acts = concat (map (\<lambda>a. case a of WriteVcom c v \<Rightarrow> [v] | _ \<Rightarrow> []) acts)"

definition measured :: "probe \<Rightarrow> nat \<Rightarrow> int \<Rightarrow> int" where
  "measured cap k v = (if fst (cap k v) = PROBE_STATU_OK then snd (cap k v) else INVALID_FLICK_VALUE)"

lemma written_append [simp]: "written (xs @ ys) = written xs @ written ys"
  by (simp add: written_def)

lemma z_flick_test_value: "fst (snd (z_flick_test cap k c p dl v)) = measured cap k v"
  by (simp add: z_flick_test_def measured_def Let_def split: prod.split)

lemma written_test: "written (snd (snd (z_flick_test cap k c p dl v))) = [v]"
  by (simp add: z_flick_test_def written_def Let_def split: prod.split)

lemma written_flick_round:
  assumes "next_vcom (flick_step f) (flick_invalid f) (fc_min cfg) (fc_max cfg) v d = (w, dir, u)"
  shows "written (snd (flick_round cfg cap k v f d e t)) = [w]"
proof -
  obtain ret fl test where z: "z_flick_test cap k (fc_mipi cfg) (fc_probe cfg) (fc_delay cfg) w = (ret, fl, test)"
    by (cases "z_flick_test cap k (fc_mipi cfg) (fc_probe cfg) (fc_delay cfg) w")
  have t: "written test = [w]" using written_test [of cap k "fc_mipi cfg" "fc_probe cfg" "fc_delay cfg" w] z by simp
  have "written (if fc_notify cfg then flick_notify_pc (fc_mipi cfg) w fl else []) = []"
    by (simp add: flick_notify_pc_def written_def)
  moreover have "written [ShowLcd (fc_mipi cfg) w fl] = []" by (simp add: written_def)
  moreover have "snd (flick_round cfg cap k v f d e t)
      = test @ (if fc_notify cfg then flick_notify_pc (fc_mipi cfg) w fl else []) @ [ShowLcd (fc_mipi cfg) w fl]"
    by (simp add: flick_round_def assms z Let_def)
  ultimately show ?thesis using t by simp
qed

text \<open>What a search does, step by step: the next voltage and measurement, then the end or the
  rest of the search.\<close>

lemma search_step:
  obtains (ended) w dir u r where
      "next_vcom (flick_step f) (flick_invalid f) (fc_min cfg) (fc_max cfg) v d = (w, dir, u)"
      "fst (flick_round cfg cap k v f d e t) = Done (fst r) (snd r)"
      "fst (z_auto_flick_2 cfg cap k v f d e t) = r"
      "written (snd (z_auto_flick_2 cfg cap k v f d e t)) = [w]"
    | (further) w dir u d' e' t' where
      "next_vcom (flick_step f) (flick_invalid f) (fc_min cfg) (fc_max cfg) v d = (w, dir, u)"
      "fst (flick_round cfg cap k v f d e t) = Again w (measured cap k w) d' e' t'"
      "t' < 5" "t' = t + u \<and> d' = dir \<or> t' = t + u + 1"
      "fst (z_auto_flick_2 cfg cap k v f d e t) = fst (z_auto_flick_2 cfg cap (k + 1) w (measured cap k w) d' e' t')"
      "written (snd (z_auto_flick_2 cfg cap k v f d e t))
        = w # written (snd (z_auto_flick_2 cfg cap (k + 1) w (measured cap k w) d' e' t'))"
proof -
  obtain w dir u where n: "next_vcom (flick_step f) (flick_invalid f) (fc_min cfg) (fc_max cfg) v d = (w, dir, u)"
    by (cases "next_vcom (flick_step f) (flick_invalid f) (fc_min cfg) (fc_max cfg) v d")
  obtain ret fl test where z: "z_flick_test cap k (fc_mipi cfg) (fc_probe cfg) (fc_delay cfg) w = (ret, fl, test)"
    by (cases "z_flick_test cap k (fc_mipi cfg) (fc_probe cfg) (fc_delay cfg) w")
  have fl: "fl = measured cap k w" using z_flick_test_value [of cap k] z by (metis fst_conv snd_conv)
  obtain nx acts where r: "flick_round cfg cap k v f d e t = (nx, acts)"
    by (cases "flick_round cfg cap k v f d e t")
  have acts: "written acts = [w]" using written_flick_round [OF n, of cap k e t] r by simp
  show thesis
  proof (cases nx)
    case (Done q found)
    then show ?thesis using n r acts
      by (intro ended [of w dir u "(q, found)"]) (simp_all add: z_auto_flick_2.simps [of cfg cap k v f])
  next
    case (Again v' f' d' e' t')
    then have a: "v' = w" "f' = fl" "t' < 5" "t' = t + u \<and> d' = dir \<or> t' = t + u + 1"
      using r by (cases rule: flick_round_cases [OF n z, of e t]; simp)+
    with Again r have
      "z_auto_flick_2 cfg cap k v f d e t
        = (case z_auto_flick_2 cfg cap (k + 1) w fl d' e' t' of (res, rest) \<Rightarrow> (res, acts @ rest))"
      by (simp add: z_auto_flick_2.simps [of cfg cap k v f])
    then show ?thesis using n r acts a Again fl by (intro further [of w dir u d' e' t']) (simp_all split: prod.splits)
  qed
qed


lemma next_vcom_range:
  assumes "next_vcom s incl lo hi v d = (w, dir, u)" "lo + 10 \<le> hi" "1 \<le> s" "s \<le> 10"
  shows "lo \<le> w \<and> w \<le> hi \<and> (u = 0 \<or> u = 1)"
  using assms by (auto simp: next_vcom_def split: if_splits)

lemma search_bound_arith:
  fixes a b c d w :: nat and t t' :: int
  assumes "t < t'" "t' < 5" "0 \<le> t" "n \<le> nat (5 - t') * (w + 1) + d + 1" "d \<le> w"
  shows "Suc n \<le> nat (5 - t) * (w + 1) + 1"
proof -
  have "nat (5 - t') + 1 \<le> nat (5 - t)" using assms(1-3) by linarith
  then have "(nat (5 - t') + 1) * (w + 1) \<le> nat (5 - t) * (w + 1)" by (rule mult_le_mono1)
  then show ?thesis using assms(4,5) by (simp add: algebra_simps)
qed

lemma search_bound:
  assumes "fc_min cfg + 10 \<le> fc_max cfg" "0 \<le> t"
  shows "set (written (snd (z_auto_flick_2 cfg cap k v f d e t))) \<subseteq> {fc_min cfg .. fc_max cfg}
    \<and> length (written (snd (z_auto_flick_2 cfg cap k v f d e t)))
        \<le> nat (5 - t) * (nat (fc_max cfg - fc_min cfg) + 1)
            + min (flick_dist cfg v d) (nat (fc_max cfg - fc_min cfg)) + 1"
  using assms
proof (induction cfg cap k v f d e t rule: z_auto_flick_2.induct)
  case (1 cfg cap k v f d e t)
  note r = next_vcom_range [OF _ "1.prems"(1) flick_step_pos]
  show ?case
  proof (cases rule: search_step [of f cfg v d cap k e t])
    case ended
    then show ?thesis using r by auto
  next
    case (further w dir u d' e' t')
    let ?W = "nat (fc_max cfg - fc_min cfg)"
    let ?z = "z_auto_flick_2 cfg cap (k + 1) w (measured cap k w) d' e' t'"
    have w: "fc_min cfg \<le> w" "w \<le> fc_max cfg" and u: "u = 0 \<or> u = 1" using r [OF further(1)] by auto
    obtain acts where fr: "flick_round cfg cap k v f d e t = (Again w (measured cap k w) d' e' t', acts)"
      using further(2) by (cases "flick_round cfg cap k v f d e t") auto
    have prog: "t < t' \<and> t' < 5 \<or> t' = t \<and> t' < 5 \<and> d' = d \<and> flick_dist cfg w d' < flick_dist cfg v d
        \<and> flick_dist cfg v d \<le> ?W" using flick_round_again [OF fr [symmetric]] .
    have t': "0 \<le> t'" using prog "1.prems"(2) by auto
    have ih: "set (written (snd ?z)) \<subseteq> {fc_min cfg .. fc_max cfg}"
      "length (written (snd ?z)) \<le> nat (5 - t') * (?W + 1) + min (flick_dist cfg w d') ?W + 1"
      using "1.IH" [OF fr [symmetric] refl "1.prems"(1) t'] by simp_all
    have "Suc (length (written (snd ?z))) \<le> nat (5 - t) * (?W + 1) + min (flick_dist cfg v d) ?W + 1"
    proof (cases "t < t'")
      case True
      from search_bound_arith [OF True further(3) "1.prems"(2) ih(2) min.cobounded2]
      show ?thesis by linarith
    next
      case False
      then have "t' = t" "flick_dist cfg w d' < flick_dist cfg v d" "flick_dist cfg v d \<le> ?W" using prog by auto
      then show ?thesis using ih(2) by simp
    qed
    then show ?thesis using ih(1) w further(6) by simp
  qed
qed

section \<open>Properties of the search\<close>

text \<open>
  C16: The search for the voltage with the least flicker ends whatever the probe measures: it
  writes only voltages of the configured range, when that spans at least ten steps, and at
  most six times the size of the range.
\<close>

theorem flick_search_stays_in_range:
  assumes "fc_min cfg + 10 \<le> fc_max cfg"
  shows "set (written (snd (z_auto_flick_2 cfg cap k v f d 0 0))) \<subseteq> {fc_min cfg .. fc_max cfg}
    \<and> length (written (snd (z_auto_flick_2 cfg cap k v f d 0 0))) \<le> 6 * (nat (fc_max cfg - fc_min cfg) + 1)"
proof -
  let ?W = "nat (fc_max cfg - fc_min cfg)"
  have "nat (5 - 0) * (?W + 1) + min (flick_dist cfg v d) ?W + 1 \<le> 6 * (?W + 1)" by simp
  with search_bound [OF assms, of 0 cap k v f d 0] show ?thesis by linarith
qed

text \<open>A panel whose flicker grows with the distance from voltage 7, in the range 0 to 20.\<close>

definition demo_cfg :: flick_cfg where
  "demo_cfg = \<lparr>fc_mipi = 1, fc_probe = 1, fc_delay = 20, fc_min = 0, fc_max = 20, fc_notify = True,
     fc_min_ok = 0, fc_max_ok = 100\<rparr>"

definition demo_curve :: "int \<Rightarrow> int" where "demo_curve u = 10 * \<bar>u - 7\<bar> + 5"

definition demo_cap :: probe where "demo_cap k u = (PROBE_STATU_OK, demo_curve u)"

lemma flick_search_stays_in_range_witness:
  "set (written (snd (z_auto_flick_2 demo_cfg demo_cap 0 3 45 0 0 0))) \<subseteq> {0 .. 20}"
  using flick_search_stays_in_range [of demo_cfg demo_cap 0 3 45 0] by (simp add: demo_cfg_def)

text \<open>
  A voltage the search reports is the one it started from or one that it wrote, together with
  the flicker measured for it, and that flicker is below one of the limits or was reached with
  the smallest step.
\<close>

theorem found_voltage_was_measured:
  assumes "fst (z_auto_flick_2 cfg cap k v f d e t) = (ret, Some (fv, ff))"
  shows "ret = 0 \<and> ((fv, ff) = (v, f) \<or>
      (\<exists>i < length (written (snd (z_auto_flick_2 cfg cap k v f d e t))).
         fv = written (snd (z_auto_flick_2 cfg cap k v f d e t)) ! i \<and> ff = measured cap (k + i) fv))
    \<and> (0 < ff \<and> ff < fc_min_ok cfg \<or> ff < fc_max_ok cfg \<or> 0 < ff \<and> ff \<le> 2000)"
  using assms
proof (induction cfg cap k v f d e t rule: z_auto_flick_2.induct)
  case (1 cfg cap k v f d e t)
  show ?case
  proof (cases rule: search_step [of f cfg v d cap k e t])
    case (ended w dir u r)
    obtain rt fl test where z: "z_flick_test cap k (fc_mipi cfg) (fc_probe cfg) (fc_delay cfg) w = (rt, fl, test)"
      by (cases "z_flick_test cap k (fc_mipi cfg) (fc_probe cfg) (fc_delay cfg) w")
    have fl: "fl = measured cap k w" using z_flick_test_value [of cap k] z by (metis fst_conv snd_conv)
    have r: "r = (ret, Some (fv, ff))" using ended(3) "1.prems" by simp
    have "flick_step f = 1 \<Longrightarrow> f \<le> 2000" by (simp add: flick_step_def split: if_splits)
    then show ?thesis using ended(2) unfolding ended(4) r fl
      by (cases rule: flick_round_cases [OF ended(1) z, of e t]) (auto simp: fl split: if_splits)
  next
    case (further w dir u d' e' t')
    let ?l = "written (snd (z_auto_flick_2 cfg cap (k + 1) w (measured cap k w) d' e' t'))"
    obtain acts where fr: "flick_round cfg cap k v f d e t = (Again w (measured cap k w) d' e' t', acts)"
      using further(2) by (cases "flick_round cfg cap k v f d e t") auto
    have ih: "ret = 0" "0 < ff \<and> ff < fc_min_ok cfg \<or> ff < fc_max_ok cfg \<or> 0 < ff \<and> ff \<le> 2000"
      "(fv, ff) = (w, measured cap k w) \<or> (\<exists>i < length ?l. fv = ?l ! i \<and> ff = measured cap (k + 1 + i) fv)"
      using "1.IH" [OF fr [symmetric] refl] "1.prems" unfolding further(5) by auto
    from ih(3) have "\<exists>i < length (w # ?l). fv = (w # ?l) ! i \<and> ff = measured cap (k + i) fv"
    proof
      assume "(fv, ff) = (w, measured cap k w)"
      then show ?thesis by (intro exI [of _ 0]) simp
    next
      assume "\<exists>i < length ?l. fv = ?l ! i \<and> ff = measured cap (k + 1 + i) fv"
      then obtain i where "i < length ?l" "fv = ?l ! i" "ff = measured cap (k + 1 + i) fv" by blast
      then show ?thesis by (intro exI [of _ "Suc i"]) (simp add: add.commute add.left_commute)
    qed
    then show ?thesis using ih(1,2) unfolding further(6) by blast
  qed
qed


text \<open>A curve without noise that falls to the voltage \<open>m\<close> and rises behind it, with values small
  enough for single steps everywhere.\<close>

definition fine_curve :: "flick_cfg \<Rightarrow> probe \<Rightarrow> (int \<Rightarrow> int) \<Rightarrow> int \<Rightarrow> bool" where
  "fine_curve cfg cap g m \<longleftrightarrow>
     (\<forall>k u. fc_min cfg \<le> u \<and> u \<le> fc_max cfg \<longrightarrow> cap k u = (PROBE_STATU_OK, g u))
     \<and> (\<forall>u. fc_min cfg \<le> u \<and> u \<le> fc_max cfg \<longrightarrow> 0 < g u \<and> g u \<le> 2000 \<and> fc_min_ok cfg \<le> g u)
     \<and> (\<forall>u. fc_min cfg \<le> u \<and> u < m \<longrightarrow> g (u + 1) < g u)
     \<and> (\<forall>u. m < u \<and> u \<le> fc_max cfg \<longrightarrow> g (u - 1) < g u)
     \<and> fc_min cfg + 1 < m \<and> m + 1 < fc_max cfg"

lemma fine_step:
  assumes "fine_curve cfg cap g m" "fc_min cfg \<le> v" "v \<le> fc_max cfg"
    and "next_vcom 1 False (fc_min cfg) (fc_max cfg) v d = (w, dir, u)" "fc_min cfg \<le> w" "w \<le> fc_max cfg"
    and "e < 10"
  shows "fst (flick_round cfg cap k v (g v) d e t) =
    (if g v < g w \<and> 1 \<le> t + u then Done 0 (Some (v, g v))
     else if g w < fc_max_ok cfg \<and> 5 \<le> (if g v < g w then t + u + 1 else t + u)
     then Done 0 (Some (if g v < g w then (v, g v) else (w, g w)))
     else if 5 \<le> (if g v < g w then t + u + 1 else t + u) then Done (-1) None
     else Again w (g w) (if g v < g w then (if dir = 0 then -1 else - dir) else dir) e
       (if g v < g w then t + u + 1 else t + u))"
proof -
  have v: "0 < g v" "g v \<le> 2000" and w: "0 < g w" "g w \<le> 2000" "fc_min_ok cfg \<le> g w"
    and cap: "cap k w = (PROBE_STATU_OK, g w)"
    using assms by (auto simp: fine_curve_def)
  have st: "flick_step (g v) = 1" "\<not> flick_invalid (g v)"
    using v by (simp_all add: flick_step_def flick_invalid_def INVALID_FLICK_VALUE_def)
  obtain rt fl test where z: "z_flick_test cap k (fc_mipi cfg) (fc_probe cfg) (fc_delay cfg) w = (rt, fl, test)"
    by (cases "z_flick_test cap k (fc_mipi cfg) (fc_probe cfg) (fc_delay cfg) w")
  have fl: "fl = g w" using z_flick_test_value [of cap k] z cap by (metis fst_conv snd_conv measured_def)
  show ?thesis
    using v w assms(4,7)
    by (simp add: flick_round_def st z fl Let_def s_max_error_cnt_def s_max_change_direct_cnt_def)
qed

lemma search_goes_on:
  assumes "fst (flick_round cfg cap k v f d e t) = Again w f' d' e' t'"
  shows "fst (z_auto_flick_2 cfg cap k v f d e t) = fst (z_auto_flick_2 cfg cap (k + 1) w f' d' e' t')"
  using assms by (cases "flick_round cfg cap k v f d e t")
    (simp add: z_auto_flick_2.simps [of cfg cap k v f] split: prod.split)

lemma search_ends:
  assumes "fst (flick_round cfg cap k v f d e t) = Done r found"
  shows "fst (z_auto_flick_2 cfg cap k v f d e t) = (r, found)"
  using assms by (cases "flick_round cfg cap k v f d e t") (simp add: z_auto_flick_2.simps [of cfg cap k v f])

lemma fine_left:
  assumes "fine_curve cfg cap g m" "m \<le> v" "v < fc_max cfg" "e < 10"
  shows "fst (z_auto_flick_2 cfg cap k v (g v) (-1) e 1) = (0, Some (m, g m))"
  using assms(2,3)
proof (induction "nat (v - m)" arbitrary: v k)
  case 0
  have m: "fc_min cfg + 1 < m" "m + 1 < fc_max cfg" using assms(1) by (auto simp: fine_curve_def)
  have v: "v = m" using 0 by linarith
  have up: "g m < g (m - 1)" using assms(1) m by (auto simp: fine_curve_def dest: spec [of _ "m - 1"])
  have "next_vcom 1 False (fc_min cfg) (fc_max cfg) v (-1) = (m - 1, -1, 0)" using v m by (simp add: next_vcom_def)
  from fine_step [OF assms(1) _ _ this, of e k 1] show ?case using v m up assms(4) by (intro search_ends) simp
next
  case (Suc n)
  have m: "fc_min cfg + 1 < m" using assms(1) by (auto simp: fine_curve_def)
  have v: "m < v" using Suc by linarith
  have down: "g (v - 1) < g v" using assms(1) v Suc.prems by (auto simp: fine_curve_def)
  have "next_vcom 1 False (fc_min cfg) (fc_max cfg) v (-1) = (v - 1, -1, 0)"
    using v m Suc.prems by (simp add: next_vcom_def)
  from fine_step [OF assms(1) _ _ this, of e k 1]
  have "fst (flick_round cfg cap k v (g v) (-1) e 1) = Again (v - 1) (g (v - 1)) (-1) e 1"
    using v m Suc.prems down assms(4) by simp
  from search_goes_on [OF this] Suc.hyps(1) [of "v - 1" "k + 1"] Suc.hyps(2) v Suc.prems
  show ?case by simp
qed

lemma fine_turn:
  assumes "fine_curve cfg cap g m" "m \<le> v" "v < fc_max cfg" "e < 10"
  shows "fst (z_auto_flick_2 cfg cap k v (g v) 0 e 0) = (0, Some (m, g m))"
proof (cases "v < fc_max cfg - 1")
  case True
  have m: "fc_min cfg + 1 < m" using assms(1) by (auto simp: fine_curve_def)
  have "\<forall>u. m < u \<and> u \<le> fc_max cfg \<longrightarrow> g (u - 1) < g u" using assms(1) by (simp add: fine_curve_def)
  from this [rule_format, of "v + 1"] have up: "g v < g (v + 1)" using assms(2) True by simp
  have "next_vcom 1 False (fc_min cfg) (fc_max cfg) v 0 = (v + 1, 0, 0)"
    using True m assms(2) by (simp add: next_vcom_def)
  from fine_step [OF assms(1) _ _ this, of e k 0]
  have "fst (flick_round cfg cap k v (g v) 0 e 0) = Again (v + 1) (g (v + 1)) (-1) e 1"
    using m True assms(2,4) up by simp
  from search_goes_on [OF this] fine_left [OF assms(1) _ _ assms(4), of "v + 1" "k + 1"] True assms(2)
  show ?thesis by simp
next
  case False
  then have v: "v = fc_max cfg - 1" using assms(3) by simp
  have m: "fc_min cfg + 1 < m" using assms(1) by (auto simp: fine_curve_def)
  have "next_vcom 1 False (fc_min cfg) (fc_max cfg) v 0 = (v, -1, 1)"
    using v by (simp add: next_vcom_def change_direct_def)
  from fine_step [OF assms(1) _ _ this, of e k 0]
  have "fst (flick_round cfg cap k v (g v) 0 e 0) = Again v (g v) (-1) e 1" using m assms by simp
  from search_goes_on [OF this] fine_left [OF assms, of "k + 1"] show ?thesis by simp
qed

lemma fine_right:
  assumes "fine_curve cfg cap g m" "fc_min cfg < v" "v < fc_max cfg" "e < 10"
  shows "fst (z_auto_flick_2 cfg cap k v (g v) 0 e 0) = (0, Some (m, g m))"
  using assms(2,3)
proof (induction "nat (m - v)" arbitrary: v k)
  case 0
  then show ?case using fine_turn [OF assms(1) _ _ assms(4)] by simp
next
  case (Suc n)
  have m: "m + 1 < fc_max cfg" using assms(1) by (auto simp: fine_curve_def)
  have v: "v < m" using Suc by linarith
  have down: "g (v + 1) < g v" using assms(1) v Suc.prems by (auto simp: fine_curve_def)
  have "next_vcom 1 False (fc_min cfg) (fc_max cfg) v 0 = (v + 1, 0, 0)"
    using v m Suc.prems by (simp add: next_vcom_def)
  from fine_step [OF assms(1) _ _ this, of e k 0]
  have "fst (flick_round cfg cap k v (g v) 0 e 0) = Again (v + 1) (g (v + 1)) 0 e 0"
    using v m Suc.prems down assms(4) by simp
  from search_goes_on [OF this] Suc.hyps(1) [of "v + 1" "k + 1"] Suc.hyps(2) v m Suc.prems
  show ?case by simp
qed

text \<open>
  C17: On a flicker curve that falls up to one voltage and rises after it, that the probe
  reads without error, with values from 1 to 2000 (where the search goes in steps of 1) and
  never below the value at which the search stops at once (fc_min_ok), and whose minimum lies
  at least two steps away from both ends of the range, the search started at an inner voltage
  reports exactly the voltage of the minimum.
\<close>

theorem fine_search_finds_minimum:
  assumes "fine_curve cfg cap g m" "fc_min cfg < v" "v < fc_max cfg"
  shows "fst (z_auto_flick_2 cfg cap k v (g v) 0 0 0) = (0, Some (m, g m))"
  using fine_right [OF assms] by simp


lemma demo_fine: "fine_curve demo_cfg demo_cap demo_curve 7"
  by (auto simp: fine_curve_def demo_cfg_def demo_cap_def demo_curve_def abs_if)

lemma fine_search_finds_minimum_witness:
  "fst (z_auto_flick_2 demo_cfg demo_cap 0 3 (demo_curve 3) 0 0 0) = (0, Some (7, 5))"
  using fine_search_finds_minimum [OF demo_fine, of 3 0] by (simp add: demo_cfg_def demo_curve_def)

lemma demo_found: "fst (z_auto_flick_2 demo_cfg demo_cap 0 3 (demo_curve 3) 0 0 0) = (0, Some (7, 5))"
  using fine_right [OF demo_fine, of 3 0 0] by (simp add: demo_cfg_def demo_curve_def)

lemma found_voltage_was_measured_witness:
  "\<exists>i < length (written (snd (z_auto_flick_2 demo_cfg demo_cap 0 3 (demo_curve 3) 0 0 0))).
     7 = written (snd (z_auto_flick_2 demo_cfg demo_cap 0 3 (demo_curve 3) 0 0 0)) ! i
     \<and> 5 = measured demo_cap (0 + i) 7"
  using found_voltage_was_measured [OF demo_found] by simp

section \<open>The results and the task\<close>

text \<open>\<open>s_find_vcom\<close> and \<open>s_find_flick\<close>, four entries each; \<open>None\<close> is an index outside them.\<close>

definition MAX_MIPI_CHANNEL_NUMS :: nat where "MAX_MIPI_CHANNEL_NUMS = 4"

record flick_store =
  s_find_vcom :: "int list"
  s_find_flick :: "int list"

definition flick_store_init :: flick_store where
  "flick_store_init = \<lparr>s_find_vcom = replicate MAX_MIPI_CHANNEL_NUMS 0,
     s_find_flick = replicate MAX_MIPI_CHANNEL_NUMS 0\<rparr>"

definition mipi_channel_get_vcom_and_flick :: "flick_store \<Rightarrow> int \<Rightarrow> (int \<times> (int \<times> int) option) option" where
  "mipi_channel_get_vcom_and_flick st mipi_channel =
     (if mipi_channel > 0 \<and> mipi_channel \<le> int MAX_MIPI_CHANNEL_NUMS then
        if nat mipi_channel < length (s_find_vcom st) \<and> nat mipi_channel < length (s_find_flick st)
        then Some (0, Some (s_find_vcom st ! nat mipi_channel, s_find_flick st ! nat mipi_channel))
        else None
      else Some (-1, None))"

definition mipi_channel_set_vcom_and_flick :: "flick_store \<Rightarrow> int \<Rightarrow> int \<Rightarrow> int \<Rightarrow> (flick_store \<times> int) option" where
  "mipi_channel_set_vcom_and_flick st mipi_channel vcom flick =
     (if mipi_channel > 0 \<and> mipi_channel \<le> int MAX_MIPI_CHANNEL_NUMS then
        if nat mipi_channel < length (s_find_vcom st) \<and> nat mipi_channel < length (s_find_flick st)
        then Some (st\<lparr>s_find_vcom := (s_find_vcom st)[nat mipi_channel := vcom],
                      s_find_flick := (s_find_flick st)[nat mipi_channel := flick]\<rparr>, 0)
        else None
      else Some (st, -1))"

text \<open>The panel's limits: \<open>vcom_info_t\<close>, with the two \<open>float\<close> fields in the hundredths the code
  computes from them.\<close>

record vcom_info =
  vi_minvalue :: int
  vi_maxvalue :: int
  vi_initVcom :: int
  vi_readDelay :: int
  vi_pwrOnDelay :: int
  vi_ok_flick :: int
  vi_max_valid_flick :: int

text \<open>One turn of the loop of \<open>channelFlickTask\<close>, from the semaphore that starts it to the one that
  tells the end; captures are numbered from 0.\<close>

definition channelFlickTask :: "vcom_info \<Rightarrow> nat \<Rightarrow> probe \<Rightarrow> flick_store \<Rightarrow> (flick_store \<times> flick_act list) option" where
  "channelFlickTask vi index cap st =
    (let (channel, lcd_channel) = (if index = 0 then (m_channel_1, 1) else (m_channel_2, 2));
         vcom = vi_initVcom vi;
         (_, _, a0) = z_flick_test cap 0 channel lcd_channel (vi_pwrOnDelay vi) vcom;
         flick = snd (cap 1 vcom);
         cfg = \<lparr>fc_mipi = channel, fc_probe = lcd_channel, fc_delay = vi_readDelay vi, fc_min = vi_minvalue vi,
                fc_max = vi_maxvalue vi, fc_notify = True, fc_min_ok = vi_ok_flick vi,
                fc_max_ok = vi_max_valid_flick vi\<rparr>;
         ((flick_erro, found), a) = z_auto_flick_2 cfg cap 2 vcom flick 0 0 0;
         (find_vcom, find_flick) = (case found of None \<Rightarrow> (0, 0) | Some p \<Rightarrow> p)
     in case mipi_channel_set_vcom_and_flick st channel find_vcom find_flick of
          None \<Rightarrow> None
        | Some (st', _) \<Rightarrow>
            Some (st', [StopFlick lcd_channel, StartFlick lcd_channel] @ a0 @ [Capture lcd_channel] @ a
              @ (if flick_erro = 0 then [WriteVcom channel find_vcom] else []) @ [StopFlick lcd_channel]))"

text \<open>\<open>flick_manual\<close>: up to three captures, until one repeats the one before. \<open>lcd_status\<close> is
  \<open>lcd_getStatus\<close> of the probe; the result is the flicker shown.\<close>

fun settle :: "probe \<Rightarrow> nat \<Rightarrow> nat \<Rightarrow> int \<Rightarrow> int \<Rightarrow> int \<times> flick_act list" where
  "settle cap 0 k vcom last_flick = (last_flick, [])"
| "settle cap (Suc i) k vcom last_flick =
     (let retVal = snd (cap k vcom)
      in if last_flick = retVal then (last_flick, [Capture 1])
         else case settle cap i (k + 1) vcom retVal of (f, a) \<Rightarrow> (f, [Capture 1, DelayMs 200] @ a))"

definition flick_manual :: "probe \<Rightarrow> bool \<Rightarrow> int \<Rightarrow> int \<times> flick_act list" where
  "flick_manual cap lcd_status vcomIndex =
     (case (if lcd_status
            then (case settle cap 3 0 vcomIndex 0 of (f, a) \<Rightarrow>
                    (f, [StopFlick 1, DelayMs 200, StartFlick 1] @ a @ [StopFlick 1]))
            else (0, []))
      of (last_flick, a) \<Rightarrow>
        (last_flick, [WriteVcom m_channel_1 vcomIndex] @ a @ [ShowLcd m_channel_1 vcomIndex last_flick]))"

text \<open>A search in which no measurement succeeds. In ten calls the direction turns at most once
  when the range is wide enough.\<close>

lemma blind_search:
  assumes "\<And>i u. fst (cap i u) \<noteq> PROBE_STATU_OK" "fc_min cfg + 130 \<le> fc_max cfg"
    "fc_min_ok cfg \<le> INVALID_FLICK_VALUE" "fc_max_ok cfg \<le> INVALID_FLICK_VALUE"
    "0 \<le> e" "e < 10"
    "t = 0 \<and> d = 0 \<or> t = 1 \<and> d = -1 \<and> fc_max cfg - 10 - 10 * e \<le> v \<and> v \<le> fc_max cfg"
  shows "fst (z_auto_flick_2 cfg cap k v INVALID_FLICK_VALUE d e t) = (0, None)"
  using assms(5-)
proof (induction "nat (10 - e)" arbitrary: k v d e t)
  case 0
  then show ?case by simp
next
  case (Suc n)
  let ?f = INVALID_FLICK_VALUE
  have st: "flick_step ?f = 10" "flick_invalid ?f" "0 < ?f"
    by (simp_all add: flick_step_def flick_invalid_def INVALID_FLICK_VALUE_def)
  obtain w dir u where n: "next_vcom 10 True (fc_min cfg) (fc_max cfg) v d = (w, dir, u)"
    by (cases "next_vcom 10 True (fc_min cfg) (fc_max cfg) v d")
  have after: "t + u = 0 \<and> dir = 0 \<or> t + u = 1 \<and> dir = -1 \<and> fc_max cfg - 10 - 10 * (e + 1) \<le> w \<and> w \<le> fc_max cfg"
    using n Suc.prems assms(2) by (auto simp: next_vcom_def change_direct_def split: if_splits)
  obtain rt fl test where z: "z_flick_test cap k (fc_mipi cfg) (fc_probe cfg) (fc_delay cfg) w = (rt, fl, test)"
    by (cases "z_flick_test cap k (fc_mipi cfg) (fc_probe cfg) (fc_delay cfg) w")
  have fl: "fl = ?f" using z_flick_test_value [of cap k] z assms(1)
    by (metis fst_conv snd_conv measured_def)
  have "t + u < 5" using after by auto
  then have round: "fst (flick_round cfg cap k v ?f d e t) = (if 9 \<le> e then Done 0 None else Again w ?f dir (e + 1) (t + u))"
    using assms(3,4)
    by (simp add: flick_round_def st n z fl Let_def s_max_error_cnt_def s_max_change_direct_cnt_def)
  show ?case
  proof (cases "9 \<le> e")
    case True
    then show ?thesis using round by (intro search_ends) simp
  next
    case False
    then have "fst (z_auto_flick_2 cfg cap (k + 1) w ?f dir (e + 1) (t + u)) = (0, None)"
      using Suc.hyps(1) [of "e + 1" "t + u" dir w "k + 1"] Suc.hyps(2) Suc.prems after by simp
    then show ?thesis using search_goes_on [of cfg cap k v ?f d e t w ?f dir "e + 1" "t + u"] round False by simp
  qed
qed

text \<open>
  When the probe fails at every measurement, the search gives up with a success code and
  nothing found, and the task of the channel writes the voltage 0 to the panel and stores it
  as the result.
\<close>

theorem blind_search_sets_voltage_zero:
  assumes "\<And>i u. fst (cap i u) \<noteq> PROBE_STATU_OK \<and> snd (cap i u) = INVALID_FLICK_VALUE"
    "vi_minvalue vi + 130 \<le> vi_maxvalue vi" "vi_ok_flick vi \<le> INVALID_FLICK_VALUE"
    "vi_max_valid_flick vi \<le> INVALID_FLICK_VALUE" "length (s_find_vcom st) = 4" "length (s_find_flick st) = 4"
  shows "\<exists>acts. channelFlickTask vi 0 cap st
      = Some (st\<lparr>s_find_vcom := (s_find_vcom st)[1 := 0], s_find_flick := (s_find_flick st)[1 := 0]\<rparr>,
          acts @ [WriteVcom 1 0, StopFlick 1])"
proof -
  let ?cfg = "\<lparr>fc_mipi = m_channel_1, fc_probe = 1, fc_delay = vi_readDelay vi, fc_min = vi_minvalue vi,
      fc_max = vi_maxvalue vi, fc_notify = True, fc_min_ok = vi_ok_flick vi, fc_max_ok = vi_max_valid_flick vi\<rparr>"
  have "fst (z_auto_flick_2 ?cfg cap 2 (vi_initVcom vi) INVALID_FLICK_VALUE 0 0 0) = (0, None)"
    by (rule blind_search) (use assms in auto)
  then obtain a where a: "z_auto_flick_2 ?cfg cap 2 (vi_initVcom vi) INVALID_FLICK_VALUE 0 0 0 = ((0, None), a)"
    by (metis prod.collapse)
  obtain r0 f0 a0 where z: "z_flick_test cap 0 m_channel_1 1 (vi_pwrOnDelay vi) (vi_initVcom vi) = (r0, f0, a0)"
    by (cases "z_flick_test cap 0 m_channel_1 1 (vi_pwrOnDelay vi) (vi_initVcom vi)")
  have s: "snd (cap 1 (vi_initVcom vi)) = INVALID_FLICK_VALUE" using assms(1) by blast
  have "mipi_channel_set_vcom_and_flick st m_channel_1 0 0
      = Some (st\<lparr>s_find_vcom := (s_find_vcom st)[1 := 0], s_find_flick := (s_find_flick st)[1 := 0]\<rparr>, 0)"
    using assms(5,6) by (simp add: mipi_channel_set_vcom_and_flick_def MAX_MIPI_CHANNEL_NUMS_def m_channel_1_def)
  then have "channelFlickTask vi 0 cap st
      = Some (st\<lparr>s_find_vcom := (s_find_vcom st)[1 := 0], s_find_flick := (s_find_flick st)[1 := 0]\<rparr>,
          ([StopFlick 1, StartFlick 1] @ a0 @ [Capture 1] @ a) @ [WriteVcom m_channel_1 0, StopFlick 1])"
    by (simp add: channelFlickTask_def Let_def z s a del: One_nat_def)
  then show ?thesis unfolding m_channel_1_def by blast
qed

text \<open>A panel with the voltages 20 to 200.\<close>

lemma blind_search_sets_voltage_zero_witness:
  "\<exists>st' acts. channelFlickTask \<lparr>vi_minvalue = 20, vi_maxvalue = 200, vi_initVcom = 90, vi_readDelay = 20,
      vi_pwrOnDelay = 200, vi_ok_flick = 400, vi_max_valid_flick = 1000\<rparr> 0
      (\<lambda>k u. (PROBE_STATU_OUT_RANGE, INVALID_FLICK_VALUE)) flick_store_init
    = Some (st', acts @ [WriteVcom 1 0, StopFlick 1])"
  using blind_search_sets_voltage_zero [of "\<lambda>k u. (PROBE_STATU_OUT_RANGE, INVALID_FLICK_VALUE)"
      "\<lparr>vi_minvalue = 20, vi_maxvalue = 200, vi_initVcom = 90, vi_readDelay = 20,
      vi_pwrOnDelay = 200, vi_ok_flick = 400, vi_max_valid_flick = 1000\<rparr>" flick_store_init]
  by (simp add: PROBE_STATU_OUT_RANGE_def PROBE_STATU_OK_def INVALID_FLICK_VALUE_def flick_store_init_def
      MAX_MIPI_CHANNEL_NUMS_def) blast

text \<open>
  The result of the second panel channel is stored one entry past the end of the tables; for
  the channels 1 to 3 what is stored is read back.
\<close>

theorem fourth_channel_is_out_of_bounds:
  assumes "length (s_find_vcom st) = 4" "length (s_find_flick st) = 4"
  shows "mipi_channel_set_vcom_and_flick st 4 vcom flick = None
    \<and> channelFlickTask vi 1 cap st = None
    \<and> (0 < c \<and> c < 4 \<longrightarrow> (\<exists>st'. mipi_channel_set_vcom_and_flick st c vcom flick = Some (st', 0)
         \<and> mipi_channel_get_vcom_and_flick st' c = Some (0, Some (vcom, flick))))"
proof (intro conjI impI)
  have none: "mipi_channel_set_vcom_and_flick st 4 v f = None" for v f
    using assms by (simp add: mipi_channel_set_vcom_and_flick_def MAX_MIPI_CHANNEL_NUMS_def)
  then show "mipi_channel_set_vcom_and_flick st 4 vcom flick = None" .
  show "channelFlickTask vi 1 cap st = None"
    unfolding channelFlickTask_def Let_def m_channel_2_def by (simp add: none split: prod.split)
  assume c: "0 < c \<and> c < 4"
  then have "nat c < 4" by linarith
  with c show "\<exists>st'. mipi_channel_set_vcom_and_flick st c vcom flick = Some (st', 0)
      \<and> mipi_channel_get_vcom_and_flick st' c = Some (0, Some (vcom, flick))"
    using assms by (simp add: mipi_channel_set_vcom_and_flick_def mipi_channel_get_vcom_and_flick_def
        MAX_MIPI_CHANNEL_NUMS_def)
qed

lemma fourth_channel_is_out_of_bounds_witness:
  "mipi_channel_set_vcom_and_flick flick_store_init 4 90 310 = None
   \<and> (\<exists>st'. mipi_channel_set_vcom_and_flick flick_store_init 1 90 310 = Some (st', 0)
         \<and> mipi_channel_get_vcom_and_flick st' 1 = Some (0, Some (90, 310)))"
  using fourth_channel_is_out_of_bounds [of flick_store_init 90 310 _ _ 1]
  by (simp add: flick_store_init_def MAX_MIPI_CHANNEL_NUMS_def)

end
