(* ===== verification/Ca310.thy ===== *)
theory Ca310
  imports Complex_Main
begin

text \<open>
  The colour analyser CA-310 on its serial line, \<open>hw/lcd/ca310.c\<close>: the table of probes, commands
  and replies, and the scanning of measurements. What the line delivers is an argument, the list
  of the results of \<open>select\<close> and \<open>read\<close>; the commands written are recorded. Strings are lists of
  characters, a buffer is a list of its size. \<open>None\<close> is an access outside a buffer or table, and
  \<open>FD_SET\<close> of a negative descriptor. Numbers are scanned as rationals; exponents, which the
  analyser does not send, are not scanned.
\<close>

section \<open>Scanning\<close>

datatype scan_item = Lit char | Space | D | F
datatype scan_val = DV int | FV rat

definition isspace :: "char \<Rightarrow> bool" where
  "isspace c \<longleftrightarrow> c \<in> {CHR '' '', CHR 0x09, CHR 0x0A, CHR 0x0B, CHR 0x0C, CHR 0x0D}"

definition isdigit :: "char \<Rightarrow> bool" where
  "isdigit c \<longleftrightarrow> 48 \<le> (of_char c :: nat) \<and> (of_char c :: nat) \<le> 57"

definition dec :: "string \<Rightarrow> nat" where
  "dec ds = foldl (\<lambda>n c. 10 * n + (of_char c - 48)) 0 ds"

definition scan_sign :: "string \<Rightarrow> bool \<times> string" where
  "scan_sign s = (case s of [] \<Rightarrow> (False, s)
     | c # r \<Rightarrow> if c = CHR ''-'' then (True, r) else if c = CHR ''+'' then (False, r) else (False, s))"

definition scan_int :: "string \<Rightarrow> (int \<times> string) option" where
  "scan_int s0 =
     (case scan_sign (dropWhile isspace s0) of (neg, s) \<Rightarrow>
        let ds = takeWhile isdigit s
        in if ds = [] then None
           else Some (if neg then - int (dec ds) else int (dec ds), dropWhile isdigit s))"

definition scan_float :: "string \<Rightarrow> (rat \<times> string) option" where
  "scan_float s0 =
     (case scan_sign (dropWhile isspace s0) of (neg, s) \<Rightarrow>
        let ds = takeWhile isdigit s; s1 = dropWhile isdigit s;
            dot = (s1 \<noteq> [] \<and> hd s1 = CHR ''.'');
            fs = (if dot then takeWhile isdigit (tl s1) else []);
            s2 = (if dot then dropWhile isdigit (tl s1) else s1);
            v = of_nat (dec (ds @ fs)) / 10 ^ length fs
        in if ds @ fs = [] then None else Some (if neg then - v else v, s2))"

fun sscanf :: "scan_item list \<Rightarrow> string \<Rightarrow> scan_val list" where
  "sscanf [] s = []"
| "sscanf (Lit c # is) s = (case s of [] \<Rightarrow> [] | x # r \<Rightarrow> if x = c then sscanf is r else [])"
| "sscanf (Space # is) s = sscanf is (dropWhile isspace s)"
| "sscanf (D # is) s = (case scan_int s of None \<Rightarrow> [] | Some (v, r) \<Rightarrow> DV v # sscanf is r)"
| "sscanf (F # is) s = (case scan_float s of None \<Rightarrow> [] | Some (v, r) \<Rightarrow> FV v # sscanf is r)"

section \<open>The serial line\<close>

datatype serial_read = NoData | Data string

type_synonym serial_in = "serial_read list"

text \<open>One \<open>uart_read\<close>; \<open>None\<close> is a time-out or an error, when nothing is stored.\<close>

fun uart_read :: "serial_in \<Rightarrow> string option \<times> serial_in" where
  "uart_read [] = (None, [])"
| "uart_read (NoData # ins) = (None, ins)"
| "uart_read (Data s # ins) =
     (if s = [] then (None, ins)
      else (Some (take 2048 s), if length s > 2048 then Data (drop 2048 s) # ins else ins))"

definition serial_size :: "serial_in \<Rightarrow> nat" where
  "serial_size ins = sum_list (map (\<lambda>r. case r of NoData \<Rightarrow> 1 | Data s \<Rightarrow> Suc (length s)) ins)"

lemma uart_read_size:
  assumes "(Some s, ins') = uart_read ins" shows "serial_size ins' < serial_size ins"
  using assms by (cases ins rule: uart_read.cases) (auto simp: serial_size_def split: if_splits)

text \<open>The loop of \<open>uart_read_end\<close> over its buffer of 1024 bytes, of which \<open>got\<close> are filled.\<close>

function uart_read_loop :: "string \<Rightarrow> serial_in \<Rightarrow> (string \<times> serial_in) option" where
  "uart_read_loop got ins =
     (case uart_read ins of
        (None, ins') \<Rightarrow> Some (got, ins')
      | (Some s, ins') \<Rightarrow>
          if length got + length s > 1024 then None
          else if last (got @ s) = CHR 0x0D then Some (got @ s, ins')
          else uart_read_loop (got @ s) ins')"
  by pat_completeness auto
termination
  by (relation "measure (\<lambda>(got, ins). serial_size ins)") (auto dest: uart_read_size)

declare uart_read_loop.simps [simp del]

text \<open>\<open>memcpy\<close> to the front of the caller's buffer.\<close>

definition uart_read_end :: "string \<Rightarrow> serial_in \<Rightarrow> (nat \<times> string \<times> serial_in) option" where
  "uart_read_end buf ins =
     (case uart_read_loop [] ins of None \<Rightarrow> None
      | Some (got, ins') \<Rightarrow>
          if length got \<le> length buf then Some (length got, got @ drop (length got) buf, ins') else None)"

section \<open>Probes\<close>

definition E_CA310_WORK_MODE_IDLE :: nat where "E_CA310_WORK_MODE_IDLE = 0"
definition E_CA310_WORK_MODE_XYLV :: nat where "E_CA310_WORK_MODE_XYLV = 1"
definition E_CA310_WORK_MODE_FLICK :: nat where "E_CA310_WORK_MODE_FLICK = 2"

definition MAX_LCD_PROBE_NUMS :: nat where "MAX_LCD_PROBE_NUMS = 2"

record ca310_probe =
  pr_lcd_channel :: int
  pr_uart_fd :: int
  pr_dev_name :: string
  pr_work_mode :: nat

definition probe_zero :: ca310_probe where
  "probe_zero = \<lparr>pr_lcd_channel = 0, pr_uart_fd = 0, pr_dev_name = [], pr_work_mode = 0\<rparr>"

definition s_ca310_probe :: "ca310_probe list" where
  "s_ca310_probe = replicate MAX_LCD_PROBE_NUMS probe_zero"

text \<open>The test of the channel at the start of every operation.\<close>

definition bad_channel :: "int \<Rightarrow> bool" where
  "bad_channel lcd_channel \<longleftrightarrow> lcd_channel < 0 \<or> lcd_channel > int MAX_LCD_PROBE_NUMS"

definition upd_probe :: "int \<Rightarrow> (ca310_probe \<Rightarrow> ca310_probe) \<Rightarrow> ca310_probe list \<Rightarrow> ca310_probe list option" where
  "upd_probe ch f ps = (if nat ch < length ps then Some (ps[nat ch := f (ps ! nat ch)]) else None)"

definition ca310_reset :: "int \<Rightarrow> ca310_probe list \<Rightarrow> (ca310_probe list \<times> int) option" where
  "ca310_reset ch ps =
     (if bad_channel ch then Some (ps, -1)
      else map_option (\<lambda>ps'. (ps', 0)) (upd_probe ch (\<lambda>_. probe_zero\<lparr>pr_uart_fd := -1\<rparr>) ps))"

text \<open>\<open>fd\<close> is what \<open>open\<close> returned. The name is copied into 32 bytes.\<close>

definition ca310_open :: "int \<Rightarrow> int \<Rightarrow> string \<Rightarrow> ca310_probe list \<Rightarrow> (ca310_probe list \<times> int) option" where
  "ca310_open fd ch p_dev_name ps =
     (if bad_channel ch then Some (ps, -1)
      else if length p_dev_name \<ge> 32 then None
      else map_option (\<lambda>ps'. (ps', 0))
        (upd_probe ch (\<lambda>_. \<lparr>pr_lcd_channel = ch, pr_uart_fd = fd, pr_dev_name = p_dev_name,
           pr_work_mode = E_CA310_WORK_MODE_IDLE\<rparr>) ps))"

definition ca310_close :: "int \<Rightarrow> ca310_probe list \<Rightarrow> (ca310_probe list \<times> int) option" where
  "ca310_close ch ps =
     (if bad_channel ch then Some (ps, -1)
      else if nat ch < length ps then
        if pr_uart_fd (ps ! nat ch) > 0
        then map_option (\<lambda>ps'. (ps', 0))
          (upd_probe ch (\<lambda>p. p\<lparr>pr_uart_fd := -1, pr_work_mode := E_CA310_WORK_MODE_IDLE\<rparr>) ps)
        else Some (ps, 0)
      else None)"

section \<open>Commands\<close>

definition PROBE_STATU_TIMEOUT :: int where "PROBE_STATU_TIMEOUT = -100"
definition PROBE_STATU_COMMAND_ERROR :: int where "PROBE_STATU_COMMAND_ERROR = -10"
definition PROBE_STATU_LOW_LUMI :: int where "PROBE_STATU_LOW_LUMI = -52"

definition CMD_OK_KEY :: string where "CMD_OK_KEY = ''OK00''"
definition CMD_OK_01_KEY :: string where "CMD_OK_01_KEY = ''OK0''"
definition ERR_INVALID_COMMAND :: string where "ERR_INVALID_COMMAND = ''ER10''"
definition ERR_VALUE_OUT :: string where "ERR_VALUE_OUT = ''ER50''"
definition ERR_LOW_LUMI :: string where "ERR_LOW_LUMI = ''ER52''"

definition starts :: "string \<Rightarrow> string \<Rightarrow> bool" where
  "starts key buf \<longleftrightarrow> take (length key) buf = key"

text \<open>Write a command and read the reply into \<open>buf\<close>: the length of the reply, the buffer
  afterwards, and what is left on the line.\<close>

definition ca310_exchange :: "int \<Rightarrow> string \<Rightarrow> serial_in \<Rightarrow> (nat \<times> string \<times> serial_in) option" where
  "ca310_exchange fd buf ins = (if fd < 0 then None else uart_read_end buf ins)"

text \<open>Commands one after the other, each answered with \<open>OK00\<close>; the first failure ends the
  sequence with \<open>bad\<close> or \<open>tmo\<close>. The second component are the commands sent.\<close>

fun ca310_cmds :: "int \<Rightarrow> int \<Rightarrow> int \<Rightarrow> string list \<Rightarrow> string \<Rightarrow> serial_in \<Rightarrow> (int \<times> string list \<times> serial_in) option" where
  "ca310_cmds bad tmo fd [] buf ins = Some (0, [], ins)"
| "ca310_cmds bad tmo fd (c # cs) buf ins =
     (case ca310_exchange fd buf ins of None \<Rightarrow> None
      | Some (n, buf', ins') \<Rightarrow>
          if n = 0 then Some (tmo, [c], ins')
          else if \<not> starts CMD_OK_KEY buf' then Some (bad, [c], ins')
          else (case ca310_cmds bad tmo fd cs buf' ins' of None \<Rightarrow> None
                | Some (r, sent, ins'') \<Rightarrow> Some (r, c # sent, ins'')))"

text \<open>The common shape of the four operations that switch the mode.\<close>

definition ca310_switch ::
  "int \<Rightarrow> int \<Rightarrow> int \<Rightarrow> string list \<Rightarrow> nat \<Rightarrow> int \<Rightarrow> ca310_probe list \<Rightarrow> serial_in
     \<Rightarrow> (int \<times> ca310_probe list \<times> string list \<times> serial_in) option" where
  "ca310_switch refuse bad tmo cmds mode ch ps ins =
     (if bad_channel ch then Some (refuse, ps, [], ins)
      else if nat ch < length ps then
        (case ca310_cmds bad tmo (pr_uart_fd (ps ! nat ch)) cmds (replicate 32 (CHR 0x00)) ins of
           None \<Rightarrow> None
         | Some (r, sent, ins') \<Rightarrow>
             if r = 0 then Some (0, ps[nat ch := (ps ! nat ch)\<lparr>pr_work_mode := mode\<rparr>], sent, ins')
             else Some (r, ps, sent, ins'))
      else None)"

definition ca310_start_flick_mode where
  "ca310_start_flick_mode =
     ca310_switch (-200) (-200) PROBE_STATU_TIMEOUT
       [''COM,2'' @ [CHR 0x0A], ''SCS,3'' @ [CHR 0x0A], ''MDS,6'' @ [CHR 0x0A]] E_CA310_WORK_MODE_FLICK"

definition ca310_stop_flick_mode where
  "ca310_stop_flick_mode = ca310_switch (-1) (-1) (-1) [''COM,0'' @ [CHR 0x0A]] E_CA310_WORK_MODE_IDLE"

definition ca310_start_xylv_mode where
  "ca310_start_xylv_mode =
     ca310_switch (-200) PROBE_STATU_COMMAND_ERROR PROBE_STATU_TIMEOUT
       [''COM,2'' @ [CHR 0x0A], ''SCS,3'' @ [CHR 0x0A], ''MDS,0'' @ [CHR 0x0A]] E_CA310_WORK_MODE_XYLV"

text \<open>Stopping the measurement of colours leaves the mode at \<open>XYLV\<close>.\<close>

definition ca310_stop_xylv_mode where
  "ca310_stop_xylv_mode =
     ca310_switch (-200) PROBE_STATU_COMMAND_ERROR PROBE_STATU_TIMEOUT [''COM,0'' @ [CHR 0x0A]]
       E_CA310_WORK_MODE_XYLV"

section \<open>Measurements\<close>

definition FLOAT_INVALID_FLICK_VALUE :: rat where "FLOAT_INVALID_FLICK_VALUE = 9999999 / 10000"

definition FMT_FLICK_DATA :: "scan_item list" where
  "FMT_FLICK_DATA = map Lit ''OK00,P'' @ [D, Space, F]"

text \<open>\<open>sscanf\<close> of a buffer needs the \<open>NUL\<close> at its end.\<close>

definition scan_buf :: "scan_item list \<Rightarrow> string \<Rightarrow> scan_val list option" where
  "scan_buf fmt buf =
     (if CHR 0x00 \<in> set buf then Some (sscanf fmt (takeWhile (\<lambda>c. c \<noteq> CHR 0x00) buf)) else None)"

text \<open>The status for a reply that is not \<open>OK00\<close>.\<close>

definition reply_error :: "string \<Rightarrow> int" where
  "reply_error buf =
     (if starts ERR_INVALID_COMMAND buf then PROBE_STATU_COMMAND_ERROR
      else if starts ERR_VALUE_OUT buf then -50
      else if starts ERR_LOW_LUMI buf then PROBE_STATU_LOW_LUMI
      else -200)"

text \<open>The status and the value of the caller's variable, which held \<open>f_flick\<close> before.\<close>

definition ca310_capture_flick_data ::
  "int \<Rightarrow> rat \<Rightarrow> ca310_probe list \<Rightarrow> serial_in \<Rightarrow> (int \<times> rat \<times> string list \<times> serial_in) option" where
  "ca310_capture_flick_data ch f_flick ps ins =
     (if bad_channel ch then Some (-200, f_flick, [], ins)
      else if nat ch < length ps then
        (case ca310_exchange (pr_uart_fd (ps ! nat ch)) (replicate 32 (CHR 0x00)) ins of None \<Rightarrow> None
         | Some (n, buf, ins') \<Rightarrow>
             if n = 0 then Some (PROBE_STATU_TIMEOUT, FLOAT_INVALID_FLICK_VALUE, [''MES'' @ [CHR 0x0A]], ins')
             else if \<not> starts CMD_OK_KEY buf
             then Some (reply_error buf, FLOAT_INVALID_FLICK_VALUE, [''MES'' @ [CHR 0x0A]], ins')
             else case scan_buf FMT_FLICK_DATA buf of
               None \<Rightarrow> None
             | Some vs \<Rightarrow>
                 Some (0, case vs of [DV p, FV v] \<Rightarrow> v | _ \<Rightarrow> FLOAT_INVALID_FLICK_VALUE,
                   [''MES'' @ [CHR 0x0A]], ins'))
      else None)"

text \<open>The colour measurement scans the luminance with \<open>%lf\<close> into a \<open>float\<close>: a reply that gets
  that far stores eight bytes into four. Otherwise the two coordinates are divided.\<close>

definition FMT_XYLV_DATA :: "scan_item list" where
  "FMT_XYLV_DATA = map Lit ''OK'' @ [D] @ map Lit '',P'' @ [D, Space, D, Lit (CHR '';''), D, Lit (CHR '';''), Space, F]"

definition coord :: "int \<Rightarrow> rat" where
  "coord x = (if x \<ge> 1000 then of_int x / 10000 else of_int x / 1000)"

definition ca310_capture_xylv_data ::
  "int \<Rightarrow> rat \<times> rat \<Rightarrow> ca310_probe list \<Rightarrow> serial_in \<Rightarrow> (int \<times> (rat \<times> rat) \<times> string list \<times> serial_in) option" where
  "ca310_capture_xylv_data ch xy ps ins =
     (if bad_channel ch then Some (-200, xy, [], ins)
      else if nat ch < length ps then
        (case ca310_exchange (pr_uart_fd (ps ! nat ch)) (replicate 32 (CHR 0x00)) ins of None \<Rightarrow> None
         | Some (n, buf, ins') \<Rightarrow>
             if n = 0 then Some (PROBE_STATU_TIMEOUT, xy, [''MES'' @ [CHR 0x0A]], ins')
             else if \<not> starts CMD_OK_KEY buf \<and> \<not> starts CMD_OK_01_KEY buf
             then Some (reply_error buf, xy, [''MES'' @ [CHR 0x0A]], ins')
             else case scan_buf FMT_XYLV_DATA buf of
               None \<Rightarrow> None
             | Some vs \<Rightarrow>
                 if length vs = 5 then None
                 else Some (0, (coord (case drop 2 vs of DV x # _ \<Rightarrow> x | _ \<Rightarrow> 0),
                                coord (case drop 3 vs of DV y # _ \<Rightarrow> y | _ \<Rightarrow> 0)),
                        [''MES'' @ [CHR 0x0A]], ins'))
      else None)"

section \<open>Replies in pieces\<close>

lemma loop_chunks:
  assumes "list_all (\<lambda>c. c \<noteq> [] \<and> length c \<le> 2048) cs" "concat cs = s @ [CHR 0x0D]" "CHR 0x0D \<notin> set s"
    "length got + length s < 1024"
  shows "uart_read_loop got (map Data cs @ rest) = Some (got @ s @ [CHR 0x0D], rest)"
  using assms
proof (induction cs arbitrary: got s)
  case Nil
  then show ?case by simp
next
  case (Cons c cs)
  have c: "c \<noteq> []" "length c \<le> 2048" and cat: "c @ concat cs = s @ [CHR 0x0D]" using Cons.prems(1,2) by auto
  then have read: "uart_read (map Data (c # cs) @ rest) = (Some c, map Data cs @ rest)" by simp
  show ?case
  proof (cases cs)
    case Nil
    then have "c = s @ [CHR 0x0D]" using cat by simp
    then show ?thesis using Cons.prems(4) read Nil by (subst uart_read_loop.simps) simp
  next
    case (Cons d ds)
    then have "concat cs \<noteq> []" using Cons.prems(1) by auto
    then obtain e where e: "concat cs = e @ [CHR 0x0D]" using cat by (metis append_is_Nil_conv last_appendR last_snoc append_butlast_last_id)
    then have s: "s = c @ e" using cat by simp
    then have "last c \<noteq> CHR 0x0D" using c Cons.prems(3) by (metis Un_iff last_in_set set_append)
    then have "uart_read_loop got (map Data (c # cs) @ rest) = uart_read_loop (got @ c) (map Data cs @ rest)"
      using c Cons.prems(4) read s by (subst uart_read_loop.simps) simp
    also have "\<dots> = Some ((got @ c) @ e @ [CHR 0x0D], rest)"
      using Cons.prems s e by (intro Cons.IH) auto
    finally show ?thesis using s by simp
  qed
qed

lemma exchange_chunks:
  assumes "list_all (\<lambda>c. c \<noteq> []) cs" "concat cs = s @ [CHR 0x0D]" "CHR 0x0D \<notin> set s"
    "length s < length buf" "length buf \<le> 1024" "0 \<le> fd"
  shows "ca310_exchange fd buf (map Data cs @ rest)
    = Some (Suc (length s), s @ CHR 0x0D # drop (Suc (length s)) buf, rest)"
proof -
  have "length c \<le> length (concat cs)" if "c \<in> set cs" for c
    using that by (auto simp: length_concat intro: member_le_sum_list)
  then have "list_all (\<lambda>c. c \<noteq> [] \<and> length c \<le> 2048) cs"
    using assms(1,2,4,5) by (fastforce simp: list_all_iff)
  from loop_chunks [OF this assms(2,3), of "[]" rest] assms(4-6)
  show ?thesis by (simp add: ca310_exchange_def uart_read_end_def)
qed

section \<open>Scanning numbers\<close>

lemma digit_not_space: "isdigit c \<Longrightarrow> \<not> isspace c"
  by (auto simp: isdigit_def isspace_def)

lemma digit_not_sign: "isdigit c \<Longrightarrow> c \<noteq> CHR ''-'' \<and> c \<noteq> CHR ''+''"
  by (auto simp: isdigit_def)

lemma digits_start:
  assumes "ds \<noteq> []" "list_all isdigit ds"
  shows "dropWhile isspace (ds @ r) = ds @ r" "scan_sign (ds @ r) = (False, ds @ r)"
  using assms digit_not_space digit_not_sign by (cases ds; simp add: scan_sign_def)+

lemma span_digits:
  assumes "list_all isdigit ds" "r = [] \<or> \<not> isdigit (hd r)"
  shows "takeWhile isdigit (ds @ r) = ds" "dropWhile isdigit (ds @ r) = r"
  using assms by (induction ds) (cases r, auto)+

lemma scan_int_digits:
  assumes "ds \<noteq> []" "list_all isdigit ds" "r = [] \<or> \<not> isdigit (hd r)"
  shows "scan_int (ds @ r) = Some (int (dec ds), r)"
  using assms by (simp add: scan_int_def digits_start span_digits Let_def)

lemma scan_float_digits:
  assumes "ds \<noteq> []" "list_all isdigit ds" "list_all isdigit fs" "r = [] \<or> \<not> isdigit (hd r)"
  shows "scan_float (ds @ CHR ''.'' # fs @ r) = Some (of_nat (dec (ds @ fs)) / 10 ^ length fs, r)"
proof -
  have "CHR ''.'' # fs @ r = [] \<or> \<not> isdigit (hd (CHR ''.'' # fs @ r))" by (simp add: isdigit_def)
  from span_digits [OF assms(2) this] show ?thesis
    using assms by (simp add: scan_float_def digits_start span_digits Let_def)
qed

lemma scan_float_space: "isspace c \<Longrightarrow> scan_float (c # s) = scan_float s"
  by (simp add: scan_float_def)

lemma scan_flick:
  assumes "p \<noteq> []" "list_all isdigit p" "ds \<noteq> []" "list_all isdigit ds" "list_all isdigit fs"
    "r = [] \<or> \<not> isdigit (hd r)"
  shows "sscanf FMT_FLICK_DATA (''OK00,P'' @ p @ ''  '' @ ds @ CHR ''.'' # fs @ r)
    = [DV (int (dec p)), FV (of_nat (dec (ds @ fs)) / 10 ^ length fs)]"
  using assms
  by (simp add: FMT_FLICK_DATA_def scan_int_digits [where r = "CHR '' '' # _"] scan_float_digits
      digits_start isspace_def isdigit_def [of "CHR '' ''"])

lemma takeWhile_nul:
  assumes "z \<notin> set xs"
  shows "takeWhile (\<lambda>c. c \<noteq> z) (xs @ replicate n z) = xs"
proof -
  have "takeWhile (\<lambda>c. c \<noteq> z) (xs @ replicate n z) = xs @ takeWhile (\<lambda>c. c \<noteq> z) (replicate n z)"
    by (rule takeWhile_append2) (use assms in blast)
  then show ?thesis by (cases n) simp_all
qed

section \<open>Properties\<close>

text \<open>
  C18: A flicker reply of the colour analyser is decoded to the number it spells, however the
  serial line cuts it into pieces, and nothing after the reply is consumed.
\<close>

theorem reading_is_independent_of_segmentation:
  assumes "0 \<le> ch" "nat ch < length ps" "length ps \<le> 2" "0 \<le> pr_uart_fd (ps ! nat ch)"
    "p \<noteq> []" "list_all isdigit p" "ds \<noteq> []" "list_all isdigit ds" "list_all isdigit fs"
    "list_all (\<lambda>c. c \<noteq> []) cs" "concat cs = ''OK00,P'' @ p @ ''  '' @ ds @ CHR ''.'' # fs @ [CHR 0x0D]"
    "length (concat cs) < 32"
  shows "ca310_capture_flick_data ch old ps (map Data cs @ rest)
    = Some (0, of_nat (dec (ds @ fs)) / 10 ^ length fs, [''MES'' @ [CHR 0x0A]], rest)"
proof -
  let ?s = "''OK00,P'' @ p @ ''  '' @ ds @ CHR ''.'' # fs"
  have nd: "CHR 0x0D \<notin> set xs \<and> CHR 0x00 \<notin> set xs" if "list_all isdigit xs" for xs
  proof -
    have "\<not> isdigit (CHR 0x0D)" "\<not> isdigit (CHR 0x00)" by (simp_all add: isdigit_def)
    with that show ?thesis unfolding list_all_iff by blast
  qed
  have cr: "CHR 0x0D \<notin> set ?s" and nul: "CHR 0x00 \<notin> set (?s @ [CHR 0x0D])"
    using nd [OF assms(6)] nd [OF assms(8)] nd [OF assms(9)] by simp_all
  have len: "length ?s < 31" using assms(11,12) by simp
  have "concat cs = ?s @ [CHR 0x0D]" using assms(11) by simp
  define b where "b = (?s @ [CHR 0x0D]) @ replicate (31 - length ?s) (CHR 0x00)"
  from exchange_chunks [OF assms(10) \<open>concat cs = ?s @ [CHR 0x0D]\<close> cr, of "replicate 32 (CHR 0x00)"
      "pr_uart_fd (ps ! nat ch)" rest] len assms(4)
  have ex: "ca310_exchange (pr_uart_fd (ps ! nat ch)) (replicate 32 (CHR 0x00)) (map Data cs @ rest)
      = Some (Suc (length ?s), b, rest)"
    by (simp add: b_def del: replicate.simps)
  have st: "starts CMD_OK_KEY b" by (simp add: b_def starts_def CMD_OK_KEY_def)
  have "takeWhile (\<lambda>c. c \<noteq> CHR 0x00) b = ?s @ [CHR 0x0D]"
    unfolding b_def using nul by (rule takeWhile_nul)
  moreover have "CHR 0x00 \<in> set b" using len by (simp add: b_def)
  moreover have "sscanf FMT_FLICK_DATA (?s @ [CHR 0x0D])
      = [DV (int (dec p)), FV (of_nat (dec (ds @ fs)) / 10 ^ length fs)]"
    using scan_flick [OF assms(5-9), of "[CHR 0x0D]"] by (simp add: isdigit_def)
  ultimately have sb: "scan_buf FMT_FLICK_DATA b
      = Some [DV (int (dec p)), FV (of_nat (dec (ds @ fs)) / 10 ^ length fs)]"
    unfolding scan_buf_def by simp
  have "\<not> bad_channel ch" using assms(1-3) by (simp add: bad_channel_def MAX_LCD_PROBE_NUMS_def)
  then show ?thesis
    using assms(2) unfolding ca310_capture_flick_data_def ex by (simp add: st sb)
qed


lemma reading_is_independent_of_segmentation_witness:
  "ca310_capture_flick_data 1 0 [probe_zero, probe_zero\<lparr>pr_uart_fd := 5\<rparr>]
      (map Data [''OK'', ''00,P1  10'', ''.6'' @ [CHR 0x0D]])
    = Some (0, 106 / 10, [''MES'' @ [CHR 0x0A]], [])"
  using reading_is_independent_of_segmentation [of 1 "[probe_zero, probe_zero\<lparr>pr_uart_fd := 5\<rparr>]" "''1''" "''10''" "''6''"
      "[''OK'', ''00,P1  10'', ''.6'' @ [CHR 0x0D]]" 0 "[]"]
  by (simp add: isdigit_def dec_def)

text \<open>
  Every operation of the analyser accepts channel 2 and reaches past the end of the table of
  probes, which has the entries 0 and 1.
\<close>

theorem second_probe_is_out_of_bounds:
  assumes "length ps = 2"
  shows "ca310_reset 2 ps = None \<and> ca310_close 2 ps = None
    \<and> ca310_start_flick_mode 2 ps ins = None \<and> ca310_stop_flick_mode 2 ps ins = None
    \<and> ca310_capture_flick_data 2 old ps ins = None
    \<and> (length name < 32 \<longrightarrow> ca310_open fd 2 name ps = None)
    \<and> (0 \<le> ch \<and> ch < 2 \<and> length name < 32 \<longrightarrow> (\<exists>ps'. ca310_open fd ch name ps = Some (ps', 0)
         \<and> length ps' = 2 \<and> pr_uart_fd (ps' ! nat ch) = fd))"
proof -
  have out: "\<not> bad_channel 2" "nat 2 \<ge> length ps" using assms by (simp_all add: bad_channel_def MAX_LCD_PROBE_NUMS_def)
  have "0 \<le> ch \<and> ch < 2 \<Longrightarrow> nat ch < 2 \<and> \<not> bad_channel ch"
    unfolding bad_channel_def MAX_LCD_PROBE_NUMS_def by linarith
  then show ?thesis using out assms
    by (simp add: ca310_reset_def ca310_close_def ca310_start_flick_mode_def ca310_stop_flick_mode_def
        ca310_switch_def ca310_capture_flick_data_def ca310_open_def upd_probe_def)
qed

lemma second_probe_is_out_of_bounds_witness:
  "ca310_reset 2 s_ca310_probe = None
   \<and> (\<exists>ps'. ca310_open 7 1 ''/dev/ttyUSB0'' s_ca310_probe = Some (ps', 0) \<and> pr_uart_fd (ps' ! nat 1) = 7)"
  using second_probe_is_out_of_bounds [of s_ca310_probe "[]" 0 "''/dev/ttyUSB0''" 7 1]
  by (auto simp: s_ca310_probe_def MAX_LCD_PROBE_NUMS_def)

end
