(* ===== verification/LcdTask.thy ===== *)
theory LcdTask
  imports Ca310
begin

text \<open>
  The task that owns the colour analysers, \<open>hw/lcd/pubLcdTask.c\<close>: the list of the serial devices
  plugged in, with a channel number for each, and the handler of its messages. What a device
  answers and the descriptor \<open>open\<close> returns are arguments.
\<close>

record lcd_device =
  ld_name :: string
  ld_channel :: int

definition MAX_LCD_DEVICE_NUMBER :: nat where "MAX_LCD_DEVICE_NUMBER = 4"

record lcd_state =
  m_lcd_list :: "lcd_device list"
  m_lcd_list_version :: nat
  ls_probes :: "ca310_probe list"

definition lcd_unused :: lcd_device where "lcd_unused = \<lparr>ld_name = [], ld_channel = 0\<rparr>"

definition initLcd :: lcd_state where
  "initLcd = \<lparr>m_lcd_list = replicate MAX_LCD_DEVICE_NUMBER lcd_unused, m_lcd_list_version = 0,
     ls_probes = s_ca310_probe\<rparr>"

definition lcd_getStatus :: "lcd_state \<Rightarrow> int \<Rightarrow> bool" where
  "lcd_getStatus s channel = list_ex (\<lambda>d. ld_channel d > 0 \<and> ld_channel d = channel) (m_lcd_list s)"

definition lcd_getList :: "lcd_state \<Rightarrow> int list" where
  "lcd_getList s = filter (\<lambda>c. c > 0) (map ld_channel (m_lcd_list s))"

definition lcd_getListVersion :: "lcd_state \<Rightarrow> nat" where
  "lcd_getListVersion s = m_lcd_list_version s"

definition next_version :: "nat \<Rightarrow> nat" where
  "next_version ver = (if ver = 0xffffffff then 1 else ver + 1)"

section \<open>Messages\<close>

text \<open>The line of the device with descriptor \<open>fd\<close>, for \<open>ca310_test\<close> and afterwards.\<close>

datatype lcd_message =
    FLICK_START int serial_in
  | SET_FLICK int serial_in
  | FLICK_END int serial_in
  | XYLV_START int serial_in
  | XYLV_READ int serial_in
  | XYLV_STOP int serial_in
  | TTYUSB_ADD string int serial_in serial_in
  | TTYUSB_REMOVE string

text \<open>The mode switches of a channel that is in the list; other channels are ignored.\<close>

definition lcd_switch where
  "lcd_switch f channel ins s =
     (if lcd_getStatus s channel
      then map_option (\<lambda>(r, ps, sent, rest). s\<lparr>ls_probes := ps\<rparr>) (f channel (ls_probes s) ins)
      else Some (s :: lcd_state))"

text \<open>The smallest of the channel numbers 1 to 4 that no device has.\<close>

definition free_channel :: "lcd_device list \<Rightarrow> int option" where
  "free_channel ds = List.find (\<lambda>c. \<not> list_ex (\<lambda>d. ld_channel d > 0 \<and> ld_channel d = c) ds) [1, 2, 3, 4]"

fun free_slot :: "lcd_device list \<Rightarrow> nat option" where
  "free_slot [] = None"
| "free_slot (d # ds) = (if ld_channel d = 0 then Some 0 else map_option Suc (free_slot ds))"

text \<open>\<open>ca310_test\<close> opens the device, writes \<open>COM,0\<close>, reads a reply into a buffer of its own and
  closes it.\<close>

definition ca310_test :: "int \<Rightarrow> serial_in \<Rightarrow> int option" where
  "ca310_test fd ins =
     (if fd > 0 then map_option (\<lambda>_. 0) (uart_read_end (replicate 1024 (CHR 0x00)) ins) else Some 0)"

definition lcd_add :: "string \<Rightarrow> int \<Rightarrow> serial_in \<Rightarrow> serial_in \<Rightarrow> lcd_state \<Rightarrow> lcd_state option" where
  "lcd_add devname fd tins ins s =
     (case free_slot (m_lcd_list s) of None \<Rightarrow> Some s
      | Some i \<Rightarrow>
        (case free_channel (m_lcd_list s) of None \<Rightarrow> Some s
         | Some channel \<Rightarrow>
           (case ca310_reset channel (ls_probes s) of None \<Rightarrow> None
            | Some (ps1, _) \<Rightarrow>
              (case ca310_test fd tins of None \<Rightarrow> None
               | Some _ \<Rightarrow>
                 (case ca310_open fd channel (''/dev/'' @ devname) ps1 of None \<Rightarrow> None
                  | Some (ps2, r) \<Rightarrow>
                    if r = 0 then
                      (case ca310_stop_flick_mode channel ps2 ins of None \<Rightarrow> None
                       | Some (_, ps3, _, _) \<Rightarrow>
                         if length devname < 64
                         then Some (s\<lparr>m_lcd_list := (m_lcd_list s)[i := \<lparr>ld_name = devname, ld_channel = channel\<rparr>],
                                      m_lcd_list_version := next_version (m_lcd_list_version s),
                                      ls_probes := ps3\<rparr>)
                         else None)
                    else Some (s\<lparr>ls_probes := ps2\<rparr>))))))"

fun named_slot :: "string \<Rightarrow> lcd_device list \<Rightarrow> nat option" where
  "named_slot n [] = None"
| "named_slot n (d # ds) = (if ld_channel d > 0 \<and> n = ld_name d then Some 0 else map_option Suc (named_slot n ds))"

definition lcd_remove :: "string \<Rightarrow> lcd_state \<Rightarrow> lcd_state option" where
  "lcd_remove devname s =
     (case named_slot devname (m_lcd_list s) of None \<Rightarrow> Some s
      | Some i \<Rightarrow>
        map_option (\<lambda>(ps, _). s\<lparr>m_lcd_list := (m_lcd_list s)[i := lcd_unused],
            m_lcd_list_version := next_version (m_lcd_list_version s), ls_probes := ps\<rparr>)
          (ca310_close (ld_channel (m_lcd_list s ! i)) (ls_probes s)))"

fun lcd_message_proc :: "lcd_message \<Rightarrow> lcd_state \<Rightarrow> lcd_state option" where
  "lcd_message_proc (FLICK_START channel ins) s = lcd_switch ca310_start_flick_mode channel ins s"
| "lcd_message_proc (SET_FLICK channel ins) s =
     (if lcd_getStatus s channel
      then map_option (\<lambda>_. s) (ca310_capture_flick_data channel 0 (ls_probes s) ins) else Some s)"
| "lcd_message_proc (FLICK_END channel ins) s = lcd_switch ca310_stop_flick_mode channel ins s"
| "lcd_message_proc (XYLV_START channel ins) s = lcd_switch ca310_start_xylv_mode channel ins s"
| "lcd_message_proc (XYLV_READ channel ins) s =
     (if lcd_getStatus s channel
      then map_option (\<lambda>_. s) (ca310_capture_xylv_data channel (0, 0) (ls_probes s) ins) else Some s)"
| "lcd_message_proc (XYLV_STOP channel ins) s = lcd_switch ca310_stop_xylv_mode channel ins s"
| "lcd_message_proc (TTYUSB_ADD devname fd tins ins) s = lcd_add devname fd tins ins s"
| "lcd_message_proc (TTYUSB_REMOVE devname) s = lcd_remove devname s"

fun lcd_run :: "lcd_message list \<Rightarrow> lcd_state \<Rightarrow> lcd_state option" where
  "lcd_run [] s = Some s"
| "lcd_run (m # ms) s = (case lcd_message_proc m s of None \<Rightarrow> None | Some s' \<Rightarrow> lcd_run ms s')"

text \<open>The search of \<open>/dev\<close> at the start: \<open>dir\<close> are the entries with their being character devices.
  The table of names has eight entries of 100 bytes; the devices that are posted are those with a
  number below 8, in the order of their numbers.\<close>

definition initLcd_SearchUSB :: "(bool \<times> string) list option \<Rightarrow> (int \<times> string list) option" where
  "initLcd_SearchUSB dir =
     (case dir of None \<Rightarrow> Some (-1, [])
      | Some es \<Rightarrow>
        let usbList = map snd (filter (\<lambda>e. fst e \<and> take 6 (snd e) = ''ttyUSB'') es)
        in if length usbList > 8 \<or> list_ex (\<lambda>n. length n \<ge> 100) usbList then None
           else Some (0, filter (\<lambda>txt. list_ex (\<lambda>n. txt = n) usbList)
                  (map (\<lambda>d. ''ttyUSB'' @ [d]) ''01234567'')))"

section \<open>The list keeps its form\<close>

text \<open>The list has four entries of which at most one is in use, with channel 1.\<close>

definition lcd_inv :: "lcd_state \<Rightarrow> bool" where
  "lcd_inv s \<longleftrightarrow> length (ls_probes s) = 2 \<and> length (m_lcd_list s) = 4
     \<and> (lcd_getList s = [] \<or> lcd_getList s = [1]) \<and> list_all (\<lambda>d. ld_channel d \<ge> 0) (m_lcd_list s)"

lemma lcd_inv_init: "lcd_inv initLcd"
  by (simp add: lcd_inv_def initLcd_def s_ca310_probe_def MAX_LCD_PROBE_NUMS_def MAX_LCD_DEVICE_NUMBER_def
      lcd_getList_def lcd_unused_def numeral_2_eq_2 eval_nat_numeral)

lemma status_getList: "lcd_getStatus s c \<longleftrightarrow> c \<in> set (lcd_getList s)"
  by (auto simp: lcd_getStatus_def lcd_getList_def list_ex_iff)

lemma free_channel_getList:
  "free_channel (m_lcd_list s) = List.find (\<lambda>c. c \<notin> set (lcd_getList s)) [1, 2, 3, 4]"
proof -
  have "(\<lambda>c. \<not> list_ex (\<lambda>d. ld_channel d > 0 \<and> ld_channel d = c) (m_lcd_list s))
      = (\<lambda>c. c \<notin> set (lcd_getList s))"
    using status_getList [of s] by (auto simp: lcd_getStatus_def fun_eq_iff)
  then show ?thesis by (simp only: free_channel_def)
qed

lemma free_slot_Some: "free_slot ds = Some i \<Longrightarrow> i < length ds \<and> ld_channel (ds ! i) = 0"
  by (induction ds arbitrary: i) (auto split: if_splits)

lemma named_slot_Some: "named_slot n ds = Some i \<Longrightarrow> i < length ds \<and> ld_channel (ds ! i) > 0 \<and> ld_name (ds ! i) = n"
  by (induction ds arbitrary: i) (auto split: if_splits)

lemma switch_length: "ca310_switch a b c cs m ch ps ins = Some (r, ps', sent, rest) \<Longrightarrow> length ps' = length ps"
  by (auto simp: ca310_switch_def split: if_splits option.splits prod.splits)

text \<open>The channels in use before and after an entry of the list is replaced.\<close>

lemma channels_split:
  assumes "i < length ds"
  shows "filter (\<lambda>c. c > 0) (map ld_channel ds)
      = filter (\<lambda>c. c > 0) (map ld_channel (take i ds)) @ filter (\<lambda>c. c > 0) [ld_channel (ds ! i)]
        @ filter (\<lambda>c. c > 0) (map ld_channel (drop (Suc i) ds))"
    "filter (\<lambda>c. c > 0) (map ld_channel (ds[i := d]))
      = filter (\<lambda>c. c > 0) (map ld_channel (take i ds)) @ filter (\<lambda>c. c > 0) [ld_channel d]
        @ filter (\<lambda>c. c > 0) (map ld_channel (drop (Suc i) ds))"
proof -
  have "ds = take i ds @ ds ! i # drop (Suc i) ds" using assms by (rule id_take_nth_drop)
  then show "filter (\<lambda>c. c > 0) (map ld_channel ds)
      = filter (\<lambda>c. c > 0) (map ld_channel (take i ds)) @ filter (\<lambda>c. c > 0) [ld_channel (ds ! i)]
        @ filter (\<lambda>c. c > 0) (map ld_channel (drop (Suc i) ds))"
    by (metis (no_types, lifting) append_Cons append_Nil filter_append list.simps(9) map_append)
  show "filter (\<lambda>c. c > 0) (map ld_channel (ds[i := d]))
      = filter (\<lambda>c. c > 0) (map ld_channel (take i ds)) @ filter (\<lambda>c. c > 0) [ld_channel d]
        @ filter (\<lambda>c. c > 0) (map ld_channel (drop (Suc i) ds))"
    using assms by (simp add: upd_conv_take_nth_drop)
qed


lemma all_unused:
  assumes "filter (\<lambda>c. c > 0) (map ld_channel ds) = []" "list_all (\<lambda>d. ld_channel d \<ge> 0) ds" "length ds = 4"
  shows "free_slot ds = Some 0"
proof -
  obtain d es where "ds = d # es" using assms(3) by (cases ds) auto
  then show ?thesis using assms(1,2) by (auto split: if_splits)
qed

lemma list_all_update: "list_all P xs \<Longrightarrow> P x \<Longrightarrow> list_all P (xs[i := x])"
  unfolding list_all_iff using set_update_subset_insert by fast

lemma switch_inv:
  assumes "lcd_switch f c ins s = Some s'" "lcd_inv s"
    and "\<And>r ps' sent rest. f c (ls_probes s) ins = Some (r, ps', sent, rest) \<Longrightarrow> length ps' = length (ls_probes s)"
  shows "lcd_inv s'"
  using assms by (auto simp: lcd_switch_def lcd_inv_def lcd_getList_def split: if_splits)

lemma reset_two: "length ps = 2 \<Longrightarrow> ca310_reset 2 ps = None"
  by (simp add: ca310_reset_def upd_probe_def bad_channel_def MAX_LCD_PROBE_NUMS_def)

lemma upd_probe_length: "upd_probe c f ps = Some ps' \<Longrightarrow> length ps' = length ps"
  by (auto simp: upd_probe_def split: if_splits)

lemma op_lengths:
  "ca310_reset c ps = Some (ps', r) \<Longrightarrow> length ps' = length ps"
  "ca310_open fd c n ps = Some (ps', r) \<Longrightarrow> length ps' = length ps"
  "ca310_close c ps = Some (ps', r) \<Longrightarrow> length ps' = length ps"
  "ca310_stop_flick_mode c ps ins = Some (q, ps', sent, rest) \<Longrightarrow> length ps' = length ps"
  by (auto simp: ca310_reset_def ca310_open_def ca310_close_def ca310_stop_flick_mode_def
      split: if_splits dest: upd_probe_length switch_length)

lemma add_second:
  assumes "lcd_inv s" "lcd_getList s = [1]"
  shows "lcd_add n fd tins ins s = None \<or> free_slot (m_lcd_list s) = None"
  using assms by (auto simp: lcd_add_def free_channel_getList lcd_inv_def reset_two split: option.splits)

lemma slot_free:
  assumes "length ds = 4" "filter (\<lambda>c. c > 0) (map ld_channel ds) = [1]" "list_all (\<lambda>d. ld_channel d \<ge> 0) ds"
  shows "free_slot ds \<noteq> None"
proof
  assume none: "free_slot ds = None"
  have nz: "free_slot es = None \<Longrightarrow> list_all (\<lambda>d. ld_channel d \<noteq> 0) es" for es
    by (induction es) (auto split: if_splits)
  have "filter (\<lambda>c. c > 0) (map ld_channel ds) = map ld_channel ds"
    using nz [OF none] assms(3) by (auto simp: list_all_iff filter_id_conv order.strict_iff_order)
  then have "length (map ld_channel ds) = length [1 :: int]" using assms(2) by simp
  then show False using assms(1) by simp
qed

lemma add_second_fails:
  assumes "lcd_inv s" "lcd_getList s = [1]"
  shows "lcd_add n fd tins ins s = None"
  using add_second [OF assms] slot_free [of "m_lcd_list s"] assms by (auto simp: lcd_inv_def lcd_getList_def)

lemma add_inv:
  assumes "lcd_add n fd tins ins s = Some s'" "lcd_inv s"
  shows "lcd_inv s'"
proof (cases "lcd_getList s = [1]")
  case True
  then show ?thesis using add_second_fails assms by simp
next
  case False
  then have none: "lcd_getList s = []" using assms(2) by (auto simp: lcd_inv_def)
  have fc: "free_channel (m_lcd_list s) = Some 1" by (simp add: free_channel_getList none)
  have "length (m_lcd_list s) = 4" using assms(2) by (simp add: lcd_inv_def)
  then have fs: "free_slot (m_lcd_list s) = Some 0"
    using all_unused [of "m_lcd_list s"] assms(2) none by (auto simp: lcd_inv_def lcd_getList_def)
  have "filter (\<lambda>c. c > 0) (map ld_channel ((m_lcd_list s)[0 := \<lparr>ld_name = n, ld_channel = 1\<rparr>])) = [1]"
    using channels_split [of 0 "m_lcd_list s"] none \<open>length (m_lcd_list s) = 4\<close>
    by (auto simp: lcd_getList_def split: if_splits)
  then show ?thesis
    using assms none
    by (auto simp: lcd_add_def fs fc lcd_inv_def lcd_getList_def 
        intro!: list_all_update dest!: op_lengths split: option.splits if_splits)
qed

lemma remove_inv:
  assumes "lcd_remove n s = Some s'" "lcd_inv s"
  shows "lcd_inv s'"
proof (cases "named_slot n (m_lcd_list s)")
  case None
  then show ?thesis using assms by (simp add: lcd_remove_def)
next
  case (Some i)
  from named_slot_Some [OF this] have i: "i < length (m_lcd_list s)" "0 < ld_channel (m_lcd_list s ! i)" by auto
  have "filter (\<lambda>c. c > 0) (map ld_channel ((m_lcd_list s)[i := lcd_unused])) = []"
    using channels_split [OF i(1)] assms(2) i(2)
    by (auto simp: lcd_inv_def lcd_getList_def lcd_unused_def Cons_eq_append_conv append_eq_Cons_conv)
  then show ?thesis
    using assms Some
    by (auto simp: lcd_remove_def lcd_inv_def lcd_getList_def lcd_unused_def
        intro!: list_all_update dest!: op_lengths)
qed

lemma message_inv: "lcd_message_proc m s = Some s' \<Longrightarrow> lcd_inv s \<Longrightarrow> lcd_inv s'"
  by (cases m) (auto intro: add_inv remove_inv
      elim!: switch_inv [where s = s] dest: switch_length
      simp: ca310_start_flick_mode_def ca310_stop_flick_mode_def ca310_start_xylv_mode_def
        ca310_stop_xylv_mode_def split: if_splits)

lemma run_inv: "lcd_run ms s = Some s' \<Longrightarrow> lcd_inv s \<Longrightarrow> lcd_inv s'"
  by (induction ms arbitrary: s) (auto split: option.splits intro: message_inv)

text \<open>Plugging in and unplugging the analyser while there is none.\<close>

lemma plug_unplug:
  assumes "lcd_inv s" "lcd_getList s = []" "0 < fd" "length name < 27"
  shows "\<exists>s1 s2. lcd_message_proc (TTYUSB_ADD name fd [] [Data (''OK00'' @ [CHR 0x0D])]) s = Some s1
    \<and> lcd_getList s1 = [1] \<and> lcd_getListVersion s1 = next_version (lcd_getListVersion s)
    \<and> pr_uart_fd (ls_probes s1 ! 1) = fd \<and> pr_work_mode (ls_probes s1 ! 1) = E_CA310_WORK_MODE_IDLE
    \<and> lcd_message_proc (TTYUSB_REMOVE name) s1 = Some s2 \<and> lcd_getList s2 = []
    \<and> pr_uart_fd (ls_probes s2 ! 1) = -1"
proof -
  note inv = assms(1)
  have len: "length (ls_probes s) = 2" "length (m_lcd_list s) = 4" using inv by (simp_all add: lcd_inv_def)
  have fc: "free_channel (m_lcd_list s) = Some 1" by (simp add: free_channel_getList assms(2))
  have fs: "free_slot (m_lcd_list s) = Some 0"
    using all_unused [of "m_lcd_list s"] inv assms(2) len by (auto simp: lcd_inv_def lcd_getList_def)
  let ?p = "\<lparr>pr_lcd_channel = 1, pr_uart_fd = fd, pr_dev_name = ''/dev/'' @ name, pr_work_mode = 0\<rparr>"
  let ?d = "\<lparr>ld_name = name, ld_channel = 1\<rparr>"
  have ok: "\<not> bad_channel 1" by (simp add: bad_channel_def MAX_LCD_PROBE_NUMS_def)
  have reset: "ca310_reset 1 (ls_probes s) = Some ((ls_probes s)[1 := probe_zero\<lparr>pr_uart_fd := -1\<rparr>], 0)"
    using len by (simp add: ca310_reset_def ok upd_probe_def)
  have test: "ca310_test fd [] = Some 0"
    by (simp add: ca310_test_def uart_read_end_def uart_read_loop.simps)
  have "open": "ca310_open fd 1 (''/dev/'' @ name) ((ls_probes s)[1 := q]) = Some ((ls_probes s)[1 := ?p], 0)" for q
    using len assms(4) by (simp add: ca310_open_def ok upd_probe_def E_CA310_WORK_MODE_IDLE_def)
  have ex: "ca310_exchange fd (replicate 32 (CHR 0x00)) [Data (''OK00'' @ [CHR 0x0D])]
      = Some (5, ''OK00'' @ CHR 0x0D # replicate 27 (CHR 0x00), [])"
    using exchange_chunks [of "[''OK00'' @ [CHR 0x0D]]" "''OK00''" "replicate 32 (CHR 0x00)" fd "[]"] assms(3)
    by (simp del: replicate.simps)
  have stop: "ca310_stop_flick_mode 1 ((ls_probes s)[1 := ?p]) [Data (''OK00'' @ [CHR 0x0D])]
      = Some (0, (ls_probes s)[1 := ?p], [''COM,0'' @ [CHR 0x0A]], [])"
    using len ex by (simp add: ca310_stop_flick_mode_def ca310_switch_def ok starts_def CMD_OK_KEY_def
        E_CA310_WORK_MODE_IDLE_def)
  let ?s1 = "s\<lparr>m_lcd_list := (m_lcd_list s)[0 := ?d], m_lcd_list_version := next_version (m_lcd_list_version s),
      ls_probes := (ls_probes s)[1 := ?p]\<rparr>"
  have add: "lcd_message_proc (TTYUSB_ADD name fd [] [Data (''OK00'' @ [CHR 0x0D])]) s = Some ?s1"
    using assms(4) by (simp add: lcd_add_def fs fc reset test "open" stop del: One_nat_def append.simps)
  obtain d ds where l: "m_lcd_list s = d # ds" using len(2) by (cases "m_lcd_list s") auto
  have rest: "filter (\<lambda>c. c > 0) (map ld_channel ds) = []" using assms(2) l by (simp add: lcd_getList_def split: if_splits)
  let ?s2 = "?s1\<lparr>m_lcd_list := (m_lcd_list s)[0 := lcd_unused],
      m_lcd_list_version := next_version (m_lcd_list_version ?s1), ls_probes := (ls_probes s)[1 := ?p\<lparr>pr_uart_fd := -1\<rparr>]\<rparr>"
  have remove: "lcd_message_proc (TTYUSB_REMOVE name) ?s1 = Some ?s2"
    using len assms(3) l by (simp add: lcd_remove_def ca310_close_def ok upd_probe_def E_CA310_WORK_MODE_IDLE_def)
  show ?thesis
    by (rule exI [of _ ?s1], rule exI [of _ ?s2])
      (use add remove rest l len in \<open>simp add: lcd_getList_def lcd_getListVersion_def lcd_unused_def
        E_CA310_WORK_MODE_IDLE_def\<close>)
qed

section \<open>Properties\<close>

text \<open>
  Whatever messages the analyser task has worked through, when one analyser is plugged in the
  next one that is plugged in makes the task write past the end of the table of probes.
\<close>

theorem second_analyser_overruns_table:
  assumes "lcd_run ms initLcd = Some s" "lcd_getStatus s 1"
  shows "lcd_getList s = [1] \<and> lcd_message_proc (TTYUSB_ADD name fd tins ins) s = None"
proof -
  have inv: "lcd_inv s" using run_inv [OF assms(1) lcd_inv_init] .
  then have "lcd_getList s = [1]" using assms(2) by (auto simp: lcd_inv_def status_getList)
  then show ?thesis using add_second_fails [OF inv] by simp
qed

lemma demo_plugged:
  "\<exists>s. lcd_run [TTYUSB_ADD ''ttyUSB0'' 5 [] [Data (''OK00'' @ [CHR 0x0D])]] initLcd = Some s \<and> lcd_getStatus s 1"
proof -
  have "lcd_getList initLcd = []"
    by (simp add: lcd_getList_def initLcd_def MAX_LCD_DEVICE_NUMBER_def lcd_unused_def eval_nat_numeral)
  from plug_unplug [OF lcd_inv_init this, of 5 "''ttyUSB0''"] show ?thesis
    by (auto simp: status_getList simp del: lcd_message_proc.simps append.simps)
qed

lemma second_analyser_overruns_table_witness:
  "\<exists>s. lcd_run [TTYUSB_ADD ''ttyUSB0'' 5 [] [Data (''OK00'' @ [CHR 0x0D])]] initLcd = Some s
     \<and> lcd_message_proc (TTYUSB_ADD ''ttyUSB1'' 6 [] []) s = None"
  using demo_plugged second_analyser_overruns_table by blast

text \<open>
  Whatever came before, when no analyser is in the list, plugging one in lists it as channel 1
  with a new list version, its descriptor stored and its mode idle, and unplugging it removes
  it and closes the descriptor.
\<close>

theorem analyser_plug_and_unplug:
  assumes "lcd_run ms initLcd = Some s" "lcd_getList s = []" "0 < fd" "length name < 27"
  shows "\<exists>s1 s2. lcd_message_proc (TTYUSB_ADD name fd [] [Data (''OK00'' @ [CHR 0x0D])]) s = Some s1
    \<and> lcd_getList s1 = [1] \<and> lcd_getListVersion s1 = next_version (lcd_getListVersion s)
    \<and> pr_uart_fd (ls_probes s1 ! 1) = fd \<and> pr_work_mode (ls_probes s1 ! 1) = E_CA310_WORK_MODE_IDLE
    \<and> lcd_message_proc (TTYUSB_REMOVE name) s1 = Some s2 \<and> lcd_getList s2 = []
    \<and> pr_uart_fd (ls_probes s2 ! 1) = -1"
  using plug_unplug [OF run_inv [OF assms(1) lcd_inv_init] assms(2-4)] .

lemma analyser_plug_and_unplug_witness:
  "\<exists>s1. lcd_message_proc (TTYUSB_ADD ''ttyUSB0'' 5 [] [Data (''OK00'' @ [CHR 0x0D])]) initLcd = Some s1
     \<and> lcd_getList s1 = [1]"
proof -
  have "lcd_getList initLcd = []"
    by (simp add: lcd_getList_def initLcd_def MAX_LCD_DEVICE_NUMBER_def lcd_unused_def eval_nat_numeral)
  from analyser_plug_and_unplug [of "[]" initLcd 5 "''ttyUSB0''", OF _ this] show ?thesis
    by (auto simp del: lcd_message_proc.simps append.simps)
qed

end
