(* ===== verification/Timing.thy ===== *)
theory Timing
  imports Prelude
begin

text \<open>
  The timing of a panel module, \<open>timing_info_t\<close> of \<open>hw/fpga/include/pubtiming.h\<close>: the members that
  the programs of clock, FPGA and MIPI bridge read.
\<close>

record timing_info =
  timsignalmode :: int
  timbit :: int
  timvesajeda :: int
  timvsyncpri :: int
  timhsyncpri :: int
  timde :: int
  timvtotaltime :: int
  timhactivetime :: int
  timhtotaltime :: int
  timhbackporch :: int
  timhfrontporch :: int
  timhsyncpulsewidth :: int
  timvactivetime :: int
  timvbackporch :: int
  timvsyncpulsewidth :: int
  timvfrontporch :: int
  timclockfreq :: int
  timMainFreq :: int
  timlink :: "u8 list"
  timsignaltype :: int
  timmipilanenum :: int
  timmipisyncmode :: int
  mdlmipidsiclock :: int

end
