(* ===== verification/Fpga.thy ===== *)
theory Fpga
  imports Prelude
begin

text \<open>
  The display logic in the FPGA, \<open>hw/fpga/source/fpgaFunc.c\<close>. The registers are a map from
  addresses to 16-bit values, in which a read gives what was written last; all writes are also
  recorded in order. The status register, which the logic changes by itself, is polled: what the
  polls give is an argument.
\<close>

unbundle bit_operations_syntax

section \<open>Registers\<close>

record fpga =
  fp_regs :: "nat \<Rightarrow> u16"
  fp_wide :: "nat \<Rightarrow> u32"
  fp_log :: "(nat \<times> u16) list"

definition FPGA_DDR_REG1 :: nat where "FPGA_DDR_REG1 = 0x02"
definition FPGA_DDR_REG2 :: nat where "FPGA_DDR_REG2 = 0x04"
definition FPGA_DDR_REG4 :: nat where "FPGA_DDR_REG4 = 0x08"
definition FPGA_DDR_REG5 :: nat where "FPGA_DDR_REG5 = 0x0A"
definition FPGA_DDR_REG6 :: nat where "FPGA_DDR_REG6 = 0x0C"
definition FPGA_DDR_REG7 :: nat where "FPGA_DDR_REG7 = 0x0E"
definition FPGA_DDR_REG8 :: nat where "FPGA_DDR_REG8 = 0x10"
definition FPGA_DDR_REG9 :: nat where "FPGA_DDR_REG9 = 0x12"
definition FPGA_DDR_REGA :: nat where "FPGA_DDR_REGA = 0x14"
definition FPGA_DDR_REGB :: nat where "FPGA_DDR_REGB = 0x16"
definition FPGA_DDR_REGC :: nat where "FPGA_DDR_REGC = 0x18"
definition FPGA_DDR_REGD :: nat where "FPGA_DDR_REGD = 0x1A"
definition FPGA_DDR_REGE :: nat where "FPGA_DDR_REGE = 0x1C"
definition FPGA_DDR_REGF :: nat where "FPGA_DDR_REGF = 0x1E"
definition FPGA_DDR_REG10 :: nat where "FPGA_DDR_REG10 = 0x20"
definition FPGA_DDR_REG11 :: nat where "FPGA_DDR_REG11 = 0x22"
definition FPGA_DDR_REG13 :: nat where "FPGA_DDR_REG13 = 0x26"
definition FPGA_DDR_REG1C :: nat where "FPGA_DDR_REG1C = 0x38"
definition FPGA_DDR_REG1D :: nat where "FPGA_DDR_REG1D = 0x3A"
definition FPGA_DDR_REG1E :: nat where "FPGA_DDR_REG1E = 0x3C"
definition FPGA_DDR_REG1F :: nat where "FPGA_DDR_REG1F = 0x3E"
definition FPGA_DDR_REG26 :: nat where "FPGA_DDR_REG26 = 0x4C"
definition FPGA_DDR_REG27 :: nat where "FPGA_DDR_REG27 = 0x4E"
definition FPGA_DDR_REG2B :: nat where "FPGA_DDR_REG2B = 0x56"
definition FPGA_DDR_REG3B :: nat where "FPGA_DDR_REG3B = 0x76"

lemmas fpga_reg_defs =
  FPGA_DDR_REG1_def FPGA_DDR_REG2_def FPGA_DDR_REG4_def FPGA_DDR_REG5_def FPGA_DDR_REG6_def
  FPGA_DDR_REG7_def FPGA_DDR_REG8_def FPGA_DDR_REG9_def FPGA_DDR_REGA_def FPGA_DDR_REGB_def
  FPGA_DDR_REGC_def FPGA_DDR_REGD_def FPGA_DDR_REGE_def FPGA_DDR_REGF_def FPGA_DDR_REG10_def
  FPGA_DDR_REG11_def FPGA_DDR_REG13_def FPGA_DDR_REG1C_def FPGA_DDR_REG1D_def FPGA_DDR_REG1E_def
  FPGA_DDR_REG1F_def FPGA_DDR_REG26_def FPGA_DDR_REG27_def FPGA_DDR_REG2B_def FPGA_DDR_REG3B_def

definition fpga_read_16bits :: "nat \<Rightarrow> fpga \<Rightarrow> u16" where
  "fpga_read_16bits reg s = fp_regs s reg"

definition fpga_write_16bits :: "nat \<Rightarrow> u16 \<Rightarrow> fpga \<Rightarrow> fpga" where
  "fpga_write_16bits reg val s = s\<lparr>fp_regs := (fp_regs s)(reg := val), fp_log := fp_log s @ [(reg, val)]\<rparr>"

text \<open>The 32-bit accesses count addresses in words of their own and reach other registers.\<close>

definition fpga_read :: "nat \<Rightarrow> fpga \<Rightarrow> u16" where
  "fpga_read reg s = ucast (fp_wide s reg)"

definition fpga_write :: "nat \<Rightarrow> u32 \<Rightarrow> fpga \<Rightarrow> fpga" where
  "fpga_write reg val s = s\<lparr>fp_wide := (fp_wide s)(reg := val)\<rparr>"

text \<open>Reading a register, changing it and writing it back.\<close>

definition fpga_modify :: "nat \<Rightarrow> (u16 \<Rightarrow> u16) \<Rightarrow> fpga \<Rightarrow> fpga" where
  "fpga_modify reg f s = fpga_write_16bits reg (f (fpga_read_16bits reg s)) s"

definition set_bit16 :: "nat \<Rightarrow> u16 \<Rightarrow> u16" where "set_bit16 n v = v OR push_bit n 1"
definition clear_bit16 :: "nat \<Rightarrow> u16 \<Rightarrow> u16" where "clear_bit16 n v = v AND NOT (push_bit n 1)"

section \<open>Start, reset, pictures\<close>

definition fpgaEnable :: "fpga \<Rightarrow> fpga" where
  "fpgaEnable s0 =
     (let s1 = fpga_modify FPGA_DDR_REG2 (clear_bit16 9 \<circ> clear_bit16 5 \<circ> clear_bit16 4 \<circ> set_bit16 15) s0
      in fold (\<lambda>(r, v). fpga_write_16bits r v)
        [(FPGA_DDR_REGA, 0), (FPGA_DDR_REGB, 0), (FPGA_DDR_REG8, 0), (FPGA_DDR_REG9, 0),
         (FPGA_DDR_REG6, 0), (FPGA_DDR_REG7, 0), (FPGA_DDR_REG1C, 0), (FPGA_DDR_REG1D, 0),
         (FPGA_DDR_REG1E, 0x31ff), (FPGA_DDR_REG1F, 0xfff0)] s1)"

definition fpgaReset :: "fpga \<Rightarrow> fpga" where
  "fpgaReset s =
     (let regValue = set_bit16 3 (fpga_read_16bits FPGA_DDR_REG2 s);
          s1 = fpga_write_16bits FPGA_DDR_REG2 regValue s
      in fpga_write_16bits FPGA_DDR_REG2 (clear_bit16 3 regValue) s1)"

definition fpgaSetPictureState :: "bool \<Rightarrow> fpga \<Rightarrow> fpga" where
  "fpgaSetPictureState bShow s =
     fpga_modify FPGA_DDR_REG2 (if bShow then set_bit16 5 else clear_bit16 5) (fpgaReset s)"

definition fpgaShowPicture :: "u16 \<Rightarrow> u16 \<Rightarrow> fpga \<Rightarrow> fpga" where
  "fpgaShowPicture position psize s0 =
     (let s1 = fpga_write_16bits FPGA_DDR_REG4 (position AND 0xff OR push_bit 8 (psize AND 0xff)) s0;
          s2 = fpga_modify FPGA_DDR_REG2 (set_bit16 15 \<circ> clear_bit16 10 \<circ> set_bit16 5) s1;
          s3 = fpga_modify FPGA_DDR_REG13 (\<lambda>v. clear_bit16 12 (v AND NOT (push_bit 5 0x07))) s2;
          s4 = fpga_modify FPGA_DDR_REG3B (clear_bit16 1) s3;
          s5 = fpga_modify FPGA_DDR_REG2 (set_bit16 11) s4
      in fpga_modify FPGA_DDR_REG2 (clear_bit16 11) s5)"

record fpga_version =
  v_year :: nat
  v_month :: nat
  v_day :: nat
  v_low :: nat
  v_high :: nat

definition nibble :: "nat \<Rightarrow> u16 \<Rightarrow> nat" where
  "nibble i v = unat (drop_bit (4 * i) v AND 0xf)"

definition fpgaGetVersion :: "fpga \<Rightarrow> fpga_version" where
  "fpgaGetVersion s =
     (let d = fpga_read_16bits FPGA_DDR_REGD s; e = fpga_read_16bits FPGA_DDR_REGE s;
          c = fpga_read_16bits FPGA_DDR_REGC s
      in \<lparr>v_year = nibble 3 d * 1000 + nibble 2 d * 100 + nibble 1 d * 10 + nibble 0 d,
          v_month = nibble 3 e * 10 + nibble 2 e, v_day = nibble 1 e * 10 + nibble 0 e,
          v_low = unat (c AND 0xff), v_high = unat (drop_bit 8 c AND 0xff)\<rparr>)"

section \<open>The cursor\<close>

record cross_cursor =
  cc_enable :: bool
  cc_x :: u16
  cc_y :: u16
  cc_wordColor :: u32
  cc_cursorColor :: u32
  cc_RGBchang :: u8
  cc_startCoordinate :: u8

definition fpgaCrossCursorSet :: "cross_cursor \<Rightarrow> fpga \<Rightarrow> fpga" where
  "fpgaCrossCursorSet info s0 =
     (let s1 = fold (\<lambda>(r, v). fpga_write_16bits r v)
            [(FPGA_DDR_REG6, cc_x info), (FPGA_DDR_REG7, cc_y info), (FPGA_DDR_REGF, cc_x info),
             (FPGA_DDR_REG1E, ucast (drop_bit 16 (cc_cursorColor info))),
             (FPGA_DDR_REG1F, ucast (cc_cursorColor info)),
             (FPGA_DDR_REG1C, ucast (drop_bit 16 (cc_wordColor info))),
             (FPGA_DDR_REG1D, (ucast (cc_wordColor info) AND 0xfffc) OR (ucast (cc_RGBchang info) AND 0x03))] s0
      in fpga_modify FPGA_DDR_REG2
           (if cc_enable info
            then (if cc_startCoordinate info = 0 then clear_bit16 14 else set_bit16 14)
                   \<circ> (\<lambda>v. v OR (push_bit 8 1 OR push_bit 4 1))
            else (\<lambda>v. v AND (NOT (push_bit 8 1) AND NOT (push_bit 4 1)))) s1)"

text \<open>The state the host sends, with colours of ten bits. \<open>\<not>\<close> binds tighter than \<open>&\<close>, and \<open><<\<close>
  tighter than both: in the word colour it is the mask that is shifted.\<close>

record cursor_state =
  cs_enable :: bool
  cs_x :: u16
  cs_y :: u16
  cs_red :: u16
  cs_green :: u16
  cs_blue :: u16
  cs_RGBchang :: u8
  cs_startCoordinate :: u8

definition flip8 :: "u16 \<Rightarrow> u16" where "flip8 c = NOT c AND 0xFF"

definition cursor_colors :: "cursor_state \<Rightarrow> cursor_state" where
  "cursor_colors c =
     (if cs_RGBchang c = 1 then c\<lparr>cs_green := flip8 (cs_green c), cs_blue := flip8 (cs_blue c)\<rparr>
      else if cs_RGBchang c = 2
      then c\<lparr>cs_red := flip8 (cs_red c), cs_green := flip8 (cs_green c), cs_blue := flip8 (cs_blue c)\<rparr>
      else if cs_RGBchang c = 3 then c\<lparr>cs_red := flip8 (cs_red c), cs_green := flip8 (cs_green c)\<rparr>
      else c)"

definition cursor_info :: "cursor_state \<Rightarrow> cross_cursor" where
  "cursor_info c0 =
     (let c = cursor_colors c0; r = ucast (cs_red c) :: u32; g = ucast (cs_green c); b = ucast (cs_blue c)
      in \<lparr>cc_enable = cs_enable c, cc_x = cs_x c, cc_y = cs_y c,
          cc_wordColor = (NOT r AND push_bit 2 0xff) OR (NOT g AND push_bit 12 0xff) OR (NOT b AND push_bit 22 0xff),
          cc_cursorColor = push_bit 2 r OR push_bit 12 g OR push_bit 22 b,
          cc_RGBchang = cs_RGBchang c, cc_startCoordinate = cs_startCoordinate c\<rparr>)"

definition setCrossCursorState :: "cursor_state \<Rightarrow> fpga \<Rightarrow> fpga" where
  "setCrossCursorState c = fpgaCrossCursorSet (cursor_info c)"

section \<open>Signal format\<close>

definition VBIT10 :: u16 where "VBIT10 = 0x03"

definition fpgaLinkSet :: "nat \<Rightarrow> fpga \<Rightarrow> fpga" where
  "fpgaLinkSet mode =
     fpga_modify FPGA_DDR_REG1
       (if mode = 1 then clear_bit16 3 \<circ> clear_bit16 2
        else if mode = 2 then clear_bit16 3 \<circ> set_bit16 2
        else if mode = 4 then set_bit16 3 \<circ> set_bit16 2
        else clear_bit16 3 \<circ> set_bit16 2)"

definition fpgaBitSet :: "int \<Rightarrow> fpga \<Rightarrow> fpga" where
  "fpgaBitSet bits =
     fpga_modify FPGA_DDR_REG1
       (if bits = 6 then clear_bit16 1 \<circ> (\<lambda>v. v OR 1)
        else if bits = 8 then set_bit16 1 \<circ> clear_bit16 0
        else (\<lambda>v. v OR VBIT10))"

definition JEDA :: nat where "JEDA = 1"

definition fpgaVesaJedaSwitch :: "nat \<Rightarrow> fpga \<Rightarrow> fpga" where
  "fpgaVesaJedaSwitch lvdsChange =
     fpga_modify FPGA_DDR_REG1 (if lvdsChange = JEDA then set_bit16 7 else clear_bit16 7)"

record sync_level =
  sl_h :: u8
  sl_v :: u8
  sl_de :: u8

text \<open>The vertical polarity is overwritten with the horizontal one.\<close>

definition fpgaSignalSyncLevel :: "sync_level \<Rightarrow> fpga \<Rightarrow> fpga" where
  "fpgaSignalSyncLevel info0 =
     (let info = info0\<lparr>sl_v := sl_h info0\<rparr>
      in fpga_modify FPGA_DDR_REG1
           ((if sl_de info = 0 then clear_bit16 4 else set_bit16 4)
            \<circ> (if sl_v info = 0 then clear_bit16 6 else set_bit16 6)
            \<circ> (if sl_h info = 0 then clear_bit16 5 else set_bit16 5)))"

record signal_mode =
  sm_link0 :: u8
  sm_link1 :: u8
  sm_link2 :: u8
  sm_link3 :: u8

definition fpgaSignalModeSet :: "signal_mode \<Rightarrow> fpga \<Rightarrow> fpga" where
  "fpgaSignalModeSet info =
     fpga_modify FPGA_DDR_REG1 (\<lambda>v. (v AND 0xFF) OR push_bit 8 (ucast (sm_link0 info) AND 0x3)
       OR push_bit 10 (ucast (sm_link1 info) AND 0x3) OR push_bit 12 (ucast (sm_link2 info) AND 0x3)
       OR push_bit 14 (ucast (sm_link3 info) AND 0x3))"

definition setFpgaSignalMode :: "nat \<Rightarrow> u8 list \<Rightarrow> fpga \<Rightarrow> fpga" where
  "setFpgaSignalMode linkCount module =
     fpgaSignalModeSet
       (if linkCount = 2
        then \<lparr>sm_link0 = module ! 0 - 1, sm_link1 = module ! 1 - 1, sm_link2 = module ! 0 - 1, sm_link3 = module ! 1 - 1\<rparr>
        else \<lparr>sm_link0 = module ! 0 - 1, sm_link1 = module ! 1 - 1, sm_link2 = module ! 2 - 1, sm_link3 = module ! 3 - 1\<rparr>)"

record fpga_seq =
  T0 :: u16
  T1 :: u16
  T2 :: u16
  T3 :: u16
  T4 :: u16
  T5 :: u16
  T6 :: u16
  T7 :: u16

text \<open>\<open>HSD_BACK_PORCH\<close> to \<open>VSD_DISPLAY\<close>.\<close>

definition fpgaSeqSet :: "fpga_seq \<Rightarrow> fpga \<Rightarrow> fpga" where
  "fpgaSeqSet q =
     fold (\<lambda>(r, v). fpga_write_16bits r v)
       [(0x28, T0 q), (0x2A, T1 q), (0x2C, T2 q), (0x2E, T3 q), (0x30, T4 q), (0x32, T5 q), (0x34, T6 q), (0x36, T7 q)]"

definition fpgaImageMove :: "u32 \<Rightarrow> u32 \<Rightarrow> fpga \<Rightarrow> fpga" where
  "fpgaImageMove Xmsg Ymsg s =
     (let xstep = ucast (drop_bit 16 Xmsg) :: u8; ystep = ucast (drop_bit 16 Ymsg) :: u8;
          regB = (ucast Xmsg AND 0x7) OR push_bit 3 (ucast Ymsg AND 0x7) OR push_bit 6 (ucast xstep) :: u16
      in fpga_write_16bits FPGA_DDR_REG2B (push_bit 6 (ucast ystep)) (fpga_write_16bits FPGA_DDR_REGB regB s))"

definition fpgaShowRgb :: "u16 \<Rightarrow> u16 \<Rightarrow> u16 \<Rightarrow> fpga \<Rightarrow> fpga" where
  "fpgaShowRgb rgb_r rgb_g rgb_b s =
     (let s1 = fpga_write_16bits FPGA_DDR_REG11 (push_bit 2 rgb_r + push_bit 12 rgb_g) s;
          s2 = fpga_write_16bits FPGA_DDR_REG10 (push_bit 6 rgb_b + drop_bit 4 rgb_g) s1
      in fpga_modify FPGA_DDR_REG2 (set_bit16 10) s2)"


section \<open>Polling and downloads\<close>

text \<open>\<open>st i\<close> is what the \<open>i\<close>-th poll of the status register gives. The counter is compared with
  300 before it is incremented.\<close>

function reg3_poll :: "(nat \<Rightarrow> u16) \<Rightarrow> nat \<Rightarrow> nat" where
  "reg3_poll st flag =
     (if st flag AND 1 \<noteq> 0 then flag else if flag > 300 then flag + 1 else reg3_poll st (flag + 1))"
  by pat_completeness auto
termination by (relation "measure (\<lambda>(st, flag). 302 - flag)") auto

declare reg3_poll.simps [simp del]

definition fpgaReg3ResetCheck :: "(nat \<Rightarrow> u16) \<Rightarrow> int" where
  "fpgaReg3ResetCheck st = (if reg3_poll st 0 \<ge> 300 then -1 else 0)"

definition fpgaReg2Reset :: "fpga \<Rightarrow> fpga" where
  "fpgaReg2Reset s =
     (let regValue = fpga_read_16bits FPGA_DDR_REG2 s OR 0x1
      in fpga_write_16bits FPGA_DDR_REG2 (regValue AND NOT 0x1) (fpga_write_16bits FPGA_DDR_REG2 regValue s))"

definition fpgaDdrChipSelection :: "bool \<Rightarrow> fpga \<Rightarrow> fpga" where
  "fpgaDdrChipSelection bSelected = fpga_modify FPGA_DDR_REG2 (if bSelected then clear_bit16 7 else set_bit16 7)"

record ddr_buffer =
  db_ddrCs :: u8
  db_hResolution :: u16
  db_pictureNo :: u8
  db_pictureSize :: u8
  db_pictureType :: u8

definition PICTURE_TYPE_JPG :: u8 where "PICTURE_TYPE_JPG = 1"

definition completion :: "u16 \<Rightarrow> u16" where
  "completion hRes = (let c = 32 - (hRes mod 32) in if c = 32 then 0 else c)"

definition fpgaPictureDownloadConfig :: "(nat \<Rightarrow> u16) \<Rightarrow> ddr_buffer \<Rightarrow> fpga \<Rightarrow> fpga \<times> int" where
  "fpgaPictureDownloadConfig st info s0 =
     (if fpgaReg3ResetCheck st \<noteq> 0 then (s0, -1)
      else
      let s1 = fpga_modify FPGA_DDR_REG3B
                 (if db_pictureType info = PICTURE_TYPE_JPG then set_bit16 12 else set_bit16 13) s0
      in if db_ddrCs info = 0 then
           let s2 = fpga_write_16bits FPGA_DDR_REG13 (completion (db_hResolution info)) s1;
               s3 = fpgaDdrChipSelection True s2;
               s4 = fpga_write_16bits FPGA_DDR_REG5
                      (ucast (db_pictureNo info) OR push_bit 8 (ucast (db_pictureSize info))) s3
           in (fpgaReg2Reset s4, 0)
         else (fpgaDdrChipSelection False (fpgaReg2Reset s1), 0))"

text \<open>Polls of the clock: the first read, then up to 65536 more.\<close>

function freq_poll :: "(nat \<Rightarrow> u16) \<Rightarrow> nat \<Rightarrow> bool" where
  "freq_poll st tmp =
     (if bit (st tmp) 4 then True else if tmp + 1 > 0xffff then False else freq_poll st (tmp + 1))"
  by pat_completeness auto
termination by (relation "measure (\<lambda>(st, tmp). 0x10000 - tmp)") auto

declare freq_poll.simps [simp del]

definition fpgaFreqSet :: "(nat \<Rightarrow> u16) \<Rightarrow> u8 \<Rightarrow> u8 \<Rightarrow> u8 \<Rightarrow> fpga \<Rightarrow> fpga \<times> int" where
  "fpgaFreqSet st d0 m d1 s0 =
     (let s1 = fpga_write_16bits FPGA_DDR_REG26 (push_bit 8 (ucast d1) OR ucast m) s0;
          s2 = fpga_write_16bits FPGA_DDR_REG27 (push_bit 8 (ucast d0)) s1
      in if \<not> freq_poll st 0 then (s2, 1)
         else let s3 = fpga_modify FPGA_DDR_REG2 (\<lambda>v. v OR (push_bit 9 1 OR push_bit 11 1)) s2
              in (fpga_modify FPGA_DDR_REG2 (\<lambda>v. v AND NOT (push_bit 9 1 OR push_bit 11 1)) s3, 0))"

text \<open>Sending a picture of \<open>needBytes\<close> bytes: \<open>snd k n\<close> is what the \<open>k\<close>-th burst write of \<open>n\<close>
  bytes returns. A write that starts at \<open>off\<close> and leaves the block is \<open>None\<close>. The number of
  bytes still needed is never changed in the loop.\<close>

definition MAX_SIZE :: int where "MAX_SIZE = 320 * 1024"
definition SIZE_1_MB :: int where "SIZE_1_MB = 1024 * 1024"

partial_function (option) trans_loop :: "(nat \<Rightarrow> int \<Rightarrow> int) \<Rightarrow> int \<Rightarrow> int \<Rightarrow> int \<Rightarrow> nat \<Rightarrow> int option" where
  "trans_loop w needBytes off onceTransmitSize k =
     (if onceTransmitSize > 0 then
        if off + onceTransmitSize > needBytes then None
        else if w k onceTransmitSize < 0 then Some (-2)
        else trans_loop w needBytes (off + w k onceTransmitSize) (onceTransmitSize - w k onceTransmitSize) (k + 1)
      else if needBytes > 0
      then trans_loop w needBytes off (if needBytes > MAX_SIZE then MAX_SIZE else needBytes) k
      else Some 0)"

definition fpgaTransPicData :: "(nat \<Rightarrow> int \<Rightarrow> int) \<Rightarrow> int \<Rightarrow> int \<Rightarrow> int option" where
  "fpgaTransPicData w fileSize dataSize =
     (let needBytes = (if fileSize > dataSize * SIZE_1_MB then fileSize else dataSize * SIZE_1_MB)
      in trans_loop w needBytes 0 0 0)"

section \<open>Registers after the operations\<close>

lemma read_write [simp]:
  "fpga_read_16bits r (fpga_write_16bits r' v s) = (if r = r' then v else fpga_read_16bits r s)"
  by (simp add: fpga_read_16bits_def fpga_write_16bits_def)

lemma read_modify [simp]:
  "fpga_read_16bits r (fpga_modify r' f s) = (if r = r' then f (fpga_read_16bits r s) else fpga_read_16bits r s)"
  by (simp add: fpga_modify_def)

lemma bit_set [simp]: "bit (set_bit16 n v) i \<longleftrightarrow> bit v i \<or> i = n \<and> n < 16"
  by (auto simp: set_bit16_def bit_simps)

lemma bit_clear [simp]: "bit (clear_bit16 n v) i \<longleftrightarrow> bit v i \<and> i \<noteq> n"
  by (auto simp: clear_bit16_def bit_simps dest: bit_imp_le_length)

text \<open>What the bits of register 1 mean.\<close>

record signal_format =
  sf_bits :: "bool \<times> bool"
  sf_link :: "bool \<times> bool"
  sf_de :: bool
  sf_h :: bool
  sf_v :: bool
  sf_jeda :: bool
  sf_modes :: "(bool \<times> bool) list"

definition decode_reg1 :: "u16 \<Rightarrow> signal_format" where
  "decode_reg1 v = \<lparr>sf_bits = (bit v 1, bit v 0), sf_link = (bit v 3, bit v 2), sf_de = bit v 4,
     sf_h = bit v 5, sf_v = bit v 6, sf_jeda = bit v 7,
     sf_modes = map (\<lambda>i. (bit v (9 + 2 * i), bit v (8 + 2 * i))) [0..<4]\<rparr>"

definition signal_of :: "fpga \<Rightarrow> signal_format" where
  "signal_of s = decode_reg1 (fpga_read_16bits FPGA_DDR_REG1 s)"

definition low2 :: "u8 \<Rightarrow> bool \<times> bool" where "low2 b = (bit b 1, bit b 0)"

lemma upt4: "[0..<4] = [0, 1, 2, 3 :: nat]"
  by (simp add: upt_rec)

lemma signal_ops:
  "signal_of (fpgaLinkSet mode s) = (signal_of s)\<lparr>sf_link := (mode = 4, mode \<noteq> 1)\<rparr>"
  "signal_of (fpgaBitSet bits s) = (signal_of s)\<lparr>sf_bits := (bits \<noteq> 6, bits \<noteq> 8)\<rparr>"
  "signal_of (fpgaVesaJedaSwitch j s) = (signal_of s)\<lparr>sf_jeda := (j = 1)\<rparr>"
  "signal_of (fpgaSignalSyncLevel l s)
    = (signal_of s)\<lparr>sf_de := (sl_de l \<noteq> 0), sf_h := (sl_h l \<noteq> 0), sf_v := (sl_h l \<noteq> 0)\<rparr>"
  "signal_of (fpgaSignalModeSet m s)
    = (signal_of s)\<lparr>sf_modes := map low2 [sm_link0 m, sm_link1 m, sm_link2 m, sm_link3 m]\<rparr>"
proof -
  show "signal_of (fpgaLinkSet mode s) = (signal_of s)\<lparr>sf_link := (mode = 4, mode \<noteq> 1)\<rparr>"
    by (simp add: signal_of_def fpgaLinkSet_def decode_reg1_def upt4)
  show "signal_of (fpgaBitSet bits s) = (signal_of s)\<lparr>sf_bits := (bits \<noteq> 6, bits \<noteq> 8)\<rparr>"
    by (simp add: signal_of_def fpgaBitSet_def decode_reg1_def upt4 VBIT10_def bit_simps)
  show "signal_of (fpgaVesaJedaSwitch j s) = (signal_of s)\<lparr>sf_jeda := (j = 1)\<rparr>"
    by (simp add: signal_of_def fpgaVesaJedaSwitch_def JEDA_def decode_reg1_def upt4)
  show "signal_of (fpgaSignalSyncLevel l s)
    = (signal_of s)\<lparr>sf_de := (sl_de l \<noteq> 0), sf_h := (sl_h l \<noteq> 0), sf_v := (sl_h l \<noteq> 0)\<rparr>"
    by (simp add: signal_of_def fpgaSignalSyncLevel_def decode_reg1_def upt4)
  show "signal_of (fpgaSignalModeSet m s)
    = (signal_of s)\<lparr>sf_modes := map low2 [sm_link0 m, sm_link1 m, sm_link2 m, sm_link3 m]\<rparr>"
    by (simp add: signal_of_def fpgaSignalModeSet_def decode_reg1_def upt4 low2_def bit_simps)
qed

section \<open>Properties\<close>

lemma unat_push_small: "unat (push_bit n (w :: u16)) = unat w * 2 ^ n" if "unat w * 2 ^ n < 2 ^ 16"
proof -
  have "unat (push_bit n w) = take_bit 16 (push_bit n (unat w))" by (simp add: unsigned_push_bit_eq)
  also have "\<dots> = unat w * 2 ^ n" using that by (simp add: push_bit_eq_mult take_bit_nat_eq_self)
  finally show ?thesis .
qed

text \<open>The colour registers read as one 32-bit number.\<close>

definition rgb_value :: "fpga \<Rightarrow> nat" where
  "rgb_value s = 65536 * unat (fpga_read_16bits FPGA_DDR_REG10 s) + unat (fpga_read_16bits FPGA_DDR_REG11 s)"

lemma rgb_packed:
  assumes "unat r < 1024" "unat g < 1024" "unat b < 1024"
  shows "rgb_value (fpgaShowRgb r g b s) = 4 * unat r + 4096 * unat g + 4194304 * unat b"
proof -
  have lo: "unat (push_bit 12 g) = 4096 * (unat g mod 16)"
    unfolding unsigned_push_bit_eq using mult_mod_right [of 4096 "unat g" 16]
    by (simp add: push_bit_eq_mult take_bit_eq_mod mult.commute)
  have r: "unat (push_bit 2 r) = unat r * 2 ^ 2" by (rule unat_push_small) (use assms(1) in simp)
  have b: "unat (push_bit 6 b) = unat b * 2 ^ 6" by (rule unat_push_small) (use assms(3) in simp)
  have hi: "unat (drop_bit 4 g) = unat g div 16" unfolding unat_drop_bit_eq by (simp add: drop_bit_eq_div)
  have "unat (push_bit 2 r + push_bit 12 g) = unat r * 4 + 4096 * (unat g mod 16)"
    unfolding r [simplified, symmetric] lo [symmetric]
    by (rule unat_add_exact) (use assms(1) r lo in simp)
  moreover have "unat (push_bit 6 b + drop_bit 4 g) = unat b * 64 + unat g div 16"
  proof -
    have "unat b * 64 + unat g div 16 < 65536" using assms(2,3) by linarith
    then have "unat (push_bit 6 b) + unat (drop_bit 4 g) < 2 ^ LENGTH(16)" unfolding b hi by simp
    then have "unat (push_bit 6 b + drop_bit 4 g) = unat (push_bit 6 b) + unat (drop_bit 4 g)"
      by (rule unat_add_exact)
    then show ?thesis using b hi by simp
  qed
  moreover have "65536 * (unat g div 16) + 4096 * (unat g mod 16) = 4096 * unat g"
    using mult_div_mod_eq [of 16 "unat g"] by linarith
  ultimately show ?thesis
    by (simp add: rgb_value_def fpgaShowRgb_def Let_def fpga_reg_defs)
qed

lemma rgb_fields:
  fixes a b c :: nat
  assumes "a < 1024" "b < 1024"
  shows "(4 * a + 4096 * b + 4194304 * c) div 4 mod 1024 = a"
    "(4 * a + 4096 * b + 4194304 * c) div 4096 mod 1024 = b"
    "(4 * a + 4096 * b + 4194304 * c) div 4194304 = c"
proof -
  have e: "4 * a + 4096 * b + 4194304 * c = 4 * (a + 1024 * (b + 1024 * c))" by simp
  have d: "(4 * a + 4096 * b + 4194304 * c) div 4 = a + 1024 * (b + 1024 * c)" unfolding e by simp
  then show "(4 * a + 4096 * b + 4194304 * c) div 4 mod 1024 = a"
    using assms(1) by (metis mod_less mod_mult_self2)
  have f: "(4 * a + 4096 * b + 4194304 * c) div 4096 = b + 1024 * c"
    using d assms(1) div_mult2_eq [of "4 * a + 4096 * b + 4194304 * c" 4 1024] by simp
  then show "(4 * a + 4096 * b + 4194304 * c) div 4096 mod 1024 = b" using assms(2) by simp
  show "(4 * a + 4096 * b + 4194304 * c) div 4194304 = c"
    using f assms(2) div_mult2_eq [of "4 * a + 4096 * b + 4194304 * c" 4096 1024] by simp
qed

text \<open>
  fpgaShowRgb lays the ten-bit components over two registers so that each reads back from its
  own bits.
\<close>

theorem shown_colour_reads_back:
  assumes "unat r < 1024" "unat g < 1024" "unat b < 1024"
  shows "rgb_value (fpgaShowRgb r g b s) div 4 mod 1024 = unat r
    \<and> rgb_value (fpgaShowRgb r g b s) div 4096 mod 1024 = unat g
    \<and> rgb_value (fpgaShowRgb r g b s) div 4194304 = unat b
    \<and> bit (fpga_read_16bits FPGA_DDR_REG2 (fpgaShowRgb r g b s)) 10"
proof -
  have "bit (fpga_read_16bits FPGA_DDR_REG2 (fpgaShowRgb r g b s)) 10"
    by (simp add: fpgaShowRgb_def Let_def fpga_reg_defs)
  then show ?thesis unfolding rgb_packed [OF assms] using rgb_fields [OF assms(1,2)] by simp
qed

text \<open>The registers after power-up.\<close>

definition fpga_zero :: fpga where "fpga_zero = \<lparr>fp_regs = (\<lambda>_. 0), fp_wide = (\<lambda>_. 0), fp_log = []\<rparr>"

lemma shown_colour_reads_back_witness:
  "rgb_value (fpgaShowRgb 1023 5 512 fpga_zero) div 4 mod 1024 = 1023
   \<and> rgb_value (fpgaShowRgb 1023 5 512 fpga_zero) div 4096 mod 1024 = 5"
  using shown_colour_reads_back [of 1023 5 512 fpga_zero] by simp

text \<open>
  fpgaShowPicture writes number and size of the picture, changes exactly its four bits of
  register 2, and ends with a pulse on bit 11 after the number was written.
\<close>

theorem picture_is_shown_with_a_pulse:
  "fpga_read_16bits FPGA_DDR_REG4 (fpgaShowPicture p z s) = (p AND 0xff) OR push_bit 8 (z AND 0xff)
   \<and> (\<forall>i. bit (fpga_read_16bits FPGA_DDR_REG2 (fpgaShowPicture p z s)) i
        \<longleftrightarrow> (if i = 5 \<or> i = 15 then True else if i = 10 \<or> i = 11 then False
             else bit (fpga_read_16bits FPGA_DDR_REG2 s) i))
   \<and> \<not> bit (fpga_read_16bits FPGA_DDR_REG3B (fpgaShowPicture p z s)) 1
   \<and> (\<exists>v w pre. fp_log (fpgaShowPicture p z s) = fp_log s @ pre @ [(FPGA_DDR_REG2, v), (FPGA_DDR_REG2, w)]
        \<and> bit v 11 \<and> \<not> bit w 11 \<and> (FPGA_DDR_REG4, (p AND 0xff) OR push_bit 8 (z AND 0xff)) \<in> set pre)"
  by (auto simp: fpgaShowPicture_def Let_def fpga_reg_defs fpga_modify_def fpga_write_16bits_def
      fpga_read_16bits_def bit_simps)

text \<open>
  The colour of the text beside the cursor does not depend on the green and blue components of
  the cursor.
\<close>

theorem text_colour_ignores_green_and_blue:
  assumes "unat (cs_green (cursor_colors c)) < 4096"
  shows "cc_wordColor (cursor_info c) = (NOT (ucast (cs_red (cursor_colors c))) AND 0x3fc) OR 0x3fcff000"
proof -
  let ?g = "ucast (cs_green (cursor_colors c)) :: u32" and ?b = "ucast (cs_blue (cursor_colors c)) :: u32"
  have g: "\<not> bit (cs_green (cursor_colors c)) n" if "12 \<le> n" for n
  proof -
    have "unat (cs_green (cursor_colors c)) < 2 ^ n" using assms power_increasing [OF that, of "2 :: nat"] by simp
    then have "\<not> bit (unat (cs_green (cursor_colors c))) n" by (simp add: bit_iff_odd)
    then show ?thesis by (auto simp: bit_unsigned_iff dest: bit_imp_le_length)
  qed
  have "(NOT ?g AND push_bit 12 0xff) = push_bit 12 0xff"
  proof (rule bit_word_eqI)
    fix n assume "n < LENGTH(32)"
    then show "bit (NOT ?g AND push_bit 12 0xff) n \<longleftrightarrow> bit (push_bit 12 0xff :: u32) n"
      unfolding bit_and_iff bit_push_bit_iff using g [of n] by (auto simp: bit_not_iff bit_ucast_iff)
  qed
  moreover have "(NOT ?b AND push_bit 22 0xff) = push_bit 22 0xff"
  proof (rule bit_word_eqI)
    fix n assume "n < LENGTH(32)"
    then show "bit (NOT ?b AND push_bit 22 0xff) n \<longleftrightarrow> bit (push_bit 22 0xff :: u32) n"
      unfolding bit_and_iff bit_push_bit_iff by (auto simp: bit_not_iff bit_ucast_iff dest: bit_imp_le_length)
  qed
  ultimately show ?thesis
    by (simp add: cursor_info_def Let_def or.assoc push_bit_eq_mult)
qed


lemma text_colour_ignores_green_and_blue_witness:
  "cc_wordColor (cursor_info \<lparr>cs_enable = True, cs_x = 5, cs_y = 6, cs_red = 0, cs_green = 1000, cs_blue = 700,
      cs_RGBchang = 0, cs_startCoordinate = 0\<rparr>) = 0x3fcff3fc"
  using text_colour_ignores_green_and_blue [of "\<lparr>cs_enable = True, cs_x = 5, cs_y = 6, cs_red = 0, cs_green = 1000, cs_blue = 700,
      cs_RGBchang = 0, cs_startCoordinate = 0\<rparr>"]
  by (simp add: cursor_colors_def)

lemma trans_never_ok:
  assumes "trans_loop w needBytes off once k = Some r" "0 < needBytes"
  shows "r = -2"
proof -
  have "0 < needBytes \<longrightarrow> r = -2"
    by (rule trans_loop.raw_induct [where P = "\<lambda>w n off once k r. 0 < n \<longrightarrow> r = -2", OF _ assms(1)])
      (auto split: if_splits)
  then show ?thesis using assms(2) by blast
qed

text \<open>
  fpgaTransPicData never returns success for a picture of positive size, whatever the burst
  writes return: it reports an error, or reads past its block, or does not end.
\<close>

theorem picture_transfer_never_succeeds:
  assumes "0 < fileSize \<or> 0 < dataSize"
  shows "fpgaTransPicData w fileSize dataSize \<noteq> Some 0"
proof
  assume "fpgaTransPicData w fileSize dataSize = Some 0"
  moreover have "0 < (if fileSize > dataSize * SIZE_1_MB then fileSize else dataSize * SIZE_1_MB)"
    using assms by (auto simp: SIZE_1_MB_def)
  ultimately show False
    using trans_never_ok by (fastforce simp: fpgaTransPicData_def Let_def)
qed

lemma picture_transfer_never_succeeds_witness: "fpgaTransPicData (\<lambda>k n. n) 100 8 \<noteq> Some 0"
  using picture_transfer_never_succeeds [of 100 8] by simp

lemma reset_check_st:
  "fpgaReg3ResetCheck st = 0 \<longleftrightarrow> (\<exists>i < 300. bit (st i) 0)" and reg3_poll_bound: "reg3_poll st 0 \<le> 302"
proof -
  have *: "flag \<le> 301 \<Longrightarrow> reg3_poll st flag \<le> 302 \<and> flag \<le> reg3_poll st flag
      \<and> (reg3_poll st flag < 300 \<longleftrightarrow> (\<exists>i. flag \<le> i \<and> i < 300 \<and> bit (st i) 0))" for flag
  proof (induction "301 - flag" arbitrary: flag)
    case 0
    then show ?case by (subst (1 2 3) reg3_poll.simps) auto
  next
    case (Suc n)
    have low: "st flag AND 1 \<noteq> 0 \<longleftrightarrow> bit (st flag) 0"
      by (auto simp: and_one_eq bit_0 mod_2_eq_odd)
    show ?case
    proof (cases "bit (st flag) 0")
      case True
      then show ?thesis using Suc.prems low by (subst (1 2 3) reg3_poll.simps) auto
    next
      case False
      have "\<not> 300 < flag" using Suc.hyps(2) by linarith
      have "reg3_poll st flag = reg3_poll st (flag + 1)"
        using False low \<open>\<not> 300 < flag\<close> by (subst reg3_poll.simps) simp
      moreover have "(\<exists>i. flag \<le> i \<and> i < 300 \<and> bit (st i) 0) \<longleftrightarrow> (\<exists>i. flag + 1 \<le> i \<and> i < 300 \<and> bit (st i) 0)"
        using False by (metis Suc_eq_plus1 Suc_leD Suc_leI le_neq_implies_less)
      moreover have "n = 301 - (flag + 1)" "flag + 1 \<le> 301" using Suc.hyps(2) by linarith+
      ultimately show ?thesis using Suc.hyps(1) [of "flag + 1"] by auto
    qed
  qed
  show "fpgaReg3ResetCheck st = 0 \<longleftrightarrow> (\<exists>i < 300. bit (st i) 0)" "reg3_poll st 0 \<le> 302"
    using * [of 0] by (auto simp: fpgaReg3ResetCheck_def)
qed

lemma completion_fills:
  "unat (completion h) < 32 \<and> (unat h + unat (completion h)) mod 32 = 0"
proof -
  have m: "unat (h mod 32) = unat h mod 32" by (simp add: unat_mod)
  then have l: "unat (h mod 32) < 32" by simp
  then have "h mod 32 \<le> 32" by (simp add: word_le_nat_alt)
  then have c: "unat (32 - h mod 32) = 32 - unat h mod 32" by (simp add: unat_sub m)
  have "(32 - h mod 32 = 32) \<longleftrightarrow> unat (32 - h mod 32) = unat (32 :: u16)"
    by (rule iffI, simp only:, rule unsigned_word_eqI)
  also have "\<dots> \<longleftrightarrow> 32 - unat h mod 32 = 32" unfolding c by simp
  also have "\<dots> \<longleftrightarrow> unat h mod 32 = 0" by linarith
  finally have z: "(32 - h mod 32 = 32) \<longleftrightarrow> unat h mod 32 = 0" .
  have "(unat h + (32 - unat h mod 32)) mod 32 = 0" by presburger
  then show ?thesis using c z l m by (cases "unat h mod 32 = 0") (simp_all only: completion_def Let_def z c simp_thms if_True if_False, simp_all)
qed

text \<open>
  fpgaPictureDownloadConfig fails and changes nothing exactly when none of the first 300 polls
  shows the memory ready; otherwise the write reset is released, the memory is selected, and
  for the first memory the line is completed to a multiple of 32.
\<close>

theorem download_config_outcomes:
  assumes "fpgaPictureDownloadConfig st info s = (s', r)"
  shows "r = -1 \<and> s' = s \<and> (\<forall>i < 300. \<not> bit (st i) 0)
    \<or> r = 0 \<and> (\<exists>i < 300. bit (st i) 0) \<and> \<not> bit (fpga_read_16bits FPGA_DDR_REG2 s') 0
       \<and> (bit (fpga_read_16bits FPGA_DDR_REG2 s') 7 \<longleftrightarrow> db_ddrCs info \<noteq> 0)
       \<and> (db_ddrCs info = 0 \<longrightarrow> fpga_read_16bits FPGA_DDR_REG13 s' = completion (db_hResolution info)
            \<and> (unat (db_hResolution info) + unat (fpga_read_16bits FPGA_DDR_REG13 s')) mod 32 = 0)"
proof (cases "\<exists>i < 300. bit (st i) 0")
  case True
  then have "fpgaReg3ResetCheck st = 0" using reset_check_st by blast
  then show ?thesis using assms True completion_fills [of "db_hResolution info"]
    by (auto simp: fpgaPictureDownloadConfig_def Let_def fpgaReg2Reset_def fpgaDdrChipSelection_def fpga_reg_defs
        bit_and_iff bit_not_iff bit_or_iff split: if_splits)
next
  case False
  then have "fpgaReg3ResetCheck st = -1" using reset_check_st [of st] by (auto simp: fpgaReg3ResetCheck_def)
  then show ?thesis using assms False by (simp add: fpgaPictureDownloadConfig_def)
qed

lemma download_config_outcomes_witness:
  "unat (fpga_read_16bits FPGA_DDR_REG13 (fst (fpgaPictureDownloadConfig (\<lambda>_. 1) \<lparr>db_ddrCs = 0, db_hResolution = 1366,
      db_pictureNo = 2, db_pictureSize = 5, db_pictureType = 0\<rparr> fpga_zero))) = 10"
proof -
  let ?i = "\<lparr>db_ddrCs = 0, db_hResolution = 1366, db_pictureNo = 2, db_pictureSize = 5, db_pictureType = 0\<rparr>"
  from download_config_outcomes [of "\<lambda>_. 1" ?i fpga_zero, OF surjective_pairing]
  have "fpga_read_16bits FPGA_DDR_REG13 (fst (fpgaPictureDownloadConfig (\<lambda>_. 1) ?i fpga_zero)) = completion 1366"
    by (auto simp: bit_1_iff dest: spec [of _ 0])
  then show ?thesis by (simp add: completion_def Let_def)
qed

end
