(* ===== verification/PgControl.thy ===== *)
theory PgControl
  imports Timing Fpga OpenShort Clock5338 LittleEndian "HOL-Library.Signed_Division"
begin

text \<open>
  Switching a panel on and off, \<open>clipg.c\<close>: the signal timing of a module (the part of
  \<open>load_cur_module\<close> that programs clock and display logic), the order in which the control pins
  are switched, and \<open>client_pg_shutON\<close>. The calls of the other components are a trace; the open
  and short test is the one of \<open>OpenShort\<close>, clock and display logic are those of \<open>Clock5338\<close> and
  \<open>Fpga\<close>. Times are milliseconds.
\<close>

section \<open>Signal timing\<close>

definition get_module_res :: "timing_info \<Rightarrow> int \<times> int" where
  "get_module_res t = (timhactivetime t, timvactivetime t)"

text \<open>\<open>None\<close> is a division by a link number of 0.\<close>

definition initFpgaOutputPictureTiming :: "timing_info \<Rightarrow> fpga_seq option" where
  "initFpgaOutputPictureTiming t =
     (let m = timsignalmode t
      in if m = 0 then None else Some
       \<lparr>T0 = word_of_int ((timhbackporch t + timhsyncpulsewidth t + timhactivetime t) sdiv m),
        T1 = word_of_int (timhsyncpulsewidth t sdiv m),
        T2 = word_of_int ((timhsyncpulsewidth t + timhbackporch t) sdiv m),
        T3 = word_of_int ((timhbackporch t + timhsyncpulsewidth t + timhfrontporch t + timhactivetime t) sdiv m),
        T4 = word_of_int (timvbackporch t + timvsyncpulsewidth t + timvactivetime t),
        T5 = word_of_int (timvsyncpulsewidth t),
        T6 = word_of_int (timvbackporch t + timvsyncpulsewidth t),
        T7 = word_of_int (timvbackporch t + timvsyncpulsewidth t + timvfrontporch t + timvactivetime t)\<rparr>)"



section \<open>Control pins\<close>

datatype pg_action =
    SetPin nat int
  | Sleep int
  | BoxPowerOnMsg
  | OpenShortTest "os_action list"
  | BoxOpenShortDown
  | PwrSetState bool int
  | ShowPtn int
  | Fpga16 nat u16
  | Fpga32 nat u32
  | SndInitCode nat
  | Sp6OpenLvds | Sp6CloseLvds | Sp6OpenTtl | Sp6CloseTtl
  | Sp6Write nat u8
  | VcomMax u32 | VcomVolt u32 | VcomEnable int
  | MipiOpen int | MipiClose
  | NtcPause bool
  | RebackPower int
  | NotifyPowerOnOk | NotifyPowerDown
  | BoxPowerOnEnd | BoxPowerDown

text \<open>The five delays with the pins of both sides they belong to.\<close>

record pin_delays =
  pd_ud :: int
  pd_lr :: int
  pd_mode :: int
  pd_stby :: int
  pd_rst :: int

definition pin_table :: "pin_delays \<Rightarrow> (int \<times> nat list) list" where
  "pin_table d = [(pd_ud d, [54, 61]), (pd_lr d, [56, 63]), (pd_mode d, [60, 72]), (pd_stby d, [57, 64]),
     (pd_rst d, [11, 10])]"

definition bool_int :: "bool \<Rightarrow> int" where "bool_int b = (if b then 1 else 0)"

function delay_loop :: "bool \<Rightarrow> (int \<times> nat list) list \<Rightarrow> int \<Rightarrow> pg_action list" where
  "delay_loop bOn ds deadLine =
     concat (map (\<lambda>(t, pins). if t = deadLine then map (\<lambda>p. SetPin p (bool_int bOn)) pins else []) ds) @ [Sleep 1]
     @ (if list_all (\<lambda>(t, pins). t < deadLine + 1) ds then [] else delay_loop bOn ds (deadLine + 1))"
  by pat_completeness auto
termination
proof (relation "measure (\<lambda>(b, ds, dl). nat (Max (insert 0 (fst ` set ds)) - dl))")
  fix bOn ds and deadLine :: int
  assume "\<not> list_all (\<lambda>(t, pins :: nat list). t < deadLine + 1) ds"
  then obtain t where "t \<in> fst ` set ds" "deadLine + 1 \<le> t" by (force simp: list_all_iff not_less)
  moreover have "t \<le> Max (insert 0 (fst ` set ds))" using \<open>t \<in> fst ` set ds\<close> by (intro Max_ge) auto
  ultimately have "deadLine < Max (insert 0 (fst ` set ds))" by linarith
  then show "((bOn, ds, deadLine + 1), bOn, ds, deadLine) \<in> measure (\<lambda>(b, ds, dl). nat (Max (insert 0 (fst ` set ds)) - dl))"
    by simp
qed simp

declare delay_loop.simps [simp del]

definition doIcNonePowerTiming :: "bool \<Rightarrow> pin_delays \<Rightarrow> pg_action list" where
  "doIcNonePowerTiming bOn d =
     [Sleep 55]
     @ (if bOn then map (\<lambda>p. SetPin p 0) ([channel_enable 0] @ channel_gpios 0 @ [channel_enable 1] @ channel_gpios 1) else [])
     @ delay_loop bOn (pin_table d) 0
     @ (if bOn then [] else [SetPin (channel_enable 0) 1, SetPin (channel_enable 1) 1])"

section \<open>Power on and off\<close>

record pg_cfg =
  pg_timing :: timing_info
  pg_open :: pin_delays
  pg_close :: pin_delays
  pg_open_short_enable :: bool
  pg_ntc_enable :: bool
  pg_monitor :: monitor_cfg
  pg_vcom_max :: u32
  pg_vcom_set :: u32

record pg_state =
  pg_pwr_status :: int
  pg_cur_ptnId :: int

definition set_vcom_volta :: "u32 \<Rightarrow> u32 \<Rightarrow> pg_action list" where
  "set_vcom_volta maxLimit volta =
     [VcomMax maxLimit, Sleep 10, VcomVolt volta, Sleep 10, VcomEnable (if volta > 0 then 1 else 0)]"

text \<open>\<open>mode\<close> is register \<open>0x29\<close> of the second logic chip.\<close>

definition initTtlOrLvdsFpgaTiming :: "u8 \<Rightarrow> timing_info \<Rightarrow> pg_action list option" where
  "initTtlOrLvdsFpgaTiming mode t =
     (if timMainFreq t > 19 * 1000 then Some [Sp6Write 0x29 (mode AND NOT (push_bit 5 1))]
      else case initFpgaOutputPictureTiming t of None \<Rightarrow> None
        | Some q \<Rightarrow> Some (Sp6Write 0x29 (mode OR push_bit 5 1)
            # concat (map (\<lambda>(a, v). [Sp6Write a (ucast v), Sp6Write (a + 1) (ucast (drop_bit 8 v))])
                [(0x2b, T0 q), (0x2d, T1 q), (0x2f, T2 q), (0x31, T3 q), (0x33, T4 q), (0x35, T5 q),
                 (0x37, T6 q), (0x39, T7 q)])))"

definition lvds_signal_interface_init :: "u8 \<Rightarrow> timing_info \<Rightarrow> pg_action list option" where
  "lvds_signal_interface_init mode t =
     map_option (\<lambda>a. a @ [Fpga32 0xa9 0x14, Sleep 2, Fpga32 0xa9 0x10, Fpga32 0x56 0])
       (initTtlOrLvdsFpgaTiming mode t)"

definition mipi_siganl_interface_init :: "pg_action list" where
  "mipi_siganl_interface_init =
     [SetPin 7 1, SetPin 74 0, Sleep 10, SetPin 74 1, Fpga32 0xa9 0x12, Sleep 2, Fpga32 0xa9 0x10, Fpga32 0x56 0]"

definition FPGA_CLOCK_REGA8 :: nat where "FPGA_CLOCK_REGA8 = 0x150"

definition E_SIGNAL_TYPE_LVDS :: int where "E_SIGNAL_TYPE_LVDS = 0"
definition E_SIGNAL_TYPE_EDP :: int where "E_SIGNAL_TYPE_EDP = 1"
definition E_SIGNAL_TYPE_MIPI :: int where "E_SIGNAL_TYPE_MIPI = 2"
definition E_SIGNAL_TYPE_TTL :: int where "E_SIGNAL_TYPE_TTL = 4"

definition PWR_CHANNEL_ALL :: int where "PWR_CHANNEL_ALL = 1"

text \<open>The part of \<open>client_pg_shutON\<close> for one kind of signal; \<open>None\<close> inside is the kind the code
  does not know. The outer \<open>None\<close> is a division by 0.\<close>

definition signal_start :: "u8 \<Rightarrow> int \<Rightarrow> pg_cfg \<Rightarrow> pg_action list option option" where
  "signal_start mode channel c =
     (let t = pg_timing c; ty = timsignaltype t;
          vcom = set_vcom_volta (pg_vcom_max c) (pg_vcom_set c)
      in if ty = E_SIGNAL_TYPE_EDP then Some (Some (Fpga16 FPGA_CLOCK_REGA8 1 # map SndInitCode [0, 1, 2, 3]))
         else if ty = E_SIGNAL_TYPE_MIPI
         then Some (Some (mipi_siganl_interface_init @ [MipiOpen channel, Fpga16 FPGA_CLOCK_REGA8 2]
                     @ map SndInitCode [0, 1, 2, 3]))
         else if ty = E_SIGNAL_TYPE_LVDS
         then map_option (\<lambda>a. Some ([Sp6OpenLvds] @ a @ vcom @ [Fpga16 FPGA_CLOCK_REGA8 4] @ map SndInitCode [0, 1]))
                (lvds_signal_interface_init mode t)
         else if ty = E_SIGNAL_TYPE_TTL
         then map_option (\<lambda>a. Some (a @ [Sp6OpenTtl] @ (if pg_ntc_enable c then [NtcPause False] else [])
                    @ vcom @ [Fpga16 FPGA_CLOCK_REGA8 4] @ map SndInitCode [0, 1]))
                (lvds_signal_interface_init mode t)
         else Some None)"

text \<open>\<open>rd\<close> are the measurements of the open and short test, \<open>exists_file\<close> tells whether the module's
  file exists. The result is the state, the return value (\<open>None\<close>: the function returns without
  one) and the calls.\<close>

definition client_pg_shutON ::
  "(nat \<Rightarrow> os_point \<Rightarrow> u16) \<Rightarrow> bool \<Rightarrow> u8 \<Rightarrow> pg_cfg \<Rightarrow> int \<Rightarrow> int \<Rightarrow> pg_state
     \<Rightarrow> (pg_state \<times> int option \<times> pg_action list) option" where
  "client_pg_shutON rd exists_file mode c enable ptn_id s =
    (let ty = timsignaltype (pg_timing c) in
     if enable = 1 then
       let done_ok = [NotifyPowerOnOk, BoxPowerOnEnd] in
       if \<not> exists_file then Some (s, Some 0, done_ok)
       else
         let tested = (ty = E_SIGNAL_TYPE_TTL \<and> pg_open_short_enable c);
             test = open_short_test_singal_and_io rd (pg_monitor c);
             channel = (if tested then fst test else PWR_CHANNEL_ALL);
             a0 = [BoxPowerOnMsg] @ (if tested then [OpenShortTest (snd test)] else [])
         in if tested \<and> channel \<le> 0 then Some (s, Some (-1), a0 @ [BoxOpenShortDown])
            else
              let a1 = a0 @ [PwrSetState True channel] @ doIcNonePowerTiming True (pg_open c) @ [ShowPtn ptn_id];
                  s1 = s\<lparr>pg_cur_ptnId := ptn_id\<rparr>
              in (case signal_start mode channel c of
                    None \<Rightarrow> None
                  | Some None \<Rightarrow> Some (s1, None, a1)
                  | Some (Some a) \<Rightarrow>
                      Some (s1\<lparr>pg_pwr_status := 1\<rparr>, Some 0, a1 @ a @ [RebackPower 1] @ done_ok))
     else
       Some (s\<lparr>pg_pwr_status := 0\<rparr>, Some 0,
         [PwrSetState False PWR_CHANNEL_ALL] @ doIcNonePowerTiming False (pg_close c)
         @ (if pg_ntc_enable c then [NtcPause True] else [])
         @ (if ty = E_SIGNAL_TYPE_LVDS then [Sp6CloseLvds, VcomEnable 0]
            else if ty = E_SIGNAL_TYPE_MIPI then [MipiClose, Fpga32 0xa9 0]
            else if ty = E_SIGNAL_TYPE_TTL then [Sp6CloseTtl, VcomEnable 0] else [])
         @ [Fpga16 FPGA_CLOCK_REGA8 0, Fpga32 0x56 1, RebackPower 0, BoxPowerDown, NotifyPowerDown]))"

section \<open>When pins are switched\<close>

text \<open>The times, counted from \<open>now\<close>, at which a pin is set to a value.\<close>

fun switch_times :: "nat \<Rightarrow> int \<Rightarrow> int \<Rightarrow> pg_action list \<Rightarrow> int list" where
  "switch_times p v now [] = []"
| "switch_times p v now (Sleep n # acts) = switch_times p v (now + n) acts"
| "switch_times p v now (SetPin q w # acts)
    = (if p = q \<and> v = w then now # switch_times p v now acts else switch_times p v now acts)"
| "switch_times p v now (a # acts) = switch_times p v now acts"

fun slept :: "pg_action list \<Rightarrow> int" where
  "slept [] = 0"
| "slept (Sleep n # acts) = n + slept acts"
| "slept (a # acts) = slept acts"

lemma switch_times_append: "switch_times p v now (xs @ ys) = switch_times p v now xs @ switch_times p v (now + slept xs) ys"
  by (induction p v now xs rule: switch_times.induct) (auto simp: algebra_simps)

lemma slept_append [simp]: "slept (xs @ ys) = slept xs + slept ys"
  by (induction xs rule: slept.induct) auto

lemma slept_pins [simp]: "slept (map (\<lambda>q. SetPin q w) pins) = 0"
  by (induction pins) auto

lemma switch_times_pins:
  "switch_times p v now (map (\<lambda>q. SetPin q w) pins) = (if v = w then replicate (count_list pins p) now else [])"
  by (induction pins) auto

text \<open>What one turn of the loop sets.\<close>

definition turn_pins :: "bool \<Rightarrow> (int \<times> nat list) list \<Rightarrow> int \<Rightarrow> pg_action list" where
  "turn_pins b ds dl = concat (map (\<lambda>(t, pins). if t = dl then map (\<lambda>p. SetPin p (bool_int b)) pins else []) ds)"

lemma slept_turn [simp]: "slept (turn_pins b ds dl) = 0"
  by (induction ds) (auto simp: turn_pins_def)

lemma switch_times_turn:
  "switch_times p v now (turn_pins b ds dl)
    = (if v = bool_int b then replicate (count_list (concat (map snd (filter (\<lambda>d. fst d = dl) ds))) p) now else [])"
proof (induction ds)
  case (Cons d ds)
  obtain t pins where "d = (t, pins)" by (cases d)
  with Cons show ?case
    by (cases "v = bool_int b") (simp_all add: turn_pins_def switch_times_append switch_times_pins replicate_add)
qed (simp add: turn_pins_def)

lemma count_list_distinct: "distinct xs \<Longrightarrow> count_list xs p = (if p \<in> set xs then 1 else 0)"
  by (induction xs) auto

lemma count_once:
  assumes "distinct (concat (map snd ds))" "(t, pins) \<in> set ds" "p \<in> set pins"
  shows "count_list (concat (map snd (filter (\<lambda>d. fst d = dl) ds))) p = (if t = dl then 1 else 0)"
  using assms
proof (induction ds)
  case (Cons d ds)
  obtain t' pins' where d: "d = (t', pins')" by (cases d)
  show ?case
  proof (cases "(t, pins) = d")
    case True
    have "p \<notin> set (concat (map snd ds))" using Cons.prems d True by auto
    then have "p \<notin> set (concat (map snd (filter (\<lambda>d. fst d = dl) ds)))" by auto
    then have "count_list (concat (map snd (filter (\<lambda>d. fst d = dl) ds))) p = 0" by (rule count_notin)
    moreover have "count_list pins p = 1"
      using Cons.prems(1,3) d True by (simp add: count_list_distinct)
    ultimately show ?thesis using True d by auto
  next
    case False
    then have ds: "(t, pins) \<in> set ds" using Cons.prems(2) by auto
    then have "p \<in> set (concat (map snd ds))" using Cons.prems(3) by force
    then have "p \<notin> set pins'" using Cons.prems(1) d by auto
    with ds show ?thesis using Cons d by simp
  qed
qed simp

lemma delay_loop_unfold:
  "delay_loop b ds dl = turn_pins b ds dl @ [Sleep 1]
     @ (if list_all (\<lambda>(t, pins). t < dl + 1) ds then [] else delay_loop b ds (dl + 1))"
  by (subst delay_loop.simps) (simp add: turn_pins_def)

lemma loop_switches_once:
  assumes "distinct (concat (map snd ds))" "(t, pins) \<in> set ds" "p \<in> set pins"
  shows "switch_times p (bool_int b) now (delay_loop b ds dl) = (if dl \<le> t then [now + t - dl] else [])"
  using assms
proof (induction b ds dl arbitrary: now rule: delay_loop.induct)
  case (1 b ds dl)
  note count = count_once [OF "1.prems"]
  have here: "switch_times p (bool_int b) now (turn_pins b ds dl) = (if t = dl then [now] else [])"
    by (simp add: switch_times_turn count)
  show ?case
  proof (cases "list_all (\<lambda>(t, pins). t < dl + 1) ds")
    case True
    then have "t < dl + 1" using "1.prems"(2) by (auto simp: list_all_iff)
    then show ?thesis using True here by (subst delay_loop_unfold) (auto simp: switch_times_append)
  next
    case False
    from "1.IH" [OF False "1.prems", of "now + 1"]
    show ?thesis using False here by (subst delay_loop_unfold) (auto simp: switch_times_append)
  qed
qed

lemma loop_other_value: "v \<noteq> bool_int b \<Longrightarrow> switch_times p v now (delay_loop b ds dl) = []"
proof (induction b ds dl arbitrary: now rule: delay_loop.induct)
  case (1 b ds dl)
  then show ?case by (subst delay_loop_unfold) (simp add: switch_times_append switch_times_turn)
qed

lemma pin_table_distinct: "distinct (concat (map snd (pin_table d)))"
  by (simp add: pin_table_def)

section \<open>Properties\<close>

text \<open>
  C19: On power-up every control pin is driven low at once and high exactly once, its delay
  after that, on power-down low exactly once after its delay; a pin with a negative delay is
  never switched, and the loop ends.
\<close>

theorem pins_follow_their_delays:
  assumes "(t, pins) \<in> set (pin_table d)" "p \<in> set pins"
  shows "switch_times p 1 0 (doIcNonePowerTiming True d) = (if 0 \<le> t then [55 + t] else [])
    \<and> switch_times p 0 0 (doIcNonePowerTiming True d) = [55]
    \<and> switch_times p 0 0 (doIcNonePowerTiming False d) = (if 0 \<le> t then [55 + t] else [])
    \<and> switch_times p 1 0 (doIcNonePowerTiming False d) = []"
proof -
  note once = loop_switches_once [OF pin_table_distinct assms]
  have b: "bool_int True = 1" "bool_int False = 0" by (simp_all add: bool_int_def)
  have p: "p \<in> {54, 61, 56, 63, 60, 72, 57, 64, 11, 10}" using assms by (auto simp: pin_table_def)
  have "switch_times p 1 0 (doIcNonePowerTiming True d) = (if 0 \<le> t then [55 + t] else [])"
    using once [of True 55 0] by (simp add: doIcNonePowerTiming_def switch_times_append switch_times_pins b
        switch_times_pins [unfolded list.map] channel_gpios_def channel_enable_def)
  moreover have "switch_times p 0 0 (doIcNonePowerTiming True d) = [55]"
    using loop_other_value [of 0 True p _ "pin_table d" 0] p
    by (auto simp: doIcNonePowerTiming_def switch_times_append b channel_gpios_def channel_enable_def)
  moreover have "switch_times p 0 0 (doIcNonePowerTiming False d) = (if 0 \<le> t then [55 + t] else [])"
    using once [of False 55 0] by (simp add: doIcNonePowerTiming_def switch_times_append b)
  moreover have "switch_times p 1 0 (doIcNonePowerTiming False d) = []"
    using loop_other_value [of 1 False p _ "pin_table d" 0] p
    by (auto simp: doIcNonePowerTiming_def switch_times_append b channel_enable_def)
  ultimately show ?thesis by blast
qed


lemma pins_follow_their_delays_witness:
  "switch_times 11 1 0 (doIcNonePowerTiming True \<lparr>pd_ud = 5, pd_lr = 5, pd_mode = 10, pd_stby = 20, pd_rst = 50\<rparr>) = [105]"
  using pins_follow_their_delays [of 50 "[11, 10]" "\<lparr>pd_ud = 5, pd_lr = 5, pd_mode = 10, pd_stby = 20, pd_rst = 50\<rparr>" 11]
  by (simp add: pin_table_def)

lemma read_fold:
  "fpga_read_16bits r (fold (\<lambda>(r, v). fpga_write_16bits r v) ws s)
    = (case List.find (\<lambda>(q, v). q = r) (rev ws) of None \<Rightarrow> fpga_read_16bits r s | Some (q, v) \<Rightarrow> v)"
proof (induction ws arbitrary: s rule: rev_induct)
  case (snoc w ws)
  then show ?case by (cases w) simp
qed simp







lemma u8_zero: "0 \<le> x \<Longrightarrow> x < 256 \<Longrightarrow> (word_of_int x :: u8) = 0 \<longleftrightarrow> x = 0"
  by (simp add: word_of_int_eq_0_iff zdvd_not_zless) (metis dvd_0_right zdvd_not_zless order_le_less)





text \<open>A panel of 1366 by 768 points, one link, with a main frequency of 75 MHz.\<close>

definition demo_timing :: timing_info where
  "demo_timing = \<lparr>timsignalmode = 1, timbit = 6, timvesajeda = 0, timvsyncpri = 0, timhsyncpri = 0, timde = 1,
     timvtotaltime = 790, timhactivetime = 1366, timhtotaltime = 1526, timhbackporch = 80, timhfrontporch = 48, timhsyncpulsewidth = 32,
     timvactivetime = 768, timvbackporch = 14, timvsyncpulsewidth = 5, timvfrontporch = 3,
     timclockfreq = 60, timMainFreq = 72000, timlink = [1, 2, 3, 4, 5, 6, 7, 8], timsignaltype = 0,
     timmipilanenum = 4, timmipisyncmode = 0, mdlmipidsiclock = 0\<rparr>"



lemma start_no_power:
  "signal_start mode ch c = Some (Some a) \<Longrightarrow> PwrSetState b n \<notin> set a"
  "signal_start mode ch c = Some (Some a) \<Longrightarrow> (\<exists>k. SndInitCode k \<in> set a)"
  by (auto simp: signal_start_def Let_def lvds_signal_interface_init_def initTtlOrLvdsFpgaTiming_def
      set_vcom_volta_def mipi_siganl_interface_init_def split: if_splits option.splits)

lemma pins_no_power: "PwrSetState b n \<notin> set (doIcNonePowerTiming on d)" "SndInitCode k \<notin> set (doIcNonePowerTiming on d)"
proof -
  have "PwrSetState b n \<notin> set (delay_loop on ds dl) \<and> SndInitCode k \<notin> set (delay_loop on ds dl)" for ds dl
  proof (induction on ds dl rule: delay_loop.induct)
    case (1 on ds dl)
    have "PwrSetState b n \<notin> set (turn_pins on ds dl) \<and> SndInitCode k \<notin> set (turn_pins on ds dl)"
      by (auto simp: turn_pins_def split: if_splits)
    with 1 show ?case by (subst (1 2) delay_loop_unfold) auto
  qed
  then show "PwrSetState b n \<notin> set (doIcNonePowerTiming on d)" "SndInitCode k \<notin> set (doIcNonePowerTiming on d)"
    by (auto simp: doIcNonePowerTiming_def)
qed

text \<open>
  C21: A panel is powered on only when its module file exists and, with the open and short
  test enabled on a TTL panel, only on the channels whose pins all passed the test.
\<close>

theorem power_on_needs_a_passed_test:
  assumes "client_pg_shutON rd exists_file mode c 1 ptn s = Some (s', ret, acts)"
    "PwrSetState True ch \<in> set acts"
  shows "exists_file \<and>
    (if timsignaltype (pg_timing c) = E_SIGNAL_TYPE_TTL \<and> pg_open_short_enable c
     then ch = 1 \<and> channel_good rd (pg_monitor c) 0 \<and> channel_good rd (pg_monitor c) 1
        \<or> ch = 2 \<and> channel_good rd (pg_monitor c) 0 \<and> \<not> channel_good rd (pg_monitor c) 1
        \<or> ch = 3 \<and> \<not> channel_good rd (pg_monitor c) 0 \<and> channel_good rd (pg_monitor c) 1
     else ch = 1)"
proof -
  let ?tested = "timsignaltype (pg_timing c) = E_SIGNAL_TYPE_TTL \<and> pg_open_short_enable c"
  let ?ch = "if ?tested then fst (open_short_test_singal_and_io rd (pg_monitor c)) else PWR_CHANNEL_ALL"
  have ex: "exists_file"
  proof (rule ccontr)
    assume "\<not> exists_file"
    then have "acts = [NotifyPowerOnOk, BoxPowerOnEnd]" using assms(1) by (simp add: client_pg_shutON_def)
    then show False using assms(2) by simp
  qed
  have go: "\<not> (?tested \<and> ?ch \<le> 0)"
  proof
    assume "?tested \<and> ?ch \<le> 0"
    then have "acts = [BoxPowerOnMsg, OpenShortTest (snd (open_short_test_singal_and_io rd (pg_monitor c))), BoxOpenShortDown]"
      using assms(1) ex by (simp add: client_pg_shutON_def Let_def split: if_splits)
    then show False using assms(2) by simp
  qed
  have "ch = ?ch"
    using assms ex go start_no_power(1) [of mode ?ch c _ True ch]
    by (auto simp: client_pg_shutON_def Let_def pins_no_power split: if_splits option.splits)
  then show ?thesis using ex go unfolding PWR_CHANNEL_ALL_def verdict_cases by (auto split: if_splits)
qed

text \<open>A TTL panel whose open and short test is enabled, with a good left side.\<close>

definition demo_ttl :: pg_cfg where
  "demo_ttl = \<lparr>pg_timing = demo_timing\<lparr>timsignaltype := 4\<rparr>,
     pg_open = \<lparr>pd_ud = 0, pd_lr = 0, pd_mode = 0, pd_stby = 0, pd_rst = 0\<rparr>,
     pg_close = \<lparr>pd_ud = 0, pd_lr = 0, pd_mode = 0, pd_stby = 0, pd_rst = 0\<rparr>,
     pg_open_short_enable = True, pg_ntc_enable = False, pg_monitor = \<lparr>open_value = 1, short_value = 3\<rparr>,
     pg_vcom_max = 0, pg_vcom_set = 0\<rparr>"

definition demo_rd :: "nat \<Rightarrow> os_point \<Rightarrow> u16" where "demo_rd ch p = (if ch = 0 then 20 else 5)"

lemma demo_left: "channel_good demo_rd \<lparr>open_value = 1, short_value = 3\<rparr> 0" "\<not> channel_good demo_rd \<lparr>open_value = 1, short_value = 3\<rparr> 1"
  by (auto simp: channel_good_def in_range_def demo_rd_def channel_gpios_def list_all_iff intro: exI [of _ "0 :: nat"])

lemma power_on_needs_a_passed_test_witness:
  "\<exists>s' ret acts. client_pg_shutON demo_rd True 0 demo_ttl 1 7 \<lparr>pg_pwr_status = 0, pg_cur_ptnId = 0\<rparr> = Some (s', ret, acts)
     \<and> PwrSetState True 2 \<in> set acts \<and> PwrSetState True 1 \<notin> set acts"
proof -
  have v: "fst (open_short_test_singal_and_io demo_rd \<lparr>open_value = 1, short_value = 3\<rparr>) = 2"
    using demo_left by (simp add: verdict_cases)
  have "\<exists>s' ret acts. client_pg_shutON demo_rd True 0 demo_ttl 1 7 \<lparr>pg_pwr_status = 0, pg_cur_ptnId = 0\<rparr> = Some (s', ret, acts)
     \<and> PwrSetState True 2 \<in> set acts"
    by (simp add: client_pg_shutON_def Let_def demo_ttl_def v E_SIGNAL_TYPE_TTL_def signal_start_def E_SIGNAL_TYPE_EDP_def
        E_SIGNAL_TYPE_MIPI_def E_SIGNAL_TYPE_LVDS_def lvds_signal_interface_init_def initTtlOrLvdsFpgaTiming_def demo_timing_def)
  then obtain s' ret acts where r: "client_pg_shutON demo_rd True 0 demo_ttl 1 7 \<lparr>pg_pwr_status = 0, pg_cur_ptnId = 0\<rparr> = Some (s', ret, acts)"
    "PwrSetState True 2 \<in> set acts" by blast
  have "PwrSetState True 1 \<notin> set acts"
    using power_on_needs_a_passed_test [OF r(1), of 1] demo_left
    by (auto simp: demo_ttl_def demo_timing_def E_SIGNAL_TYPE_TTL_def)
  with r show ?thesis by blast
qed

text \<open>
  Powering on without the module file reports success to the host and powers nothing, and with
  an unknown signal type the panel is left powered and nothing is reported.
\<close>

theorem power_on_failures_go_unnoticed:
  assumes "timsignaltype (pg_timing c) = 3"
  shows "(\<exists>acts. client_pg_shutON rd False mode c 1 ptn s = Some (s, Some 0, acts)
      \<and> NotifyPowerOnOk \<in> set acts \<and> (\<forall>b ch. PwrSetState b ch \<notin> set acts))
    \<and> (\<exists>acts. client_pg_shutON rd True mode c 1 ptn s = Some (s\<lparr>pg_cur_ptnId := ptn\<rparr>, None, acts)
      \<and> PwrSetState True 1 \<in> set acts \<and> (\<forall>ch. PwrSetState False ch \<notin> set acts) \<and> NotifyPowerOnOk \<notin> set acts)"
proof -
  have "NotifyPowerOnOk \<notin> set (doIcNonePowerTiming True (pg_open c))"
  proof -
    have "NotifyPowerOnOk \<notin> set (delay_loop b ds dl)" for b ds dl
    proof (induction b ds dl rule: delay_loop.induct)
      case (1 b ds dl)
      then show ?case by (subst delay_loop_unfold) (auto simp: turn_pins_def split: if_splits)
    qed
    then show ?thesis by (auto simp: doIcNonePowerTiming_def)
  qed
  then show ?thesis
    by (simp add: client_pg_shutON_def Let_def signal_start_def assms pins_no_power PWR_CHANNEL_ALL_def E_SIGNAL_TYPE_TTL_def
        E_SIGNAL_TYPE_EDP_def E_SIGNAL_TYPE_MIPI_def E_SIGNAL_TYPE_LVDS_def)
qed

lemma power_on_failures_go_unnoticed_witness:
  "\<exists>acts. client_pg_shutON demo_rd False 0 (demo_ttl\<lparr>pg_timing := demo_timing\<lparr>timsignaltype := 3\<rparr>\<rparr>) 1 7
      \<lparr>pg_pwr_status = 0, pg_cur_ptnId = 0\<rparr> = Some (\<lparr>pg_pwr_status = 0, pg_cur_ptnId = 0\<rparr>, Some 0, acts)
    \<and> NotifyPowerOnOk \<in> set acts \<and> (\<forall>b ch. PwrSetState b ch \<notin> set acts)"
  using power_on_failures_go_unnoticed [of "demo_ttl\<lparr>pg_timing := demo_timing\<lparr>timsignaltype := 3\<rparr>\<rparr>" demo_rd 0 7
      "\<lparr>pg_pwr_status = 0, pg_cur_ptnId = 0\<rparr>"] by simp

end
