(* ===== verification/Ssd2828.thy ===== *)
theory Ssd2828
  imports Timing "HOL-Library.State_Monad" "HOL-Library.Signed_Division"
begin

text \<open>
  The MIPI bridges (SSD2828) of the four channels, on two SPI controllers: chip selects
  (\<open>hw/spi/hi_unf_spi.c\<close>), register accesses (\<open>hw/mipi/mipi_interface.c\<close>), and the packets to and
  from the panel with the set-up of a bridge (\<open>hw/mipi/mipi2828.c\<close>). The state holds the trace of
  pins and transfers. What the SPI device answers is an argument: whether a transfer succeeds and
  the bytes received, both after the trace so far.
\<close>

unbundle bit_operations_syntax

section \<open>Chip selects and transfers\<close>

datatype spi_ev = Pin nat bool | Xfer nat "u8 list" | Msleep nat

record picture_timing =
  vsyncpulseWidth :: int
  hsyncpulseWidth :: int
  vBackPorch :: int
  hBackPorch :: int
  vFrontPorch :: int
  hFrontPorch :: int
  vActiveTime :: int
  hActiveTime :: int
  laneCnt :: int
  pt_bit :: int
  dsifre :: int
  syncMode :: int
  hTotal :: int
  vTotal :: int

record configure2828 =
  reg_b1 :: u16
  reg_b2 :: u16
  reg_b3 :: u16
  reg_b4 :: u16
  reg_b5 :: u16
  reg_b6 :: u16
  reg_ba :: u16
  reg_bb :: u16
  reg_c9 :: u16
  reg_ca :: u16
  reg_cb :: u16
  reg_cc :: u16
  reg_cd :: u16
  reg_ce :: u16
  reg_d6 :: u16
  reg_de :: u16

record mipi2828DevM =
  md_configure :: configure2828
  md_timing :: picture_timing
  md_isHiSpeedMode :: bool
  md_log :: "spi_ev list"

record spi_dev =
  sd_ok :: "spi_ev list \<Rightarrow> bool"
  sd_rx :: "spi_ev list \<Rightarrow> u8 \<times> u8 \<times> u8"

type_synonym 'a mipi = "(mipi2828DevM, 'a) state"

definition emit :: "spi_ev list \<Rightarrow> unit mipi" where
  "emit es = State_Monad.update (\<lambda>s. s\<lparr>md_log := md_log s @ es\<rparr>)"

definition get_log :: "spi_ev list mipi" where
  "get_log = State (\<lambda>s. (md_log s, s))"

definition SPI_CS :: "nat \<Rightarrow> nat \<Rightarrow> nat" where "SPI_CS ctrl index = ctrl * 16 + 2 ^ index"

definition SPI0_CS_PIN :: "nat \<Rightarrow> nat" where "SPI0_CS_PIN index = 90 + index"
definition SPI1_CS_PIN :: "nat \<Rightarrow> nat" where "SPI1_CS_PIN index = 78 + index"

text \<open>Controller and index of a chip select; \<open>None\<close> is the \<open>default\<close> of the \<open>switch\<close>.\<close>

definition spi_target :: "nat \<Rightarrow> (nat \<times> nat) option" where
  "spi_target spiNo =
     (if spiNo = SPI_CS 1 0 then Some (0, 0) else if spiNo = SPI_CS 1 1 then Some (0, 1)
      else if spiNo = SPI_CS 1 2 then Some (0, 2) else if spiNo = SPI_CS 2 0 then Some (1, 0)
      else if spiNo = SPI_CS 2 1 then Some (1, 1) else if spiNo = SPI_CS 2 2 then Some (1, 2)
      else if spiNo = SPI_CS 2 3 then Some (1, 3) else None)"

definition cs_pin :: "nat \<Rightarrow> nat \<Rightarrow> nat" where
  "cs_pin ctrl index = (if ctrl = 0 then SPI0_CS_PIN index else SPI1_CS_PIN index)"

definition reinit_cs_state :: "nat \<Rightarrow> unit mipi" where
  "reinit_cs_state spiNo =
     emit (if SPI_CS 1 0 \<le> spiNo \<and> spiNo \<le> SPI_CS 1 2 then map (\<lambda>i. Pin (SPI0_CS_PIN i) True) [0, 1, 2]
           else map (\<lambda>i. Pin (SPI1_CS_PIN i) True) [0, 1, 2, 3])"

text \<open>\<open>__read_write\<close>: the answer is taken while the chip is selected.\<close>

definition read_write :: "spi_dev \<Rightarrow> nat \<Rightarrow> nat \<Rightarrow> u8 list \<Rightarrow> (bool \<times> u8 \<times> u8 \<times> u8) mipi" where
  "read_write dev ctrl index tx = do {
     emit [Pin (cs_pin ctrl index) False, Xfer ctrl tx];
     l \<leftarrow> get_log;
     emit [Pin (cs_pin ctrl index) True];
     State_Monad.return (sd_ok dev l, sd_rx dev l)
   }"

definition spiCtrlWrite :: "spi_dev \<Rightarrow> nat \<Rightarrow> u8 list \<Rightarrow> int mipi" where
  "spiCtrlWrite dev spiNo tx = do {
     reinit_cs_state spiNo;
     (case spi_target spiNo of
        None \<Rightarrow> State_Monad.return (-1)
      | Some (ctrl, index) \<Rightarrow> do {
          (ok, rx) \<leftarrow> read_write dev ctrl index tx;
          State_Monad.return (if ok then 0 else -1)
        })
   }"

text \<open>The receive buffer keeps its zeros when there is no transfer.\<close>

definition spiCtrlRead :: "spi_dev \<Rightarrow> nat \<Rightarrow> u8 list \<Rightarrow> (int \<times> u8 \<times> u8 \<times> u8) mipi" where
  "spiCtrlRead dev spiNo tx = do {
     reinit_cs_state spiNo;
     (case spi_target spiNo of
        None \<Rightarrow> State_Monad.return (-1, 0, 0, 0)
      | Some (ctrl, index) \<Rightarrow> do {
          (ok, rx) \<leftarrow> read_write dev ctrl index tx;
          State_Monad.return (if ok then (0, rx) else (-1, 0, 0, 0))
        })
   }"

section \<open>Registers of a bridge\<close>

definition hi8 :: "u16 \<Rightarrow> u8" where "hi8 d = ucast (drop_bit 8 (d AND 0xFF00))"
definition lo8 :: "u16 \<Rightarrow> u8" where "lo8 d = ucast (d AND 0xFF)"

definition WriteCMDSSD2828 :: "spi_dev \<Rightarrow> nat \<Rightarrow> u8 \<Rightarrow> unit mipi" where
  "WriteCMDSSD2828 dev spiNo command = do { _ \<leftarrow> spiCtrlWrite dev spiNo [0x70, 0x00, command]; State_Monad.return () }"

definition WriteDATASSD2828 :: "spi_dev \<Rightarrow> nat \<Rightarrow> u16 \<Rightarrow> unit mipi" where
  "WriteDATASSD2828 dev spiNo d = do { _ \<leftarrow> spiCtrlWrite dev spiNo [0x72, hi8 d, lo8 d]; State_Monad.return () }"

definition WriteSSD2828 :: "spi_dev \<Rightarrow> nat \<Rightarrow> u8 \<Rightarrow> u16 \<Rightarrow> unit mipi" where
  "WriteSSD2828 dev spiNo addr d = do {
     _ \<leftarrow> spiCtrlWrite dev spiNo [0x70, 0x00, addr];
     _ \<leftarrow> spiCtrlWrite dev spiNo [0x72, hi8 d, lo8 d];
     State_Monad.return ()
   }"

definition ReadDATASSD2828Reg :: "spi_dev \<Rightarrow> nat \<Rightarrow> u16 mipi" where
  "ReadDATASSD2828Reg dev spiNo = do {
     (r, rx0, rx1, rx2) \<leftarrow> spiCtrlRead dev spiNo [0x73, 0x00, 0x00];
     State_Monad.return (push_bit 8 (ucast rx1) OR ucast rx2)
   }"

definition ReadSSD2828Reg :: "spi_dev \<Rightarrow> nat \<Rightarrow> u8 \<Rightarrow> u16 mipi" where
  "ReadSSD2828Reg dev spiNo addr = do {
     _ \<leftarrow> spiCtrlWrite dev spiNo [0x70, 0x00, addr];
     ReadDATASSD2828Reg dev spiNo
   }"

section \<open>Packets\<close>

text \<open>Channels count from the left.\<close>

definition translateChannel2SpiCs :: "nat \<Rightarrow> nat" where
  "translateChannel2SpiCs channel =
     (if channel = 3 then SPI_CS 1 0 else if channel = 2 then SPI_CS 1 1
      else if channel = 1 then SPI_CS 2 0 else if channel = 0 then SPI_CS 2 1 else 0)"

definition MIPI_2828_MODE_REG :: u8 where "MIPI_2828_MODE_REG = 0xB7"
definition MIPI_2828_VC_CTRL_REG :: u8 where "MIPI_2828_VC_CTRL_REG = 0xB8"
definition MIPI_2828_PARAM_LEN_REG :: u8 where "MIPI_2828_PARAM_LEN_REG = 0xBC"
definition MIPI_2828_DST_CACHE_REG :: u8 where "MIPI_2828_DST_CACHE_REG = 0xBF"

text \<open>The bytes after the first one as words in the order of the processor, the last one filled
  with a zero byte of \<open>calloc\<close>.\<close>

fun cache_words :: "u8 list \<Rightarrow> u16 list" where
  "cache_words [] = []"
| "cache_words [a] = [ucast a]"
| "cache_words (a # b # bs) = (ucast a OR push_bit 8 (ucast b)) # cache_words bs"

fun write_words :: "spi_dev \<Rightarrow> nat \<Rightarrow> u16 list \<Rightarrow> unit mipi" where
  "write_words dev spiNo [] = State_Monad.return ()"
| "write_words dev spiNo (w # ws) = do { WriteDATASSD2828 dev spiNo w; write_words dev spiNo ws }"

definition mipi2828Write2IC :: "spi_dev \<Rightarrow> nat \<Rightarrow> u8 \<Rightarrow> u8 list \<Rightarrow> unit mipi" where
  "mipi2828Write2IC dev channel regAddr pData = do {
     let spiNo = translateChannel2SpiCs channel;
     WriteSSD2828 dev spiNo MIPI_2828_VC_CTRL_REG 0x0000;
     (case pData of
        [] \<Rightarrow> WriteCMDSSD2828 dev spiNo regAddr
      | d # ds \<Rightarrow> do {
          WriteSSD2828 dev spiNo MIPI_2828_PARAM_LEN_REG (word_of_nat (length pData));
          WriteSSD2828 dev spiNo MIPI_2828_DST_CACHE_REG (ucast regAddr OR push_bit 8 (ucast d));
          write_words dev spiNo (cache_words ds)
        })
   }"

text \<open>The loop of \<open>ReadModReg\<close> over the received words; \<open>first\<close> selects the register \<open>0xFF\<close>.\<close>

fun read_words :: "spi_dev \<Rightarrow> nat \<Rightarrow> bool \<Rightarrow> nat \<Rightarrow> u8 list mipi" where
  "read_words dev spiNo first 0 = State_Monad.return []"
| "read_words dev spiNo first (Suc 0) = do {
     v \<leftarrow> (if first then ReadSSD2828Reg dev spiNo 0xFF else ReadDATASSD2828Reg dev spiNo);
     State_Monad.return [lo8 v]
   }"
| "read_words dev spiNo first (Suc (Suc len)) = do {
     v \<leftarrow> (if first then ReadSSD2828Reg dev spiNo 0xFF else ReadDATASSD2828Reg dev spiNo);
     bs \<leftarrow> read_words dev spiNo False len;
     State_Monad.return (lo8 v # hi8 v # bs)
   }"

text \<open>The tries; the result is the number of bytes the bridge reports and the buffer.\<close>

fun read_tries :: "nat \<Rightarrow> spi_dev \<Rightarrow> nat \<Rightarrow> nat \<Rightarrow> u8 \<Rightarrow> nat \<Rightarrow> u8 list \<Rightarrow> (int \<times> u8 list) mipi" where
  "read_tries 0 dev spiNo type regAddr len pRead = State_Monad.return (0, pRead)"
| "read_tries (Suc n) dev spiNo type regAddr len pRead = do {
     WriteSSD2828 dev spiNo 0xC1 (word_of_nat len);
     (if type = 0 then WriteSSD2828 dev spiNo 0xB7 0x0380
      else if type = 1 then WriteSSD2828 dev spiNo 0xB7 0x03c0 else State_Monad.return ());
     WriteSSD2828 dev spiNo 0xC0 0x0100;
     WriteSSD2828 dev spiNo 0xBC 0x0001;
     WriteSSD2828 dev spiNo 0xBF (ucast regAddr);
     emit [Msleep 10];
     regValue \<leftarrow> ReadSSD2828Reg dev spiNo 0xC6;
     (if regValue AND 0x0005 = 0x0005 then do {
        readBytes \<leftarrow> ReadSSD2828Reg dev spiNo 0xC2;
        bs \<leftarrow> read_words dev spiNo True len;
        State_Monad.return (uint readBytes, bs @ drop len pRead)
      }
      else read_tries n dev spiNo type regAddr len pRead)
   }"

definition ReadModReg :: "spi_dev \<Rightarrow> nat \<Rightarrow> nat \<Rightarrow> u8 \<Rightarrow> nat \<Rightarrow> u8 list \<Rightarrow> (int \<times> u8 list) mipi" where
  "ReadModReg dev channel type regAddr len pRead =
     read_tries 3 dev (translateChannel2SpiCs channel) type regAddr len pRead"

section \<open>Setting a bridge up\<close>

text \<open>The \<open>set\<close> functions narrow their argument to \<open>unsigned short\<close>, \<open>unsigned char\<close> or
  \<open>unsigned int\<close>; the members are \<open>int\<close>.\<close>

definition as_u16 :: "int \<Rightarrow> int" where "as_u16 x = uint (word_of_int x :: u16)"
definition as_u8 :: "int \<Rightarrow> int" where "as_u8 x = uint (word_of_int x :: u8)"
definition as_int :: "int \<Rightarrow> int" where "as_int x = sint (word_of_int x :: u32)"

definition mipiInterfaceTimingInit :: "timing_info \<Rightarrow> unit mipi" where
  "mipiInterfaceTimingInit t = State_Monad.update (\<lambda>s. s\<lparr>md_timing :=
     \<lparr>vsyncpulseWidth = as_u16 (timvsyncpulsewidth t), hsyncpulseWidth = as_u16 (timhsyncpulsewidth t),
      vBackPorch = as_u16 (timvbackporch t), hBackPorch = as_u16 (timhbackporch t),
      vFrontPorch = as_u16 (timvfrontporch t), hFrontPorch = as_u16 (timhfrontporch t),
      vActiveTime = as_u16 (timvactivetime t), hActiveTime = as_u16 (timhactivetime t),
      laneCnt = as_u8 (timmipilanenum t), pt_bit = as_int (timbit t), dsifre = as_int (mdlmipidsiclock t),
      syncMode = as_u8 (timmipisyncmode t), hTotal = as_u16 (timhtotaltime t), vTotal = as_u16 (timvtotaltime t)\<rparr>\<rparr>)"

text \<open>Parts of \<open>calculateConfigParams\<close>. In \<open>a & 0xff + (b << 8)\<close> the sum is the operand of the mask.\<close>

definition porch_reg :: "int \<Rightarrow> u16 \<Rightarrow> u16" where
  "porch_reg h b = word_of_int (h AND (0xff + push_bit 8 (uint b)))"

definition pll_range :: "int \<Rightarrow> int" where
  "pll_range f =
     (if f \<ge> 62500000 \<and> f < 125000000 then 0x0400 else if f \<ge> 125000000 \<and> f < 250000000 then 0x4400
      else if f \<ge> 250000000 \<and> f < 500000000 then 0x8400
      else if f \<ge> 500000000 \<and> f \<le> 1000000000 then 0xc400 else 0)"

definition byte_clk :: "int \<Rightarrow> int" where
  "byte_clk f = uint (word_of_int (f sdiv 8) :: u32)"

definition delay8 :: "int \<Rightarrow> int" where "delay8 x = uint (word_of_int x :: u8)"

definition prepare_delay :: "int \<Rightarrow> int \<Rightarrow> int" where
  "prepare_delay least d = (if d \<ge> 256 \<or> d < least then 0 else d - least)"

definition limit_delay :: "int \<Rightarrow> int \<Rightarrow> int" where
  "limit_delay bound d = (if d \<ge> bound then 0 else d)"

text \<open>\<open>TAGetDelay\<close> has no value in the program; it is an argument.\<close>

definition calculateConfigParams :: "u8 \<Rightarrow> picture_timing \<Rightarrow> configure2828 \<Rightarrow> configure2828" where
  "calculateConfigParams TAGetDelay t c =
    (let ByteClk = byte_clk (dsifre t);
         ByteClkMhz = ByteClk div 1000000;
         b1 = word_of_int (vsyncpulseWidth t AND 0xff) :: u16;
         b3 = word_of_int (vFrontPorch t AND 0xff) :: u16;
         b2 = (if syncMode t = 0 then porch_reg (hBackPorch t) (word_of_int (vBackPorch t))
               else if syncMode t = 1 \<or> syncMode t = 2
               then porch_reg (hBackPorch t + hsyncpulseWidth t) (word_of_int (vBackPorch t + vsyncpulseWidth t))
               else reg_b2 c);
         bb = word_of_int (dsifre t sdiv 80000000 - 1) :: u16;
         LPClkKHz = ByteClk div (uint bb + 1) div 1000;
         HsPrepareDelay = prepare_delay 4 (delay8 ((600 + 48 * ByteClkMhz) div 500 + 1));
         HsZeroDelay = limit_delay 256 (delay8 ((1500 + 150 * ByteClkMhz) div 500 + 1));
         ClkZeroDelay = delay8 (280 * ByteClkMhz div 500 + 1);
         ClkPrepareDelay = (if ClkZeroDelay \<ge> 256 then 0
                            else prepare_delay 3 (delay8 (44 * ByteClkMhz div 500 + 1)));
         ClkPostDelay = limit_delay 256 (delay8 ((7000 + 65 * ByteClkMhz) div 500 + 1));
         ClkPreDelay = limit_delay 256 (delay8 ((650 + 69 * ByteClkMhz) div 500 + 1));
         HsTrailDelay = limit_delay 256 (delay8 ((1250 + 100 * ByteClkMhz) div 500 + 1));
         WakeUpDelay = limit_delay 256 (as_u16 (1050 * LPClkKHz div 1000 + 1));
         TAGoDelay = limit_delay 16 (delay8 (220 * LPClkKHz div 500000 + 1))
     in c\<lparr>reg_b1 := porch_reg (hsyncpulseWidth t) b1,
          reg_b2 := b2,
          reg_b3 := porch_reg (hFrontPorch t) b3,
          reg_b4 := word_of_int (hActiveTime t),
          reg_b5 := word_of_int (vActiveTime t),
          reg_b6 := (if pt_bit t = 6 then word_of_int (0x02 + 0x04 * syncMode t)
                     else if pt_bit t = 8 then word_of_int (0x03 + 0x04 * syncMode t) else reg_b6 c),
          reg_ba := word_of_int (pll_range (dsifre t) + dsifre t sdiv 6250000),
          reg_bb := bb,
          reg_c9 := word_of_int (push_bit 8 HsZeroDelay + HsPrepareDelay),
          reg_ca := word_of_int (push_bit 8 ClkZeroDelay + ClkPrepareDelay),
          reg_cb := word_of_int (push_bit 8 ClkPreDelay + ClkPostDelay),
          reg_cc := word_of_int (push_bit 8 HsTrailDelay + HsTrailDelay),
          reg_cd := word_of_int WakeUpDelay,
          reg_ce := word_of_int (push_bit 8 TAGoDelay + uint TAGetDelay),
          reg_d6 := 4,
          reg_de := word_of_int (laneCnt t - 1)\<rparr>)"

fun write_regs :: "spi_dev \<Rightarrow> nat \<Rightarrow> (u8 \<times> u16) list \<Rightarrow> unit mipi" where
  "write_regs dev spiNo [] = State_Monad.return ()"
| "write_regs dev spiNo ((r, v) # rs) = do { WriteSSD2828 dev spiNo r v; write_regs dev spiNo rs }"

text \<open>The registers in the order \<open>ConfigSSD2828\<close> writes them.\<close>

definition config_regs :: "configure2828 \<Rightarrow> (u8 \<times> u16) list" where
  "config_regs c =
     [(0xB1, reg_b1 c), (0xB2, reg_b2 c), (0xB3, reg_b3 c), (0xB4, reg_b4 c), (0xB5, reg_b5 c), (0xB6, reg_b6 c),
      (0xDE, reg_de c), (0xD6, reg_d6 c), (0xB9, 0x0000), (0xC4, 0x0000),
      (0xC9, reg_c9 c), (0xCA, reg_ca c), (0xCB, reg_cb c), (0xCC, reg_cc c), (0xCD, reg_cd c), (0xCE, reg_ce c),
      (0xBA, reg_ba c), (0xBB, reg_bb c), (0xB9, 0x0001), (0xB8, 0x0000)]"

definition ConfigSSD2828 :: "spi_dev \<Rightarrow> nat \<Rightarrow> unit mipi" where
  "ConfigSSD2828 dev channel = do {
     s \<leftarrow> State_Monad.get;
     write_regs dev (translateChannel2SpiCs channel) (config_regs (md_configure s))
   }"

definition setMipi2828HighSpeedMode :: "spi_dev \<Rightarrow> nat \<Rightarrow> bool \<Rightarrow> unit mipi" where
  "setMipi2828HighSpeedMode dev channel bHSMode = do {
     WriteSSD2828 dev (translateChannel2SpiCs channel) MIPI_2828_MODE_REG (if bHSMode then 0x030b else 0x030a);
     State_Monad.update (\<lambda>s. s\<lparr>md_isHiSpeedMode := bHSMode\<rparr>)
   }"

definition mipi2828ModuleInit :: mipi2828DevM where
  "mipi2828ModuleInit =
     \<lparr>md_configure = \<lparr>reg_b1 = 0, reg_b2 = 0, reg_b3 = 0, reg_b4 = 0, reg_b5 = 0, reg_b6 = 0, reg_ba = 0, reg_bb = 0,
        reg_c9 = 0, reg_ca = 0, reg_cb = 0, reg_cc = 0, reg_cd = 0, reg_ce = 0, reg_d6 = 0, reg_de = 0\<rparr>,
      md_timing = \<lparr>vsyncpulseWidth = 0, hsyncpulseWidth = 0, vBackPorch = 0, hBackPorch = 0, vFrontPorch = 0,
        hFrontPorch = 0, vActiveTime = 0, hActiveTime = 0, laneCnt = 0, pt_bit = 0, dsifre = 0, syncMode = 0,
        hTotal = 0, vTotal = 0\<rparr>,
      md_isHiSpeedMode = False, md_log = []\<rparr>"

definition initChannel :: "u8 \<Rightarrow> spi_dev \<Rightarrow> nat \<Rightarrow> unit mipi" where
  "initChannel TAGetDelay dev channel = do {
     State_Monad.update (\<lambda>s. s\<lparr>md_configure := calculateConfigParams TAGetDelay (md_timing s) (md_configure s)\<rparr>);
     setMipi2828HighSpeedMode dev channel False;
     emit [Msleep 10];
     ConfigSSD2828 dev channel;
     emit [Msleep 10];
     setMipi2828HighSpeedMode dev channel True
   }"

definition deinitChannel :: "spi_dev \<Rightarrow> nat \<Rightarrow> unit mipi" where
  "deinitChannel dev channel = do {
     mipi2828Write2IC dev channel 0x28 [];
     mipi2828Write2IC dev channel 0x10 [];
     WriteSSD2828 dev (translateChannel2SpiCs channel) MIPI_2828_MODE_REG 0x0340;
     WriteSSD2828 dev (translateChannel2SpiCs channel) 0xC4 0x0004
   }"

definition rst_pin :: "nat \<Rightarrow> nat" where "rst_pin channel = (if channel = 0 \<or> channel = 1 then 11 else 10)"

definition RST_2828_GPIO :: nat where "RST_2828_GPIO = 74"

definition mipiIcReset :: "nat \<Rightarrow> unit mipi" where
  "mipiIcReset channel = emit [Pin (rst_pin channel) False, Msleep 10, Pin (rst_pin channel) True]"

definition mipiInterfaceReset :: "nat \<Rightarrow> unit mipi" where
  "mipiInterfaceReset channel =
     emit [Pin RST_2828_GPIO False, Msleep 10, Pin RST_2828_GPIO True,
           Pin (rst_pin channel) False, Msleep 10, Pin (rst_pin channel) True]"

text \<open>\<open>mipi2828Open\<close> gives the words read from register \<open>0xB0\<close>, which it prints; it has no value.
  The state of the channels in the chip manager is not part of this theory.\<close>

definition mipi2828Open :: "u8 \<Rightarrow> spi_dev \<Rightarrow> timing_info \<Rightarrow> (u16 \<times> u16 \<times> u16 \<times> u16) mipi" where
  "mipi2828Open TAGetDelay dev t = do {
     mipiInterfaceTimingInit t;
     mipiInterfaceReset 0; mipiInterfaceReset 1; mipiInterfaceReset 2; mipiInterfaceReset 3;
     v2 \<leftarrow> ReadSSD2828Reg dev (SPI_CS 1 0) 0xb0;
     v \<leftarrow> ReadSSD2828Reg dev (SPI_CS 1 1) 0xb0;
     v3 \<leftarrow> ReadSSD2828Reg dev (SPI_CS 2 0) 0xb0;
     v4 \<leftarrow> ReadSSD2828Reg dev (SPI_CS 2 1) 0xb0;
     initChannel TAGetDelay dev 0; initChannel TAGetDelay dev 1;
     initChannel TAGetDelay dev 2; initChannel TAGetDelay dev 3;
     State_Monad.return (v2, v, v3, v4)
   }"

definition mipi2828Close :: "spi_dev \<Rightarrow> unit mipi" where
  "mipi2828Close dev = do { deinitChannel dev 0; deinitChannel dev 1; deinitChannel dev 2; deinitChannel dev 3 }"

section \<open>What a bridge sees\<close>

definition push :: "mipi2828DevM \<Rightarrow> spi_ev list \<Rightarrow> mipi2828DevM" where
  "push s es = s\<lparr>md_log := md_log s @ es\<rparr>"

lemma push_push [simp]: "push (push s a) b = push s (a @ b)" and push_log [simp]: "md_log (push s a) = md_log s @ a"
  and push_nil [simp]: "push s [] = s"
  by (simp_all add: push_def)

lemma run_update [simp]: "run_state (State_Monad.update f) s = ((), f s)"
  by (simp add: State_Monad.update_def)

lemma run_emit [simp]: "run_state (emit es) s = ((), push s es)"
  by (simp add: emit_def push_def)

lemma run_get_log [simp]: "run_state get_log s = (md_log s, s)"
  by (simp add: get_log_def)

text \<open>The events of one transfer.\<close>

definition cs_idle :: "nat \<Rightarrow> spi_ev list" where
  "cs_idle spiNo =
     (if SPI_CS 1 0 \<le> spiNo \<and> spiNo \<le> SPI_CS 1 2 then map (\<lambda>i. Pin (SPI0_CS_PIN i) True) [0, 1, 2]
      else map (\<lambda>i. Pin (SPI1_CS_PIN i) True) [0, 1, 2, 3])"

definition frame :: "nat \<Rightarrow> u8 list \<Rightarrow> spi_ev list" where
  "frame spiNo tx = cs_idle spiNo
     @ (case spi_target spiNo of None \<Rightarrow> []
        | Some (c, i) \<Rightarrow> [Pin (cs_pin c i) False, Xfer c tx, Pin (cs_pin c i) True])"

definition asked :: "nat \<Rightarrow> u8 list \<Rightarrow> spi_ev list" where
  "asked spiNo tx = cs_idle spiNo
     @ (case spi_target spiNo of None \<Rightarrow> [] | Some (c, i) \<Rightarrow> [Pin (cs_pin c i) False, Xfer c tx])"

lemma run_spiCtrlWrite [simp]:
  "run_state (spiCtrlWrite dev n tx) s =
     (if spi_target n \<noteq> None \<and> sd_ok dev (md_log s @ asked n tx) then 0 else -1, push s (frame n tx))"
  by (auto simp: spiCtrlWrite_def reinit_cs_state_def read_write_def frame_def asked_def cs_idle_def split: option.split)

lemma run_spiCtrlRead [simp]:
  "run_state (spiCtrlRead dev n tx) s =
     (if spi_target n \<noteq> None \<and> sd_ok dev (md_log s @ asked n tx)
      then (0, sd_rx dev (md_log s @ asked n tx)) else (-1, 0, 0, 0), push s (frame n tx))"
  by (auto simp: spiCtrlRead_def reinit_cs_state_def read_write_def frame_def asked_def cs_idle_def split: option.split)

lemma run_WriteCMD [simp]: "run_state (WriteCMDSSD2828 dev n a) s = ((), push s (frame n [0x70, 0, a]))"
  by (simp add: WriteCMDSSD2828_def)

lemma run_WriteDATA [simp]: "run_state (WriteDATASSD2828 dev n d) s = ((), push s (frame n [0x72, hi8 d, lo8 d]))"
  by (simp add: WriteDATASSD2828_def)

definition reg_frames :: "nat \<Rightarrow> u8 \<times> u16 \<Rightarrow> spi_ev list" where
  "reg_frames n rv = frame n [0x70, 0, fst rv] @ frame n [0x72, hi8 (snd rv), lo8 (snd rv)]"

lemma run_WriteSSD2828 [simp]: "run_state (WriteSSD2828 dev n a d) s = ((), push s (reg_frames n (a, d)))"
  by (simp add: WriteSSD2828_def reg_frames_def)

lemma run_write_words [simp]:
  "run_state (write_words dev n ws) s = ((), push s (concat (map (\<lambda>w. frame n [0x72, hi8 w, lo8 w]) ws)))"
  by (induction ws arbitrary: s) simp_all

lemma run_write_regs [simp]: "run_state (write_regs dev n rs) s = ((), push s (concat (map (reg_frames n) rs)))"
  by (induction rs arbitrary: s) auto

text \<open>A bridge on pin \<open>cs_pin ctrl index\<close>: whether it is selected, the register its index points
  to, the number of words read from it, and the register writes it has taken.\<close>

type_synonym bridge = "bool \<times> u8 \<times> nat \<times> (u8 \<times> u16) list"

definition take_frame :: "u8 list \<Rightarrow> bridge \<Rightarrow> bridge" where
  "take_frame tx b = (case b of (sel, idx, k, out) \<Rightarrow>
     (case tx of
        [t, h, l] \<Rightarrow>
          if t = 0x70 then (sel, l, 0, out)
          else if t = 0x72 then (sel, idx, k, out @ [(idx, push_bit 8 (ucast h) OR ucast l)])
          else if t = 0x73 then (sel, idx, k + 1, out) else b
      | _ \<Rightarrow> b))"

fun bridge_step :: "nat \<Rightarrow> nat \<Rightarrow> spi_ev \<Rightarrow> bridge \<Rightarrow> bridge" where
  "bridge_step ctrl pin (Pin p v) (sel, r) = (if p = pin then \<not> v else sel, r)"
| "bridge_step ctrl pin (Xfer c tx) (sel, r) = (if c = ctrl \<and> sel then take_frame tx (sel, r) else (sel, r))"
| "bridge_step ctrl pin (Msleep n) b = b"

definition port :: "nat \<Rightarrow> nat \<times> nat" where
  "port ch = the (spi_target (translateChannel2SpiCs ch))"

definition bridge_run :: "nat \<Rightarrow> spi_ev list \<Rightarrow> bridge \<Rightarrow> bridge" where
  "bridge_run ch = fold (bridge_step (fst (port ch)) (cs_pin (fst (port ch)) (snd (port ch))))"

lemma bridge_run_append [simp]: "bridge_run ch (a @ b) st = bridge_run ch b (bridge_run ch a st)"
  by (simp add: bridge_run_def)

lemma bridge_run_nil [simp]: "bridge_run ch [] st = st"
  by (simp add: bridge_run_def)

definition deselect :: "bridge \<Rightarrow> bridge" where "deselect b = (False, snd b)"

lemma cs_numbers: "SPI_CS 1 0 = 17" "SPI_CS 1 1 = 18" "SPI_CS 1 2 = 20" "SPI_CS 2 0 = 33" "SPI_CS 2 1 = 34"
    "SPI_CS 2 2 = 36" "SPI_CS 2 3 = 40"
  by (simp_all add: SPI_CS_def)

lemma channel_cases:
  assumes "ch < 4" obtains "ch = 0" | "ch = Suc 0" | "ch = 2" | "ch = 3"
  using assms by (auto simp: numeral_eq_Suc less_Suc_eq)

lemma ports: "port 0 = (1, 1)" "port (Suc 0) = (1, 0)" "port 2 = (0, 1)" "port 3 = (0, 0)"
    "spi_target (translateChannel2SpiCs 0) = Some (1, 1)" "spi_target (translateChannel2SpiCs (Suc 0)) = Some (1, 0)"
    "spi_target (translateChannel2SpiCs 2) = Some (0, 1)" "spi_target (translateChannel2SpiCs 3) = Some (0, 0)"
    "translateChannel2SpiCs 0 = 34" "translateChannel2SpiCs (Suc 0) = 33" "translateChannel2SpiCs 2 = 18"
    "translateChannel2SpiCs 3 = 17"
  by (simp_all add: port_def translateChannel2SpiCs_def spi_target_def SPI_CS_def)

lemma bridge_frame:
  assumes "ch < 4" "ch' < 4"
  shows "bridge_run ch' (frame (translateChannel2SpiCs ch) tx) (sel, b)
    = (if ch' = ch then deselect (take_frame tx (True, b))
       else if fst (port ch') = fst (port ch) then (False, b) else (sel, b))"
proof -
  have "fst (take_frame tx (True, b)) = True"
    by (simp add: take_frame_def split: prod.split list.split)
  then obtain r where t: "take_frame tx (True, b) = (True, r)"
    by (metis prod.collapse)
  show ?thesis
    by (rule channel_cases [OF assms(1)]; rule channel_cases [OF assms(2)])
      (simp_all add: bridge_run_def frame_def cs_idle_def ports cs_numbers spi_target_def SPI_CS_def cs_pin_def
        SPI0_CS_PIN_def SPI1_CS_PIN_def deselect_def t)
qed

section \<open>Packets reach their bridge\<close>

lemma mask8: "(0xFF :: u16) = mask 8" "(0xFF00 :: u16) = push_bit 8 (mask 8)"
  by (simp_all add: mask_eq_exp_minus_1)

lemma bit_hi_lo: "bit (hi8 w) n \<longleftrightarrow> n < 8 \<and> bit w (n + 8)" "bit (lo8 w) n \<longleftrightarrow> n < 8 \<and> bit w n"
  unfolding hi8_def lo8_def mask8 by (auto simp: bit_simps add.commute dest: bit_imp_le_length)

lemma hi_lo [simp]: "push_bit 8 (ucast (hi8 w)) OR ucast (lo8 w) = w"
  by (rule bit_word_eqI) (auto simp: bit_simps bit_hi_lo)

lemma lo_hi_join [simp]:
  "lo8 (ucast a OR push_bit 8 (ucast b)) = a" "hi8 (ucast a OR push_bit 8 (ucast b)) = b"
  "lo8 (ucast a) = a" "hi8 (ucast (a :: u8)) = 0"
proof -
  have no: "\<not> bit (c :: u8) (n + 8)" for c n using bit_imp_le_length [of c "n + 8"] by auto
  show "lo8 (ucast a OR push_bit 8 (ucast b)) = a" "hi8 (ucast a OR push_bit 8 (ucast b)) = b"
    "lo8 (ucast a) = a" "hi8 (ucast (a :: u8)) = 0"
    by (auto intro!: bit_word_eqI simp: bit_simps bit_hi_lo no)
qed

definition writes_of :: "bridge \<Rightarrow> (u8 \<times> u16) list" where "writes_of b = snd (snd (snd b))"

text \<open>Frames for one channel, seen by that channel's bridge and by another one.\<close>

definition packet_frames :: "nat \<Rightarrow> u8 \<Rightarrow> u8 list \<Rightarrow> spi_ev list" where
  "packet_frames n regAddr pData = reg_frames n (MIPI_2828_VC_CTRL_REG, 0)
     @ (case pData of [] \<Rightarrow> frame n [0x70, 0, regAddr]
        | d # ds \<Rightarrow> reg_frames n (MIPI_2828_PARAM_LEN_REG, word_of_nat (length pData))
            @ reg_frames n (MIPI_2828_DST_CACHE_REG, ucast regAddr OR push_bit 8 (ucast d))
            @ concat (map (\<lambda>w. frame n [0x72, hi8 w, lo8 w]) (cache_words ds)))"

lemma run_Write2IC [simp]:
  "run_state (mipi2828Write2IC dev ch r d) s = ((), push s (packet_frames (translateChannel2SpiCs ch) r d))"
  by (cases d) (simp_all add: mipi2828Write2IC_def packet_frames_def Let_def)

lemma bridge_reg_frames:
  assumes "ch < 4"
  shows "bridge_run ch (reg_frames (translateChannel2SpiCs ch) (a, d)) (sel, idx, k, out) = (False, a, 0, out @ [(a, d)])"
  using assms by (simp add: reg_frames_def bridge_frame take_frame_def deselect_def)

lemma bridge_data_frames:
  assumes "ch < 4"
  shows "bridge_run ch (concat (map (\<lambda>w. frame (translateChannel2SpiCs ch) [0x72, hi8 w, lo8 w]) ws)) (False, idx, k, out)
    = (False, idx, k, out @ map (Pair idx) ws)"
  using assms by (induction ws arbitrary: out) (simp_all add: bridge_frame take_frame_def deselect_def)

lemma frames_other:
  assumes "ch < 4" "ch' < 4" "ch' \<noteq> ch" "\<And>e. e \<in> set es \<Longrightarrow> \<exists>tx. e = frame (translateChannel2SpiCs ch) tx"
  shows "snd (bridge_run ch' (concat es) b) = snd b"
  using assms(4)
proof (induction es arbitrary: b)
  case (Cons e es)
  from Cons.prems [of e] obtain tx where e: "e = frame (translateChannel2SpiCs ch) tx" by auto
  obtain sel r where b: "b = (sel, r)" by (cases b)
  then show ?case using Cons e bridge_frame [OF assms(1,2), of tx sel r] assms(3) by (cases "fst (port ch') = fst (port ch)") simp_all
qed simp

text \<open>What the bridge of a channel takes from the wires. The table of the board: the controller
  and the chip select pin of the four channels. A bridge takes the transfers on its controller
  while its pin is low.\<close>

definition wired :: "nat \<Rightarrow> nat \<times> nat" where
  "wired ch = [(1, 79), (1, 78), (0, 91), (0, 90)] ! ch"

fun taken :: "nat \<Rightarrow> spi_ev list \<Rightarrow> bool \<Rightarrow> u8 list list" where
  "taken ch [] sel = []"
| "taken ch (Pin p v # es) sel = taken ch es (if p = snd (wired ch) then \<not> v else sel)"
| "taken ch (Xfer c tx # es) sel = (if c = fst (wired ch) \<and> sel then [tx] else []) @ taken ch es sel"
| "taken ch (Msleep n # es) sel = taken ch es sel"

fun selected :: "nat \<Rightarrow> spi_ev list \<Rightarrow> bool \<Rightarrow> bool" where
  "selected ch [] sel = sel"
| "selected ch (Pin p v # es) sel = selected ch es (if p = snd (wired ch) then \<not> v else sel)"
| "selected ch (Xfer c tx # es) sel = selected ch es sel"
| "selected ch (Msleep n # es) sel = selected ch es sel"

lemma taken_append: "taken ch (a @ b) sel = taken ch a sel @ taken ch b (selected ch a sel)"
  by (induction ch a sel rule: taken.induct) simp_all

text \<open>The transfers \<open>txs\<close> reach the bridge of \<open>ch\<close> and no other, whatever was selected before.\<close>

definition only_to :: "nat \<Rightarrow> spi_ev list \<Rightarrow> u8 list list \<Rightarrow> bool" where
  "only_to ch es txs \<longleftrightarrow> (\<forall>ch' < 4. \<forall>sel. taken ch' es sel = (if ch' = ch then txs else []))"

lemma only_to_nil: "only_to ch [] []" and only_to_sleep: "only_to ch [Msleep n] []"
  by (simp_all add: only_to_def)

lemma only_to_append: "only_to ch a x \<Longrightarrow> only_to ch b y \<Longrightarrow> only_to ch (a @ b) (x @ y)"
  by (simp add: only_to_def taken_append)

lemma only_to_frame: "ch < 4 \<Longrightarrow> only_to ch (frame (translateChannel2SpiCs ch) tx) [tx]"
  unfolding only_to_def
proof (intro allI impI)
  fix ch' :: nat and sel assume c: "ch < 4" "ch' < 4"
  show "taken ch' (frame (translateChannel2SpiCs ch) tx) sel = (if ch' = ch then [tx] else [])"
    by (rule channel_cases [OF c(1)]; rule channel_cases [OF c(2)])
      (simp_all add: frame_def cs_idle_def ports cs_numbers spi_target_def SPI_CS_def cs_pin_def
        SPI0_CS_PIN_def SPI1_CS_PIN_def wired_def)
qed

lemma only_to_frames:
  "ch < 4 \<Longrightarrow> only_to ch (concat (map (frame (translateChannel2SpiCs ch)) txs)) txs"
proof (induction txs)
  case Nil
  then show ?case by (simp add: only_to_nil)
next
  case (Cons tx txs)
  then show ?case using only_to_append [OF only_to_frame [of ch tx] Cons.IH] by simp
qed

text \<open>A packet on the wires: the virtual channel register gets 0; without data the register
  follows as a command; otherwise the number of data bytes, and then the register and the data
  byte by byte into the packet cache, two bytes to a transfer with the second one first, a zero
  byte filling the last transfer.\<close>

fun byte_pairs :: "u8 list \<Rightarrow> u8 list list" where
  "byte_pairs [] = []"
| "byte_pairs [a] = [[0x72, 0, a]]"
| "byte_pairs (a # b # bs) = [0x72, b, a] # byte_pairs bs"

definition packet_wire :: "u8 \<Rightarrow> u8 list \<Rightarrow> u8 list list" where
  "packet_wire r d = [[0x70, 0, 0xB8], [0x72, 0, 0]]
     @ (if d = [] then [[0x70, 0, r]]
        else [[0x70, 0, 0xBC], [0x72, word_of_nat (length d div 256), word_of_nat (length d)], [0x70, 0, 0xBF]]
          @ byte_pairs (r # d))"

lemma hi_lo_nat: "hi8 (word_of_nat n) = word_of_nat (n div 256)" "lo8 (word_of_nat n) = word_of_nat n"
proof -
  have "n div 256 = drop_bit 8 n" by (simp add: drop_bit_eq_div)
  then show "hi8 (word_of_nat n) = word_of_nat (n div 256)" "lo8 (word_of_nat n) = word_of_nat n"
    by (auto intro!: bit_word_eqI simp: bit_hi_lo bit_simps add.commute dest: bit_imp_le_length)
qed

lemma hi_lo_0 [simp]: "hi8 0 = 0" "lo8 0 = 0"
  by (simp_all add: hi8_def lo8_def)

lemma cache_words_pairs: "map (\<lambda>w. [0x72, hi8 w, lo8 w]) (cache_words bs) = byte_pairs bs"
  by (induction bs rule: cache_words.induct) simp_all

lemma packet_frames_wire: "packet_frames n r d = concat (map (frame n) (packet_wire r d))"
proof (cases d)
  case Nil
  then show ?thesis
    by (simp add: packet_frames_def packet_wire_def reg_frames_def MIPI_2828_VC_CTRL_REG_def)
next
  case (Cons b bs)
  have "concat (map (\<lambda>w. frame n [0x72, hi8 w, lo8 w]) (cache_words bs)) = concat (map (frame n) (byte_pairs bs))"
    by (simp add: cache_words_pairs [symmetric] o_def)
  then show ?thesis using Cons
    by (simp add: packet_frames_def packet_wire_def reg_frames_def MIPI_2828_VC_CTRL_REG_def hi_lo_nat
        MIPI_2828_PARAM_LEN_REG_def MIPI_2828_DST_CACHE_REG_def del: of_nat_Suc)
qed

lemma run_Write2IC_wire:
  assumes "ch < 4"
  shows "\<exists>es. run_state (mipi2828Write2IC dev ch r d) s = ((), s\<lparr>md_log := md_log s @ es\<rparr>)
    \<and> only_to ch es (packet_wire r d)"
  using only_to_frames [OF assms, of "packet_wire r d"] by (auto simp: packet_frames_wire push_def)

section \<open>Reading from a bridge\<close>

text \<open>The SPI device with a bridge at channel \<open>ch\<close> in which the \<open>k\<close>-th word read from register \<open>r\<close>
  is \<open>f r k\<close>.\<close>

definition bridge_start :: bridge where "bridge_start = (False, 0, 0, [])"

definition bridge_dev :: "nat \<Rightarrow> (u8 \<Rightarrow> nat \<Rightarrow> u16) \<Rightarrow> spi_dev" where
  "bridge_dev ch f = \<lparr>sd_ok = (\<lambda>_. True),
     sd_rx = (\<lambda>l. case bridge_run ch l bridge_start of (sel, idx, k, out) \<Rightarrow>
                (0, hi8 (f idx (k - 1)), lo8 (f idx (k - 1))))\<rparr>"

definition bst :: "nat \<Rightarrow> mipi2828DevM \<Rightarrow> bridge" where "bst ch s = bridge_run ch (md_log s) bridge_start"

lemma bst_push: "bst ch (push s es) = bridge_run ch es (bst ch s)"
  by (simp add: bst_def)

lemma bridge_asked:
  assumes "ch < 4"
  shows "bridge_run ch (asked (translateChannel2SpiCs ch) tx) (sel, b) = take_frame tx (True, b)"
  by (rule channel_cases [OF assms])
    (simp_all add: bridge_run_def asked_def cs_idle_def ports cs_numbers spi_target_def SPI_CS_def cs_pin_def
      SPI0_CS_PIN_def SPI1_CS_PIN_def)

lemma target_channel: "ch < 4 \<Longrightarrow> spi_target (translateChannel2SpiCs ch) \<noteq> None"
  by (erule channel_cases) (simp_all add: translateChannel2SpiCs_def spi_target_def SPI_CS_def)

lemma run_ReadDATA:
  assumes "ch < 4" "bst ch s = (sel, idx, k, out)"
  shows "run_state (ReadDATASSD2828Reg (bridge_dev ch f) (translateChannel2SpiCs ch)) s
    = (f idx k, push s (frame (translateChannel2SpiCs ch) [0x73, 0, 0]))"
proof -
  let ?n = "translateChannel2SpiCs ch"
  have "bridge_run ch (md_log s @ asked ?n [0x73, 0, 0]) bridge_start = (True, idx, k + 1, out)"
    using assms by (simp add: bst_def bridge_asked take_frame_def)
  then have "sd_rx (bridge_dev ch f) (md_log s @ asked ?n [0x73, 0, 0]) = (0, hi8 (f idx k), lo8 (f idx k))"
    by (simp add: bridge_dev_def)
  then show ?thesis
    using target_channel [OF assms(1)] by (simp add: ReadDATASSD2828Reg_def bridge_dev_def)
qed

lemma bst_after_data:
  "ch < 4 \<Longrightarrow> bst ch s = (sel, idx, k, out)
    \<Longrightarrow> bst ch (push s (frame (translateChannel2SpiCs ch) [0x73, 0, 0])) = (False, idx, k + 1, out)"
  by (simp add: bst_push bridge_frame take_frame_def deselect_def)

lemma run_ReadReg:
  assumes "ch < 4"
  shows "run_state (ReadSSD2828Reg (bridge_dev ch f) (translateChannel2SpiCs ch) a) s
    = (f a 0, push s (frame (translateChannel2SpiCs ch) [0x70, 0, a] @ frame (translateChannel2SpiCs ch) [0x73, 0, 0]))"
proof -
  obtain sel idx k out where b: "bst ch s = (sel, idx, k, out)" by (cases "bst ch s")
  then have "bst ch (push s (frame (translateChannel2SpiCs ch) [0x70, 0, a])) = (False, a, 0, out)"
    using assms by (simp add: bst_push bridge_frame take_frame_def deselect_def)
  from run_ReadDATA [OF assms this] show ?thesis by (simp add: ReadSSD2828Reg_def)
qed

lemma bst_after_reg:
  "ch < 4 \<Longrightarrow> bst ch s = (sel, idx, k, out)
    \<Longrightarrow> bst ch (push s (frame (translateChannel2SpiCs ch) [0x70, 0, a] @ frame (translateChannel2SpiCs ch) [0x73, 0, 0]))
      = (False, a, 1, out)"
  by (simp add: bst_push bridge_frame take_frame_def deselect_def)

definition word_bytes :: "u16 \<Rightarrow> u8 list" where "word_bytes w = [lo8 w, hi8 w]"

lemma read_words_rest:
  assumes "ch < 4" "bst ch s = (False, 0xFF, k, out)"
  shows "fst (run_state (read_words (bridge_dev ch f) (translateChannel2SpiCs ch) False len) s)
    = take len (concat (map (\<lambda>i. word_bytes (f 0xFF i)) [k ..< k + (len + 1) div 2]))"
  using assms(2)
proof (induction len arbitrary: s k rule: nat_induct2)
  case 0
  then show ?case by simp
next
  case 1
  then show ?case using run_ReadDATA [OF assms(1) 1] by (simp add: word_bytes_def)
next
  case (step len)
  let ?s = "push s (frame (translateChannel2SpiCs ch) [0x73, 0, 0])"
  have IH: "fst (run_state (read_words (bridge_dev ch f) (translateChannel2SpiCs ch) False len) ?s)
    = take len (concat (map (\<lambda>i. word_bytes (f 0xFF i)) [k + 1 ..< k + 1 + (len + 1) div 2]))"
    by (rule step.IH) (rule bst_after_data [OF assms(1) step.prems])
  have "[k ..< k + (len + 2 + 1) div 2] = k # [k + 1 ..< k + 1 + (len + 1) div 2]"
    by (simp add: upt_conv_Cons)
  then show ?case using run_ReadDATA [OF assms(1) step.prems] IH
    by (simp add: word_bytes_def case_prod_beta)
qed

lemma read_words_first:
  assumes "ch < 4" "0 < len"
  shows "fst (run_state (read_words (bridge_dev ch f) (translateChannel2SpiCs ch) True len) s)
    = take len (concat (map (\<lambda>i. word_bytes (f 0xFF i)) [0 ..< (len + 1) div 2]))"
proof -
  obtain sel idx k out where b: "bst ch s = (sel, idx, k, out)" by (cases "bst ch s")
  consider "len = 1" | n where "len = n + 2" using assms(2) by (metis One_nat_def Suc_pred add_2_eq_Suc' not0_implies_Suc)
  then show ?thesis
  proof cases
    case 1
    then show ?thesis using run_ReadReg [OF assms(1)] by (simp add: word_bytes_def)
  next
    case 2
    have "[0 ..< (len + 1) div 2] = 0 # [1 ..< 1 + (n + 1) div 2]" using 2 by (simp add: upt_conv_Cons)
    then show ?thesis
      using 2 run_ReadReg [OF assms(1)] read_words_rest [OF assms(1) bst_after_reg [OF assms(1) b], of f n]
      by (simp add: word_bytes_def case_prod_beta)
  qed
qed

lemma read_tries_ready:
  assumes "ch < 4" "f 0xC6 0 AND 0x0005 = 0x0005" "0 < len"
  shows "fst (run_state (read_tries (Suc n) (bridge_dev ch f) (translateChannel2SpiCs ch) type r len buf) s)
    = (uint (f 0xC2 0), take len (concat (map (\<lambda>i. word_bytes (f 0xFF i)) [0 ..< (len + 1) div 2])) @ drop len buf)"
  using assms(2) by (simp add: run_ReadReg [OF assms(1)] read_words_first [OF assms(1,3)] case_prod_beta)

lemma read_tries_busy:
  assumes "ch < 4" "f 0xC6 0 AND 0x0005 \<noteq> 0x0005"
  shows "fst (run_state (read_tries n (bridge_dev ch f) (translateChannel2SpiCs ch) type r len buf) s) = (0, buf)"
proof (induction n arbitrary: s type)
  case (Suc n)
  then show ?case using assms(2) by (simp add: run_ReadReg [OF assms(1)])
qed simp

text \<open>The transfers of a read: one to three tries, each with the number of bytes asked for, the
  mode, the packet with the register alone and the status; then, when the status reports data, the
  number of bytes received and the words of the data register.\<close>

definition ask_wire :: "u8 \<Rightarrow> nat \<Rightarrow> u8 list list" where
  "ask_wire r len =
     [[0x70, 0, 0xC1], [0x72, word_of_nat (len div 256), word_of_nat len], [0x70, 0, 0xB7], [0x72, 3, 0xC0],
      [0x70, 0, 0xC0], [0x72, 1, 0], [0x70, 0, 0xBC], [0x72, 0, 1], [0x70, 0, 0xBF], [0x72, 0, r]]"

definition try_wire :: "u8 \<Rightarrow> nat \<Rightarrow> u8 list list" where
  "try_wire r len = ask_wire r len @ [[0x70, 0, 0xC6], [0x73, 0, 0]]"

definition data_wire :: "nat \<Rightarrow> u8 list list" where
  "data_wire len = [[0x70, 0, 0xC2], [0x73, 0, 0], [0x70, 0, 0xFF]] @ replicate ((len + 1) div 2) [0x73, 0, 0]"

definition read_wire :: "bool \<Rightarrow> u8 \<Rightarrow> nat \<Rightarrow> u8 list list" where
  "read_wire ready r len =
     (if ready then try_wire r len @ data_wire len else try_wire r len @ try_wire r len @ try_wire r len)"

lemma run_ReadDATA_log:
  "snd (run_state (ReadDATASSD2828Reg dev n) s) = push s (frame n [0x73, 0, 0])"
  by (simp add: ReadDATASSD2828Reg_def case_prod_beta)

lemma run_ReadReg_frames:
  "snd (run_state (ReadSSD2828Reg dev n a) s) = push s (concat (map (frame n) [[0x70, 0, a], [0x73, 0, 0]]))"
  by (simp add: ReadSSD2828Reg_def run_ReadDATA_log)

lemma read_words_log:
  "snd (run_state (read_words dev n first len) s)
    = push s (concat (map (frame n) ((if first \<and> 0 < len then [[0x70, 0, 0xFF]] else [])
        @ replicate ((len + 1) div 2) [0x73, 0, 0])))"
proof (induction len arbitrary: s first rule: nat_induct2)
  case 0
  then show ?case by simp
next
  case 1
  then show ?case by (simp add: case_prod_beta run_ReadDATA_log run_ReadReg_frames)
next
  case (step len)
  have "(len + 2 + 1) div 2 = Suc ((len + 1) div 2)" by simp
  then show ?case by (simp add: case_prod_beta run_ReadDATA_log run_ReadReg_frames step.IH)
qed

lemma lo_hi_consts: "hi8 0x03c0 = 3" "lo8 0x03c0 = 0xC0" "hi8 0x0100 = 1" "lo8 0x0100 = 0" "hi8 0x0001 = 0"
    "lo8 0x0001 = 1" "hi8 0x030b = 3" "lo8 0x030b = 0x0b" "hi8 0x030a = 3" "lo8 0x030a = 0x0a"
  by (simp_all add: hi8_def lo8_def)

text \<open>One try up to the status.\<close>

definition try_events :: "nat \<Rightarrow> u8 \<Rightarrow> nat \<Rightarrow> spi_ev list" where
  "try_events ch r len = (let n = translateChannel2SpiCs ch in
     concat (map (frame n) (ask_wire r len)) @ [Msleep 10] @ concat (map (frame n) [[0x70, 0, 0xC6], [0x73, 0, 0]]))"

lemma only_to_try: "ch < 4 \<Longrightarrow> only_to ch (try_events ch r len) (try_wire r len)"
  using only_to_append [OF only_to_frames only_to_append [OF only_to_sleep only_to_frames],
      of ch "ask_wire r len" 10 "[[0x70, 0, 0xC6], [0x73, 0, 0]]"]
  by (simp only: try_events_def try_wire_def Let_def append_Nil)

lemma ask_frames:
  "reg_frames n (0xC1, word_of_nat len) @ reg_frames n (0xB7, 0x03c0) @ reg_frames n (0xC0, 0x0100)
      @ reg_frames n (0xBC, 0x0001) @ reg_frames n (0xBF, ucast r)
    = concat (map (frame n) (ask_wire r len))"
  unfolding reg_frames_def ask_wire_def fst_conv snd_conv hi_lo_nat lo_hi_consts lo_hi_join
  by (simp only: list.map concat.simps append_assoc append_Nil2)

lemma read_tries_Suc_bridge:
  assumes "ch < 4"
  shows "run_state (read_tries (Suc k) (bridge_dev ch f) (translateChannel2SpiCs ch) 1 r len buf) s
    = (if f 0xC6 0 AND 0x0005 = 0x0005
       then (case run_state (read_words (bridge_dev ch f) (translateChannel2SpiCs ch) True len)
                (push s (try_events ch r len @ concat (map (frame (translateChannel2SpiCs ch)) [[0x70, 0, 0xC2], [0x73, 0, 0]])))
             of (bs, s'') \<Rightarrow> ((uint (f 0xC2 0), bs @ drop len buf), s''))
       else run_state (read_tries k (bridge_dev ch f) (translateChannel2SpiCs ch) 1 r len buf) (push s (try_events ch r len)))"
proof -
  let ?n = "translateChannel2SpiCs ch"
  have te: "try_events ch r len = reg_frames ?n (0xC1, word_of_nat len) @ reg_frames ?n (0xB7, 0x03c0)
      @ reg_frames ?n (0xC0, 0x0100) @ reg_frames ?n (0xBC, 0x0001) @ reg_frames ?n (0xBF, ucast r) @ [Msleep 10]
      @ frame ?n [0x70, 0, 0xC6] @ frame ?n [0x73, 0, 0]"
    by (simp add: try_events_def Let_def ask_frames [symmetric])
  show ?thesis unfolding te by (simp add: run_ReadReg [OF assms] case_prod_beta)
qed

text \<open>The bytes behind the data register, low byte first.\<close>

definition fifo_byte :: "(u8 \<Rightarrow> nat \<Rightarrow> u16) \<Rightarrow> nat \<Rightarrow> u8" where
  "fifo_byte f i = ucast (drop_bit (8 * (i mod 2)) (f 0xFF (i div 2)))"

lemma lo_hi_bytes: "lo8 w = ucast w" "hi8 w = ucast (drop_bit 8 w)"
  by (auto intro!: bit_word_eqI simp: bit_hi_lo bit_simps add.commute)

lemma concat_pairs: "concat (map (\<lambda>i. [g (2 * i), g (2 * i + 1)]) [0 ..< k]) = map g [0 ..< 2 * k]"
  by (induction k) simp_all

lemma fifo_bytes:
  "take len (concat (map (\<lambda>i. word_bytes (f 0xFF i)) [0 ..< (len + 1) div 2])) = map (fifo_byte f) [0 ..< len]"
proof -
  have "word_bytes (f 0xFF i) = [fifo_byte f (2 * i), fifo_byte f (2 * i + 1)]" for i
    by (simp add: word_bytes_def fifo_byte_def lo_hi_bytes)
  then have "concat (map (\<lambda>i. word_bytes (f 0xFF i)) [0 ..< (len + 1) div 2])
      = map (fifo_byte f) [0 ..< 2 * ((len + 1) div 2)]"
    by (simp only: concat_pairs)
  moreover have "min (2 * ((len + 1) div 2)) len = len" by simp
  ultimately show ?thesis by (simp add: take_map)
qed

text \<open>A DCS read: the buffer, and the transfers.\<close>

lemma run_read_bridge:
  assumes "ch < 4" "0 < len"
  shows "\<exists>n es. run_state (ReadModReg (bridge_dev ch f) ch 1 r len buf) s
      = ((n, if f 0xC6 0 AND 0x0005 = 0x0005 then map (fifo_byte f) [0 ..< len] @ drop len buf else buf),
         s\<lparr>md_log := md_log s @ es\<rparr>)
    \<and> only_to ch es (read_wire (f 0xC6 0 AND 0x0005 = 0x0005) r len)"
proof (cases "f 0xC6 0 AND 0x0005 = 0x0005")
  case True
  let ?n = "translateChannel2SpiCs ch" and ?dev = "bridge_dev ch f"
  let ?s = "push s (try_events ch r len @ concat (map (frame ?n) [[0x70, 0, 0xC2], [0x73, 0, 0]]))"
  let ?es = "try_events ch r len @ concat (map (frame ?n) (data_wire len))"
  have "run_state (read_words ?dev ?n True len) ?s = (map (fifo_byte f) [0 ..< len], push s ?es)"
    using read_words_first [OF assms, of f ?s, unfolded fifo_bytes] read_words_log [of ?dev ?n True len ?s] assms(2)
    by (simp add: prod_eq_iff data_wire_def)
  then have "run_state (ReadModReg ?dev ch 1 r len buf) s
      = ((uint (f 0xC2 0), map (fifo_byte f) [0 ..< len] @ drop len buf), push s ?es)"
    using True read_tries_Suc_bridge [OF assms(1), of 2 f r len buf s]
    by (simp add: ReadModReg_def numeral_3_eq_3 del: read_tries.simps(2))
  moreover have "only_to ch ?es (read_wire True r len)"
    unfolding read_wire_def if_True by (rule only_to_append [OF only_to_try only_to_frames]) (rule assms(1))+
  ultimately show ?thesis using True by (auto simp: push_def)
next
  case False
  let ?t = "try_events ch r len"
  have "run_state (ReadModReg (bridge_dev ch f) ch 1 r len buf) s = ((0, buf), push s (?t @ ?t @ ?t))"
    using False read_tries_Suc_bridge [OF assms(1), of 2 f r len buf s]
      read_tries_Suc_bridge [OF assms(1), of 1 f r len buf "push s ?t"]
      read_tries_Suc_bridge [OF assms(1), of 0 f r len buf "push s (?t @ ?t)"]
    by (simp add: ReadModReg_def numeral_3_eq_3 numeral_2_eq_2 del: read_tries.simps(2))
  moreover have "only_to ch (?t @ ?t @ ?t) (read_wire False r len)"
    unfolding read_wire_def if_False
    by (rule only_to_append [OF only_to_try only_to_append [OF only_to_try only_to_try]]) (rule assms(1))+
  ultimately show ?thesis using False by (auto simp: push_def)
qed

lemma run_speed_wire:
  assumes "ch < 4"
  shows "\<exists>es. run_state (setMipi2828HighSpeedMode dev ch b) s
      = ((), s\<lparr>md_log := md_log s @ es, md_isHiSpeedMode := b\<rparr>)
    \<and> only_to ch es [[0x70, 0, 0xB7], [0x72, 3, if b then 0x0b else 0x0a]]"
  using only_to_frames [OF assms, of "[[0x70, 0, 0xB7], [0x72, 3, if b then 0x0b else 0x0a]]"]
  by (intro exI [of _ "reg_frames (translateChannel2SpiCs ch) (0xB7, if b then 0x030b else 0x030a)"])
    (auto simp: setMipi2828HighSpeedMode_def reg_frames_def MIPI_2828_MODE_REG_def lo_hi_consts push_def)

section \<open>Timing registers\<close>

lemma porch_reg_small:
  assumes "0 \<le> h" "h < 256"
  shows "porch_reg h b = word_of_int h"
proof -
  have "h AND (0xff + push_bit 8 (uint b)) = h"
  proof (rule bit_eqI)
    fix n
    have "bit (0xff + push_bit 8 (uint b) :: int) n" if "n < 8"
    proof -
      have "(0xff + push_bit 8 (uint b)) mod 2 ^ 8 = (0xff :: int)" by (simp add: push_bit_eq_mult)
      then have "bit (take_bit 8 (0xff + push_bit 8 (uint b)) :: int) n" 
        using that by (simp add: take_bit_eq_mod bit_iff_odd less_Suc_eq numeral_eq_Suc) auto
      then show ?thesis by (simp add: bit_take_bit_iff)
    qed
    moreover have "\<not> bit h n" if "8 \<le> n"
    proof -
      have "h < 2 ^ n" using assms(2) power_increasing [OF that, of "2 :: int"] by simp
      then show ?thesis using assms(1) by (simp add: bit_iff_odd)
    qed
    ultimately show "bit (h AND (0xff + push_bit 8 (uint b))) n \<longleftrightarrow> bit h n"
      by (cases "n < 8") (auto simp: bit_and_iff not_less)
  qed
  then show ?thesis by (simp add: porch_reg_def)
qed

lemma pll_range_code:
  assumes "62500000 \<le> f" "f \<le> 1000000000"
  shows "pll_range f = 256 * (if f < 125000000 then 0x04 else if f < 250000000 then 0x44
            else if f < 500000000 then 0x84 else 0xc4)"
  using assms by (simp add: pll_range_def)

lemma uint16: "0 \<le> x \<Longrightarrow> x < 65536 \<Longrightarrow> uint (word_of_int x :: u16) = x"
  by (simp add: uint_word_of_int_eq take_bit_int_eq_self)

lemma pll_word:
  fixes c :: int
  assumes "0 \<le> c" "c < 256" "0 \<le> m" "m < 256"
  shows "uint (word_of_int (256 * c + m) :: u16) = 256 * c + m"
  by (rule uint16) (use assms in linarith)+

lemma lp_clock:
  fixes f :: int
  assumes "80000000 \<le> f" "f \<le> 1000000000"
  shows "uint (word_of_int (f div 80000000 - 1) :: u16) = f div 80000000 - 1"
    "10000000 \<le> f div 8 div (f div 80000000)" "f div 8 div (f div 80000000) < 20000000"
proof -
  define q where "q = f div 80000000"
  have q: "1 \<le> q" "q < 13" "80000000 * q \<le> f" "f < 80000000 * (q + 1)" using assms by (auto simp: q_def)
  then show "uint (word_of_int (f div 80000000 - 1) :: u16) = f div 80000000 - 1"
    unfolding q_def [symmetric] by (intro uint16) linarith+
  define d where "d = f div 8"
  have "8 * d \<le> f" "f < 8 * d + 8" by (auto simp: d_def)
  moreover have "f < 160000000 * q" using q by (simp add: algebra_simps)
  ultimately have "10000000 * q \<le> d" "d < 20000000 * q" using q(3) by linarith+
  moreover from this have "10000000 * q div q \<le> d div q" using q(1) by (intro zdiv_mono1) simp_all
  moreover have "d div q * q \<le> d" using q(1) by (simp add: minus_mod_eq_div_mult [symmetric])
  ultimately have "d div q * q < 20000000 * q" "10000000 \<le> d div q" using q(1) by (linarith, simp)
  then show "10000000 \<le> f div 8 div (f div 80000000)" "f div 8 div (f div 80000000) < 20000000"
    unfolding d_def [symmetric] q_def [symmetric] using q(1) by simp_all
qed

section \<open>Properties\<close>

text \<open>
  C22: Whatever was selected before, the transfers of a packet that mipi2828Write2IC sends to
  one of the four channels are taken by that channel's bridge alone (a bridge takes what is
  sent on its controller while its chip select is low): the virtual channel register with 0;
  then, without data, the register as a command; otherwise the number of data bytes and the
  packet cache with the register and the data, byte by byte in order, the second byte of each
  transfer first, filled with one zero byte when the number of data bytes is even.
\<close>

theorem packet_reaches_its_bridge:
  assumes "ch < 4"
  shows "\<exists>es. run_state (mipi2828Write2IC dev ch r d) s = ((), s\<lparr>md_log := md_log s @ es\<rparr>)
    \<and> (\<forall>ch' < 4. \<forall>sel. taken ch' es sel = (if ch' = ch then packet_wire r d else []))"
  using run_Write2IC_wire [OF assms] unfolding only_to_def .

lemma packet_reaches_its_bridge_witness:
  "\<exists>es. run_state (mipi2828Write2IC (bridge_dev 2 (\<lambda>_ _. 0)) 2 0xB9 [0xFF, 0x83, 0x94]) mipi2828ModuleInit
      = ((), mipi2828ModuleInit\<lparr>md_log := es\<rparr>)
    \<and> taken 2 es True = [[0x70, 0, 0xB8], [0x72, 0, 0], [0x70, 0, 0xBC], [0x72, 0, 3], [0x70, 0, 0xBF],
        [0x72, 0xFF, 0xB9], [0x72, 0x94, 0x83]] \<and> taken 3 es True = []"
  using packet_reaches_its_bridge [of 2 "bridge_dev 2 (\<lambda>_ _. 0)" "0xB9" "[0xFF, 0x83, 0x94]" mipi2828ModuleInit]
  by (auto simp: packet_wire_def mipi2828ModuleInit_def)

text \<open>
  ReadModReg on a bridge whose registers answer by a function: when the status register
  reports data it returns the byte count the bridge gives and fills the buffer with the words
  of the data register in order, cut to the length asked for; after three tries without data
  it returns 0 and leaves the buffer.
\<close>

theorem register_read_outcomes:
  assumes "ch < 4" "0 < len"
  shows "fst (run_state (ReadModReg (bridge_dev ch f) ch type r len buf) s)
    = (if f 0xC6 0 AND 0x0005 = 0x0005
       then (uint (f 0xC2 0), take len (concat (map (\<lambda>i. word_bytes (f 0xFF i)) [0 ..< (len + 1) div 2])) @ drop len buf)
       else (0, buf))"
  using read_tries_ready [OF assms(1) _ assms(2), of f 2] read_tries_busy [OF assms(1), of f 3]
  by (simp add: ReadModReg_def numeral_3_eq_3 numeral_2_eq_2)

lemma register_read_outcomes_witness:
  "fst (run_state (ReadModReg (bridge_dev 1 (\<lambda>r k. if r = 0xFF then word_of_nat k else 5)) 1 1 0xB6 3 [9, 9, 9, 9]) mipi2828ModuleInit)
    = (5, [0, 0, 1, 9])"
  using register_read_outcomes [of 1 3 "\<lambda>r k. if r = 0xFF then word_of_nat k else 5" 1 "0xB6" "[9, 9, 9, 9]" mipi2828ModuleInit]
  by (simp add: word_bytes_def lo8_def hi8_def upt_rec)

text \<open>
  For horizontal timings below 256 the vertical sync width and porches have no influence on
  the bridge configuration, because + binds tighter than & in calculateConfigParams.
\<close>

theorem vertical_porches_are_lost:
  assumes "0 \<le> hsyncpulseWidth t" "0 \<le> hBackPorch t" "hBackPorch t + hsyncpulseWidth t < 256"
    "0 \<le> hFrontPorch t" "hFrontPorch t < 256" "syncMode t \<in> {0, 1, 2}"
  shows "calculateConfigParams ta (t\<lparr>vsyncpulseWidth := a, vBackPorch := b, vFrontPorch := c\<rparr>) conf
    = calculateConfigParams ta t conf"
proof -
  have h: "porch_reg (hsyncpulseWidth t) x = word_of_int (hsyncpulseWidth t)"
    "porch_reg (hBackPorch t) x = word_of_int (hBackPorch t)"
    "porch_reg (hBackPorch t + hsyncpulseWidth t) x = word_of_int (hBackPorch t + hsyncpulseWidth t)"
    "porch_reg (hFrontPorch t) x = word_of_int (hFrontPorch t)" for x
    by (rule porch_reg_small; use assms in simp)+
  then show ?thesis using assms(6) by (auto simp: calculateConfigParams_def Let_def)
qed

text \<open>A panel of 720 by 1280 points on four lanes.\<close>

definition demo_picture :: picture_timing where
  "demo_picture = \<lparr>vsyncpulseWidth = 4, hsyncpulseWidth = 20, vBackPorch = 12, hBackPorch = 60, vFrontPorch = 16,
     hFrontPorch = 60, vActiveTime = 1280, hActiveTime = 720, laneCnt = 4, pt_bit = 8, dsifre = 480000000,
     syncMode = 2, hTotal = 860, vTotal = 1312\<rparr>"

lemma vertical_porches_are_lost_witness:
  "calculateConfigParams 0 (demo_picture\<lparr>vsyncpulseWidth := 40, vBackPorch := 120, vFrontPorch := 160\<rparr>)
      (md_configure mipi2828ModuleInit)
    = calculateConfigParams 0 demo_picture (md_configure mipi2828ModuleInit)"
  by (rule vertical_porches_are_lost) (simp_all add: demo_picture_def)

text \<open>
  For link frequencies from 62.5 MHz to 1 GHz the PLL register holds the range code and the
  multiplier of the frequency; the divider register keeps the low-power clock between 10 and
  20 MHz from 80 MHz on, and wraps to 0xFFFF below.
\<close>

theorem clock_registers:
  assumes "62500000 \<le> dsifre t" "dsifre t \<le> 1000000000"
  shows "uint (reg_ba (calculateConfigParams ta t conf)) div 256
      = (if dsifre t < 125000000 then 0x04 else if dsifre t < 250000000 then 0x44
         else if dsifre t < 500000000 then 0x84 else 0xc4)
    \<and> uint (reg_ba (calculateConfigParams ta t conf)) mod 256 = dsifre t div 6250000
    \<and> (if dsifre t < 80000000 then reg_bb (calculateConfigParams ta t conf) = 0xFFFF
       else 10000000 \<le> dsifre t div 8 div (uint (reg_bb (calculateConfigParams ta t conf)) + 1)
          \<and> dsifre t div 8 div (uint (reg_bb (calculateConfigParams ta t conf)) + 1) < 20000000)"
proof -
  define f where "f = dsifre t"
  have f: "62500000 \<le> f" "f \<le> 1000000000" using assms by (simp_all add: f_def)
  have sd: "f sdiv n = f div n" if "0 < n" for n using f that by (simp add: signed_divide_int_def)
  define c where "c = (if f < 125000000 then 0x04 else if f < 250000000 then 0x44
      else if f < 500000000 then 0x84 else 0xc4 :: int)"
  define m where "m = f div 6250000"
  have m: "0 \<le> m" "m < 256" and c: "0 \<le> c" "c < 256" using f by (auto simp: c_def m_def)
  have "uint (reg_ba (calculateConfigParams ta t conf)) = 256 * c + m"
    using pll_word [OF c m] pll_range_code [OF f]
    by (simp add: calculateConfigParams_def Let_def sd c_def m_def flip: f_def)
  moreover have "(256 * c + m) div 256 = c" "(256 * c + m) mod 256 = m"
    using m by simp_all
  moreover have bb: "reg_bb (calculateConfigParams ta t conf) = word_of_int (f div 80000000 - 1)"
    by (simp add: calculateConfigParams_def Let_def sd flip: f_def)
  moreover have "f div 80000000 - 1 = -1" if "f < 80000000" using that f by simp
  ultimately show ?thesis using lp_clock [OF _ f(2)] unfolding f_def [symmetric] c_def [symmetric] m_def [symmetric]
    by (cases "f < 80000000") simp_all
qed

lemma clock_registers_witness:
  "uint (reg_ba (calculateConfigParams 0 demo_picture (md_configure mipi2828ModuleInit))) mod 256 = 76
   \<and> uint (reg_ba (calculateConfigParams 0 demo_picture (md_configure mipi2828ModuleInit))) div 256 = 0x84"
  using clock_registers [of demo_picture 0 "md_configure mipi2828ModuleInit"] by (simp add: demo_picture_def)

section \<open>Opening\<close>

text \<open>After \<open>mipi2828Open\<close> every bridge has taken the mode, the same set-up and the mode again.\<close>

lemma config_idem:
  "calculateConfigParams ta t (calculateConfigParams ta t c) = calculateConfigParams ta t c"
  by (simp add: calculateConfigParams_def Let_def)

definition setup_writes :: "configure2828 \<Rightarrow> (u8 \<times> u16) list" where
  "setup_writes c = [(MIPI_2828_MODE_REG, 0x030a)] @ config_regs c @ [(MIPI_2828_MODE_REG, 0x030b)]"

definition reg_list_frames :: "nat \<Rightarrow> (u8 \<times> u16) list \<Rightarrow> spi_ev list" where
  "reg_list_frames n rs = concat (map (reg_frames n) rs)"

lemma bridge_list_frames:
  assumes "ch < 4" "ch' < 4"
  shows "writes_of (bridge_run ch' (reg_list_frames (translateChannel2SpiCs ch) rs) b)
    = writes_of b @ (if ch' = ch then rs else [])"
proof (induction rs arbitrary: b)
  case Nil
  then show ?case by (simp add: reg_list_frames_def)
next
  case (Cons r rs)
  obtain a d where r: "r = (a, d)" by (cases r)
  obtain sel idx k out where b: "b = (sel, idx, k, out)" by (cases b)
  have "writes_of (bridge_run ch' (reg_frames (translateChannel2SpiCs ch) r) b)
    = writes_of b @ (if ch' = ch then [r] else [])"
  proof (cases "ch' = ch")
    case True
    then show ?thesis using bridge_reg_frames [OF assms(1)] by (simp add: r b writes_of_def)
  next
    case False
    have "snd (bridge_run ch' (concat [frame (translateChannel2SpiCs ch) [0x70, 0, a],
        frame (translateChannel2SpiCs ch) [0x72, hi8 d, lo8 d]]) b) = snd b"
      by (rule frames_other [OF assms False]) auto
    then show ?thesis using False by (simp add: r reg_frames_def writes_of_def)
  qed
  then show ?case using Cons.IH by (simp add: reg_list_frames_def)
qed

lemma bridge_sleep [simp]: "bridge_run ch (Msleep n # es) b = bridge_run ch es b"
  by (cases b) (simp add: bridge_run_def)

definition init_frames :: "nat \<Rightarrow> configure2828 \<Rightarrow> spi_ev list" where
  "init_frames ch c =
     reg_list_frames (translateChannel2SpiCs ch) [(MIPI_2828_MODE_REG, 0x030a)] @ [Msleep 10]
     @ reg_list_frames (translateChannel2SpiCs ch) (config_regs c) @ [Msleep 10]
     @ reg_list_frames (translateChannel2SpiCs ch) [(MIPI_2828_MODE_REG, 0x030b)]"

lemma run_initChannel:
  "run_state (initChannel ta dev ch) s
    = ((), s\<lparr>md_configure := calculateConfigParams ta (md_timing s) (md_configure s), md_isHiSpeedMode := True,
             md_log := md_log s @ init_frames ch (calculateConfigParams ta (md_timing s) (md_configure s))\<rparr>)"
  by (simp add: initChannel_def setMipi2828HighSpeedMode_def ConfigSSD2828_def reg_list_frames_def push_def init_frames_def)

lemma init_writes:
  assumes "ch < 4" "ch' < 4"
  shows "writes_of (bridge_run ch' (init_frames ch c) b) = writes_of b @ (if ch' = ch then setup_writes c else [])"
  by (simp add: init_frames_def setup_writes_def bridge_list_frames [OF assms])

lemma reset_writes:
  assumes "ch < 4" "p \<in> {74, 11, 10}"
  shows "bridge_run ch (Pin p v # es) b = bridge_run ch es b"
  by (rule channel_cases [OF assms(1)]; insert assms(2); cases b)
    (auto simp: bridge_run_def ports cs_pin_def SPI0_CS_PIN_def SPI1_CS_PIN_def)

lemma read_frame_writes:
  assumes "ch < 4" "ch' < 4" "t \<noteq> 0x72"
  shows "writes_of (bridge_run ch' (frame (translateChannel2SpiCs ch) [t, h, l]) b) = writes_of b"
  using bridge_frame [OF assms(1,2), of "[t, h, l]" "fst b" "snd b"] assms(3)
  by (cases b) (simp add: writes_of_def take_frame_def deselect_def)

lemma run_ReadReg_log:
  "snd (run_state (ReadSSD2828Reg dev n a) s) = push s (frame n [0x70, 0, a] @ frame n [0x73, 0, 0])"
  by (simp add: ReadSSD2828Reg_def ReadDATASSD2828Reg_def case_prod_beta)

text \<open>
  mipi2828Open computes one configuration from the timing and makes each of the four bridges
  write the same set-up registers in the same order.
\<close>

theorem bridges_are_set_up_alike:
  assumes "ch < 4"
  shows "\<exists>s' es c. snd (run_state (mipi2828Open ta dev t) s) = s' \<and> md_log s' = md_log s @ es
    \<and> c = calculateConfigParams ta (md_timing s') (md_configure s) \<and> md_configure s' = c
    \<and> writes_of (bridge_run ch es b) = writes_of b @ setup_writes c"
proof -
  define s0 where "s0 = snd (run_state (mipiInterfaceTimingInit t) s)"
  define c where "c = calculateConfigParams ta (md_timing s0) (md_configure s)"
  have run0: "run_state (mipiInterfaceTimingInit t) s = ((), s0)"
    by (simp add: s0_def mipiInterfaceTimingInit_def)
  have s0: "md_log s0 = md_log s" "md_configure s0 = md_configure s"
    by (simp_all add: s0_def mipiInterfaceTimingInit_def)
  let ?rst = "\<lambda>ch. [Pin RST_2828_GPIO False, Msleep 10, Pin RST_2828_GPIO True,
           Pin (rst_pin ch) False, Msleep 10, Pin (rst_pin ch) True]"
  let ?rd = "\<lambda>ch. frame (translateChannel2SpiCs ch) [0x70, 0, 0xb0] @ frame (translateChannel2SpiCs ch) [0x73, 0, 0]"
  define es where "es = ?rst 0 @ ?rst 1 @ ?rst 2 @ ?rst 3 @ ?rd 3 @ ?rd 2 @ ?rd 1 @ ?rd 0
    @ init_frames 0 c @ init_frames 1 c @ init_frames 2 c @ init_frames 3 c"
  have cs: "SPI_CS 1 0 = translateChannel2SpiCs 3" "SPI_CS 1 1 = translateChannel2SpiCs 2"
    "SPI_CS 2 0 = translateChannel2SpiCs 1" "SPI_CS 2 1 = translateChannel2SpiCs 0"
    by (simp_all add: translateChannel2SpiCs_def)
  have "snd (run_state (mipi2828Open ta dev t) s)
    = s0\<lparr>md_configure := c, md_isHiSpeedMode := True, md_log := md_log s0 @ es\<rparr>"
    by (simp add: mipi2828Open_def case_prod_beta run_ReadReg_log cs mipiInterfaceReset_def run_initChannel
        run0 es_def push_def c_def s0 config_idem del: One_nat_def)
  moreover have "writes_of (bridge_run ch es b) = writes_of b @ setup_writes c"
  proof -
    have r: "rst_pin k \<in> {74, 11, 10}" "RST_2828_GPIO \<in> {74, 11, 10}" for k
      by (simp_all add: rst_pin_def RST_2828_GPIO_def)
    have "writes_of (bridge_run ch es b)
      = writes_of b @ (if ch = 0 then setup_writes c else []) @ (if ch = 1 then setup_writes c else [])
        @ (if ch = 2 then setup_writes c else []) @ (if ch = 3 then setup_writes c else [])"
      using assms by (simp add: es_def reset_writes [OF assms r(1)] reset_writes [OF assms r(2)] read_frame_writes init_writes)
    then show ?thesis using channel_cases [OF assms] by force
  qed
  ultimately show ?thesis using s0 by (auto simp: c_def)
qed

definition demo_panel :: timing_info where
  "demo_panel = \<lparr>timsignalmode = 1, timbit = 8, timvesajeda = 0, timvsyncpri = 0, timhsyncpri = 0, timde = 1,
     timvtotaltime = 1312, timhactivetime = 720, timhtotaltime = 860, timhbackporch = 60, timhfrontporch = 60,
     timhsyncpulsewidth = 20, timvactivetime = 1280, timvbackporch = 12, timvsyncpulsewidth = 4,
     timvfrontporch = 16, timclockfreq = 60, timMainFreq = 72000, timlink = [], timsignaltype = 2,
     timmipilanenum = 4, timmipisyncmode = 2, mdlmipidsiclock = 480000000\<rparr>"

lemma bridges_are_set_up_alike_witness:
  "\<exists>es c. md_log (snd (run_state (mipi2828Open 0 (bridge_dev 3 (\<lambda>_ _. 0)) demo_panel) mipi2828ModuleInit)) = es
    \<and> writes_of (bridge_run 3 es bridge_start) = setup_writes c"
  using bridges_are_set_up_alike [of 3 0 "bridge_dev 3 (\<lambda>_ _. 0)" demo_panel mipi2828ModuleInit bridge_start]
  by (auto simp: mipi2828ModuleInit_def bridge_start_def writes_of_def)

end
