(* ===== verification/ChipBus.thy ===== *)
theory ChipBus
  imports Ssd2828
begin

text \<open>
  What the drivers of panel chips (\<open>icm/chips\<close>) see of the MIPI link: packets written to a channel,
  registers read from it, the speed mode, the reset pin, pauses, and the switching of the panel
  that they ask for (\<open>client_pg_shutON\<close>), the supply of a side (\<open>pwrContorl\<close>), and control pins. A driver is a program in the state monad over the trace
  of these events and the driver's private data, one record for each channel. What a read gives
  depends on the trace up to it: \<open>None\<close> when the bridge has no answer in three tries. The last
  section shows what the operations of \<open>mipi2828.c\<close> send for these events, and that a read through
  them gives the answer of the panel.
\<close>

section \<open>Events and programs\<close>

datatype mipi_ev =
    MWrite nat u8 "u8 list"
  | MRead nat u8 nat
  | MSpeed nat bool
  | MReset nat
  | MSleep nat
  | MPower "int list"
  | MSupply bool nat
  | MPin nat bool

type_synonym panel = "mipi_ev list \<Rightarrow> (nat \<Rightarrow> u8) option"

text \<open>\<open>cs_bad\<close> records an access outside the private data.\<close>

record 'i chip_state =
  cs_log :: "mipi_ev list"
  cs_info :: "'i list"
  cs_bad :: bool

definition DEV_CHANNEL_NUM :: nat where "DEV_CHANNEL_NUM = 4"

definition record_ev :: "mipi_ev \<Rightarrow> ('i chip_state, unit) state" where
  "record_ev e = State_Monad.update (\<lambda>s. s\<lparr>cs_log := cs_log s @ [e]\<rparr>)"

definition mwrite :: "nat \<Rightarrow> u8 \<Rightarrow> u8 list \<Rightarrow> ('i chip_state, unit) state" where
  "mwrite ch r d = record_ev (MWrite ch r d)"

definition mspeed :: "nat \<Rightarrow> bool \<Rightarrow> ('i chip_state, unit) state" where "mspeed ch b = record_ev (MSpeed ch b)"
definition mreset :: "nat \<Rightarrow> ('i chip_state, unit) state" where "mreset ch = record_ev (MReset ch)"
definition msleep :: "nat \<Rightarrow> ('i chip_state, unit) state" where "msleep n = record_ev (MSleep n)"

text \<open>The buffer after a read.\<close>

definition answer :: "panel \<Rightarrow> mipi_ev list \<Rightarrow> nat \<Rightarrow> u8 list \<Rightarrow> u8 list" where
  "answer rd l len buf = (case rd l of None \<Rightarrow> buf | Some f \<Rightarrow> map f [0 ..< len] @ drop len buf)"

definition mread :: "panel \<Rightarrow> nat \<Rightarrow> u8 \<Rightarrow> nat \<Rightarrow> u8 list \<Rightarrow> ('i chip_state, u8 list) state" where
  "mread rd ch r len buf = do {
     record_ev (MRead ch r len);
     s \<leftarrow> State_Monad.get;
     State_Monad.return (answer rd (cs_log s) len buf)
   }"

definition get_info :: "nat \<Rightarrow> ('i chip_state, 'i) state" where
  "get_info ch = State (\<lambda>s. (cs_info s ! ch, if ch < length (cs_info s) then s else s\<lparr>cs_bad := True\<rparr>))"

definition upd_info :: "nat \<Rightarrow> ('i \<Rightarrow> 'i) \<Rightarrow> ('i chip_state, unit) state" where
  "upd_info ch f = State_Monad.update (\<lambda>s. if ch < length (cs_info s)
     then s\<lparr>cs_info := (cs_info s)[ch := f (cs_info s ! ch)]\<rparr> else s\<lparr>cs_bad := True\<rparr>)"

text \<open>The results of the checks after a burn.\<close>

definition E_ICM_OK :: int where "E_ICM_OK = 0"
definition E_ICM_READ_ID_ERROR :: int where "E_ICM_READ_ID_ERROR = -1"
definition E_ICM_VCOM_TIMES_NOT_CHANGE :: int where "E_ICM_VCOM_TIMES_NOT_CHANGE = -2"
definition E_ICM_VCOM_VALUE_NOT_CHANGE :: int where "E_ICM_VCOM_VALUE_NOT_CHANGE = -3"

text \<open>The wait for the end of a burn, the same loop in two drivers; a failed read leaves the flag as it was.\<close>

partial_function (option) otp_wait :: "panel \<Rightarrow> nat \<Rightarrow> u8 \<Rightarrow> 'i chip_state \<Rightarrow> 'i chip_state option" where
  "otp_wait rd ch busy s =
     (case run_state (do { msleep 10; mread rd ch 0xE9 1 [busy] }) s of
        (b, s') \<Rightarrow> if b ! 0 = 0x01 then otp_wait rd ch (b ! 0) s' else Some s')"

section \<open>Running programs\<close>

definition logged :: "'i chip_state \<Rightarrow> mipi_ev list \<Rightarrow> 'i chip_state" where
  "logged s es = s\<lparr>cs_log := cs_log s @ es\<rparr>"

named_theorems chip_run

lemma run_record [chip_run]: "run_state (record_ev e) s = ((), logged s [e])"
  by (simp add: record_ev_def logged_def)

lemma run_mwrite [chip_run]: "run_state (mwrite ch r d) s = ((), logged s [MWrite ch r d])"
  and run_mspeed [chip_run]: "run_state (mspeed ch b) s = ((), logged s [MSpeed ch b])"
  and run_mreset [chip_run]: "run_state (mreset ch) s = ((), logged s [MReset ch])"
  and run_msleep [chip_run]: "run_state (msleep n) s = ((), logged s [MSleep n])"
  by (simp_all add: mwrite_def mspeed_def mreset_def msleep_def run_record)

lemma run_mread [chip_run]:
  "run_state (mread rd ch r len buf) s
    = (answer rd (cs_log s @ [MRead ch r len]) len buf, logged s [MRead ch r len])"
  by (simp add: mread_def run_record logged_def)

lemma run_get_info [chip_run]:
  "ch < length (cs_info s) \<Longrightarrow> run_state (get_info ch) s = (cs_info s ! ch, s)"
  by (simp add: get_info_def)

lemma run_upd_info [chip_run]:
  "ch < length (cs_info s)
    \<Longrightarrow> run_state (upd_info ch f) s = ((), s\<lparr>cs_info := (cs_info s)[ch := f (cs_info s ! ch)]\<rparr>)"
  by (simp add: upd_info_def)

lemma logged_simps [simp]:
  "logged (logged s a) b = logged s (a @ b)" "cs_log (logged s a) = cs_log s @ a"
  "cs_info (logged s a) = cs_info s" "cs_bad (logged s a) = cs_bad s" "logged s [] = s"
  "cs_log (s\<lparr>cs_info := i\<rparr>) = cs_log s"
  by (simp_all add: logged_def)

lemma logged_eq [simp]: "logged s a = logged s b \<longleftrightarrow> a = b"
  by (auto simp: logged_def dest: arg_cong [where f = cs_log])

text \<open>The trace after \<open>n\<close> rounds of the wait, and whether the panel then reports the end.\<close>

definition poll_events :: "nat \<Rightarrow> nat \<Rightarrow> mipi_ev list" where
  "poll_events ch n = concat (replicate n [MSleep 10, MRead ch 0xE9 1])"

definition poll_done :: "panel \<Rightarrow> nat \<Rightarrow> mipi_ev list \<Rightarrow> nat \<Rightarrow> bool" where
  "poll_done rd ch l n = (case rd (l @ poll_events ch (n + 1)) of None \<Rightarrow> False | Some f \<Rightarrow> f 0 \<noteq> 1)"

lemma poll_events_Suc: "poll_events ch (Suc n) = [MSleep 10, MRead ch 0xE9 1] @ poll_events ch n"
  by (simp add: poll_events_def)

lemma poll_shift: "poll_done rd ch (l @ [MSleep 10, MRead ch 0xE9 1]) n = poll_done rd ch l (Suc n)"
  by (simp add: poll_done_def poll_events_def)

lemma otp_wait_step:
  "otp_wait rd ch 1 s = (if poll_done rd ch (cs_log s) 0 then Some (logged s (poll_events ch 1))
     else otp_wait rd ch 1 (logged s (poll_events ch 1)))"
  by (subst otp_wait.simps)
    (auto simp: chip_run answer_def poll_done_def poll_events_def split: option.splits)

lemma otp_wait_done:
  "(\<forall>m < n. \<not> poll_done rd ch (cs_log s) m) \<Longrightarrow> poll_done rd ch (cs_log s) n
    \<Longrightarrow> otp_wait rd ch 1 s = Some (logged s (poll_events ch (Suc n)))"
proof (induction n arbitrary: s)
  case 0
  then show ?case by (subst otp_wait_step) simp
next
  case (Suc n)
  then have "\<not> poll_done rd ch (cs_log s) 0" by blast
  moreover have "otp_wait rd ch 1 (logged s (poll_events ch 1)) = Some (logged (logged s (poll_events ch 1)) (poll_events ch (Suc n)))"
    by (rule Suc.IH) (use Suc.prems in \<open>auto simp: poll_events_def poll_shift [unfolded One_nat_def]\<close>)
  ultimately show ?case by (subst otp_wait_step) (simp add: poll_events_Suc poll_events_def)
qed

lemma otp_wait_result:
  assumes "otp_wait rd ch b s = Some s'"
  shows "b = 1 \<longrightarrow> (\<exists>n. poll_done rd ch (cs_log s) n)"
proof (rule otp_wait.raw_induct [where P = "\<lambda>rd ch b s s'. b = 1 \<longrightarrow> (\<exists>n. poll_done rd ch (cs_log s) n)", OF _ assms])
  fix w :: "panel \<Rightarrow> nat \<Rightarrow> u8 \<Rightarrow> 'i chip_state \<Rightarrow> 'i chip_state option" and rd ch b and s s'
  assume IH: "\<And>rd ch b s s'. w rd ch b s = Some s' \<Longrightarrow> b = 1 \<longrightarrow> (\<exists>n. poll_done rd ch (cs_log s) n)"
    and run: "(case run_state (msleep 10 \<bind> (\<lambda>_. mread rd ch 0xE9 1 [b])) s of
        (b, s') \<Rightarrow> if b ! 0 = 0x01 then w rd ch (b ! 0) s' else Some s') = Some s'"
  show "b = 1 \<longrightarrow> (\<exists>n. poll_done rd ch (cs_log s) n)"
  proof (cases "poll_done rd ch (cs_log s) 0")
    case False
    then have "w rd ch 1 (logged s [MSleep 10, MRead ch 0xE9 1]) = Some s'" if "b = 1"
      using run that by (auto simp: chip_run answer_def poll_done_def poll_events_def split: option.splits if_splits)
    from IH [OF this] show ?thesis by (auto simp: poll_shift [unfolded One_nat_def])
  qed blast
qed

lemma otp_wait_returns_iff: "otp_wait rd ch 1 s \<noteq> None \<longleftrightarrow> (\<exists>n. poll_done rd ch (cs_log s) n)"
proof
  assume "\<exists>n. poll_done rd ch (cs_log s) n"
  then obtain n where "poll_done rd ch (cs_log s) n" "\<forall>m < n. \<not> poll_done rd ch (cs_log s) m"
    using exists_least_iff [of "poll_done rd ch (cs_log s)"] by blast
  then show "otp_wait rd ch 1 s \<noteq> None" using otp_wait_done [of n rd ch s] by simp
qed (auto dest: otp_wait_result)

lemma otp_wait_cases:
  obtains (forever) "otp_wait rd ch 1 s = None" "\<And>n. \<not> poll_done rd ch (cs_log s) n"
  | (ended) n where "otp_wait rd ch 1 s = Some (logged s (poll_events ch (n + 1)))" "poll_done rd ch (cs_log s) n"
proof (cases "\<exists>n. poll_done rd ch (cs_log s) n")
  case True
  then obtain n where "poll_done rd ch (cs_log s) n" "\<forall>m < n. \<not> poll_done rd ch (cs_log s) m"
    using exists_least_iff [of "poll_done rd ch (cs_log s)"] by blast
  then show ?thesis using otp_wait_done [of n rd ch s] by (intro ended) simp_all
next
  case False
  then show ?thesis using otp_wait_returns_iff [of rd ch s] by (intro forever) blast+
qed

section \<open>Rules for programs\<close>

text \<open>\<open>emits E p\<close>: every event of \<open>p\<close> is in \<open>E\<close>. \<open>keeps_info p\<close>: \<open>p\<close> does not touch the private data.\<close>

definition emits :: "mipi_ev set \<Rightarrow> ('i chip_state, 'a) state \<Rightarrow> bool" where
  "emits E p \<longleftrightarrow> (\<forall>s. \<exists>es. cs_log (snd (run_state p s)) = cs_log s @ es \<and> set es \<subseteq> E)"

definition keeps_info :: "('i chip_state, 'a) state \<Rightarrow> bool" where
  "keeps_info p \<longleftrightarrow> (\<forall>s. cs_info (snd (run_state p s)) = cs_info s)"

named_theorems prog_rule

lemma emits_bind [prog_rule]:
  assumes "emits E p" "\<And>a. emits E (f a)"
  shows "emits E (p \<bind> f)"
  unfolding emits_def
proof
  fix s
  obtain a s1 where p: "run_state p s = (a, s1)" by fastforce
  have "\<exists>es. cs_log (snd (run_state p s)) = cs_log s @ es \<and> set es \<subseteq> E" using assms(1) unfolding emits_def by blast
  then obtain es1 where "cs_log s1 = cs_log s @ es1" "set es1 \<subseteq> E" using p by auto
  moreover obtain es2 where "cs_log (snd (run_state (f a) s1)) = cs_log s1 @ es2" "set es2 \<subseteq> E"
    using assms(2) unfolding emits_def by blast
  ultimately show "\<exists>es. cs_log (snd (run_state (p \<bind> f) s)) = cs_log s @ es \<and> set es \<subseteq> E"
    using p by (intro exI [of _ "es1 @ es2"]) simp
qed

lemma keeps_info_bind [prog_rule]: "keeps_info (p \<bind> f)" if "keeps_info p" "\<And>a. keeps_info (f a)"
  using that by (simp add: keeps_info_def case_prod_beta)

lemma emits_return [prog_rule]: "emits E (State_Monad.return x)"
  and keeps_info_return [prog_rule]: "keeps_info (State_Monad.return x)"
  by (simp_all add: emits_def keeps_info_def)

lemma emits_events [prog_rule]:
  "MWrite ch r d \<in> E \<Longrightarrow> emits E (mwrite ch r d)" "MSpeed ch b \<in> E \<Longrightarrow> emits E (mspeed ch b)"
  "MReset ch \<in> E \<Longrightarrow> emits E (mreset ch)" "MSleep n \<in> E \<Longrightarrow> emits E (msleep n)"
  "MRead ch r len \<in> E \<Longrightarrow> emits E (mread rd ch r len buf)" "e \<in> E \<Longrightarrow> emits E (record_ev e)"
  by (auto simp: emits_def chip_run)

lemma keeps_info_events [prog_rule]:
  "keeps_info (mwrite ch r d)" "keeps_info (mspeed ch b)" "keeps_info (mreset ch)" "keeps_info (msleep n)"
  "keeps_info (mread rd ch r len buf)" "keeps_info (record_ev e)" "keeps_info (get_info ch)"
  by (simp_all add: keeps_info_def chip_run get_info_def)

lemma emits_info [prog_rule]: "emits E (get_info ch)" "emits E (upd_info ch f)"
  by (simp_all add: emits_def get_info_def upd_info_def)

lemma prog_if [prog_rule]:
  "(b \<Longrightarrow> emits E p) \<Longrightarrow> (\<not> b \<Longrightarrow> emits E q) \<Longrightarrow> emits E (if b then p else q)"
  "(b \<Longrightarrow> keeps_info p') \<Longrightarrow> (\<not> b \<Longrightarrow> keeps_info q') \<Longrightarrow> keeps_info (if b then p' else q')"
  by simp_all

lemma prog_case [prog_rule]:
  "(x = None \<Longrightarrow> emits E p) \<Longrightarrow> (\<And>v. x = Some v \<Longrightarrow> emits E (q v)) \<Longrightarrow> emits E (case x of None \<Rightarrow> p | Some v \<Rightarrow> q v)"
  "(x = None \<Longrightarrow> keeps_info p') \<Longrightarrow> (\<And>v. x = Some v \<Longrightarrow> keeps_info (q' v)) \<Longrightarrow> keeps_info (case x of None \<Rightarrow> p' | Some v \<Rightarrow> q' v)"
  "(\<And>a b. z = (a, b) \<Longrightarrow> emits E (f a b)) \<Longrightarrow> emits E (case z of (a, b) \<Rightarrow> f a b)"
  "(\<And>a b. z = (a, b) \<Longrightarrow> keeps_info (f' a b)) \<Longrightarrow> keeps_info (case z of (a, b) \<Rightarrow> f' a b)"
  "(\<And>a b. z = (a, b) \<Longrightarrow> emits E (g a b y)) \<Longrightarrow> emits E ((case z of (a, b) \<Rightarrow> g a b) y)"
  "(\<And>a b. z = (a, b) \<Longrightarrow> keeps_info (g' a b y)) \<Longrightarrow> keeps_info ((case z of (a, b) \<Rightarrow> g' a b) y)"
  by (auto split: option.split prod.split)

lemma emits_run:
  assumes "emits E p"
  obtains es where "cs_log (snd (run_state p s)) = cs_log s @ es" "set es \<subseteq> E"
  using assms unfolding emits_def by blast

lemma keeps_info_run: "keeps_info p \<Longrightarrow> cs_info (snd (run_state p s)) = cs_info s"
  by (simp add: keeps_info_def)

section \<open>Properties\<close>

text \<open>
  C23: The link operations of mipi2828.c implement the events that panel chip drivers are
  written over, on each of the four channels. A packet, a change of the speed mode and a read
  send the transfers of the packet, of the mode register and of the read to the bridge of the
  channel alone; a reset drives pin 11 (channels 0 and 1) or 10 low for 10 ms. A DCS read from
  a bridge whose registers answer by a function gives the driver the buffer that the event
  gives when the panel answers with the bytes of the data register, low byte first, or with
  nothing (after three tries, the buffer unchanged) when the status has not both of its bits 0
  and 2 set.
\<close>

theorem link_implements_panel:
  assumes "ch < 4" "0 < len"
    and "rd (cs_log p @ [MRead ch r len]) = (if f 0xC6 0 AND 0x0005 = 0x0005 then Some (fifo_byte f) else None)"
  shows "(\<exists>n es buf'. run_state (mread rd ch r len buf) p = (buf', p\<lparr>cs_log := cs_log p @ [MRead ch r len]\<rparr>)
      \<and> run_state (ReadModReg (bridge_dev ch f) ch 1 r len buf) s = ((n, buf'), s\<lparr>md_log := md_log s @ es\<rparr>)
      \<and> only_to ch es (read_wire (f 0xC6 0 AND 0x0005 = 0x0005) r len))
    \<and> (\<exists>es. run_state (mwrite ch r d) p = ((), p\<lparr>cs_log := cs_log p @ [MWrite ch r d]\<rparr>)
      \<and> run_state (mipi2828Write2IC dev ch r d) s = ((), s\<lparr>md_log := md_log s @ es\<rparr>)
      \<and> only_to ch es (packet_wire r d))
    \<and> (\<exists>es. run_state (mspeed ch b) p = ((), p\<lparr>cs_log := cs_log p @ [MSpeed ch b]\<rparr>)
      \<and> run_state (setMipi2828HighSpeedMode dev ch b) s = ((), s\<lparr>md_log := md_log s @ es, md_isHiSpeedMode := b\<rparr>)
      \<and> only_to ch es [[0x70, 0, 0xB7], [0x72, 3, if b then 0x0b else 0x0a]])
    \<and> (run_state (mreset ch) p = ((), p\<lparr>cs_log := cs_log p @ [MReset ch]\<rparr>)
      \<and> run_state (mipiIcReset ch) s = ((), s\<lparr>md_log := md_log s
          @ (let pin = (if ch < 2 then 11 else 10) in [Pin pin False, Msleep 10, Pin pin True])\<rparr>))"
proof (intro conjI)
  have "answer rd (cs_log p @ [MRead ch r len]) len buf
    = (if f 0xC6 0 AND 0x0005 = 0x0005 then map (fifo_byte f) [0 ..< len] @ drop len buf else buf)"
    using assms(3) by (simp add: answer_def)
  then show "\<exists>n es buf'. run_state (mread rd ch r len buf) p = (buf', p\<lparr>cs_log := cs_log p @ [MRead ch r len]\<rparr>)
      \<and> run_state (ReadModReg (bridge_dev ch f) ch 1 r len buf) s = ((n, buf'), s\<lparr>md_log := md_log s @ es\<rparr>)
      \<and> only_to ch es (read_wire (f 0xC6 0 AND 0x0005 = 0x0005) r len)"
    using run_read_bridge [OF assms(1,2), of f r buf s] by (auto simp: chip_run logged_def)
  show "\<exists>es. run_state (mwrite ch r d) p = ((), p\<lparr>cs_log := cs_log p @ [MWrite ch r d]\<rparr>)
      \<and> run_state (mipi2828Write2IC dev ch r d) s = ((), s\<lparr>md_log := md_log s @ es\<rparr>)
      \<and> only_to ch es (packet_wire r d)"
    using run_Write2IC_wire [OF assms(1), of dev r d s] by (simp add: chip_run logged_def)
  show "\<exists>es. run_state (mspeed ch b) p = ((), p\<lparr>cs_log := cs_log p @ [MSpeed ch b]\<rparr>)
      \<and> run_state (setMipi2828HighSpeedMode dev ch b) s = ((), s\<lparr>md_log := md_log s @ es, md_isHiSpeedMode := b\<rparr>)
      \<and> only_to ch es [[0x70, 0, 0xB7], [0x72, 3, if b then 0x0b else 0x0a]]"
    using run_speed_wire [OF assms(1), of dev b s] by (simp add: chip_run logged_def)
  show "run_state (mreset ch) p = ((), p\<lparr>cs_log := cs_log p @ [MReset ch]\<rparr>)"
    by (simp add: chip_run logged_def)
  show "run_state (mipiIcReset ch) s = ((), s\<lparr>md_log := md_log s
          @ (let pin = (if ch < 2 then 11 else 10) in [Pin pin False, Msleep 10, Pin pin True])\<rparr>)"
    using assms(1) by (auto simp: mipiIcReset_def rst_pin_def push_def Let_def less_Suc_eq numeral_eq_Suc)
qed

lemma link_implements_panel_witness:
  "\<exists>n es. run_state (ReadModReg (bridge_dev 1 (\<lambda>q k. if q = 0xFF then 0x8483 else 5)) 1 1 0x0A 1 [9]) mipi2828ModuleInit
    = ((n, [0x83]), mipi2828ModuleInit\<lparr>md_log := md_log mipi2828ModuleInit @ es\<rparr>)
    \<and> only_to 1 es (read_wire True 0x0A 1)"
  using link_implements_panel [of 1 1 "\<lambda>l. Some (fifo_byte (\<lambda>q k. if q = 0xFF then 0x8483 else 5))"
      "\<lparr>cs_log = [], cs_info = [()], cs_bad = False\<rparr>" "0x0A" "\<lambda>q k. if q = 0xFF then 0x8483 else 5" "[9]"
      mipi2828ModuleInit "[1]" "bridge_dev 1 (\<lambda>_ _. 0)" True]
  by (auto simp: chip_run answer_def fifo_byte_def logged_def)

end
