(* ===== verification/ChipJd9367.thy ===== *)
theory ChipJd9367
  imports ChipBus LittleEndian
begin

text \<open>
  The driver of the JD9367 panel chip, \<open>icm/chips/chip_jd9367.c\<close>: pages and registers, the one-time
  programmable memory for the common voltage and the identification, and the operations of the
  chip descriptor with the private data of the four channels; with them the handlers of the two
  burn messages of the host (\<open>clirecvcmd5srv.c\<close>), whose JSON members are arguments. \<open>rd\<close> is the
  panel. Output parameters are results; where the C code leaves one unset, its old value is an
  argument.
\<close>

record jd_info =
  ji_id :: "u8 list"
  ji_id_ok :: u8
  ji_vcom1 :: u32
  ji_vcom1_otp_times :: u32
  ji_vcom2 :: u32
  ji_vcom2_otp_times :: u32

type_synonym 'a jd = "(jd_info chip_state, 'a) state"

definition jd_zero :: jd_info where
  "jd_zero = \<lparr>ji_id = [0, 0, 0], ji_id_ok = 0, ji_vcom1 = 0, ji_vcom1_otp_times = 0, ji_vcom2 = 0, ji_vcom2_otp_times = 0\<rparr>"

definition s_jd_9367_private_info :: "jd_info list" where
  "s_jd_9367_private_info = replicate DEV_CHANNEL_NUM jd_zero"

section \<open>Registers\<close>

definition qc_do_sleep_out :: "nat \<Rightarrow> unit jd" where
  "qc_do_sleep_out ch = do { mwrite ch 0xE0 [0x00]; mwrite ch 0x28 []; msleep 120 }"

definition qc_do_sleep_in :: "nat \<Rightarrow> unit jd" where
  "qc_do_sleep_in ch = do { mwrite ch 0xE0 [0x00]; mwrite ch 0x29 []; msleep 120 }"

definition qc_read_otp_data_reg :: "panel \<Rightarrow> nat \<Rightarrow> u16 \<Rightarrow> u8 jd" where
  "qc_read_otp_data_reg rd ch otp_index = do {
     mwrite ch 0xEA [ucast (drop_bit 8 otp_index)];
     mwrite ch 0xEB [ucast (otp_index AND 0xFF)];
     mwrite ch 0xEC [0x11];
     mwrite ch 0xEC [0x10];
     b \<leftarrow> mread rd ch 0xED 1 [0, 0, 0, 0];
     State_Monad.return (b ! 0)
   }"

definition qc_read_reg :: "panel \<Rightarrow> nat \<Rightarrow> u8 \<Rightarrow> u8 \<Rightarrow> u8 jd" where
  "qc_read_reg rd ch page reg = do {
     mwrite ch 0xE0 [page];
     b \<leftarrow> mread rd ch reg 1 [0, 0, 0, 0];
     State_Monad.return (b ! 0)
   }"

definition enableExtend :: "nat \<Rightarrow> unit jd" where
  "enableExtend ch = do {
     mwrite ch 0xE0 [0x00]; mwrite ch 0xE1 [0x93]; mwrite ch 0xE2 [0x65]; mwrite ch 0xE3 [0xF8];
     mwrite ch 0xE5 [0x00]
   }"

definition initInternalPower :: "nat \<Rightarrow> unit jd" where
  "initInternalPower ch = do {
     mwrite ch 0xE0 [0x01]; mwrite ch 0x1D [0x01]; mwrite ch 0x1E [0x03]; mwrite ch 0xE0 [0x00];
     mwrite ch 0xEC [0x02]; mwrite ch 0xE0 [0x00]; mwrite ch 0x11 []
   }"

definition writeVcomReg :: "nat \<Rightarrow> u8 \<Rightarrow> u8 \<Rightarrow> unit jd" where
  "writeVcomReg ch vcomH vcomL = do { mwrite ch 0xE0 [0x01]; mwrite ch 0x00 [vcomH]; mwrite ch 0x01 [vcomL] }"

definition enableUpKey :: "nat \<Rightarrow> unit jd" where
  "enableUpKey ch = do { mwrite ch 0xE0 [0x00]; mwrite ch 0x84 [0x5A]; mwrite ch 0x85 [0xA5] }"

definition vcomOtpIndex :: "nat \<Rightarrow> unit jd" where
  "vcomOtpIndex ch = do { mwrite ch 0xEA [0x00]; mwrite ch 0xEB [0x26]; mwrite ch 0xEC [0x03] }"

definition otpEnd :: "nat \<Rightarrow> unit jd" where
  "otpEnd ch = do { mwrite ch 0x84 [0x00]; mwrite ch 0x85 [0x00] }"

section \<open>Burning\<close>

text \<open>\<open>client_pg_shutON\<close> is called with one argument less than it has; the event holds the integer
  arguments given.\<close>

definition shut_off_on :: "int \<Rightarrow> unit jd" where
  "shut_off_on ptn_id = do { record_ev (MPower [0, ptn_id]); record_ev (MPower [1, ptn_id]) }"

definition qc_otp_vcom :: "nat \<Rightarrow> u8 \<Rightarrow> u8 \<Rightarrow> int \<Rightarrow> int jd" where
  "qc_otp_vcom ch vcom_h vcom_l ptn_id = do {
     enableExtend ch;
     mwrite ch 0xE0 [0x00]; mwrite ch 0x28 []; mwrite ch 0x10 [];
     msleep 240;
     initInternalPower ch;
     msleep 240;
     writeVcomReg ch vcom_h vcom_l;
     enableUpKey ch;
     vcomOtpIndex ch;
     msleep 200;
     otpEnd ch;
     shut_off_on ptn_id;
     State_Monad.return 0
   }"

definition qc_otp_vcom_by_mtp :: "nat \<Rightarrow> u8 \<Rightarrow> u8 \<Rightarrow> int \<Rightarrow> int jd" where
  "qc_otp_vcom_by_mtp ch vcom_h vcom_l ptn_id = do {
     enableExtend ch;
     mwrite ch 0xE5 [0x00]; mwrite ch 0xE0 [0x00]; mwrite ch 0x28 []; mwrite ch 0x10 [];
     msleep 1000;
     initInternalPower ch;
     msleep 240;
     writeVcomReg ch vcom_h vcom_l;
     enableUpKey ch;
     vcomOtpIndex ch;
     msleep 200;
     otpEnd ch;
     shut_off_on ptn_id;
     State_Monad.return 0
   }"

definition writeIdReg :: "nat \<Rightarrow> u8 list \<Rightarrow> unit jd" where
  "writeIdReg ch ids = do {
     mwrite ch 0xE0 [0x00]; mwrite ch 0x78 [ids ! 0]; mwrite ch 0x79 [ids ! 1]; mwrite ch 0x7A [ids ! 2]
   }"

definition idOtpIndex :: "nat \<Rightarrow> unit jd" where
  "idOtpIndex ch = do { mwrite ch 0xEA [0x00]; mwrite ch 0xEB [0x06]; mwrite ch 0xEC [0x03] }"

text \<open>The array of three \<open>unsigned\<close> is passed where bytes are expected.\<close>

definition qc_otp_id :: "nat \<Rightarrow> u8 \<Rightarrow> u8 \<Rightarrow> u16 \<Rightarrow> int \<Rightarrow> int jd" where
  "qc_otp_id ch id1 id2 id3 ptn_id = do {
     enableExtend ch;
     mwrite ch 0xE5 [0x00]; mwrite ch 0xE0 [0x00]; mwrite ch 0x28 []; mwrite ch 0x10 [];
     msleep 240;
     initInternalPower ch;
     msleep 240;
     writeIdReg ch (concat (map le32 [ucast id1, ucast id2, ucast id3]));
     enableUpKey ch;
     idOtpIndex ch;
     msleep 200;
     otpEnd ch;
     msleep 200;
     mwrite ch 0xE0 [0x00]; mwrite ch 0x29 [];
     shut_off_on ptn_id;
     State_Monad.return 0
   }"

section \<open>Reading the memory\<close>

definition id_otp_offset :: "u8 \<Rightarrow> u16 option" where
  "id_otp_offset otp_times =
     (if otp_times = 1 then Some 0x06 else if otp_times = 2 then Some 0x0B else if otp_times = 3 then Some 0x10
      else if otp_times = 4 then Some 0x15 else if otp_times = 5 then Some 0x1A else None)"

definition vcom_otp_offset :: "u8 \<Rightarrow> u16 option" where
  "vcom_otp_offset otp_times =
     (if otp_times = 1 then Some 0x26 else if otp_times = 2 then Some 0x28 else if otp_times = 3 then Some 0x2A
      else if otp_times = 4 then Some 0x2C else if otp_times = 5 then Some 0x2E else None)"

text \<open>The result are the return value, the identification or voltage, and the number of burns.\<close>

definition qc_otp_data_read_id :: "panel \<Rightarrow> nat \<Rightarrow> u8 \<times> u8 \<times> u8 \<Rightarrow> (int \<times> (u8 \<times> u8 \<times> u8) \<times> u8) jd" where
  "qc_otp_data_read_id rd ch old = do {
     qc_do_sleep_out ch;
     otp_times \<leftarrow> qc_read_reg rd ch 0 0x7C;
     (case id_otp_offset otp_times of
        None \<Rightarrow> do { qc_do_sleep_in ch; State_Monad.return (-1, old, otp_times) }
      | Some i \<Rightarrow> do {
          id1 \<leftarrow> qc_read_otp_data_reg rd ch (i + 1);
          id2 \<leftarrow> qc_read_otp_data_reg rd ch (i + 2);
          id3 \<leftarrow> qc_read_otp_data_reg rd ch (i + 3);
          qc_do_sleep_in ch;
          State_Monad.return (0, (id1, id2, id3), otp_times)
        })
   }"

definition qc_otp_data_read_vcom :: "panel \<Rightarrow> nat \<Rightarrow> u8 \<times> u8 \<Rightarrow> (int \<times> (u8 \<times> u8) \<times> u8) jd" where
  "qc_otp_data_read_vcom rd ch old = do {
     qc_do_sleep_out ch;
     otp_times \<leftarrow> qc_read_reg rd ch 1 0x02;
     (case vcom_otp_offset otp_times of
        None \<Rightarrow> do { qc_do_sleep_in ch; State_Monad.return (-1, old, otp_times) }
      | Some i \<Rightarrow> do {
          h \<leftarrow> qc_read_otp_data_reg rd ch i;
          l \<leftarrow> qc_read_otp_data_reg rd ch (i + 1);
          qc_do_sleep_in ch;
          State_Monad.return (0, (h, l), otp_times)
        })
   }"

definition qc_set_vcom_value :: "nat \<Rightarrow> u16 \<Rightarrow> int jd" where
  "qc_set_vcom_value ch vcom = do {
     writeVcomReg ch (ucast (drop_bit 8 vcom)) (ucast (vcom AND 0xFF));
     State_Monad.return 0
   }"

section \<open>The common voltage in registers and memory\<close>

definition jd_9367_set_page :: "nat \<Rightarrow> u8 \<Rightarrow> unit jd" where
  "jd_9367_set_page ch page_no = mwrite ch 0xE0 [page_no]"

text \<open>The identification is compared with an array of zeros: nothing is read.\<close>

definition jd_9367_check_id :: "nat \<Rightarrow> int jd" where
  "jd_9367_check_id ch = do {
     let reg = ([0, 0, 0] :: u8 list);
     jd_9367_set_page ch 0;
     State_Monad.return (if reg ! 0 = 0x93 \<and> reg ! 1 = 0x67 \<and> reg ! 2 = 0xFF then 0 else -1)
   }"

definition get_otp_times :: "u8 \<Rightarrow> u8" where
  "get_otp_times otp_value =
     (if otp_value = 0 then 0 else if otp_value = 1 then 1 else if otp_value = 3 then 2
      else if otp_value = 7 then 3 else 3)"

definition jd_9367_get_vcom_otp_times :: "panel \<Rightarrow> nat \<Rightarrow> (int \<times> u8 \<times> u8) jd" where
  "jd_9367_get_vcom_otp_times rd ch = do {
     jd_9367_set_page ch 1;
     b \<leftarrow> mread rd ch 0xE8 1 [0];
     State_Monad.return (0, get_otp_times (b ! 0 AND 0x07), get_otp_times (drop_bit 3 (b ! 0) AND 0x07))
   }"

definition nvm_addr :: "int \<Rightarrow> u8 \<Rightarrow> u8 \<Rightarrow> u8" where
  "nvm_addr index times1 times2 =
     (if index = 0 then
        if times1 = 1 then 0x16 else if times1 = 2 then 0x18 else if times1 = 3 then 0x19 else 0x00
      else if index = 1 then
        if times2 = 1 then 0x1A else if times2 = 2 then 0x1C else if times2 = 3 then 0x1D else 0x00
      else 0x00)"

definition jd_9367_read_nvm_vcom :: "panel \<Rightarrow> nat \<Rightarrow> int \<Rightarrow> (int \<times> int) jd" where
  "jd_9367_read_nvm_vcom rd ch index = do {
     jd_9367_set_page ch 1;
     (_, times1, times2) \<leftarrow> jd_9367_get_vcom_otp_times rd ch;
     mwrite ch 0xE0 [0x15];
     mwrite ch 0xE1 [nvm_addr index times1 times2];
     mwrite ch 0xE3 [0x11, 0]; mwrite ch 0xE4 [0x66, 0]; mwrite ch 0xE5 [0x88, 0];
     b \<leftarrow> mread rd ch 0xEA 1 [0];
     State_Monad.return (0, uint (b ! 0))
   }"

text \<open>\<open>char\<close> is unsigned on the target.\<close>

definition jd_9367_read_vcom :: "panel \<Rightarrow> nat \<Rightarrow> (int \<times> int) jd" where
  "jd_9367_read_vcom rd ch = do {
     jd_9367_set_page ch 0;
     jd_9367_set_page ch 1;
     h \<leftarrow> mread rd ch 0x52 1 [0];
     l \<leftarrow> mread rd ch 0x53 1 [0];
     State_Monad.return (0, push_bit 8 (uint (h ! 0)) OR uint (l ! 0))
   }"

definition jd_9367_write_vcom :: "nat \<Rightarrow> int \<Rightarrow> bool \<Rightarrow> int jd" where
  "jd_9367_write_vcom ch vcom otp_burned = do {
     jd_9367_set_page ch 0;
     jd_9367_set_page ch 1;
     mwrite ch 0x56 [if otp_burned then 0x11 else 0x00];
     mwrite ch 0x52 [word_of_int (drop_bit 8 vcom AND 0x01)];
     mwrite ch 0x53 [word_of_int (vcom AND 0xFF)];
     State_Monad.return 0
   }"

definition jd_9367_burn_vcom :: "panel \<Rightarrow> nat \<Rightarrow> int \<Rightarrow> jd_info chip_state \<Rightarrow> (int \<times> jd_info chip_state) option" where
  "jd_9367_burn_vcom rd ch vcom s =
     (case run_state (do {
         jd_9367_set_page ch 0;
         mwrite ch 0x01 []; mwrite ch 0x11 [];
         msleep 120;
         jd_9367_set_page ch 1;
         jd_9367_get_vcom_otp_times rd ch
       }) s of
      ((_, vcom1_count, vcom2_count), s1) \<Rightarrow>
        if vcom1_count = 0x07 \<or> vcom2_count = 0x07 then Some (-1, s1)
        else
          (case run_state (do {
             msleep 20;
             mwrite ch 0xE1 [0x04]; mwrite ch 0xE0 [word_of_int (drop_bit 8 vcom AND 0x01)];
             mwrite ch 0xE1 [0x05]; mwrite ch 0xE0 [word_of_int (vcom AND 0xFF)];
             mwrite ch 0xE3 [0x55, 0]; mwrite ch 0xE4 [0xAA, 0]; mwrite ch 0xE5 [0x66, 0]
           }) s1 of (_, s2) \<Rightarrow>
          (case otp_wait rd ch 1 s2 of
             None \<Rightarrow> None
           | Some s3 \<Rightarrow> Some (0, snd (run_state (do { mwrite ch 0x01 []; msleep 200 }) s3)))))"

definition jd_9367_otp_check_vcom :: "panel \<Rightarrow> nat \<Rightarrow> int \<Rightarrow> int \<Rightarrow> int jd" where
  "jd_9367_otp_check_vcom rd ch new_vcom old_otp_times = do {
     val \<leftarrow> jd_9367_check_id ch;
     (if val \<noteq> 0 then State_Monad.return (-1)
      else do {
        (val, times1, times2) \<leftarrow> jd_9367_get_vcom_otp_times rd ch;
        (if val \<noteq> 0 then State_Monad.return (-2)
         else if uint times1 \<le> old_otp_times then State_Monad.return (-3)
         else do {
           (val, vcom) \<leftarrow> jd_9367_read_nvm_vcom rd ch 0;
           State_Monad.return (if val \<noteq> 0 then -4 else if vcom \<noteq> new_vcom then -5 else 0)
         })
      })
   }"

section \<open>Operations of the descriptor\<close>

definition chip_jd_9367_get_chip_id :: "panel \<Rightarrow> nat \<Rightarrow> (int \<times> u8 list) jd" where
  "chip_jd_9367_get_chip_id rd ch = do {
     qc_do_sleep_out ch;
     a \<leftarrow> qc_read_otp_data_reg rd ch 0x07;
     b \<leftarrow> qc_read_otp_data_reg rd ch 0x08;
     c \<leftarrow> qc_read_otp_data_reg rd ch 0x09;
     qc_do_sleep_in ch;
     State_Monad.return (-1, [a, b, c])
   }"

definition chip_jd_9367_check_chip_ok :: "nat \<Rightarrow> int jd" where
  "chip_jd_9367_check_chip_ok ch = State_Monad.return 0"

definition chip_jd_9367_get_and_reset_private_data :: "nat \<Rightarrow> unit jd" where
  "chip_jd_9367_get_and_reset_private_data ch = upd_info ch (\<lambda>_. jd_zero)"

text \<open>The second component is the output parameter when it is set.\<close>

definition chip_jd_9367_read_chip_vcom_opt_times :: "panel \<Rightarrow> nat \<Rightarrow> (int \<times> int option) jd" where
  "chip_jd_9367_read_chip_vcom_opt_times rd ch = do {
     i \<leftarrow> get_info ch;
     (if ji_id_ok i = 1 then do {
        (_, t1, t2) \<leftarrow> jd_9367_get_vcom_otp_times rd ch;
        State_Monad.return (0, Some (uint t1))
      }
      else State_Monad.return (-1, None))
   }"

definition chip_jd_9367_read_chip_vcom_opt_info :: "panel \<Rightarrow> nat \<Rightarrow> (int \<times> int \<times> int) jd" where
  "chip_jd_9367_read_chip_vcom_opt_info rd ch = do {
     (_, (h, l), times) \<leftarrow> qc_otp_data_read_vcom rd ch (0, 0);
     State_Monad.return (-1, uint times, push_bit 8 (uint h) OR uint l)
   }"

definition chip_jd_9367_read_vcom :: "panel \<Rightarrow> nat \<Rightarrow> (int \<times> int option) jd" where
  "chip_jd_9367_read_vcom rd ch = do {
     i \<leftarrow> get_info ch;
     (if ji_id_ok i = 1 then do {
        (_, v) \<leftarrow> jd_9367_read_vcom rd ch;
        State_Monad.return (0, Some v)
      }
      else State_Monad.return (-1, None))
   }"

definition chip_jd_9367_write_vcom :: "nat \<Rightarrow> int \<Rightarrow> int jd" where
  "chip_jd_9367_write_vcom ch vcom_value = do {
     i \<leftarrow> get_info ch;
     (if ji_id_ok i = 1 then do {
        _ \<leftarrow> jd_9367_write_vcom ch vcom_value (ji_vcom1_otp_times i \<noteq> 0);
        State_Monad.return 0
      }
      else State_Monad.return (-1))
   }"

definition chip_jd_9367_write_chip_vcom_otp_value ::
  "panel \<Rightarrow> nat \<Rightarrow> int \<Rightarrow> jd_info chip_state \<Rightarrow> (int \<times> jd_info chip_state) option" where
  "chip_jd_9367_write_chip_vcom_otp_value rd ch v s =
     (case run_state (get_info ch) s of (i, s1) \<Rightarrow>
        if ji_id_ok i = 1 then jd_9367_burn_vcom rd ch v s1 else Some (-1, s1))"

text \<open>The result and what \<open>p_read_vcom\<close> gets. A voltage that was not burnt counts as success.\<close>

definition chip_jd_9367_check_vcom_otp_burn_ok :: "nat \<Rightarrow> int \<Rightarrow> int \<Rightarrow> (int \<times> int option) jd" where
  "chip_jd_9367_check_vcom_otp_burn_ok ch vcom_value last_otp_times = do {
     val \<leftarrow> chip_jd_9367_check_chip_ok ch;
     (if val \<noteq> 0 then State_Monad.return (E_ICM_READ_ID_ERROR, None)
      else do {
        i \<leftarrow> get_info ch;
        State_Monad.return
          (if ji_vcom1_otp_times i \<noteq> word_of_int (last_otp_times + 1) then E_ICM_VCOM_TIMES_NOT_CHANGE
           else if ji_vcom1 i \<noteq> word_of_int vcom_value then E_ICM_OK else 0, Some (sint (ji_vcom1 i)))
      })
   }"

text \<open>Null pointers are \<open>None\<close>; \<open>p_id_data\<close> is the buffer, the result is the value returned with the
  buffer, the length and the number of burns.\<close>

definition chip_jd_9367_get_chip_id_otp_info ::
  "panel \<Rightarrow> nat \<Rightarrow> u8 list option \<Rightarrow> int option \<Rightarrow> bool \<Rightarrow> (int \<times> (u8 list \<times> int \<times> u8) option) jd" where
  "chip_jd_9367_get_chip_id_otp_info rd ch p_id_data p_id_data_len has_times =
     (case p_id_data of None \<Rightarrow> State_Monad.return (-1, None)
      | Some buf \<Rightarrow>
        (case p_id_data_len of None \<Rightarrow> State_Monad.return (-1, None)
         | Some n \<Rightarrow>
           if n < 3 \<or> \<not> has_times then State_Monad.return (-1, None)
           else do {
             (_, (id1, id2, id3), times) \<leftarrow> qc_otp_data_read_id rd ch (0, 0, 0);
             State_Monad.return (0, Some ([id1, id2, id3] @ drop 3 buf, 3, times))
           }))"

definition chip_jd_9367_burn_chip_id :: "nat \<Rightarrow> u8 list \<Rightarrow> int \<Rightarrow> int jd" where
  "chip_jd_9367_burn_chip_id ch ids ptn_id = do {
     _ \<leftarrow> qc_otp_id ch (ids ! 0) (ids ! 1) (ucast (ids ! 2)) ptn_id;
     State_Monad.return 0
   }"

section \<open>Any sequence of operations\<close>

datatype jd_op =
    JdGetId | JdCheckOk | JdReset | JdReadTimes | JdReadInfo | JdReadVcom | JdWriteVcom int | JdBurnVcom int
  | JdCheckBurn int int | JdIdInfo "u8 list option" "int option" bool | JdBurnId "u8 list" int

fun jd_op_run :: "panel \<Rightarrow> nat \<Rightarrow> jd_op \<Rightarrow> jd_info chip_state \<Rightarrow> jd_info chip_state option" where
  "jd_op_run rd ch JdGetId s = Some (snd (run_state (chip_jd_9367_get_chip_id rd ch) s))"
| "jd_op_run rd ch JdCheckOk s = Some (snd (run_state (chip_jd_9367_check_chip_ok ch) s))"
| "jd_op_run rd ch JdReset s = Some (snd (run_state (chip_jd_9367_get_and_reset_private_data ch) s))"
| "jd_op_run rd ch JdReadTimes s = Some (snd (run_state (chip_jd_9367_read_chip_vcom_opt_times rd ch) s))"
| "jd_op_run rd ch JdReadInfo s = Some (snd (run_state (chip_jd_9367_read_chip_vcom_opt_info rd ch) s))"
| "jd_op_run rd ch JdReadVcom s = Some (snd (run_state (chip_jd_9367_read_vcom rd ch) s))"
| "jd_op_run rd ch (JdWriteVcom v) s = Some (snd (run_state (chip_jd_9367_write_vcom ch v) s))"
| "jd_op_run rd ch (JdBurnVcom v) s = map_option snd (chip_jd_9367_write_chip_vcom_otp_value rd ch v s)"
| "jd_op_run rd ch (JdCheckBurn v t) s = Some (snd (run_state (chip_jd_9367_check_vcom_otp_burn_ok ch v t) s))"
| "jd_op_run rd ch (JdIdInfo p n t) s = Some (snd (run_state (chip_jd_9367_get_chip_id_otp_info rd ch p n t) s))"
| "jd_op_run rd ch (JdBurnId ids ptn) s = Some (snd (run_state (chip_jd_9367_burn_chip_id ch ids ptn) s))"

fun jd_run :: "panel \<Rightarrow> (nat \<times> jd_op) list \<Rightarrow> jd_info chip_state \<Rightarrow> jd_info chip_state option" where
  "jd_run rd [] s = Some s"
| "jd_run rd ((ch, op) # ops) s =
     (case jd_op_run rd ch op s of None \<Rightarrow> None | Some s' \<Rightarrow> jd_run rd ops s')"

definition id_never_ok :: "jd_info chip_state \<Rightarrow> bool" where
  "id_never_ok s \<longleftrightarrow> length (cs_info s) = DEV_CHANNEL_NUM \<and> (\<forall>i \<in> set (cs_info s). ji_id_ok i = 0)"

lemmas jd_accesses = qc_do_sleep_out_def qc_do_sleep_in_def qc_read_otp_data_reg_def qc_read_reg_def
  qc_otp_data_read_id_def qc_otp_data_read_vcom_def jd_9367_set_page_def jd_9367_get_vcom_otp_times_def
  jd_9367_read_vcom_def jd_9367_write_vcom_def

lemmas jd_burns = enableExtend_def initInternalPower_def writeVcomReg_def enableUpKey_def vcomOtpIndex_def
  otpEnd_def shut_off_on_def qc_otp_vcom_def writeIdReg_def idOtpIndex_def qc_otp_id_def

lemmas jd_operations = chip_jd_9367_get_chip_id_def chip_jd_9367_check_chip_ok_def
  chip_jd_9367_read_chip_vcom_opt_times_def chip_jd_9367_read_chip_vcom_opt_info_def chip_jd_9367_read_vcom_def
  chip_jd_9367_write_vcom_def chip_jd_9367_check_vcom_otp_burn_ok_def chip_jd_9367_get_chip_id_otp_info_def
  chip_jd_9367_burn_chip_id_def

lemma jd_keeps_info [prog_rule]:
  "keeps_info (qc_do_sleep_out ch)" "keeps_info (qc_do_sleep_in ch)" "keeps_info (qc_read_otp_data_reg rd ch i)"
  "keeps_info (qc_read_reg rd ch p r)" "keeps_info (jd_9367_get_vcom_otp_times rd ch)"
  "keeps_info (jd_9367_read_vcom rd ch)" "keeps_info (jd_9367_write_vcom ch v b)"
  "keeps_info (qc_otp_id ch a b' c ptn)"
  unfolding jd_accesses jd_burns Let_def by (intro prog_rule)+

lemma jd_reads_keep_info [prog_rule]:
  "keeps_info (qc_otp_data_read_id rd ch old)" "keeps_info (qc_otp_data_read_vcom rd ch old')"
  unfolding qc_otp_data_read_id_def qc_otp_data_read_vcom_def by (intro prog_rule)+

lemma jd_operations_keep_info:
  "keeps_info (chip_jd_9367_get_chip_id rd ch)" "keeps_info (chip_jd_9367_check_chip_ok ch)"
  "keeps_info (chip_jd_9367_read_chip_vcom_opt_times rd ch)" "keeps_info (chip_jd_9367_read_chip_vcom_opt_info rd ch)"
  "keeps_info (chip_jd_9367_read_vcom rd ch)" "keeps_info (chip_jd_9367_write_vcom ch v)"
  "keeps_info (chip_jd_9367_check_vcom_otp_burn_ok ch v t)"
  "keeps_info (chip_jd_9367_get_chip_id_otp_info rd ch p n has)" "keeps_info (chip_jd_9367_burn_chip_id ch ids ptn)"
  unfolding jd_operations Let_def by (intro prog_rule)+

lemma id_not_ok: "id_never_ok s \<Longrightarrow> ch < 4 \<Longrightarrow> ch < length (cs_info s) \<and> ji_id_ok (cs_info s ! ch) = 0"
  by (simp add: id_never_ok_def DEV_CHANNEL_NUM_def)

lemma jd_op_keeps_id:
  assumes "id_never_ok s" "ch < 4"
  shows "\<exists>s'. jd_op_run rd ch op s = Some s' \<and> id_never_ok s'"
proof (cases op)
  case JdReset
  then show ?thesis using assms
    by (auto simp: chip_jd_9367_get_and_reset_private_data_def run_upd_info id_never_ok_def DEV_CHANNEL_NUM_def
        jd_zero_def dest!: set_update_subset_insert [THEN subsetD])
next
  case (JdBurnVcom v)
  then show ?thesis using id_not_ok [OF assms] assms(1)
    by (simp add: chip_jd_9367_write_chip_vcom_otp_value_def chip_run)
qed (use assms(1) in \<open>simp_all add: id_never_ok_def keeps_info_run [OF jd_operations_keep_info(1)]
    keeps_info_run [OF jd_operations_keep_info(2)] keeps_info_run [OF jd_operations_keep_info(3)]
    keeps_info_run [OF jd_operations_keep_info(4)] keeps_info_run [OF jd_operations_keep_info(5)]
    keeps_info_run [OF jd_operations_keep_info(6)] keeps_info_run [OF jd_operations_keep_info(7)]
    keeps_info_run [OF jd_operations_keep_info(8)] keeps_info_run [OF jd_operations_keep_info(9)]\<close>)

lemma jd_run_keeps_id:
  "id_never_ok s \<Longrightarrow> \<forall>(ch, op) \<in> set ops. ch < 4 \<Longrightarrow> \<exists>s'. jd_run rd ops s = Some s' \<and> id_never_ok s'"
proof (induction ops arbitrary: s)
  case (Cons x ops)
  obtain ch op where x: "x = (ch, op)" by fastforce
  then have "ch < 4" using Cons.prems(2) by simp
  from jd_op_keeps_id [OF Cons.prems(1) this, of rd op]
  obtain s1 where "jd_op_run rd ch op s = Some s1" "id_never_ok s1" by blast
  then show ?case using Cons.IH [of s1] Cons.prems(2) x by simp
qed simp

section \<open>Properties\<close>

text \<open>
  Over any sequence of the JD9367 operations the channel is never marked as identified, so
  reading and setting the voltage and reading the number of burns fail for ever; the check
  itself reports success without looking at the panel.
\<close>

theorem jd9367_voltage_is_never_accessible:
  assumes "cs_info s = s_jd_9367_private_info" "\<forall>(ch, op) \<in> set ops. ch < 4" "ch < 4"
  shows "\<exists>s'. jd_run rd ops s = Some s'
    \<and> run_state (chip_jd_9367_write_vcom ch v) s' = (-1, s')
    \<and> run_state (chip_jd_9367_read_vcom rd ch) s' = ((-1, None), s')
    \<and> run_state (chip_jd_9367_read_chip_vcom_opt_times rd ch) s' = ((-1, None), s')
    \<and> chip_jd_9367_write_chip_vcom_otp_value rd ch v s' = Some (-1, s')"
proof -
  have "id_never_ok s" using assms(1) by (simp add: id_never_ok_def s_jd_9367_private_info_def jd_zero_def)
  then obtain s' where s': "jd_run rd ops s = Some s'" "id_never_ok s'" using jd_run_keeps_id assms(2) by blast
  then show ?thesis using id_not_ok [OF s'(2) assms(3)]
    by (simp add: chip_jd_9367_write_vcom_def chip_jd_9367_read_vcom_def chip_jd_9367_read_chip_vcom_opt_times_def
        chip_jd_9367_write_chip_vcom_otp_value_def chip_run)
qed

lemma jd9367_voltage_is_never_accessible_witness:
  "\<exists>s'. jd_run (\<lambda>_. Some (\<lambda>_. 0x93)) [(1, JdReset), (1, JdCheckOk), (1, JdGetId)]
      \<lparr>cs_log = [], cs_info = s_jd_9367_private_info, cs_bad = False\<rparr> = Some s'
    \<and> run_state (chip_jd_9367_write_vcom 1 100) s' = (-1, s')"
  using jd9367_voltage_is_never_accessible [of "\<lparr>cs_log = [], cs_info = s_jd_9367_private_info, cs_bad = False\<rparr>"
      "[(1, JdReset), (1, JdCheckOk), (1, JdGetId)]" 1 "\<lambda>_. Some (\<lambda>_. 0x93)" 100]
  by auto

end
