(* ===== verification/OtpMessages.thy ===== *)
theory OtpMessages
  imports ChipJd9367 Fpga
begin

text \<open>
  The two messages by which the host has the common voltage and the identification of a panel
  burnt (\<open>SERVER2CLI_MSG_OTP\<close> and \<open>SERVER2CLI_MSG_WRITE_ID_OTP_INFO\<close> of \<open>clirecvcmd5srv.c\<close>).
  The members of their JSON text are arguments, \<open>None\<close> for a member that is absent; the number of
  the pattern shown (\<open>client_pg_ptnId_get\<close>) is an argument; the answers to the host are results.
  The second part describes a chip that keeps what is burnt and follows it over a trace of
  accesses.
\<close>

section \<open>The messages\<close>

definition E_ERROR_OK :: int where "E_ERROR_OK = 0"
definition E_ERROR_OTP_TIMES_END :: int where "E_ERROR_OTP_TIMES_END = -1"
definition E_ERROR_OTP_TIMES_NOT_CHANGE :: int where "E_ERROR_OTP_TIMES_NOT_CHANGE = -2"
definition E_ERROR_OTP_DATA_WRITE_FAILED :: int where "E_ERROR_OTP_DATA_WRITE_FAILED = -3"

datatype otp_answer =
    client_sendOtp int int int
  | client_send_id_Otp_end int int int
  | client_send_gen_cmd_read_lcd_id_notify int "u8 list" int u8

definition json_int :: "int \<Rightarrow> int option \<Rightarrow> int" where
  "json_int d m = (case m of None \<Rightarrow> d | Some v \<Rightarrow> v)"

text \<open>The burn and its check.\<close>

definition burn_vcom_and_check :: "panel \<Rightarrow> int \<Rightarrow> nat \<Rightarrow> u8 \<Rightarrow> u8 \<Rightarrow> u8 \<Rightarrow> int jd" where
  "burn_vcom_and_check rd ptn_id channel vcom_h vcom_l old_otp_times = do {
     _ \<leftarrow> qc_otp_vcom channel vcom_h vcom_l ptn_id;
     (_, (new_vcom_h, new_vcom_l), new_otp_times) \<leftarrow> qc_otp_data_read_vcom rd channel (0, 0);
     State_Monad.return
       (if new_otp_times \<le> old_otp_times then E_ERROR_OTP_TIMES_NOT_CHANGE
        else if vcom_h \<noteq> new_vcom_h \<or> vcom_l \<noteq> new_vcom_l then E_ERROR_OTP_DATA_WRITE_FAILED
        else E_ERROR_OK)
   }"

definition server_msg_otp ::
  "panel \<Rightarrow> int \<Rightarrow> nat \<Rightarrow> int option \<Rightarrow> int option \<Rightarrow> fpga \<Rightarrow> (otp_answer \<times> fpga) jd" where
  "server_msg_otp rd ptn_id channel json_vcom json_max_otp_times fp = do {
     let vcom = json_int 0 json_vcom;
     let max_otp_times = json_int 3 json_max_otp_times;
     let vcom_h = (word_of_int (drop_bit 8 vcom AND 0xFF) :: u8);
     let vcom_l = (word_of_int (vcom AND 0xFF) :: u8);
     (_, (old_vcom_h, old_vcom_l), old_otp_times) \<leftarrow> qc_otp_data_read_vcom rd channel (0, 0);
     error \<leftarrow>
       (if old_vcom_h \<noteq> vcom_h \<or> old_vcom_l \<noteq> vcom_l then
          if max_otp_times \<le> uint old_otp_times then State_Monad.return E_ERROR_OTP_TIMES_END
          else burn_vcom_and_check rd ptn_id channel vcom_h vcom_l old_otp_times
        else State_Monad.return E_ERROR_OK);
     State_Monad.return (client_sendOtp (int channel) error max_otp_times, fpgaShowRgb 0xFF 0xFF 0xFF fp)
   }"

text \<open>For the identification the burn goes through the chip manager, \<open>burn\<close>; \<open>None\<close> is a crash in it.\<close>

definition server_msg_write_id_otp_info ::
  "panel \<Rightarrow> (nat \<Rightarrow> u8 list \<Rightarrow> nat \<Rightarrow> int \<Rightarrow> jd_info chip_state \<Rightarrow> jd_info chip_state option) \<Rightarrow> int \<Rightarrow> nat
    \<Rightarrow> int option \<Rightarrow> int option \<Rightarrow> int option \<Rightarrow> int option \<Rightarrow> jd_info chip_state
    \<Rightarrow> (otp_answer \<times> jd_info chip_state) option" where
  "server_msg_write_id_otp_info rd burn ptn_id channel json_id1 json_id2 json_id3 json_max_otp_times s =
     (let max_otp_times = json_int 3 json_max_otp_times;
          id1 = word_of_int (json_int 0 json_id1); id2 = word_of_int (json_int 0 json_id2);
          id3 = word_of_int (json_int 0 json_id3);
          answer_id = (\<lambda>error s'. Some (client_send_id_Otp_end (int channel) error max_otp_times, s'))
      in case run_state (qc_otp_data_read_id rd channel (0, 0, 0)) s of
        ((_, (old_id1, old_id2, old_id3), old_otp_times), s1) \<Rightarrow>
          if old_id1 \<noteq> id1 \<or> old_id2 \<noteq> id2 \<or> old_id3 \<noteq> id3 then
            if max_otp_times \<le> uint old_otp_times then answer_id E_ERROR_OTP_TIMES_END s1
            else
              (case burn channel [id1, id2, id3] 3 ptn_id s1 of
                 None \<Rightarrow> None
               | Some s2 \<Rightarrow>
                 (case run_state (qc_otp_data_read_id rd channel (0, 0, 0)) s2 of
                    ((_, (new_id1, new_id2, new_id3), new_otp_times), s3) \<Rightarrow>
                      answer_id
                        (if new_otp_times \<le> old_otp_times then E_ERROR_OTP_TIMES_NOT_CHANGE
                         else if id1 \<noteq> new_id1 \<or> id2 \<noteq> new_id2 \<or> id3 \<noteq> new_id3
                           then E_ERROR_OTP_DATA_WRITE_FAILED
                         else E_ERROR_OK) s3))
          else answer_id E_ERROR_OK s1)"

text \<open>The burn with this chip chosen: the manager calls the operation that reads the identification,
  so the length and the pattern number are taken for addresses. \<open>ints\<close> are the integers the
  program has in memory; \<open>None\<close> is the access to another address.\<close>

definition jd_burn_id_call :: "(int \<rightharpoonup> int) \<Rightarrow> panel \<Rightarrow> nat \<Rightarrow> u8 list \<Rightarrow> nat \<Rightarrow> int
    \<Rightarrow> jd_info chip_state \<Rightarrow> jd_info chip_state option" where
  "jd_burn_id_call ints rd channel id_data id_data_len ptn_id s =
     (case (if id_data_len = 0 then Some None else map_option Some (ints (int id_data_len))) of
        None \<Rightarrow> None
      | Some len \<Rightarrow>
        (case run_state (chip_jd_9367_get_chip_id_otp_info rd channel (Some id_data) len (ptn_id \<noteq> 0)) s of
           ((ret, _), s') \<Rightarrow> if ret = 0 \<and> ints ptn_id = None then None else Some s'))"

text \<open>The message that asks for the identification; \<open>read_id\<close> is the operation of the chip chosen.\<close>

definition server_msg_read_id_otp_info ::
  "(nat \<Rightarrow> u8 list option \<Rightarrow> int option \<Rightarrow> bool \<Rightarrow> (int \<times> (u8 list \<times> int \<times> u8) option) jd) \<Rightarrow> nat option \<Rightarrow> otp_answer jd" where
  "server_msg_read_id_otp_info read_id json_mipi_channel = do {
     let mipi_channel = (case json_mipi_channel of None \<Rightarrow> 1 | Some c \<Rightarrow> c);
     let id_datas = (replicate 8 0 :: u8 list);
     (ret, out) \<leftarrow> read_id mipi_channel (Some id_datas) (Some 4) True;
     (case (case out of None \<Rightarrow> (id_datas, 4, 0) | Some x \<Rightarrow> x) of
        (id_datas, id_len, otp_times) \<Rightarrow>
          State_Monad.return
            (client_send_gen_cmd_read_lcd_id_notify (int mipi_channel) id_datas (if ret \<noteq> 0 then 0 else id_len) otp_times))
   }"

section \<open>A chip that keeps what is burnt\<close>

record jd_chip =
  jc_page :: u8
  jc_vcom :: "u8 \<times> u8"
  jc_key :: "u8 \<times> u8"
  jc_index :: "u8 \<times> u8"
  jc_burnt :: "(u8 \<times> u8) list"

text \<open>The effect of a packet. A burn needs both keys, the index of the voltage and the command 3.\<close>

definition jd_reg :: "u8 \<Rightarrow> u8 list \<Rightarrow> jd_chip \<Rightarrow> jd_chip" where
  "jd_reg r d c =
     (case d of [] \<Rightarrow> c
      | v # _ \<Rightarrow>
        if r = 0xE0 then c\<lparr>jc_page := v\<rparr>
        else if r = 0x00 \<and> jc_page c = 1 then c\<lparr>jc_vcom := (v, snd (jc_vcom c))\<rparr>
        else if r = 0x01 \<and> jc_page c = 1 then c\<lparr>jc_vcom := (fst (jc_vcom c), v)\<rparr>
        else if r = 0x84 \<and> jc_page c = 0 then c\<lparr>jc_key := (v, snd (jc_key c))\<rparr>
        else if r = 0x85 \<and> jc_page c = 0 then c\<lparr>jc_key := (fst (jc_key c), v)\<rparr>
        else if r = 0xEA then c\<lparr>jc_index := (v, snd (jc_index c))\<rparr>
        else if r = 0xEB then c\<lparr>jc_index := (fst (jc_index c), v)\<rparr>
        else if r = 0xEC \<and> v = 0x03 \<and> jc_key c = (0x5A, 0xA5) \<and> jc_index c = (0x00, 0x26)
          then c\<lparr>jc_burnt := jc_burnt c @ [jc_vcom c]\<rparr>
        else c)"

fun jd_event :: "nat \<Rightarrow> mipi_ev \<Rightarrow> jd_chip \<Rightarrow> jd_chip" where
  "jd_event ch (MWrite c r d) chip = (if c = ch then jd_reg r d chip else chip)"
| "jd_event ch _ chip = chip"

definition chip_after :: "nat \<Rightarrow> jd_chip \<Rightarrow> mipi_ev list \<Rightarrow> jd_chip" where
  "chip_after ch chip l = fold (jd_event ch) l chip"

text \<open>What the chip answers: the number of burns, and the bytes of the burns at their places.\<close>

definition jd_answer :: "nat \<Rightarrow> jd_chip \<Rightarrow> mipi_ev \<Rightarrow> u8 option" where
  "jd_answer ch chip e =
     (if e = MRead ch 0x02 1 \<and> jc_page chip = 1 then Some (word_of_nat (length (jc_burnt chip)))
      else if e = MRead ch 0xED 1 \<and> fst (jc_index chip) = 0 \<and> 0x26 \<le> snd (jc_index chip) then
        (let k = unat (snd (jc_index chip)) - 0x26 in
         if k div 2 < length (jc_burnt chip)
         then Some ((if even k then fst else snd) (jc_burnt chip ! (k div 2))) else None)
      else None)"

definition keeps_burns :: "panel \<Rightarrow> nat \<Rightarrow> jd_chip \<Rightarrow> bool" where
  "keeps_burns rd ch chip \<longleftrightarrow>
     (\<forall>l e v. jd_answer ch (chip_after ch chip l) e = Some v \<longrightarrow> map_option (\<lambda>f. f 0) (rd (l @ [e])) = Some v)"

definition jd_panel :: "nat \<Rightarrow> jd_chip \<Rightarrow> panel" where
  "jd_panel ch chip l = map_option (\<lambda>v _. v) (jd_answer ch (chip_after ch chip (butlast l)) (last l))"

lemma jd_panel_keeps_burns: "keeps_burns (jd_panel ch chip) ch chip"
  by (simp add: keeps_burns_def jd_panel_def)

lemma chip_after_append [simp]: "chip_after ch chip (a @ b) = chip_after ch (chip_after ch chip a) b"
  and chip_after_nil [simp]: "chip_after ch chip [] = chip"
  and chip_after_cons [simp]: "chip_after ch chip (e # l) = chip_after ch (jd_event ch e chip) l"
  by (simp_all add: chip_after_def)

lemma jd_reg_simps [simp]:
  "jd_reg r [] c = c"
  "jd_reg 0xE0 (v # d) c = c\<lparr>jc_page := v\<rparr>"
  "jd_reg 0xEA (v # d) c = c\<lparr>jc_index := (v, snd (jc_index c))\<rparr>"
  "jd_reg 0xEB (v # d) c = c\<lparr>jc_index := (fst (jc_index c), v)\<rparr>"
  by (simp_all add: jd_reg_def)

lemma jd_command:
  "jd_reg 0xEC (v # d) c
    = (if v = 0x03 \<and> jc_key c = (0x5A, 0xA5) \<and> jc_index c = (0x00, 0x26)
       then c\<lparr>jc_burnt := jc_burnt c @ [jc_vcom c]\<rparr> else c)"
  by (simp add: jd_reg_def)

lemma read_kept:
  assumes "keeps_burns rd ch chip" "jd_answer ch (chip_after ch chip l) (MRead ch r 1) = Some v"
  shows "answer rd (l @ [MRead ch r 1]) 1 (x # xs) ! 0 = v"
proof -
  from assms obtain f where "rd (l @ [MRead ch r 1]) = Some f" "f 0 = v" unfolding keeps_burns_def by blast
  then show ?thesis by (simp add: answer_def)
qed

lemma read_byte_kept:
  assumes kept: "keeps_burns rd ch chip" and k: "k div 2 < length (jc_burnt (chip_after ch chip (cs_log s)))" "k < 10"
  shows "\<exists>es. run_state (qc_read_otp_data_reg rd ch (0x26 + word_of_nat k)) s
      = ((if even k then fst else snd) (jc_burnt (chip_after ch chip (cs_log s)) ! (k div 2)), logged s es)
    \<and> chip_after ch chip (cs_log s @ es)
      = chip_after ch chip (cs_log s)\<lparr>jc_index := (0, 0x26 + word_of_nat k)\<rparr>"
proof -
  define w where "w = (0x26 + word_of_nat k :: u16)"
  have "k = 0 \<or> k = 1 \<or> k = 2 \<or> k = 3 \<or> k = 4 \<or> k = 5 \<or> k = 6 \<or> k = 7 \<or> k = 8 \<or> k = 9"
    using k(2) by presburger
  then have w: "ucast (drop_bit 8 w) = (0 :: u8)" "ucast (w AND 0xFF) = (0x26 + word_of_nat k :: u8)"
    "unat (0x26 + word_of_nat k :: u8) = 0x26 + k" "0x26 \<le> (0x26 + word_of_nat k :: u8)"
    unfolding w_def by (elim disjE; simp)+
  let ?c = "chip_after ch chip (cs_log s)"
  let ?ws = "[MWrite ch 0xEA [0], MWrite ch 0xEB [0x26 + word_of_nat k], MWrite ch 0xEC [0x11], MWrite ch 0xEC [0x10]]"
  have c: "chip_after ch chip (cs_log s @ ?ws) = ?c\<lparr>jc_index := (0, 0x26 + word_of_nat k)\<rparr>"
    by (simp add: jd_command)
  have "jd_answer ch (chip_after ch chip (cs_log s @ ?ws)) (MRead ch 0xED 1)
      = Some ((if even k then fst else snd) (jc_burnt ?c ! (k div 2)))"
    unfolding c using k w(3,4) by (simp add: jd_answer_def Let_def)
  from read_kept [OF kept this, of 0 "[0, 0, 0]"]
  have r: "answer rd (cs_log s @ ?ws @ [MRead ch 0xED 1]) 1 [0, 0, 0, 0] ! 0
      = (if even k then fst else snd) (jc_burnt ?c ! (k div 2))" by simp
  have "run_state (qc_read_otp_data_reg rd ch w) s
      = ((if even k then fst else snd) (jc_burnt ?c ! (k div 2)), logged s (?ws @ [MRead ch 0xED 1]))"
    using r by (simp add: qc_read_otp_data_reg_def chip_run w(1,2) del: One_nat_def)
  moreover have "chip_after ch chip (cs_log s @ ?ws @ [MRead ch 0xED 1])
      = ?c\<lparr>jc_index := (0, 0x26 + word_of_nat k)\<rparr>" using c by simp
  ultimately show ?thesis unfolding w_def by blast
qed

lemma read_vcom_kept:
  assumes kept: "keeps_burns rd ch chip" and c: "chip_after ch chip (cs_log s) = c" and n: "length (jc_burnt c) \<le> 5"
  shows "\<exists>code es. run_state (qc_otp_data_read_vcom rd ch (0, 0)) s
      = ((code, if jc_burnt c = [] then (0, 0) else last (jc_burnt c), word_of_nat (length (jc_burnt c))), logged s es)
    \<and> jc_burnt (chip_after ch chip (cs_log s @ es)) = jc_burnt c"
proof -
  let ?n = "length (jc_burnt c)"
  let ?pre = "[MWrite ch 0xE0 [0], MWrite ch 0x28 [], MSleep 120, MWrite ch 0xE0 [1]]"
  let ?post = "[MWrite ch 0xE0 [0], MWrite ch 0x29 [], MSleep 120]"
  have c1: "chip_after ch chip (cs_log s @ ?pre) = c\<lparr>jc_page := 1\<rparr>" using c by simp
  have "jd_answer ch (chip_after ch chip (cs_log s @ ?pre)) (MRead ch 0x02 1) = Some (word_of_nat ?n)"
    unfolding c1 by (simp add: jd_answer_def)
  from read_kept [OF kept this, of 0 "[0, 0, 0]"]
  have times: "answer rd (cs_log s @ ?pre @ [MRead ch 0x02 1]) 1 [0, 0, 0, 0] ! 0 = word_of_nat ?n" by simp
  define s1 where "s1 = logged s (?pre @ [MRead ch 0x02 1])"
  have s1: "jc_burnt (chip_after ch chip (cs_log s1)) = jc_burnt c"
    unfolding s1_def using c1 by simp
  define s0 where "s0 = logged s (butlast ?pre)"
  have run0: "run_state (qc_do_sleep_out ch) s = ((), s0)"
    by (simp add: qc_do_sleep_out_def chip_run s0_def)
  have run1: "run_state (qc_read_reg rd ch 1 0x02) s0 = (word_of_nat ?n, s1)"
    using times by (simp add: qc_read_reg_def chip_run s1_def s0_def del: One_nat_def)
  have end_run: "run_state (qc_do_sleep_in ch) t = ((), logged t ?post)" for t
    by (simp add: qc_do_sleep_in_def chip_run)
  show ?thesis
  proof (cases "?n = 0")
    case True
    have "run_state (qc_otp_data_read_vcom rd ch (0, 0)) s
        = ((-1, (0, 0), word_of_nat ?n), logged s (?pre @ [MRead ch 0x02 1] @ ?post))"
      using run1 True by (simp add: qc_otp_data_read_vcom_def vcom_otp_offset_def run0 end_run s1_def)
    moreover have "jc_burnt (chip_after ch chip (cs_log s @ ?pre @ [MRead ch 0x02 1] @ ?post)) = jc_burnt c"
      using c1 by simp
    ultimately show ?thesis using True by auto
  next
    case False
    define i where "i = (0x26 + word_of_nat (2 * (?n - 1)) :: u16)"
    have off: "vcom_otp_offset (word_of_nat ?n) = Some i"
    proof -
      have "?n = 1 \<or> ?n = 2 \<or> ?n = 3 \<or> ?n = 4 \<or> ?n = 5" using n False by presburger
      then show ?thesis unfolding i_def by (elim disjE) (simp_all add: vcom_otp_offset_def)
    qed
    have lst: "jc_burnt c ! (?n - 1) = last (jc_burnt c)" using False by (simp add: last_conv_nth)
    have k1: "2 * (?n - 1) div 2 < length (jc_burnt (chip_after ch chip (cs_log s1)))" "2 * (?n - 1) < 10"
      using n False unfolding s1 by auto
    from read_byte_kept [OF kept k1] obtain es1 where h:
      "run_state (qc_read_otp_data_reg rd ch i) s1 = (fst (last (jc_burnt c)), logged s1 es1)"
      "jc_burnt (chip_after ch chip (cs_log (logged s1 es1))) = jc_burnt c"
      using s1 lst by (auto simp: i_def)
    define s2 where "s2 = logged s1 es1"
    have k2: "(2 * (?n - 1) + 1) div 2 < length (jc_burnt (chip_after ch chip (cs_log s2)))" "2 * (?n - 1) + 1 < 10"
      using n False h(2) unfolding s2_def by auto
    from read_byte_kept [OF kept k2] obtain es2 where l:
      "run_state (qc_read_otp_data_reg rd ch (i + 1)) s2 = (snd (last (jc_burnt c)), logged s2 es2)"
      "jc_burnt (chip_after ch chip (cs_log (logged s2 es2))) = jc_burnt c"
      using h(2) lst by (auto simp: s2_def i_def add.assoc add.commute)
    let ?es = "?pre @ [MRead ch 0x02 1] @ es1 @ es2 @ ?post"
    have "run_state (qc_otp_data_read_vcom rd ch (0, 0)) s
        = ((0, last (jc_burnt c), word_of_nat ?n), logged s ?es)"
      using run1 h(1) l(1) [unfolded s2_def] off by (simp add: qc_otp_data_read_vcom_def run0 end_run s1_def)
    moreover have "jc_burnt (chip_after ch chip (cs_log s @ ?es)) = jc_burnt c"
      using l(2) by (simp add: s2_def s1_def)
    moreover have "jc_burnt c \<noteq> []" using False by simp
    ultimately show ?thesis by auto
  qed
qed

lemma burn_kept:
  "\<exists>r es. run_state (qc_otp_vcom ch h l ptn_id) s = (r, logged s es)
    \<and> jc_burnt (chip_after ch chip (cs_log s @ es)) = jc_burnt (chip_after ch chip (cs_log s)) @ [(h, l)]"
proof -
  let ?es = "[MWrite ch 0xE0 [0x00], MWrite ch 0xE1 [0x93], MWrite ch 0xE2 [0x65], MWrite ch 0xE3 [0xF8],
     MWrite ch 0xE5 [0x00], MWrite ch 0xE0 [0x00], MWrite ch 0x28 [], MWrite ch 0x10 [], MSleep 240,
     MWrite ch 0xE0 [0x01], MWrite ch 0x1D [0x01], MWrite ch 0x1E [0x03], MWrite ch 0xE0 [0x00],
     MWrite ch 0xEC [0x02], MWrite ch 0xE0 [0x00], MWrite ch 0x11 [], MSleep 240,
     MWrite ch 0xE0 [0x01], MWrite ch 0x00 [h], MWrite ch 0x01 [l],
     MWrite ch 0xE0 [0x00], MWrite ch 0x84 [0x5A], MWrite ch 0x85 [0xA5],
     MWrite ch 0xEA [0x00], MWrite ch 0xEB [0x26], MWrite ch 0xEC [0x03], MSleep 200,
     MWrite ch 0x84 [0x00], MWrite ch 0x85 [0x00], MPower [0, ptn_id], MPower [1, ptn_id]]"
  have "run_state (qc_otp_vcom ch h l ptn_id) s = (0, logged s ?es)"
    by (simp add: jd_burns chip_run)
  moreover have "jc_burnt (chip_after ch chip (cs_log s @ ?es)) = jc_burnt (chip_after ch chip (cs_log s)) @ [(h, l)]"
    by (simp add: jd_reg_def)
  ultimately show ?thesis by blast
qed

lemma burn_and_check_kept:
  assumes kept: "keeps_burns rd ch chip" and c: "chip_after ch chip (cs_log s) = c" and n: "length (jc_burnt c) < 5"
  shows "\<exists>es. run_state (burn_vcom_and_check rd ptn_id ch h l (word_of_nat (length (jc_burnt c)))) s = (E_ERROR_OK, logged s es)
    \<and> jc_burnt (chip_after ch chip (cs_log s @ es)) = jc_burnt c @ [(h, l)]"
proof -
  obtain r es where burn: "run_state (qc_otp_vcom ch h l ptn_id) s = (r, logged s es)"
    "jc_burnt (chip_after ch chip (cs_log s @ es)) = jc_burnt c @ [(h, l)]"
    using burn_kept c by blast
  define c1 where "c1 = chip_after ch chip (cs_log (logged s es))"
  have c1: "jc_burnt c1 = jc_burnt c @ [(h, l)]" using burn(2) by (simp add: c1_def)
  from read_vcom_kept [OF kept c1_def [symmetric]] n
  obtain code es1 where rd: "run_state (qc_otp_data_read_vcom rd ch (0, 0)) (logged s es)
      = ((code, (h, l), word_of_nat (length (jc_burnt c) + 1)), logged s (es @ es1))"
    and burnt: "jc_burnt (chip_after ch chip (cs_log s @ es @ es1)) = jc_burnt c @ [(h, l)]"
    unfolding c1 by auto
  have "\<not> (word_of_nat (length (jc_burnt c) + 1) :: u8) \<le> word_of_nat (length (jc_burnt c))"
    using n by (simp add: word_le_nat_alt unat_of_nat del: of_nat_Suc)
  then have "run_state (burn_vcom_and_check rd ptn_id ch h l (word_of_nat (length (jc_burnt c)))) s
      = (E_ERROR_OK, logged s (es @ es1))"
    by (simp add: burn_vcom_and_check_def burn(1) rd del: of_nat_Suc of_nat_add)
  then show ?thesis using burnt by blast
qed

section \<open>Properties\<close>

text \<open>The message on a JD9367 that keeps what is burnt: the voltage read back of a chip never
  burnt is 0.\<close>

lemma otp_message_run:
  assumes "keeps_burns rd ch chip" "jc_burnt (chip_after ch chip (cs_log s)) = burnt" "length burnt < 5"
    "hl = (word_of_int (drop_bit 8 (json_int 0 v) AND 0xFF), word_of_int (json_int 0 v AND 0xFF))"
    "stored = (if burnt = [] then (0, 0) else last burnt)"
  shows "\<exists>s'. run_state (server_msg_otp rd ptn_id ch v mx fp) s
      = ((client_sendOtp (int ch)
            (if stored = hl \<or> int (length burnt) < json_int 3 mx then E_ERROR_OK else E_ERROR_OTP_TIMES_END) (json_int 3 mx),
          fpgaShowRgb 0xFF 0xFF 0xFF fp), s')
    \<and> jc_burnt (chip_after ch chip (cs_log s'))
      = burnt @ (if stored \<noteq> hl \<and> int (length burnt) < json_int 3 mx then [hl] else [])"
proof -
  let ?c = "chip_after ch chip (cs_log s)"
  from read_vcom_kept [OF assms(1), of s ?c] assms(2,3)
  obtain code es where rd: "run_state (qc_otp_data_read_vcom rd ch (0, 0)) s
      = ((code, stored, word_of_nat (length burnt)), logged s es)"
    and kept: "jc_burnt (chip_after ch chip (cs_log s @ es)) = burnt"
    unfolding assms(5) by auto
  obtain es1 where burn: "run_state (burn_vcom_and_check rd ptn_id ch (fst hl) (snd hl) (word_of_nat (length burnt)))
        (logged s es) = (E_ERROR_OK, logged s (es @ es1))"
    "jc_burnt (chip_after ch chip (cs_log s @ es @ es1)) = burnt @ [hl]"
    using burn_and_check_kept [OF assms(1), of "logged s es" "chip_after ch chip (cs_log s @ es)" ptn_id "fst hl" "snd hl"]
      kept assms(3) by auto
  have u: "uint (word_of_nat (length burnt) :: u8) = int (length burnt)"
    using assms(3) by (simp add: uint_nat unat_of_nat)
  have [simp]: "word_of_int (drop_bit 8 (json_int 0 v) AND 0xFF) = fst hl"
    "word_of_int (json_int 0 v AND 0xFF) = snd hl" by (simp_all add: assms(4))
  have "fst stored \<noteq> fst hl \<or> snd stored \<noteq> snd hl \<longleftrightarrow> stored \<noteq> hl" by (auto simp: prod_eq_iff)
  then show ?thesis using rd kept burn
    by (cases "stored = hl"; cases "json_int 3 mx \<le> int (length burnt)")
      (simp_all add: server_msg_otp_def Let_def case_prod_beta u not_less not_le)
qed

text \<open>
  C25: On a JD9367 that keeps what is burnt and has been burnt less than five times, the
  manual burn message burns the voltage asked for exactly once, and only when the chip does
  not hold it yet and the number of burns made is below the number allowed in the message (3
  when it is missing); the host is told success exactly when the chip then holds the voltage,
  and the panel is turned white. A chip holds its last burnt voltage; one that was never burnt
  counts as holding the voltage 0, so the message then reports success for the voltage 0
  without a burn.
\<close>

theorem otp_message_burns_once:
  assumes "keeps_burns rd ch chip" "jc_burnt (chip_after ch chip (cs_log s)) = burnt" "length burnt < 5"
    "hl = (word_of_int (drop_bit 8 (json_int 0 v) AND 0xFF), word_of_int (json_int 0 v AND 0xFF))"
    "holds = (\<lambda>bs. if bs = [] then hl = (0, 0) else last bs = hl)"
  shows "\<exists>s' after res. run_state (server_msg_otp rd ptn_id ch v mx fp) s
      = ((client_sendOtp (int ch) res (json_int 3 mx), fpgaShowRgb 0xFF 0xFF 0xFF fp), s')
    \<and> jc_burnt (chip_after ch chip (cs_log s')) = after
    \<and> after = burnt @ (if \<not> holds burnt \<and> int (length burnt) < json_int 3 mx then [hl] else [])
    \<and> res = (if holds after then E_ERROR_OK else E_ERROR_OTP_TIMES_END)"
proof -
  let ?stored = "if burnt = [] then (0, 0) else last burnt"
  have h: "holds burnt \<longleftrightarrow> ?stored = hl" unfolding assms(5) by auto
  obtain s' where "run_state (server_msg_otp rd ptn_id ch v mx fp) s
      = ((client_sendOtp (int ch)
            (if ?stored = hl \<or> int (length burnt) < json_int 3 mx then E_ERROR_OK else E_ERROR_OTP_TIMES_END) (json_int 3 mx),
          fpgaShowRgb 0xFF 0xFF 0xFF fp), s')"
    "jc_burnt (chip_after ch chip (cs_log s'))
      = burnt @ (if ?stored \<noteq> hl \<and> int (length burnt) < json_int 3 mx then [hl] else [])"
    using otp_message_run [OF assms(1-4) refl] by blast
  moreover have "holds (burnt @ [hl])" unfolding assms(5) by simp
  ultimately show ?thesis using h by (cases "holds burnt") auto
qed

definition fresh_jd :: jd_chip where
  "fresh_jd = \<lparr>jc_page = 0, jc_vcom = (0, 0), jc_key = (0, 0), jc_index = (0, 0), jc_burnt = []\<rparr>"

lemma otp_message_burns_once_witness:
  "\<exists>s'. run_state (server_msg_otp (jd_panel 1 fresh_jd) 0 1 (Some 0x123) None fpga_zero)
        \<lparr>cs_log = [], cs_info = s_jd_9367_private_info, cs_bad = False\<rparr>
      = ((client_sendOtp 1 0 3, fpgaShowRgb 0xFF 0xFF 0xFF fpga_zero), s')
    \<and> jc_burnt (chip_after 1 fresh_jd (cs_log s')) = [(0x01, 0x23)]"
  using otp_message_burns_once [OF jd_panel_keeps_burns, of 1 fresh_jd
      "\<lparr>cs_log = [], cs_info = s_jd_9367_private_info, cs_bad = False\<rparr>" "[]" "(0x01, 0x23)" "Some 0x123"
      "\<lambda>bs. if bs = [] then (0x01 :: u8, 0x23 :: u8) = (0, 0) else last bs = (0x01, 0x23)" 0 None fpga_zero]
  by (auto simp: fresh_jd_def json_int_def E_ERROR_OK_def)

definition id_wanted :: "int option \<Rightarrow> int option \<Rightarrow> int option \<Rightarrow> u8 \<times> u8 \<times> u8" where
  "id_wanted j1 j2 j3 = (word_of_int (json_int 0 j1), word_of_int (json_int 0 j2), word_of_int (json_int 0 j3))"

definition id_read :: "panel \<Rightarrow> nat \<Rightarrow> jd_info chip_state \<Rightarrow> int \<times> (u8 \<times> u8 \<times> u8) \<times> u8" where
  "id_read rd ch s = fst (run_state (qc_otp_data_read_id rd ch (0, 0, 0)) s)"

text \<open>
  The message that burns an identification never burns one: unless the stored one is already
  right or the burns are used up, the program crashes in the chip manager, which calls the
  operation that reads the identification with a length and a number for its addresses;
  nothing is ever written to the burning registers.
\<close>

theorem id_message_burns_nothing:
  assumes "ints 3 = None"
  shows "(case server_msg_write_id_otp_info rd (jd_burn_id_call ints rd) ptn_id ch j1 j2 j3 mx s of
       None \<Rightarrow> fst (snd (id_read rd ch s)) \<noteq> id_wanted j1 j2 j3 \<and> uint (snd (snd (id_read rd ch s))) < json_int 3 mx
     | Some (_, s') \<Rightarrow>
         (fst (snd (id_read rd ch s)) = id_wanted j1 j2 j3 \<or> json_int 3 mx \<le> uint (snd (snd (id_read rd ch s))))
         \<and> (\<exists>es. cs_log s' = cs_log s @ es \<and> (\<forall>c d. MWrite c 0x84 d \<notin> set es \<and> MWrite c 0x78 d \<notin> set es)))"
proof -
  obtain code i1 i2 i3 times s1 where rd: "run_state (qc_otp_data_read_id rd ch (0, 0, 0)) s = ((code, (i1, i2, i3), times), s1)"
    by (metis prod.exhaust)
  have "emits (- {e. \<exists>c d. e = MWrite c 0x84 d \<or> e = MWrite c 0x78 d}) (qc_otp_data_read_id rd ch (0, 0, 0))"
    unfolding qc_otp_data_read_id_def jd_accesses by (intro prog_rule) simp_all
  then obtain es where "cs_log s1 = cs_log s @ es" "set es \<subseteq> - {e. \<exists>c d. e = MWrite c 0x84 d \<or> e = MWrite c 0x78 d}"
    by (rule emits_run [where s = s]) (use rd in simp)
  then have es: "\<exists>es. cs_log s1 = cs_log s @ es \<and> (\<forall>c d. MWrite c 0x84 d \<notin> set es \<and> MWrite c 0x78 d \<notin> set es)"
    by blast
  have "jd_burn_id_call ints rd ch [a, b, c] 3 ptn_id t = None" for a b c t
    using assms by (simp add: jd_burn_id_call_def)
  then show ?thesis using rd es
    by (auto simp: server_msg_write_id_otp_info_def id_read_def id_wanted_def Let_def)
qed

lemma id_message_burns_nothing_witness:
  "server_msg_write_id_otp_info (\<lambda>_. Some (\<lambda>_. 1)) (jd_burn_id_call Map.empty (\<lambda>_. Some (\<lambda>_. 1))) 0 1 (Some 7) None None None
      \<lparr>cs_log = [], cs_info = s_jd_9367_private_info, cs_bad = False\<rparr> = None"
  using id_message_burns_nothing [where ints = Map.empty and rd = "\<lambda>_. Some (\<lambda>_. 1)" and ptn_id = 0 and ch = 1 and
      ?j1.0 = "Some 7" and ?j2.0 = None and ?j3.0 = None and mx = None and
      s = "\<lparr>cs_log = [], cs_info = s_jd_9367_private_info, cs_bad = False\<rparr>"]
  by (simp add: id_read_def id_wanted_def json_int_def qc_otp_data_read_id_def jd_accesses chip_run answer_def
      id_otp_offset_def split: option.splits prod.splits)

end
