(* ===== verification/PanelRegs.thy ===== *)
theory PanelRegs
  imports ChipBus
begin

text \<open>
  Panels that keep their registers, and what the drivers of panel chips promise about the common
  voltage on such a panel. A register holds the bytes last written to it; some registers exist
  once for every value of a bank register. The interface \<open>vcom_registers\<close> is the contract the
  searches for the best voltage rely on; the drivers interpret it.
\<close>

section \<open>Registers\<close>

type_synonym bank_sel = "u8 \<Rightarrow> u8 list \<Rightarrow> u8 option"
type_synonym regs = "u8 \<times> (u8 \<Rightarrow> u8 \<Rightarrow> u8 list)"

text \<open>\<open>sel\<close> tells which packets choose a bank, and which, and \<open>banked\<close> which registers have banks.\<close>

definition reg_write :: "bank_sel \<Rightarrow> (u8 \<Rightarrow> bool) \<Rightarrow> u8 \<Rightarrow> u8 list \<Rightarrow> regs \<Rightarrow> regs" where
  "reg_write sel banked r d x =
     (case sel r d of
        Some b \<Rightarrow> (b, snd x)
      | None \<Rightarrow> (fst x, (snd x)(r := (snd x r)(if banked r then fst x else 0 := d))))"

text \<open>A bank register of one byte.\<close>

definition select_by :: "u8 \<Rightarrow> bank_sel" where
  "select_by k r d = (if r = k then (case d of [] \<Rightarrow> None | v # _ \<Rightarrow> Some v) else None)"

fun reg_event :: "bank_sel \<Rightarrow> (u8 \<Rightarrow> bool) \<Rightarrow> nat \<Rightarrow> mipi_ev \<Rightarrow> regs \<Rightarrow> regs" where
  "reg_event sel banked ch (MWrite c r d) x = (if c = ch then reg_write sel banked r d x else x)"
| "reg_event sel banked ch _ x = x"

definition regs_after :: "bank_sel \<Rightarrow> (u8 \<Rightarrow> bool) \<Rightarrow> nat \<Rightarrow> regs \<Rightarrow> mipi_ev list \<Rightarrow> regs" where
  "regs_after sel banked ch x l = fold (reg_event sel banked ch) l x"

definition reg_content :: "(u8 \<Rightarrow> bool) \<Rightarrow> u8 \<Rightarrow> regs \<Rightarrow> u8 list" where
  "reg_content banked r x = snd x r (if banked r then fst x else 0)"

text \<open>A read gives the bytes of the register first; what follows them is not fixed.\<close>

definition keeps_regs :: "bank_sel \<Rightarrow> (u8 \<Rightarrow> bool) \<Rightarrow> nat \<Rightarrow> regs \<Rightarrow> panel \<Rightarrow> bool" where
  "keeps_regs sel banked ch x rd \<longleftrightarrow>
     (\<forall>l r len. reg_content banked r (regs_after sel banked ch x l) \<noteq> [] \<longrightarrow>
        (\<exists>f. rd (l @ [MRead ch r len]) = Some f
           \<and> (\<forall>i < length (reg_content banked r (regs_after sel banked ch x l)).
                f i = reg_content banked r (regs_after sel banked ch x l) ! i)))"

definition reg_panel :: "bank_sel \<Rightarrow> (u8 \<Rightarrow> bool) \<Rightarrow> nat \<Rightarrow> regs \<Rightarrow> panel" where
  "reg_panel sel banked ch x l =
     (case last l of
        MRead c r len \<Rightarrow> Some (\<lambda>i. let d = reg_content banked r (regs_after sel banked ch x (butlast l))
                                in if i < length d then d ! i else 0)
      | _ \<Rightarrow> None)"

lemma reg_panel_keeps_regs: "keeps_regs sel banked ch x (reg_panel sel banked ch x)"
  by (simp add: keeps_regs_def reg_panel_def Let_def)

lemma regs_after_simps [simp]:
  "regs_after sel banked ch x [] = x"
  "regs_after sel banked ch x (e # l) = regs_after sel banked ch (reg_event sel banked ch e x) l"
  "regs_after sel banked ch x (l @ l') = regs_after sel banked ch (regs_after sel banked ch x l) l'"
  by (simp_all add: regs_after_def)

lemma select_by_simps [simp]:
  "r \<noteq> k \<Longrightarrow> select_by k r d = None" "select_by k k (v # d) = Some v"
  by (simp_all add: select_by_def)

lemma reg_content_write:
  "sel r d = None \<Longrightarrow> reg_content banked r' (reg_write sel banked r d x) = (if r' = r then d else reg_content banked r' x)"
  by (simp add: reg_content_def reg_write_def)

lemma reg_content_plain:
  "\<not> banked r' \<Longrightarrow> r \<noteq> r' \<or> sel r d = None \<Longrightarrow> reg_content banked r' (reg_write sel banked r d x)
    = (if r' = r then d else reg_content banked r' x)"
  by (auto simp: reg_content_def reg_write_def split: option.splits)

lemma keeps_regs_nth:
  assumes "keeps_regs sel banked ch x rd" "i < len" "i < length (reg_content banked r (regs_after sel banked ch x l))"
  shows "answer rd (l @ [MRead ch r len]) len buf ! i = reg_content banked r (regs_after sel banked ch x l) ! i"
proof -
  have "reg_content banked r (regs_after sel banked ch x l) \<noteq> []" using assms(3) by auto
  then obtain f where "rd (l @ [MRead ch r len]) = Some f" "f i = reg_content banked r (regs_after sel banked ch x l) ! i"
    using assms(1,3) unfolding keeps_regs_def by blast
  then show ?thesis using assms(2) by (simp add: answer_def nth_append)
qed

lemma keeps_regs_read:
  assumes "keeps_regs sel banked ch x rd" "len \<le> length (reg_content banked r (regs_after sel banked ch x l))"
  shows "answer rd (l @ [MRead ch r len]) len buf
    = take len (reg_content banked r (regs_after sel banked ch x l)) @ drop len buf"
proof (cases "reg_content banked r (regs_after sel banked ch x l) = []")
  case False
  let ?d = "reg_content banked r (regs_after sel banked ch x l)"
  obtain f where f: "rd (l @ [MRead ch r len]) = Some f" "\<forall>i < length ?d. f i = ?d ! i"
    using assms(1) False unfolding keeps_regs_def by blast
  then have "map f [0 ..< len] = take len ?d" using assms(2) by (intro nth_equalityI) simp_all
  then show ?thesis using f(1) by (simp add: answer_def)
qed (use assms(2) in \<open>simp add: answer_def split: option.split\<close>)

lemma keeps_regs_byte:
  "keeps_regs sel banked ch x rd \<Longrightarrow> reg_content banked r (regs_after sel banked ch x l) \<noteq> []
    \<Longrightarrow> answer rd (l @ [MRead ch r 1]) 1 (b # bs) ! 0 = hd (reg_content banked r (regs_after sel banked ch x l))"
  using keeps_regs_read [of sel banked ch x rd 1 r l "b # bs"]
  by (cases "reg_content banked r (regs_after sel banked ch x l)") simp_all

lemma low_byte: "uint (ucast (word_of_int v AND 0xFF :: u32) :: u8) = v mod 256"
proof -
  have "(ucast (word_of_int v AND 0xFF :: u32) :: u8) = word_of_int v"
  proof (rule bit_word_eqI)
    fix n assume "n < LENGTH(8)"
    moreover have "(0xFF :: u32) = mask 8" by (simp add: mask_eq_exp_minus_1)
    then have "bit (0xFF :: u32) n \<longleftrightarrow> n < 8" by (simp only: bit_mask_iff) auto
    ultimately show "bit (ucast (word_of_int v AND 0xFF :: u32) :: u8) n = bit (word_of_int v :: u8) n"
      by (simp add: ucast_bit bit_and_iff bit_word_of_int_iff)
  qed
  then show ?thesis by (simp add: uint_word_of_int)
qed

lemma uint_low_byte: "uint (word_of_int (v AND 0xFF) :: u8) = v mod 256"
proof -
  have "v AND 0xFF = take_bit 8 v" by (simp add: take_bit_eq_mask mask_eq_exp_minus_1)
  then show ?thesis by (simp add: uint_word_of_int_eq take_bit_eq_mod)
qed

lemma nine_bits: "push_bit 8 (uint (word_of_int (drop_bit 8 v AND 1) :: u8)) OR uint (word_of_int (v AND 0xFF) :: u8) = v mod 512"
proof -
  have m: "v AND 0xFF = take_bit 8 v" "drop_bit 8 v AND 1 = take_bit 1 (drop_bit 8 v)"
    by (simp_all add: take_bit_eq_mask mask_eq_exp_minus_1)
  have "push_bit 8 (take_bit 8 (take_bit 1 (drop_bit 8 v))) OR take_bit 8 (take_bit 8 v) = take_bit 9 v"
  proof (rule bit_eqI)
    fix n
    show "bit (push_bit 8 (take_bit 8 (take_bit 1 (drop_bit 8 v))) OR take_bit 8 (take_bit 8 v)) n \<longleftrightarrow> bit (take_bit 9 v) n"
    proof -
      consider "n < 8" | "n = 8" | "8 < n" by linarith
      then show ?thesis
        by cases (auto simp: bit_or_iff bit_push_bit_iff bit_take_bit_iff bit_drop_bit_eq simp flip: bit_iff_odd_drop_bit)
    qed
  qed
  then show ?thesis unfolding m by (simp add: uint_word_of_int_eq take_bit_eq_mod [of 9])
qed

lemma ucast_int_byte: "(ucast (word_of_int v :: u32) :: u8) = word_of_int v"
  by (rule bit_word_eqI) (simp add: ucast_bit bit_word_of_int_iff)

lemma sint_byte: "sint (ucast w :: u32) = uint w" for w :: u8
proof -
  have "uint w < 2 ^ 8" using uint_lt2p [of w] by simp
  moreover have "uint (ucast w :: u32) = uint w" using calculation by (simp add: unsigned_ucast_eq take_bit_int_eq_self)
  moreover have "- 2147483648 \<le> uint w" by (rule order_trans [of _ 0]) simp_all
  ultimately show ?thesis unfolding sint_uint by (subst signed_take_bit_int_eq_self) simp_all
qed

section \<open>The common voltage\<close>

text \<open>\<open>ok\<close> describes the states in which the chip of a channel is identified; \<open>enc\<close> is the voltage
  a chip makes of the number it is given.\<close>

locale vcom_registers =
  fixes set_vcom :: "int \<Rightarrow> ('i chip_state, int) state"
    and get_vcom :: "('i chip_state, int \<times> int option) state"
    and ok :: "'i chip_state \<Rightarrow> bool"
    and enc :: "int \<Rightarrow> int"
  assumes set_ok: "ok s \<Longrightarrow> ok (snd (run_state (set_vcom v) s)) \<and> fst (run_state (set_vcom v) s) = 0"
    and get_ok: "ok s \<Longrightarrow> ok (snd (run_state get_vcom s))"
    and get_set: "ok s \<Longrightarrow> fst (run_state get_vcom (snd (run_state (set_vcom v) s))) = (0, Some (enc v))"
    and get_get: "ok s \<Longrightarrow> fst (run_state get_vcom (snd (run_state get_vcom s))) = fst (run_state get_vcom s)"
begin

lemma sets_ok: "ok s \<Longrightarrow> ok (fold (\<lambda>v s. snd (run_state (set_vcom v) s)) vs s)"
  by (induction vs arbitrary: s) (simp_all add: set_ok)

lemma last_set_wins:
  "ok s \<Longrightarrow> vs \<noteq> []
    \<Longrightarrow> fst (run_state get_vcom (fold (\<lambda>v s. snd (run_state (set_vcom v) s)) vs s)) = (0, Some (enc (last vs)))"
  by (cases vs rule: rev_cases) (simp_all add: get_set sets_ok)

lemma gets_are_stable:
  "ok s \<Longrightarrow> fst (run_state get_vcom (((\<lambda>s. snd (run_state get_vcom s)) ^^ n) s)) = fst (run_state get_vcom s)
    \<and> ok (((\<lambda>s. snd (run_state get_vcom s)) ^^ n) s)"
  by (induction n) (simp_all add: get_ok get_get)

end

end
