(* ===== verification/ChipHx8394.thy ===== *)
theory ChipHx8394
  imports PanelRegs
begin

text \<open>
  The driver of the HX8394 panel chip, \<open>icm/chips/chip_hi_8394.c\<close>: identification, common voltage,
  the tables of the analog and digital gamma correction, their burning and the check afterwards.
  A pointer to a table is the bytes that follow it in memory (the functions take a fixed number
  of them, whatever length they are given). \<open>junk\<close> is what an array without initialiser holds.
\<close>

definition HX_8394_ANALOG_GAMMA_REG :: u8 where "HX_8394_ANALOG_GAMMA_REG = 0xE0"
definition HX_8394_D3G_BANK_REG :: u8 where "HX_8394_D3G_BANK_REG = 0xBD"
definition HX_8394_ANALOG_GAMMA_LEN :: nat where "HX_8394_ANALOG_GAMMA_LEN = 58"
definition HX_8394_D3G_R_REG_LEN :: nat where "HX_8394_D3G_R_REG_LEN = 43"
definition HX_8394_D3G_G_REG_LEN :: nat where "HX_8394_D3G_G_REG_LEN = 42"
definition HX_8394_D3G_B_REG_LEN :: nat where "HX_8394_D3G_B_REG_LEN = 42"

lemmas hx_lens = HX_8394_ANALOG_GAMMA_LEN_def HX_8394_D3G_R_REG_LEN_def HX_8394_D3G_G_REG_LEN_def
  HX_8394_D3G_B_REG_LEN_def HX_8394_ANALOG_GAMMA_REG_def HX_8394_D3G_BANK_REG_def

record hx_info =
  hi_id :: "u8 list"
  hi_id_ok :: u8
  hi_vcom1 :: u32
  hi_vcom1_otp_times :: u32
  hi_vcom2 :: u32
  hi_vcom2_otp_times :: u32
  hi_analog :: "u8 list"
  hi_digital :: "u8 list list"

type_synonym 'a hx = "(hx_info chip_state, 'a) state"

definition hx_zero :: hx_info where
  "hx_zero = \<lparr>hi_id = [0, 0, 0], hi_id_ok = 0, hi_vcom1 = 0, hi_vcom1_otp_times = 0, hi_vcom2 = 0, hi_vcom2_otp_times = 0,
     hi_analog = replicate 58 0, hi_digital = replicate 3 (replicate 43 0)\<rparr>"

definition s_hx_8394_private_info :: "hx_info list" where
  "s_hx_8394_private_info = replicate DEV_CHANNEL_NUM hx_zero"

section \<open>The common voltage\<close>

definition hi_8394_enable_extend_cmd :: "nat \<Rightarrow> bool \<Rightarrow> unit hx" where
  "hi_8394_enable_extend_cmd ch enable =
     (if enable then mwrite ch 0xB9 [0xFF, 0x83, 0x94] else mwrite ch 0xB9 [0xFF, 0xFF, 0xFF])"

definition hx_otp_times :: "u8 \<Rightarrow> u8" where
  "hx_otp_times r = (if r = 0x07 then 0 else if r = 0x03 then 1 else if r = 0x01 then 2 else if r = 0x00 then 3 else 3)"

definition hi_8394_get_vcom_otp_times :: "panel \<Rightarrow> nat \<Rightarrow> (int \<times> u8 \<times> u8) hx" where
  "hi_8394_get_vcom_otp_times rd ch = do {
     hi_8394_enable_extend_cmd ch True;
     reg \<leftarrow> mread rd ch 0xB6 3 [0, 0, 0];
     let otp_times = hx_otp_times (drop_bit 5 (reg ! 2));
     State_Monad.return (0, otp_times, otp_times)
   }"

text \<open>\<open>old\<close> is what \<open>p_vcom\<close> points to before the call.\<close>

definition hi_8394_read_vcom :: "panel \<Rightarrow> nat \<Rightarrow> int \<Rightarrow> u32 \<Rightarrow> (int \<times> u32) hx" where
  "hi_8394_read_vcom rd ch index old = do {
     hi_8394_enable_extend_cmd ch True;
     reg \<leftarrow> mread rd ch 0xB6 3 [0, 0, 0];
     State_Monad.return (0, if index = 0 then ucast (reg ! 0) else if index = 1 then ucast (reg ! 1) else old)
   }"

definition hi_8394_write_vcom :: "nat \<Rightarrow> u32 \<Rightarrow> int hx" where
  "hi_8394_write_vcom ch vcom_value = do {
     let reg0 = (ucast (vcom_value AND 0xFF) :: u8);
     let reg2 = (if vcom_value AND 0x100 \<noteq> 0 then 0x01 OR 0x02 else 0 :: u8);
     hi_8394_enable_extend_cmd ch True;
     mwrite ch 0xB6 [reg0, reg0, reg2];
     State_Monad.return 0
   }"

definition hi_8394_read_nvm_vcom_z :: "panel \<Rightarrow> nat \<Rightarrow> int hx" where
  "hi_8394_read_nvm_vcom_z rd ch = do {
     mwrite ch 0x01 []; mwrite ch 0x11 []; msleep 120;
     hi_8394_enable_extend_cmd ch True;
     mwrite ch 0xBB [0, 0x0D, 0, 0, 0, 0, 0];
     mwrite ch 0xBB [0, 0x0D, 0, 0x80, 0, 0, 0];
     mwrite ch 0xBB [0, 0x0D, 0, 0, 0, 0, 0];
     _ \<leftarrow> mread rd ch 0xBB 5 [0, 0, 0, 0, 0];
     State_Monad.return 0
   }"

text \<open>The value read is never stored.\<close>

definition hi_8394_read_nvm_vcom :: "nat \<Rightarrow> int \<Rightarrow> int \<Rightarrow> (int \<times> int) hx" where
  "hi_8394_read_nvm_vcom ch index old = State_Monad.return (0, old)"

definition hi_8394_burn_vcom :: "nat \<Rightarrow> u32 \<Rightarrow> int hx" where
  "hi_8394_burn_vcom ch otp_vcom_value = do {
     mspeed ch False; mreset ch; mwrite ch 0x11 []; msleep 150;
     mwrite ch 0xB9 [0xFF, 0x83, 0x94];
     mwrite ch 0xB6 [ucast otp_vcom_value, ucast otp_vcom_value, 0];
     msleep 100;
     mwrite ch 0xBB [0, 0, 0, 0, 0, 0xAA, 0x55];
     mwrite ch 0xBB [0x80, 0x0D];
     mwrite ch 0xBB [0x80, 0x0D, 0x00, 0x01];
     msleep 550;
     mwrite ch 0xBB [0, 0, 0, 0, 0, 0, 0];
     mwrite ch 0xB9 [0xFF, 0x83, 0x94];
     mwrite ch 0x10 [];
     mspeed ch True;
     State_Monad.return 0
   }"

section \<open>Banks of the digital gamma tables\<close>

definition hi_8394_select_d3g_bank_r :: "nat \<Rightarrow> unit hx" where "hi_8394_select_d3g_bank_r ch = mwrite ch 0xBD [0x00]"
definition hi_8394_select_d3g_bank_g :: "nat \<Rightarrow> unit hx" where "hi_8394_select_d3g_bank_g ch = mwrite ch 0xBD [0x01]"
definition hi_8394_select_d3g_bank_b :: "nat \<Rightarrow> unit hx" where "hi_8394_select_d3g_bank_b ch = mwrite ch 0xBD [0x02]"

definition hx_8394_write_d3g_reg_2 :: "nat \<Rightarrow> u8 list \<Rightarrow> u8 list \<Rightarrow> u8 list \<Rightarrow> int hx" where
  "hx_8394_write_d3g_reg_2 ch r g b = do {
     mwrite ch 0xBD [0x00]; mwrite ch 0xC1 (take HX_8394_D3G_R_REG_LEN r);
     mwrite ch 0xBD [0x01]; mwrite ch 0xC1 (take HX_8394_D3G_G_REG_LEN g);
     mwrite ch 0xBD [0x02]; mwrite ch 0xC1 (take HX_8394_D3G_B_REG_LEN b);
     State_Monad.return 0
   }"

section \<open>Operations of the descriptor: identification and voltage\<close>

text \<open>The result and the bytes \<open>p_id_data\<close> gets, if any.\<close>

definition chip_hi_8394_get_chip_id :: "panel \<Rightarrow> u8 list \<Rightarrow> nat \<Rightarrow> u8 list option \<Rightarrow> int \<Rightarrow> (int \<times> u8 list option) hx" where
  "chip_hi_8394_get_chip_id rd junk ch p_id_data id_data_len = do {
     reg \<leftarrow> mread rd ch 0x04 3 junk;
     State_Monad.return
       (if reg ! 0 = 0x83 \<and> reg ! 1 = 0x94 \<and> reg ! 2 = 0x0f then
          (case p_id_data of
             Some old \<Rightarrow> if id_data_len \<ge> 3 then (3, Some (take 3 reg @ drop 3 old)) else (0, Some old)
           | None \<Rightarrow> (0, None))
        else (-1, p_id_data))
   }"

definition chip_hi_8394_check_chip_ok :: "panel \<Rightarrow> u8 list \<Rightarrow> nat \<Rightarrow> int hx" where
  "chip_hi_8394_check_chip_ok rd junk ch = do {
     i \<leftarrow> get_info ch;
     (_, p_id) \<leftarrow> chip_hi_8394_get_chip_id rd junk ch (Some (hi_id i)) 3;
     upd_info ch (hi_id_update (\<lambda>old. case p_id of None \<Rightarrow> old | Some d \<Rightarrow> d));
     i \<leftarrow> get_info ch;
     (if hi_id i ! 0 \<noteq> 0x83 \<or> hi_id i ! 1 \<noteq> 0x94 \<or> hi_id i ! 2 \<noteq> 0x0F then do {
        upd_info ch (\<lambda>i. i\<lparr>hi_id_ok := 0\<rparr>);
        State_Monad.return (-1)
      }
      else do {
        upd_info ch (\<lambda>i. i\<lparr>hi_id_ok := 1\<rparr>);
        (_, t1, t2) \<leftarrow> hi_8394_get_vcom_otp_times rd ch;
        upd_info ch (\<lambda>i. i\<lparr>hi_vcom1_otp_times := ucast t1, hi_vcom2_otp_times := ucast t2\<rparr>);
        (_, v) \<leftarrow> hi_8394_read_vcom rd ch 0 0;
        upd_info ch (\<lambda>i. i\<lparr>hi_vcom1 := v, hi_vcom2 := v\<rparr>);
        State_Monad.return 0
      })
   }"

definition chip_hi_8394_read_chip_vcom_opt_times :: "panel \<Rightarrow> nat \<Rightarrow> (int \<times> int option) hx" where
  "chip_hi_8394_read_chip_vcom_opt_times rd ch = do {
     i \<leftarrow> get_info ch;
     (if hi_id_ok i = 1 then do {
        (_, t1, _) \<leftarrow> hi_8394_get_vcom_otp_times rd ch;
        State_Monad.return (0, Some (uint t1))
      }
      else State_Monad.return (-1, None))
   }"

definition chip_hi_8394_read_chip_vcom_opt_info :: "panel \<Rightarrow> nat \<Rightarrow> (int \<times> (int \<times> int) option) hx" where
  "chip_hi_8394_read_chip_vcom_opt_info rd ch = do {
     i \<leftarrow> get_info ch;
     (if hi_id_ok i = 1 then do {
        (_, t1, _) \<leftarrow> hi_8394_get_vcom_otp_times rd ch;
        (_, v1) \<leftarrow> hi_8394_read_nvm_vcom ch 0 0;
        (_, v2) \<leftarrow> hi_8394_read_nvm_vcom ch 1 0;
        State_Monad.return (0, Some (uint t1, v1))
      }
      else State_Monad.return (-1, None))
   }"

definition chip_hi_8394_write_chip_vcom_otp_value :: "nat \<Rightarrow> int \<Rightarrow> int hx" where
  "chip_hi_8394_write_chip_vcom_otp_value ch otp_vcom_value = do {
     i \<leftarrow> get_info ch;
     (if hi_id_ok i = 1 then hi_8394_burn_vcom ch (word_of_int otp_vcom_value) else State_Monad.return (-1))
   }"

definition chip_hi_8394_read_vcom :: "panel \<Rightarrow> nat \<Rightarrow> (int \<times> int option) hx" where
  "chip_hi_8394_read_vcom rd ch = do {
     i \<leftarrow> get_info ch;
     (if hi_id_ok i = 1 then do {
        (_, v) \<leftarrow> hi_8394_read_vcom rd ch 0 0;
        State_Monad.return (0, Some (sint v))
      }
      else State_Monad.return (-1, None))
   }"

definition chip_hi_8394_write_vcom :: "nat \<Rightarrow> int \<Rightarrow> int hx" where
  "chip_hi_8394_write_vcom ch vcom_value = do {
     i \<leftarrow> get_info ch;
     (if hi_id_ok i = 1 then do {
        _ \<leftarrow> (if hi_vcom1_otp_times i = 0 then hi_8394_write_vcom ch (word_of_int vcom_value)
              else hi_8394_write_vcom ch (word_of_int vcom_value));
        State_Monad.return 0
      }
      else State_Monad.return (-1))
   }"

definition chip_hi_8394_get_and_reset_private_data :: "nat \<Rightarrow> unit hx" where
  "chip_hi_8394_get_and_reset_private_data ch = upd_info ch (\<lambda>_. hx_zero)"

definition chip_hi_8394_check_vcom_otp_burn_ok :: "panel \<Rightarrow> u8 list \<Rightarrow> nat \<Rightarrow> int \<Rightarrow> int \<Rightarrow> (int \<times> int option) hx" where
  "chip_hi_8394_check_vcom_otp_burn_ok rd junk ch vcom_value last_otp_times = do {
     val \<leftarrow> chip_hi_8394_check_chip_ok rd junk ch;
     (if val \<noteq> 0 then State_Monad.return (E_ICM_READ_ID_ERROR, None)
      else do {
        i \<leftarrow> get_info ch;
        State_Monad.return
          (if hi_vcom1_otp_times i \<noteq> word_of_int (last_otp_times + 1) then E_ICM_VCOM_TIMES_NOT_CHANGE
           else if hi_vcom1 i \<noteq> word_of_int vcom_value then E_ICM_VCOM_VALUE_NOT_CHANGE else E_ICM_OK,
           Some (sint (hi_vcom1 i)))
      })
   }"

section \<open>Operations of the descriptor: gamma tables\<close>

definition chip_hi_8394_write_analog_reg :: "nat \<Rightarrow> u8 list \<Rightarrow> int hx" where
  "chip_hi_8394_write_analog_reg ch p = do {
     mspeed ch False;
     mwrite ch HX_8394_ANALOG_GAMMA_REG (take HX_8394_ANALOG_GAMMA_LEN p);
     mspeed ch True;
     State_Monad.return 0
   }"

definition hx_8394_digital_gamma_control :: "nat \<Rightarrow> u8 \<Rightarrow> int hx" where
  "hx_8394_digital_gamma_control ch v = do {
     mspeed ch False;
     hi_8394_enable_extend_cmd ch True;
     hi_8394_select_d3g_bank_r ch;
     mwrite ch HX_8394_D3G_BANK_REG [v];
     mspeed ch True;
     State_Monad.return 0
   }"

definition hx_8394_write_analog_gamma_reg_data :: "nat \<Rightarrow> u8 list option \<Rightarrow> int \<Rightarrow> int hx" where
  "hx_8394_write_analog_gamma_reg_data ch p len =
     (case p of None \<Rightarrow> State_Monad.return (-1)
      | Some d \<Rightarrow>
        if len \<le> 0 then State_Monad.return (-1)
        else do {
          upd_info ch (\<lambda>i. i\<lparr>hi_analog := take HX_8394_ANALOG_GAMMA_LEN d\<rparr>);
          mspeed ch False;
          hi_8394_enable_extend_cmd ch True;
          i \<leftarrow> get_info ch;
          _ \<leftarrow> chip_hi_8394_write_analog_reg ch (hi_analog i);
          mspeed ch True;
          State_Monad.return 0
        })"

definition s_analog_gamma_reg_data :: "u8 list" where
  "s_analog_gamma_reg_data =
     [0x00, 0x08, 0x16, 0x20, 0x24, 0x2a, 0x30, 0x30, 0x66, 0x7b, 0x8e, 0x8d, 0x94, 0xa1, 0xa2, 0xa2,
      0xab, 0xad, 0xab, 0xb7, 0xc6, 0x63, 0x61, 0x65, 0x68, 0x6c, 0x73, 0x7b, 0x7f, 0x00, 0x08, 0x15,
      0x20, 0x24, 0x2a, 0x30, 0x30, 0x66, 0x7b, 0x8c, 0x8b, 0x93, 0xa2, 0xa0, 0xa1, 0xac, 0xae, 0xab,
      0xb9, 0xc9, 0x61, 0x60, 0x64, 0x68, 0x6c, 0x73, 0x7b, 0x7f]"

definition hx_8394_write_fix_analog_gamma_reg_data :: "nat \<Rightarrow> int hx" where
  "hx_8394_write_fix_analog_gamma_reg_data ch = do {
     mspeed ch False;
     hi_8394_enable_extend_cmd ch True;
     _ \<leftarrow> chip_hi_8394_write_analog_reg ch s_analog_gamma_reg_data;
     _ \<leftarrow> hx_8394_digital_gamma_control ch 0x00;
     mspeed ch True;
     State_Monad.return 0
   }"

definition hx_8394_read_analog_gamma_reg_data :: "panel \<Rightarrow> nat \<Rightarrow> u8 list \<Rightarrow> (int \<times> u8 list) hx" where
  "hx_8394_read_analog_gamma_reg_data rd ch p = do {
     mspeed ch False;
     hi_8394_enable_extend_cmd ch True;
     p' \<leftarrow> mread rd ch HX_8394_ANALOG_GAMMA_REG HX_8394_ANALOG_GAMMA_LEN p;
     mspeed ch True;
     State_Monad.return (int HX_8394_ANALOG_GAMMA_LEN, p')
   }"

definition hx_8394_write_d3g_control :: "nat \<Rightarrow> int \<Rightarrow> int hx" where
  "hx_8394_write_d3g_control ch enable = do {
     _ \<leftarrow> hx_8394_digital_gamma_control ch (word_of_int enable);
     State_Monad.return 0
   }"

definition hx_8394_write_analog_digital_gamma_reg_data :: "nat \<Rightarrow> u8 list option \<Rightarrow> int \<Rightarrow> int hx" where
  "hx_8394_write_analog_digital_gamma_reg_data ch p len =
     (case p of None \<Rightarrow> State_Monad.return (-1)
      | Some d \<Rightarrow>
        if len \<le> 0 then State_Monad.return (-1)
        else do {
          mspeed ch False;
          hi_8394_enable_extend_cmd ch True;
          i \<leftarrow> get_info ch;
          _ \<leftarrow> chip_hi_8394_write_analog_reg ch (hi_analog i);
          upd_info ch (\<lambda>i. i\<lparr>hi_digital :=
            [take HX_8394_D3G_R_REG_LEN d,
             take HX_8394_D3G_G_REG_LEN (drop HX_8394_D3G_R_REG_LEN d) @ drop HX_8394_D3G_G_REG_LEN (hi_digital i ! 1),
             take HX_8394_D3G_B_REG_LEN (drop (HX_8394_D3G_R_REG_LEN + HX_8394_D3G_G_REG_LEN) d)
               @ drop HX_8394_D3G_B_REG_LEN (hi_digital i ! 2)]\<rparr>);
          i \<leftarrow> get_info ch;
          _ \<leftarrow> hx_8394_write_d3g_reg_2 ch (hi_digital i ! 0) (hi_digital i ! 1) (hi_digital i ! 2);
          mspeed ch True;
          State_Monad.return 0
        })"

definition hx_8394_write_fix_digital_gamma_reg_data :: "nat \<Rightarrow> int hx" where
  "hx_8394_write_fix_digital_gamma_reg_data ch = State_Monad.return 0"

definition hx_8394_burn_gamma_data_2nd ::
  "nat \<Rightarrow> u32 \<Rightarrow> int \<Rightarrow> u8 list \<Rightarrow> u8 list \<Rightarrow> u8 list \<Rightarrow> u8 list \<Rightarrow> int hx" where
  "hx_8394_burn_gamma_data_2nd ch vcom burn_vcom analog r g b = do {
     mspeed ch False; mreset 0; mreset 1; mwrite ch 0x11 []; msleep 150;
     mwrite ch 0xB9 [0xFF, 0x83, 0x94];
     (if burn_vcom \<noteq> 0 then do {
        let vcom_value = ([ucast vcom, ucast vcom, 0x00] :: u8 list);
        mwrite ch 0xB6 [0xFF, 0x83, 0x94]
      } else State_Monad.return ());
     _ \<leftarrow> chip_hi_8394_write_analog_reg ch analog;
     _ \<leftarrow> hx_8394_write_d3g_reg_2 ch r g b;
     msleep 100;
     mwrite ch 0xBB [0, 0, 0, 0, 0, 0xAA, 0x55];
     (if burn_vcom \<noteq> 0 then do {
        mwrite ch 0xBB [0x80, 0x0D]; mwrite ch 0xBB [0x80, 0x0D, 0x00, 0x01]
      } else State_Monad.return ());
     msleep 550;
     mwrite ch 0xBB [0x81, 0x00, 0x00, 0x00]; mwrite ch 0xBB [0x81, 0x00, 0x00, 0x01];
     msleep 700;
     mwrite ch 0xBB [0x81, 0x3A, 0x00, 0x00]; mwrite ch 0xBB [0x81, 0x3A, 0x00, 0x01];
     msleep 1400;
     mwrite ch 0xBB [0x80, 0xFF, 0x00, 0x00]; mwrite ch 0xBB [0x80, 0xFF, 0x00, 0x01];
     mwrite ch 0xBB (replicate 100 0);
     mwrite ch 0xB9 [0xFF, 0x83, 0x94];
     mwrite ch 0x10 [];
     mspeed ch True;
     State_Monad.return 0
   }"

definition hx_8394_burn_vcom_and_gamma_data ::
  "nat \<Rightarrow> u32 \<Rightarrow> int \<Rightarrow> u8 list \<Rightarrow> u8 list \<Rightarrow> u8 list \<Rightarrow> u8 list \<Rightarrow> int hx" where
  "hx_8394_burn_vcom_and_gamma_data ch vcom burn_vcom analog r g b = do {
     mspeed ch False; mreset 0; mreset 1; mwrite ch 0x11 []; msleep 150;
     mwrite ch 0xB9 [0xFF, 0x83, 0x94];
     (if burn_vcom \<noteq> 0 then mwrite ch 0xB6 [ucast vcom, ucast vcom, 0x00] else State_Monad.return ());
     _ \<leftarrow> chip_hi_8394_write_analog_reg ch analog;
     _ \<leftarrow> hx_8394_write_d3g_reg_2 ch r g b;
     msleep 100;
     mwrite ch 0xBB [0, 0, 0, 0, 0, 0xAA, 0x55];
     (if burn_vcom \<noteq> 0 then do {
        mwrite ch 0xBB [0x80, 0x0D]; mwrite ch 0xBB [0x80, 0x0D, 0x00, 0x01]
      } else State_Monad.return ());
     msleep 550;
     mwrite ch 0xBB [0x80, 0x45]; mwrite ch 0xBB [0x80, 0x45, 0x00, 0x01];
     msleep 700;
     mwrite ch 0xBB [0x80, 0x7F]; mwrite ch 0xBB [0x80, 0x7F, 0x00, 0x01];
     msleep 1400;
     mwrite ch 0xBB [0, 0, 0, 0, 0, 0, 0];
     mwrite ch 0xB9 [0xFF, 0x83, 0x94];
     mwrite ch 0x10 [];
     mspeed ch True;
     State_Monad.return 0
   }"

definition ICM_BURN_SECOND_FLAG :: int where "ICM_BURN_SECOND_FLAG = 1"

definition hx_8394_burn_gamma_otp_values ::
  "nat \<Rightarrow> int \<Rightarrow> int \<Rightarrow> int \<Rightarrow> u8 list \<Rightarrow> u8 list \<Rightarrow> u8 list \<Rightarrow> u8 list \<Rightarrow> int hx" where
  "hx_8394_burn_gamma_otp_values ch burn_flag enable_burn_vcom vcom analog r g b = do {
     _ \<leftarrow> (if burn_flag AND ICM_BURN_SECOND_FLAG \<noteq> 0
           then hx_8394_burn_gamma_data_2nd ch (word_of_int vcom) enable_burn_vcom analog r g b
           else hx_8394_burn_vcom_and_gamma_data ch (word_of_int vcom) enable_burn_vcom analog r g b);
     State_Monad.return 0
   }"

text \<open>The code of the last check that fails, 0 when none does.\<close>

definition hx_8394_check_gamma_otp_values ::
  "panel \<Rightarrow> nat \<Rightarrow> int \<Rightarrow> int \<Rightarrow> int \<Rightarrow> u8 list \<Rightarrow> u8 list \<Rightarrow> u8 list \<Rightarrow> u8 list \<Rightarrow> int hx" where
  "hx_8394_check_gamma_otp_values rd ch enable_burn_vcom new_vcom_value last_vcom_otp_times analog r g b = do {
     mspeed ch False;
     e \<leftarrow> (if enable_burn_vcom \<noteq> 0 then do {
            (_, read_vcom) \<leftarrow> hi_8394_read_vcom rd ch 0 0;
            (_, otp_times, _) \<leftarrow> hi_8394_get_vcom_otp_times rd ch;
            let e = (if last_vcom_otp_times + 1 \<noteq> uint otp_times then 1 else 0);
            State_Monad.return (if word_of_int new_vcom_value \<noteq> read_vcom then 2 else e)
          } else State_Monad.return 0);
     a \<leftarrow> mread rd ch HX_8394_ANALOG_GAMMA_REG HX_8394_ANALOG_GAMMA_LEN (replicate HX_8394_ANALOG_GAMMA_LEN 0);
     let e = (if a \<noteq> take HX_8394_ANALOG_GAMMA_LEN analog then 3 else e);
     hi_8394_select_d3g_bank_r ch;
     d3g_r \<leftarrow> mread rd ch 0xC1 HX_8394_D3G_R_REG_LEN (replicate HX_8394_D3G_R_REG_LEN 0);
     hi_8394_select_d3g_bank_g ch;
     d3g_g \<leftarrow> mread rd ch 0xC1 HX_8394_D3G_G_REG_LEN (replicate HX_8394_D3G_G_REG_LEN 0);
     hi_8394_select_d3g_bank_b ch;
     d3g_b \<leftarrow> mread rd ch 0xC1 HX_8394_D3G_B_REG_LEN (replicate HX_8394_D3G_B_REG_LEN 0);
     let e = (if d3g_r \<noteq> take HX_8394_D3G_R_REG_LEN r then 4 else e);
     let e = (if d3g_g \<noteq> take HX_8394_D3G_G_REG_LEN g then 5 else e);
     let e = (if d3g_b \<noteq> take HX_8394_D3G_B_REG_LEN b then 6 else e);
     mspeed ch True;
     State_Monad.return e
   }"

definition hx_8394_get_analog_gamma_reg_data :: "nat \<Rightarrow> u8 list \<Rightarrow> (int \<times> u8 list \<times> int) hx" where
  "hx_8394_get_analog_gamma_reg_data ch p = do {
     i \<leftarrow> get_info ch;
     State_Monad.return (-1, hi_analog i @ drop HX_8394_ANALOG_GAMMA_LEN p, int HX_8394_ANALOG_GAMMA_LEN)
   }"

definition hx_8394_get_digital_gamma_reg_data ::
  "nat \<Rightarrow> u8 list \<Rightarrow> u8 list \<Rightarrow> u8 list \<Rightarrow> (int \<times> (u8 list \<times> int) list) hx" where
  "hx_8394_get_digital_gamma_reg_data ch r g b = do {
     i \<leftarrow> get_info ch;
     State_Monad.return (0,
       [(take HX_8394_D3G_R_REG_LEN (hi_digital i ! 0) @ drop HX_8394_D3G_R_REG_LEN r, int HX_8394_D3G_R_REG_LEN),
        (take HX_8394_D3G_G_REG_LEN (hi_digital i ! 1) @ drop HX_8394_D3G_G_REG_LEN g, int HX_8394_D3G_G_REG_LEN),
        (take HX_8394_D3G_B_REG_LEN (hi_digital i ! 2) @ drop HX_8394_D3G_B_REG_LEN b, int HX_8394_D3G_B_REG_LEN)])
   }"

section \<open>Reading back\<close>

lemmas hx_vcom_defs = hi_8394_enable_extend_cmd_def hi_8394_get_vcom_otp_times_def hi_8394_read_vcom_def
  hi_8394_write_vcom_def

lemmas hx_gamma_defs = hi_8394_select_d3g_bank_r_def hi_8394_select_d3g_bank_g_def hi_8394_select_d3g_bank_b_def
  hx_8394_write_d3g_reg_2_def chip_hi_8394_write_analog_reg_def hx_8394_write_analog_gamma_reg_data_def
  hx_8394_write_analog_digital_gamma_reg_data_def

abbreviation hx_keeps :: "nat \<Rightarrow> regs \<Rightarrow> panel \<Rightarrow> bool" where "hx_keeps \<equiv> keeps_regs (select_by 0xBD) (\<lambda>r. r = 0xC1)"
abbreviation hx_regs :: "nat \<Rightarrow> regs \<Rightarrow> mipi_ev list \<Rightarrow> regs" where "hx_regs \<equiv> regs_after (select_by 0xBD) (\<lambda>r. r = 0xC1)"
abbreviation hx_content :: "u8 \<Rightarrow> regs \<Rightarrow> u8 list" where "hx_content \<equiv> reg_content (\<lambda>r. r = 0xC1)"

definition hx_ok :: "panel \<Rightarrow> nat \<Rightarrow> regs \<Rightarrow> hx_info chip_state \<Rightarrow> bool" where
  "hx_ok rd ch x s \<longleftrightarrow> hx_keeps ch x rd \<and> ch < length (cs_info s) \<and> hi_id_ok (cs_info s ! ch) = 1
     \<and> 3 \<le> length (hx_content 0xB6 (hx_regs ch x (cs_log s)))"

lemma hx_get:
  assumes "hx_ok rd ch x s"
  shows "run_state (chip_hi_8394_read_vcom rd ch) s
    = ((0, Some (uint (hx_content 0xB6 (hx_regs ch x (cs_log s)) ! 0))),
       logged s [MWrite ch 0xB9 [0xFF, 0x83, 0x94], MRead ch 0xB6 3])"
proof -
  let ?d = "hx_content 0xB6 (hx_regs ch x (cs_log s))"
  let ?l = "cs_log s @ [MWrite ch 0xB9 [0xFF, 0x83, 0x94]]"
  have d: "hx_content 0xB6 (hx_regs ch x ?l) = ?d" by (simp add: reg_content_plain)
  have "answer rd (?l @ [MRead ch 0xB6 3]) 3 [0, 0, 0] = take 3 ?d"
    using keeps_regs_read [of "select_by 0xBD" "\<lambda>r. r = 0xC1" ch x rd 3 "0xB6" ?l "[0, 0, 0]"] assms unfolding d by (simp add: hx_ok_def)
  then show ?thesis using assms
    by (simp add: sint_byte chip_hi_8394_read_vcom_def hx_vcom_defs chip_run hx_ok_def)
qed

interpretation hx: vcom_registers "chip_hi_8394_write_vcom ch" "chip_hi_8394_read_vcom rd ch" "hx_ok rd ch x" "\<lambda>v. v mod 256"
  for ch rd x
proof
  fix s v assume ok: "hx_ok rd ch x s"
  let ?r = "ucast (word_of_int v AND 0xFF :: u32) :: u8"
  let ?d = "[?r, ?r, if (word_of_int v :: u32) AND 0x100 \<noteq> 0 then 0x01 OR 0x02 else 0]"
  have w: "run_state (chip_hi_8394_write_vcom ch v) s = (0, logged s [MWrite ch 0xB9 [0xFF, 0x83, 0x94], MWrite ch 0xB6 ?d])"
    using ok by (simp add: chip_hi_8394_write_vcom_def hx_vcom_defs chip_run hx_ok_def Let_def)
  then show set: "hx_ok rd ch x (snd (run_state (chip_hi_8394_write_vcom ch v) s)) \<and> fst (run_state (chip_hi_8394_write_vcom ch v) s) = 0"
    using ok by (simp add: hx_ok_def reg_content_plain)
  have "uint ?r = v mod 256" by (rule low_byte)
  then show "fst (run_state (chip_hi_8394_read_vcom rd ch) (snd (run_state (chip_hi_8394_write_vcom ch v) s))) = (0, Some (v mod 256))"
    using hx_get [OF conjunct1 [OF set]] unfolding w by (simp add: reg_content_plain)
next
  fix s assume ok: "hx_ok rd ch x s"
  show get: "hx_ok rd ch x (snd (run_state (chip_hi_8394_read_vcom rd ch) s))"
    using ok unfolding hx_get [OF ok] by (simp add: hx_ok_def reg_content_plain)
  show "fst (run_state (chip_hi_8394_read_vcom rd ch) (snd (run_state (chip_hi_8394_read_vcom rd ch) s)))
      = fst (run_state (chip_hi_8394_read_vcom rd ch) s)"
    using hx_get [OF get] unfolding hx_get [OF ok] by (simp add: reg_content_plain)
qed

text \<open>The voltage register after a write holds nine bits: the low byte twice and bit 8 twice in the
  third byte; the read returns the first byte only.\<close>

lemma bit8_set: "(word_of_int v :: u32) AND 0x100 \<noteq> 0 \<longleftrightarrow> odd (v div 256)"
proof -
  have e: "(0x100 :: u32) = 2 ^ 8" by simp
  have "(word_of_int v :: u32) AND 0x100 \<noteq> 0 \<longleftrightarrow> bit (word_of_int v :: u32) 8"
    unfolding e and_exp_eq_0_iff_not_bit by simp
  also have "\<dots> \<longleftrightarrow> odd (v div 256)"
    by (simp only: bit_word_of_int_iff) (simp add: bit_iff_odd)
  finally show ?thesis .
qed

lemma hx_register_after:
  assumes "hx_ok rd ch x s"
  shows "hx_content 0xB6 (hx_regs ch x
      (cs_log (snd (run_state (chip_hi_8394_write_vcom ch v) s))))
    = [word_of_int (v mod 256), word_of_int (v mod 256), if odd (v div 256) then 3 else 0]"
proof -
  let ?r = "ucast (word_of_int v AND 0xFF :: u32) :: u8"
  let ?d = "[?r, ?r, if (word_of_int v :: u32) AND 0x100 \<noteq> 0 then 0x01 OR 0x02 else 0]"
  have "run_state (chip_hi_8394_write_vcom ch v) s = (0, logged s [MWrite ch 0xB9 [0xFF, 0x83, 0x94], MWrite ch 0xB6 ?d])"
    using assms by (simp add: chip_hi_8394_write_vcom_def hx_vcom_defs chip_run hx_ok_def Let_def)
  moreover have "?r = word_of_int (v mod 256)" using low_byte [of v] by (metis word_of_int_uint)
  ultimately show ?thesis by (simp add: reg_content_plain bit8_set)
qed

lemma hx_register_after_sets:
  assumes "hx_ok rd ch x s" "vs \<noteq> []"
  shows "hx_content 0xB6 (hx_regs ch x
      (cs_log (fold (\<lambda>v s. snd (run_state (chip_hi_8394_write_vcom ch v) s)) vs s)))
    = [word_of_int (last vs mod 256), word_of_int (last vs mod 256), if odd (last vs div 256) then 3 else 0]"
  using assms(2) hx_register_after [OF hx.sets_ok [OF assms(1)]] by (cases vs rule: rev_cases) simp_all

lemma hx_check_run:
  assumes keeps: "hx_keeps ch x rd" and X: "hx_regs ch x (cs_log s) = X"
    and len: "58 \<le> length (hx_content 0xE0 X)" "43 \<le> length (snd X 0xC1 0)" "42 \<le> length (snd X 0xC1 1)"
      "42 \<le> length (snd X 0xC1 2)"
  shows "fst (run_state (hx_8394_check_gamma_otp_values rd ch 0 v t a r g b) s)
    = (if take 42 (snd X 0xC1 2) \<noteq> take 42 b then 6 else if take 42 (snd X 0xC1 1) \<noteq> take 42 g then 5
       else if take 43 (snd X 0xC1 0) \<noteq> take 43 r then 4 else if take 58 (hx_content 0xE0 X) \<noteq> take 58 a then 3 else 0)"
proof -
  let ?l0 = "cs_log s @ [MSpeed ch False]"
  let ?l1 = "?l0 @ [MRead ch 0xE0 58, MWrite ch 0xBD [0]]"
  let ?l2 = "?l1 @ [MRead ch 0xC1 43, MWrite ch 0xBD [1]]"
  let ?l3 = "?l2 @ [MRead ch 0xC1 42, MWrite ch 0xBD [2]]"
  have c: "hx_content 0xE0 (hx_regs ch x ?l0) = hx_content 0xE0 X"
    "hx_content 0xC1 (hx_regs ch x ?l1) = snd X 0xC1 0"
    "hx_content 0xC1 (hx_regs ch x ?l2) = snd X 0xC1 1"
    "hx_content 0xC1 (hx_regs ch x ?l3) = snd X 0xC1 2"
    using X by (simp_all add: reg_write_def reg_content_def)
  note rd = keeps_regs_read [OF keeps]
  have "answer rd (?l0 @ [MRead ch 0xE0 58]) 58 (replicate 58 0) = take 58 (hx_content 0xE0 X)"
    "answer rd (?l1 @ [MRead ch 0xC1 43]) 43 (replicate 43 0) = take 43 (snd X 0xC1 0)"
    "answer rd (?l2 @ [MRead ch 0xC1 42]) 42 (replicate 42 0) = take 42 (snd X 0xC1 1)"
    "answer rd (?l3 @ [MRead ch 0xC1 42]) 42 (replicate 42 0) = take 42 (snd X 0xC1 2)"
    by (subst rd; use len in \<open>simp only: c\<close>; simp)+
  then show ?thesis
    by (simp add: hx_8394_check_gamma_otp_values_def hx_lens hx_gamma_defs chip_run Let_def)
qed

section \<open>Properties\<close>

text \<open>
  C26: Analog and digital gamma tables written to an HX8394 that keeps its registers pass the
  comparison of the check function, which reads every table back from its bank.
\<close>

theorem gamma_tables_pass_the_check:
  assumes "hx_keeps ch x rd" "ch < length (cs_info s)" "length a \<ge> 58" "length d \<ge> 127" "n > 0" "m > 0"
  shows "fst (run_state (do {
       _ \<leftarrow> hx_8394_write_analog_gamma_reg_data ch (Some a) n;
       _ \<leftarrow> hx_8394_write_analog_digital_gamma_reg_data ch (Some d) m;
       hx_8394_check_gamma_otp_values rd ch 0 v t a d (drop 43 d) (drop 85 d)
     }) s) = 0"
proof -
  let ?es = "[MSpeed ch False, MWrite ch 0xB9 [0xFF, 0x83, 0x94], MSpeed ch False, MWrite ch 0xE0 (take 58 a), MSpeed ch True, MSpeed ch True,
     MSpeed ch False, MWrite ch 0xB9 [0xFF, 0x83, 0x94], MSpeed ch False, MWrite ch 0xE0 (take 58 a), MSpeed ch True,
     MWrite ch 0xBD [0], MWrite ch 0xC1 (take 43 d), MWrite ch 0xBD [1], MWrite ch 0xC1 (take 42 (drop 43 d)),
     MWrite ch 0xBD [2], MWrite ch 0xC1 (take 42 (drop 85 d)), MSpeed ch True]"
  obtain s1 where w: "run_state (do {
       _ \<leftarrow> hx_8394_write_analog_gamma_reg_data ch (Some a) n;
       hx_8394_write_analog_digital_gamma_reg_data ch (Some d) m
     }) s = (0, s1)" and l: "cs_log s1 = cs_log s @ ?es"
    using assms(2,4,5,6) by (simp add: hx_gamma_defs hi_8394_enable_extend_cmd_def hx_lens chip_run)
  have "fst (run_state (hx_8394_check_gamma_otp_values rd ch 0 v t a d (drop 43 d) (drop 85 d)) s1) = 0"
    using assms(3,4)
    by (subst hx_check_run [OF assms(1) refl]) (simp_all add: l reg_write_def reg_content_def)
  then show ?thesis using w by (simp add: case_prod_beta)
qed

lemma gamma_tables_pass_the_check_witness:
  "fst (run_state (do {
       _ \<leftarrow> hx_8394_write_analog_gamma_reg_data 1 (Some (replicate 58 7)) 58;
       _ \<leftarrow> hx_8394_write_analog_digital_gamma_reg_data 1 (Some (map word_of_nat [0 ..< 127])) 127;
       hx_8394_check_gamma_otp_values (reg_panel (select_by 0xBD) (\<lambda>r. r = 0xC1) 1 (0, \<lambda>_ _. [])) 1 0 0 0 (replicate 58 7)
         (map word_of_nat [0 ..< 127]) (drop 43 (map word_of_nat [0 ..< 127])) (drop 85 (map word_of_nat [0 ..< 127]))
     }) \<lparr>cs_log = [], cs_info = s_hx_8394_private_info, cs_bad = False\<rparr>) = 0"
  by (rule gamma_tables_pass_the_check [OF reg_panel_keeps_regs])
    (simp_all add: s_hx_8394_private_info_def DEV_CHANNEL_NUM_def)

text \<open>
  A channel whose chip was identified once passes every later check of the HX8394 driver,
  whatever the panel answers.
\<close>

theorem identification_is_remembered:
  assumes "ch < length (cs_info s)" "hi_id (cs_info s ! ch) = [0x83, 0x94, 0x0F]" "length junk = 3"
  shows "fst (run_state (chip_hi_8394_check_chip_ok rd junk ch) s) = 0
    \<and> hi_id (cs_info (snd (run_state (chip_hi_8394_check_chip_ok rd junk ch) s)) ! ch) = [0x83, 0x94, 0x0F]
    \<and> hi_id_ok (cs_info (snd (run_state (chip_hi_8394_check_chip_ok rd junk ch) s)) ! ch) = 1"
proof -
  define reg where "reg = answer rd (cs_log s @ [MRead ch 0x04 3]) 3 junk"
  have len: "length reg = 3" using assms(3) by (auto simp: reg_def answer_def split: option.splits)
  then have reg3: "take 3 reg = [reg ! 0, reg ! 1, reg ! 2]"
    by (simp add: numeral_3_eq_3 length_Suc_conv) (auto simp: numeral_2_eq_2)
  show ?thesis using assms(1,2) reg3
    by (simp add: chip_hi_8394_check_chip_ok_def chip_hi_8394_get_chip_id_def hx_vcom_defs chip_run
        case_prod_beta Let_def flip: reg_def)
qed

lemma identification_is_remembered_witness:
  "fst (run_state (chip_hi_8394_check_chip_ok (\<lambda>_. None) [1, 2, 3] 0)
     \<lparr>cs_log = [], cs_info = [hx_zero\<lparr>hi_id := [0x83, 0x94, 0x0F]\<rparr>], cs_bad = False\<rparr>) = 0"
  using identification_is_remembered [of 0
      "\<lparr>cs_log = [], cs_info = [hx_zero\<lparr>hi_id := [0x83, 0x94, 0x0F]\<rparr>], cs_bad = False\<rparr>" "[1, 2, 3]" "\<lambda>_. None"]
  by simp

text \<open>
  When the second burn of the HX8394 is asked for, the voltage register holds the bytes of the
  password when the burn starts, not the voltage asked for; the first burn has it right.
\<close>

theorem second_burn_sets_voltage_to_the_password:
  "\<exists>es es'. snd (run_state (hx_8394_burn_gamma_otp_values ch flag 1 v a r g b) s)
      = logged s (es @ [MWrite ch 0xBB [0x80, 0x0D, 0x00, 0x01]] @ es')
    \<and> hx_content 0xB6 (hx_regs ch x (cs_log s @ es))
      = (if flag AND 1 \<noteq> 0 then [0xFF, 0x83, 0x94] else [word_of_int v, word_of_int v, 0])"
proof -
  let ?d = "if flag AND 1 \<noteq> 0 then [0xFF, 0x83, 0x94] else [word_of_int v, word_of_int v, 0 :: u8]"
  let ?es = "[MSpeed ch False, MReset 0, MReset 1, MWrite ch 0x11 [], MSleep 150, MWrite ch 0xB9 [0xFF, 0x83, 0x94],
     MWrite ch 0xB6 ?d, MSpeed ch False, MWrite ch 0xE0 (take 58 a), MSpeed ch True, MWrite ch 0xBD [0],
     MWrite ch 0xC1 (take 43 r), MWrite ch 0xBD [1], MWrite ch 0xC1 (take 42 g), MWrite ch 0xBD [2],
     MWrite ch 0xC1 (take 42 b), MSleep 100, MWrite ch 0xBB [0, 0, 0, 0, 0, 0xAA, 0x55], MWrite ch 0xBB [0x80, 0x0D]]"
  have "\<exists>es'. snd (run_state (hx_8394_burn_gamma_otp_values ch flag 1 v a r g b) s)
      = logged s (?es @ [MWrite ch 0xBB [0x80, 0x0D, 0x00, 0x01]] @ es')"
    by (simp add: hx_8394_burn_gamma_otp_values_def hx_8394_burn_gamma_data_2nd_def
        hx_8394_burn_vcom_and_gamma_data_def ICM_BURN_SECOND_FLAG_def hx_gamma_defs hx_lens chip_run Let_def
        ucast_int_byte)
  moreover have "hx_content 0xB6 (hx_regs ch x (cs_log s @ ?es)) = ?d" by (simp add: reg_content_plain)
  ultimately show ?thesis by blast
qed

end
