(* ===== verification/ChipIli9806.thy ===== *)
theory ChipIli9806
  imports PanelRegs ChipJd9367
begin

text \<open>
  The driver of the ILI9806 panel chip, \<open>icm/chips/chip_ili_9806.c\<close>. Its private data has the form
  of that of the JD9367. The page is chosen by a packet of which the program provides one byte too
  few, and some other packets send the byte behind a variable: \<open>pad\<close> is that byte of memory,
  whatever it is at that moment.
\<close>

type_synonym 'a ili = "(jd_info chip_state, 'a) state"
type_synonym pad = "mipi_ev list \<Rightarrow> u8"

definition s_9806e_private_info :: "jd_info list" where
  "s_9806e_private_info = replicate DEV_CHANNEL_NUM jd_zero"

section \<open>Registers\<close>

definition mwrite_pad :: "pad \<Rightarrow> nat \<Rightarrow> u8 \<Rightarrow> u8 list \<Rightarrow> unit ili" where
  "mwrite_pad pad ch r d = do { s \<leftarrow> State_Monad.get; mwrite ch r (d @ [pad (cs_log s)]) }"

definition ili_9806_set_page :: "pad \<Rightarrow> nat \<Rightarrow> u8 \<Rightarrow> unit ili" where
  "ili_9806_set_page pad ch page_no = mwrite_pad pad ch 0xFF [0xFF, 0x98, 0x06, 0x04, page_no]"

definition ili_read_id :: "panel \<Rightarrow> pad \<Rightarrow> nat \<Rightarrow> (u8 \<times> u8 \<times> u8) ili" where
  "ili_read_id rd pad ch = do {
     ili_9806_set_page pad ch 0;
     ili_9806_set_page pad ch 1;
     a \<leftarrow> mread rd ch 0x00 1 [0];
     b \<leftarrow> mread rd ch 0x01 1 [0];
     c \<leftarrow> mread rd ch 0x02 1 [0];
     State_Monad.return (a ! 0, b ! 0, c ! 0)
   }"

definition ili_9806_check_id :: "panel \<Rightarrow> pad \<Rightarrow> nat \<Rightarrow> int ili" where
  "ili_9806_check_id rd pad ch = do {
     reg \<leftarrow> ili_read_id rd pad ch;
     State_Monad.return (if reg = (0x98, 0x06, 0x04) then 0 else -1)
   }"

definition ili_get_otp_times :: "u8 \<Rightarrow> u8" where
  "ili_get_otp_times otp_value =
     (if otp_value = 0 then 0 else if otp_value = 1 then 1 else if otp_value = 3 then 2
      else if otp_value = 7 then 3 else 3)"

definition ili_9806_get_vcom_otp_times :: "panel \<Rightarrow> pad \<Rightarrow> nat \<Rightarrow> (int \<times> u8 \<times> u8) ili" where
  "ili_9806_get_vcom_otp_times rd pad ch = do {
     ili_9806_set_page pad ch 1;
     b \<leftarrow> mread rd ch 0xE8 1 [0];
     State_Monad.return (0, ili_get_otp_times (b ! 0 AND 0x07), ili_get_otp_times (drop_bit 3 (b ! 0) AND 0x07))
   }"

definition ili_nvm_addr :: "int \<Rightarrow> u8 \<Rightarrow> u8 \<Rightarrow> u8" where
  "ili_nvm_addr index times1 times2 =
     (if index = 0 then
        if times1 = 1 then 0x16 else if times1 = 2 then 0x18 else if times1 = 3 then 0x19 else 0x00
      else if index = 1 then
        if times2 = 1 then 0x1A else if times2 = 2 then 0x1C else if times2 = 3 then 0x1D else 0x00
      else 0x00)"

definition ili_9806_read_nvm_vcom :: "panel \<Rightarrow> pad \<Rightarrow> nat \<Rightarrow> int \<Rightarrow> (int \<times> int) ili" where
  "ili_9806_read_nvm_vcom rd pad ch index = do {
     ili_9806_set_page pad ch 1;
     (_, times1, times2) \<leftarrow> ili_9806_get_vcom_otp_times rd pad ch;
     mwrite_pad pad ch 0xE0 [0x15];
     mwrite_pad pad ch 0xE1 [ili_nvm_addr index times1 times2];
     mwrite ch 0xE3 [0x11, 0]; mwrite ch 0xE4 [0x66, 0]; mwrite ch 0xE5 [0x88, 0];
     b \<leftarrow> mread rd ch 0xEA 1 [0];
     State_Monad.return (0, uint (b ! 0))
   }"

definition ili_9806_read_vcom :: "panel \<Rightarrow> pad \<Rightarrow> nat \<Rightarrow> (int \<times> int) ili" where
  "ili_9806_read_vcom rd pad ch = do {
     ili_9806_set_page pad ch 0;
     ili_9806_set_page pad ch 1;
     h \<leftarrow> mread rd ch 0x52 1 [0];
     l \<leftarrow> mread rd ch 0x53 1 [0];
     State_Monad.return (0, push_bit 8 (uint (h ! 0)) OR uint (l ! 0))
   }"

definition ili_9806_write_vcom :: "pad \<Rightarrow> nat \<Rightarrow> int \<Rightarrow> bool \<Rightarrow> int ili" where
  "ili_9806_write_vcom pad ch vcom otp_burned = do {
     ili_9806_set_page pad ch 0;
     ili_9806_set_page pad ch 1;
     mwrite ch 0x56 [if otp_burned then 0x11 else 0x00];
     mwrite ch 0x52 [word_of_int (drop_bit 8 vcom AND 0x01)];
     mwrite ch 0x53 [word_of_int (vcom AND 0xFF)];
     State_Monad.return 0
   }"

text \<open>The supply of the left side is number 2 and that of the right side number 3
  (\<open>PWR_CHANNEL_LEFT\<close>, \<open>PWR_CHANNEL_RIGHT\<close>).\<close>

definition power_side :: "nat \<Rightarrow> nat" where
  "power_side ch = (if ch = 0 \<or> ch = 1 then 2 else 3)"

definition ili_9806_burn_vcom :: "panel \<Rightarrow> pad \<Rightarrow> nat \<Rightarrow> int \<Rightarrow> jd_info chip_state \<Rightarrow> (int \<times> jd_info chip_state) option" where
  "ili_9806_burn_vcom rd pad ch vcom s =
     (case run_state (do {
         ili_9806_set_page pad ch 0;
         mwrite ch 0x01 []; mwrite ch 0x11 [];
         msleep 120;
         ili_9806_set_page pad ch 1;
         ili_9806_get_vcom_otp_times rd pad ch
       }) s of
      ((_, vcom1_count, vcom2_count), s1) \<Rightarrow>
        if vcom1_count = 0x07 \<or> vcom2_count = 0x07 then Some (-1, s1)
        else
          (case run_state (do {
             record_ev (MSupply True (power_side ch));
             msleep 20;
             mwrite ch 0xE1 [0x04]; mwrite ch 0xE0 [word_of_int (drop_bit 8 vcom AND 0x01)];
             mwrite ch 0xE1 [0x05]; mwrite ch 0xE0 [word_of_int (vcom AND 0xFF)];
             mwrite ch 0xE3 [0x55, 0]; mwrite ch 0xE4 [0xAA, 0]; mwrite ch 0xE5 [0x66, 0]
           }) s1 of (_, s2) \<Rightarrow>
          (case otp_wait rd ch 1 s2 of
             None \<Rightarrow> None
           | Some s3 \<Rightarrow> Some (0, snd (run_state (do {
               record_ev (MSupply False (power_side ch));
               mwrite ch 0x01 []; msleep 200 }) s3)))))"

definition ili_9806_otp_check_vcom :: "panel \<Rightarrow> pad \<Rightarrow> nat \<Rightarrow> int \<Rightarrow> int \<Rightarrow> int ili" where
  "ili_9806_otp_check_vcom rd pad ch new_vcom old_otp_times = do {
     val \<leftarrow> ili_9806_check_id rd pad ch;
     (if val \<noteq> 0 then State_Monad.return (-1)
      else do {
        (val, times1, times2) \<leftarrow> ili_9806_get_vcom_otp_times rd pad ch;
        (if val \<noteq> 0 then State_Monad.return (-2)
         else if uint times1 \<le> old_otp_times then State_Monad.return (-3)
         else do {
           (val, vcom) \<leftarrow> ili_9806_read_nvm_vcom rd pad ch 0;
           State_Monad.return (if val \<noteq> 0 then -4 else if vcom \<noteq> new_vcom then -5 else 0)
         })
      })
   }"

section \<open>Operations of the descriptor\<close>

text \<open>The result and the bytes \<open>p_id_data\<close> gets, if any.\<close>

definition chip_ili_9806e_get_chip_id :: "panel \<Rightarrow> pad \<Rightarrow> nat \<Rightarrow> u8 list option \<Rightarrow> int \<Rightarrow> (int \<times> u8 list option) ili" where
  "chip_ili_9806e_get_chip_id rd pad ch p_id_data id_data_len = do {
     reg \<leftarrow> ili_read_id rd pad ch;
     State_Monad.return
       (if reg = (0x98, 0x06, 0x04) then
          (case p_id_data of
             Some old \<Rightarrow> if id_data_len \<ge> 3 then (3, Some ([0x98, 0x06, 0x04] @ drop 3 old)) else (0, Some old)
           | None \<Rightarrow> (0, None))
        else (-1, p_id_data))
   }"

definition chip_ili_9806e_check_chip_ok :: "panel \<Rightarrow> pad \<Rightarrow> nat \<Rightarrow> int ili" where
  "chip_ili_9806e_check_chip_ok rd pad ch = do {
     i \<leftarrow> get_info ch;
     (_, p_id) \<leftarrow> chip_ili_9806e_get_chip_id rd pad ch (Some (ji_id i)) 3;
     upd_info ch (ji_id_update (\<lambda>old. case p_id of None \<Rightarrow> old | Some d \<Rightarrow> d));
     i \<leftarrow> get_info ch;
     (if ji_id i ! 0 \<noteq> 0x98 \<or> ji_id i ! 1 \<noteq> 0x06 \<or> ji_id i ! 2 \<noteq> 0x04 then do {
        upd_info ch (\<lambda>i. i\<lparr>ji_id_ok := 0\<rparr>);
        State_Monad.return (-1)
      }
      else do {
        upd_info ch (\<lambda>i. i\<lparr>ji_id_ok := 1\<rparr>);
        (_, t1, t2) \<leftarrow> ili_9806_get_vcom_otp_times rd pad ch;
        upd_info ch (\<lambda>i. i\<lparr>ji_vcom1_otp_times := ucast t1, ji_vcom2_otp_times := ucast t2\<rparr>);
        (_, v1) \<leftarrow> ili_9806_read_nvm_vcom rd pad ch 0;
        (_, v2) \<leftarrow> ili_9806_read_nvm_vcom rd pad ch 1;
        upd_info ch (\<lambda>i. i\<lparr>ji_vcom1 := word_of_int v1, ji_vcom2 := word_of_int v2\<rparr>);
        State_Monad.return 0
      })
   }"

definition chip_ili_9806e_get_and_reset_private_data :: "nat \<Rightarrow> unit ili" where
  "chip_ili_9806e_get_and_reset_private_data ch = upd_info ch (\<lambda>_. jd_zero)"

definition chip_ili_9806e_read_chip_vcom_opt_times :: "panel \<Rightarrow> pad \<Rightarrow> nat \<Rightarrow> (int \<times> int option) ili" where
  "chip_ili_9806e_read_chip_vcom_opt_times rd pad ch = do {
     i \<leftarrow> get_info ch;
     (if ji_id_ok i = 1 then do {
        (_, t1, _) \<leftarrow> ili_9806_get_vcom_otp_times rd pad ch;
        State_Monad.return (0, Some (uint t1))
      }
      else State_Monad.return (-1, None))
   }"

definition chip_ili_9806e_read_chip_vcom_opt_info :: "panel \<Rightarrow> pad \<Rightarrow> nat \<Rightarrow> (int \<times> (int \<times> int) option) ili" where
  "chip_ili_9806e_read_chip_vcom_opt_info rd pad ch = do {
     i \<leftarrow> get_info ch;
     (if ji_id_ok i = 1 then do {
        (_, t1, _) \<leftarrow> ili_9806_get_vcom_otp_times rd pad ch;
        (_, v1) \<leftarrow> ili_9806_read_nvm_vcom rd pad ch 0;
        (_, v2) \<leftarrow> ili_9806_read_nvm_vcom rd pad ch 1;
        State_Monad.return (0, Some (uint t1, v1))
      }
      else State_Monad.return (-1, None))
   }"

definition chip_ili_9806e_read_vcom :: "panel \<Rightarrow> pad \<Rightarrow> nat \<Rightarrow> (int \<times> int option) ili" where
  "chip_ili_9806e_read_vcom rd pad ch = do {
     i \<leftarrow> get_info ch;
     (if ji_id_ok i = 1 then do {
        (_, v) \<leftarrow> ili_9806_read_vcom rd pad ch;
        State_Monad.return (0, Some v)
      }
      else State_Monad.return (-1, None))
   }"

definition chip_ili_9806e_write_vcom :: "pad \<Rightarrow> nat \<Rightarrow> int \<Rightarrow> int ili" where
  "chip_ili_9806e_write_vcom pad ch vcom_value = do {
     i \<leftarrow> get_info ch;
     (if ji_id_ok i = 1 then do {
        _ \<leftarrow> ili_9806_write_vcom pad ch vcom_value (ji_vcom1_otp_times i \<noteq> 0);
        State_Monad.return 0
      }
      else State_Monad.return (-1))
   }"

definition chip_ili_9806e_write_chip_vcom_otp_value ::
  "panel \<Rightarrow> pad \<Rightarrow> nat \<Rightarrow> int \<Rightarrow> jd_info chip_state \<Rightarrow> (int \<times> jd_info chip_state) option" where
  "chip_ili_9806e_write_chip_vcom_otp_value rd pad ch v s =
     (case run_state (get_info ch) s of (i, s1) \<Rightarrow>
        if ji_id_ok i = 1 then ili_9806_burn_vcom rd pad ch v s1 else Some (-1, s1))"

text \<open>A number of burns that did not change counts as success.\<close>

definition chip_ili_9806e_check_vcom_otp_burn_ok :: "panel \<Rightarrow> pad \<Rightarrow> nat \<Rightarrow> int \<Rightarrow> int \<Rightarrow> (int \<times> int option) ili" where
  "chip_ili_9806e_check_vcom_otp_burn_ok rd pad ch vcom_value last_otp_times = do {
     val \<leftarrow> chip_ili_9806e_check_chip_ok rd pad ch;
     (if val \<noteq> 0 then State_Monad.return (E_ICM_READ_ID_ERROR, None)
      else do {
        i \<leftarrow> get_info ch;
        State_Monad.return
          (if ji_vcom1_otp_times i \<noteq> word_of_int (last_otp_times + 1) then E_ICM_OK
           else if ji_vcom1 i \<noteq> word_of_int vcom_value then E_ICM_VCOM_VALUE_NOT_CHANGE else 0,
           Some (sint (ji_vcom1 i)))
      })
   }"

section \<open>Reading the voltage back\<close>

definition ili_sel :: bank_sel where
  "ili_sel r d = (if r = 0xFF \<and> 5 \<le> length d then Some (d ! 4) else None)"

abbreviation ili_keeps :: "nat \<Rightarrow> regs \<Rightarrow> panel \<Rightarrow> bool" where "ili_keeps \<equiv> keeps_regs ili_sel (\<lambda>_. True)"
abbreviation ili_regs :: "nat \<Rightarrow> regs \<Rightarrow> mipi_ev list \<Rightarrow> regs" where "ili_regs \<equiv> regs_after ili_sel (\<lambda>_. True)"

definition ili_ok :: "panel \<Rightarrow> nat \<Rightarrow> regs \<Rightarrow> jd_info chip_state \<Rightarrow> bool" where
  "ili_ok rd ch x s \<longleftrightarrow> ili_keeps ch x rd \<and> ch < length (cs_info s) \<and> ji_id_ok (cs_info s ! ch) = 1
     \<and> snd (ili_regs ch x (cs_log s)) 0x52 1 \<noteq> [] \<and> snd (ili_regs ch x (cs_log s)) 0x53 1 \<noteq> []"

lemma ili_page [simp]: "reg_write ili_sel banked 0xFF [a, b, c, d, p, q] x = (p, snd x)"
  and ili_plain: "r \<noteq> 0xFF \<Longrightarrow> reg_write ili_sel banked r d' x = (fst x, (snd x)(r := (snd x r)(if banked r then fst x else 0 := d')))"
  by (simp_all add: reg_write_def ili_sel_def)

lemma run_pad [chip_run]: "run_state (mwrite_pad pad ch r d) s = ((), logged s [MWrite ch r (d @ [pad (cs_log s)])])"
  by (simp add: mwrite_pad_def chip_run)

lemma ili_get:
  assumes "ili_ok rd ch x s"
  shows "\<exists>p q. run_state (chip_ili_9806e_read_vcom rd pad ch) s
    = ((0, Some (push_bit 8 (uint (hd (snd (ili_regs ch x (cs_log s)) 0x52 1))) OR uint (hd (snd (ili_regs ch x (cs_log s)) 0x53 1)))),
       logged s [MWrite ch 0xFF [0xFF, 0x98, 0x06, 0x04, 0, p], MWrite ch 0xFF [0xFF, 0x98, 0x06, 0x04, 1, q],
         MRead ch 0x52 1, MRead ch 0x53 1])"
proof -
  let ?X = "ili_regs ch x (cs_log s)"
  define p where "p = pad (cs_log s)"
  define q where "q = pad (cs_log s @ [MWrite ch 0xFF [0xFF, 0x98, 0x06, 0x04, 0, p]])"
  let ?l = "cs_log s @ [MWrite ch 0xFF [0xFF, 0x98, 0x06, 0x04, 0, p], MWrite ch 0xFF [0xFF, 0x98, 0x06, 0x04, 1, q]]"
  have "answer rd (?l @ [MRead ch 0x52 1]) 1 [0] ! 0 = hd (snd ?X 0x52 1)"
    "answer rd ((?l @ [MRead ch 0x52 1]) @ [MRead ch 0x53 1]) 1 [0] ! 0 = hd (snd ?X 0x53 1)"
    using assms by (subst keeps_regs_byte [where sel = ili_sel and banked = "\<lambda>_. True"]; simp add: ili_ok_def reg_content_def)+
  then show ?thesis using assms
    by (intro exI [of _ p] exI [of _ q])
      (simp add: chip_ili_9806e_read_vcom_def ili_9806_read_vcom_def ili_9806_set_page_def chip_run ili_ok_def
        p_def q_def del: One_nat_def)
qed

interpretation ili: vcom_registers "chip_ili_9806e_write_vcom pad ch" "chip_ili_9806e_read_vcom rd pad ch" "ili_ok rd ch x" "\<lambda>v. v mod 512"
  for ch rd pad x
proof
  fix s v assume ok: "ili_ok rd ch x s"
  let ?h = "word_of_int (drop_bit 8 v AND 0x01) :: u8" and ?l = "word_of_int (v AND 0xFF) :: u8"
  obtain p q t where w: "run_state (chip_ili_9806e_write_vcom pad ch v) s
      = (0, logged s [MWrite ch 0xFF [0xFF, 0x98, 0x06, 0x04, 0, p], MWrite ch 0xFF [0xFF, 0x98, 0x06, 0x04, 1, q],
           MWrite ch 0x56 [t], MWrite ch 0x52 [?h], MWrite ch 0x53 [?l]])"
    using ok by (simp add: chip_ili_9806e_write_vcom_def ili_9806_write_vcom_def ili_9806_set_page_def chip_run ili_ok_def)
  let ?X = "ili_regs ch x (cs_log (snd (run_state (chip_ili_9806e_write_vcom pad ch v) s)))"
  have X: "snd ?X 0x52 1 = [?h]" "snd ?X 0x53 1 = [?l]" unfolding w by (simp_all add: ili_plain)
  then show set: "ili_ok rd ch x (snd (run_state (chip_ili_9806e_write_vcom pad ch v) s)) \<and> fst (run_state (chip_ili_9806e_write_vcom pad ch v) s) = 0"
    using ok unfolding w by (simp add: ili_ok_def)
  show "fst (run_state (chip_ili_9806e_read_vcom rd pad ch) (snd (run_state (chip_ili_9806e_write_vcom pad ch v) s))) = (0, Some (v mod 512))"
    using ili_get [OF conjunct1 [OF set], of pad] nine_bits [of v] by (auto simp: X)
next
  fix s assume ok: "ili_ok rd ch x s"
  obtain p q where get: "run_state (chip_ili_9806e_read_vcom rd pad ch) s
    = ((0, Some (push_bit 8 (uint (hd (snd (ili_regs ch x (cs_log s)) 0x52 1))) OR uint (hd (snd (ili_regs ch x (cs_log s)) 0x53 1)))),
       logged s [MWrite ch 0xFF [0xFF, 0x98, 0x06, 0x04, 0, p], MWrite ch 0xFF [0xFF, 0x98, 0x06, 0x04, 1, q],
         MRead ch 0x52 1, MRead ch 0x53 1])"
    using ili_get [OF ok] by blast
  let ?s = "snd (run_state (chip_ili_9806e_read_vcom rd pad ch) s)"
  have X: "snd (ili_regs ch x (cs_log ?s)) = snd (ili_regs ch x (cs_log s))" unfolding get by simp
  then show ok': "ili_ok rd ch x ?s" using ok unfolding ili_ok_def by (simp add: get)
  show "fst (run_state (chip_ili_9806e_read_vcom rd pad ch) ?s) = fst (run_state (chip_ili_9806e_read_vcom rd pad ch) s)"
    using ili_get [OF ok', of pad] unfolding X by (auto simp: get)
qed

section \<open>What a check leaves\<close>

lemma ili_keeps_info [prog_rule]:
  "keeps_info (mwrite_pad pad ch r d)" "keeps_info (ili_9806_set_page pad ch p)"
  by (simp_all add: keeps_info_def ili_9806_set_page_def run_pad)

lemma ili_reads_keep_info [prog_rule]:
  "keeps_info (ili_read_id rd pad ch)" "keeps_info (ili_9806_get_vcom_otp_times rd pad ch)"
  by (unfold ili_read_id_def ili_9806_get_vcom_otp_times_def) (intro prog_rule)+

lemma ili_nvm_keeps_info [prog_rule]: "keeps_info (ili_9806_read_nvm_vcom rd pad ch i)"
  unfolding ili_9806_read_nvm_vcom_def by (intro prog_rule)

lemma ili_nvm_byte:
  "\<exists>w :: u8. word_of_int (snd (fst (run_state (ili_9806_read_nvm_vcom rd pad ch i) s))) = (ucast w :: u32)"
  by (auto simp: ili_9806_read_nvm_vcom_def case_prod_beta)

lemmas ili_kept = ili_reads_keep_info [THEN keeps_info_run] ili_nvm_keeps_info [THEN keeps_info_run]

lemma check_voltage_is_a_byte:
  assumes "ch < length (cs_info s)"
  shows "fst (run_state (chip_ili_9806e_check_chip_ok rd pad ch) s) = 0 \<longrightarrow>
    ch < length (cs_info (snd (run_state (chip_ili_9806e_check_chip_ok rd pad ch) s)))
    \<and> (\<exists>w :: u8. ji_vcom1 (cs_info (snd (run_state (chip_ili_9806e_check_chip_ok rd pad ch) s)) ! ch) = ucast w)"
  using assms ili_nvm_byte
  by (auto simp: chip_ili_9806e_check_chip_ok_def chip_ili_9806e_get_chip_id_def case_prod_beta get_info_def upd_info_def ili_kept)

section \<open>Properties\<close>

text \<open>
  The burn of the ILI9806 returns exactly when the panel at some time reports the end of the
  burn or fails to answer after an answer; the programming supply is switched on before, and
  off again in every case in which it returns.
\<close>

theorem burn_ends_with_the_busy_flag:
  "\<exists>es. MSupply True (power_side ch) \<in> set es \<and>
     (case ili_9806_burn_vcom rd pad ch v s of
        None \<Rightarrow> \<forall>n. \<not> poll_done rd ch (cs_log s @ es) n
      | Some (r, s') \<Rightarrow> r = 0 \<and> (\<exists>n. poll_done rd ch (cs_log s @ es) n
          \<and> cs_log s' = cs_log s @ es @ poll_events ch (n + 1) @ [MSupply False (power_side ch), MWrite ch 0x01 [], MSleep 200]))"
proof -
  have times: "ili_get_otp_times w \<noteq> 7" for w by (simp add: ili_get_otp_times_def)
  obtain es0 a b where pre: "run_state (do {
         ili_9806_set_page pad ch 0;
         mwrite ch 0x01 []; mwrite ch 0x11 [];
         msleep 120;
         ili_9806_set_page pad ch 1;
         ili_9806_get_vcom_otp_times rd pad ch
       }) s = ((0, ili_get_otp_times a, ili_get_otp_times b), logged s es0)"
    by (simp add: ili_9806_set_page_def ili_9806_get_vcom_otp_times_def chip_run)
  define es where "es = es0 @ [MSupply True (power_side ch), MSleep 20, MWrite ch 0xE1 [0x04],
    MWrite ch 0xE0 [word_of_int (drop_bit 8 v AND 0x01)], MWrite ch 0xE1 [0x05], MWrite ch 0xE0 [word_of_int (v AND 0xFF)],
    MWrite ch 0xE3 [0x55, 0], MWrite ch 0xE4 [0xAA, 0], MWrite ch 0xE5 [0x66, 0]]"
  have burn: "ili_9806_burn_vcom rd pad ch v s = (case otp_wait rd ch 1 (logged s es) of None \<Rightarrow> None
     | Some s3 \<Rightarrow> Some (0, logged s3 [MSupply False (power_side ch), MWrite ch 0x01 [], MSleep 200]))"
    unfolding ili_9806_burn_vcom_def pre using times by (simp add: chip_run es_def split: option.split)
  have "MSupply True (power_side ch) \<in> set es" by (simp add: es_def)
  then show ?thesis
    by (intro exI [of _ es], cases rule: otp_wait_cases [of rd ch "logged s es"]) (auto simp: burn)
qed

text \<open>
  After a burn of a voltage of at least 256 the check of the ILI9806 accepts it exactly when
  the number of burns has not changed as expected: the voltage is read back with eight bits
  only.
\<close>

theorem high_voltages_pass_only_without_a_burn:
  assumes "ch < length (cs_info s)" "256 \<le> v" "v < 2 ^ 32"
    "fst (run_state (chip_ili_9806e_check_chip_ok rd pad ch) s) = 0"
  shows "fst (fst (run_state (chip_ili_9806e_check_vcom_otp_burn_ok rd pad ch v prev) s)) = 0
    \<longleftrightarrow> ji_vcom1_otp_times (cs_info (snd (run_state (chip_ili_9806e_check_chip_ok rd pad ch) s)) ! ch) \<noteq> word_of_int (prev + 1)"
proof -
  obtain s1 where s1: "run_state (chip_ili_9806e_check_chip_ok rd pad ch) s = (0, s1)"
    using assms(4) by (metis prod.collapse)
  have "ch < length (cs_info s1) \<and> (\<exists>w :: u8. ji_vcom1 (cs_info s1 ! ch) = ucast w)"
    using check_voltage_is_a_byte [OF assms(1), of rd pad] assms(4) s1 by simp
  then obtain w :: u8 where w: "ch < length (cs_info s1)" "ji_vcom1 (cs_info s1 ! ch) = ucast w" by blast
  have "(ucast w :: u32) \<noteq> word_of_int v"
  proof
    assume eq: "(ucast w :: u32) = word_of_int v"
    have "uint w < 256" using uint_lt2p [of w] by simp
    moreover have "uint (ucast w :: u32) = uint w" using calculation by (simp add: unsigned_ucast_eq take_bit_int_eq_self)
    ultimately show False using assms(2,3) unfolding eq by (simp add: uint_word_of_int_eq take_bit_int_eq_self)
  qed
  then show ?thesis using w s1
    by (simp add: chip_ili_9806e_check_vcom_otp_burn_ok_def chip_run E_ICM_OK_def E_ICM_VCOM_VALUE_NOT_CHANGE_def)
qed

definition demo_ili :: panel where
  "demo_ili l =
     (case last l of
        MRead c r n \<Rightarrow> Some (\<lambda>_. if r = 0x00 then 0x98 else if r = 0x01 then 0x06 else if r = 0x02 then 0x04
          else if r = 0xE8 then 1 else 0x2C)
      | _ \<Rightarrow> None)"

lemma high_voltages_pass_only_without_a_burn_witness:
  "fst (fst (run_state (chip_ili_9806e_check_vcom_otp_burn_ok demo_ili (\<lambda>_. 0) 1 300 0)
      \<lparr>cs_log = [], cs_info = s_9806e_private_info, cs_bad = False\<rparr>)) \<noteq> 0"
proof -
  let ?s = "\<lparr>cs_log = [], cs_info = s_9806e_private_info, cs_bad = False\<rparr>"
  have "fst (run_state (chip_ili_9806e_check_chip_ok demo_ili (\<lambda>_. 0) 1) ?s) = 0
    \<and> ji_vcom1_otp_times (cs_info (snd (run_state (chip_ili_9806e_check_chip_ok demo_ili (\<lambda>_. 0) 1) ?s)) ! 1) = 1"
    by (simp add: chip_ili_9806e_check_chip_ok_def chip_ili_9806e_get_chip_id_def ili_read_id_def ili_9806_set_page_def
        ili_9806_get_vcom_otp_times_def ili_get_otp_times_def ili_9806_read_nvm_vcom_def chip_run answer_def demo_ili_def
        s_9806e_private_info_def DEV_CHANNEL_NUM_def jd_zero_def)
  then show ?thesis
    using high_voltages_pass_only_without_a_burn [of 1 ?s 300 demo_ili "\<lambda>_. 0" 0]
    by (simp add: s_9806e_private_info_def DEV_CHANNEL_NUM_def)
qed

end
