(* ===== verification/ChipOtm8019a.thy ===== *)
theory ChipOtm8019a
  imports PanelRegs
begin

text \<open>
  The driver of the OTM8019A panel chip, \<open>icm/chips/chip_otm_8019a.c\<close>, with the pins of the
  programming supply from \<open>hw/mipi/mipi_interface.c\<close>. This driver also looks at the value
  \<open>ReadModReg\<close> returns: \<open>cnt\<close> gives it for the read at the end of a trace.
\<close>

record otm_info =
  oi_id :: "u8 list"
  oi_id_ok :: u8
  oi_vcom :: u32
  oi_vcom_otp_times :: u32

type_synonym 'a otm = "(otm_info chip_state, 'a) state"
type_synonym count = "mipi_ev list \<Rightarrow> int"

definition otm_zero :: otm_info where
  "otm_zero = \<lparr>oi_id = [0, 0, 0, 0, 0], oi_id_ok = 0, oi_vcom = 0, oi_vcom_otp_times = 0\<rparr>"

definition s_otm_8019a_private_info :: "otm_info list" where
  "s_otm_8019a_private_info = replicate DEV_CHANNEL_NUM otm_zero"

section \<open>Registers\<close>

definition mtp_pin :: "nat \<Rightarrow> nat" where "mtp_pin channel = (if channel = 0 \<or> channel = 1 then 14 else 15)"
definition mtp_power_on :: "nat \<Rightarrow> unit otm" where "mtp_power_on channel = record_ev (MPin (mtp_pin channel) True)"
definition mtp_power_off :: "nat \<Rightarrow> unit otm" where "mtp_power_off channel = record_ev (MPin (mtp_pin channel) False)"

definition otm_8019a_ready :: "nat \<Rightarrow> unit otm" where
  "otm_8019a_ready ch = do {
     mwrite ch 0x00 [0x00]; mwrite ch 0xff [0x80, 0x19, 0x01];
     mwrite ch 0x00 [0x80]; mwrite ch 0xff [0x80, 0x19]
   }"

text \<open>The second component is the output parameter when it is set.\<close>

definition otm_8019a_read_vcom :: "panel \<Rightarrow> count \<Rightarrow> nat \<Rightarrow> (int \<times> int option) otm" where
  "otm_8019a_read_vcom rd cnt ch = do {
     mwrite ch 0x00 [0x00];
     data \<leftarrow> mread rd ch 0xD9 1 [0xff, 0xff, 0xff, 0xff, 0, 0, 0, 0];
     s \<leftarrow> State_Monad.get;
     State_Monad.return
       (if cnt (cs_log s) \<le> 0 then (-1, None)
        else if data ! 0 = 0xFF then (-1, None)
        else (0, Some (uint (data ! 0))))
   }"

definition otm_8019a_write_vcom :: "nat \<Rightarrow> int \<Rightarrow> int otm" where
  "otm_8019a_write_vcom ch vcom_value = do {
     mwrite ch 0x00 [0x00];
     mwrite ch 0xD9 [word_of_int (vcom_value AND 0xff)];
     State_Monad.return 0
   }"

definition otm_8019a_unlock :: "nat \<Rightarrow> unit otm" where
  "otm_8019a_unlock ch = do {
     mwrite ch 0x00 [0x00]; mwrite ch 0xff [0x80, 0x19, 0x01];
     mwrite ch 0x00 [0x80]; mwrite ch 0xff [0x80, 0x19]
   }"

definition otm_8019a_sleep_out :: "nat \<Rightarrow> unit otm" where "otm_8019a_sleep_out ch = mwrite ch 0x11 []"
definition otm_8019a_display_on :: "nat \<Rightarrow> unit otm" where "otm_8019a_display_on ch = mwrite ch 0x29 []"
definition otm_8019a_display_off :: "nat \<Rightarrow> unit otm" where "otm_8019a_display_off ch = mwrite ch 0x28 []"
definition otm_8019a_sleep_in :: "nat \<Rightarrow> unit otm" where "otm_8019a_sleep_in ch = mwrite ch 0x10 []"

definition otm_8019a_program_on :: "nat \<Rightarrow> unit otm" where
  "otm_8019a_program_on ch = do { mwrite ch 0x00 [0x00]; mwrite ch 0xEB [0x81] }"

definition otm_8019a_program_end :: "nat \<Rightarrow> unit otm" where
  "otm_8019a_program_end ch = do { mwrite ch 0x00 [0x00]; mwrite ch 0xEB [0x00] }"

section \<open>Operations of the descriptor\<close>

text \<open>Five bytes are stored, whatever length the caller gives.\<close>

definition chip_otm_8019a_get_chip_id :: "panel \<Rightarrow> nat \<Rightarrow> u8 list option \<Rightarrow> (int \<times> u8 list option) otm" where
  "chip_otm_8019a_get_chip_id rd ch p_id_data = do {
     data \<leftarrow> mread rd ch 0xA1 5 (replicate 8 0);
     State_Monad.return
       (if take 5 data = [0x01, 0x8B, 0x80, 0x19, 0xFF]
        then (5, map_option (\<lambda>old. take 5 data @ drop 5 old) p_id_data)
        else (-1, p_id_data))
   }"

definition otm_count :: "u8 \<Rightarrow> int" where
  "otm_count d = (if d AND 0x80 \<noteq> 0 then 1 else 0) + (if d AND 0x40 \<noteq> 0 then 1 else 0)
     + (if d AND 0x20 \<noteq> 0 then 1 else 0) + (if d AND 0x10 \<noteq> 0 then 1 else 0)"

definition chip_otm_8019a_read_chip_vcom_opt_times :: "panel \<Rightarrow> nat \<Rightarrow> (int \<times> int option) otm" where
  "chip_otm_8019a_read_chip_vcom_opt_times rd ch = do {
     i \<leftarrow> get_info ch;
     (if oi_id_ok i = 1 then do {
        otm_8019a_ready ch;
        mwrite ch 0x00 [0x02];
        data \<leftarrow> mread rd ch 0xF1 1 [0xff, 0xff, 0xff, 0xff, 0, 0, 0, 0];
        State_Monad.return (0, Some (otm_count (data ! 0)))
      }
      else State_Monad.return (-1, None))
   }"

definition or_zero :: "int option \<Rightarrow> int" where "or_zero v = (case v of None \<Rightarrow> 0 | Some x \<Rightarrow> x)"

definition chip_otm_8019a_check_chip_ok :: "panel \<Rightarrow> count \<Rightarrow> nat \<Rightarrow> int otm" where
  "chip_otm_8019a_check_chip_ok rd cnt ch = do {
     i \<leftarrow> get_info ch;
     (val, p_id) \<leftarrow> chip_otm_8019a_get_chip_id rd ch (Some (oi_id i));
     upd_info ch (oi_id_update (\<lambda>old. case p_id of None \<Rightarrow> old | Some d \<Rightarrow> d));
     (if val < 0 then do {
        upd_info ch (\<lambda>i. i\<lparr>oi_id_ok := 0\<rparr>);
        State_Monad.return (-1)
      }
      else do {
        upd_info ch (\<lambda>i. i\<lparr>oi_id_ok := 1\<rparr>);
        (_, t) \<leftarrow> chip_otm_8019a_read_chip_vcom_opt_times rd ch;
        upd_info ch (\<lambda>i. i\<lparr>oi_vcom_otp_times := word_of_int (or_zero t)\<rparr>);
        (_, v) \<leftarrow> otm_8019a_read_vcom rd cnt ch;
        upd_info ch (\<lambda>i. i\<lparr>oi_vcom := word_of_int (or_zero v)\<rparr>);
        State_Monad.return 0
      })
   }"

definition chip_otm_8019a_get_and_reset_private_data :: "nat \<Rightarrow> unit otm" where
  "chip_otm_8019a_get_and_reset_private_data ch = upd_info ch (\<lambda>_. otm_zero)"

definition chip_otm_8019a_read_chip_vcom_opt_info :: "panel \<Rightarrow> count \<Rightarrow> nat \<Rightarrow> (int \<times> (int \<times> int) option) otm" where
  "chip_otm_8019a_read_chip_vcom_opt_info rd cnt ch = do {
     i \<leftarrow> get_info ch;
     (if oi_id_ok i = 1 then do {
        (_, t) \<leftarrow> chip_otm_8019a_read_chip_vcom_opt_times rd ch;
        (val, v) \<leftarrow> otm_8019a_read_vcom rd cnt ch;
        State_Monad.return (if val \<noteq> 0 then (-1, None) else (0, Some (or_zero t, or_zero v)))
      }
      else State_Monad.return (-1, None))
   }"

text \<open>A failed read of the voltage counts as success with the voltage 0.\<close>

definition chip_otm_8019a_read_vcom :: "panel \<Rightarrow> count \<Rightarrow> nat \<Rightarrow> (int \<times> int option) otm" where
  "chip_otm_8019a_read_vcom rd cnt ch = do {
     i \<leftarrow> get_info ch;
     (if oi_id_ok i = 1 then do {
        otm_8019a_ready ch;
        (_, v) \<leftarrow> otm_8019a_read_vcom rd cnt ch;
        State_Monad.return (0, Some (or_zero v))
      }
      else State_Monad.return (-1, None))
   }"

definition chip_otm_8019a_write_vcom :: "nat \<Rightarrow> int \<Rightarrow> int otm" where
  "chip_otm_8019a_write_vcom ch vcom_value = do {
     i \<leftarrow> get_info ch;
     (if oi_id_ok i = 1 then do {
        _ \<leftarrow> otm_8019a_write_vcom ch vcom_value;
        State_Monad.return 0
      }
      else State_Monad.return (-1))
   }"

definition chip_otm_8019a_write_chip_vcom_otp_value :: "panel \<Rightarrow> count \<Rightarrow> nat \<Rightarrow> int \<Rightarrow> int otm" where
  "chip_otm_8019a_write_chip_vcom_otp_value rd cnt ch otp_vcom_value = do {
     i \<leftarrow> get_info ch;
     (if oi_id_ok i = 1 then do {
        mspeed ch False; mreset ch; msleep 5;
        otm_8019a_unlock ch;
        otm_8019a_sleep_out ch; msleep 150;
        _ \<leftarrow> otm_8019a_write_vcom ch otp_vcom_value;
        (_, v) \<leftarrow> otm_8019a_read_vcom rd cnt ch;
        let val = (if or_zero v \<noteq> otp_vcom_value then -1 else 0);
        msleep 10;
        otm_8019a_display_off ch; msleep 100;
        otm_8019a_sleep_in ch; msleep 800;
        mtp_power_on ch; msleep 800;
        otm_8019a_program_on ch; msleep 1200;
        otm_8019a_program_end ch; msleep 100;
        mtp_power_off ch; msleep 100;
        mreset ch; msleep 100;
        otm_8019a_sleep_out ch; msleep 150;
        State_Monad.return val
      }
      else State_Monad.return (-1))
   }"

text \<open>The voltage reported as read is the one asked for.\<close>

definition chip_otm_8019a_check_vcom_otp_burn_ok :: "panel \<Rightarrow> count \<Rightarrow> nat \<Rightarrow> int \<Rightarrow> int \<Rightarrow> (int \<times> int option) otm" where
  "chip_otm_8019a_check_vcom_otp_burn_ok rd cnt ch vcom_value last_otp_times = do {
     otm_8019a_sleep_out ch;
     otm_8019a_unlock ch;
     val \<leftarrow> chip_otm_8019a_check_chip_ok rd cnt ch;
     (if val \<noteq> 0 then State_Monad.return (E_ICM_READ_ID_ERROR, None)
      else do {
        i \<leftarrow> get_info ch;
        State_Monad.return
          (if oi_vcom_otp_times i \<le> word_of_int last_otp_times then E_ICM_VCOM_TIMES_NOT_CHANGE
           else if oi_vcom i \<noteq> word_of_int vcom_value then E_ICM_VCOM_VALUE_NOT_CHANGE else E_ICM_OK,
           Some vcom_value)
      })
   }"

section \<open>Reading the voltage back\<close>

text \<open>A write to register 0 chooses the address within the registers.\<close>

abbreviation otm_keeps :: "nat \<Rightarrow> regs \<Rightarrow> panel \<Rightarrow> bool" where "otm_keeps \<equiv> keeps_regs (select_by 0) (\<lambda>_. True)"
abbreviation otm_regs :: "nat \<Rightarrow> regs \<Rightarrow> mipi_ev list \<Rightarrow> regs" where "otm_regs \<equiv> regs_after (select_by 0) (\<lambda>_. True)"

definition otm_ok :: "panel \<Rightarrow> count \<Rightarrow> nat \<Rightarrow> regs \<Rightarrow> otm_info chip_state \<Rightarrow> bool" where
  "otm_ok rd cnt ch x s \<longleftrightarrow> otm_keeps ch x rd \<and> (\<forall>l. 0 < cnt (l @ [MRead ch 0xD9 1])) \<and> ch < length (cs_info s)
     \<and> oi_id_ok (cs_info s ! ch) = 1 \<and> snd (otm_regs ch x (cs_log s)) 0xD9 0 \<noteq> []"

lemmas otm_defs = otm_8019a_ready_def otm_8019a_read_vcom_def otm_8019a_write_vcom_def otm_8019a_unlock_def

lemma otm_get:
  assumes "otm_ok rd cnt ch x s"
  shows "run_state (chip_otm_8019a_read_vcom rd cnt ch) s
    = ((0, Some (let w = hd (snd (otm_regs ch x (cs_log s)) 0xD9 0) in if w = 0xFF then 0 else uint w)),
       logged s [MWrite ch 0x00 [0x00], MWrite ch 0xff [0x80, 0x19, 0x01], MWrite ch 0x00 [0x80],
         MWrite ch 0xff [0x80, 0x19], MWrite ch 0x00 [0x00], MRead ch 0xD9 1])"
proof -
  let ?X = "otm_regs ch x (cs_log s)"
  let ?l = "cs_log s @ [MWrite ch 0x00 [0x00], MWrite ch 0xff [0x80, 0x19, 0x01], MWrite ch 0x00 [0x80],
         MWrite ch 0xff [0x80, 0x19], MWrite ch 0x00 [0x00]]"
  have c: "reg_content (\<lambda>_. True) 0xD9 (otm_regs ch x ?l) = snd ?X 0xD9 0"
    by (simp add: reg_content_def reg_write_def)
  have "answer rd (?l @ [MRead ch 0xD9 1]) 1 [0xff, 0xff, 0xff, 0xff, 0, 0, 0, 0] ! 0 = hd (snd ?X 0xD9 0)"
    using assms by (subst keeps_regs_byte [where sel = "select_by 0" and banked = "\<lambda>_. True" and x = x]; simp only: c; simp add: otm_ok_def)
  moreover have "0 < cnt (?l @ [MRead ch 0xD9 1])" using assms by (simp only: otm_ok_def)
  ultimately show ?thesis using assms
    by (simp add: chip_otm_8019a_read_vcom_def otm_defs chip_run otm_ok_def or_zero_def Let_def del: One_nat_def)
qed

interpretation otm: vcom_registers "chip_otm_8019a_write_vcom ch" "chip_otm_8019a_read_vcom rd cnt ch" "otm_ok rd cnt ch x"
  "\<lambda>v. if v mod 256 = 255 then 0 else v mod 256"
  for ch rd cnt x
proof
  fix s v assume ok: "otm_ok rd cnt ch x s"
  let ?w = "word_of_int (v AND 0xff) :: u8"
  have w: "run_state (chip_otm_8019a_write_vcom ch v) s = (0, logged s [MWrite ch 0x00 [0x00], MWrite ch 0xD9 [?w]])"
    using ok by (simp add: chip_otm_8019a_write_vcom_def otm_defs chip_run otm_ok_def)
  then show set: "otm_ok rd cnt ch x (snd (run_state (chip_otm_8019a_write_vcom ch v) s)) \<and> fst (run_state (chip_otm_8019a_write_vcom ch v) s) = 0"
    using ok by (simp add: otm_ok_def reg_write_def)
  have "?w = 0xFF \<longleftrightarrow> v mod 256 = 255" using uint_low_byte [of v] by (auto simp: word_uint_eq_iff)
  then show "fst (run_state (chip_otm_8019a_read_vcom rd cnt ch) (snd (run_state (chip_otm_8019a_write_vcom ch v) s)))
      = (0, Some (if v mod 256 = 255 then 0 else v mod 256))"
    using otm_get [OF conjunct1 [OF set]] uint_low_byte [of v] unfolding w by (simp add: reg_write_def Let_def)
next
  fix s assume ok: "otm_ok rd cnt ch x s"
  show get: "otm_ok rd cnt ch x (snd (run_state (chip_otm_8019a_read_vcom rd cnt ch) s))"
    using ok unfolding otm_get [OF ok] by (simp add: otm_ok_def reg_write_def)
  show "fst (run_state (chip_otm_8019a_read_vcom rd cnt ch) (snd (run_state (chip_otm_8019a_read_vcom rd cnt ch) s)))
      = fst (run_state (chip_otm_8019a_read_vcom rd cnt ch) s)"
    using otm_get [OF get] unfolding otm_get [OF ok] by (simp add: reg_write_def)
qed

section \<open>Properties\<close>

text \<open>
  With a voltage the OTM8019A cannot show, the burn finds that the voltage was not taken over
  and reports failure, but burns all the same with the programming voltage on.
\<close>

theorem burn_goes_on_after_a_failed_check:
  assumes "ch < length (cs_info s)" "oi_id_ok (cs_info s ! ch) = 1" "v \<notin> {0 .. 254}"
  shows "\<exists>es es'. run_state (chip_otm_8019a_write_chip_vcom_otp_value rd cnt ch v) s
      = (-1, logged s (es @ [MPin (mtp_pin ch) True, MSleep 800, MWrite ch 0x00 [0x00], MWrite ch 0xEB [0x81]] @ es'))
    \<and> MWrite ch 0xD9 [word_of_int v] \<in> set es \<and> MPin (mtp_pin ch) False \<in> set es'"
proof -
  have low: "(word_of_int (v AND 0xff) :: u8) = word_of_int v"
    using uint_low_byte [of v] by (simp add: word_uint_eq_iff uint_word_of_int)
  let ?es = "[MSpeed ch False, MReset ch, MSleep 5, MWrite ch 0x00 [0x00], MWrite ch 0xff [0x80, 0x19, 0x01],
    MWrite ch 0x00 [0x80], MWrite ch 0xff [0x80, 0x19], MWrite ch 0x11 [], MSleep 150, MWrite ch 0x00 [0x00],
    MWrite ch 0xD9 [word_of_int v], MWrite ch 0x00 [0x00], MRead ch 0xD9 1, MSleep 10, MWrite ch 0x28 [], MSleep 100,
    MWrite ch 0x10 [], MSleep 800]"
  let ?es' = "[MSleep 1200, MWrite ch 0x00 [0x00], MWrite ch 0xEB [0x00], MSleep 100, MPin (mtp_pin ch) False, MSleep 100,
    MReset ch, MSleep 100, MWrite ch 0x11 [], MSleep 150]"
  have byte: "uint w \<noteq> v \<or> w = 0xFF" for w :: u8
  proof (cases "uint w = v")
    case True
    moreover have "0 \<le> uint w" "uint w < 256" using uint_lt2p [of w] by simp_all
    ultimately have "v = 255" using assms(3) by simp
    then show ?thesis using True by (simp add: word_uint_eq_iff)
  qed simp
  have "v \<noteq> 0" using assms(3) by auto
  then have "\<exists>c r. run_state (otm_8019a_read_vcom rd cnt ch) t = ((c, r), logged t [MWrite ch 0 [0], MRead ch 0xD9 1])
      \<and> or_zero r \<noteq> v" for t
    using byte by (auto simp: otm_8019a_read_vcom_def chip_run or_zero_def)
  then obtain c r where rdv: "\<And>t. run_state (otm_8019a_read_vcom rd cnt ch) t
      = ((c t, r t), logged t [MWrite ch 0 [0], MRead ch 0xD9 1])" "\<And>t. or_zero (r t) \<noteq> v"
    by metis
  have "run_state (chip_otm_8019a_write_chip_vcom_otp_value rd cnt ch v) s
      = (-1, logged s (?es @ [MPin (mtp_pin ch) True, MSleep 800, MWrite ch 0x00 [0x00], MWrite ch 0xEB [0x81]] @ ?es'))"
    using assms(1,2)
    by (simp add: chip_otm_8019a_write_chip_vcom_otp_value_def rdv otm_8019a_write_vcom_def otm_8019a_unlock_def
        otm_8019a_sleep_out_def otm_8019a_display_off_def otm_8019a_sleep_in_def otm_8019a_program_on_def
        otm_8019a_program_end_def mtp_power_on_def mtp_power_off_def low chip_run Let_def)
  moreover have "MWrite ch 0xD9 [word_of_int v] \<in> set ?es" "MPin (mtp_pin ch) False \<in> set ?es'" by simp_all
  ultimately show ?thesis by blast
qed

lemma burn_goes_on_after_a_failed_check_witness:
  "fst (run_state (chip_otm_8019a_write_chip_vcom_otp_value (\<lambda>_. None) (\<lambda>_. 0) 0 300)
     \<lparr>cs_log = [], cs_info = [otm_zero\<lparr>oi_id_ok := 1\<rparr>], cs_bad = False\<rparr>) = -1"
  using burn_goes_on_after_a_failed_check [of 0 "\<lparr>cs_log = [], cs_info = [otm_zero\<lparr>oi_id_ok := 1\<rparr>], cs_bad = False\<rparr>" 300
      "\<lambda>_. None" "\<lambda>_. 0"] by auto

end
