(* ===== verification/ChipIcn9706.thy ===== *)
theory ChipIcn9706
  imports PanelRegs
begin

text \<open>
  The driver of the ICN9706 panel chip, \<open>icm/chips/chip_icn_9706.c\<close>: identification, common voltage
  and the gamma tables with their burning and check. A pointer to a table is the bytes that follow
  it in memory.
\<close>

definition ICN_9706_ANALOG_GAMMA_LEN :: nat where "ICN_9706_ANALOG_GAMMA_LEN = 38"
definition ICN_9706_D3G_REG_LEN :: nat where "ICN_9706_D3G_REG_LEN = 26"
definition ICN_9706_ANALOG_GAMMA_REG :: u8 where "ICN_9706_ANALOG_GAMMA_REG = 0xC8"

lemmas icn_lens = ICN_9706_ANALOG_GAMMA_LEN_def ICN_9706_D3G_REG_LEN_def ICN_9706_ANALOG_GAMMA_REG_def

record icn_info =
  ni_id :: "u8 list"
  ni_id_ok :: u8
  ni_vcom1 :: u32
  ni_vcom1_otp_times :: u32
  ni_vcom2 :: u32
  ni_vcom2_otp_times :: u32
  ni_analog :: "u8 list"
  ni_digital :: "u8 list list"

type_synonym 'a icn = "(icn_info chip_state, 'a) state"

definition icn_zero :: icn_info where
  "icn_zero = \<lparr>ni_id = [0, 0, 0], ni_id_ok = 0, ni_vcom1 = 0, ni_vcom1_otp_times = 0, ni_vcom2 = 0, ni_vcom2_otp_times = 0,
     ni_analog = replicate 38 0, ni_digital = replicate 3 (replicate 26 0)\<rparr>"

definition s_icn_9706_private_info :: "icn_info list" where
  "s_icn_9706_private_info = replicate DEV_CHANNEL_NUM icn_zero"

section \<open>The common voltage\<close>

text \<open>The third packet repeats the parameters of the second.\<close>

definition icn_9706_enable_level_2_cmd :: "nat \<Rightarrow> unit icn" where
  "icn_9706_enable_level_2_cmd ch = do {
     mwrite ch 0xF0 [0x5A, 0x5A]; mwrite ch 0xF1 [0xA5, 0xA5]; mwrite ch 0xF0 [0xA5, 0xA5]
   }"

definition icn_9706_get_vcom_otp_times :: "panel \<Rightarrow> nat \<Rightarrow> (int \<times> u8 \<times> u8) icn" where
  "icn_9706_get_vcom_otp_times rd ch = do {
     icn_9706_enable_level_2_cmd ch;
     reg \<leftarrow> mread rd ch 0xB6 3 [0, 0, 0];
     State_Monad.return (0, reg ! 2, reg ! 2)
   }"

text \<open>\<open>old\<close> is what the pointer points to before the call.\<close>

definition icn_9706_read_vcom :: "panel \<Rightarrow> nat \<Rightarrow> int \<Rightarrow> u32 \<Rightarrow> (int \<times> u32) icn" where
  "icn_9706_read_vcom rd ch index old = do {
     icn_9706_enable_level_2_cmd ch;
     reg \<leftarrow> mread rd ch 0xB6 3 [0, 0, 0];
     State_Monad.return (0, if index = 0 then ucast (reg ! 0) else if index = 1 then ucast (reg ! 1) else old)
   }"

definition icn_9706_write_vcom :: "nat \<Rightarrow> u32 \<Rightarrow> int icn" where
  "icn_9706_write_vcom ch vcom_value = do {
     icn_9706_enable_level_2_cmd ch;
     mwrite ch 0xB6 [ucast vcom_value, ucast vcom_value];
     State_Monad.return 0
   }"

definition icn_9706_read_nvm_vcom :: "panel \<Rightarrow> nat \<Rightarrow> int \<Rightarrow> u32 \<Rightarrow> (int \<times> u32) icn" where
  "icn_9706_read_nvm_vcom rd ch index old = do {
     icn_9706_enable_level_2_cmd ch;
     reg \<leftarrow> mread rd ch 0xB6 4 [0, 0, 0, 0];
     State_Monad.return (0, if index = 0 then ucast (reg ! 0) else if index = 1 then ucast (reg ! 1) else old)
   }"

definition setPasswd :: "nat \<Rightarrow> unit icn" where
  "setPasswd ch = do {
     mwrite ch 0xF0 [0x5A, 0x5A]; mwrite ch 0xF1 [0xA5, 0xA5]; mwrite ch 0xF0 [0xB4, 0x4B];
     mwrite ch 0xCB [0x02, 0x01, 0x01]
   }"

definition icn_9706_burn_vcom :: "panel \<Rightarrow> nat \<Rightarrow> int \<Rightarrow> int icn" where
  "icn_9706_burn_vcom rd ch otp_vcom_value = do {
     mspeed ch False;
     _ \<leftarrow> icn_9706_write_vcom ch (word_of_int otp_vcom_value);
     msleep 100;
     setPasswd ch;
     msleep 100;
     mspeed ch True;
     _ \<leftarrow> icn_9706_read_vcom rd ch 0 0;
     State_Monad.return 0
   }"

text \<open>\<open>n\<close> is the length of the analog table, \<open>nr\<close>, \<open>ng\<close> and \<open>nb\<close> those of the colours.\<close>

definition icn_9706_burn_gamma_data ::
  "nat \<Rightarrow> u8 list \<Rightarrow> nat \<Rightarrow> u8 list \<Rightarrow> nat \<Rightarrow> u8 list \<Rightarrow> nat \<Rightarrow> u8 list \<Rightarrow> nat \<Rightarrow> int icn" where
  "icn_9706_burn_gamma_data ch analog n r nr g ng b nb = do {
     mspeed ch False;
     mwrite ch 0xC8 (take n analog);
     mwrite ch 0xE3 [0x03];
     mwrite ch 0xE4 (take nr r); mwrite ch 0xE5 (take ng g); mwrite ch 0xE6 (take nb b);
     msleep 500;
     setPasswd ch;
     msleep 500;
     mspeed ch True;
     State_Monad.return 0
   }"

definition icn_9706_burn_vcom_and_gamma_data ::
  "panel \<Rightarrow> nat \<Rightarrow> int \<Rightarrow> int \<Rightarrow> u8 list \<Rightarrow> nat \<Rightarrow> u8 list \<Rightarrow> nat \<Rightarrow> u8 list \<Rightarrow> nat \<Rightarrow> u8 list \<Rightarrow> nat \<Rightarrow> int icn" where
  "icn_9706_burn_vcom_and_gamma_data rd ch otp_vcom_value burn_vcom analog n r nr g ng b nb = do {
     mspeed ch False;
     (if burn_vcom \<noteq> 0 then do { _ \<leftarrow> icn_9706_write_vcom ch (word_of_int otp_vcom_value); State_Monad.return () }
      else State_Monad.return ());
     mwrite ch 0xC8 (take n analog);
     mwrite ch 0xE3 [0x03];
     mwrite ch 0xE4 (take nr r); mwrite ch 0xE5 (take ng g); mwrite ch 0xE6 (take nb b);
     msleep 150;
     setPasswd ch;
     msleep 500;
     (if burn_vcom \<noteq> 0 then do { _ \<leftarrow> icn_9706_read_vcom rd ch 0 0; State_Monad.return () }
      else State_Monad.return ());
     mspeed ch True;
     State_Monad.return 0
   }"

section \<open>Operations of the descriptor: identification and voltage\<close>

text \<open>The first byte read is stored three times; the length of the buffer is not looked at.\<close>

definition chip_icn_9706_get_chip_id :: "panel \<Rightarrow> nat \<Rightarrow> u8 list \<Rightarrow> (int \<times> u8 list) icn" where
  "chip_icn_9706_get_chip_id rd ch p_id_data = do {
     reg \<leftarrow> mread rd ch 0x0A 3 [0, 0, 0];
     State_Monad.return (if reg ! 0 = 0x9C then (0, [reg ! 0, reg ! 0, reg ! 0] @ drop 3 p_id_data) else (-1, p_id_data))
   }"

definition chip_icn_9706_check_chip_ok :: "panel \<Rightarrow> nat \<Rightarrow> int icn" where
  "chip_icn_9706_check_chip_ok rd ch = do {
     i \<leftarrow> get_info ch;
     (_, p_id) \<leftarrow> chip_icn_9706_get_chip_id rd ch (ni_id i);
     upd_info ch (\<lambda>i. i\<lparr>ni_id := p_id\<rparr>);
     i \<leftarrow> get_info ch;
     (if ni_id i ! 0 \<noteq> 0x9C \<or> ni_id i ! 1 \<noteq> 0x9C \<or> ni_id i ! 2 \<noteq> 0x9C then do {
        upd_info ch (\<lambda>i. i\<lparr>ni_id_ok := 0\<rparr>);
        State_Monad.return (-1)
      }
      else do {
        upd_info ch (\<lambda>i. i\<lparr>ni_id_ok := 1\<rparr>);
        (_, t1, t2) \<leftarrow> icn_9706_get_vcom_otp_times rd ch;
        upd_info ch (\<lambda>i. i\<lparr>ni_vcom1_otp_times := ucast t1, ni_vcom2_otp_times := ucast t2\<rparr>);
        (_, v1) \<leftarrow> icn_9706_read_nvm_vcom rd ch 0 0;
        (_, v2) \<leftarrow> icn_9706_read_nvm_vcom rd ch 1 0;
        upd_info ch (\<lambda>i. i\<lparr>ni_vcom1 := v1, ni_vcom2 := v2\<rparr>);
        State_Monad.return 0
      })
   }"

definition chip_icn_9706_read_chip_vcom_opt_times :: "panel \<Rightarrow> nat \<Rightarrow> (int \<times> int option) icn" where
  "chip_icn_9706_read_chip_vcom_opt_times rd ch = do {
     i \<leftarrow> get_info ch;
     (if ni_id_ok i = 1 then do {
        (_, t1, _) \<leftarrow> icn_9706_get_vcom_otp_times rd ch;
        State_Monad.return (0, Some (uint t1))
      }
      else State_Monad.return (-1, None))
   }"

definition chip_icn_9706_read_chip_vcom_opt_info :: "panel \<Rightarrow> nat \<Rightarrow> (int \<times> (int \<times> int) option) icn" where
  "chip_icn_9706_read_chip_vcom_opt_info rd ch = do {
     i \<leftarrow> get_info ch;
     (if ni_id_ok i = 1 then do {
        (_, t1, _) \<leftarrow> icn_9706_get_vcom_otp_times rd ch;
        (_, v) \<leftarrow> icn_9706_read_vcom rd ch 0 0;
        State_Monad.return (0, Some (uint t1, sint v))
      }
      else State_Monad.return (-1, None))
   }"

definition chip_icn_9706_write_chip_vcom_otp_value :: "panel \<Rightarrow> nat \<Rightarrow> int \<Rightarrow> int icn" where
  "chip_icn_9706_write_chip_vcom_otp_value rd ch otp_vcom_value = do {
     i \<leftarrow> get_info ch;
     (if ni_id_ok i = 1 then icn_9706_burn_vcom rd ch otp_vcom_value else State_Monad.return (-1))
   }"

definition chip_icn_9706_read_vcom :: "panel \<Rightarrow> nat \<Rightarrow> (int \<times> int option) icn" where
  "chip_icn_9706_read_vcom rd ch = do {
     i \<leftarrow> get_info ch;
     (if ni_id_ok i = 1 then do {
        (_, v) \<leftarrow> icn_9706_read_vcom rd ch 0 0;
        State_Monad.return (0, Some (sint v))
      }
      else State_Monad.return (-1, None))
   }"

definition chip_icn_9706_write_vcom :: "nat \<Rightarrow> int \<Rightarrow> int icn" where
  "chip_icn_9706_write_vcom ch vcom_value = do {
     i \<leftarrow> get_info ch;
     (if ni_id_ok i = 1 then do {
        _ \<leftarrow> icn_9706_write_vcom ch (word_of_int vcom_value);
        State_Monad.return 0
      }
      else State_Monad.return (-1))
   }"

definition chip_icn_9706_get_and_reset_private_data :: "nat \<Rightarrow> unit icn" where
  "chip_icn_9706_get_and_reset_private_data ch =
     upd_info ch (\<lambda>_. icn_zero\<lparr>ni_analog := replicate 38 1, ni_digital := replicate 3 (replicate 26 2)\<rparr>)"

definition chip_icn_9706_check_vcom_otp_burn_ok :: "panel \<Rightarrow> nat \<Rightarrow> int \<Rightarrow> int \<Rightarrow> (int \<times> int option) icn" where
  "chip_icn_9706_check_vcom_otp_burn_ok rd ch vcom_value last_otp_times = do {
     val \<leftarrow> chip_icn_9706_check_chip_ok rd ch;
     (if val \<noteq> 0 then State_Monad.return (E_ICM_READ_ID_ERROR, None)
      else do {
        i \<leftarrow> get_info ch;
        State_Monad.return
          (if ni_vcom1_otp_times i \<noteq> word_of_int (last_otp_times + 1) then E_ICM_VCOM_TIMES_NOT_CHANGE
           else if ni_vcom1 i \<noteq> word_of_int vcom_value then E_ICM_VCOM_VALUE_NOT_CHANGE else E_ICM_OK,
           Some (sint (ni_vcom1 i)))
      })
   }"

section \<open>Operations of the descriptor: gamma tables\<close>

definition s_icn_9706_default_analog_gamma_code :: "u8 list" where
  "s_icn_9706_default_analog_gamma_code =
     [0x7c, 0x57, 0x41, 0x31, 0x2a, 0x1a, 0x1f, 0x0b, 0x28, 0x2a, 0x2c, 0x4d, 0x3d, 0x47, 0x3b, 0x3a, 0x2e, 0x1b, 0x06,
      0x7c, 0x57, 0x41, 0x31, 0x2a, 0x1a, 0x1f, 0x0b, 0x28, 0x2a, 0x2c, 0x4d, 0x3d, 0x47, 0x3b, 0x3a, 0x2e, 0x1b, 0x06]"

definition icn_9706_write_analog_reg :: "nat \<Rightarrow> u8 list \<Rightarrow> nat \<Rightarrow> int icn" where
  "icn_9706_write_analog_reg ch p n = do { mwrite ch 0xC8 (take n p); State_Monad.return 0 }"

definition icn_9706_digital_gamma_control :: "nat \<Rightarrow> u8 \<Rightarrow> int icn" where
  "icn_9706_digital_gamma_control ch v = do { mwrite ch 0xE3 [v]; State_Monad.return 0 }"

definition icn_9706_write_d3g_reg :: "nat \<Rightarrow> u8 \<Rightarrow> u8 list \<Rightarrow> nat \<Rightarrow> int icn" where
  "icn_9706_write_d3g_reg ch reg p n = do { mwrite ch reg (take n p); State_Monad.return 0 }"

definition chip_icn_9706_write_analog_gamma_reg_data :: "nat \<Rightarrow> u8 list \<Rightarrow> int icn" where
  "chip_icn_9706_write_analog_gamma_reg_data ch p = do {
     upd_info ch (\<lambda>i. i\<lparr>ni_analog := take ICN_9706_ANALOG_GAMMA_LEN p\<rparr>);
     mspeed ch False;
     icn_9706_enable_level_2_cmd ch;
     i \<leftarrow> get_info ch;
     _ \<leftarrow> icn_9706_write_analog_reg ch (ni_analog i) ICN_9706_ANALOG_GAMMA_LEN;
     mspeed ch True;
     State_Monad.return 0
   }"

definition chip_icn_9706_read_analog_gamma_reg_data :: "panel \<Rightarrow> nat \<Rightarrow> u8 list \<Rightarrow> (int \<times> u8 list) icn" where
  "chip_icn_9706_read_analog_gamma_reg_data rd ch p = do {
     mspeed ch False;
     icn_9706_enable_level_2_cmd ch;
     p' \<leftarrow> mread rd ch ICN_9706_ANALOG_GAMMA_REG ICN_9706_ANALOG_GAMMA_LEN p;
     mspeed ch True;
     State_Monad.return (int ICN_9706_ANALOG_GAMMA_LEN, p')
   }"

definition chip_icn_9706_write_fix_analog_gamma_reg_data :: "nat \<Rightarrow> int icn" where
  "chip_icn_9706_write_fix_analog_gamma_reg_data ch = do {
     mspeed ch False;
     icn_9706_enable_level_2_cmd ch;
     _ \<leftarrow> icn_9706_write_analog_reg ch s_icn_9706_default_analog_gamma_code ICN_9706_ANALOG_GAMMA_LEN;
     mspeed ch True;
     State_Monad.return 0
   }"

text \<open>The loop copies 26 entries of a colour and changes entry 13 when it equals entry 12.\<close>

definition d3g_entries :: "u8 list \<Rightarrow> u8 list" where
  "d3g_entries p = map (\<lambda>i. if i = 13 \<and> p ! i = p ! (i - 1) then p ! (i - 1) - 1 else p ! i) [0 ..< ICN_9706_D3G_REG_LEN]"

definition chip_icn_9706_write_digital_gamma_reg_data :: "nat \<Rightarrow> u8 list \<Rightarrow> int icn" where
  "chip_icn_9706_write_digital_gamma_reg_data ch p = do {
     upd_info ch (\<lambda>i. i\<lparr>ni_digital :=
       [d3g_entries p, d3g_entries (drop ICN_9706_D3G_REG_LEN p), d3g_entries (drop (ICN_9706_D3G_REG_LEN * 2) p)]\<rparr>);
     mspeed ch False;
     icn_9706_enable_level_2_cmd ch;
     i \<leftarrow> get_info ch;
     _ \<leftarrow> icn_9706_write_analog_reg ch (ni_analog i) ICN_9706_ANALOG_GAMMA_LEN;
     _ \<leftarrow> icn_9706_digital_gamma_control ch 0x03;
     _ \<leftarrow> icn_9706_write_d3g_reg ch 0xE4 (ni_digital i ! 0) ICN_9706_D3G_REG_LEN;
     _ \<leftarrow> icn_9706_write_d3g_reg ch 0xE5 (ni_digital i ! 1) ICN_9706_D3G_REG_LEN;
     _ \<leftarrow> icn_9706_write_d3g_reg ch 0xE6 (ni_digital i ! 2) ICN_9706_D3G_REG_LEN;
     mspeed ch True;
     State_Monad.return 0
   }"

definition default_d3g_data :: "u8 list" where
  "default_d3g_data = [255, 254, 252, 250, 248, 244, 240, 232, 224, 208, 192, 160, 128, 127, 95, 63, 47, 31, 23, 15, 11, 7, 5, 3, 1, 0]"

definition chip_icn_9706_write_fix_digital_gamma_reg_data :: "nat \<Rightarrow> int icn" where
  "chip_icn_9706_write_fix_digital_gamma_reg_data ch = do {
     mspeed ch False;
     icn_9706_enable_level_2_cmd ch;
     _ \<leftarrow> icn_9706_digital_gamma_control ch 0x03;
     _ \<leftarrow> icn_9706_write_d3g_reg ch 0xE4 default_d3g_data ICN_9706_D3G_REG_LEN;
     _ \<leftarrow> icn_9706_write_d3g_reg ch 0xE5 default_d3g_data ICN_9706_D3G_REG_LEN;
     _ \<leftarrow> icn_9706_write_d3g_reg ch 0xE6 default_d3g_data ICN_9706_D3G_REG_LEN;
     mspeed ch True;
     State_Monad.return 0
   }"

definition chip_icn_9706_write_d3g_control :: "nat \<Rightarrow> int \<Rightarrow> int icn" where
  "chip_icn_9706_write_d3g_control ch enable = do {
     mspeed ch False;
     _ \<leftarrow> (if enable \<noteq> 0 then icn_9706_digital_gamma_control ch 0x01 else icn_9706_digital_gamma_control ch 0x00);
     mspeed ch True;
     State_Monad.return 0
   }"

definition chip_icn_9706_burn_gamma_otp_values ::
  "panel \<Rightarrow> nat \<Rightarrow> int \<Rightarrow> int \<Rightarrow> int \<Rightarrow> u8 list \<Rightarrow> nat \<Rightarrow> u8 list \<Rightarrow> u8 list \<Rightarrow> u8 list \<Rightarrow> int icn" where
  "chip_icn_9706_burn_gamma_otp_values rd ch burn_flag enable_burn_vcom vcom analog n r g b = do {
     mspeed ch False;
     _ \<leftarrow> icn_9706_burn_vcom_and_gamma_data rd ch vcom enable_burn_vcom analog n r ICN_9706_D3G_REG_LEN
           g ICN_9706_D3G_REG_LEN b ICN_9706_D3G_REG_LEN;
     State_Monad.return 0
   }"

text \<open>The code of the last check that fails, 0 when none does.\<close>

definition chip_icn_9706_check_gamma_otp_values ::
  "panel \<Rightarrow> nat \<Rightarrow> int \<Rightarrow> int \<Rightarrow> int \<Rightarrow> u8 list \<Rightarrow> u8 list \<Rightarrow> u8 list \<Rightarrow> u8 list \<Rightarrow> int icn" where
  "chip_icn_9706_check_gamma_otp_values rd ch enable_burn_vcom new_vcom_value last_vcom_otp_times analog r g b = do {
     mspeed ch False;
     e \<leftarrow> (if enable_burn_vcom \<noteq> 0 then do {
            (_, read_vcom) \<leftarrow> icn_9706_read_vcom rd ch 0 0;
            (_, otp_times, _) \<leftarrow> icn_9706_get_vcom_otp_times rd ch;
            let e = (if last_vcom_otp_times + 1 \<noteq> uint otp_times then 1 else 0);
            State_Monad.return (if new_vcom_value \<noteq> sint read_vcom then 2 else e)
          } else State_Monad.return 0);
     a \<leftarrow> mread rd ch 0xC8 ICN_9706_ANALOG_GAMMA_LEN (replicate ICN_9706_ANALOG_GAMMA_LEN 0);
     let e = (if a \<noteq> take ICN_9706_ANALOG_GAMMA_LEN analog then 3 else e);
     d3g_r \<leftarrow> mread rd ch 0xE4 ICN_9706_D3G_REG_LEN (replicate ICN_9706_D3G_REG_LEN 0);
     d3g_g \<leftarrow> mread rd ch 0xE5 ICN_9706_D3G_REG_LEN (replicate ICN_9706_D3G_REG_LEN 0);
     d3g_b \<leftarrow> mread rd ch 0xE6 ICN_9706_D3G_REG_LEN (replicate ICN_9706_D3G_REG_LEN 0);
     let e = (if d3g_r \<noteq> take ICN_9706_D3G_REG_LEN r then 4 else e);
     let e = (if d3g_g \<noteq> take ICN_9706_D3G_REG_LEN g then 5 else e);
     let e = (if d3g_b \<noteq> take ICN_9706_D3G_REG_LEN b then 6 else e);
     mspeed ch True;
     State_Monad.return e
   }"

definition chip_icn_9706_get_analog_gamma_reg_data :: "nat \<Rightarrow> u8 list \<Rightarrow> (int \<times> u8 list \<times> int) icn" where
  "chip_icn_9706_get_analog_gamma_reg_data ch p = do {
     i \<leftarrow> get_info ch;
     State_Monad.return (0, ni_analog i @ drop ICN_9706_ANALOG_GAMMA_LEN p, int ICN_9706_ANALOG_GAMMA_LEN)
   }"

text \<open>Green and blue are copied with the length of the analog table, from consecutive tables;
  \<open>after_blue\<close> is what follows the blue table in memory.\<close>

definition chip_icn_9706_get_digital_gamma_reg_data ::
  "u8 list \<Rightarrow> nat \<Rightarrow> u8 list \<Rightarrow> u8 list \<Rightarrow> u8 list \<Rightarrow> (int \<times> (u8 list \<times> int) list) icn" where
  "chip_icn_9706_get_digital_gamma_reg_data after_blue ch r g b = do {
     i \<leftarrow> get_info ch;
     State_Monad.return (0,
       [(take ICN_9706_D3G_REG_LEN (ni_digital i ! 0) @ drop ICN_9706_D3G_REG_LEN r, int ICN_9706_D3G_REG_LEN),
        (take ICN_9706_ANALOG_GAMMA_LEN (ni_digital i ! 1 @ ni_digital i ! 2) @ drop ICN_9706_ANALOG_GAMMA_LEN g,
         int ICN_9706_D3G_REG_LEN),
        (take ICN_9706_ANALOG_GAMMA_LEN (ni_digital i ! 2 @ after_blue) @ drop ICN_9706_ANALOG_GAMMA_LEN b,
         int ICN_9706_D3G_REG_LEN)])
   }"

section \<open>Reading back\<close>

abbreviation icn_keeps :: "nat \<Rightarrow> regs \<Rightarrow> panel \<Rightarrow> bool" where "icn_keeps \<equiv> keeps_regs (\<lambda>_ _. None) (\<lambda>_. False)"
abbreviation icn_regs :: "nat \<Rightarrow> regs \<Rightarrow> mipi_ev list \<Rightarrow> regs" where "icn_regs \<equiv> regs_after (\<lambda>_ _. None) (\<lambda>_. False)"

lemma icn_write [simp]: "reg_write (\<lambda>_ _. None) (\<lambda>_. False) r d x = (fst x, (snd x)(r := (snd x r)(0 := d)))"
  by (simp add: reg_write_def)

lemma icn_content [simp]: "reg_content (\<lambda>_. False) r x = snd x r 0"
  by (simp add: reg_content_def)

definition icn_ok :: "panel \<Rightarrow> nat \<Rightarrow> regs \<Rightarrow> icn_info chip_state \<Rightarrow> bool" where
  "icn_ok rd ch x s \<longleftrightarrow> icn_keeps ch x rd \<and> ch < length (cs_info s) \<and> ni_id_ok (cs_info s ! ch) = 1
     \<and> snd (icn_regs ch x (cs_log s)) 0xB6 0 \<noteq> []"

lemmas icn_vcom_defs = icn_9706_enable_level_2_cmd_def icn_9706_read_vcom_def icn_9706_write_vcom_def

lemmas icn_gamma_defs = icn_9706_enable_level_2_cmd_def icn_9706_write_analog_reg_def
  icn_9706_digital_gamma_control_def icn_9706_write_d3g_reg_def chip_icn_9706_write_analog_gamma_reg_data_def
  chip_icn_9706_write_digital_gamma_reg_data_def

lemma icn_get:
  assumes "icn_ok rd ch x s"
  shows "run_state (chip_icn_9706_read_vcom rd ch) s
    = ((0, Some (uint (hd (snd (icn_regs ch x (cs_log s)) 0xB6 0)))),
       logged s [MWrite ch 0xF0 [0x5A, 0x5A], MWrite ch 0xF1 [0xA5, 0xA5], MWrite ch 0xF0 [0xA5, 0xA5], MRead ch 0xB6 3])"
proof -
  let ?l = "cs_log s @ [MWrite ch 0xF0 [0x5A, 0x5A], MWrite ch 0xF1 [0xA5, 0xA5], MWrite ch 0xF0 [0xA5, 0xA5]]"
  have "answer rd (?l @ [MRead ch 0xB6 3]) 3 [0, 0, 0] ! 0 = hd (snd (icn_regs ch x (cs_log s)) 0xB6 0)"
    using assms by (subst keeps_regs_nth [where x = x]) (auto simp: icn_ok_def hd_conv_nth)
  then show ?thesis using assms
    by (simp add: chip_icn_9706_read_vcom_def icn_vcom_defs chip_run icn_ok_def sint_byte)
qed

interpretation icn: vcom_registers "chip_icn_9706_write_vcom ch" "chip_icn_9706_read_vcom rd ch" "icn_ok rd ch x" "\<lambda>v. v mod 256"
  for ch rd x
proof
  fix s v assume ok: "icn_ok rd ch x s"
  have w: "run_state (chip_icn_9706_write_vcom ch v) s = (0, logged s [MWrite ch 0xF0 [0x5A, 0x5A],
      MWrite ch 0xF1 [0xA5, 0xA5], MWrite ch 0xF0 [0xA5, 0xA5], MWrite ch 0xB6 [word_of_int v, word_of_int v]])"
    using ok by (simp add: chip_icn_9706_write_vcom_def icn_vcom_defs chip_run icn_ok_def ucast_int_byte)
  then show set: "icn_ok rd ch x (snd (run_state (chip_icn_9706_write_vcom ch v) s)) \<and> fst (run_state (chip_icn_9706_write_vcom ch v) s) = 0"
    using ok by (simp add: icn_ok_def)
  show "fst (run_state (chip_icn_9706_read_vcom rd ch) (snd (run_state (chip_icn_9706_write_vcom ch v) s))) = (0, Some (v mod 256))"
    using icn_get [OF conjunct1 [OF set]] unfolding w by (simp add: uint_word_of_int)
next
  fix s assume ok: "icn_ok rd ch x s"
  show get: "icn_ok rd ch x (snd (run_state (chip_icn_9706_read_vcom rd ch) s))"
    using ok unfolding icn_get [OF ok] by (simp add: icn_ok_def)
  show "fst (run_state (chip_icn_9706_read_vcom rd ch) (snd (run_state (chip_icn_9706_read_vcom rd ch) s)))
      = fst (run_state (chip_icn_9706_read_vcom rd ch) s)"
    using icn_get [OF get] unfolding icn_get [OF ok] by simp
qed

lemma icn_check_run:
  assumes keeps: "icn_keeps ch x rd" and X: "icn_regs ch x (cs_log s) = X"
    and len: "38 \<le> length (snd X 0xC8 0)" "26 \<le> length (snd X 0xE4 0)" "26 \<le> length (snd X 0xE5 0)"
      "26 \<le> length (snd X 0xE6 0)"
  shows "fst (run_state (chip_icn_9706_check_gamma_otp_values rd ch 0 v t a r g b) s)
    = (if take 26 (snd X 0xE6 0) \<noteq> take 26 b then 6 else if take 26 (snd X 0xE5 0) \<noteq> take 26 g then 5
       else if take 26 (snd X 0xE4 0) \<noteq> take 26 r then 4 else if take 38 (snd X 0xC8 0) \<noteq> take 38 a then 3 else 0)"
proof -
  let ?l0 = "cs_log s @ [MSpeed ch False]"
  let ?l1 = "?l0 @ [MRead ch 0xC8 38]"
  let ?l2 = "?l1 @ [MRead ch 0xE4 26]"
  let ?l3 = "?l2 @ [MRead ch 0xE5 26]"
  note rd = keeps_regs_read [OF keeps]
  have "answer rd (?l0 @ [MRead ch 0xC8 38]) 38 (replicate 38 0) = take 38 (snd X 0xC8 0)"
    "answer rd (?l1 @ [MRead ch 0xE4 26]) 26 (replicate 26 0) = take 26 (snd X 0xE4 0)"
    "answer rd (?l2 @ [MRead ch 0xE5 26]) 26 (replicate 26 0) = take 26 (snd X 0xE5 0)"
    "answer rd (?l3 @ [MRead ch 0xE6 26]) 26 (replicate 26 0) = take 26 (snd X 0xE6 0)"
    using len X by (subst rd; simp)+
  then show ?thesis
    by (simp add: chip_icn_9706_check_gamma_otp_values_def icn_lens chip_run Let_def)
qed

lemma length_d3g [simp]: "length (d3g_entries p) = 26"
  by (simp add: d3g_entries_def icn_lens)

lemma d3g_entries_same:
  assumes "26 \<le> length p"
  shows "d3g_entries p = take 26 p \<longleftrightarrow> p ! 13 \<noteq> p ! 12"
proof
  assume eq: "d3g_entries p = take 26 p"
  have "d3g_entries p ! 13 = p ! 13" unfolding eq by simp
  then show "p ! 13 \<noteq> p ! 12" by (auto simp: d3g_entries_def icn_lens)
next
  assume "p ! 13 \<noteq> p ! 12"
  then show "d3g_entries p = take 26 p"
    using assms by (intro nth_equalityI) (auto simp: d3g_entries_def icn_lens)
qed

section \<open>Properties\<close>

text \<open>
  Gamma tables written to an ICN9706 that keeps its registers pass the check exactly when none
  of the three digital tables repeats its entry 12 in entry 13, which the driver changes when
  it writes; the result names the last table that does.
\<close>

theorem repeated_entry_fails_the_check:
  assumes "icn_keeps ch x rd" "ch < length (cs_info s)" "length a \<ge> 38" "length d \<ge> 78"
  shows "fst (run_state (do {
       _ \<leftarrow> chip_icn_9706_write_analog_gamma_reg_data ch a;
       _ \<leftarrow> chip_icn_9706_write_digital_gamma_reg_data ch d;
       chip_icn_9706_check_gamma_otp_values rd ch 0 v t a d (drop 26 d) (drop 52 d)
     }) s) = (if d ! 65 = d ! 64 then 6 else if d ! 39 = d ! 38 then 5 else if d ! 13 = d ! 12 then 4 else 0)"
proof -
  let ?lv2 = "[MWrite ch 0xF0 [0x5A, 0x5A], MWrite ch 0xF1 [0xA5, 0xA5], MWrite ch 0xF0 [0xA5, 0xA5]]"
  let ?es = "[MSpeed ch False] @ ?lv2 @ [MWrite ch 0xC8 (take 38 a), MSpeed ch True, MSpeed ch False] @ ?lv2
     @ [MWrite ch 0xC8 (take 38 a), MWrite ch 0xE3 [3], MWrite ch 0xE4 (d3g_entries d),
        MWrite ch 0xE5 (d3g_entries (drop 26 d)), MWrite ch 0xE6 (d3g_entries (drop 52 d)), MSpeed ch True]"
  obtain s1 where w: "run_state (do {
       _ \<leftarrow> chip_icn_9706_write_analog_gamma_reg_data ch a;
       chip_icn_9706_write_digital_gamma_reg_data ch d
     }) s = (0, s1)" and l: "cs_log s1 = cs_log s @ ?es"
    using assms(2) by (simp add: icn_gamma_defs icn_lens chip_run)
  have same: "d3g_entries d = take 26 d \<longleftrightarrow> d ! 13 \<noteq> d ! 12"
    "d3g_entries (drop 26 d) = take 26 (drop 26 d) \<longleftrightarrow> d ! 39 \<noteq> d ! 38"
    "d3g_entries (drop 52 d) = take 26 (drop 52 d) \<longleftrightarrow> d ! 65 \<noteq> d ! 64"
    using assms(4) by (subst d3g_entries_same; simp)+
  have "fst (run_state (chip_icn_9706_check_gamma_otp_values rd ch 0 v t a d (drop 26 d) (drop 52 d)) s1)
      = (if d ! 65 = d ! 64 then 6 else if d ! 39 = d ! 38 then 5 else if d ! 13 = d ! 12 then 4 else 0)"
    using assms(3) by (subst icn_check_run [OF assms(1) refl]) (simp_all add: l same)
  then show ?thesis using w by (simp add: case_prod_beta)
qed

lemma repeated_entry_fails_the_check_witness:
  "fst (run_state (do {
       _ \<leftarrow> chip_icn_9706_write_analog_gamma_reg_data 1 (replicate 38 7);
       _ \<leftarrow> chip_icn_9706_write_digital_gamma_reg_data 1 (replicate 78 9);
       chip_icn_9706_check_gamma_otp_values (reg_panel (\<lambda>_ _. None) (\<lambda>_. False) 1 (0, \<lambda>_ _. [])) 1 0 0 0 (replicate 38 7)
         (replicate 78 9) (drop 26 (replicate 78 9)) (drop 52 (replicate 78 9))
     }) \<lparr>cs_log = [], cs_info = s_icn_9706_private_info, cs_bad = False\<rparr>) = 6"
  by (subst repeated_entry_fails_the_check [OF reg_panel_keeps_regs])
    (simp_all add: s_icn_9706_private_info_def DEV_CHANNEL_NUM_def)

end
