(* ===== verification/ChipIli9881c.thy ===== *)
theory ChipIli9881c
  imports PanelRegs ChipJd9367
begin

text \<open>
  The driver of the ILI9881C panel chip, \<open>icm/chips/chip_ili_9881c.c\<close>. The private data has the form of that of the JD9367.
  There are two functions that choose a page; one of them leaves the page out of its packet.
\<close>

type_synonym 'a ilc = "(jd_info chip_state, 'a) state"

definition s_ili_9881c_private_info :: "jd_info list" where
  "s_ili_9881c_private_info = replicate DEV_CHANNEL_NUM jd_zero"

section \<open>Registers\<close>

definition ili_9881c_set_page :: "nat \<Rightarrow> u8 \<Rightarrow> unit ilc" where
  "ili_9881c_set_page ch page_no = mwrite ch 0xFF [0x98, 0x81]"

definition ili_9881c_parse_vcom_otp_times :: "u8 \<Rightarrow> u8" where
  "ili_9881c_parse_vcom_otp_times org_value =
     (if org_value = 0 then 0 else if org_value = 1 then 1 else if org_value = 3 then 2
      else if org_value = 7 then 3 else org_value)"

definition ili_9881c_get_vcom_otp_times :: "panel \<Rightarrow> nat \<Rightarrow> (int \<times> u8 \<times> u8) ilc" where
  "ili_9881c_get_vcom_otp_times rd ch = do {
     ili_9881c_set_page ch 1;
     reg \<leftarrow> mread rd ch 0xE8 1 [0];
     State_Monad.return (0, ili_9881c_parse_vcom_otp_times (reg ! 0 AND 0x07),
       ili_9881c_parse_vcom_otp_times (drop_bit 3 (reg ! 0) AND 0x07))
   }"

text \<open>The second component is the output parameter when it is set.\<close>

definition ili_9881c_read_vcom :: "panel \<Rightarrow> nat \<Rightarrow> int \<Rightarrow> (int \<times> int option) ilc" where
  "ili_9881c_read_vcom rd ch index =
     (if index < 0 \<or> 1 < index then State_Monad.return (-1, None)
      else do {
        ili_9881c_set_page ch 1;
        let (r0, r1) = (if index = 0 then (0x52, 0x53) else (0x54, 0x55 :: u8));
        h \<leftarrow> mread rd ch r0 1 [0];
        l \<leftarrow> mread rd ch r1 1 [0];
        State_Monad.return (0, Some (push_bit 8 (uint (h ! 0)) OR uint (l ! 0)))
      })"

definition ili_9881c_write_vcom :: "nat \<Rightarrow> int \<Rightarrow> int ilc" where
  "ili_9881c_write_vcom ch vcom_value = do {
     ili_9881c_set_page ch 1;
     mwrite ch 0x52 [word_of_int (drop_bit 8 vcom_value AND 0x1)];
     mwrite ch 0x53 [word_of_int (vcom_value AND 0xff)];
     mwrite ch 0x56 [0x00];
     State_Monad.return 0
   }"

definition ili_9881c_read_nvm_vcom :: "panel \<Rightarrow> nat \<Rightarrow> int \<Rightarrow> (int \<times> int option) ilc" where
  "ili_9881c_read_nvm_vcom rd ch index = do {
     (_, v) \<leftarrow> ili_9881c_read_vcom rd ch index;
     State_Monad.return (0, v)
   }"

definition ili_9881c_write :: "nat \<Rightarrow> u8 \<Rightarrow> int \<Rightarrow> unit ilc" where
  "ili_9881c_write ch addr val = mwrite ch addr [word_of_int (val AND 0xff)]"

definition ili9881c_page :: "nat \<Rightarrow> int \<Rightarrow> unit ilc" where
  "ili9881c_page ch page = mwrite ch 0xFF [0x98, 0x81, word_of_int (page AND 0xff)]"

definition ili9881c_reset :: "nat \<Rightarrow> unit ilc" where
  "ili9881c_reset ch = do { ili9881c_page ch 0; mwrite ch 0x01 [] }"

definition ili9881c_sleep_in :: "nat \<Rightarrow> unit ilc" where
  "ili9881c_sleep_in ch = do { ili9881c_page ch 0; mwrite ch 0x10 [] }"

definition ili9881c_sleep_out :: "nat \<Rightarrow> unit ilc" where
  "ili9881c_sleep_out ch = do { ili9881c_page ch 0; mwrite ch 0x11 [] }"

text \<open>The function has no return statement; \<open>ret\<close> is what its caller finds.\<close>

definition ili_9881c_burn_vcom :: "int \<Rightarrow> nat \<Rightarrow> int \<Rightarrow> int ilc" where
  "ili_9881c_burn_vcom ret ch vcom = do {
     ili9881c_reset ch; mreset ch; msleep 10;
     ili9881c_page ch 4;
     mwrite ch 0x6E [0x2A]; mwrite ch 0x6F [0x35]; mwrite ch 0xD7 [0x04]; mwrite ch 0x8B [0xEB];
     ili9881c_sleep_out ch; msleep 120;
     ili9881c_page ch 1;
     mwrite ch 0xE0 [word_of_int vcom]; mwrite ch 0xE1 [0x05]; mwrite ch 0xE2 [0x00];
     ili9881c_page ch 1;
     mwrite ch 0xE3 [0x55]; mwrite ch 0xE4 [0xAA]; mwrite ch 0xE5 [0x66];
     msleep 500;
     ili9881c_sleep_in ch; msleep 120;
     ili9881c_reset ch; mreset ch;
     State_Monad.return ret
   }"

section \<open>Operations of the descriptor\<close>

definition chip_ili_9881c_get_chip_id :: "panel \<Rightarrow> nat \<Rightarrow> u8 list option \<Rightarrow> int \<Rightarrow> (int \<times> u8 list option) ilc" where
  "chip_ili_9881c_get_chip_id rd ch p_id_data id_data_len = do {
     ili_9881c_set_page ch 0;
     ili_9881c_set_page ch 1;
     a \<leftarrow> mread rd ch 0x00 1 [0];
     b \<leftarrow> mread rd ch 0x01 1 [0];
     c \<leftarrow> mread rd ch 0x02 1 [0];
     State_Monad.return
       (if a ! 0 = 0x98 \<and> b ! 0 = 0x81 \<and> c ! 0 = 0x5C then
          (case p_id_data of
             Some old \<Rightarrow> if id_data_len \<ge> 3 then (3, Some ([a ! 0, b ! 0, c ! 0] @ drop 3 old)) else (0, Some old)
           | None \<Rightarrow> (0, None))
        else (-1, p_id_data))
   }"

definition value_or_zero :: "int option \<Rightarrow> int" where "value_or_zero v = (case v of None \<Rightarrow> 0 | Some x \<Rightarrow> x)"

definition chip_ili_9881c_check_chip_ok :: "panel \<Rightarrow> nat \<Rightarrow> int ilc" where
  "chip_ili_9881c_check_chip_ok rd ch = do {
     i \<leftarrow> get_info ch;
     (_, p_id) \<leftarrow> chip_ili_9881c_get_chip_id rd ch (Some (ji_id i)) 3;
     upd_info ch (ji_id_update (\<lambda>old. case p_id of None \<Rightarrow> old | Some d \<Rightarrow> d));
     i \<leftarrow> get_info ch;
     (if ji_id i ! 0 \<noteq> 0x98 \<or> ji_id i ! 1 \<noteq> 0x81 \<or> ji_id i ! 2 \<noteq> 0x5C then do {
        upd_info ch (\<lambda>i. i\<lparr>ji_id_ok := 0\<rparr>);
        State_Monad.return (-1)
      }
      else do {
        upd_info ch (\<lambda>i. i\<lparr>ji_id_ok := 1\<rparr>);
        (_, t1, t2) \<leftarrow> ili_9881c_get_vcom_otp_times rd ch;
        upd_info ch (\<lambda>i. i\<lparr>ji_vcom1_otp_times := ucast t1, ji_vcom2_otp_times := ucast t2\<rparr>);
        (_, v1) \<leftarrow> ili_9881c_read_nvm_vcom rd ch 0;
        (_, v2) \<leftarrow> ili_9881c_read_nvm_vcom rd ch 1;
        upd_info ch (\<lambda>i. i\<lparr>ji_vcom1 := word_of_int (value_or_zero v1), ji_vcom2 := word_of_int (value_or_zero v2)\<rparr>);
        State_Monad.return 0
      })
   }"

definition chip_ili_9881c_read_chip_vcom_opt_times :: "panel \<Rightarrow> nat \<Rightarrow> (int \<times> int option) ilc" where
  "chip_ili_9881c_read_chip_vcom_opt_times rd ch = do {
     i \<leftarrow> get_info ch;
     (if ji_id_ok i = 1 then do {
        (_, t1, _) \<leftarrow> ili_9881c_get_vcom_otp_times rd ch;
        State_Monad.return (0, Some (uint t1))
      }
      else State_Monad.return (-1, None))
   }"

definition chip_ili_9881c_read_chip_vcom_opt_info :: "panel \<Rightarrow> nat \<Rightarrow> (int \<times> (int \<times> int) option) ilc" where
  "chip_ili_9881c_read_chip_vcom_opt_info rd ch = do {
     i \<leftarrow> get_info ch;
     (if ji_id_ok i = 1 then do {
        (_, t1, _) \<leftarrow> ili_9881c_get_vcom_otp_times rd ch;
        (_, v) \<leftarrow> ili_9881c_read_vcom rd ch 0;
        State_Monad.return (0, Some (uint t1, value_or_zero v))
      }
      else State_Monad.return (-1, None))
   }"

definition chip_ili_9881c_write_chip_vcom_otp_value :: "int \<Rightarrow> nat \<Rightarrow> int \<Rightarrow> int ilc" where
  "chip_ili_9881c_write_chip_vcom_otp_value ret ch otp_vcom_value = do {
     i \<leftarrow> get_info ch;
     (if ji_id_ok i = 1 then ili_9881c_burn_vcom ret ch otp_vcom_value else State_Monad.return (-1))
   }"

definition chip_ili_9881c_read_vcom :: "panel \<Rightarrow> nat \<Rightarrow> (int \<times> int option) ilc" where
  "chip_ili_9881c_read_vcom rd ch = do {
     i \<leftarrow> get_info ch;
     (if ji_id_ok i = 1 then do {
        (_, v) \<leftarrow> ili_9881c_read_vcom rd ch 0;
        State_Monad.return (0, Some (value_or_zero v))
      }
      else State_Monad.return (-1, None))
   }"

definition chip_ili_9881c_write_vcom :: "nat \<Rightarrow> int \<Rightarrow> int ilc" where
  "chip_ili_9881c_write_vcom ch vcom_value = do {
     i \<leftarrow> get_info ch;
     (if ji_id_ok i = 1 then do {
        _ \<leftarrow> ili_9881c_write_vcom ch vcom_value;
        State_Monad.return 0
      }
      else State_Monad.return (-1))
   }"

definition chip_ili_9881c_get_and_reset_private_data :: "nat \<Rightarrow> unit ilc" where
  "chip_ili_9881c_get_and_reset_private_data ch = upd_info ch (\<lambda>_. jd_zero)"

text \<open>A number of burns that did not change counts as success.\<close>

definition chip_ili_9881c_check_vcom_otp_burn_ok :: "panel \<Rightarrow> nat \<Rightarrow> int \<Rightarrow> int \<Rightarrow> (int \<times> int option) ilc" where
  "chip_ili_9881c_check_vcom_otp_burn_ok rd ch vcom_value last_otp_times = do {
     val \<leftarrow> chip_ili_9881c_check_chip_ok rd ch;
     (if val \<noteq> 0 then State_Monad.return (E_ICM_READ_ID_ERROR, None)
      else do {
        i \<leftarrow> get_info ch;
        State_Monad.return
          (if ji_vcom1_otp_times i \<noteq> word_of_int (last_otp_times + 1) then E_ICM_OK
           else if ji_vcom1 i \<noteq> word_of_int vcom_value then E_ICM_VCOM_VALUE_NOT_CHANGE else E_ICM_OK,
           Some (sint (ji_vcom1 i)))
      })
   }"

section \<open>Reading the voltage back\<close>

text \<open>A page is chosen by a packet of three bytes.\<close>

definition ilc_sel :: bank_sel where
  "ilc_sel r d = (if r = 0xFF \<and> 3 \<le> length d then Some (d ! 2) else None)"

abbreviation ilc_keeps :: "nat \<Rightarrow> regs \<Rightarrow> panel \<Rightarrow> bool" where "ilc_keeps \<equiv> keeps_regs ilc_sel (\<lambda>_. True)"
abbreviation ilc_regs :: "nat \<Rightarrow> regs \<Rightarrow> mipi_ev list \<Rightarrow> regs" where "ilc_regs \<equiv> regs_after ilc_sel (\<lambda>_. True)"

definition page_reg :: "u8 \<Rightarrow> regs \<Rightarrow> u8 list" where "page_reg r x = snd x r (fst x)"

definition ilc_ok :: "panel \<Rightarrow> nat \<Rightarrow> regs \<Rightarrow> jd_info chip_state \<Rightarrow> bool" where
  "ilc_ok rd ch x s \<longleftrightarrow> ilc_keeps ch x rd \<and> ch < length (cs_info s) \<and> ji_id_ok (cs_info s ! ch) = 1
     \<and> page_reg 0x52 (ilc_regs ch x (cs_log s)) \<noteq> [] \<and> page_reg 0x53 (ilc_regs ch x (cs_log s)) \<noteq> []"

lemma ilc_page [simp]: "reg_write ilc_sel banked 0xFF [a, b, p] x = (p, snd x)"
  and ilc_no_page: "reg_write ilc_sel (\<lambda>_. True) 0xFF [a, b] x = (fst x, (snd x)(0xFF := (snd x 0xFF)(fst x := [a, b])))"
  and ilc_plain: "r \<noteq> 0xFF \<Longrightarrow> reg_write ilc_sel (\<lambda>_. True) r d x = (fst x, (snd x)(r := (snd x r)(fst x := d)))"
  by (simp_all add: reg_write_def ilc_sel_def)

lemmas ilc_defs = ili_9881c_set_page_def ili_9881c_read_vcom_def ili_9881c_write_vcom_def

lemma ilc_get:
  assumes "ilc_ok rd ch x s"
  shows "run_state (chip_ili_9881c_read_vcom rd ch) s
    = ((0, Some (push_bit 8 (uint (hd (page_reg 0x52 (ilc_regs ch x (cs_log s)))))
          OR uint (hd (page_reg 0x53 (ilc_regs ch x (cs_log s)))))),
       logged s [MWrite ch 0xFF [0x98, 0x81], MRead ch 0x52 1, MRead ch 0x53 1])"
proof -
  let ?l = "cs_log s @ [MWrite ch 0xFF [0x98, 0x81]]"
  have "answer rd (?l @ [MRead ch 0x52 1]) 1 [0] ! 0 = hd (page_reg 0x52 (ilc_regs ch x (cs_log s)))"
    "answer rd ((?l @ [MRead ch 0x52 1]) @ [MRead ch 0x53 1]) 1 [0] ! 0 = hd (page_reg 0x53 (ilc_regs ch x (cs_log s)))"
    using assms by (subst keeps_regs_byte [where sel = ilc_sel and banked = "\<lambda>_. True" and x = x]; simp add: ilc_ok_def ilc_no_page reg_content_def page_reg_def)+
  then show ?thesis using assms
    by (simp add: chip_ili_9881c_read_vcom_def ilc_defs chip_run ilc_ok_def value_or_zero_def Let_def del: One_nat_def)
qed

interpretation ilc: vcom_registers "chip_ili_9881c_write_vcom ch" "chip_ili_9881c_read_vcom rd ch" "ilc_ok rd ch x" "\<lambda>v. v mod 512"
  for ch rd x
proof
  fix s v assume ok: "ilc_ok rd ch x s"
  let ?h = "word_of_int (drop_bit 8 v AND 0x01) :: u8" and ?l = "word_of_int (v AND 0xFF) :: u8"
  have w: "run_state (chip_ili_9881c_write_vcom ch v) s = (0, logged s [MWrite ch 0xFF [0x98, 0x81],
      MWrite ch 0x52 [?h], MWrite ch 0x53 [?l], MWrite ch 0x56 [0]])"
    using ok by (simp add: chip_ili_9881c_write_vcom_def ilc_defs chip_run ilc_ok_def)
  then show set: "ilc_ok rd ch x (snd (run_state (chip_ili_9881c_write_vcom ch v) s)) \<and> fst (run_state (chip_ili_9881c_write_vcom ch v) s) = 0"
    using ok by (simp add: ilc_ok_def ilc_no_page ilc_plain page_reg_def)
  show "fst (run_state (chip_ili_9881c_read_vcom rd ch) (snd (run_state (chip_ili_9881c_write_vcom ch v) s))) = (0, Some (v mod 512))"
    using ilc_get [OF conjunct1 [OF set]] nine_bits [of v] unfolding w by (simp add: ilc_no_page ilc_plain page_reg_def)
next
  fix s assume ok: "ilc_ok rd ch x s"
  show get: "ilc_ok rd ch x (snd (run_state (chip_ili_9881c_read_vcom rd ch) s))"
    using ok unfolding ilc_get [OF ok] by (simp add: ilc_ok_def ilc_no_page page_reg_def)
  show "fst (run_state (chip_ili_9881c_read_vcom rd ch) (snd (run_state (chip_ili_9881c_read_vcom rd ch) s)))
      = fst (run_state (chip_ili_9881c_read_vcom rd ch) s)"
    using ilc_get [OF get] unfolding ilc_get [OF ok] by (simp add: ilc_no_page page_reg_def)
qed

section \<open>Properties\<close>

text \<open>
  After a burn the voltage set on the ILI9881C is written to page 0, because the function that
  chooses the page sends two bytes only and leaves the page number out: the voltage registers
  of page 1 keep what they had.
\<close>

theorem voltage_lands_on_the_wrong_page:
  assumes "ch < length (cs_info s)" "ji_id_ok (cs_info s ! ch) = 1"
    "s1 = snd (run_state (chip_ili_9881c_write_chip_vcom_otp_value ret ch v) s)"
    "s2 = snd (run_state (chip_ili_9881c_write_vcom ch w) s1)"
  shows "snd (ilc_regs ch x (cs_log s2)) 0x52 1 = snd (ilc_regs ch x (cs_log s)) 0x52 1
    \<and> snd (ilc_regs ch x (cs_log s2)) 0x53 1 = snd (ilc_regs ch x (cs_log s)) 0x53 1
    \<and> snd (ilc_regs ch x (cs_log s2)) 0x53 0 = [word_of_int (w AND 0xff)]"
  using assms(1,2) unfolding assms(3,4)
  by (simp add: chip_ili_9881c_write_chip_vcom_otp_value_def chip_ili_9881c_write_vcom_def ili_9881c_burn_vcom_def
      ili9881c_reset_def ili9881c_page_def ili9881c_sleep_in_def ili9881c_sleep_out_def ilc_defs chip_run ilc_plain ilc_no_page)

lemma voltage_lands_on_the_wrong_page_witness:
  "snd (ilc_regs 0 (1, \<lambda>_ _. []) (cs_log (snd (run_state (chip_ili_9881c_write_vcom 0 80)
      (snd (run_state (chip_ili_9881c_write_chip_vcom_otp_value 0 0 80)
        \<lparr>cs_log = [], cs_info = [jd_zero\<lparr>ji_id_ok := 1\<rparr>], cs_bad = False\<rparr>)))))) 0x53 1 = []"
  using voltage_lands_on_the_wrong_page [of 0 "\<lparr>cs_log = [], cs_info = [jd_zero\<lparr>ji_id_ok := 1\<rparr>], cs_bad = False\<rparr>"
      _ 0 80 _ 80 "(1, \<lambda>_ _. [])", OF _ _ refl refl] by simp

end
