(* ===== verification/ChipDrivers.thy ===== *)
theory ChipDrivers
  imports ChipHx8394 ChipIli9806 ChipOtm8019a ChipIcn9706 ChipIli9881c
begin

text \<open>
  What the drivers of the panel chips promise together: each of them keeps the contract of
  the theory \<open>PanelRegs\<close> for the common voltage, with the numbers its chip can hold.
\<close>

abbreviation after_sets :: "(int \<Rightarrow> ('i chip_state, int) state) \<Rightarrow> int list \<Rightarrow> 'i chip_state \<Rightarrow> 'i chip_state" where
  "after_sets set_vcom vs s \<equiv> fold (\<lambda>v s. snd (run_state (set_vcom v) s)) vs s"

text \<open>
  C24: On panels that keep their registers, the drivers of five panel chips implement one
  contract: whatever voltages were set on an identified chip, the voltage read back is the
  last one set, modulo what the driver writes and reads: 512 for the ILI9806 and the ILI9881C,
  256 for the ICN9706, the HX8394 and the OTM8019A, which moreover shows 255 as 0. For the
  HX8394 the loss is one of its read function: the voltage register of the panel then holds
  nine bits of the last voltage, bit 8 in its third byte, and the read returns the low byte
  alone.
\<close>

theorem last_voltage_reads_back:
  assumes "vs \<noteq> []" "hx_ok rd1 ch x1 s1" "ili_ok rd2 ch x2 s2" "otm_ok rd3 cnt ch x3 s3" "icn_ok rd4 ch x4 s4" "ilc_ok rd5 ch x5 s5"
  shows "fst (run_state (chip_hi_8394_read_vcom rd1 ch) (after_sets (chip_hi_8394_write_vcom ch) vs s1)) = (0, Some (last vs mod 256))
    \<and> hx_content 0xB6 (hx_regs ch x1
          (cs_log (after_sets (chip_hi_8394_write_vcom ch) vs s1)))
        = [word_of_int (last vs mod 256), word_of_int (last vs mod 256), if odd (last vs div 256) then 3 else 0]
    \<and> fst (run_state (chip_ili_9806e_read_vcom rd2 pad ch) (after_sets (chip_ili_9806e_write_vcom pad ch) vs s2)) = (0, Some (last vs mod 512))
    \<and> fst (run_state (chip_otm_8019a_read_vcom rd3 cnt ch) (after_sets (chip_otm_8019a_write_vcom ch) vs s3))
      = (0, Some (if last vs mod 256 = 255 then 0 else last vs mod 256))
    \<and> fst (run_state (chip_icn_9706_read_vcom rd4 ch) (after_sets (chip_icn_9706_write_vcom ch) vs s4)) = (0, Some (last vs mod 256))
    \<and> fst (run_state (chip_ili_9881c_read_vcom rd5 ch) (after_sets (chip_ili_9881c_write_vcom ch) vs s5)) = (0, Some (last vs mod 512))"
  by (intro conjI hx.last_set_wins [OF assms(2,1)] hx_register_after_sets [OF assms(2,1)] ili.last_set_wins [OF assms(3,1)] otm.last_set_wins [OF assms(4,1)]
      icn.last_set_wins [OF assms(5,1)] ilc.last_set_wins [OF assms(6,1)])

definition full_regs :: regs where "full_regs = (0, \<lambda>_ _. [0, 0, 0])"

definition identified :: "'i \<Rightarrow> 'i chip_state" where "identified i = \<lparr>cs_log = [], cs_info = [i], cs_bad = False\<rparr>"

lemma full_regs_simps [simp]: "snd full_regs r b = [0, 0, 0]" "fst full_regs = 0"
    "cs_info (identified i) = [i]" "cs_log (identified i) = []"
  by (simp_all add: full_regs_def identified_def)

lemma last_voltage_reads_back_witness:
  "fst (run_state (chip_ili_9806e_read_vcom (reg_panel ili_sel (\<lambda>_. True) 0 full_regs) (\<lambda>_. 0) 0)
      (after_sets (chip_ili_9806e_write_vcom (\<lambda>_. 0) 0) [80, 300] (identified (jd_zero\<lparr>ji_id_ok := 1\<rparr>)))) = (0, Some 300)"
  using last_voltage_reads_back [where vs = "[80, 300]" and ch = 0 and cnt = "\<lambda>_. 1" and pad = "\<lambda>_. 0"
      and ?rd1.0 = "reg_panel (select_by 0xBD) (\<lambda>r. r = 0xC1) 0 full_regs" and ?x1.0 = full_regs and ?s1.0 = "identified (hx_zero\<lparr>hi_id_ok := 1\<rparr>)"
      and ?rd2.0 = "reg_panel (ili_sel) (\<lambda>_. True) 0 full_regs" and ?x2.0 = full_regs and ?s2.0 = "identified (jd_zero\<lparr>ji_id_ok := 1\<rparr>)"
      and ?rd3.0 = "reg_panel ((select_by 0)) (\<lambda>_. True) 0 full_regs" and ?x3.0 = full_regs and ?s3.0 = "identified (otm_zero\<lparr>oi_id_ok := 1\<rparr>)"
      and ?rd4.0 = "reg_panel (\<lambda>_ _. None) (\<lambda>_. False) 0 full_regs" and ?x4.0 = full_regs and ?s4.0 = "identified (icn_zero\<lparr>ni_id_ok := 1\<rparr>)"
      and ?rd5.0 = "reg_panel (ilc_sel) (\<lambda>_. True) 0 full_regs" and ?x5.0 = full_regs and ?s5.0 = "identified (jd_zero\<lparr>ji_id_ok := 1\<rparr>)"]
  by (simp add: hx_ok_def ili_ok_def otm_ok_def icn_ok_def ilc_ok_def page_reg_def reg_content_def reg_panel_keeps_regs)

end
