(* ===== verification/CStrings.thy ===== *)
theory CStrings
  imports Main "HOL-Library.Char_ord"
begin

text \<open>
  Strings as the C library handles them, as far as the program uses it: \<open>strcpy\<close> into an array,
  the number formats of \<open>sprintf\<close>, and \<open>strtol\<close> with base 0 on 32-bit \<open>long\<close>. A string is its
  characters without the terminating zero, so it fits an array when it is shorter than the array.
\<close>

section \<open>Copies\<close>

text \<open>\<open>None\<close> is a write behind the array; also the bound of \<open>sprintf\<close> into an array.\<close>

definition fits :: "nat \<Rightarrow> string \<Rightarrow> string option" where
  "fits n s = (if length s < n then Some s else None)"

lemma fits_Some [simp]: "length s < n \<Longrightarrow> fits n s = Some s"
  and fits_None [simp]: "n \<le> length s \<Longrightarrow> fits n s = None"
  by (simp_all add: fits_def)

text \<open>Whether \<open>strstr(s, p)\<close> finds something.\<close>

fun strstr :: "string \<Rightarrow> string \<Rightarrow> bool" where
  "strstr [] p = (p = [])"
| "strstr (c # s) p = (take (length p) (c # s) = p \<or> strstr s p)"

section \<open>Printing numbers\<close>

definition digit_char :: "nat \<Rightarrow> char" where "digit_char n = char_of (48 + n)"

fun digits :: "nat \<Rightarrow> string" where
  "digits n = (if n < 10 then [digit_char n] else digits (n div 10) @ [digit_char (n mod 10)])"

declare digits.simps [simp del]

text \<open>The format \<open>%d\<close>.\<close>

definition d_str :: "int \<Rightarrow> string" where
  "d_str i = (if i < 0 then CHR ''-'' # digits (nat (- i)) else digits (nat i))"

lemma digits_not_Nil [simp]: "digits n \<noteq> []"
  by (subst digits.simps) simp

lemma length_digits: "n < 10 ^ k \<Longrightarrow> 0 < k \<Longrightarrow> length (digits n) \<le> k"
proof (induction k arbitrary: n)
  case (Suc k)
  show ?case
  proof (cases "n < 10")
    case False
    then have "0 < k" using Suc.prems by (cases k) auto
    moreover have "n div 10 < 10 ^ k" using Suc.prems(1) by (simp add: less_mult_imp_div_less mult.commute)
    ultimately have "length (digits (n div 10)) \<le> k" by (rule Suc.IH [rotated])
    then show ?thesis using False by (subst digits.simps) simp
  qed (subst digits.simps, simp)
qed simp

text \<open>An \<open>int\<close> takes at most eleven characters.\<close>

definition int32 :: "int \<Rightarrow> bool" where "int32 i \<longleftrightarrow> - (2 ^ 31) \<le> i \<and> i < 2 ^ 31"

lemma length_d_str: "int32 i \<Longrightarrow> length (d_str i) \<le> 11"
proof -
  assume i: "int32 i"
  have "length (digits (nat \<bar>i\<bar>)) \<le> 10"
    by (rule length_digits) (use i in \<open>auto simp: int32_def\<close>)
  then show ?thesis by (auto simp: d_str_def abs_if split: if_splits)
qed

section \<open>Reading numbers\<close>

definition c_space :: "char \<Rightarrow> bool" where
  "c_space c \<longleftrightarrow> of_char c = (32 :: nat) \<or> (9 \<le> (of_char c :: nat) \<and> (of_char c :: nat) \<le> 13)"

definition digit_value :: "char \<Rightarrow> nat option" where
  "digit_value c =
     (let n = of_char c :: nat in
      if 48 \<le> n \<and> n \<le> 57 then Some (n - 48)
      else if 65 \<le> n \<and> n \<le> 90 then Some (n - 55)
      else if 97 \<le> n \<and> n \<le> 122 then Some (n - 87)
      else None)"

definition is_digit :: "nat \<Rightarrow> char \<Rightarrow> bool" where
  "is_digit base c = (case digit_value c of None \<Rightarrow> False | Some d \<Rightarrow> d < base)"

definition num_value :: "nat \<Rightarrow> string \<Rightarrow> nat" where
  "num_value base s = foldl (\<lambda>v c. v * base + the (digit_value c)) 0 (takeWhile (is_digit base) s)"

definition clamp32 :: "int \<Rightarrow> int" where "clamp32 i = max (- (2 ^ 31)) (min (2 ^ 31 - 1) i)"

definition strtol_unsigned :: "string \<Rightarrow> nat" where
  "strtol_unsigned s =
     (case s of
        z # x # h # _ \<Rightarrow>
          if z = CHR ''0'' \<and> (x = CHR ''x'' \<or> x = CHR ''X'') \<and> is_digit 16 h then num_value 16 (drop 2 s)
          else if z = CHR ''0'' then num_value 8 s else num_value 10 s
      | z # _ \<Rightarrow> if z = CHR ''0'' then num_value 8 s else num_value 10 s
      | [] \<Rightarrow> 0)"

definition strtol :: "string \<Rightarrow> int" where
  "strtol s0 =
     (let s = dropWhile c_space s0 in
      case s of
        [] \<Rightarrow> 0
      | c # cs \<Rightarrow> clamp32 (if c = CHR ''-'' then - int (strtol_unsigned cs)
                         else if c = CHR ''+'' then int (strtol_unsigned cs)
                         else int (strtol_unsigned s)))"

text \<open>What \<open>%d\<close> prints, \<open>strtol\<close> reads back.\<close>

lemma digit_char_value:
  assumes "d < 10"
  shows "digit_value (digit_char d) = Some d" "\<not> c_space (digit_char d)"
    "digit_char d \<noteq> CHR ''-''" "digit_char d \<noteq> CHR ''+''" "digit_char d = CHR ''0'' \<longleftrightarrow> d = 0"
    "digit_char d \<noteq> CHR ''x''" "digit_char d \<noteq> CHR ''X''"
proof -
  have c: "d \<in> {0, 1, 2, 3, 4, 5, 6, 7, 8, 9}" using assms by auto
  show "digit_value (digit_char d) = Some d" using c by (auto simp: digit_char_def digit_value_def)
  show "\<not> c_space (digit_char d)" using c by (auto simp: digit_char_def c_space_def)
  show "digit_char d \<noteq> CHR ''-''" "digit_char d \<noteq> CHR ''+''" "digit_char d = CHR ''0'' \<longleftrightarrow> d = 0"
    "digit_char d \<noteq> CHR ''x''" "digit_char d \<noteq> CHR ''X''"
    using c by (auto simp: digit_char_def char_of_eq_iff)
qed

lemma digits_all: "c \<in> set (digits n) \<Longrightarrow> \<exists>d < 10. c = digit_char d"
proof (induction n rule: digits.induct)
  case (1 n)
  then show ?case by (subst (asm) (2) digits.simps) (auto split: if_splits intro: exI [of _ "n mod 10"])
qed

lemma digits_value: "foldl (\<lambda>v c. v * 10 + the (digit_value c)) 0 (digits n) = n"
proof (induction n rule: digits.induct)
  case (1 n)
  then show ?case by (subst digits.simps) (auto simp: digit_char_value)
qed

lemma digits_hd: "0 < n \<Longrightarrow> hd (digits n) \<noteq> CHR ''0''"
proof (induction n rule: digits.induct)
  case (1 n)
  then show ?case by (subst digits.simps) (auto simp: digit_char_value hd_append)
qed

lemma strtol_digits: "strtol_unsigned (digits n) = n"
proof (cases "n = 0")
  case True
  then show ?thesis by (simp add: strtol_unsigned_def digits.simps [of 0] num_value_def digit_char_value is_digit_def)
next
  case False
  obtain c cs where d: "digits n = c # cs" by (cases "digits n") auto
  have z: "c \<noteq> CHR ''0''" using digits_hd [of n] False d by simp
  have "takeWhile (is_digit 10) (digits n) = digits n"
    by (rule takeWhile_eq_all_conv [THEN iffD2]) (auto dest!: digits_all simp: is_digit_def digit_char_value)
  then have "num_value 10 (digits n) = n" by (simp only: num_value_def digits_value)
  then show ?thesis using z d by (auto simp: strtol_unsigned_def split: list.split)
qed

lemma strtol_d_str:
  assumes "int32 i"
  shows "strtol (d_str i) = i"
proof -
  have first: "\<exists>c cs. digits n = c # cs \<and> \<not> c_space c \<and> c \<noteq> CHR ''-'' \<and> c \<noteq> CHR ''+''" for n
  proof -
    obtain c cs where d: "digits n = c # cs" by (cases "digits n") auto
    then obtain k where "k < 10" "c = digit_char k" using digits_all [of c n] by auto
    then show ?thesis using d digit_char_value(2,3,4) [of k] by simp
  qed
  have range: "clamp32 i = i" using assms by (auto simp: clamp32_def int32_def)
  show ?thesis
  proof (cases "i < 0")
    case True
    then show ?thesis using range strtol_digits [of "nat (- i)"]
      by (simp add: strtol_def d_str_def c_space_def)
  next
    case False
    then show ?thesis using first [of "nat i"] range strtol_digits [of "nat i"]
      by (auto simp: strtol_def d_str_def)
  qed
qed

end
