(* ===== verification/LocalDb.thy ===== *)
theory LocalDb
  imports LoopQueue CStrings "HOL-Library.Monad_Syntax"
begin

text \<open>
  The list of files the box holds, \<open>pgDB/pgLocalDB.c\<close>: records in a pointer queue, and the same
  records in a table of an SQLite data base. SQLite is an argument of the operations: what it
  answers may depend on all statements so far (\<open>None\<close> is an error). Records live at addresses
  that \<open>malloc\<close> gives out once. \<open>None\<close> of an operation is a write behind an array.
\<close>

section \<open>Statements\<close>

datatype sql_stmt =
    SqlCreate
  | SqlSelectAll
  | SqlSelectName string
  | SqlUpdate int int string
  | SqlInsert string int int
  | SqlDeleteAll

definition FILE_INFO_TABLE :: string where "FILE_INFO_TABLE = ''FileInfoTable''"

definition quote :: string where "quote = [CHR 0x27]"

fun sql_text :: "sql_stmt \<Rightarrow> string" where
  "sql_text SqlCreate = ''CREATE TABLE IF NOT EXISTS FileInfoTable (name TEXT, time , size , status , F1 , F2 )''"
| "sql_text SqlSelectAll = ''select * from '' @ FILE_INFO_TABLE"
| "sql_text (SqlSelectName name) =
     ''SELECT * FROM '' @ quote @ FILE_INFO_TABLE @ quote @ '' where name='' @ quote @ name @ quote @ '' ''"
| "sql_text (SqlUpdate time sz name) =
     ''UPDATE '' @ FILE_INFO_TABLE @ '' SET time='' @ d_str time @ '',size='' @ d_str sz @ '' where name='' @ quote @ name @ quote"
| "sql_text (SqlInsert name time sz) =
     ''INSERT INTO '' @ FILE_INFO_TABLE @ '' VALUES ('' @ quote @ name @ quote @ '', '' @ d_str time @ '', '' @ d_str sz
       @ '', '' @ d_str 0 @ '', 0, 0 )''"
| "sql_text SqlDeleteAll = ''DELETE FROM '' @ quote @ FILE_INFO_TABLE @ quote"

text \<open>The result of a statement: rows, columns, and the cells, the names of the columns first;
  \<open>None\<close> as a cell is \<open>NULL\<close>.\<close>

type_synonym sql_result = "nat \<times> nat \<times> string option list"
type_synonym sql_engine = "sql_stmt list \<Rightarrow> sql_result option"

section \<open>Records\<close>

definition LOCAL_FILE_NAME_LEN :: nat where "LOCAL_FILE_NAME_LEN = 128"
definition MAX_FILES_NUM :: nat where "MAX_FILES_NUM = 1000"

record local_file_info =
  lf_name :: string
  lf_time :: int
  lf_size :: int
  lf_status :: int

record local_db =
  ld_loop :: loop_list
  ld_cur :: u16
  ld_recs :: "nat \<rightharpoonup> local_file_info"
  ld_brk :: nat
  ld_sql :: "sql_stmt list"

text \<open>The buffer for the text of a statement has 256 bytes, 128 in \<open>localDBDelAll\<close>.\<close>

definition sql_exec :: "nat \<Rightarrow> sql_engine \<Rightarrow> sql_stmt \<Rightarrow> local_db \<Rightarrow> (sql_result option \<times> local_db) option" where
  "sql_exec len eng q db = do {
     _ \<leftarrow> fits len (sql_text q);
     Some (eng (ld_sql db @ [q]), db\<lparr>ld_sql := ld_sql db @ [q]\<rparr>)
   }"

text \<open>A push into a full list frees the oldest record.\<close>

definition push_record :: "local_file_info \<Rightarrow> local_db \<Rightarrow> local_db" where
  "push_record r db =
     (let p = ld_brk db;
          l = loop_push_to_tail (ld_loop db) p;
          freed = drop (length (ll_deleted (ld_loop db))) (ll_deleted l)
      in db\<lparr>ld_loop := l, ld_cur := ld_cur db + 1, ld_recs := ((ld_recs db)(p \<mapsto> r)) |` (- set freed), ld_brk := p + 1\<rparr>)"

definition next_cell :: "string option list \<Rightarrow> nat \<Rightarrow> (string option \<times> nat) option" where
  "next_cell result index =
     (if index < length result
      then Some (case result ! index of None \<Rightarrow> (None, index) | Some x \<Rightarrow> (Some x, index + 1))
      else None)"

definition stringtoint :: "string option \<Rightarrow> int \<Rightarrow> int" where
  "stringtoint s d = (case s of None \<Rightarrow> d | Some x \<Rightarrow> strtol x)"

definition load_record :: "string option list \<Rightarrow> nat \<Rightarrow> local_file_info option" where
  "load_record result index = do {
     (name, index) \<leftarrow> next_cell result index;
     fileName \<leftarrow> (case name of None \<Rightarrow> Some [] | Some x \<Rightarrow> fits LOCAL_FILE_NAME_LEN x);
     (time, index) \<leftarrow> next_cell result index;
     (sz, index) \<leftarrow> next_cell result index;
     (status, index) \<leftarrow> next_cell result index;
     Some \<lparr>lf_name = fileName, lf_time = stringtoint time 0, lf_size = stringtoint sz 0,
           lf_status = stringtoint status 0\<rparr>
   }"

fun load_records :: "string option list \<Rightarrow> nat \<Rightarrow> nat list \<Rightarrow> local_db \<Rightarrow> local_db option" where
  "load_records result column [] db = Some db"
| "load_records result column (i # is) db = do {
     r \<leftarrow> load_record result ((i + 1) * column);
     load_records result column is (push_record r db)
   }"

text \<open>\<open>mem\<close> is the block of the queue; on success the function ends without a return value.\<close>

definition localDBInit :: "sql_engine \<Rightarrow> bool \<Rightarrow> nat list option \<Rightarrow> local_db \<Rightarrow> (int option \<times> local_db) option" where
  "localDBInit eng can_open mem db0 =
     (let db = db0\<lparr>ld_loop := \<lparr>ll_size = 0, ll_head = 0, ll_tail = 0, ll_items = [], ll_del = False, ll_deleted = []\<rparr>,
                   ld_cur := 0\<rparr>
      in if \<not> can_open then Some (Some (-1), db)
      else do {
        (r, db) \<leftarrow> sql_exec 256 eng SqlCreate db;
        (case r of None \<Rightarrow> Some (Some (-2), db)
         | Some _ \<Rightarrow> do {
             (r, db) \<leftarrow> sql_exec 256 eng SqlSelectAll db;
             (case r of None \<Rightarrow> Some (Some (-3), db)
              | Some (row, column, result) \<Rightarrow> do {
                  l \<leftarrow> loop_create mem MAX_FILES_NUM True;
                  db \<leftarrow> load_records result column [0 ..< row] (db\<lparr>ld_loop := l, ld_cur := 0\<rparr>);
                  Some (None, db)
                })
           })
      })"

section \<open>Operations\<close>

text \<open>The address of the record of a name, \<open>NULL\<close> if there is none. The records of the list are
  always allocated, which \<open>db_ok\<close> below states.\<close>

definition searchParternName :: "local_db \<Rightarrow> string \<Rightarrow> nat \<Rightarrow> bool" where
  "searchParternName db q p \<longleftrightarrow> map_option lf_name (ld_recs db p) = Some q"

definition localDBGetRec :: "string \<Rightarrow> local_db \<Rightarrow> nat option" where
  "localDBGetRec name db = loop_search (ld_loop db) (searchParternName db name)"

definition localDBAdd :: "sql_engine \<Rightarrow> string \<Rightarrow> int \<Rightarrow> int \<Rightarrow> local_db \<Rightarrow> (int \<times> local_db) option" where
  "localDBAdd eng name time sz db = do {
     (r, db) \<leftarrow> sql_exec 256 eng (SqlSelectName name) db;
     (case r of None \<Rightarrow> Some (0, db)
      | Some (row, _, _) \<Rightarrow>
          if row > 0 then do {
            (_, db) \<leftarrow> sql_exec 256 eng (SqlUpdate time sz name) db;
            Some (0, db)
          }
          else do {
            (r, db) \<leftarrow> sql_exec 256 eng (SqlInsert name time sz) db;
            (case r of None \<Rightarrow> Some (-1, db)
             | Some _ \<Rightarrow> do {
                 fileName \<leftarrow> fits LOCAL_FILE_NAME_LEN name;
                 Some (0, push_record \<lparr>lf_name = fileName, lf_time = time, lf_size = sz, lf_status = 0\<rparr> db)
               })
          })
   }"

text \<open>No value is returned on success.\<close>

definition localDBUpdate :: "sql_engine \<Rightarrow> string \<Rightarrow> int \<Rightarrow> int \<Rightarrow> local_db \<Rightarrow> (int option \<times> local_db) option" where
  "localDBUpdate eng name time sz db = do {
     (r, db) \<leftarrow> sql_exec 256 eng (SqlUpdate time sz name) db;
     Some (case r of None \<Rightarrow> Some (-1) | Some _ \<Rightarrow> None, db)
   }"

text \<open>It deletes nothing.\<close>

definition localDBDelete :: "string \<Rightarrow> local_db \<Rightarrow> int option" where
  "localDBDelete name db = do {
     p \<leftarrow> loop_search (ld_loop db) (searchParternName db name);
     Some (if p \<noteq> 0 then 0 else -1)
   }"

definition localDBDelAll :: "sql_engine \<Rightarrow> local_db \<Rightarrow> (int \<times> local_db) option" where
  "localDBDelAll eng db = do {
     (r, db) \<leftarrow> sql_exec 128 eng SqlDeleteAll db;
     (case r of None \<Rightarrow> Some (-1, db)
      | Some _ \<Rightarrow> do {
          l \<leftarrow> loop_clear (ld_loop db);
          Some (0, db\<lparr>ld_loop := l,
                     ld_recs := ld_recs db |` (- set (drop (length (ll_deleted (ld_loop db))) (ll_deleted l)))\<rparr>)
        })
   }"

text \<open>What \<open>client_pg_syncFile\<close> does with the list when a file is complete.\<close>

definition record_file :: "sql_engine \<Rightarrow> string \<Rightarrow> int \<Rightarrow> int \<Rightarrow> local_db \<Rightarrow> local_db option" where
  "record_file eng name time sz db = do {
     p \<leftarrow> localDBGetRec name db;
     (if p \<noteq> 0 then do {
        r \<leftarrow> ld_recs db p;
        let db = db\<lparr>ld_recs := (ld_recs db)(p \<mapsto> r\<lparr>lf_size := sz, lf_time := time\<rparr>)\<rparr>;
        (_, db) \<leftarrow> localDBUpdate eng name time sz db;
        Some db
      }
      else do {
        (_, db) \<leftarrow> localDBAdd eng name time sz db;
        Some db
      })
   }"

definition find_file_from_local_db :: "string \<Rightarrow> int \<Rightarrow> int \<Rightarrow> local_db \<Rightarrow> bool option" where
  "find_file_from_local_db name sz time db = do {
     p \<leftarrow> localDBGetRec name db;
     (if p \<noteq> 0 then do { r \<leftarrow> ld_recs db p; Some (lf_time r = time \<and> lf_size r = sz) }
      else Some False)
   }"

section \<open>The table\<close>

text \<open>What the statements do to the table, for names without quotation marks, and what a working
  data base answers. \<open>t0\<close> is the table the data base has at the start of the program.\<close>

type_synonym file_row = "string \<times> int \<times> int"

fun sql_do :: "sql_stmt \<Rightarrow> file_row list \<Rightarrow> file_row list" where
  "sql_do (SqlUpdate time sz name) rows = map (\<lambda>x. if fst x = name then (name, time, sz) else x) rows"
| "sql_do (SqlInsert name time sz) rows = rows @ [(name, time, sz)]"
| "sql_do SqlDeleteAll rows = []"
| "sql_do _ rows = rows"

definition sql_table :: "file_row list \<Rightarrow> sql_stmt list \<Rightarrow> file_row list" where
  "sql_table t0 l = fold sql_do l t0"

definition plain :: "string \<Rightarrow> bool" where "plain name \<longleftrightarrow> CHR 0x27 \<notin> set name"

fun plain_stmt :: "sql_stmt \<Rightarrow> bool" where
  "plain_stmt (SqlSelectName name) = plain name"
| "plain_stmt (SqlUpdate _ _ name) = plain name"
| "plain_stmt (SqlInsert name _ _) = plain name"
| "plain_stmt _ = True"

definition row_cells :: "file_row \<Rightarrow> string option list" where
  "row_cells r = [Some (fst r), Some (d_str (fst (snd r))), Some (d_str (snd (snd r))),
     Some (d_str 0), Some (d_str 0), Some (d_str 0)]"

definition table_cells :: "file_row list \<Rightarrow> string option list" where
  "table_cells rows = map Some [''name'', ''time'', ''size'', ''status'', ''F1'', ''F2''] @ concat (map row_cells rows)"

fun sql_answer :: "sql_stmt \<Rightarrow> file_row list \<Rightarrow> sql_result" where
  "sql_answer (SqlSelectName name) rows =
     (let rs = filter (\<lambda>x. fst x = name) rows in (length rs, 6, table_cells rs))"
| "sql_answer SqlSelectAll rows = (length rows, 6, table_cells rows)"
| "sql_answer _ rows = (0, 0, [])"

definition sql_works :: "file_row list \<Rightarrow> sql_engine \<Rightarrow> bool" where
  "sql_works t0 eng \<longleftrightarrow>
     (\<forall>l q. list_all plain_stmt (l @ [q]) \<longrightarrow> eng (l @ [q]) = Some (sql_answer q (sql_table t0 l)))"

definition sql_demo :: "file_row list \<Rightarrow> sql_engine" where
  "sql_demo t0 l = Some (sql_answer (last l) (sql_table t0 (butlast l)))"

lemma sql_demo_works: "sql_works t0 (sql_demo t0)"
  by (simp add: sql_works_def sql_demo_def)

lemma sql_table_simps [simp]: "sql_table t0 [] = t0" "sql_table t0 (l @ [q]) = sql_do q (sql_table t0 l)"
  by (simp_all add: sql_table_def)

lemma sql_worksD:
  "sql_works t0 eng \<Longrightarrow> list_all plain_stmt l \<Longrightarrow> plain_stmt q \<Longrightarrow> eng (l @ [q]) = Some (sql_answer q (sql_table t0 l))"
  by (simp add: sql_works_def)

section \<open>The list and the table agree\<close>

definition row_of :: "local_file_info \<Rightarrow> file_row" where "row_of r = (lf_name r, lf_time r, lf_size r)"

definition ld_view :: "local_db \<Rightarrow> nat list" where "ld_view db = ll_view (ld_loop db)"

definition ld_rows :: "local_db \<Rightarrow> file_row list" where
  "ld_rows db = map (\<lambda>p. row_of (the (ld_recs db p))) (ld_view db)"

definition list_ok :: "local_db \<Rightarrow> bool" where
  "list_ok db \<longleftrightarrow> ll_inv (ld_loop db) \<and> ll_size (ld_loop db) = MAX_FILES_NUM \<and> ll_del (ld_loop db)
     \<and> distinct (ld_view db) \<and> 0 < ld_brk db
     \<and> (\<forall>p \<in> set (ld_view db). 0 < p \<and> p < ld_brk db \<and> ld_recs db p \<noteq> None)"

definition db_ok :: "file_row list \<Rightarrow> local_db \<Rightarrow> bool" where
  "db_ok t0 db \<longleftrightarrow> list_ok db \<and> list_all plain_stmt (ld_sql db)
     \<and> ld_rows db = sql_table t0 (ld_sql db) \<and> distinct (map fst (ld_rows db))"

text \<open>The specification: the row of the name is replaced, or added at the end.\<close>

definition put_row :: "file_row \<Rightarrow> file_row list \<Rightarrow> file_row list" where
  "put_row r rows =
     (if fst r \<in> fst ` set rows then map (\<lambda>x. if fst x = fst r then r else x) rows else rows @ [r])"

lemma length_ld_rows [simp]: "length (ld_rows db) = length (ld_view db)"
  by (simp add: ld_rows_def)

lemma row_of_simps [simp]: "fst (row_of r) = lf_name r" "row_of (r\<lparr>lf_size := a, lf_time := b\<rparr>) = (lf_name r, b, a)"
  by (simp_all add: row_of_def)

lemma put_row_distinct: "distinct (map fst rows) \<Longrightarrow> distinct (map fst (put_row r rows))"
proof -
  assume d: "distinct (map fst rows)"
  have "map fst (map (\<lambda>x. if fst x = fst r then r else x) rows) = map fst rows" by (induction rows) simp_all
  then show ?thesis using d unfolding put_row_def by (cases "fst r \<in> fst ` set rows") (simp_all only: if_True if_False, simp)
qed

lemma push_del [simp]: "ll_del (loop_push_to_tail l p) = ll_del l"
  by (simp add: loop_push_to_tail_def call_del_def Let_def)

lemma list_okD:
  assumes "list_ok db"
  shows "ll_inv (ld_loop db)" "ll_cap (ld_loop db) = 999" "ll_del (ld_loop db)" "distinct (ld_view db)"
    and "\<And>p. p \<in> set (ld_view db) \<Longrightarrow> 0 < p \<and> p < ld_brk db \<and> ld_recs db p \<noteq> None"
  using assms by (auto simp: list_ok_def ll_cap_def MAX_FILES_NUM_def)

lemma push_record_ok:
  assumes ok: "list_ok db" and room: "length (ld_view db) < 999"
  shows "list_ok (push_record r db) \<and> ld_rows (push_record r db) = ld_rows db @ [row_of r]
    \<and> ld_sql (push_record r db) = ld_sql db"
proof -
  note l = list_okD [OF ok]
  have used: "ll_used (ld_loop db) \<noteq> ll_cap (ld_loop db)" using room l(2) by (simp add: ld_view_def)
  note push = loop_push_to_tail_ok [OF l(1), of "ld_brk db"]
  have view: "ld_view (push_record r db) = ld_view db @ [ld_brk db]"
    using push used by (simp add: push_record_def ld_view_def Let_def)
  have recs: "ld_recs (push_record r db) = (ld_recs db)(ld_brk db \<mapsto> r)"
    using push used by (auto simp: push_record_def Let_def restrict_map_def fun_eq_iff)
  have new: "ld_brk db \<notin> set (ld_view db)" using l(5) by blast
  have "list_ok (push_record r db)"
    using ok push new l(5) unfolding list_ok_def view recs
    by (auto simp: push_record_def Let_def less_Suc_eq)
  moreover have "ld_rows (push_record r db) = ld_rows db @ [row_of r]"
    using new by (simp add: ld_rows_def view recs map_fun_upd)
  moreover have "ld_sql (push_record r db) = ld_sql db" by (simp add: push_record_def Let_def)
  ultimately show ?thesis by blast
qed

lemma getrec_cases:
  assumes ok: "list_ok db"
  obtains (absent) "localDBGetRec name db = Some 0" "name \<notin> fst ` set (ld_rows db)"
  | (present) p r where "localDBGetRec name db = Some p" "p \<noteq> 0" "p \<in> set (ld_view db)"
      "ld_recs db p = Some r" "lf_name r = name" "row_of r \<in> set (ld_rows db)"
proof -
  note l = list_okD [OF ok]
  let ?P = "searchParternName db name"
  have s: "localDBGetRec name db = Some (case List.find ?P (ld_view db) of None \<Rightarrow> 0 | Some p \<Rightarrow> p)"
    unfolding localDBGetRec_def ld_view_def by (rule loop_search_ok [OF l(1)])
  show ?thesis
  proof (cases "List.find ?P (ld_view db)")
    case None
    have "name \<notin> fst ` set (ld_rows db)"
    proof
      assume "name \<in> fst ` set (ld_rows db)"
      then obtain p where p: "p \<in> set (ld_view db)" "lf_name (the (ld_recs db p)) = name"
        by (auto simp: ld_rows_def row_of_def)
      then have "?P p" using l(5) [OF p(1)] by (auto simp: searchParternName_def)
      then show False using None p(1) by (auto simp: find_None_iff)
    qed
    then show ?thesis using s None by (intro absent) simp_all
  next
    case (Some p)
    then have p: "p \<in> set (ld_view db)" "?P p" by (auto simp: find_Some_iff in_set_conv_nth)
    then obtain r where r: "ld_recs db p = Some r" "lf_name r = name" by (auto simp: searchParternName_def)
    moreover have "row_of r \<in> set (ld_rows db)" using p(1) r(1) by (force simp: ld_rows_def)
    ultimately show ?thesis using s Some p(1) l(5) [OF p(1)] by (intro present) simp_all
  qed
qed

lemma find_file_ok:
  assumes ok: "db_ok t0 db"
  shows "find_file_from_local_db name sz time db = Some ((name, time, sz) \<in> set (ld_rows db))"
proof -
  have lo: "list_ok db" and d: "distinct (map fst (ld_rows db))" using ok unfolding db_ok_def by blast+
  from lo show ?thesis
  proof (cases rule: getrec_cases [where name = name])
    case absent
    then show ?thesis by (force simp: find_file_from_local_db_def)
  next
    case (present p r)
    have "(name, time, sz) \<in> set (ld_rows db) \<longleftrightarrow> (name, time, sz) = row_of r"
      using d present(5,6) by (auto dest: eq_key_imp_eq_value [of _ _ "(time, sz)"] simp: row_of_def intro: eq_key_imp_eq_value)
    then show ?thesis using present by (auto simp: find_file_from_local_db_def row_of_def)
  qed
qed

section \<open>The operations keep them in step\<close>

lemma text_length:
  assumes "length name < 128" "int32 time" "int32 sz"
  shows "length (sql_text (SqlSelectName name)) < 256" "length (sql_text (SqlUpdate time sz name)) < 256"
    "length (sql_text (SqlInsert name time sz)) < 256"
  using assms(1) length_d_str [OF assms(2)] length_d_str [OF assms(3)]
  by (simp_all add: FILE_INFO_TABLE_def quote_def d_str_def [of 0] digits.simps [of 0])

lemma sql_exec_ok:
  assumes "sql_works t0 eng" "list_all plain_stmt (ld_sql db)" "plain_stmt q" "length (sql_text q) < len"
  shows "sql_exec len eng q db
    = Some (Some (sql_answer q (sql_table t0 (ld_sql db))), db\<lparr>ld_sql := ld_sql db @ [q]\<rparr>)"
  using sql_worksD [OF assms(1-3)] assms(4) by (simp add: sql_exec_def)

lemma ld_sql_simps [simp]:
  "ld_rows (db\<lparr>ld_sql := l\<rparr>) = ld_rows db" "ld_view (db\<lparr>ld_sql := l\<rparr>) = ld_view db"
  "list_ok (db\<lparr>ld_sql := l\<rparr>) = list_ok db" "ld_view (db\<lparr>ld_recs := m\<rparr>) = ld_view db"
  by (simp_all add: ld_rows_def ld_view_def list_ok_def)

lemma update_in_place:
  assumes ok: "list_ok db" and d: "distinct (map fst (ld_rows db))"
    and p: "p \<in> set (ld_view db)" "ld_recs db p = Some r" "lf_name r = name"
  shows "ld_rows (db\<lparr>ld_recs := (ld_recs db)(p \<mapsto> r\<lparr>lf_size := sz, lf_time := time\<rparr>)\<rparr>)
    = map (\<lambda>x. if fst x = name then (name, time, sz) else x) (ld_rows db)"
    and "list_ok (db\<lparr>ld_recs := (ld_recs db)(p \<mapsto> r')\<rparr>)"
proof -
  have "inj_on (\<lambda>q. lf_name (the (ld_recs db q))) (set (ld_view db))"
    using d by (simp add: ld_rows_def comp_def distinct_map)
  then have other: "lf_name (the (ld_recs db q)) \<noteq> name" if "q \<in> set (ld_view db)" "q \<noteq> p" for q
    using p that unfolding inj_on_def by (metis option.sel)
  show "ld_rows (db\<lparr>ld_recs := (ld_recs db)(p \<mapsto> r\<lparr>lf_size := sz, lf_time := time\<rparr>)\<rparr>)
    = map (\<lambda>x. if fst x = name then (name, time, sz) else x) (ld_rows db)"
    using other p(2,3) by (auto simp: ld_rows_def)
  show "list_ok (db\<lparr>ld_recs := (ld_recs db)(p \<mapsto> r')\<rparr>)"
    using ok by (auto simp: list_ok_def ld_view_def)
qed

lemma record_file_ok:
  assumes ok: "db_ok t0 db" and w: "sql_works t0 eng"
    and n: "plain name" "length name < 128" "int32 time" "int32 sz"
    and room: "name \<in> fst ` set (ld_rows db) \<or> length (ld_rows db) < 999"
  shows "\<exists>db'. record_file eng name time sz db = Some db' \<and> db_ok t0 db'
    \<and> ld_rows db' = put_row (name, time, sz) (ld_rows db)"
proof -
  have o: "list_ok db" "list_all plain_stmt (ld_sql db)" "ld_rows db = sql_table t0 (ld_sql db)"
    "distinct (map fst (ld_rows db))" using ok unfolding db_ok_def by blast+
  note len = text_length [OF n(2-4)]
  from o(1) show ?thesis
  proof (cases rule: getrec_cases [where name = name])
    case (present p r)
    let ?db = "db\<lparr>ld_recs := (ld_recs db)(p \<mapsto> r\<lparr>lf_size := sz, lf_time := time\<rparr>)\<rparr>"
    note up = update_in_place(1) [OF o(1,4) present(3-5), of time sz] update_in_place(2) [OF o(1,4) present(3-5)]
    have ex: "sql_exec 256 eng (SqlUpdate time sz name) ?db = Some (Some (0, 0, []), ?db\<lparr>ld_sql := ld_sql db @ [SqlUpdate time sz name]\<rparr>)"
      using sql_exec_ok [OF w, of ?db "SqlUpdate time sz name" 256] o(2) n(1) len(2) by simp
    let ?new = "?db\<lparr>ld_sql := ld_sql db @ [SqlUpdate time sz name]\<rparr>"
    have put: "ld_rows ?new = put_row (name, time, sz) (ld_rows db)"
      using up(1) present(5,6) by (force simp: put_row_def)
    have "record_file eng name time sz db = Some ?new"
      using present(1,2,4) ex by (simp add: record_file_def localDBUpdate_def Let_def)
    moreover have "distinct (map fst (ld_rows ?new))" unfolding put by (rule put_row_distinct [OF o(4)])
    moreover have "ld_rows ?new = sql_table t0 (ld_sql ?new)" using up(1) o(3) by simp
    moreover have "list_ok ?new" "list_all plain_stmt (ld_sql ?new)" using up(2) o(2) n(1) by simp_all
    ultimately have "record_file eng name time sz db = Some ?new" "db_ok t0 ?new"
      by (simp_all only: db_ok_def simp_thms)
    then show ?thesis using put by blast
  next
    case absent
    let ?sel = "db\<lparr>ld_sql := ld_sql db @ [SqlSelectName name]\<rparr>"
    let ?ins = "db\<lparr>ld_sql := ld_sql db @ [SqlSelectName name, SqlInsert name time sz]\<rparr>"
    let ?r = "\<lparr>lf_name = name, lf_time = time, lf_size = sz, lf_status = 0\<rparr>"
    have none: "filter (\<lambda>x. fst x = name) (sql_table t0 (ld_sql db)) = []"
      using absent(2) unfolding o(3) [symmetric] by (auto simp: filter_empty_conv)
    have e1: "sql_exec 256 eng (SqlSelectName name) db = Some (Some (0, 6, table_cells []), ?sel)"
      using sql_exec_ok [OF w o(2), of "SqlSelectName name" 256] n(1) len(1) none by simp
    have e2: "sql_exec 256 eng (SqlInsert name time sz) ?sel = Some (Some (0, 0, []), ?ins)"
      using sql_exec_ok [OF w, of ?sel "SqlInsert name time sz" 256] o(2) n(1) len(3) by simp
    have room': "length (ld_view ?ins) < 999" using room absent(2) by simp
    note push = push_record_ok [where r = ?r, OF _ room']
    have run: "record_file eng name time sz db = Some (push_record ?r ?ins)"
      using absent(1) e1 e2 n(2) by (simp add: record_file_def localDBAdd_def LOCAL_FILE_NAME_LEN_def)
    have rows: "ld_rows (push_record ?r ?ins) = put_row (name, time, sz) (ld_rows db)"
      using push o(1) absent(2) by (simp add: put_row_def row_of_def)
    have "db_ok t0 (push_record ?r ?ins)"
      unfolding db_ok_def using push o n(1) put_row_distinct [OF o(4), of "(name, time, sz)"] rows absent(2)
      by (simp add: put_row_def row_of_def sql_table_def)
    then show ?thesis using run rows by blast
  qed
qed

lemma clear_run:
  assumes "ll_inv l"
  shows "loop_clear l = Some (l\<lparr>ll_head := 0, ll_tail := 0,
    ll_deleted := ll_deleted l @ (if ll_del l then ll_view l else [])\<rparr>)"
  using loop_del_all_ok [OF assms, of 0] assms
  by (auto simp: loop_clear_def ll_inv_def ll_view_def ll_used_def)

lemma delall_ok:
  assumes ok: "db_ok t0 db" and w: "sql_works t0 eng"
  shows "\<exists>db'. localDBDelAll eng db = Some (0, db') \<and> db_ok t0 db' \<and> ld_rows db' = []"
proof -
  have o: "list_ok db" "list_all plain_stmt (ld_sql db)" using ok unfolding db_ok_def by blast+
  have len: "length (sql_text SqlDeleteAll) < 128" by (simp add: FILE_INFO_TABLE_def quote_def)
  note clear = clear_run [OF list_okD(1) [OF o(1)]]
  obtain db' where run: "localDBDelAll eng db = Some (0, db')"
    and db': "ld_view db' = []" "ld_sql db' = ld_sql db @ [SqlDeleteAll]" "list_ok db'"
    using sql_exec_ok [OF w o(2) _ len] clear o(1)
    by (auto simp: localDBDelAll_def ld_view_def list_ok_def ll_inv_def ll_view_def ll_used_def)
  have "db_ok t0 db'" using db' o(2) by (simp add: db_ok_def ld_rows_def)
  then show ?thesis using run db'(1) by (auto simp: ld_rows_def)
qed

lemma length_row_cells: "length (row_cells r) = 6"
  by (simp add: row_cells_def)

lemma drop_concat_equal:
  "(\<And>x. length (f x) = n) \<Longrightarrow> drop (i * n) (concat (map f xs)) = concat (map f (drop i xs))"
proof (induction xs arbitrary: i)
  case (Cons x xs)
  then show ?case by (cases i) (simp_all add: add.commute)
qed simp

lemma length_table_cells: "length (table_cells rows) = 6 * (length rows + 1)"
  by (induction rows) (simp_all add: table_cells_def row_cells_def)

lemma table_cell:
  assumes "i < length rows" "k < 6"
  shows "table_cells rows ! ((i + 1) * 6 + k) = row_cells (rows ! i) ! k"
    and "(i + 1) * 6 + k < length (table_cells rows)"
proof -
  have "drop ((i + 1) * 6) (table_cells rows) = drop (i * 6) (drop 6 (table_cells rows))"
    by (simp add: add.commute)
  also have "\<dots> = drop (i * 6) (concat (map row_cells rows))" by (simp add: table_cells_def)
  also have "\<dots> = concat (map row_cells (drop i rows))" by (rule drop_concat_equal) (simp add: row_cells_def)
  also have "\<dots> = row_cells (rows ! i) @ concat (map row_cells (drop (Suc i) rows))"
    using assms(1) by (simp add: Cons_nth_drop_Suc [symmetric])
  finally have d: "drop ((i + 1) * 6) (table_cells rows) = row_cells (rows ! i) @ concat (map row_cells (drop (Suc i) rows))" .
  show lt: "(i + 1) * 6 + k < length (table_cells rows)" using assms by (simp add: length_table_cells)
  have "table_cells rows ! ((i + 1) * 6 + k) = drop ((i + 1) * 6) (table_cells rows) ! k"
    using lt by (intro nth_drop [symmetric]) simp
  also have "\<dots> = row_cells (rows ! i) ! k" unfolding d using assms(2) by (simp add: nth_append length_row_cells)
  finally show "table_cells rows ! ((i + 1) * 6 + k) = row_cells (rows ! i) ! k" .
qed

definition small_row :: "file_row \<Rightarrow> bool" where
  "small_row r \<longleftrightarrow> length (fst r) < 128 \<and> int32 (fst (snd r)) \<and> int32 (snd (snd r))"

lemma load_record_ok:
  assumes i: "i < length rows" and small: "small_row (rows ! i)"
  shows "\<exists>r. load_record (table_cells rows) ((i + 1) * 6) = Some r \<and> row_of r = rows ! i"
proof -
  have cell: "next_cell (table_cells rows) ((i + 1) * 6 + k) = Some (row_cells (rows ! i) ! k, (i + 1) * 6 + (k + 1))"
    if "k < 6" "row_cells (rows ! i) ! k \<noteq> None" for k
    using table_cell [OF i that(1)] that(2) by (auto simp: next_cell_def)
  have "int32 0" by (simp add: int32_def)
  then show ?thesis using cell [of 0] cell [of 1] cell [of 2] cell [of 3] small
    by (simp add: load_record_def row_cells_def row_of_def small_row_def stringtoint_def strtol_d_str LOCAL_FILE_NAME_LEN_def
        prod_eq_iff add.commute)
qed

lemma load_records_ok:
  assumes "length rows \<le> 999" "\<forall>r \<in> set rows. small_row r"
  shows "k \<le> length rows \<Longrightarrow> list_ok db \<Longrightarrow> ld_rows db = take (length rows - k) rows
    \<Longrightarrow> \<exists>db'. load_records (table_cells rows) 6 [length rows - k ..< length rows] db = Some db'
      \<and> list_ok db' \<and> ld_rows db' = rows \<and> ld_sql db' = ld_sql db"
proof (induction k arbitrary: db)
  case (Suc k)
  let ?i = "length rows - Suc k"
  have i: "?i < length rows" "[?i ..< length rows] = ?i # [length rows - k ..< length rows]" "Suc ?i = length rows - k"
    using Suc.prems(1) by (simp_all add: upt_conv_Cons Suc_diff_Suc)
  obtain r where r: "load_record (table_cells rows) ((?i + 1) * 6) = Some r" "row_of r = rows ! ?i"
    using load_record_ok [OF i(1)] assms(2) i(1) nth_mem by blast
  have "length (ld_rows db) < 999" unfolding Suc.prems(3) using assms(1) i(1) by simp
  then have room: "length (ld_view db) < 999" by simp
  have push: "list_ok (push_record r db)" "ld_rows (push_record r db) = take (length rows - k) rows"
    "ld_sql (push_record r db) = ld_sql db"
    using push_record_ok [OF Suc.prems(2) room, of r] Suc.prems(3) r(2) i(1)
    by (simp_all add: i(3) [symmetric] take_Suc_conv_app_nth del: Suc_diff_Suc)
  from Suc.IH [OF _ push(1,2)] Suc.prems(1) show ?case unfolding i(2) using r(1) push(3) by simp
qed simp

lemma localDBInit_ok:
  assumes w: "sql_works t0 eng" and "length blk = 1000" "ld_sql db0 = []" "0 < ld_brk db0"
    and t0: "length t0 \<le> 999" "\<forall>r \<in> set t0. small_row r" "distinct (map fst t0)"
  shows "\<exists>db. localDBInit eng True (Some blk) db0 = Some (None, db) \<and> db_ok t0 db \<and> ld_rows db = t0"
proof -
  let ?l = "\<lparr>ll_size = MAX_FILES_NUM, ll_head = 0, ll_tail = 0, ll_items = blk, ll_del = True, ll_deleted = []\<rparr>"
  let ?db = "db0\<lparr>ld_sql := [SqlCreate, SqlSelectAll], ld_loop := ?l, ld_cur := 0\<rparr>"
  have e: "eng [SqlCreate] = Some (0, 0, [])" "eng [SqlCreate, SqlSelectAll] = Some (length t0, 6, table_cells t0)"
    using sql_worksD [OF w, of "[]" SqlCreate] sql_worksD [OF w, of "[SqlCreate]" SqlSelectAll]
    by (simp_all add: sql_table_def)
  have ok: "list_ok ?db" "ld_rows ?db = []"
    using assms(2,4) by (simp_all add: list_ok_def ld_view_def ld_rows_def ll_inv_def ll_view_def ll_used_def MAX_FILES_NUM_def)
  obtain db where db: "load_records (table_cells t0) 6 [0 ..< length t0] ?db = Some db"
    "list_ok db" "ld_rows db = t0" "ld_sql db = [SqlCreate, SqlSelectAll]"
    using load_records_ok [OF t0(1,2) order_refl ok(1)] ok(2) by auto
  have "localDBInit eng True (Some blk) db0 = Some (None, db)"
    using db(1) by (simp add: localDBInit_def sql_exec_def loop_create_def e assms(3) FILE_INFO_TABLE_def Let_def)
  moreover have "db_ok t0 db" using db(2-4) t0(3) by (simp add: db_ok_def sql_table_def)
  ultimately show ?thesis using db(3) by blast
qed

section \<open>Runs\<close>

fun record_files :: "sql_engine \<Rightarrow> file_row list \<Rightarrow> local_db \<Rightarrow> local_db option" where
  "record_files eng [] db = Some db"
| "record_files eng (r # rs) db = do {
     db \<leftarrow> record_file eng (fst r) (fst (snd r)) (snd (snd r)) db;
     record_files eng rs db
   }"

definition good_row :: "file_row \<Rightarrow> bool" where
  "good_row r \<longleftrightarrow> small_row r \<and> plain (fst r)"

lemma put_row_names: "fst ` set (put_row r rows) = insert (fst r) (fst ` set rows)"
proof -
  have "map fst (map (\<lambda>x. if fst x = fst r then r else x) rows) = map fst rows" by (induction rows) simp_all
  then have "fst ` set (map (\<lambda>x. if fst x = fst r then r else x) rows) = fst ` set rows"
    by (metis set_map)
  then show ?thesis by (auto simp: put_row_def)
qed

lemma put_row_small: "\<forall>x \<in> set rows. small_row x \<Longrightarrow> small_row r \<Longrightarrow> \<forall>x \<in> set (put_row r rows). small_row x"
  by (auto simp: put_row_def)

lemma put_row_in: "r \<in> set (put_row r rows)"
  by (force simp: put_row_def)

lemma names_length: "distinct (map fst rows) \<Longrightarrow> length rows = card (fst ` set rows)"
  by (metis distinct_card length_map list.set_map)

lemma full_names:
  assumes "card (A \<union> B) \<le> n" "n \<le> card A" "finite A" "finite B"
  shows "B \<subseteq> A"
  using card_seteq [of "A \<union> B" A] assms by auto

lemma record_files_ok:
  assumes w: "sql_works t0 eng"
  shows "db_ok t0 db \<Longrightarrow> \<forall>r \<in> set rs. good_row r \<Longrightarrow> \<forall>r \<in> set (ld_rows db). small_row r
    \<Longrightarrow> card (fst ` set (ld_rows db) \<union> fst ` set rs) \<le> 999
    \<Longrightarrow> \<exists>db'. record_files eng rs db = Some db' \<and> db_ok t0 db' \<and> ld_rows db' = fold put_row rs (ld_rows db)
      \<and> (\<forall>r \<in> set (ld_rows db'). small_row r) \<and> length (ld_rows db') \<le> 999"
proof (induction rs arbitrary: db)
  case Nil
  have d: "distinct (map fst (ld_rows db))" using Nil(1) unfolding db_ok_def by blast
  have "length (ld_rows db) \<le> 999" using Nil(4) unfolding names_length [OF d] by simp
  then show ?case using Nil(1,3) by simp
next
  case (Cons r rs)
  obtain name time sz where r: "r = (name, time, sz)" by (cases r)
  have d: "distinct (map fst (ld_rows db))" using Cons.prems(1) unfolding db_ok_def by blast
  have room: "name \<in> fst ` set (ld_rows db) \<or> length (ld_rows db) < 999"
  proof (rule disjCI)
    assume "\<not> length (ld_rows db) < 999"
    then have "999 \<le> card (fst ` set (ld_rows db))" unfolding names_length [OF d] by simp
    then have "fst ` set (r # rs) \<subseteq> fst ` set (ld_rows db)"
      by (rule full_names [OF Cons.prems(4)]) simp_all
    moreover have "name \<in> fst ` set (r # rs)" unfolding r by simp
    ultimately show "name \<in> fst ` set (ld_rows db)" by blast
  qed
  have good: "plain name" "length name < 128" "int32 time" "int32 sz" "small_row r"
    using Cons.prems(2) r by (auto simp: good_row_def small_row_def)
  obtain db1 where db1: "record_file eng name time sz db = Some db1" "db_ok t0 db1"
    "ld_rows db1 = put_row r (ld_rows db)"
    using record_file_ok [OF Cons.prems(1) w good(1-4) room] r by blast
  have "card (fst ` set (ld_rows db1) \<union> fst ` set rs) \<le> 999"
    using Cons.prems(4) unfolding db1(3) put_row_names by simp
  then show ?case
    using Cons.IH [OF db1(2)] Cons.prems(2) put_row_small [OF Cons.prems(3) good(5)] db1 r by auto
qed

text \<open>
  C27: After start-up on a table and any list of recorded files with at most 999 names, the
  list of files is the table with every record replaced or added in order, a file is found
  exactly when its name, time and size are in it, and a start-up on the table as the program
  left it gives the same list again.
\<close>

theorem local_db_survives_restart:
  assumes "sql_works t0 eng" "length blk = 1000" "ld_sql db0 = []" "0 < ld_brk db0"
    and "length t0 \<le> 999" "\<forall>r \<in> set t0. small_row r" "distinct (map fst t0)"
    and "\<forall>r \<in> set rs. good_row r" "card (fst ` set t0 \<union> fst ` set rs) \<le> 999"
  shows "\<exists>db1 db2. localDBInit eng True (Some blk) db0 = Some (None, db1)
    \<and> record_files eng rs db1 = Some db2
    \<and> ld_rows db2 = fold put_row rs t0
    \<and> (\<forall>name time sz. find_file_from_local_db name sz time db2 = Some ((name, time, sz) \<in> set (fold put_row rs t0)))
    \<and> (\<forall>eng' blk' db0'. sql_works (sql_table t0 (ld_sql db2)) eng' \<and> length blk' = 1000 \<and> ld_sql db0' = [] \<and> 0 < ld_brk db0'
        \<longrightarrow> (\<exists>db3. localDBInit eng' True (Some blk') db0' = Some (None, db3) \<and> ld_rows db3 = ld_rows db2))"
proof -
  obtain db1 where 1: "localDBInit eng True (Some blk) db0 = Some (None, db1)" "db_ok t0 db1" "ld_rows db1 = t0"
    using localDBInit_ok [OF assms(1-7)] by blast
  obtain db2 where 2: "record_files eng rs db1 = Some db2" "db_ok t0 db2" "ld_rows db2 = fold put_row rs t0"
    "\<forall>r \<in> set (ld_rows db2). small_row r" "length (ld_rows db2) \<le> 999"
    using record_files_ok [OF assms(1) 1(2) assms(8)] assms(6,9) unfolding 1(3) by blast
  have 3: "sql_table t0 (ld_sql db2) = ld_rows db2" "distinct (map fst (ld_rows db2))"
    using 2(2) unfolding db_ok_def by (blast intro: sym)+
  have "\<exists>db3. localDBInit eng' True (Some blk') db0' = Some (None, db3) \<and> ld_rows db3 = ld_rows db2"
    if "sql_works (sql_table t0 (ld_sql db2)) eng'" "length blk' = 1000" "ld_sql db0' = []" "0 < ld_brk db0'" for eng' blk' db0'
    using localDBInit_ok [OF that(1) [unfolded 3(1)] that(2-4) 2(5,4) 3(2)] by blast
  then show ?thesis using 1(1) 2(1,3) find_file_ok [OF 2(2)] unfolding 2(3) [symmetric] by blast
qed

lemma put_row_demo: "fold put_row [(''b'', 3, 4), (''a'', 5, 6)] [(''a'', 1, 2)] = [(''a'', 5, 6), (''b'', 3, 4)]"
  by (simp add: put_row_def)

theorem local_db_survives_restart_witness:
  "\<exists>db1 db2. localDBInit (sql_demo [(''a'', 1, 2)]) True (Some (replicate 1000 0))
        \<lparr>ld_loop = undefined, ld_cur = 0, ld_recs = Map.empty, ld_brk = 1, ld_sql = []\<rparr> = Some (None, db1)
    \<and> record_files (sql_demo [(''a'', 1, 2)]) [(''b'', 3, 4), (''a'', 5, 6)] db1 = Some db2
    \<and> ld_rows db2 = [(''a'', 5, 6), (''b'', 3, 4)]"
proof -
  have "card (fst ` set [(''a'', 1 :: int, 2 :: int)] \<union> fst ` set [(''b'', 3 :: int, 4 :: int), (''a'', 5, 6)]) \<le> 999"
    by (simp add: insert_commute)
  then show ?thesis
    using local_db_survives_restart [OF sql_demo_works, of "replicate 1000 0"
        "\<lparr>ld_loop = undefined, ld_cur = 0, ld_recs = Map.empty, ld_brk = 1, ld_sql = []\<rparr>"
        "[(''a'', 1, 2)]" "[(''b'', 3, 4), (''a'', 5, 6)]"]
    unfolding put_row_demo by (auto simp: good_row_def small_row_def int32_def plain_def)
qed

text \<open>A record that the full list has dropped is never seen again: its row is in the table, so the
  file is fetched and written, but the list gets no record of it.\<close>

text \<open>
  A file whose record the list has dropped but whose row is in the table gets no record when
  it is recorded again: it is still not found.
\<close>

theorem dropped_record_is_never_found:
  assumes "list_ok db" "sql_works t0 eng" "list_all plain_stmt (ld_sql db)" "good_row (name, time, sz)"
    and "localDBGetRec name db = Some 0" "name \<in> fst ` set (sql_table t0 (ld_sql db))"
  shows "\<exists>db'. record_file eng name time sz db = Some db' \<and> ld_rows db' = ld_rows db
    \<and> localDBGetRec name db' = Some 0 \<and> find_file_from_local_db name sz time db' = Some False"
proof -
  have g: "plain name" "length name < 128" "int32 time" "int32 sz"
    using assms(4) by (auto simp: good_row_def small_row_def)
  note len = text_length [OF g(2-4)]
  let ?sel = "db\<lparr>ld_sql := ld_sql db @ [SqlSelectName name]\<rparr>"
  let ?up = "db\<lparr>ld_sql := ld_sql db @ [SqlSelectName name, SqlUpdate time sz name]\<rparr>"
  let ?n = "length (filter (\<lambda>x. fst x = name) (sql_table t0 (ld_sql db)))"
  have n: "0 < ?n" using assms(6) by (auto simp: filter_empty_conv)
  have e1: "\<exists>res. sql_exec 256 eng (SqlSelectName name) db = Some (Some (?n, 6, res), ?sel)"
    using sql_exec_ok [OF assms(2,3), of "SqlSelectName name" 256] g(1) len(1) by (simp add: Let_def)
  have e2: "sql_exec 256 eng (SqlUpdate time sz name) ?sel = Some (Some (0, 0, []), ?up)"
    using sql_exec_ok [OF assms(2), of ?sel "SqlUpdate time sz name" 256] assms(3) g(1) len(2) by simp
  have "record_file eng name time sz db = Some ?up"
    using e1 e2 n assms(5) by (auto simp: record_file_def localDBAdd_def)
  moreover have get: "localDBGetRec name ?up = Some 0"
    using assms(5) by (simp add: localDBGetRec_def searchParternName_def [abs_def])
  moreover have "find_file_from_local_db name sz time ?up = Some False"
    using get by (simp add: find_file_from_local_db_def)
  ultimately show ?thesis by auto
qed

theorem dropped_record_is_never_found_witness:
  "\<exists>db'. record_file (sql_demo [(''a'', 1, 2)]) ''a'' 3 4
      \<lparr>ld_loop = \<lparr>ll_size = MAX_FILES_NUM, ll_head = 0, ll_tail = 0, ll_items = replicate 1000 0, ll_del = True, ll_deleted = []\<rparr>,
       ld_cur = 0, ld_recs = Map.empty, ld_brk = 1, ld_sql = []\<rparr> = Some db'
    \<and> find_file_from_local_db ''a'' 4 3 db' = Some False"
proof -
  let ?l = "\<lparr>ll_size = MAX_FILES_NUM, ll_head = 0, ll_tail = 0, ll_items = replicate 1000 0, ll_del = True, ll_deleted = []\<rparr>"
  have "localDBGetRec ''a'' \<lparr>ld_loop = ?l, ld_cur = 0, ld_recs = Map.empty, ld_brk = 1, ld_sql = []\<rparr> = Some 0"
    by (simp add: localDBGetRec_def loop_search_def loop_find.simps)
  then show ?thesis
    using dropped_record_is_never_found [OF _ sql_demo_works, of
        "\<lparr>ld_loop = ?l, ld_cur = 0, ld_recs = Map.empty, ld_brk = 1, ld_sql = []\<rparr>" "''a''" 3 4 "[(''a'', 1, 2)]"]
    by (auto simp: good_row_def small_row_def int32_def plain_def list_ok_def ld_view_def ll_inv_def
        ll_view_def ll_used_def MAX_FILES_NUM_def)
qed

end
