(* ===== verification/FileSync.thy ===== *)
theory FileSync
  imports LocalDb
begin

text \<open>
  The transfer of module files from the host: the messages \<open>SERVER2CLI_MSG_SYNCFILE\<close>,
  \<open>COMPLETESYNC\<close>, \<open>UPDATEFILE\<close> and \<open>SENDFILE\<close> of \<open>clirecvcmd5srv.c\<close>, the list of outstanding sets and
  the search for the next file of \<open>client.c\<close>, and \<open>client_pg_syncFile\<close> and \<open>client_pg_downFile\<close> of
  \<open>clipg.c\<close>. A set of files is an object in a heap whose addresses \<open>malloc\<close> gives out once; the host
  names the set by its address in every answer. What the code sends, writes and calls is recorded as
  events. JSON texts are given as their items, \<open>None\<close> where an item is missing. \<open>None\<close> of an operation
  is an access through \<open>NULL\<close> or outside an object. Sizes do not reach the range in which the sum of
  a size and a packet wraps.
\<close>

section \<open>State\<close>

record recv_file_info =
  rf_name :: string
  rf_size :: int
  rf_time :: int
  rf_data :: "u8 list option"
  rf_act :: int

record dwn_file_info =
  dw_src :: string
  dw_type :: string
  dw_dst :: string

text \<open>The members \<open>fn_recv_file\<close> and \<open>param\<close>.\<close>

datatype recv_fn = RecvSync | RecvDown dwn_file_info

record recv_set =
  rs_cur :: nat
  rs_files :: "recv_file_info list"
  rs_fn :: recv_fn

datatype sync_event =
    EvPowerOff
  | EvRemoveCfg
  | EvRequest string nat
  | EvWrite string "u8 list"
  | EvPtn string
  | EvProgress int
  | EvFinish string
  | EvHome

record sync_state =
  ss_list :: loop_list
  ss_sets :: "nat \<rightharpoonup> recv_set"
  ss_brk :: nat
  ss_db :: local_db
  ss_module :: string
  ss_log :: "sync_event list"

text \<open>The data base, the content of a block from \<open>malloc\<close>, and whether the power is on.\<close>

record sync_env =
  se_sql :: sql_engine
  se_fresh :: "nat \<Rightarrow> u8 list"
  se_power :: bool

definition log_ev :: "sync_event \<Rightarrow> sync_state \<Rightarrow> sync_state" where
  "log_ev e s = s\<lparr>ss_log := ss_log s @ [e]\<rparr>"

definition get_cur_file_info :: "recv_set \<Rightarrow> recv_file_info option" where
  "get_cur_file_info rs = (if rs_cur rs < length (rs_files rs) then Some (rs_files rs ! rs_cur rs) else None)"

definition add_file_index :: "recv_set \<Rightarrow> recv_set" where
  "add_file_index rs = rs\<lparr>rs_cur := rs_cur rs + 1\<rparr>"

section \<open>The list of outstanding sets\<close>

definition recv_file_list_init :: "nat list option \<Rightarrow> loop_list option" where
  "recv_file_list_init mem = loop_create mem 10 False"

definition recv_file_list_insert :: "nat \<Rightarrow> sync_state \<Rightarrow> sync_state" where
  "recv_file_list_insert p s = s\<lparr>ss_list := loop_push_to_tail (ss_list s) p\<rparr>"

definition searchRecvConn :: "nat \<Rightarrow> nat \<Rightarrow> bool" where
  "searchRecvConn p q \<longleftrightarrow> q \<noteq> 0 \<and> p \<noteq> 0 \<and> q = p"

definition recv_file_list_get :: "nat \<Rightarrow> sync_state \<Rightarrow> nat option" where
  "recv_file_list_get p s = loop_search (ss_list s) (searchRecvConn p)"

definition recv_file_list_del :: "nat \<Rightarrow> sync_state \<Rightarrow> sync_state option" where
  "recv_file_list_del p s = do {
     q \<leftarrow> loop_search (ss_list s) (searchRecvConn p);
     l \<leftarrow> loop_remove (ss_list s) q;
     Some (s\<lparr>ss_list := l\<rparr>)
   }"

section \<open>The next file\<close>

definition client_getFile :: "string \<Rightarrow> nat \<Rightarrow> sync_state \<Rightarrow> sync_state" where
  "client_getFile name p s = log_ev (EvRequest name p) s"

function skip_known :: "local_db \<Rightarrow> recv_set \<Rightarrow> recv_set option" where
  "skip_known db rs =
     (case get_cur_file_info rs of None \<Rightarrow> Some rs
      | Some f \<Rightarrow>
          (case find_file_from_local_db (rf_name f) (rf_size f) (rf_time f) db of None \<Rightarrow> None
           | Some known \<Rightarrow> if known then skip_known db (add_file_index rs) else Some rs))"
  by pat_completeness auto
termination by (relation "measure (\<lambda>(db, rs). length (rs_files rs) - rs_cur rs)")
  (auto simp: get_cur_file_info_def add_file_index_def split: if_splits)

declare skip_known.simps [simp del]

definition client_getFileFromSet :: "nat \<Rightarrow> sync_state \<Rightarrow> (int \<times> sync_state) option" where
  "client_getFileFromSet p s = do {
     rs \<leftarrow> ss_sets s p;
     rs \<leftarrow> skip_known (ss_db s) rs;
     let s = s\<lparr>ss_sets := (ss_sets s)(p \<mapsto> rs)\<rparr>;
     (case get_cur_file_info rs of
        Some f \<Rightarrow> Some (0, client_getFile (rf_name f) p s)
      | None \<Rightarrow> Some (-1, s))
   }"

definition client_syncFinish :: "sync_state \<Rightarrow> sync_state" where
  "client_syncFinish s = log_ev (EvFinish (ss_module s)) s"

definition free_set :: "nat \<Rightarrow> sync_state \<Rightarrow> sync_state" where
  "free_set p s = s\<lparr>ss_sets := (ss_sets s)(p := None)\<rparr>"

text \<open>What follows when a set is new or one of its files is complete.\<close>

definition sync_next :: "nat \<Rightarrow> sync_state \<Rightarrow> sync_state option" where
  "sync_next p s = do {
     (r, s) \<leftarrow> client_getFileFromSet p s;
     (if r \<noteq> 0 then do {
        s \<leftarrow> recv_file_list_del p s;
        Some (log_ev EvHome (client_syncFinish (free_set p s)))
      }
      else Some s)
   }"

section \<open>A file is complete\<close>

text \<open>\<open>write\<close> with a buffer of \<open>NULL\<close> writes nothing.\<close>

definition write_data :: "recv_file_info \<Rightarrow> int \<Rightarrow> u8 list" where
  "write_data f n = (case rf_data f of None \<Rightarrow> [] | Some d \<Rightarrow> take (nat n) d)"

definition client_pg_syncFile :: "sync_env \<Rightarrow> nat \<Rightarrow> sync_state \<Rightarrow> sync_state option" where
  "client_pg_syncFile env p s = do {
     rs \<leftarrow> ss_sets s p;
     f \<leftarrow> get_cur_file_info rs;
     dst_file \<leftarrow> fits 256 (''./'' @ rf_name f);
     let s = log_ev (EvWrite dst_file (write_data f (rf_size f))) s;
     let s = (if strstr dst_file ''imageOrigin'' then log_ev (EvPtn dst_file) s else s);
     db \<leftarrow> record_file (se_sql env) (rf_name f) (rf_time f) (rf_size f) (ss_db s);
     let s = s\<lparr>ss_db := db\<rparr>;
     let s = log_ev (EvProgress ((int (rs_cur rs) + 1) * 100 div int (length (rs_files rs)))) s;
     let s = s\<lparr>ss_sets := (ss_sets s)(p \<mapsto> add_file_index rs)\<rparr>;
     sync_next p s
   }"

definition client_pg_downFile :: "dwn_file_info \<Rightarrow> nat \<Rightarrow> sync_state \<Rightarrow> sync_state option" where
  "client_pg_downFile dw p s = do {
     rs \<leftarrow> ss_sets s p;
     f \<leftarrow> get_cur_file_info rs;
     Some (log_ev (EvWrite (dw_dst dw) (write_data f (rf_act f))) s)
   }"

definition fn_recv_file :: "sync_env \<Rightarrow> recv_fn \<Rightarrow> nat \<Rightarrow> sync_state \<Rightarrow> sync_state option" where
  "fn_recv_file env fn p s =
     (case fn of RecvSync \<Rightarrow> client_pg_syncFile env p s | RecvDown dw \<Rightarrow> client_pg_downFile dw p s)"

section \<open>Messages\<close>

record sync_files =
  sf_total :: "int option"
  sf_module :: "string option"
  sf_files :: "(string option \<times> int option \<times> int option) list"

datatype sync_msg =
    MsgSyncFile sync_files
  | MsgCompleteSync sync_files
  | MsgUpdateFile "string option" "string option" "string option"
  | MsgBegin nat
  | MsgBody nat "u8 list"
  | MsgOver nat

definition parse_file :: "string option \<times> int option \<times> int option \<Rightarrow> recv_file_info option" where
  "parse_file x = do {
     name \<leftarrow> fst x;
     sz \<leftarrow> fst (snd x);
     time \<leftarrow> snd (snd x);
     name \<leftarrow> fits 256 name;
     Some \<lparr>rf_name = name, rf_size = sz, rf_time = time, rf_data = None, rf_act = 0\<rparr>
   }"

definition set_cur_module_name :: "string \<Rightarrow> sync_state \<Rightarrow> sync_state option" where
  "set_cur_module_name m s = do { m \<leftarrow> fits 256 m; Some (s\<lparr>ss_module := m\<rparr>) }"

text \<open>The set of a message, in the list and filled; the result is its address.\<close>

definition new_set :: "sync_files \<Rightarrow> sync_state \<Rightarrow> (nat \<times> sync_state) option" where
  "new_set m s = do {
     _ \<leftarrow> sf_total m;
     name \<leftarrow> sf_module m;
     s \<leftarrow> set_cur_module_name name s;
     let p = ss_brk s;
     let s = recv_file_list_insert p (s\<lparr>ss_brk := p + 1\<rparr>);
     files \<leftarrow> those (map parse_file (sf_files m));
     Some (p, s\<lparr>ss_sets := (ss_sets s)(p \<mapsto> \<lparr>rs_cur = 0, rs_files = files, rs_fn = RecvSync\<rparr>)\<rparr>)
   }"

definition msg_sync_file :: "sync_env \<Rightarrow> sync_files \<Rightarrow> sync_state \<Rightarrow> sync_state option" where
  "msg_sync_file env m s = do {
     let s = (if se_power env then log_ev EvPowerOff s else s);
     (p, s) \<leftarrow> new_set m s;
     sync_next p s
   }"

definition msg_complete_sync :: "sync_env \<Rightarrow> sync_files \<Rightarrow> sync_state \<Rightarrow> sync_state option" where
  "msg_complete_sync env m s = do {
     (p, s) \<leftarrow> new_set m s;
     let s = log_ev EvRemoveCfg s;
     (_, db) \<leftarrow> localDBDelAll (se_sql env) (ss_db s);
     sync_next p (s\<lparr>ss_db := db\<rparr>)
   }"

text \<open>The set is not put into the list.\<close>

definition msg_update_file :: "string option \<Rightarrow> string option \<Rightarrow> string option \<Rightarrow> sync_state \<Rightarrow> sync_state option" where
  "msg_update_file src type dst s = do {
     src \<leftarrow> src; type \<leftarrow> type; dst \<leftarrow> dst;
     src \<leftarrow> fits 256 src; type \<leftarrow> fits 16 type; dst \<leftarrow> fits 256 dst;
     let p = ss_brk s;
     let f = \<lparr>rf_name = src, rf_size = 0, rf_time = 0, rf_data = None, rf_act = 0\<rparr>;
     let rs = \<lparr>rs_cur = 0, rs_files = [f], rs_fn = RecvDown \<lparr>dw_src = src, dw_type = type, dw_dst = dst\<rparr>\<rparr>;
     Some (client_getFile src p (s\<lparr>ss_brk := p + 1, ss_sets := (ss_sets s)(p \<mapsto> rs)\<rparr>))
   }"

text \<open>The current file of the set an answer names.\<close>

definition answered :: "nat \<Rightarrow> sync_state \<Rightarrow> (nat \<times> recv_set \<times> recv_file_info) option" where
  "answered ipnum s = do {
     p \<leftarrow> recv_file_list_get ipnum s;
     rs \<leftarrow> (if p = 0 then None else ss_sets s p);
     f \<leftarrow> get_cur_file_info rs;
     Some (p, rs, f)
   }"

definition put_file :: "nat \<Rightarrow> nat \<Rightarrow> recv_file_info \<Rightarrow> sync_state \<Rightarrow> sync_state" where
  "put_file p i f s =
     (case ss_sets s p of None \<Rightarrow> s
      | Some rs \<Rightarrow> s\<lparr>ss_sets := (ss_sets s)(p \<mapsto> rs\<lparr>rs_files := (rs_files rs)[i := f]\<rparr>)\<rparr>)"

definition msg_begin :: "sync_env \<Rightarrow> nat \<Rightarrow> sync_state \<Rightarrow> sync_state option" where
  "msg_begin env ipnum s = do {
     (p, rs, f) \<leftarrow> answered ipnum s;
     Some (put_file p (rs_cur rs)
       (f\<lparr>rf_data := (if rf_size f < 0 then None else Some (se_fresh env (nat (rf_size f)))), rf_act := 0\<rparr>) s)
   }"

text \<open>\<open>memcpy\<close> into a block.\<close>

definition copy_into :: "u8 list option \<Rightarrow> nat \<Rightarrow> u8 list \<Rightarrow> u8 list option" where
  "copy_into blk at xs =
     (case blk of None \<Rightarrow> None
      | Some d \<Rightarrow> if at + length xs \<le> length d then Some (take at d @ xs @ drop (at + length xs) d) else None)"

definition msg_body :: "nat \<Rightarrow> u8 list \<Rightarrow> sync_state \<Rightarrow> sync_state option" where
  "msg_body ipnum xs s = do {
     (p, rs, f) \<leftarrow> answered ipnum s;
     (if rf_act f + int (length xs) \<le> rf_size f \<or> rf_size f = 0 then do {
        d \<leftarrow> copy_into (rf_data f) (nat (rf_act f)) xs;
        Some (put_file p (rs_cur rs) (f\<lparr>rf_data := Some d, rf_act := rf_act f + int (length xs)\<rparr>) s)
      }
      else Some s)
   }"

text \<open>The record of the file is still there after its set is freed, so the last write is one to
  memory that nothing refers to.\<close>

definition msg_over :: "sync_env \<Rightarrow> nat \<Rightarrow> sync_state \<Rightarrow> sync_state option" where
  "msg_over env ipnum s = do {
     (p, rs, f) \<leftarrow> answered ipnum s;
     (if rf_size f = rf_act f \<or> rf_size f = 0 then do {
        s \<leftarrow> fn_recv_file env (rs_fn rs) p s;
        Some (put_file p (rs_cur rs) (f\<lparr>rf_data := None\<rparr>) s)
      }
      else Some s)
   }"

fun sync_handle :: "sync_env \<Rightarrow> sync_msg \<Rightarrow> sync_state \<Rightarrow> sync_state option" where
  "sync_handle env (MsgSyncFile m) s = msg_sync_file env m s"
| "sync_handle env (MsgCompleteSync m) s = msg_complete_sync env m s"
| "sync_handle env (MsgUpdateFile src type dst) s = msg_update_file src type dst s"
| "sync_handle env (MsgBegin p) s = msg_begin env p s"
| "sync_handle env (MsgBody p xs) s = msg_body p xs s"
| "sync_handle env (MsgOver p) s = msg_over env p s"

fun sync_run :: "sync_env \<Rightarrow> sync_msg list \<Rightarrow> sync_state \<Rightarrow> sync_state option" where
  "sync_run env [] s = Some s"
| "sync_run env (m # ms) s = do { s \<leftarrow> sync_handle env m s; sync_run env ms s }"

section \<open>The host\<close>

text \<open>It answers the last request with the file, cut into packets in any way, and stops when there is
  no request. \<open>n\<close> bounds the number of answers.\<close>

definition host_answer :: "(string \<Rightarrow> u8 list list) \<Rightarrow> string \<Rightarrow> nat \<Rightarrow> sync_msg list" where
  "host_answer chunks name p = MsgBegin p # map (MsgBody p) (chunks name) @ [MsgOver p]"

fun host_run :: "sync_env \<Rightarrow> (string \<Rightarrow> u8 list list) \<Rightarrow> nat \<Rightarrow> sync_state \<Rightarrow> sync_state option" where
  "host_run env chunks 0 s = Some s"
| "host_run env chunks (Suc n) s =
     (case rev (ss_log s) of
        EvRequest name p # _ \<Rightarrow> do {
          s \<leftarrow> sync_run env (host_answer chunks name p) s;
          host_run env chunks n s
        }
      | _ \<Rightarrow> Some s)"

text \<open>What a set has to lead to: the files the box does not know, in their order.\<close>

fun sync_log :: "(string \<Rightarrow> u8 list list) \<Rightarrow> nat \<Rightarrow> nat \<Rightarrow> string \<Rightarrow> nat \<Rightarrow> file_row list \<Rightarrow> file_row list \<Rightarrow> sync_event list" where
  "sync_log chunks p tot m i rows [] = [EvFinish m, EvHome]"
| "sync_log chunks p tot m i rows (f # fs) =
     (if f \<in> set rows then sync_log chunks p tot m (i + 1) rows fs
      else [EvRequest (fst f) p, EvWrite (''./'' @ fst f) (concat (chunks (fst f)))]
        @ (if strstr (''./'' @ fst f) ''imageOrigin'' then [EvPtn (''./'' @ fst f)] else [])
        @ [EvProgress ((int i + 1) * 100 div int tot)]
        @ sync_log chunks p tot m (i + 1) (put_row f rows) fs)"

section \<open>Sets\<close>

definition new_info :: "file_row \<Rightarrow> recv_file_info" where
  "new_info f = \<lparr>rf_name = fst f, rf_size = snd (snd f), rf_time = fst (snd f), rf_data = None, rf_act = 0\<rparr>"

lemma new_info_simps [simp]:
  "rf_name (new_info f) = fst f" "rf_size (new_info f) = snd (snd f)" "rf_time (new_info f) = fst (snd f)"
  by (simp_all add: new_info_def)

text \<open>The set at \<open>p\<close> is behind \<open>pre\<close> and has \<open>post\<close> before it.\<close>

definition set_at :: "nat \<Rightarrow> recv_file_info list \<Rightarrow> recv_file_info list \<Rightarrow> sync_state \<Rightarrow> sync_state" where
  "set_at p pre post s = s\<lparr>ss_sets := (ss_sets s)(p \<mapsto> \<lparr>rs_cur = length pre, rs_files = pre @ post, rs_fn = RecvSync\<rparr>)\<rparr>"

lemma set_at_simps [simp]:
  "ss_list (set_at p pre post s) = ss_list s" "ss_db (set_at p pre post s) = ss_db s"
  "ss_log (set_at p pre post s) = ss_log s" "ss_module (set_at p pre post s) = ss_module s"
  "ss_brk (set_at p pre post s) = ss_brk s"
  "ss_sets (set_at p pre post s) = (ss_sets s)(p \<mapsto> \<lparr>rs_cur = length pre, rs_files = pre @ post, rs_fn = RecvSync\<rparr>)"
  "set_at p pre post (s\<lparr>ss_sets := x\<rparr>) = s\<lparr>ss_sets := x(p \<mapsto> \<lparr>rs_cur = length pre, rs_files = pre @ post, rs_fn = RecvSync\<rparr>)\<rparr>"
  by (simp_all add: set_at_def)

lemma log_ev_simps [simp]:
  "ss_list (log_ev e s) = ss_list s" "ss_db (log_ev e s) = ss_db s" "ss_sets (log_ev e s) = ss_sets s"
  "ss_log (log_ev e s) = ss_log s @ [e]" "ss_module (log_ev e s) = ss_module s" "ss_brk (log_ev e s) = ss_brk s"
  by (simp_all add: log_ev_def)

definition listed :: "nat \<Rightarrow> sync_state \<Rightarrow> bool" where
  "listed p s \<longleftrightarrow> p \<noteq> 0 \<and> ll_inv (ss_list s) \<and> p \<in> set (ll_view (ss_list s))"

lemma listed_simps [simp]:
  "listed p (log_ev e s) = listed p s" "listed p (set_at q pre post s) = listed p s"
  "listed p (s\<lparr>ss_db := db\<rparr>) = listed p s" "listed p (s\<lparr>ss_sets := m\<rparr>) = listed p s"
  by (simp_all add: listed_def)

lemma find_address: "0 \<notin> set xs \<Longrightarrow>
  (case List.find (searchRecvConn p) xs of None \<Rightarrow> 0 | Some x \<Rightarrow> x) = (if p \<in> set xs then p else 0)"
  by (induction xs) (auto simp: searchRecvConn_def)

lemma find_listed: "p \<noteq> 0 \<Longrightarrow> p \<in> set xs \<Longrightarrow> List.find (searchRecvConn p) xs = Some p"
  by (induction xs) (auto simp: searchRecvConn_def)

lemma find_not_listed: "p \<notin> set xs \<Longrightarrow> List.find (searchRecvConn p) xs = None"
  by (induction xs) (auto simp: searchRecvConn_def)

lemma get_listed: "listed p s \<Longrightarrow> recv_file_list_get p s = Some p"
  by (simp add: listed_def recv_file_list_get_def loop_search_ok find_listed)

lemma get_not_listed: "ll_inv (ss_list s) \<Longrightarrow> p \<notin> set (ll_view (ss_list s)) \<Longrightarrow> recv_file_list_get p s = Some 0"
  by (simp add: recv_file_list_get_def loop_search_ok find_not_listed)

lemma del_listed:
  assumes "listed p s"
  shows "\<exists>l. recv_file_list_del p s = Some (s\<lparr>ss_list := l\<rparr>) \<and> ll_inv l
    \<and> ll_view l = remove1 p (ll_view (ss_list s)) \<and> ll_size l = ll_size (ss_list s)"
  using get_listed [OF assms] loop_remove_ok [of "ss_list s" p] assms
  by (auto simp: recv_file_list_del_def recv_file_list_get_def listed_def)

lemma skip_known_ok:
  assumes "db_ok t0 db"
  shows "skip_known db \<lparr>rs_cur = length pre, rs_files = pre @ map new_info fs, rs_fn = fn\<rparr>
    = Some \<lparr>rs_cur = length (pre @ map new_info (takeWhile (\<lambda>f. f \<in> set (ld_rows db)) fs)),
        rs_files = pre @ map new_info fs, rs_fn = fn\<rparr>"
proof (induction fs arbitrary: pre)
  case Nil
  show ?case by (simp add: skip_known.simps get_cur_file_info_def)
next
  case (Cons f fs)
  have "find_file_from_local_db (fst f) (snd (snd f)) (fst (snd f)) db = Some (f \<in> set (ld_rows db))"
    using find_file_ok [OF assms, of "fst f" "snd (snd f)" "fst (snd f)"] by simp
  then show ?case
    using Cons.IH [of "pre @ [new_info f]"]
    by (subst skip_known.simps) (simp add: get_cur_file_info_def nth_append add_file_index_def)
qed

text \<open>The two outcomes of a search for the next file.\<close>

lemma sync_next_done:
  assumes db: "db_ok t0 (ss_db s)" and l: "listed p s" and all: "\<forall>f \<in> set fs. f \<in> set (ld_rows (ss_db s))"
  shows "\<exists>l. sync_next p (set_at p pre (map new_info fs) s)
      = Some (s\<lparr>ss_list := l, ss_sets := (ss_sets s)(p := None), ss_log := ss_log s @ [EvFinish (ss_module s), EvHome]\<rparr>)
    \<and> ll_inv l \<and> ll_view l = remove1 p (ll_view (ss_list s)) \<and> ll_size l = ll_size (ss_list s)"
proof -
  have all': "takeWhile (\<lambda>f. f \<in> set (ld_rows (ss_db s))) fs = fs" using all by (simp add: takeWhile_eq_all_conv)
  have "client_getFileFromSet p (set_at p pre (map new_info fs) s) = Some (-1, set_at p (pre @ map new_info fs) [] s)"
    using skip_known_ok [OF db, of pre fs RecvSync] unfolding all'
    by (simp add: client_getFileFromSet_def get_cur_file_info_def set_at_def Let_def)
  moreover obtain l where "recv_file_list_del p (set_at p (pre @ map new_info fs) [] s)
      = Some ((set_at p (pre @ map new_info fs) [] s)\<lparr>ss_list := l\<rparr>)"
    "ll_inv l" "ll_view l = remove1 p (ll_view (ss_list s))" "ll_size l = ll_size (ss_list s)"
    using del_listed [of p "set_at p (pre @ map new_info fs) [] s"] l by auto
  ultimately show ?thesis
    by (intro exI [of _ l]) (simp add: sync_next_def free_set_def client_syncFinish_def log_ev_def set_at_def)
qed

lemma sync_next_more:
  assumes db: "db_ok t0 (ss_db s)" and f: "dropWhile (\<lambda>f. f \<in> set (ld_rows (ss_db s))) fs = f # gs"
  shows "sync_next p (set_at p pre (map new_info fs) s)
    = Some (log_ev (EvRequest (fst f) p)
        (set_at p (pre @ map new_info (takeWhile (\<lambda>f. f \<in> set (ld_rows (ss_db s))) fs)) (map new_info (f # gs)) s))"
proof -
  have fs: "fs = takeWhile (\<lambda>f. f \<in> set (ld_rows (ss_db s))) fs @ f # gs" by (metis takeWhile_dropWhile_id f)
  let ?t = "takeWhile (\<lambda>f. f \<in> set (ld_rows (ss_db s))) fs"
  have files: "pre @ map new_info fs = (pre @ map new_info ?t) @ map new_info (f # gs)"
    using arg_cong [OF fs, of "map new_info"] by simp
  have sk: "skip_known (ss_db s) \<lparr>rs_cur = length pre, rs_files = pre @ map new_info fs, rs_fn = RecvSync\<rparr>
    = Some \<lparr>rs_cur = length (pre @ map new_info ?t), rs_files = (pre @ map new_info ?t) @ map new_info (f # gs), rs_fn = RecvSync\<rparr>"
    unfolding files [symmetric] by (rule skip_known_ok [OF db])
  have "client_getFileFromSet p (set_at p pre (map new_info fs) s)
    = Some (0, client_getFile (fst f) p (set_at p (pre @ map new_info ?t) (map new_info (f # gs)) s))"
    using sk by (simp add: client_getFileFromSet_def get_cur_file_info_def set_at_def nth_append Let_def)
  then show ?thesis by (simp add: sync_next_def client_getFile_def)
qed

section \<open>One file\<close>

definition part_info :: "file_row \<Rightarrow> u8 list option \<Rightarrow> nat \<Rightarrow> recv_file_info" where
  "part_info f d n = \<lparr>rf_name = fst f, rf_size = snd (snd f), rf_time = fst (snd f), rf_data = d, rf_act = int n\<rparr>"

lemma part_info_simps [simp]:
  "rf_name (part_info f d n) = fst f" "rf_size (part_info f d n) = snd (snd f)" "rf_time (part_info f d n) = fst (snd f)"
  "rf_data (part_info f d n) = d" "rf_act (part_info f d n) = int n"
  "part_info f d n\<lparr>rf_data := d', rf_act := int m\<rparr> = part_info f d' m"
  "part_info f d n\<lparr>rf_data := d'\<rparr> = part_info f d' n"
  "part_info f d n\<lparr>rf_act := int n + int m\<rparr> = part_info f d (n + m)"
  by (simp_all add: part_info_def)

lemma new_part: "new_info f = part_info f None 0"
  by (simp add: part_info_def new_info_def)

lemma put_set_at [simp]: "put_file p (length pre) f' (set_at p pre (f # post) s) = set_at p pre (f' # post) s"
  by (simp add: put_file_def set_at_def list_update_append)

lemma answered_set_at:
  "listed p s \<Longrightarrow> answered p (set_at p pre (f # post) s)
    = Some (p, \<lparr>rs_cur = length pre, rs_files = pre @ f # post, rs_fn = RecvSync\<rparr>, f)"
  using get_listed [of p "set_at p pre (f # post) s"]
  by (simp add: answered_def get_cur_file_info_def nth_append listed_def)

lemma body_ok:
  assumes l: "listed p s" and sz: "snd (snd f) = int (length d)" and room: "n + length xs \<le> length d"
  shows "msg_body p xs (set_at p pre (part_info f (Some d) n # post) s)
    = Some (set_at p pre (part_info f (Some (take n d @ xs @ drop (n + length xs) d)) (n + length xs) # post) s)"
proof -
  have c: "int n + int (length xs) \<le> int (length d)" using room by linarith
  show ?thesis using c sz room
    by (simp add: msg_body_def answered_set_at [OF l] copy_into_def)
qed

lemma bodies_ok:
  assumes l: "listed p s"
  shows "snd (snd f) = int (length d) \<Longrightarrow> n + length (concat cs) \<le> length d
    \<Longrightarrow> sync_run env (map (MsgBody p) cs @ ms) (set_at p pre (part_info f (Some d) n # post) s)
      = sync_run env ms (set_at p pre (part_info f
          (Some (take n d @ concat cs @ drop (n + length (concat cs)) d)) (n + length (concat cs)) # post) s)"
proof (induction cs arbitrary: d n)
  case (Cons x cs)
  have "n + length x \<le> length d" using Cons.prems(2) by simp
  moreover have "take (n + length x) (take n d @ x @ drop (n + length x) d) = take n d @ x"
    using Cons.prems(2) by simp
  ultimately show ?case using body_ok [OF l Cons.prems(1)] Cons.prems
    by (simp add: Cons.IH add.assoc add.commute [of "length (concat cs)"] drop_drop)
qed simp

lemma db_after_file:
  assumes "good_row f" "db_ok t0 db" "sql_works t0 (se_sql env)"
    and "fst f \<in> fst ` set (ld_rows db) \<or> length (ld_rows db) < 999"
  obtains db' where "record_file (se_sql env) (fst f) (fst (snd f)) (snd (snd f)) db = Some db'" "db_ok t0 db'"
    "ld_rows db' = put_row f (ld_rows db)"
  using record_file_ok [OF assms(2,3), of "fst f" "fst (snd f)" "snd (snd f)"] assms(1,4)
  by (auto simp: good_row_def small_row_def)

definition file_log :: "u8 list \<Rightarrow> nat \<Rightarrow> nat \<Rightarrow> file_row \<Rightarrow> sync_event list" where
  "file_log d tot i f = [EvWrite (''./'' @ fst f) d]
     @ (if strstr (''./'' @ fst f) ''imageOrigin'' then [EvPtn (''./'' @ fst f)] else [])
     @ [EvProgress ((int i + 1) * 100 div int tot)]"

lemma syncFile_ok:
  assumes l: "listed p s" and g: "good_row f" and d: "snd (snd f) = int (length d)"
    and rec: "record_file (se_sql env) (fst f) (fst (snd f)) (snd (snd f)) (ss_db s) = Some db"
  shows "client_pg_syncFile env p (set_at p pre (part_info f (Some d) n # post) s)
    = sync_next p (set_at p (pre @ [part_info f (Some d) n]) post
        (s\<lparr>ss_db := db, ss_log := ss_log s @ file_log d (length (pre @ f' # post)) (length pre) f\<rparr>))"
proof -
  have "length (''./'' @ fst f) < 256" using g by (simp add: good_row_def small_row_def)
  then show ?thesis using d rec
    by (simp add: client_pg_syncFile_def get_cur_file_info_def write_data_def add_file_index_def file_log_def
        log_ev_def set_at_def nth_append Let_def)
qed

lemma over_ok:
  assumes l: "listed p s" and g: "good_row f" and d: "snd (snd f) = int (length d)"
    and rec: "record_file (se_sql env) (fst f) (fst (snd f)) (snd (snd f)) (ss_db s) = Some db"
    and nx: "sync_next p (set_at p (pre @ [part_info f (Some d) (length d)]) post
        (s\<lparr>ss_db := db, ss_log := ss_log s @ file_log d (Suc (length pre + length post)) (length pre) f\<rparr>)) = Some s1"
  shows "msg_over env p (set_at p pre (part_info f (Some d) (length d) # post) s)
    = Some (put_file p (length pre) (part_info f None (length d)) s1)"
  using syncFile_ok [OF l g d rec, of pre "length d" post] nx d
  by (simp add: msg_over_def answered_set_at [OF l] fn_recv_file_def)

lemma answer_ok:
  assumes l: "listed p s" and g: "good_row f" and d: "snd (snd f) = int (length (concat (chunks (fst f))))"
    and fresh: "\<And>n. length (se_fresh env n) = n"
    and rec: "record_file (se_sql env) (fst f) (fst (snd f)) (snd (snd f)) (ss_db s) = Some db"
    and nx: "sync_next p (set_at p (pre @ [part_info f (Some (concat (chunks (fst f)))) (length (concat (chunks (fst f))))]) post
        (s\<lparr>ss_db := db,
           ss_log := ss_log s @ file_log (concat (chunks (fst f))) (Suc (length pre + length post)) (length pre) f\<rparr>)) = Some s1"
  shows "sync_run env (host_answer chunks (fst f) p) (set_at p pre (new_info f # post) s)
    = Some (put_file p (length pre) (part_info f None (length (concat (chunks (fst f))))) s1)"
proof -
  let ?n = "length (concat (chunks (fst f)))"
  have b: "msg_begin env p (set_at p pre (new_info f # post) s)
    = Some (set_at p pre (part_info f (Some (se_fresh env ?n)) 0 # post) s)"
    using d by (simp add: msg_begin_def answered_set_at [OF l]) (simp add: part_info_def new_info_def)
  have "sync_run env (map (MsgBody p) (chunks (fst f)) @ [MsgOver p])
      (set_at p pre (part_info f (Some (se_fresh env ?n)) 0 # post) s)
    = sync_run env [MsgOver p] (set_at p pre (part_info f (Some (concat (chunks (fst f)))) ?n # post) s)"
    using bodies_ok [OF l, of f "se_fresh env ?n" 0] d fresh by simp
  then show ?thesis
    using over_ok [OF l g d rec nx] b by (simp add: host_answer_def)
qed

section \<open>A whole set\<close>

lemma put_row_known: "distinct (map fst rows) \<Longrightarrow> f \<in> set rows \<Longrightarrow> put_row f rows = rows"
proof -
  assume d: "distinct (map fst rows)" and f: "f \<in> set rows"
  have "map (\<lambda>x. if fst x = fst f then f else x) rows = map (\<lambda>x. x) rows"
    using d f by (intro map_cong refl) (metis eq_key_imp_eq_value prod.collapse)
  then show ?thesis using f by (simp add: put_row_def)
qed

lemma fold_put_drop:
  "distinct (map fst rows) \<Longrightarrow> fold put_row (dropWhile (\<lambda>f. f \<in> set rows) fs) rows = fold put_row fs rows"
  by (induction fs) (simp_all add: put_row_known)

lemma sync_log_drop:
  "sync_log chunks p tot m (i + length (takeWhile (\<lambda>f. f \<in> set rows) fs)) rows (dropWhile (\<lambda>f. f \<in> set rows) fs)
    = sync_log chunks p tot m i rows fs"
proof (induction fs arbitrary: i)
  case (Cons f fs)
  then show ?case using Cons.IH [of "Suc i"] by simp
qed simp

lemma log_set_at: "log_ev e (set_at p pre post s) = set_at p pre post (log_ev e s)"
  by (simp add: log_ev_def set_at_def)

lemma db_set_at: "(set_at p pre post s)\<lparr>ss_db := db\<rparr> = set_at p pre post (s\<lparr>ss_db := db\<rparr>)"
  by (simp add: set_at_def)

lemma put_file_behind:
  "i < length pre \<Longrightarrow> put_file p i x (set_at p pre post s) = set_at p (pre[i := x]) post s"
  by (simp add: put_file_def set_at_def list_update_append)

definition synced :: "(string \<Rightarrow> u8 list list) \<Rightarrow> file_row list \<Rightarrow> nat \<Rightarrow> nat \<Rightarrow> nat \<Rightarrow> file_row list \<Rightarrow> sync_state \<Rightarrow> sync_state \<Rightarrow> bool" where
  "synced chunks t0 p tot i fs s s2 \<longleftrightarrow>
     ss_log s2 = ss_log s @ sync_log chunks p tot (ss_module s) i (ld_rows (ss_db s)) fs
     \<and> ld_rows (ss_db s2) = fold put_row fs (ld_rows (ss_db s)) \<and> db_ok t0 (ss_db s2)
     \<and> ll_inv (ss_list s2) \<and> ll_view (ss_list s2) = remove1 p (ll_view (ss_list s)) \<and> ll_size (ss_list s2) = ll_size (ss_list s)
     \<and> ss_sets s2 = (ss_sets s)(p := None) \<and> ss_module s2 = ss_module s \<and> ss_brk s2 = ss_brk s"

lemma host_idle: "ss_log s = xs @ [EvHome] \<Longrightarrow> host_run env chunks n s = Some s"
  by (cases n) simp_all

definition set_fits :: "(string \<Rightarrow> u8 list list) \<Rightarrow> file_row list \<Rightarrow> file_row list \<Rightarrow> bool" where
  "set_fits chunks rows fs \<longleftrightarrow>
     (\<forall>f \<in> set fs. good_row f \<and> snd (snd f) = int (length (concat (chunks (fst f)))))
     \<and> card (fst ` set rows \<union> fst ` set fs) \<le> 999"

lemma set_fits_room:
  assumes "set_fits chunks rows (f # fs)" "distinct (map fst rows)"
  shows "fst f \<in> fst ` set rows \<or> length rows < 999"
proof (rule disjCI)
  assume "\<not> length rows < 999"
  then have "999 \<le> card (fst ` set rows)" unfolding names_length [OF assms(2)] by simp
  moreover have "card (fst ` set rows \<union> fst ` set (f # fs)) \<le> 999" using assms(1) unfolding set_fits_def by blast
  ultimately have "fst ` set (f # fs) \<subseteq> fst ` set rows" by (intro full_names) simp_all
  then show "fst f \<in> fst ` set rows" by auto
qed

lemma set_fits_next:
  assumes "set_fits chunks rows (f # fs)"
  shows "set_fits chunks (put_row f rows) fs"
proof -
  have "insert (fst f) (fst ` set rows) \<union> fst ` set fs = fst ` set rows \<union> fst ` set (f # fs)" by auto
  then show ?thesis using assms unfolding set_fits_def put_row_names by simp
qed

lemma set_fits_drop:
  assumes "set_fits chunks rows fs"
  shows "set_fits chunks rows (dropWhile P fs)"
proof -
  have sub: "set (dropWhile P fs) \<subseteq> set fs" by (auto dest: set_dropWhileD)
  then have "card (fst ` set rows \<union> fst ` set (dropWhile P fs)) \<le> card (fst ` set rows \<union> fst ` set fs)"
    by (intro card_mono) auto
  moreover have "\<forall>f \<in> set (dropWhile P fs). good_row f \<and> snd (snd f) = int (length (concat (chunks (fst f))))"
    using assms sub unfolding set_fits_def by blast
  ultimately show ?thesis using assms unfolding set_fits_def by linarith
qed

lemma synced_trans:
  assumes "synced chunks t0 p tot j gs s3 s2"
    and "ss_log s3 @ sync_log chunks p tot (ss_module s3) j (ld_rows (ss_db s3)) gs
      = ss_log s @ sync_log chunks p tot (ss_module s) i (ld_rows (ss_db s)) fs"
    and "fold put_row gs (ld_rows (ss_db s3)) = fold put_row fs (ld_rows (ss_db s))"
    and "ss_list s3 = ss_list s" "ss_sets s3 = ss_sets s" "ss_module s3 = ss_module s" "ss_brk s3 = ss_brk s"
  shows "synced chunks t0 p tot i fs s s2"
  using assms by (simp add: synced_def)

lemma next_run:
  assumes db: "db_ok t0 (ss_db s)" and l: "listed p s" and i: "length pre = i"
    and more: "\<And>f gs pre'. dropWhile (\<lambda>f. f \<in> set (ld_rows (ss_db s))) fs = f # gs \<Longrightarrow> length pre' + length (f # gs) = i + length fs
      \<Longrightarrow> \<exists>s2. host_run env chunks n (log_ev (EvRequest (fst f) p) (set_at p pre' (map new_info (f # gs)) s)) = Some s2
        \<and> synced chunks t0 p tot (length pre') (f # gs) s s2"
  shows "\<exists>s1 s2. sync_next p (set_at p pre (map new_info fs) s) = Some s1
    \<and> (\<forall>x k. k < i \<longrightarrow> (\<exists>s2. host_run env chunks n (put_file p k x s1) = Some s2 \<and> synced chunks t0 p tot i fs s s2))
    \<and> host_run env chunks n s1 = Some s2 \<and> synced chunks t0 p tot i fs s s2"
proof -
  let ?t = "takeWhile (\<lambda>f. f \<in> set (ld_rows (ss_db s))) fs"
  let ?d = "dropWhile (\<lambda>f. f \<in> set (ld_rows (ss_db s))) fs"
  have dist: "distinct (map fst (ld_rows (ss_db s)))" using db unfolding db_ok_def by blast
  note drop = sync_log_drop [of chunks p tot "ss_module s" i "ld_rows (ss_db s)" fs] fold_put_drop [OF dist, of fs]
  show ?thesis
  proof (cases ?d)
    case Nil
    then have all: "\<forall>f \<in> set fs. f \<in> set (ld_rows (ss_db s))" by (simp add: dropWhile_eq_Nil_conv)
    obtain l' where s1: "sync_next p (set_at p pre (map new_info fs) s)
        = Some (s\<lparr>ss_list := l', ss_sets := (ss_sets s)(p := None), ss_log := ss_log s @ [EvFinish (ss_module s), EvHome]\<rparr>)"
      "ll_inv l'" "ll_view l' = remove1 p (ll_view (ss_list s))" "ll_size l' = ll_size (ss_list s)"
      using sync_next_done [OF db l all] by blast
    let ?s1 = "s\<lparr>ss_list := l', ss_sets := (ss_sets s)(p := None), ss_log := ss_log s @ [EvFinish (ss_module s), EvHome]\<rparr>"
    have "synced chunks t0 p tot i fs s ?s1" using s1(2-4) drop db unfolding Nil by (simp add: synced_def)
    moreover have "host_run env chunks n ?s1 = Some ?s1" by (rule host_idle [of _ "ss_log s @ [EvFinish (ss_module s)]"]) simp
    moreover have "put_file p k x ?s1 = ?s1" for k x by (simp add: put_file_def)
    ultimately show ?thesis using s1(1) by auto
  next
    case (Cons f gs)
    let ?pre = "pre @ map new_info ?t"
    have len: "length (?t @ ?d) = length fs" unfolding takeWhile_dropWhile_id ..
    have go: "\<exists>s2. host_run env chunks n (log_ev (EvRequest (fst f) p) (set_at p pre' (map new_info (f # gs)) s)) = Some s2
        \<and> synced chunks t0 p tot i fs s s2" if "length pre' = length ?pre" for pre'
    proof -
      have "length pre' + length (f # gs) = i + length fs" using that i len Cons by simp
      from more [OF Cons this] obtain s2 where s2: "host_run env chunks n
          (log_ev (EvRequest (fst f) p) (set_at p pre' (map new_info (f # gs)) s)) = Some s2"
        "synced chunks t0 p tot (length pre') (f # gs) s s2" by blast
      have "length pre' = i + length ?t" using that i by simp
      then have "synced chunks t0 p tot i fs s s2"
        using synced_trans [OF s2(2), of s i fs] drop Cons by simp
      then show ?thesis using s2(1) by blast
    qed
    have "\<exists>s2. host_run env chunks n (put_file p k x
        (log_ev (EvRequest (fst f) p) (set_at p ?pre (map new_info (f # gs)) s))) = Some s2
        \<and> synced chunks t0 p tot i fs s s2" if "k < i" for k x
      using go [of "?pre[k := x]"] that i by (simp add: log_set_at put_file_behind)
    then show ?thesis using sync_next_more [OF db Cons, of p pre] go [of ?pre] by auto
  qed
qed

lemma host_run_ok:
  assumes w: "sql_works t0 (se_sql env)" and fresh: "\<And>n. length (se_fresh env n) = n"
  shows "listed p s \<Longrightarrow> db_ok t0 (ss_db s) \<Longrightarrow> set_fits chunks (ld_rows (ss_db s)) (f # gs)
    \<Longrightarrow> f \<notin> set (ld_rows (ss_db s)) \<Longrightarrow> length pre + length (f # gs) = tot \<Longrightarrow> length (f # gs) \<le> n
    \<Longrightarrow> \<exists>s2. host_run env chunks n (log_ev (EvRequest (fst f) p) (set_at p pre (map new_info (f # gs)) s)) = Some s2
      \<and> synced chunks t0 p tot (length pre) (f # gs) s s2"
proof (induction n arbitrary: s f gs pre)
  case (Suc n)
  let ?c = "concat (chunks (fst f))"
  have dist: "distinct (map fst (ld_rows (ss_db s)))" using Suc.prems(2) unfolding db_ok_def by blast
  have f: "good_row f" "snd (snd f) = int (length ?c)" using Suc.prems(3) by (simp_all add: set_fits_def)
  obtain db where db: "record_file (se_sql env) (fst f) (fst (snd f)) (snd (snd f)) (ss_db s) = Some db" "db_ok t0 db"
    "ld_rows db = put_row f (ld_rows (ss_db s))"
    using db_after_file [OF f(1) Suc.prems(2) w set_fits_room [OF Suc.prems(3) dist]] by blast
  let ?s3 = "(log_ev (EvRequest (fst f) p) s)\<lparr>ss_db := db,
    ss_log := ss_log (log_ev (EvRequest (fst f) p) s) @ file_log ?c tot (length pre) f\<rparr>"
  let ?pre = "pre @ [part_info f (Some ?c) (length ?c)]"
  have l: "listed p (log_ev (EvRequest (fst f) p) s)" "listed p ?s3" using Suc.prems(1) by (simp_all add: listed_def)
  have fits: "set_fits chunks (ld_rows (ss_db ?s3)) gs" using set_fits_next [OF Suc.prems(3)] db(3) by simp
  have tot: "tot = Suc (length pre + length (map new_info gs))" using Suc.prems(5) by simp
  have "\<exists>s1 s2. sync_next p (set_at p ?pre (map new_info gs) ?s3) = Some s1
    \<and> (\<forall>x k. k < length ?pre \<longrightarrow> (\<exists>s2. host_run env chunks n (put_file p k x s1) = Some s2
        \<and> synced chunks t0 p tot (length ?pre) gs ?s3 s2))
    \<and> host_run env chunks n s1 = Some s2 \<and> synced chunks t0 p tot (length ?pre) gs ?s3 s2"
  proof (rule next_run)
    show "db_ok t0 (ss_db ?s3)" "listed p ?s3" using db(2) l(2) by simp_all
    fix g hs and pre' :: "recv_file_info list"
    assume g: "dropWhile (\<lambda>f. f \<in> set (ld_rows (ss_db ?s3))) gs = g # hs" "length pre' + length (g # hs) = length ?pre + length gs"
    have "g \<notin> set (ld_rows (ss_db ?s3))" using hd_dropWhile [of "\<lambda>f. f \<in> set (ld_rows (ss_db ?s3))" gs] unfolding g(1) by simp
    moreover have "length (g # hs) \<le> n"
      using arg_cong [OF g(1), of length] length_dropWhile_le [of "\<lambda>f. f \<in> set (ld_rows (ss_db ?s3))" gs] Suc.prems(6) by simp
    moreover have "set_fits chunks (ld_rows (ss_db ?s3)) (g # hs)" using set_fits_drop [OF fits] g(1) by metis
    ultimately show "\<exists>s2. host_run env chunks n (log_ev (EvRequest (fst g) p) (set_at p pre' (map new_info (g # hs)) ?s3)) = Some s2
        \<and> synced chunks t0 p tot (length pre') (g # hs) ?s3 s2"
      using Suc.IH [OF l(2), of g hs pre'] db(2) g(2) tot by simp
  qed simp
  then obtain s1 where s1: "sync_next p (set_at p ?pre (map new_info gs) ?s3) = Some s1"
    and rest: "\<exists>s2. host_run env chunks n (put_file p (length pre) x s1) = Some s2
        \<and> synced chunks t0 p tot (length ?pre) gs ?s3 s2" for x
    by auto
  obtain s2 where s2: "host_run env chunks n (put_file p (length pre) (part_info f None (length ?c)) s1) = Some s2"
    "synced chunks t0 p tot (length ?pre) gs ?s3 s2" using rest by blast
  have "sync_run env (host_answer chunks (fst f) p) (set_at p pre (new_info f # map new_info gs) (log_ev (EvRequest (fst f) p) s))
    = Some (put_file p (length pre) (part_info f None (length ?c)) s1)"
    using answer_ok [where chunks = chunks and env = env, OF l(1) f fresh] db(1) s1 unfolding tot by simp
  then have "host_run env chunks (Suc n) (log_ev (EvRequest (fst f) p) (set_at p pre (map new_info (f # gs)) s)) = Some s2"
    using s2(1) by (simp add: log_set_at)
  moreover have "synced chunks t0 p tot (length pre) (f # gs) s s2"
    by (rule synced_trans [OF s2(2)]) (use Suc.prems(4) db(3) in \<open>simp_all add: file_log_def\<close>)
  ultimately show ?case by blast
qed simp

section \<open>Messages of a sync\<close>

definition files_msg :: "string \<Rightarrow> file_row list \<Rightarrow> sync_files" where
  "files_msg m fs = \<lparr>sf_total = Some (int (length fs)), sf_module = Some m,
     sf_files = map (\<lambda>f. (Some (fst f), Some (snd (snd f)), Some (fst (snd f)))) fs\<rparr>"

definition sync_ready :: "file_row list \<Rightarrow> sync_state \<Rightarrow> bool" where
  "sync_ready t0 s \<longleftrightarrow> db_ok t0 (ss_db s) \<and> ll_inv (ss_list s) \<and> ll_used (ss_list s) < ll_cap (ss_list s) \<and> 0 < ss_brk s
     \<and> (\<forall>p \<in> set (ll_view (ss_list s)). p < ss_brk s) \<and> (\<forall>p \<ge> ss_brk s. ss_sets s p = None)"

lemma parse_files: "\<forall>f \<in> set fs. good_row f \<Longrightarrow> those (map parse_file (sf_files (files_msg m fs))) = Some (map new_info fs)"
  by (induction fs) (simp_all add: files_msg_def parse_file_def new_info_def good_row_def small_row_def)

lemma new_set_ok:
  assumes r: "sync_ready t0 s" and g: "\<forall>f \<in> set fs. good_row f" "length m < 256"
  shows "\<exists>s'. new_set (files_msg m fs) s = Some (ss_brk s, set_at (ss_brk s) [] (map new_info fs) s')
    \<and> listed (ss_brk s) s' \<and> ll_view (ss_list s') = ll_view (ss_list s) @ [ss_brk s] \<and> ll_size (ss_list s') = ll_size (ss_list s)
    \<and> ss_db s' = ss_db s \<and> ss_sets s' = ss_sets s \<and> ss_brk s' = ss_brk s + 1 \<and> ss_module s' = m \<and> ss_log s' = ss_log s"
proof -
  have inv: "ll_inv (ss_list s)" "ll_used (ss_list s) \<noteq> ll_cap (ss_list s)" "ss_brk s \<noteq> 0"
    using r by (simp_all add: sync_ready_def)
  note push = loop_push_to_tail_ok [OF inv(1), of "ss_brk s"]
  let ?s' = "s\<lparr>ss_module := m, ss_brk := ss_brk s + 1, ss_list := loop_push_to_tail (ss_list s) (ss_brk s)\<rparr>"
  have "new_set (files_msg m fs) s = Some (ss_brk s, set_at (ss_brk s) [] (map new_info fs) ?s')"
    using parse_files [OF g(1), of m] g(2)
    by (simp add: new_set_def files_msg_def set_cur_module_name_def recv_file_list_insert_def set_at_def Let_def)
  then show ?thesis using push inv by (intro exI [of _ ?s']) (simp add: listed_def)
qed

lemma set_run:
  assumes w: "sql_works t0 (se_sql env)" and fresh: "\<And>n. length (se_fresh env n) = n"
    and db: "db_ok t0 (ss_db s)" and l: "listed p s" and fits: "set_fits chunks (ld_rows (ss_db s)) fs"
  shows "\<exists>s1 s2. sync_next p (set_at p [] (map new_info fs) s) = Some s1
    \<and> host_run env chunks (length fs) s1 = Some s2 \<and> synced chunks t0 p (length fs) 0 fs s s2"
proof -
  have "\<exists>s2. host_run env chunks (length fs) (log_ev (EvRequest (fst f) p) (set_at p pre' (map new_info (f # gs)) s)) = Some s2
      \<and> synced chunks t0 p (length fs) (length pre') (f # gs) s s2"
    if f: "dropWhile (\<lambda>f. f \<in> set (ld_rows (ss_db s))) fs = f # gs" "length pre' + length (f # gs) = 0 + length fs" for f gs pre'
  proof (rule host_run_ok [OF w fresh l db])
    show "set_fits chunks (ld_rows (ss_db s)) (f # gs)" using set_fits_drop [OF fits] f(1) by metis
    show "f \<notin> set (ld_rows (ss_db s))"
      using hd_dropWhile [of "\<lambda>f. f \<in> set (ld_rows (ss_db s))" fs] unfolding f(1) by simp
  qed (use f(2) in simp_all)
  from next_run [OF db l _ this, of "[]"] show ?thesis by auto
qed

lemma synced_ready:
  assumes "sync_ready t0 s" "synced chunks t0 (ss_brk s) tot 0 fs s' s2"
    and "ll_view (ss_list s') = ll_view (ss_list s) @ [ss_brk s]" "ll_size (ss_list s') = ll_size (ss_list s)"
    and "ss_sets s' = ss_sets s" "ss_brk s' = ss_brk s + 1"
  shows "sync_ready t0 s2 \<and> ll_view (ss_list s2) = ll_view (ss_list s) \<and> ss_sets s2 = ss_sets s"
proof -
  have new: "ss_brk s \<notin> set (ll_view (ss_list s))" "ss_sets s (ss_brk s) = None" using assms(1) by (auto simp: sync_ready_def)
  then have v: "ll_view (ss_list s2) = ll_view (ss_list s)" "ss_sets s2 = ss_sets s"
    using assms(2,3,5) by (auto simp: synced_def remove1_append)
  have "ll_used (ss_list s2) = ll_used (ss_list s)" using arg_cong [OF v(1), of length] by simp
  then have "sync_ready t0 s2" using assms v by (auto simp: sync_ready_def synced_def ll_cap_def)
  then show ?thesis using v by blast
qed

lemma sync_message_run:
  assumes "sql_works t0 (se_sql env)" "\<And>n. length (se_fresh env n) = n" "sync_ready t0 s"
    and "set_fits chunks (ld_rows (ss_db s)) fs" "length m < 256"
  shows "\<exists>s1 s2. sync_handle env (MsgSyncFile (files_msg m fs)) s = Some s1
    \<and> host_run env chunks (length fs) s1 = Some s2
    \<and> ss_log s2 = ss_log s @ (if se_power env then [EvPowerOff] else [])
        @ sync_log chunks (ss_brk s) (length fs) m 0 (ld_rows (ss_db s)) fs
    \<and> ld_rows (ss_db s2) = fold put_row fs (ld_rows (ss_db s))
    \<and> ll_view (ss_list s2) = ll_view (ss_list s) \<and> ss_sets s2 = ss_sets s \<and> sync_ready t0 s2"
proof -
  let ?s = "if se_power env then log_ev EvPowerOff s else s"
  have r: "sync_ready t0 ?s" and eq: "ss_brk ?s = ss_brk s" "ss_db ?s = ss_db s" "ss_list ?s = ss_list s" "ss_sets ?s = ss_sets s"
    "ss_log ?s = ss_log s @ (if se_power env then [EvPowerOff] else [])"
    using assms(3) by (simp_all add: sync_ready_def)
  have good: "\<forall>f \<in> set fs. good_row f" using assms(4) by (simp add: set_fits_def)
  obtain s' where s': "new_set (files_msg m fs) ?s = Some (ss_brk s, set_at (ss_brk s) [] (map new_info fs) s')"
    "listed (ss_brk s) s'" "ll_view (ss_list s') = ll_view (ss_list ?s) @ [ss_brk ?s]" "ll_size (ss_list s') = ll_size (ss_list ?s)"
    "ss_db s' = ss_db s" "ss_sets s' = ss_sets ?s" "ss_brk s' = ss_brk ?s + 1" "ss_module s' = m" "ss_log s' = ss_log ?s"
    using new_set_ok [OF r good assms(5)] unfolding eq by blast
  have "db_ok t0 (ss_db s')" "set_fits chunks (ld_rows (ss_db s')) fs"
    using assms(3,4) s'(5) by (simp_all add: sync_ready_def)
  from set_run [OF assms(1,2) this(1) s'(2) this(2)] obtain s1 s2 where run: "sync_next (ss_brk s) (set_at (ss_brk s) [] (map new_info fs) s') = Some s1"
    "host_run env chunks (length fs) s1 = Some s2" "synced chunks t0 (ss_brk s) (length fs) 0 fs s' s2" by blast
  have "sync_handle env (MsgSyncFile (files_msg m fs)) s = Some s1"
    using s'(1) run(1) by (simp add: msg_sync_file_def)
  moreover have "sync_ready t0 s2 \<and> ll_view (ss_list s2) = ll_view (ss_list s) \<and> ss_sets s2 = ss_sets s"
    using synced_ready [OF r, of chunks "length fs" fs s' s2] run(3) s'(3,4,6,7) unfolding eq by blast
  moreover have "ss_log s2 = ss_log s @ (if se_power env then [EvPowerOff] else [])
        @ sync_log chunks (ss_brk s) (length fs) m 0 (ld_rows (ss_db s)) fs"
    "ld_rows (ss_db s2) = fold put_row fs (ld_rows (ss_db s))"
    using run(3) s'(5,8,9) eq(5) by (simp_all add: synced_def)
  ultimately show ?thesis using run(2) by blast
qed

lemma known_message_run:
  assumes "sync_ready t0 s" "\<forall>f \<in> set fs. good_row f" "\<forall>f \<in> set fs. f \<in> set (ld_rows (ss_db s))" "length m < 256"
  shows "\<exists>s'. sync_handle env (MsgSyncFile (files_msg m fs)) s = Some s'
    \<and> ss_log s' = ss_log s @ (if se_power env then [EvPowerOff] else []) @ [EvFinish m, EvHome]"
proof -
  let ?s = "if se_power env then log_ev EvPowerOff s else s"
  have r: "sync_ready t0 ?s" and eq: "ss_brk ?s = ss_brk s" "ss_db ?s = ss_db s"
    "ss_log ?s = ss_log s @ (if se_power env then [EvPowerOff] else [])"
    using assms(1) by (simp_all add: sync_ready_def)
  obtain s1 where s1: "new_set (files_msg m fs) ?s = Some (ss_brk s, set_at (ss_brk s) [] (map new_info fs) s1)"
    "listed (ss_brk s) s1" "ss_db s1 = ss_db s" "ss_module s1 = m" "ss_log s1 = ss_log ?s"
    using new_set_ok [OF r assms(2,4)] unfolding eq by blast
  have db: "db_ok t0 (ss_db s1)" "\<forall>f \<in> set fs. f \<in> set (ld_rows (ss_db s1))" using assms(1,3) s1(3) by (simp_all add: sync_ready_def)
  obtain s2 where "sync_next (ss_brk s) (set_at (ss_brk s) [] (map new_info fs) s1) = Some s2"
    "ss_log s2 = ss_log s1 @ [EvFinish (ss_module s1), EvHome]"
    using sync_next_done [OF db(1) s1(2) db(2), of "[]"] by auto
  then show ?thesis using s1(1,4,5) eq(3) by (simp add: msg_sync_file_def)
qed

lemma sync_log_all_known:
  "\<forall>f \<in> set fs. f \<in> set rows \<Longrightarrow> sync_log chunks p tot m i rows fs = [EvFinish m, EvHome]"
  by (induction fs arbitrary: i) simp_all

lemma fold_put_keeps: "f \<in> set rows \<Longrightarrow> fst f \<notin> fst ` set fs \<Longrightarrow> f \<in> set (fold put_row fs rows)"
proof (induction fs arbitrary: rows)
  case (Cons g fs)
  then have "f \<in> set (put_row g rows)" by (auto simp: put_row_def image_iff)
  then show ?case using Cons.IH Cons.prems(2) by simp
qed simp

lemma fold_put_knows: "distinct (map fst fs) \<Longrightarrow> f \<in> set fs \<Longrightarrow> f \<in> set (fold put_row fs rows)"
proof (induction fs arbitrary: rows)
  case (Cons g fs)
  show ?case
  proof (cases "f = g")
    case True
    then show ?thesis using Cons.prems(1) put_row_in [of g rows] by (simp add: fold_put_keeps)
  qed (use Cons in simp)
qed simp

lemma fold_put_names: "fst ` set (fold put_row fs rows) = fst ` set rows \<union> fst ` set fs"
  by (induction fs arbitrary: rows) (simp_all add: put_row_names)

text \<open>
  C28: A sync message to which the host answers every request, with the files cut into packets
  in any way, ends: exactly the files the box does not know are asked for, in order, each is
  written with its content, the progress is reported after each, the module is loaded once at
  the end, the data base knows every file, and the list of outstanding sets is as before.
\<close>

theorem sync_fetches_what_is_unknown:
  assumes "sql_works t0 (se_sql env)" "\<And>n. length (se_fresh env n) = n" "sync_ready t0 s"
    and "set_fits chunks (ld_rows (ss_db s)) fs" "length m < 256"
  shows "\<exists>s1 s2. sync_handle env (MsgSyncFile (files_msg m fs)) s = Some s1
    \<and> host_run env chunks (length fs) s1 = Some s2
    \<and> ss_log s2 = ss_log s @ (if se_power env then [EvPowerOff] else [])
        @ sync_log chunks (ss_brk s) (length fs) m 0 (ld_rows (ss_db s)) fs
    \<and> ld_rows (ss_db s2) = fold put_row fs (ld_rows (ss_db s))
    \<and> ll_view (ss_list s2) = ll_view (ss_list s) \<and> ss_sets s2 = ss_sets s \<and> sync_ready t0 s2"
  by (rule sync_message_run [OF assms])

definition demo_env :: "file_row list \<Rightarrow> sync_env" where
  "demo_env t0 = \<lparr>se_sql = sql_demo t0, se_fresh = (\<lambda>n. replicate n 0), se_power = True\<rparr>"

definition demo_db :: local_db where
  "demo_db = \<lparr>ld_loop = \<lparr>ll_size = MAX_FILES_NUM, ll_head = 0, ll_tail = 0, ll_items = replicate 1000 0, ll_del = True, ll_deleted = []\<rparr>,
     ld_cur = 0, ld_recs = Map.empty, ld_brk = 1, ld_sql = []\<rparr>"

definition demo_state :: sync_state where
  "demo_state = \<lparr>ss_list = \<lparr>ll_size = 10, ll_head = 0, ll_tail = 0, ll_items = replicate 10 0, ll_del = False, ll_deleted = []\<rparr>,
     ss_sets = Map.empty, ss_brk = 1, ss_db = demo_db, ss_module = [], ss_log = []\<rparr>"

lemma demo_rows: "ld_rows demo_db = []"
  by (simp add: demo_db_def ld_rows_def ld_view_def ll_view_def ll_used_def)

lemma demo_ready: "sync_ready [] demo_state"
  by (simp add: sync_ready_def demo_state_def demo_db_def db_ok_def list_ok_def ld_rows_def ld_view_def ll_inv_def
      ll_view_def ll_used_def ll_cap_def MAX_FILES_NUM_def)

lemma demo_fits: "set_fits (\<lambda>n. if n = ''imageOrigin/a'' then [[1, 2], [3]] else []) []
    [(''imageOrigin/a'', 7, 3), (''b'', 8, 0)]"
  by (simp add: set_fits_def good_row_def small_row_def int32_def plain_def)

theorem sync_fetches_what_is_unknown_witness:
  "\<exists>s1 s2. sync_handle (demo_env []) (MsgSyncFile (files_msg ''m'' [(''imageOrigin/a'', 7, 3), (''b'', 8, 0)])) demo_state = Some s1
    \<and> host_run (demo_env []) (\<lambda>n. if n = ''imageOrigin/a'' then [[1, 2], [3]] else []) 2 s1 = Some s2
    \<and> ss_log s2 = [EvPowerOff,
        EvRequest ''imageOrigin/a'' 1, EvWrite ''./imageOrigin/a'' [1, 2, 3], EvPtn ''./imageOrigin/a'', EvProgress 50,
        EvRequest ''b'' 1, EvWrite ''./b'' [], EvProgress 100,
        EvFinish ''m'', EvHome]"
proof -
  let ?c = "\<lambda>n. if n = ''imageOrigin/a'' then [[1, 2], [3]] else []" and ?fs = "[(''imageOrigin/a'', 7, 3), (''b'', 8, 0)]"
  have env: "sql_works [] (se_sql (demo_env []))" "\<And>n. length (se_fresh (demo_env []) n) = n" "se_power (demo_env [])"
    using sql_demo_works [of "[]"] by (simp_all add: demo_env_def)
  have st: "ss_log demo_state = []" "ss_brk demo_state = 1" "ld_rows (ss_db demo_state) = []"
    by (simp_all add: demo_state_def demo_rows)
  have log: "sync_log ?c 1 2 ''m'' 0 [] ?fs = [EvRequest ''imageOrigin/a'' 1, EvWrite ''./imageOrigin/a'' [1, 2, 3],
        EvPtn ''./imageOrigin/a'', EvProgress 50, EvRequest ''b'' 1, EvWrite ''./b'' [], EvProgress 100, EvFinish ''m'', EvHome]"
    by (simp add: put_row_def)
  have "set_fits ?c (ld_rows (ss_db demo_state)) ?fs" "length ''m'' < 256" using demo_fits st(3) by simp_all
  from sync_fetches_what_is_unknown [OF env(1,2) demo_ready this] obtain s1 s2 where
    "sync_handle (demo_env []) (MsgSyncFile (files_msg ''m'' ?fs)) demo_state = Some s1"
    "host_run (demo_env []) ?c (length ?fs) s1 = Some s2"
    "ss_log s2 = [EvPowerOff] @ sync_log ?c 1 (length ?fs) ''m'' 0 [] ?fs"
    using env(3) st by auto
  moreover have "length ?fs = 2" by simp
  ultimately show ?thesis using log by (metis append_Cons append_Nil)
qed

text \<open>
  When a sync has ended, the same message again asks for no file and reports the end of the
  sync at once.
\<close>

theorem second_sync_asks_for_nothing:
  assumes "sql_works t0 (se_sql env)" "\<And>n. length (se_fresh env n) = n" "sync_ready t0 s"
    and "set_fits chunks (ld_rows (ss_db s)) fs" "length m < 256" "distinct (map fst fs)"
  shows "\<exists>s1 s2 s3. sync_handle env (MsgSyncFile (files_msg m fs)) s = Some s1
    \<and> host_run env chunks (length fs) s1 = Some s2
    \<and> sync_handle env (MsgSyncFile (files_msg m fs)) s2 = Some s3
    \<and> ss_log s3 = ss_log s2 @ (if se_power env then [EvPowerOff] else []) @ [EvFinish m, EvHome]"
proof -
  obtain s1 s2 where 1: "sync_handle env (MsgSyncFile (files_msg m fs)) s = Some s1"
    "host_run env chunks (length fs) s1 = Some s2"
    "ld_rows (ss_db s2) = fold put_row fs (ld_rows (ss_db s))" "sync_ready t0 s2"
    using sync_message_run [OF assms(1-5)] by blast
  have good: "\<forall>f \<in> set fs. good_row f" using assms(4) unfolding set_fits_def by blast
  have all: "\<forall>f \<in> set fs. f \<in> set (ld_rows (ss_db s2))"
    unfolding 1(3) using fold_put_knows [OF assms(6)] by blast
  obtain s3 where "sync_handle env (MsgSyncFile (files_msg m fs)) s2 = Some s3"
    "ss_log s3 = ss_log s2 @ (if se_power env then [EvPowerOff] else []) @ [EvFinish m, EvHome]"
    using known_message_run [OF 1(4) good all assms(5), where env = env] by blast
  then show ?thesis using 1(1,2) by blast
qed

theorem second_sync_asks_for_nothing_witness:
  "\<exists>s1 s2 s3. sync_handle (demo_env []) (MsgSyncFile (files_msg ''m'' [(''imageOrigin/a'', 7, 3), (''b'', 8, 0)])) demo_state = Some s1
    \<and> host_run (demo_env []) (\<lambda>n. if n = ''imageOrigin/a'' then [[1, 2], [3]] else []) (length [(''imageOrigin/a'', 7 :: int, 3 :: int), (''b'', 8, 0)]) s1 = Some s2
    \<and> sync_handle (demo_env []) (MsgSyncFile (files_msg ''m'' [(''imageOrigin/a'', 7, 3), (''b'', 8, 0)])) s2 = Some s3
    \<and> ss_log s3 = ss_log s2 @ (if se_power (demo_env []) then [EvPowerOff] else []) @ [EvFinish ''m'', EvHome]"
proof (rule second_sync_asks_for_nothing)
  show "sql_works [] (se_sql (demo_env []))" "\<And>n. length (se_fresh (demo_env []) n) = n"
    using sql_demo_works [of "[]"] by (simp_all add: demo_env_def)
  show "set_fits (\<lambda>n. if n = ''imageOrigin/a'' then [[1, 2], [3]] else []) (ld_rows (ss_db demo_state))
    [(''imageOrigin/a'', 7, 3), (''b'', 8, 0)]" using demo_fits by (simp add: demo_state_def demo_rows)
qed (simp_all add: demo_ready)

text \<open>A complete sync forgets every file first, so it fetches all of the set.\<close>

text \<open>
  A complete sync removes the configuration and the data base of files and then fetches every
  file of the message, whatever the box knew before.
\<close>

theorem complete_sync_fetches_all:
  assumes "sql_works t0 (se_sql env)" "\<And>n. length (se_fresh env n) = n" "sync_ready t0 s"
    and "set_fits chunks [] fs" "length m < 256"
  shows "\<exists>s1 s2. sync_handle env (MsgCompleteSync (files_msg m fs)) s = Some s1
    \<and> host_run env chunks (length fs) s1 = Some s2
    \<and> ss_log s2 = ss_log s @ [EvRemoveCfg] @ sync_log chunks (ss_brk s) (length fs) m 0 [] fs
    \<and> ld_rows (ss_db s2) = fold put_row fs [] \<and> sync_ready t0 s2"
proof -
  have good: "\<forall>f \<in> set fs. good_row f" using assms(4) by (simp add: set_fits_def)
  obtain s' where s': "new_set (files_msg m fs) s = Some (ss_brk s, set_at (ss_brk s) [] (map new_info fs) s')"
    "listed (ss_brk s) s'" "ll_view (ss_list s') = ll_view (ss_list s) @ [ss_brk s]" "ll_size (ss_list s') = ll_size (ss_list s)"
    "ss_db s' = ss_db s" "ss_sets s' = ss_sets s" "ss_brk s' = ss_brk s + 1" "ss_module s' = m" "ss_log s' = ss_log s"
    using new_set_ok [OF assms(3) good assms(5)] by blast
  have "db_ok t0 (ss_db s)" using assms(3) by (simp add: sync_ready_def)
  from delall_ok [OF this assms(1)] obtain db where db: "localDBDelAll (se_sql env) (ss_db s) = Some (0, db)"
    "db_ok t0 db" "ld_rows db = []" by blast
  let ?s = "(log_ev EvRemoveCfg s')\<lparr>ss_db := db\<rparr>"
  have "db_ok t0 (ss_db ?s)" "listed (ss_brk s) ?s" "set_fits chunks (ld_rows (ss_db ?s)) fs"
    using db s'(2) assms(4) by simp_all
  from set_run [OF assms(1,2) this] obtain s1 s2 where run: "sync_next (ss_brk s) (set_at (ss_brk s) [] (map new_info fs) ?s) = Some s1"
    "host_run env chunks (length fs) s1 = Some s2" "synced chunks t0 (ss_brk s) (length fs) 0 fs ?s s2" by blast
  have "sync_handle env (MsgCompleteSync (files_msg m fs)) s = Some s1"
    using s'(1,5) run(1) db(1) by (simp add: msg_complete_sync_def Let_def log_set_at db_set_at)
  moreover have "sync_ready t0 s2" using synced_ready [OF assms(3) run(3)] s'(3,4,6,7) by simp
  ultimately show ?thesis using run(2,3) s'(8,9) db(3) by (auto simp: synced_def)
qed

theorem complete_sync_fetches_all_witness:
  "\<exists>s1 s2. sync_handle (demo_env []) (MsgCompleteSync (files_msg ''m'' [(''imageOrigin/a'', 7, 3), (''b'', 8, 0)])) demo_state = Some s1
    \<and> host_run (demo_env []) (\<lambda>n. if n = ''imageOrigin/a'' then [[1, 2], [3]] else []) (length [(''imageOrigin/a'', 7 :: int, 3 :: int), (''b'', 8, 0)]) s1 = Some s2
    \<and> ld_rows (ss_db s2) = [(''imageOrigin/a'', 7, 3), (''b'', 8, 0)]"
proof -
  have env: "sql_works [] (se_sql (demo_env []))" "\<And>n. length (se_fresh (demo_env []) n) = n"
    using sql_demo_works [of "[]"] by (simp_all add: demo_env_def)
  have "fold put_row [(''imageOrigin/a'', 7, 3), (''b'', 8, 0)] [] = [(''imageOrigin/a'', 7, 3), (''b'', 8, 0)]"
    by (simp add: put_row_def)
  moreover have "length ''m'' < 256" by simp
  ultimately show ?thesis using complete_sync_fetches_all [OF env demo_ready demo_fits, of "''m''"] by metis
qed

section \<open>What goes wrong\<close>

text \<open>The answer to the request of an update is an access through \<open>NULL\<close>; a file of another length
  than announced changes nothing, so no further file is asked for; a file announced with length 0
  overruns its block with the first byte.\<close>

text \<open>
  The answer to the request of an update message is an access through NULL; the end or a
  packet of a file of another length than announced changes nothing, so that no further file
  is asked for; and a file announced with size 0 overruns its block with the first byte.
\<close>

theorem sync_errors:
  assumes "sync_ready t0 s" "length src < 256" "length typ < 16" "length dst < 256"
    and "listed p s'" "snd (snd f) = int (length d)" "snd (snd f0) = 0" "xs \<noteq> []"
  shows "(\<exists>s1. sync_handle env (MsgUpdateFile (Some src) (Some typ) (Some dst)) s = Some s1
      \<and> ss_log s1 = ss_log s @ [EvRequest src (ss_brk s)] \<and> sync_handle env (MsgBegin (ss_brk s)) s1 = None)
    \<and> (0 < snd (snd f) \<and> n \<noteq> length d
      \<longrightarrow> sync_handle env (MsgOver p) (set_at p pre (part_info f (Some d) n # post) s')
        = Some (set_at p pre (part_info f (Some d) n # post) s'))
    \<and> (length d < n + length ys \<longrightarrow> 0 < snd (snd f)
      \<longrightarrow> sync_handle env (MsgBody p ys) (set_at p pre (part_info f (Some d) n # post) s')
        = Some (set_at p pre (part_info f (Some d) n # post) s'))
    \<and> sync_handle env (MsgBody p xs) (set_at p pre (part_info f0 (Some []) 0 # post) s') = None"
proof -
  have inv: "ll_inv (ss_list s)" "ss_brk s \<notin> set (ll_view (ss_list s))" using assms(1) by (auto simp: sync_ready_def)
  have "\<exists>s1. sync_handle env (MsgUpdateFile (Some src) (Some typ) (Some dst)) s = Some s1
      \<and> ss_log s1 = ss_log s @ [EvRequest src (ss_brk s)] \<and> ss_list s1 = ss_list s"
    using assms(2-4) by (simp add: msg_update_file_def client_getFile_def Let_def)
  moreover have "sync_handle env (MsgBegin (ss_brk s)) s1 = None" if "ss_list s1 = ss_list s" for s1
    using get_not_listed [of s1 "ss_brk s"] inv that by (simp add: msg_begin_def answered_def)
  ultimately have "\<exists>s1. sync_handle env (MsgUpdateFile (Some src) (Some typ) (Some dst)) s = Some s1
      \<and> ss_log s1 = ss_log s @ [EvRequest src (ss_brk s)] \<and> sync_handle env (MsgBegin (ss_brk s)) s1 = None" by blast
  then show ?thesis using assms(6-8)
    by (simp add: msg_over_def msg_body_def answered_set_at [OF assms(5)] copy_into_def)
qed

theorem sync_errors_witness:
  "sync_handle (demo_env []) (MsgBody 1 [5]) (set_at 1 [] (part_info (''a'', 0, 0) (Some []) 0 # [])
      (recv_file_list_insert 1 demo_state)) = None"
proof -
  have "listed 1 (recv_file_list_insert 1 demo_state)"
    using loop_push_to_tail_ok [of "ss_list demo_state" 1] demo_ready
    by (simp add: listed_def recv_file_list_insert_def sync_ready_def)
  from sync_errors [OF demo_ready _ _ _ this, of "''s''" "''t''" "''d''" "(''b'', 0, 0)" "[]" "(''a'', 0, 0)" "[5]"]
  show ?thesis by simp
qed

end
