(* ===== verification/Upgrades.thy ===== *)
theory Upgrades
  imports PowerSupply CStrings "HOL-Library.Monad_Syntax"
begin

text \<open>
  The upgrade messages of \<open>clirecvcmd5srv.c\<close>: \<open>SERVER2CLI_MSG_FIRMWAREUPDATA\<close>, \<open>BOXUPDATA\<close> and
  \<open>POWERUPDATA\<close>. Each collects an image in a block of the size the host announces and then unpacks
  it into files, hands it to the task of the control box, or sends it to the power board. \<open>fresh\<close> is
  the content of a block from \<open>malloc\<close>; \<open>None\<close> is an access outside a block.
\<close>

section \<open>Collecting an image\<close>

record upd_buf =
  ub_block :: "u8 list option"
  ub_pos :: nat

definition no_buf :: upd_buf where "no_buf = \<lparr>ub_block = None, ub_pos = 0\<rparr>"

definition upd_begin :: "(nat \<Rightarrow> u8 list) \<Rightarrow> int \<Rightarrow> upd_buf" where
  "upd_begin fresh n = \<lparr>ub_block = (if n < 0 then None else Some (fresh (nat n))), ub_pos = 0\<rparr>"

text \<open>There is no test against the size that was announced.\<close>

definition upd_body :: "u8 list \<Rightarrow> upd_buf \<Rightarrow> upd_buf option" where
  "upd_body xs b =
     (case ub_block b of None \<Rightarrow> Some b
      | Some blk \<Rightarrow>
          if ub_pos b + length xs \<le> length blk
          then Some \<lparr>ub_block = Some (blit blk (ub_pos b) xs), ub_pos = ub_pos b + length xs\<rparr>
          else None)"

section \<open>The files of a firmware image\<close>

definition byte_char :: "u8 \<Rightarrow> char" where "byte_char b = char_of (unat b)"
definition char_byte :: "char \<Rightarrow> u8" where "char_byte c = word_of_nat (of_char c)"

definition c_str_at :: "u8 list \<Rightarrow> nat \<Rightarrow> string option" where
  "c_str_at blk off =
     (let s = takeWhile (\<lambda>b. b \<noteq> 0) (drop off blk)
      in if off + length s < length blk then Some (map byte_char s) else None)"

definition sizeof_SUpdataFileList :: nat where "sizeof_SUpdataFileList = 264"

definition firmware_path :: "string \<Rightarrow> string" where "firmware_path name = ''/home/updata/'' @ name"

text \<open>The file at an offset: its name, its data, and whether another one follows.\<close>

definition unpack_file :: "u8 list \<Rightarrow> nat \<Rightarrow> (string \<times> u8 list \<times> bool) option" where
  "unpack_file blk off =
     (if off + sizeof_SUpdataFileList \<le> length blk then do {
        name \<leftarrow> c_str_at blk off;
        name \<leftarrow> fits 256 name;
        let filesize = sint (rd32 blk (off + 256));
        data \<leftarrow> (if filesize < 0 then None else mem_read blk (off + sizeof_SUpdataFileList) (nat filesize));
        _ \<leftarrow> fits 256 (firmware_path name);
        Some (name, data, rd32 blk (off + 260) = 1)
      }
      else None)"

function unpack_files :: "u8 list \<Rightarrow> nat \<Rightarrow> (string \<times> u8 list) list option" where
  "unpack_files blk off =
     (case unpack_file blk off of None \<Rightarrow> None
      | Some (name, data, hasnext) \<Rightarrow>
          if hasnext then map_option (\<lambda>fs. (name, data) # fs) (unpack_files blk (off + (length data + sizeof_SUpdataFileList)))
          else Some [(name, data)])"
  by pat_completeness auto
termination
  by (relation "measure (\<lambda>(blk, off). length blk - off)")
    (auto simp: unpack_file_def sizeof_SUpdataFileList_def split: if_splits)

declare unpack_files.simps [simp del]

section \<open>Messages\<close>

datatype upd_event =
    UpWrite string "u8 list"
  | UpScript string
  | UpBox "u8 list"
  | UpPower "u8 list list"
  | UpReport int int

record upd_state =
  us_fw :: upd_buf
  us_box :: upd_buf
  us_power :: upd_buf
  us_log :: "upd_event list"

definition firmware_begin :: "(nat \<Rightarrow> u8 list) \<Rightarrow> int option \<Rightarrow> upd_state \<Rightarrow> upd_state option" where
  "firmware_begin fresh fileSize s = do { n \<leftarrow> fileSize; Some (s\<lparr>us_fw := upd_begin fresh n\<rparr>) }"

definition firmware_body :: "u8 list \<Rightarrow> upd_state \<Rightarrow> upd_state option" where
  "firmware_body xs s = do { b \<leftarrow> upd_body xs (us_fw s); Some (s\<lparr>us_fw := b\<rparr>) }"

text \<open>The script is given the name of the last file.\<close>

definition firmware_over :: "upd_state \<Rightarrow> upd_state option" where
  "firmware_over s =
     (case ub_block (us_fw s) of None \<Rightarrow> Some s
      | Some blk \<Rightarrow> do {
          files \<leftarrow> unpack_files blk 0;
          cmd \<leftarrow> fits 1024 (''/home/updatafirmware.sh '' @ fst (last files));
          Some (s\<lparr>us_fw := no_buf,
                 us_log := us_log s @ map (\<lambda>(name, data). UpWrite (firmware_path name) data) files
                   @ [UpReport 0 0, UpScript cmd]\<rparr>)
        })"

definition box_begin :: "(nat \<Rightarrow> u8 list) \<Rightarrow> int option \<Rightarrow> upd_state \<Rightarrow> upd_state option" where
  "box_begin fresh fileSize s = do { n \<leftarrow> fileSize; Some (s\<lparr>us_box := upd_begin fresh n\<rparr>) }"

definition box_body :: "u8 list \<Rightarrow> upd_state \<Rightarrow> upd_state option" where
  "box_body xs s = do { b \<leftarrow> upd_body xs (us_box s); Some (s\<lparr>us_box := b\<rparr>) }"

definition box_over :: "upd_state \<Rightarrow> upd_state option" where
  "box_over s =
     (case ub_block (us_box s) of None \<Rightarrow> Some s
      | Some blk \<Rightarrow> Some (s\<lparr>us_box := no_buf, us_log := us_log s @ [UpBox blk, UpReport 1 0]\<rparr>))"

definition power_begin :: "(nat \<Rightarrow> u8 list) \<Rightarrow> int option \<Rightarrow> upd_state \<Rightarrow> upd_state option" where
  "power_begin fresh fileSize s = do { n \<leftarrow> fileSize; Some (s\<lparr>us_power := upd_begin fresh n\<rparr>) }"

definition power_body :: "u8 list \<Rightarrow> upd_state \<Rightarrow> upd_state option" where
  "power_body xs s = do { b \<leftarrow> upd_body xs (us_power s); Some (s\<lparr>us_power := b\<rparr>) }"

definition power_over :: "upd_state \<Rightarrow> upd_state option" where
  "power_over s =
     (case ub_block (us_power s) of None \<Rightarrow> Some s
      | Some blk \<Rightarrow> Some (s\<lparr>us_power := no_buf, us_log := us_log s @ [UpPower (pwrUpgrade blk), UpReport 2 0]\<rparr>))"

datatype upd_dev = DevFirmware | DevBox | DevPower
datatype upd_msg = UpdBegin upd_dev "int option" | UpdBody upd_dev "u8 list" | UpdOver upd_dev

fun upd_handle :: "(nat \<Rightarrow> u8 list) \<Rightarrow> upd_msg \<Rightarrow> upd_state \<Rightarrow> upd_state option" where
  "upd_handle fresh (UpdBegin DevFirmware n) s = firmware_begin fresh n s"
| "upd_handle fresh (UpdBody DevFirmware xs) s = firmware_body xs s"
| "upd_handle fresh (UpdOver DevFirmware) s = firmware_over s"
| "upd_handle fresh (UpdBegin DevBox n) s = box_begin fresh n s"
| "upd_handle fresh (UpdBody DevBox xs) s = box_body xs s"
| "upd_handle fresh (UpdOver DevBox) s = box_over s"
| "upd_handle fresh (UpdBegin DevPower n) s = power_begin fresh n s"
| "upd_handle fresh (UpdBody DevPower xs) s = power_body xs s"
| "upd_handle fresh (UpdOver DevPower) s = power_over s"

fun upd_run :: "(nat \<Rightarrow> u8 list) \<Rightarrow> upd_msg list \<Rightarrow> upd_state \<Rightarrow> upd_state option" where
  "upd_run fresh [] s = Some s"
| "upd_run fresh (m # ms) s = do { s \<leftarrow> upd_handle fresh m s; upd_run fresh ms s }"

text \<open>What the host sends for an image in packets.\<close>

definition send_image :: "upd_dev \<Rightarrow> nat \<Rightarrow> u8 list list \<Rightarrow> upd_msg list" where
  "send_image d n chunks = UpdBegin d (Some (int n)) # map (UpdBody d) chunks @ [UpdOver d]"

section \<open>Lemmas\<close>

fun upd_bodies :: "u8 list list \<Rightarrow> upd_buf \<Rightarrow> upd_buf option" where
  "upd_bodies [] b = Some b"
| "upd_bodies (x # xs) b = do { b \<leftarrow> upd_body x b; upd_bodies xs b }"

lemma bodies_run:
  "upd_run fresh (map (UpdBody DevFirmware) chunks @ ms) s
    = do { b \<leftarrow> upd_bodies chunks (us_fw s); upd_run fresh ms (s\<lparr>us_fw := b\<rparr>) }"
  "upd_run fresh (map (UpdBody DevBox) chunks @ ms) s
    = do { b \<leftarrow> upd_bodies chunks (us_box s); upd_run fresh ms (s\<lparr>us_box := b\<rparr>) }"
  "upd_run fresh (map (UpdBody DevPower) chunks @ ms) s
    = do { b \<leftarrow> upd_bodies chunks (us_power s); upd_run fresh ms (s\<lparr>us_power := b\<rparr>) }"
  by (induction chunks arbitrary: s)
    (auto simp: firmware_body_def box_body_def power_body_def split: Option.bind_split)

lemma blit_blit:
  assumes "off + length xs + length ys \<le> length blk"
  shows "blit (blit blk off xs) (off + length xs) ys = blit blk off (xs @ ys)"
  using assms by (simp add: blit_def ac_simps)

lemma bodies_fit:
  "pos + length (concat chunks) \<le> length blk
    \<Longrightarrow> upd_bodies chunks \<lparr>ub_block = Some blk, ub_pos = pos\<rparr>
      = Some \<lparr>ub_block = Some (blit blk pos (concat chunks)), ub_pos = pos + length (concat chunks)\<rparr>"
proof (induction chunks arbitrary: blk pos)
  case (Cons x xs)
  then show ?case by (simp add: upd_body_def blit_blit add.assoc)
qed (simp add: blit_def)

lemma bodies_overrun:
  "pos \<le> length blk \<Longrightarrow> length blk < pos + length (concat chunks) \<Longrightarrow> upd_bodies chunks \<lparr>ub_block = Some blk, ub_pos = pos\<rparr> = None"
proof (induction chunks arbitrary: blk pos)
  case (Cons x xs)
  then show ?case by (simp add: upd_body_def)
qed simp

section \<open>The package format\<close>

definition file_head :: "string \<times> u8 list \<Rightarrow> bool \<Rightarrow> u8 list" where
  "file_head f next = map char_byte (fst f) @ replicate (256 - length (fst f)) 0
     @ le32 (word_of_nat (length (snd f))) @ le32 (if next then 1 else 0)"

fun pack_files :: "(string \<times> u8 list) list \<Rightarrow> u8 list" where
  "pack_files [] = []"
| "pack_files (f # fs) = file_head f (fs \<noteq> []) @ snd f @ pack_files fs"

definition packable :: "string \<times> u8 list \<Rightarrow> bool" where
  "packable f \<longleftrightarrow> length (fst f) < 243 \<and> CHR 0x00 \<notin> set (fst f) \<and> length (snd f) < 2 ^ 31"

lemma byte_char_byte [simp]: "byte_char (char_byte c) = c"
proof -
  have "unat (char_byte c) = of_char c"
    unfolding char_byte_def by (rule unat_of_nat_exact) simp
  then show ?thesis by (simp add: byte_char_def)
qed

lemma char_byte_zero: "char_byte c = 0 \<longleftrightarrow> c = CHR 0x00"
proof
  assume "char_byte c = 0"
  then have "c = byte_char 0" using byte_char_byte [of c] by simp
  then show "c = CHR 0x00" by (simp add: byte_char_def char_of_eq_iff)
qed (simp add: char_byte_def)

lemma takeWhile_name: "CHR 0x00 \<notin> set name \<Longrightarrow> 0 < k \<Longrightarrow>
  takeWhile (\<lambda>b. b \<noteq> 0) (map char_byte name @ replicate k 0 @ xs) = map char_byte name"
  by (cases k) (auto simp: takeWhile_append char_byte_zero)

lemma length_file_head: "packable f \<Longrightarrow> length (file_head f nx) = 264"
  by (simp add: file_head_def packable_def)

lemma unpack_file_ok:
  assumes f: "packable f"
  shows "unpack_file (pre @ file_head f nx @ snd f @ post) (length pre) = Some (fst f, snd f, nx)"
proof -
  let ?name = "pre @ map char_byte (fst f) @ replicate (256 - length (fst f)) 0"
  let ?blk = "pre @ file_head f nx @ snd f @ post"
  have len: "length (fst f) < 243" "length (snd f) < 2 ^ 31" using f by (simp_all add: packable_def)
  have blk: "?blk = ?name @ le32 (word_of_nat (length (snd f))) @ (le32 (if nx then 1 else 0) @ snd f @ post)"
    "?blk = (?name @ le32 (word_of_nat (length (snd f)))) @ le32 (if nx then 1 else 0) @ (snd f @ post)"
    by (simp_all add: file_head_def)
  have sz: "rd32 ?blk (length pre + 256) = word_of_nat (length (snd f))"
    unfolding blk(1) by (rule rd32_at) (use len(1) in simp)
  have nx: "rd32 ?blk (length pre + 260) = (if nx then 1 else 0)"
    unfolding blk(2) by (rule rd32_at) (use len(1) in simp)
  have int: "sint (word_of_nat (length (snd f)) :: u32) = int (length (snd f))"
    using len(2) by (simp add: signed_of_nat signed_take_bit_int_eq_self)
  have "takeWhile (\<lambda>b. b \<noteq> 0) (drop (length pre) ?blk) = map char_byte (fst f)"
    using takeWhile_name [of "fst f" "256 - length (fst f)"] f by (simp add: file_head_def packable_def)
  then have name: "c_str_at ?blk (length pre) = Some (fst f)"
    using length_file_head [OF f, of nx] len(1) by (simp add: c_str_at_def comp_def)
  have data: "mem_read ?blk (length pre + 264) (length (snd f)) = Some (snd f)"
    using length_file_head [OF f, of nx] by (simp add: mem_read_def mem_slice_def)
  show ?thesis using length_file_head [OF f, of nx] len(1)
    by (simp add: unpack_file_def sizeof_SUpdataFileList_def name sz nx int data firmware_path_def)
qed

lemma unpack_pack:
  "fs \<noteq> [] \<Longrightarrow> \<forall>f \<in> set fs. packable f \<Longrightarrow> unpack_files (pre @ pack_files fs @ post) (length pre) = Some fs"
proof (induction fs arbitrary: pre)
  case (Cons f fs)
  have f: "packable f" using Cons.prems(2) by simp
  note uf = unpack_file_ok [OF f, of pre "fs \<noteq> []" "pack_files fs @ post"]
  show ?case
  proof (cases "fs = []")
    case True
    then show ?thesis using uf by (subst unpack_files.simps) simp
  next
    case False
    have "unpack_files (pre @ pack_files (f # fs) @ post) (length pre + (length (snd f) + sizeof_SUpdataFileList)) = Some fs"
      using Cons.IH [OF False, of "pre @ file_head f True @ snd f"] Cons.prems(2) False length_file_head [OF f, of True]
      by (simp add: sizeof_SUpdataFileList_def add.assoc add.commute [of 264])
    then show ?thesis using uf False by (subst unpack_files.simps) simp
  qed
qed simp

section \<open>Properties\<close>

lemma received:
  assumes "length (concat chunks) \<le> n" "length (fresh n) = n"
  shows "upd_bodies chunks (upd_begin fresh (int n))
    = Some \<lparr>ub_block = Some (concat chunks @ drop (length (concat chunks)) (fresh n)), ub_pos = length (concat chunks)\<rparr>"
  using bodies_fit [of 0 chunks "fresh n"] assms by (simp add: upd_begin_def blit_def)

lemma received_too_much:
  assumes "n < length (concat chunks)" "length (fresh n) = n"
  shows "upd_bodies chunks (upd_begin fresh (int n)) = None"
  using bodies_overrun [of 0 "fresh n" chunks] assms by (simp add: upd_begin_def)

text \<open>
  C29: A firmware package of any files, sent in any packets, is unpacked into exactly these
  files in order; then the end is reported, the upgrade script is started with the name of the
  last file, and the block is free again.
\<close>

theorem firmware_package_is_unpacked:
  assumes "fs \<noteq> []" "\<forall>f \<in> set fs. packable f" "concat chunks = pack_files fs"
    and "length (pack_files fs) \<le> n" "length (fresh n) = n"
  shows "\<exists>s'. upd_run fresh (send_image DevFirmware n chunks) s = Some s' \<and> us_fw s' = no_buf
    \<and> us_log s' = us_log s @ map (\<lambda>f. UpWrite (''/home/updata/'' @ fst f) (snd f)) fs
      @ [UpReport 0 0, UpScript (''/home/updatafirmware.sh '' @ fst (last fs))]"
proof -
  let ?blk = "pack_files fs @ drop (length (pack_files fs)) (fresh n)"
  have "upd_bodies chunks (upd_begin fresh (int n)) = Some \<lparr>ub_block = Some ?blk, ub_pos = length (pack_files fs)\<rparr>"
    using received [of chunks n fresh] assms(3-5) by simp
  moreover have "unpack_files ?blk 0 = Some fs" using unpack_pack [OF assms(1,2), of "[]"] by simp
  moreover have "length (fst (last fs)) < 243" using assms(1,2) by (simp add: packable_def)
  ultimately show ?thesis
    by (simp add: send_image_def firmware_begin_def bodies_run firmware_over_def firmware_path_def case_prod_beta)
qed

theorem firmware_package_is_unpacked_witness:
  "\<exists>s'. upd_run (\<lambda>n. replicate n 7) (send_image DevFirmware 600 [pack_files [(''a'', [1, 2]), (''b'', [3])]])
      \<lparr>us_fw = no_buf, us_box = no_buf, us_power = no_buf, us_log = []\<rparr> = Some s'
    \<and> us_log s' = [UpWrite ''/home/updata/a'' [1, 2], UpWrite ''/home/updata/b'' [3], UpReport 0 0,
        UpScript ''/home/updatafirmware.sh b'']"
proof -
  have "\<forall>f \<in> set [(''a'', [1, 2 :: u8]), (''b'', [3])]. packable f" by (simp add: packable_def)
  moreover have "length (pack_files [(''a'', [1, 2]), (''b'', [3])]) \<le> 600" by (simp add: file_head_def)
  ultimately show ?thesis
    using firmware_package_is_unpacked [of "[(''a'', [1, 2]), (''b'', [3])]"
        "[pack_files [(''a'', [1, 2]), (''b'', [3])]]" 600 "\<lambda>n. replicate n 7"
        "\<lparr>us_fw = no_buf, us_box = no_buf, us_power = no_buf, us_log = []\<rparr>"] by auto
qed

text \<open>
  An image for the power board that is no longer than announced is sent in blocks whose
  payloads are the image followed by what the block held before; a longer one leaves its
  block.
\<close>

theorem power_image_outcomes:
  assumes "length (fresh n) = n"
  shows "(length (concat chunks) \<le> n \<longrightarrow>
      (\<exists>s' ps. upd_run fresh (send_image DevPower n chunks) s = Some s' \<and> us_power s' = no_buf
        \<and> us_log s' = us_log s @ [UpPower (if n = 0 then [] else [0x72, 0x05, 0x4, 0, 0, 0, 0, 0] # map upgrade_bytes ps), UpReport 2 0]
        \<and> concat (map up_payload ps) = concat chunks @ drop (length (concat chunks)) (fresh n) \<and> blocks_at 0 ps))
    \<and> (n < length (concat chunks) \<longrightarrow> upd_run fresh (send_image DevPower n chunks) s = None)"
proof (intro conjI impI)
  let ?blk = "concat chunks @ drop (length (concat chunks)) (fresh n)"
  assume le: "length (concat chunks) \<le> n"
  have len: "length ?blk = n" using le assms by simp
  then have nil: "?blk = [] \<longleftrightarrow> n = 0" by (metis length_0_conv)
  let ?ps = "pwrUpgrade_loop ?blk n 0"
  have "pwrUpgrade ?blk = (if n = 0 then [] else [0x72, 0x05, 0x4, 0, 0, 0, 0, 0] # map upgrade_bytes ?ps)"
    unfolding pwrUpgrade_def nil len by (simp add: MSG_TYPE_POWER_def)
  moreover have "concat (map up_payload ?ps) = ?blk" "blocks_at 0 ?ps"
    using pwrUpgrade_loop_ok [of ?blk n 0] by simp_all
  ultimately show "\<exists>s' ps. upd_run fresh (send_image DevPower n chunks) s = Some s' \<and> us_power s' = no_buf
        \<and> us_log s' = us_log s @ [UpPower (if n = 0 then [] else [0x72, 0x05, 0x4, 0, 0, 0, 0, 0] # map upgrade_bytes ps), UpReport 2 0]
        \<and> concat (map up_payload ps) = ?blk \<and> blocks_at 0 ps"
    using received [where fresh = fresh, OF le assms] by (simp add: send_image_def power_begin_def bodies_run power_over_def) blast
next
  assume "n < length (concat chunks)"
  from received_too_much [where fresh = fresh, OF this assms] show "upd_run fresh (send_image DevPower n chunks) s = None"
    by (simp add: send_image_def power_begin_def bodies_run)
qed

theorem power_image_outcomes_witness:
  "(\<exists>s' ps. upd_run (\<lambda>n. replicate n 7) (send_image DevPower 3 [[1], [2]])
        \<lparr>us_fw = no_buf, us_box = no_buf, us_power = no_buf, us_log = []\<rparr> = Some s'
      \<and> us_log s' = [UpPower ([0x72, 0x05, 0x4, 0, 0, 0, 0, 0] # map upgrade_bytes ps), UpReport 2 0]
      \<and> concat (map up_payload ps) = [1, 2, 7])
    \<and> upd_run (\<lambda>n. replicate n 7) (send_image DevPower 1 [[1], [2]])
        \<lparr>us_fw = no_buf, us_box = no_buf, us_power = no_buf, us_log = []\<rparr> = None"
  using power_image_outcomes [of "\<lambda>n. replicate n 7" 3 "[[1], [2]]" "\<lparr>us_fw = no_buf, us_box = no_buf, us_power = no_buf, us_log = []\<rparr>"]
    power_image_outcomes [of "\<lambda>n. replicate n 7" 1 "[[1], [2]]" "\<lparr>us_fw = no_buf, us_box = no_buf, us_power = no_buf, us_log = []\<rparr>"]
  by auto

end
