(* ===== verification/GammaMessages.thy ===== *)
theory GammaMessages
  imports ChipHx8394 CStrings
begin

text \<open>
  The messages about gamma tables, \<open>SERVER2CLI_MSG_GAMMA_WRITE_REG\<close>, \<open>READ_GAMMA\<close> and \<open>GAMMA_OTP\<close> of
  \<open>clirecvcmd5srv.c\<close>, over the operations of the chip that is chosen, and the text of tables: two
  hexadecimal digits and a semicolon for each byte. The number of burns is a byte whose address is
  passed where the chip stores an \<open>int\<close>; the model keeps its lowest byte. What the colour analyser
  measures is an argument.
\<close>

section \<open>The text of a table\<close>

definition hex_char :: "nat \<Rightarrow> char" where
  "hex_char n = (if n < 10 then char_of (48 + n) else char_of (55 + n))"

definition hex2 :: "u8 \<Rightarrow> string" where
  "hex2 b = [hex_char (unat b div 16), hex_char (unat b mod 16)]"

text \<open>The format \<open>"%02X;"\<close> for every byte, into an array of 1000.\<close>

definition gamma_text :: "u8 list \<Rightarrow> string option" where
  "gamma_text data = fits 1000 (concat (map (\<lambda>b. hex2 b @ '';'') data))"

text \<open>\<open>sscanf(cc, "%02X", &val)\<close> with \<open>val = 0\<close>, for the at most two characters of \<open>cc\<close>.\<close>

definition scan_hex :: "string \<Rightarrow> int" where
  "scan_hex cc =
     (let s = dropWhile c_space cc in
      case s of
        [] \<Rightarrow> 0
      | c # cs \<Rightarrow> if c = CHR ''-'' then - int (num_value 16 cs)
                 else if c = CHR ''+'' then int (num_value 16 cs) else int (num_value 16 s))"

text \<open>The loop takes three characters at a time; \<open>None\<close> is a read behind the end of the text.\<close>

fun parse_gamma_loop :: "string \<Rightarrow> u8 list option" where
  "parse_gamma_loop [] = Some []"
| "parse_gamma_loop (a # b # _ # s) = map_option (\<lambda>l. word_of_int (scan_hex [a, b]) # l) (parse_gamma_loop s)"
| "parse_gamma_loop _ = None"

text \<open>The length of the buffer is not looked at; \<open>None\<close> is also a write behind it.\<close>

definition parse_gamma_reg_data :: "string option \<Rightarrow> nat \<Rightarrow> u8 list option" where
  "parse_gamma_reg_data p len =
     (case p of None \<Rightarrow> Some []
      | Some s \<Rightarrow> (case parse_gamma_loop s of None \<Rightarrow> None | Some l \<Rightarrow> if length l \<le> len then Some l else None))"

section \<open>The operations of the chip\<close>

record 'i gamma_ops =
  go_write_analog :: "nat \<Rightarrow> u8 list option \<Rightarrow> int \<Rightarrow> ('i chip_state, int) state"
  go_write_fix_analog :: "nat \<Rightarrow> ('i chip_state, int) state"
  go_read_analog :: "nat \<Rightarrow> u8 list \<Rightarrow> ('i chip_state, int \<times> u8 list) state"
  go_write_digital :: "nat \<Rightarrow> u8 list option \<Rightarrow> int \<Rightarrow> ('i chip_state, int) state"
  go_write_fix_digital :: "nat \<Rightarrow> ('i chip_state, int) state"
  go_d3g_control :: "nat \<Rightarrow> int \<Rightarrow> ('i chip_state, int) state"
  go_otp_times :: "nat \<Rightarrow> ('i chip_state, int \<times> int option) state"
  go_get_analog :: "nat \<Rightarrow> u8 list \<Rightarrow> ('i chip_state, int \<times> u8 list \<times> int) state"
  go_get_digital :: "nat \<Rightarrow> u8 list \<Rightarrow> u8 list \<Rightarrow> u8 list \<Rightarrow> ('i chip_state, int \<times> (u8 list \<times> int) list) state"
  go_burn :: "nat \<Rightarrow> int \<Rightarrow> int \<Rightarrow> int \<Rightarrow> u8 list \<Rightarrow> u8 list \<Rightarrow> u8 list \<Rightarrow> u8 list \<Rightarrow> ('i chip_state, int) state"
  go_check :: "nat \<Rightarrow> int \<Rightarrow> int \<Rightarrow> int \<Rightarrow> u8 list \<Rightarrow> u8 list \<Rightarrow> u8 list \<Rightarrow> u8 list \<Rightarrow> ('i chip_state, int) state"

definition hx_gamma :: "panel \<Rightarrow> hx_info gamma_ops" where
  "hx_gamma rd =
     \<lparr>go_write_analog = hx_8394_write_analog_gamma_reg_data,
      go_write_fix_analog = hx_8394_write_fix_analog_gamma_reg_data,
      go_read_analog = hx_8394_read_analog_gamma_reg_data rd,
      go_write_digital = hx_8394_write_analog_digital_gamma_reg_data,
      go_write_fix_digital = hx_8394_write_fix_digital_gamma_reg_data,
      go_d3g_control = hx_8394_write_d3g_control,
      go_otp_times = chip_hi_8394_read_chip_vcom_opt_times rd,
      go_get_analog = hx_8394_get_analog_gamma_reg_data,
      go_get_digital = hx_8394_get_digital_gamma_reg_data,
      go_burn = hx_8394_burn_gamma_otp_values,
      go_check = hx_8394_check_gamma_otp_values rd\<rparr>"

section \<open>The messages\<close>

definition GAMMA_MAX_REG_DATA_LEN :: nat where "GAMMA_MAX_REG_DATA_LEN = 255"

definition zero_buf :: "u8 list" where "zero_buf = replicate GAMMA_MAX_REG_DATA_LEN 0"

definition in_buf :: "u8 list \<Rightarrow> u8 list" where
  "in_buf d = d @ drop (length d) zero_buf"

datatype 'm gamma_act =
    client_end_gamma_write int int
  | client_end_read_gamma int string int int int
  | ShowPtn int
  | MeasureFlick
  | ShowRgb int
  | MeasureXyLv
  | TextColor int int
  | TextShow "int list"
  | client_end_gamma_otp_info int int int int "'m option"

text \<open>A member that is not there is \<open>None\<close>; the channel has to be there.\<close>

definition server_msg_gamma_write_reg ::
  "'i gamma_ops \<Rightarrow> nat \<Rightarrow> int option \<Rightarrow> string option \<Rightarrow> ('i chip_state, 'm gamma_act list) state option" where
  "server_msg_gamma_write_reg ops channel json_write_type json_data =
     (let write_type = (case json_write_type of None \<Rightarrow> 0 | Some t \<Rightarrow> t);
          end_act = [client_end_gamma_write (int channel) write_type]
      in if write_type = 0 \<or> write_type = 1 then
           (case parse_gamma_reg_data json_data GAMMA_MAX_REG_DATA_LEN of
              None \<Rightarrow> None
            | Some d \<Rightarrow>
                if d = [] then Some (State_Monad.return end_act)
                else if write_type = 0 then Some (do {
                  _ \<leftarrow> go_write_analog ops channel (Some (in_buf d)) (int (length d));
                  _ \<leftarrow> go_write_fix_digital ops channel;
                  State_Monad.return end_act
                })
                else Some (do {
                  _ \<leftarrow> go_write_digital ops channel (Some (in_buf d)) (int (length d));
                  State_Monad.return end_act
                }))
         else Some (State_Monad.return end_act))"

text \<open>The byte of the number of burns after the call.\<close>

definition otp_byte :: "int option \<Rightarrow> u8" where
  "otp_byte t = (case t of None \<Rightarrow> 0 | Some n \<Rightarrow> word_of_int n)"

record gamma_cfg =
  gc_enable :: bool
  gc_reg :: "u8 list"
  gc_nums :: int

definition server_msg_read_gamma ::
  "'i gamma_ops \<Rightarrow> gamma_cfg \<Rightarrow> nat \<Rightarrow> int option \<Rightarrow> string option \<Rightarrow> ('i chip_state, 'm gamma_act list option) state option" where
  "server_msg_read_gamma ops cfg channel json_read_type json_data =
     (let read_type = (case json_read_type of None \<Rightarrow> 0 | Some t \<Rightarrow> t)
      in case json_data of
           None \<Rightarrow> Some (State_Monad.return (Some []))
         | Some text \<Rightarrow>
           (case parse_gamma_reg_data (Some text) GAMMA_MAX_REG_DATA_LEN of
              None \<Rightarrow> None
            | Some d \<Rightarrow> Some (do {
                _ \<leftarrow> go_d3g_control ops channel 0;
                _ \<leftarrow> (if d \<noteq> [] then go_write_analog ops channel (Some (in_buf d)) (int (length d))
                      else if gc_enable cfg then go_write_analog ops channel (Some (gc_reg cfg)) (gc_nums cfg)
                      else go_write_fix_analog ops channel);
                (n, buf) \<leftarrow> go_read_analog ops channel zero_buf;
                (_, t) \<leftarrow> go_otp_times ops channel;
                State_Monad.return (map_option (\<lambda>s. [client_end_read_gamma (int channel) s (uint (otp_byte t)) (uint (otp_byte t)) read_type])
                  (gamma_text (take (nat n) buf)))
              })))"

text \<open>The tables are fetched from the driver, burnt and compared. The green table is burnt twice. \<open>xylv\<close>
  is what is measured of the white picture; the measured flicker is not used.\<close>

definition server_msg_gamma_otp ::
  "'i gamma_ops \<Rightarrow> int \<Rightarrow> bool \<Rightarrow> 'm \<Rightarrow> nat \<Rightarrow> int option \<Rightarrow> ('i chip_state, 'm gamma_act list) state" where
  "server_msg_gamma_otp ops vcom analyser xylv channel json_otp_flag =
     (let otp_flag = (case json_otp_flag of None \<Rightarrow> 0 | Some f \<Rightarrow> f)
      in if otp_flag = 0 then State_Monad.return [client_end_gamma_otp_info (int channel) (-1) 0 0 None]
         else do {
           let vcom_burn = (if otp_flag AND 0x02 \<noteq> 0 then 1 else 0);
           let gamma_burn_2nd = (if otp_flag AND 0x08 \<noteq> 0 then 1 else 0);
           (_, t) \<leftarrow> go_otp_times ops channel;
           (_, analog, _) \<leftarrow> go_get_analog ops channel zero_buf;
           (_, d3g) \<leftarrow> go_get_digital ops channel zero_buf zero_buf zero_buf;
           let d3g_r = fst (d3g ! 0); let d3g_g = fst (d3g ! 1); let d3g_b = fst (d3g ! 2);
           _ \<leftarrow> go_burn ops channel gamma_burn_2nd vcom_burn vcom analog d3g_r d3g_g d3g_g;
           record_ev (MPower [1, 0xFF, 1]);
           check_error \<leftarrow> go_check ops channel vcom_burn vcom (uint (otp_byte t)) analog d3g_r d3g_g d3g_b;
           State_Monad.return ([ShowPtn 0] @ (if analyser then [MeasureFlick] else []) @ [ShowRgb 0xFFFFFF, MeasureXyLv]
             @ (if check_error \<noteq> 0 then [TextColor (int channel) 1, TextShow [0, 1, 0, 0]]
                else [TextColor (int channel) 0, TextShow [0, 1, 1, 0]])
             @ [client_end_gamma_otp_info (int channel) check_error 0 0 (Some xylv)])
         })"

section \<open>Text and tables\<close>

lemma hex_char_value:
  assumes "n < 16"
  shows "digit_value (hex_char n) = Some n" "\<not> c_space (hex_char n)" "hex_char n \<noteq> CHR ''-''" "hex_char n \<noteq> CHR ''+''"
proof -
  have n: "n \<in> {0, 1, 2, 3, 4, 5, 6, 7, 8, 9, 10, 11, 12, 13, 14, 15}"
    using assms unfolding insert_iff empty_iff by presburger
  show "digit_value (hex_char n) = Some n" "\<not> c_space (hex_char n)"
    using n by (auto simp: hex_char_def digit_value_def c_space_def)
  show "hex_char n \<noteq> CHR ''-''" "hex_char n \<noteq> CHR ''+''" using n by (auto simp: hex_char_def char_of_eq_iff)
qed

lemma scan_hex2: "word_of_int (scan_hex (hex2 b)) = b"
proof -
  have "unat b < 2 ^ LENGTH(8)" by (rule unsigned_less)
  then have "unat b < 256" by simp
  then have d: "unat b div 16 < 16" "unat b mod 16 < 16" by simp_all
  have "num_value 16 (hex2 b) = unat b"
    using hex_char_value [OF d(1)] hex_char_value [OF d(2)]
    by (simp add: num_value_def hex2_def is_digit_def d)
  then show ?thesis using hex_char_value [OF d(1)] by (simp add: scan_hex_def hex2_def)
qed

lemma parse_text: "parse_gamma_loop (concat (map (\<lambda>b. hex2 b @ '';'') d)) = Some d"
proof (induction d)
  case (Cons b d)
  have "hex2 b = [hex_char (unat b div 16), hex_char (unat b mod 16)]" by (simp add: hex2_def)
  then show ?case using Cons scan_hex2 [of b] by simp
qed simp

lemma length_text: "length (concat (map (\<lambda>b. hex2 b @ '';'') d)) = 3 * length d"
  by (induction d) (simp_all add: hex2_def)

lemma text_back:
  assumes "length d \<le> 255"
  shows "parse_gamma_reg_data (Some (concat (map (\<lambda>b. hex2 b @ '';'') d))) 255 = Some d"
    and "gamma_text d = Some (concat (map (\<lambda>b. hex2 b @ '';'') d))"
  using assms by (simp_all add: parse_gamma_reg_data_def parse_text gamma_text_def length_text)

section \<open>Properties\<close>

text \<open>
  The text of a gamma table of at most 255 bytes is parsed back to the table; more than 333
  bytes do not fit the text, a text with one character more is read behind its end, and a
  table longer than the buffer is written behind it.
\<close>

theorem gamma_text_roundtrip:
  "(length d \<le> 255 \<longrightarrow> (\<exists>s. gamma_text d = Some s \<and> parse_gamma_reg_data (Some s) GAMMA_MAX_REG_DATA_LEN = Some d))
    \<and> (333 < length d \<longrightarrow> gamma_text d = None)
    \<and> parse_gamma_reg_data (Some (concat (map (\<lambda>b. hex2 b @ '';'') d) @ [c])) n = None
    \<and> (n < length d \<longrightarrow> parse_gamma_reg_data (Some (concat (map (\<lambda>b. hex2 b @ '';'') d))) n = None)"
proof -
  have odd: "parse_gamma_loop (concat (map (\<lambda>b. hex2 b @ '';'') d) @ [c]) = None"
    by (induction d) (simp_all add: hex2_def)
  show ?thesis
    using text_back [of d] odd
    by (simp add: GAMMA_MAX_REG_DATA_LEN_def gamma_text_def length_text parse_gamma_reg_data_def parse_text)
qed

theorem gamma_text_roundtrip_witness:
  "\<exists>s. gamma_text [0x0A, 0xFF] = Some s \<and> parse_gamma_reg_data (Some s) GAMMA_MAX_REG_DATA_LEN = Some [0x0A, 0xFF]"
  using gamma_text_roundtrip [of "[0x0A, 0xFF]"] by simp

text \<open>
  On an HX8394 that keeps its registers, the message that reads the gamma table, given the
  text of a table of 58 bytes, answers with the same text and leaves the table in the driver.
\<close>

theorem read_message_reports_the_registers:
  assumes "hx_keeps ch x rd" "ch < length (cs_info s)" "length d = 58"
  shows "\<exists>str p s' t. gamma_text d = Some str
    \<and> server_msg_read_gamma (hx_gamma rd) cfg ch ty (Some str) = Some p
    \<and> run_state p s = (Some [client_end_read_gamma (int ch) str t t (case ty of None \<Rightarrow> 0 | Some t \<Rightarrow> t)], s')
    \<and> hi_analog (cs_info s' ! ch) = d"
proof -
  let ?es = "[MSpeed ch False, MWrite ch 0xB9 [0xFF, 0x83, 0x94], MWrite ch 0xBD [0], MWrite ch 0xBD [0], MSpeed ch True,
     MSpeed ch False, MWrite ch 0xB9 [0xFF, 0x83, 0x94], MSpeed ch False, MWrite ch 0xE0 d, MSpeed ch True, MSpeed ch True,
     MSpeed ch False, MWrite ch 0xB9 [0xFF, 0x83, 0x94]]"
  obtain str where str: "gamma_text d = Some str" "parse_gamma_reg_data (Some str) 255 = Some d"
    using text_back [of d] assms(3) by auto
  have c: "hx_content 0xE0 (hx_regs ch x (cs_log s @ ?es)) = d" by (simp add: reg_content_plain)
  have nil: "d \<noteq> []" using assms(3) by auto
  have "answer rd ((cs_log s @ ?es) @ [MRead ch 0xE0 58]) 58 zero_buf = d @ drop 58 zero_buf"
    by (subst keeps_regs_read [OF assms(1)]) (use assms(3) in \<open>simp_all only: c order_refl take_all\<close>)
  then show ?thesis using str assms nil
    by (simp add: server_msg_read_gamma_def GAMMA_MAX_REG_DATA_LEN_def hx_gamma_def hx_gamma_defs hx_lens in_buf_def
        hx_8394_write_d3g_control_def hx_8394_digital_gamma_control_def hi_8394_enable_extend_cmd_def
        hx_8394_read_analog_gamma_reg_data_def chip_hi_8394_read_chip_vcom_opt_times_def hx_vcom_defs chip_run otp_byte_def Let_def)
qed

theorem read_message_reports_the_registers_witness:
  "\<exists>str p s' t. gamma_text (replicate 58 7) = Some str
    \<and> server_msg_read_gamma (hx_gamma (reg_panel (select_by 0xBD) (\<lambda>r. r = 0xC1) 1 (0, \<lambda>_ _. [])))
        \<lparr>gc_enable = False, gc_reg = [], gc_nums = 0\<rparr> 1 None (Some str) = Some p
    \<and> run_state p \<lparr>cs_log = [], cs_info = s_hx_8394_private_info, cs_bad = False\<rparr>
      = (Some [client_end_read_gamma (int 1) str t t (case None of None \<Rightarrow> 0 | Some t \<Rightarrow> t)], s')
    \<and> hi_analog (cs_info s' ! 1) = replicate 58 7"
  by (rule read_message_reports_the_registers [OF reg_panel_keeps_regs])
    (simp_all add: s_hx_8394_private_info_def DEV_CHANNEL_NUM_def)

lemma otp_times_run:
  assumes "ch < length (cs_info s)"
  shows "\<exists>y es. run_state (chip_hi_8394_read_chip_vcom_opt_times rd ch) s = (y, logged s es)"
proof (cases "hi_id_ok (cs_info s ! ch) = 1")
  case True
  then show ?thesis using assms
    by (auto simp: chip_hi_8394_read_chip_vcom_opt_times_def hx_vcom_defs chip_run Let_def)
next
  case False
  then have "run_state (chip_hi_8394_read_chip_vcom_opt_times rd ch) s = ((-1, None), logged s [])"
    using assms by (simp add: chip_hi_8394_read_chip_vcom_opt_times_def chip_run)
  then show ?thesis by blast
qed

lemma burn_run:
  "\<exists>es. run_state (hx_8394_burn_gamma_otp_values ch k 0 v a r g b) s = (0, logged s es)
    \<and> (\<forall>X. snd (hx_regs ch X es) 0xC1 0 = take 43 r \<and> snd (hx_regs ch X es) 0xC1 1 = take 42 g
      \<and> snd (hx_regs ch X es) 0xC1 2 = take 42 b \<and> hx_content 0xE0 (hx_regs ch X es) = take 58 a)"
proof (cases "k AND 1 = 0")
  case True
  then show ?thesis
    by (simp add: hx_8394_burn_gamma_otp_values_def hx_8394_burn_vcom_and_gamma_data_def ICM_BURN_SECOND_FLAG_def
        hx_gamma_defs hx_lens chip_run) (simp add: logged_def reg_write_def reg_content_def)
next
  case False
  then show ?thesis
    by (simp add: hx_8394_burn_gamma_otp_values_def hx_8394_burn_gamma_data_2nd_def ICM_BURN_SECOND_FLAG_def
        hx_gamma_defs hx_lens chip_run) (simp add: logged_def reg_write_def reg_content_def)
qed

lemma check_log:
  "\<exists>es. snd (run_state (hx_8394_check_gamma_otp_values rd ch 0 v t a r g b) s) = logged s es"
  by (simp add: hx_8394_check_gamma_otp_values_def hx_gamma_defs chip_run Let_def)

text \<open>
  On an HX8394 that keeps its registers, the message that burns the gamma tables has the green
  table in the blue bank when the panel is powered again, and the check that follows fails
  exactly when the blue table is another one.
\<close>

theorem gamma_burn_uses_green_for_blue:
  assumes "hx_keeps ch x rd" "ch < length (cs_info s)" "flag \<noteq> 0" "flag AND 2 = 0"
    and "hi_digital (cs_info s ! ch) = [r, g, b]" "length (hi_analog (cs_info s ! ch)) = 58"
    and "43 \<le> length r" "42 \<le> length g" "42 \<le> length b"
  shows "\<exists>acts es es'. fst (run_state (server_msg_gamma_otp (hx_gamma rd) vcom analyser xylv ch (Some flag)) s)
      = acts @ [client_end_gamma_otp_info (int ch) (if take 42 b = take 42 g then 0 else 6) 0 0 (Some xylv)]
    \<and> cs_log (snd (run_state (server_msg_gamma_otp (hx_gamma rd) vcom analyser xylv ch (Some flag)) s))
      = cs_log s @ es @ [MPower [1, 0xFF, 1]] @ es'
    \<and> snd (hx_regs ch x (cs_log s @ es)) 0xC1 2 = take 42 g"
proof -
  let ?a = "hi_analog (cs_info s ! ch) @ drop 58 zero_buf"
  let ?r = "take 43 r @ drop 43 zero_buf" and ?g = "take 42 g @ drop 42 zero_buf" and ?b = "take 42 b @ drop 42 zero_buf"
  let ?k = "if flag AND 8 \<noteq> 0 then 1 else 0 :: int"
  obtain y es0 where t: "run_state (chip_hi_8394_read_chip_vcom_opt_times rd ch) s = (y, logged s es0)"
    using otp_times_run [OF assms(2)] by blast
  obtain es1 where burn: "run_state (hx_8394_burn_gamma_otp_values ch ?k 0 vcom ?a ?r ?g ?g) (logged s es0) = (0, logged s (es0 @ es1))"
    and regs: "snd (hx_regs ch X es1) 0xC1 0 = take 43 r" "snd (hx_regs ch X es1) 0xC1 1 = take 42 g"
      "snd (hx_regs ch X es1) 0xC1 2 = take 42 g" "hx_content 0xE0 (hx_regs ch X es1) = hi_analog (cs_info s ! ch)" for X
    using burn_run [of ch ?k vcom ?a ?r ?g ?g "logged s es0"] assms(6-9) by auto
  let ?s2 = "logged s (es0 @ es1 @ [MPower [1, 0xFF, 1]])"
  let ?check = "hx_8394_check_gamma_otp_values rd ch 0 vcom (uint (otp_byte (snd y))) ?a ?r ?g ?b"
  have "hx_regs ch x (cs_log ?s2) = hx_regs ch (hx_regs ch x (cs_log s @ es0)) es1" by simp
  from hx_check_run [OF assms(1) this] have check: "fst (run_state ?check ?s2) = (if take 42 b = take 42 g then 0 else 6)"
    using assms(6-9) by (simp add: regs)
  obtain es2 where log: "snd (run_state ?check ?s2) = logged ?s2 es2" using check_log by blast
  have c: "run_state ?check ?s2 = (if take 42 b = take 42 g then 0 else 6, logged ?s2 es2)"
    using check log by (simp add: prod_eq_iff)
  show ?thesis
    using t burn c assms(2-5)
    by - (rule exI, rule exI [of _ "es0 @ es1"], rule exI [of _ es2],
      simp add: server_msg_gamma_otp_def hx_gamma_def hx_8394_get_analog_gamma_reg_data_def
        hx_8394_get_digital_gamma_reg_data_def hx_lens chip_run Let_def case_prod_beta regs)
qed

theorem gamma_burn_uses_green_for_blue_witness:
  "\<exists>acts. fst (run_state (server_msg_gamma_otp
        (hx_gamma (reg_panel (select_by 0xBD) (\<lambda>r. r = 0xC1) 0 (0, \<lambda>_ _. []))) 20 True () 0 (Some 1))
      \<lparr>cs_log = [], cs_info = [hx_zero\<lparr>hi_digital := [replicate 43 1, replicate 42 2, replicate 42 3]\<rparr>], cs_bad = False\<rparr>)
    = acts @ [client_end_gamma_otp_info (int 0) 6 0 0 (Some ())]"
  using gamma_burn_uses_green_for_blue [OF reg_panel_keeps_regs, of 0
      "\<lparr>cs_log = [], cs_info = [hx_zero\<lparr>hi_digital := [replicate 43 1, replicate 42 2, replicate 42 3]\<rparr>], cs_bad = False\<rparr>"
      1 "replicate 43 1" "replicate 42 2" "replicate 42 3" "(0, \<lambda>_ _. [])" 20 True "()"]
  by (auto simp: hx_zero_def)

end
