(* ===== verification/RecList.thy ===== *)
theory RecList
  imports LoopQueue
begin

text \<open>
  Pointer queues whose elements are records from \<open>malloc\<close>: the queue holds addresses, the records
  are in a store, and \<open>malloc\<close> gives every address out once. What \<open>del_func\<close> is called for leaves the
  store. \<open>None\<close> is an access to a record that is gone or to a block that was freed.
\<close>

record 'a rec_list =
  rl_loop :: loop_list
  rl_recs :: "nat \<rightharpoonup> 'a"
  rl_brk :: nat

definition rl_create :: "nat list option \<Rightarrow> nat \<Rightarrow> bool \<Rightarrow> nat \<Rightarrow> 'a rec_list option" where
  "rl_create mem n del brk = do {
     l \<leftarrow> loop_create mem n del;
     Some \<lparr>rl_loop = l, rl_recs = Map.empty, rl_brk = brk\<rparr>
   }"

definition rl_push :: "'a \<Rightarrow> 'a rec_list \<Rightarrow> 'a rec_list" where
  "rl_push r x =
     (let p = rl_brk x;
          l = loop_push_to_tail (rl_loop x) p;
          freed = drop (length (ll_deleted (rl_loop x))) (ll_deleted l)
      in x\<lparr>rl_loop := l, rl_recs := ((rl_recs x)(p \<mapsto> r)) |` (- set freed), rl_brk := p + 1\<rparr>)"

text \<open>A search with a test on records; the result is \<open>NULL\<close> or the record.\<close>

definition rl_at :: "'a rec_list \<Rightarrow> nat \<Rightarrow> 'a option option" where
  "rl_at x p = (if p = 0 then Some None else map_option Some (rl_recs x p))"

definition rl_search :: "('a \<Rightarrow> bool) \<Rightarrow> 'a rec_list \<Rightarrow> nat option" where
  "rl_search P x =
     (if ll_items (rl_loop x) = [] \<and> ll_head (rl_loop x) \<noteq> ll_tail (rl_loop x) then None
      else loop_search (rl_loop x) (\<lambda>p. case rl_recs x p of None \<Rightarrow> False | Some r \<Rightarrow> P r))"

definition rl_first :: "'a rec_list \<Rightarrow> nat \<Rightarrow> 'a option option" where
  "rl_first x n = do { p \<leftarrow> loop_get_from_head (rl_loop x) n; rl_at x p }"

text \<open>A second call frees the block again.\<close>

definition rl_cleanup :: "'a rec_list \<Rightarrow> 'a rec_list option" where
  "rl_cleanup x = do {
     l \<leftarrow> (if ll_items (rl_loop x) = [] \<and> ll_size (rl_loop x) \<noteq> 0 then None else loop_cleanup (rl_loop x));
     Some (x\<lparr>rl_loop := l,
             rl_recs := rl_recs x |` (- set (drop (length (ll_deleted (rl_loop x))) (ll_deleted l)))\<rparr>)
   }"

section \<open>Content\<close>

definition rl_view :: "'a rec_list \<Rightarrow> nat list" where "rl_view x = ll_view (rl_loop x)"

definition rl_rows :: "'a rec_list \<Rightarrow> 'a list" where "rl_rows x = map (\<lambda>p. the (rl_recs x p)) (rl_view x)"

definition rl_ok :: "'a rec_list \<Rightarrow> bool" where
  "rl_ok x \<longleftrightarrow> ll_inv (rl_loop x) \<and> distinct (rl_view x) \<and> 0 < rl_brk x
     \<and> (\<forall>p \<in> set (rl_view x). 0 < p \<and> p < rl_brk x \<and> rl_recs x p \<noteq> None)"

definition rl_cap :: "'a rec_list \<Rightarrow> nat" where "rl_cap x = ll_size (rl_loop x) - 1"

lemma length_rl_rows [simp]: "length (rl_rows x) = length (rl_view x)"
  by (simp add: rl_rows_def)

lemma rl_okD:
  assumes "rl_ok x"
  shows "ll_inv (rl_loop x)" "distinct (rl_view x)" "0 < rl_brk x" "rl_brk x \<notin> set (rl_view x)"
    and "\<And>p. p \<in> set (rl_view x) \<Longrightarrow> 0 < p \<and> p < rl_brk x \<and> rl_recs x p \<noteq> None"
  using assms by (auto simp: rl_ok_def)

lemma rl_length_le: "rl_ok x \<Longrightarrow> length (rl_view x) \<le> rl_cap x"
  using ll_used_less [of "rl_loop x"] by (simp add: rl_ok_def rl_view_def rl_cap_def)

lemma rl_create_ok:
  assumes "length blk = n" "2 \<le> n" "0 < brk"
  shows "\<exists>x. rl_create (Some blk) n del brk = Some x \<and> rl_ok x \<and> rl_rows x = [] \<and> rl_cap x = n - 1 \<and> rl_brk x = brk
    \<and> ll_del (rl_loop x) = del"
  using assms by (simp add: rl_create_def loop_create_def rl_ok_def rl_rows_def rl_view_def rl_cap_def ll_inv_def
      ll_view_def ll_used_def)

lemma rl_push_ok:
  assumes ok: "rl_ok x"
  shows "rl_ok (rl_push r x)" "rl_cap (rl_push r x) = rl_cap x"
    and "rl_rows (rl_push r x) = (if length (rl_rows x) = rl_cap x then tl (rl_rows x) else rl_rows x) @ [r]"
proof -
  note x = rl_okD [OF ok]
  note push = loop_push_to_tail_ok [OF x(1), of "rl_brk x"]
  let ?old = "if length (rl_rows x) = rl_cap x then tl (rl_view x) else rl_view x"
  have full: "ll_used (rl_loop x) = ll_cap (rl_loop x) \<longleftrightarrow> length (rl_rows x) = rl_cap x"
    by (simp add: rl_view_def ll_cap_def rl_cap_def)
  have view: "rl_view (rl_push r x) = ?old @ [rl_brk x]"
    using push unfolding full by (simp add: rl_push_def rl_view_def Let_def)
  have nonempty: "rl_view x \<noteq> []" if "length (rl_rows x) = rl_cap x"
    using that x(1) by (auto simp: ll_inv_def rl_cap_def)
  have sub: "set ?old \<subseteq> set (rl_view x)" by (cases "rl_view x") auto
  have recs: "rl_recs (rl_push r x) p = ((rl_recs x)(rl_brk x \<mapsto> r)) p" if "p \<in> set ?old \<or> p = rl_brk x" for p
  proof -
    have "p \<noteq> hd (rl_view x)" if full': "length (rl_rows x) = rl_cap x"
      using that x(2,4) nonempty [OF full'] \<open>p \<in> set ?old \<or> p = rl_brk x\<close> by (cases "rl_view x") auto
    then show ?thesis using push unfolding full by (auto simp: rl_push_def rl_view_def Let_def restrict_map_def)
  qed
  have "distinct (?old @ [rl_brk x])" using x(2,4) sub by (auto simp: distinct_tl)
  moreover have "0 < p \<and> p < rl_brk x + 1 \<and> rl_recs (rl_push r x) p \<noteq> None" if "p \<in> set (?old @ [rl_brk x])" for p
    using that recs [of p] x(3,5) sub by (auto simp: less_Suc_eq)
  moreover have "rl_brk (rl_push r x) = rl_brk x + 1" by (simp add: rl_push_def Let_def)
  moreover have "rl_loop (rl_push r x) = loop_push_to_tail (rl_loop x) (rl_brk x)" by (simp add: rl_push_def Let_def)
  ultimately show "rl_ok (rl_push r x)" "rl_cap (rl_push r x) = rl_cap x"
    using push unfolding rl_ok_def view by (simp_all add: rl_cap_def)
  have eq: "map (\<lambda>p. the (rl_recs (rl_push r x) p)) ?old = map (\<lambda>p. the (rl_recs x p)) ?old"
    by (rule map_cong [OF refl]) (use recs x(4) sub in \<open>auto simp del: set_simps\<close>)
  have "rl_rows (rl_push r x) = map (\<lambda>p. the (rl_recs (rl_push r x) p)) ?old @ [r]"
    unfolding rl_rows_def [of "rl_push r x"] view map_append using recs [of "rl_brk x"] by (simp only: list.map) simp
  also have "\<dots> = map (\<lambda>p. the (rl_recs x p)) ?old @ [r]" by (simp only: eq)
  also have "\<dots> = (if length (rl_rows x) = rl_cap x then tl (rl_rows x) else rl_rows x) @ [r]"
    by (simp add: rl_rows_def map_tl)
  finally show "rl_rows (rl_push r x) = (if length (rl_rows x) = rl_cap x then tl (rl_rows x) else rl_rows x) @ [r]" .
qed

lemma rl_search_ok:
  assumes ok: "rl_ok x"
  shows "\<exists>p. rl_search P x = Some p \<and> rl_at x p = Some (List.find P (rl_rows x))"
proof -
  note x = rl_okD [OF ok]
  let ?Q = "\<lambda>p. case rl_recs x p of None \<Rightarrow> False | Some r \<Rightarrow> P r"
  have items: "ll_items (rl_loop x) \<noteq> []" using x(1) by (auto simp: ll_inv_def)
  have s: "rl_search P x = Some (case List.find ?Q (rl_view x) of None \<Rightarrow> 0 | Some p \<Rightarrow> p)"
    using loop_search_ok [OF x(1), of ?Q] items by (simp add: rl_search_def rl_view_def)
  have "(case List.find ?Q ps of None \<Rightarrow> List.find P (map (\<lambda>p. the (rl_recs x p)) ps) = None
      | Some p \<Rightarrow> p \<in> set ps \<and> List.find P (map (\<lambda>p. the (rl_recs x p)) ps) = rl_recs x p)"
    if "\<forall>p \<in> set ps. rl_recs x p \<noteq> None" for ps
    using that by (induction ps) (auto split: option.splits)
  from this [of "rl_view x"] show ?thesis
    using x(5) by (auto simp: s rl_at_def rl_rows_def split: option.splits) fastforce
qed

lemma rl_cleanup_ok:
  assumes "rl_ok x"
  shows "\<exists>x'. rl_cleanup x = Some x' \<and> ll_items (rl_loop x') = [] \<and> ll_size (rl_loop x') = ll_size (rl_loop x)
    \<and> ll_head (rl_loop x') = ll_head (rl_loop x) \<and> ll_tail (rl_loop x') = ll_tail (rl_loop x) \<and> rl_brk x' = rl_brk x"
proof -
  have "ll_items (rl_loop x) \<noteq> []" using rl_okD(1) [OF assms] by (auto simp: ll_inv_def)
  moreover obtain l where "loop_cleanup (rl_loop x) = Some l" "ll_items l = []" "ll_size l = ll_size (rl_loop x)"
    "ll_head l = ll_head (rl_loop x)" "ll_tail l = ll_tail (rl_loop x)"
    using loop_del_all_ok [OF rl_okD(1) [OF assms], of 0] rl_okD(1) [OF assms]
    by (cases "ll_del (rl_loop x)") (auto simp: loop_cleanup_def ll_inv_def ll_used_def)
  ultimately show ?thesis by (simp add: rl_cleanup_def)
qed

end
