(* ===== verification/PatternDb.thy ===== *)
theory PatternDb
  imports RecList LocalDb
begin

text \<open>
  The data base of a panel module, \<open>pgDB/pgDB.c\<close>: the patterns of the module in a pointer queue, its
  global settings, and the list of all modules. What the data base files hold is an argument: for a
  name \<open>None\<close> when the file cannot be opened, and the results of the two selections, each \<open>None\<close> on an
  error. \<open>mem\<close> is the block a queue gets. \<open>None\<close> of an operation is a string too long for its array,
  a read behind the cells, or an access to memory that was freed.
\<close>

section \<open>Data\<close>

definition MAX_FILE_NAME_LEN :: nat where "MAX_FILE_NAME_LEN = 64"
definition MAX_PATTERN_NUM_IN_MODULE :: nat where "MAX_PATTERN_NUM_IN_MODULE = 200"
definition MAX_MODULE_NUM_IN_PG :: nat where "MAX_MODULE_NUM_IN_PG = 200"
definition PIC_DEFAULT_LOCK_SECOND :: int where "PIC_DEFAULT_LOCK_SECOND = 100"
definition TST_PATH :: string where "TST_PATH = ''./cfg/tst/''"

record module_info =
  ptdindex :: int
  ptdpatternname :: string
  ptdpatterntype :: string
  ptdpatternbit :: int
  displayX :: string
  ptddisptime :: int
  timclockfreq :: int
  movefile :: string
  edidfile :: string
  initcodefile :: string
  i3dfile :: string
  videofile :: string
  vcomfile :: string
  powertestfile :: string
  dynamicpattern :: string
  signaltest :: string
  timing_mode :: string

record module_set =
  powermainfile :: string
  timingmainfile :: string
  agingtime :: int
  str_ic_name :: string
  str_comm_cfg_name :: string
  str_monitor_cfg_name :: string
  ms_conns :: "module_info rec_list"
  max_conns :: nat
  cur_conns :: nat

record module_self =
  sf_index :: int
  sf_total :: int
  moduleselfName :: string
  modulePowerName :: string
  patternFirstName :: string

record module_self_set =
  mss_conns :: "module_self rec_list"
  mss_max :: nat
  mss_cur :: nat

type_synonym module_dbs = "string \<rightharpoonup> sql_result option \<times> sql_result option"

definition loop_zero :: loop_list where
  "loop_zero = \<lparr>ll_size = 0, ll_head = 0, ll_tail = 0, ll_items = [], ll_del = False, ll_deleted = []\<rparr>"

definition zero_set :: "nat \<Rightarrow> module_set" where
  "zero_set brk = \<lparr>powermainfile = [], timingmainfile = [], agingtime = 0, str_ic_name = [], str_comm_cfg_name = [],
     str_monitor_cfg_name = [], ms_conns = \<lparr>rl_loop = loop_zero, rl_recs = Map.empty, rl_brk = brk\<rparr>,
     max_conns = 0, cur_conns = 0\<rparr>"

section \<open>Reading the tables\<close>

text \<open>A string cell that is \<open>NULL\<close> leaves the field empty and is not passed; an integer cell is.\<close>

definition cell_str :: "nat \<Rightarrow> string option list \<Rightarrow> nat \<Rightarrow> (string \<times> nat) option" where
  "cell_str n result index = do {
     (c, index) \<leftarrow> next_cell result index;
     s \<leftarrow> (case c of None \<Rightarrow> Some [] | Some x \<Rightarrow> fits n x);
     Some (s, index)
   }"

definition cell_int :: "int \<Rightarrow> string option list \<Rightarrow> nat \<Rightarrow> (int \<times> nat) option" where
  "cell_int d result index =
     (if index < length result then Some (stringtoint (result ! index) d, index + 1) else None)"

definition load_pattern :: "string option list \<Rightarrow> nat \<Rightarrow> module_info option" where
  "load_pattern result index = do {
     (id, index) \<leftarrow> cell_int 0 result index;
     (name, index) \<leftarrow> cell_str MAX_FILE_NAME_LEN result index;
     (ty, index) \<leftarrow> cell_str (MAX_FILE_NAME_LEN div 2) result index;
     (bits, index) \<leftarrow> cell_int 0 result index;
     (res, index) \<leftarrow> cell_str (MAX_FILE_NAME_LEN div 2) result index;
     (disptime, index) \<leftarrow> cell_int PIC_DEFAULT_LOCK_SECOND result index;
     (freq, index) \<leftarrow> cell_int 0 result index;
     (move, index) \<leftarrow> cell_str MAX_FILE_NAME_LEN result index;
     (edid, index) \<leftarrow> cell_str MAX_FILE_NAME_LEN result index;
     (initcode, index) \<leftarrow> cell_str MAX_FILE_NAME_LEN result index;
     (i3d, index) \<leftarrow> cell_str MAX_FILE_NAME_LEN result index;
     (video, index) \<leftarrow> cell_str MAX_FILE_NAME_LEN result index;
     (vcom, index) \<leftarrow> cell_str MAX_FILE_NAME_LEN result index;
     (powertest, index) \<leftarrow> cell_str MAX_FILE_NAME_LEN result index;
     (dynamic, index) \<leftarrow> cell_str MAX_FILE_NAME_LEN result index;
     (signal, index) \<leftarrow> cell_str MAX_FILE_NAME_LEN result index;
     (timing, index) \<leftarrow> cell_str MAX_FILE_NAME_LEN result index;
     Some \<lparr>ptdindex = id, ptdpatternname = name, ptdpatterntype = ty, ptdpatternbit = bits, displayX = res,
           ptddisptime = disptime, timclockfreq = freq, movefile = move, edidfile = edid, initcodefile = initcode,
           i3dfile = i3d, videofile = video, vcomfile = vcom, powertestfile = powertest, dynamicpattern = dynamic,
           signaltest = signal, timing_mode = timing\<rparr>
   }"

fun load_patterns :: "string option list \<Rightarrow> nat \<Rightarrow> nat list \<Rightarrow> module_set \<Rightarrow> module_set option" where
  "load_patterns result column [] ms = Some ms"
| "load_patterns result column (i # is) ms = do {
     r \<leftarrow> load_pattern result ((i + 1) * column);
     (if cur_conns ms < max_conns ms
      then load_patterns result column is (ms\<lparr>ms_conns := rl_push r (ms_conns ms), cur_conns := cur_conns ms + 1\<rparr>)
      else Some ms)
   }"

definition dbpattern_configLoad :: "sql_result option \<Rightarrow> module_set \<Rightarrow> (int \<times> module_set) option" where
  "dbpattern_configLoad reply ms =
     (case reply of None \<Rightarrow> Some (-1, ms)
      | Some (row, column, result) \<Rightarrow> map_option (Pair 0) (load_patterns result column [0 ..< row] ms))"

text \<open>Every column is passed, and a cell that is \<open>NULL\<close> keeps what the field had.\<close>

definition keep_str :: "string \<Rightarrow> string option list \<Rightarrow> nat \<Rightarrow> string option" where
  "keep_str old result index =
     (if index < length result then (case result ! index of None \<Rightarrow> Some old | Some x \<Rightarrow> fits MAX_FILE_NAME_LEN x)
      else None)"

definition load_global :: "string option list \<Rightarrow> nat \<Rightarrow> module_set \<Rightarrow> module_set option" where
  "load_global result index ms = do {
     power \<leftarrow> keep_str (powermainfile ms) result index;
     timing \<leftarrow> keep_str (timingmainfile ms) result (index + 1);
     (aging, _) \<leftarrow> cell_int 0 result (index + 2);
     ic \<leftarrow> keep_str (str_ic_name ms) result (index + 3);
     comm \<leftarrow> keep_str (str_comm_cfg_name ms) result (index + 4);
     monitor \<leftarrow> keep_str (str_monitor_cfg_name ms) result (index + 5);
     Some (ms\<lparr>powermainfile := power, timingmainfile := timing, agingtime := aging, str_ic_name := ic,
              str_comm_cfg_name := comm, str_monitor_cfg_name := monitor\<rparr>)
   }"

fun load_globals :: "string option list \<Rightarrow> nat \<Rightarrow> nat list \<Rightarrow> module_set \<Rightarrow> module_set option" where
  "load_globals result column [] ms = Some ms"
| "load_globals result column (i # is) ms = do {
     ms \<leftarrow> load_global result ((i + 1) * column) ms;
     load_globals result column is ms
   }"

definition dbglobal_configLoad :: "sql_result option \<Rightarrow> module_set \<Rightarrow> (int \<times> module_set) option" where
  "dbglobal_configLoad reply ms =
     (case reply of None \<Rightarrow> Some (-1, ms)
      | Some (row, column, result) \<Rightarrow> map_option (Pair 0) (load_globals result column [0 ..< row] ms))"

text \<open>The set before the call counts only when the data base cannot be opened.\<close>

definition dbModuleOpen :: "module_dbs \<Rightarrow> nat list option \<Rightarrow> string option \<Rightarrow> module_set \<Rightarrow> (int \<times> module_set) option" where
  "dbModuleOpen dbs mem dbName ms =
     (case dbName of None \<Rightarrow> Some (-1, ms)
      | Some name \<Rightarrow>
        (case dbs name of None \<Rightarrow> Some (-2, ms)
         | Some (patterns, globals) \<Rightarrow> do {
             conns \<leftarrow> rl_create mem MAX_PATTERN_NUM_IN_MODULE True (rl_brk (ms_conns ms));
             let ms = (zero_set 0)\<lparr>max_conns := MAX_PATTERN_NUM_IN_MODULE, cur_conns := 0, ms_conns := conns\<rparr>;
             (_, ms) \<leftarrow> dbpattern_configLoad patterns ms;
             (_, ms) \<leftarrow> dbglobal_configLoad globals ms;
             Some (0, ms)
           }))"

section \<open>The module that is loaded\<close>

record pattern_db =
  pd_set :: module_set
  pd_name :: string
  pd_init :: bool

definition dbModuleClose :: "pattern_db \<Rightarrow> pattern_db option" where
  "dbModuleClose st = do {
     conns \<leftarrow> rl_cleanup (ms_conns (pd_set st));
     Some (st\<lparr>pd_set := (pd_set st)\<lparr>ms_conns := conns\<rparr>\<rparr>)
   }"

definition dbModuleInit :: "module_dbs \<Rightarrow> nat list option \<Rightarrow> string option \<Rightarrow> pattern_db \<Rightarrow> (int \<times> pattern_db) option" where
  "dbModuleInit dbs mem pName st = do {
     st \<leftarrow> dbModuleClose st;
     (r, ms) \<leftarrow> dbModuleOpen dbs mem pName (pd_set st);
     (if r = 0 then do {
        name \<leftarrow> fits 128 (case pName of None \<Rightarrow> [] | Some n \<Rightarrow> n);
        Some (0, st\<lparr>pd_set := ms, pd_init := True, pd_name := name\<rparr>)
      }
      else Some (-1, st\<lparr>pd_set := ms, pd_init := False\<rparr>))
   }"

definition isdbMoudlelInit :: "pattern_db \<Rightarrow> bool" where "isdbMoudlelInit st = pd_init st"

definition dbModuleTstPtnNum :: "pattern_db \<Rightarrow> nat" where "dbModuleTstPtnNum st = cur_conns (pd_set st)"

text \<open>The results of the searches are \<open>NULL\<close> or a pattern.\<close>

definition search_set :: "(module_info \<Rightarrow> bool) \<Rightarrow> pattern_db \<Rightarrow> module_info option option" where
  "search_set P st = do { p \<leftarrow> rl_search P (ms_conns (pd_set st)); rl_at (ms_conns (pd_set st)) p }"

definition searchPattern :: "int \<Rightarrow> module_info \<Rightarrow> bool" where "searchPattern ptnId m \<longleftrightarrow> ptdindex m = ptnId"

definition dbModuleGetPatternById :: "int \<Rightarrow> pattern_db \<Rightarrow> module_info option option" where
  "dbModuleGetPatternById ptnId st = search_set (searchPattern ptnId) st"



definition dbModuleGetPatternByLoopId :: "nat \<Rightarrow> pattern_db \<Rightarrow> module_info option option" where
  "dbModuleGetPatternByLoopId loopId st = rl_first (ms_conns (pd_set st)) loopId"

text \<open>The names are given out when they are not empty; the array they go to has room for them.\<close>

definition get_name :: "string \<Rightarrow> int \<times> string option" where
  "get_name s = (if s = [] then (-1, None) else (0, Some s))"




definition db_module_get_comm_cfg_name :: "pattern_db \<Rightarrow> int \<times> string option" where
  "db_module_get_comm_cfg_name st = get_name (str_comm_cfg_name (pd_set st))"

definition db_module_get_monitor_cfg_name :: "pattern_db \<Rightarrow> int \<times> string option" where
  "db_module_get_monitor_cfg_name st = get_name (str_monitor_cfg_name (pd_set st))"

section \<open>All modules\<close>

text \<open>\<open>dir\<close> is what the directory holds, \<open>None\<close> when it cannot be opened.\<close>

fun add_modules :: "string list \<Rightarrow> module_self_set \<Rightarrow> module_self_set option" where
  "add_modules [] s = Some s"
| "add_modules (d # ds) s =
     (if d = ''.'' \<or> d = ''..'' then add_modules ds s
      else do {
        name \<leftarrow> fits (MAX_FILE_NAME_LEN div 2) d;
        let r = \<lparr>sf_index = int (mss_cur s), sf_total = 0, moduleselfName = name, modulePowerName = [], patternFirstName = []\<rparr>;
        add_modules ds (s\<lparr>mss_conns := rl_push r (mss_conns s), mss_cur := mss_cur s + 1\<rparr>)
      })"

definition dbInitModuleSelf :: "string list option \<Rightarrow> nat list option \<Rightarrow> module_self_set \<Rightarrow> (int \<times> module_self_set) option" where
  "dbInitModuleSelf dir mem s = do {
     conns \<leftarrow> rl_create mem MAX_MODULE_NUM_IN_PG False (rl_brk (mss_conns s));
     let s = \<lparr>mss_conns = conns, mss_max = MAX_MODULE_NUM_IN_PG, mss_cur = 0\<rparr>;
     (case dir of None \<Rightarrow> Some (-1, s)
      | Some ds \<Rightarrow> do {
          s \<leftarrow> add_modules ds s;
          Some (int (mss_cur s), s)
        })
   }"

definition searchModuleName :: "string \<Rightarrow> module_self \<Rightarrow> bool" where "searchModuleName name m \<longleftrightarrow> moduleselfName m = name"
definition searchModuleIndex :: "int \<Rightarrow> module_self \<Rightarrow> bool" where "searchModuleIndex i m \<longleftrightarrow> sf_index m = i"

text \<open>What the record of a module gets from its data base. The first slot of the queue is taken for
  the first pattern even when there is none.\<close>

definition fill_module :: "module_set \<Rightarrow> module_self \<Rightarrow> module_self option" where
  "fill_module ms m = do {
     first \<leftarrow> rl_first (ms_conns ms) 0;
     Some (m\<lparr>modulePowerName := take 31 (powermainfile ms),
             patternFirstName := (case first of None \<Rightarrow> patternFirstName m | Some f \<Rightarrow> take 31 (ptdpatternname f)),
             sf_total := int (cur_conns ms)\<rparr>)
   }"

definition self_get ::
  "module_dbs \<Rightarrow> nat list option \<Rightarrow> nat \<Rightarrow> (module_self \<Rightarrow> bool) \<Rightarrow> module_self_set \<Rightarrow> (module_self option \<times> module_self_set) option" where
  "self_get dbs mem brk P s = do {
     p \<leftarrow> rl_search P (mss_conns s);
     m \<leftarrow> rl_at (mss_conns s) p;
     (case m of None \<Rightarrow> Some (None, s)
      | Some m \<Rightarrow> do {
          path \<leftarrow> fits 256 (TST_PATH @ ''/'' @ moduleselfName m);
          (r, ms) \<leftarrow> dbModuleOpen dbs mem (Some path) (zero_set brk);
          (if r = 0 then do {
             m \<leftarrow> fill_module ms m;
             _ \<leftarrow> rl_cleanup (ms_conns ms);
             Some (Some m, s\<lparr>mss_conns := (mss_conns s)\<lparr>rl_recs := (rl_recs (mss_conns s))(p \<mapsto> m)\<rparr>\<rparr>)
           }
           else Some (Some m, s))
        })
   }"

definition dbModuleSelfGetByName ::
  "module_dbs \<Rightarrow> nat list option \<Rightarrow> nat \<Rightarrow> string \<Rightarrow> module_self_set \<Rightarrow> (module_self option \<times> module_self_set) option" where
  "dbModuleSelfGetByName dbs mem brk name s = self_get dbs mem brk (searchModuleName name) s"

definition dbModuleSelfGetByIndex ::
  "module_dbs \<Rightarrow> nat list option \<Rightarrow> nat \<Rightarrow> int \<Rightarrow> module_self_set \<Rightarrow> (module_self option \<times> module_self_set) option" where
  "dbModuleSelfGetByIndex dbs mem brk index s = self_get dbs mem brk (searchModuleIndex index) s"

section \<open>Tables that are loaded\<close>

text \<open>The cells of a table of patterns without \<open>NULL\<close>.\<close>

definition pattern_cells :: "module_info \<Rightarrow> string option list" where
  "pattern_cells m = map Some [d_str (ptdindex m), ptdpatternname m, ptdpatterntype m, d_str (ptdpatternbit m), displayX m,
     d_str (ptddisptime m), d_str (timclockfreq m), movefile m, edidfile m, initcodefile m, i3dfile m, videofile m,
     vcomfile m, powertestfile m, dynamicpattern m, signaltest m, timing_mode m, [], [], []]"

definition pattern_table :: "module_info list \<Rightarrow> sql_result" where
  "pattern_table ms = (length ms, 20, replicate 20 (Some ''column'') @ concat (map pattern_cells ms))"

definition fits_pattern :: "module_info \<Rightarrow> bool" where
  "fits_pattern m \<longleftrightarrow> int32 (ptdindex m) \<and> int32 (ptdpatternbit m) \<and> int32 (ptddisptime m) \<and> int32 (timclockfreq m)
     \<and> length (ptdpatterntype m) < MAX_FILE_NAME_LEN div 2 \<and> length (displayX m) < MAX_FILE_NAME_LEN div 2
     \<and> list_all (\<lambda>s. length s < MAX_FILE_NAME_LEN) [ptdpatternname m, movefile m, edidfile m, initcodefile m, i3dfile m,
         videofile m, vcomfile m, powertestfile m, dynamicpattern m, signaltest m, timing_mode m]"

lemma length_pattern_cells [simp]: "length (pattern_cells m) = 20"
  by (simp add: pattern_cells_def)

lemma cell_str_at: "index < length r \<Longrightarrow> r ! index = Some x \<Longrightarrow> length x < n \<Longrightarrow> cell_str n r index = Some (x, index + 1)"
  by (simp add: cell_str_def next_cell_def)

lemma cell_int_at: "index < length r \<Longrightarrow> r ! index = Some (d_str i) \<Longrightarrow> int32 i \<Longrightarrow> cell_int d r index = Some (i, index + 1)"
  by (simp add: cell_int_def stringtoint_def strtol_d_str)

lemma pattern_table_at:
  assumes "i < length ms" "k < 20"
  shows "(replicate 20 (Some ''column'') @ concat (map pattern_cells ms)) ! ((i + 1) * 20 + k) = pattern_cells (ms ! i) ! k"
    and "(i + 1) * 20 + k < length (replicate 20 (Some ''column'') @ concat (map pattern_cells ms))"
proof -
  let ?r = "replicate 20 (Some ''column'') @ concat (map pattern_cells ms)"
  have "length (concat (map pattern_cells ms)) = 20 * length ms" by (induction ms) simp_all
  then show lt: "(i + 1) * 20 + k < length ?r" using assms by simp
  have "drop ((i + 1) * 20) ?r = drop (i * 20) (concat (map pattern_cells ms))" by (simp add: add.commute)
  also have "\<dots> = concat (map pattern_cells (drop i ms))" by (rule drop_concat_equal) simp
  also have "\<dots> = pattern_cells (ms ! i) @ concat (map pattern_cells (drop (Suc i) ms))"
    using assms(1) by (simp add: Cons_nth_drop_Suc [symmetric])
  finally have d: "drop ((i + 1) * 20) ?r = pattern_cells (ms ! i) @ concat (map pattern_cells (drop (Suc i) ms))" .
  have "?r ! ((i + 1) * 20 + k) = drop ((i + 1) * 20) ?r ! k" using lt by (intro nth_drop [symmetric]) simp
  then show "?r ! ((i + 1) * 20 + k) = pattern_cells (ms ! i) ! k" unfolding d using assms(2) by (simp add: nth_append)
qed

lemma load_pattern_at:
  assumes at: "\<And>k. k < 20 \<Longrightarrow> r ! (b + k) = pattern_cells m ! k \<and> b + k < length r" and m: "fits_pattern m"
  shows "load_pattern r b = Some m"
proof -
  have b: "r ! b = pattern_cells m ! 0" "b < length r" using at [of 0] by simp_all
  show ?thesis
    unfolding load_pattern_def
    using at m by (simp add: cell_int_at cell_str_at b pattern_cells_def fits_pattern_def add.assoc del: One_nat_def add_2_eq_Suc')
qed

text \<open>The newest 199 of the first 200 patterns stay, and all 200 are counted.\<close>

definition kept_patterns :: "module_info list \<Rightarrow> module_info list" where
  "kept_patterns ms = (if length ms < 200 then ms else tl (take 200 ms))"

lemma kept_Suc:
  assumes "i < length ms" "i < 200"
  shows "(if length (kept_patterns (take i ms)) = 199 then tl (kept_patterns (take i ms)) else kept_patterns (take i ms)) @ [ms ! i]
    = kept_patterns (take (Suc i) ms)"
proof (cases "i = 199")
  case True
  have "take 200 ms = take 199 ms @ [ms ! 199]" using True assms(1) take_Suc_conv_app_nth [of 199 ms] by simp
  moreover have "take 199 ms \<noteq> []" using True assms(1) by auto
  ultimately show ?thesis using True assms by (simp add: kept_patterns_def)
next
  case False
  then show ?thesis using assms by (simp add: kept_patterns_def take_Suc_conv_app_nth)
qed

lemma load_patterns_ok:
  assumes fit: "\<forall>m \<in> set ms. fits_pattern m" and r: "r = snd (snd (pattern_table ms))"
  shows "k \<le> length ms \<Longrightarrow> i = length ms - k \<Longrightarrow> rl_ok (ms_conns s) \<Longrightarrow> rl_cap (ms_conns s) = 199 \<Longrightarrow> max_conns s = 200
    \<Longrightarrow> cur_conns s = min i 200 \<Longrightarrow> rl_rows (ms_conns s) = kept_patterns (take (min i 200) ms)
    \<Longrightarrow> \<exists>x. load_patterns r 20 [i ..< length ms] s = Some (s\<lparr>ms_conns := x, cur_conns := min (length ms) 200\<rparr>)
      \<and> rl_ok x \<and> rl_rows x = kept_patterns (take (min (length ms) 200) ms)"
proof (induction k arbitrary: s i)
  case 0
  then show ?case by (intro exI [of _ "ms_conns s"]) simp
next
  case (Suc k)
  have i: "i < length ms" "[i ..< length ms] = i # [Suc i ..< length ms]" using Suc.prems(1,2) by (simp_all add: upt_conv_Cons)
  have idx: "k \<le> length ms" "Suc i = length ms - k" using Suc.prems(1,2) by simp_all
  have "fits_pattern (ms ! i)" using fit i(1) by simp
  then have l: "load_pattern r ((i + 1) * 20) = Some (ms ! i)"
    using pattern_table_at [OF i(1)] by (intro load_pattern_at) (simp_all add: r pattern_table_def)
  show ?case
  proof (cases "i < 200")
    case True
    let ?s = "s\<lparr>ms_conns := rl_push (ms ! i) (ms_conns s), cur_conns := cur_conns s + 1\<rparr>"
    note push = rl_push_ok [OF Suc.prems(3), of "ms ! i"]
    have old: "rl_rows (ms_conns s) = kept_patterns (take i ms)" using Suc.prems(7) True by simp
    have "rl_rows (rl_push (ms ! i) (ms_conns s)) = kept_patterns (take (Suc i) ms)"
      unfolding push(3) old Suc.prems(4) by (rule kept_Suc [OF i(1) True])
    then have rows: "rl_rows (ms_conns ?s) = kept_patterns (take (min (Suc i) 200) ms)" using True by simp
    obtain x where "load_patterns r 20 [Suc i ..< length ms] ?s = Some (?s\<lparr>ms_conns := x, cur_conns := min (length ms) 200\<rparr>)"
      "rl_ok x" "rl_rows x = kept_patterns (take (min (length ms) 200) ms)"
      using Suc.IH [of "Suc i" ?s, OF idx _ _ _ _ rows] Suc.prems(4-6) push(1,2) True by auto
    then show ?thesis using l True Suc.prems(5,6) unfolding i(2) by (intro exI [of _ x]) simp
  next
    case False
    then show ?thesis using l Suc.prems i unfolding i(2) by (intro exI [of _ "ms_conns s"]) simp
  qed
qed

definition global_table :: "string \<Rightarrow> string \<Rightarrow> int \<Rightarrow> string \<Rightarrow> string \<Rightarrow> string \<Rightarrow> sql_result" where
  "global_table pwr timing aging ic comm monitor =
     (1, 7, replicate 7 (Some ''column'') @ map Some [pwr, timing, d_str aging, ic, comm, monitor, []])"

lemma load_global_ok:
  assumes "list_all (\<lambda>s. length s < MAX_FILE_NAME_LEN) [pwr, timing, ic, comm, monitor]" "int32 aging"
  shows "dbglobal_configLoad (Some (global_table pwr timing aging ic comm monitor)) s
    = Some (0, s\<lparr>powermainfile := pwr, timingmainfile := timing, agingtime := aging, str_ic_name := ic,
        str_comm_cfg_name := comm, str_monitor_cfg_name := monitor\<rparr>)"
  using assms
  by (simp add: dbglobal_configLoad_def global_table_def load_global_def keep_str_def cell_int_def stringtoint_def
      strtol_d_str nth_append)

definition module_file :: "module_dbs \<Rightarrow> string \<Rightarrow> module_info list \<Rightarrow> string \<Rightarrow> string \<Rightarrow> int \<Rightarrow> string \<Rightarrow> string \<Rightarrow> string \<Rightarrow> bool" where
  "module_file dbs name ms pwr timing aging ic comm monitor \<longleftrightarrow>
     dbs name = Some (Some (pattern_table ms), Some (global_table pwr timing aging ic comm monitor))
     \<and> (\<forall>m \<in> set ms. fits_pattern m) \<and> int32 aging
     \<and> list_all (\<lambda>s. length s < MAX_FILE_NAME_LEN) [pwr, timing, ic, comm, monitor]"

lemma dbModuleOpen_ok:
  assumes f: "module_file dbs name ms pwr timing aging ic comm monitor" and blk: "length blk = 200"
    and brk: "0 < rl_brk (ms_conns s)"
  shows "\<exists>s'. dbModuleOpen dbs (Some blk) (Some name) s = Some (0, s') \<and> rl_ok (ms_conns s')
    \<and> rl_rows (ms_conns s') = kept_patterns ms \<and> cur_conns s' = min (length ms) 200
    \<and> powermainfile s' = pwr \<and> timingmainfile s' = timing \<and> agingtime s' = aging \<and> str_ic_name s' = ic
    \<and> str_comm_cfg_name s' = comm \<and> str_monitor_cfg_name s' = monitor"
proof -
  obtain x :: "module_info rec_list" where x: "rl_create (Some blk) MAX_PATTERN_NUM_IN_MODULE True (rl_brk (ms_conns s)) = Some x" "rl_ok x"
    "rl_rows x = []" "rl_cap x = 199"
    using rl_create_ok [of blk MAX_PATTERN_NUM_IN_MODULE "rl_brk (ms_conns s)" True] blk brk
    by (auto simp: MAX_PATTERN_NUM_IN_MODULE_def)
  let ?s = "(zero_set 0)\<lparr>max_conns := MAX_PATTERN_NUM_IN_MODULE, cur_conns := 0, ms_conns := x\<rparr>"
  have fit: "\<forall>m \<in> set ms. fits_pattern m" using f by (simp add: module_file_def)
  obtain y where y: "load_patterns (snd (snd (pattern_table ms))) 20 [0 ..< length ms] ?s
      = Some (?s\<lparr>ms_conns := y, cur_conns := min (length ms) 200\<rparr>)" "rl_ok y"
    "rl_rows y = kept_patterns (take (min (length ms) 200) ms)"
    using load_patterns_ok [OF fit refl, of "length ms" 0 ?s] x
    by (auto simp: MAX_PATTERN_NUM_IN_MODULE_def kept_patterns_def)
  have kept: "kept_patterns (take (min (length ms) 200) ms) = kept_patterns ms" by (simp add: kept_patterns_def)
  have "dbpattern_configLoad (Some (pattern_table ms)) ?s = Some (0, ?s\<lparr>ms_conns := y, cur_conns := min (length ms) 200\<rparr>)"
    using y(1) by (simp add: dbpattern_configLoad_def pattern_table_def)
  then show ?thesis using f x(1) y(2,3) load_global_ok [of pwr timing ic comm monitor aging]
    unfolding kept by (simp add: dbModuleOpen_def module_file_def)
qed

section \<open>Properties\<close>

definition pd_ready :: "pattern_db \<Rightarrow> bool" where
  "pd_ready st \<longleftrightarrow> rl_ok (ms_conns (pd_set st)) \<or> (\<exists>brk. 0 < brk \<and> pd_set st = zero_set brk)"

lemma close_ok:
  assumes "pd_ready st"
  shows "\<exists>st'. dbModuleClose st = Some st' \<and> 0 < rl_brk (ms_conns (pd_set st'))
    \<and> (rl_ok (ms_conns (pd_set st)) \<longrightarrow> ll_items (rl_loop (ms_conns (pd_set st'))) = []
        \<and> ll_head (rl_loop (ms_conns (pd_set st'))) = ll_head (rl_loop (ms_conns (pd_set st)))
        \<and> ll_tail (rl_loop (ms_conns (pd_set st'))) = ll_tail (rl_loop (ms_conns (pd_set st)))
        \<and> ll_size (rl_loop (ms_conns (pd_set st'))) \<noteq> 0)"
proof (cases "rl_ok (ms_conns (pd_set st))")
  case True
  from rl_cleanup_ok [OF this] rl_okD(1,3) [OF this] show ?thesis
    by (auto simp: dbModuleClose_def ll_inv_def)
next
  case False
  then obtain brk where "0 < brk" "pd_set st = zero_set brk" using assms by (auto simp: pd_ready_def)
  then show ?thesis using False
    by (simp add: dbModuleClose_def rl_cleanup_def zero_set_def loop_zero_def loop_cleanup_def)
qed

lemma init_ok:
  assumes "pd_ready st" "module_file dbs name ms pwr timing aging ic comm monitor" "length blk = 200" "length name < 128"
  shows "\<exists>st'. dbModuleInit dbs (Some blk) (Some name) st = Some (0, st') \<and> rl_ok (ms_conns (pd_set st'))
    \<and> rl_rows (ms_conns (pd_set st')) = kept_patterns ms \<and> cur_conns (pd_set st') = min (length ms) 200
    \<and> powermainfile (pd_set st') = pwr \<and> timingmainfile (pd_set st') = timing \<and> str_ic_name (pd_set st') = ic
    \<and> pd_name st' = name \<and> pd_init st'"
proof -
  obtain st1 where 1: "dbModuleClose st = Some st1" "0 < rl_brk (ms_conns (pd_set st1))" using close_ok [OF assms(1)] by blast
  from dbModuleOpen_ok [OF assms(2,3) 1(2)] show ?thesis using 1(1) assms(4) by (auto simp: dbModuleInit_def)
qed

lemma search_set_ok: "rl_ok (ms_conns (pd_set st)) \<Longrightarrow> search_set P st = Some (List.find P (rl_rows (ms_conns (pd_set st))))"
  using rl_search_ok [of "ms_conns (pd_set st)" P] by (auto simp: search_set_def)


definition demo_pattern :: "int \<Rightarrow> module_info" where
  "demo_pattern i = \<lparr>ptdindex = i, ptdpatternname = ''white'', ptdpatterntype = ''bmp'', ptdpatternbit = 8, displayX = ''720x1280'',
     ptddisptime = 1, timclockfreq = 0, movefile = [], edidfile = [], initcodefile = [], i3dfile = [], videofile = [],
     vcomfile = (if i = 2 then ''vcom'' else []), powertestfile = [], dynamicpattern = [], signaltest = [], timing_mode = []\<rparr>"

lemma demo_fits_pattern: "int32 i \<Longrightarrow> fits_pattern (demo_pattern i)"
  by (simp add: fits_pattern_def demo_pattern_def MAX_FILE_NAME_LEN_def int32_def)

definition demo_dbs :: "module_info list \<Rightarrow> module_dbs" where
  "demo_dbs ms = [''tst'' \<mapsto> (Some (pattern_table ms), Some (global_table ''p'' ''t'' 0 ''hx'' [] []))]"

lemma demo_file: "\<forall>m \<in> set ms. fits_pattern m \<Longrightarrow> module_file (demo_dbs ms) ''tst'' ms ''p'' ''t'' 0 ''hx'' [] []"
  by (simp add: module_file_def demo_dbs_def int32_def MAX_FILE_NAME_LEN_def)

definition demo_db_state :: pattern_db where
  "demo_db_state = \<lparr>pd_set = zero_set 1, pd_name = [], pd_init = False\<rparr>"

lemma demo_db_ready: "pd_ready demo_db_state"
  by (auto simp: pd_ready_def demo_db_state_def)


text \<open>
  Of a module of 200 patterns or more the first one is never found, while the program counts
  200; the other 199 are found.
\<close>

theorem first_of_two_hundred_is_lost:
  assumes "pd_ready st" "module_file dbs name ms pwr timing aging ic comm monitor" "length blk = 200" "length name < 128"
    and "200 \<le> length ms" "distinct (map ptdindex ms)"
  shows "\<exists>st'. dbModuleInit dbs (Some blk) (Some name) st = Some (0, st') \<and> dbModuleTstPtnNum st' = 200
    \<and> dbModuleGetPatternById (ptdindex (hd ms)) st' = Some None
    \<and> (\<forall>i. 0 < i \<and> i < 200 \<longrightarrow> dbModuleGetPatternById (ptdindex (ms ! i)) st' = Some (Some (ms ! i)))"
proof -
  obtain st' where st': "dbModuleInit dbs (Some blk) (Some name) st = Some (0, st')" "rl_ok (ms_conns (pd_set st'))"
    "rl_rows (ms_conns (pd_set st')) = kept_patterns ms" "cur_conns (pd_set st') = min (length ms) 200"
    using init_ok [OF assms(1-4)] by blast
  obtain m0 ms' where ms: "take 200 ms = m0 # ms'" "hd ms = m0" using assms(5) by (cases ms) auto
  have kept: "kept_patterns ms = ms'" using assms(5) ms(1) by (simp add: kept_patterns_def)
  have dist: "distinct (map ptdindex (m0 # ms'))" using assms(6) unfolding ms(1) [symmetric] take_map [symmetric] by (rule distinct_take)
  have get: "dbModuleGetPatternById id st' = Some (List.find (\<lambda>m. ptdindex m = id) ms')" for id
    by (simp add: dbModuleGetPatternById_def search_set_ok [OF st'(2)] st'(3) kept searchPattern_def [abs_def])
  have "List.find (\<lambda>m. ptdindex m = ptdindex m0) ms' = None"
    unfolding find_None_iff using dist by (auto simp: image_iff)
  moreover have "List.find (\<lambda>m. ptdindex m = ptdindex (ms ! i)) ms' = Some (ms ! i)" if i: "0 < i" "i < 200" for i
  proof -
    have "ms ! i = (m0 # ms') ! i" unfolding ms(1) [symmetric] using i by simp
    moreover have "i < length (m0 # ms')" unfolding ms(1) [symmetric] using i assms(5) by simp
    ultimately have member: "ms ! i \<in> set ms'" using i(1) by (cases i) auto
    have find: "List.find (\<lambda>m. ptdindex m = ptdindex x) xs = Some x" if "x \<in> set xs" "distinct (map ptdindex xs)" for x xs
      using that by (induction xs) (auto simp: image_iff)
    show ?thesis by (rule find [OF member]) (use dist in simp)
  qed
  ultimately show ?thesis using st'(1,4) assms(5) ms(2) get by (intro exI [of _ st']) (simp add: dbModuleTstPtnNum_def)
qed

theorem first_of_two_hundred_is_lost_witness:
  "\<exists>st'. dbModuleInit (demo_dbs (map (\<lambda>i. demo_pattern (int i)) [0 ..< 200])) (Some (replicate 200 0)) (Some ''tst'') demo_db_state
      = Some (0, st') \<and> dbModuleTstPtnNum st' = 200 \<and> dbModuleGetPatternById 0 st' = Some None"
proof -
  let ?ms = "map (\<lambda>i. demo_pattern (int i)) [0 ..< 200]"
  have "\<forall>m \<in> set ?ms. fits_pattern m" by (auto intro!: demo_fits_pattern simp: int32_def)
  moreover have "distinct (map ptdindex ?ms)" by (simp add: demo_pattern_def comp_def distinct_map inj_on_def)
  moreover have "ptdindex (hd ?ms) = 0" by (simp add: hd_map demo_pattern_def)
  ultimately show ?thesis
    using first_of_two_hundred_is_lost [OF demo_db_ready demo_file, of ?ms "replicate 200 0"] by (simp only: length_replicate) auto
qed

text \<open>
  After a module was loaded and a second one could not be opened, looking for a pattern walks
  over freed memory and the next load frees it again.
\<close>

theorem failed_load_leaves_freed_patterns:
  assumes "pd_ready st" "module_file dbs name ms pwr timing aging ic comm monitor" "length blk = 200" "length name < 128"
    and "ms \<noteq> []" "dbs bad = None"
  shows "\<exists>st1 st2. dbModuleInit dbs (Some blk) (Some name) st = Some (0, st1) \<and> dbModuleInit dbs mem (Some bad) st1 = Some (-1, st2)
    \<and> \<not> isdbMoudlelInit st2 \<and> dbModuleGetPatternById ptn st2 = None \<and> dbModuleInit dbs mem' name' st2 = None"
proof -
  obtain st1 where st1: "dbModuleInit dbs (Some blk) (Some name) st = Some (0, st1)" "rl_ok (ms_conns (pd_set st1))"
    "rl_rows (ms_conns (pd_set st1)) = kept_patterns ms"
    using init_ok [OF assms(1-4)] by blast
  have "pd_ready st1" using st1(2) by (simp add: pd_ready_def)
  from close_ok [OF this] st1(2) obtain st2 where st2: "dbModuleClose st1 = Some st2"
    "ll_items (rl_loop (ms_conns (pd_set st2))) = []" "ll_size (rl_loop (ms_conns (pd_set st2))) \<noteq> 0"
    "ll_head (rl_loop (ms_conns (pd_set st2))) = ll_head (rl_loop (ms_conns (pd_set st1)))"
    "ll_tail (rl_loop (ms_conns (pd_set st2))) = ll_tail (rl_loop (ms_conns (pd_set st1)))" by blast
  have "length (rl_rows (ms_conns (pd_set st1))) \<noteq> 0"
    unfolding st1(3) using assms(5) by (cases ms) (auto simp: kept_patterns_def)
  then have "ll_head (rl_loop (ms_conns (pd_set st1))) \<noteq> ll_tail (rl_loop (ms_conns (pd_set st1)))"
    by (auto simp: rl_view_def ll_used_def)
  then have "rl_search P (ms_conns (pd_set st2)) = None" for P using st2 by (simp add: rl_search_def)
  moreover have "rl_cleanup (ms_conns (pd_set st2)) = None" using st2(2,3) by (simp add: rl_cleanup_def)
  moreover have "dbModuleInit dbs mem (Some bad) st1 = Some (-1, st2\<lparr>pd_init := False\<rparr>)"
    using st2(1) assms(6) by (simp add: dbModuleInit_def dbModuleOpen_def)
  ultimately show ?thesis using st1(1)
    by (intro exI [of _ st1] exI [of _ "st2\<lparr>pd_init := False\<rparr>"])
      (simp add: isdbMoudlelInit_def dbModuleGetPatternById_def search_set_def dbModuleInit_def dbModuleClose_def)
qed

theorem failed_load_leaves_freed_patterns_witness:
  "\<exists>st1 st2. dbModuleInit (demo_dbs [demo_pattern 1]) (Some (replicate 200 0)) (Some ''tst'') demo_db_state = Some (0, st1)
    \<and> dbModuleInit (demo_dbs [demo_pattern 1]) None (Some ''other'') st1 = Some (-1, st2)
    \<and> \<not> isdbMoudlelInit st2 \<and> dbModuleGetPatternById 1 st2 = None \<and> dbModuleInit (demo_dbs [demo_pattern 1]) None None st2 = None"
  by (rule failed_load_leaves_freed_patterns [OF demo_db_ready demo_file])
    (simp_all add: demo_fits_pattern int32_def demo_dbs_def)

end
