(* ===== verification/MsTimer.thy ===== *)
theory MsTimer
  imports Prelude
begin

text \<open>
  Timers of the OS layer, \<open>pgos/MsOS_timer.c\<close>: one linked list of timers, walked by a task
  every millisecond. A timer is a record with the address of its cell, which is also its
  identifier; the clock is a parameter, the sequence of values that
  \<open>MsOS_GetSystemTime\<close> returns, one per timer and round. A callback is recorded as the pair
  of its function and the timer it is called with. The callbacks run while the task holds the
  list's semaphore, so they cannot change the list. Shown: the addresses stay distinct, a
  timer is served as if it were alone, the number of calls is the number of due times (none
  early, none lost, no drift) while the 32-bit times do not wrap, and what a wrap does.
\<close>

section \<open>Timers\<close>

record ms_timer =
  tm_addr :: u32
  tm_start :: bool
  tm_first :: u32
  tm_period :: u32
  tm_cb :: u32
  tm_init :: u32
  tm_times :: u32

type_synonym timer_call = "u32 \<times> u32"

definition timer_fire :: "ms_timer \<Rightarrow> timer_call list" where
  "timer_fire t = (if tm_cb t \<noteq> 0 then [(tm_cb t, tm_addr t)] else [])"

text \<open>The body of the walk for one timer, at the time that was read for it.\<close>

definition timer_step :: "ms_timer \<Rightarrow> u32 \<Rightarrow> ms_timer \<times> timer_call list" where
  "timer_step t now =
     (if tm_start t then
        if tm_times t = 0 then
          if tm_init t + tm_first t \<le> now then (t\<lparr>tm_times := 1\<rparr>, timer_fire t)
          else (t, [])
        else if tm_period t \<noteq> 0 then
          if tm_init t + tm_first t + tm_period t * tm_times t \<le> now
          then (t\<lparr>tm_times := tm_times t + 1\<rparr>, timer_fire t)
          else (t, [])
        else (t, [])
      else (t, []))"

fun timer_walk :: "(nat \<Rightarrow> u32) \<Rightarrow> nat \<Rightarrow> ms_timer list \<Rightarrow> ms_timer list \<times> timer_call list" where
  "timer_walk clk n [] = ([], [])"
| "timer_walk clk n (t # ts) =
     (let (t', c) = timer_step t (clk n); (ts', cs) = timer_walk clk (Suc n) ts
      in (t' # ts', c @ cs))"

text \<open>\<open>k\<close> rounds of the task, from the \<open>n\<close>-th reading of the clock on.\<close>

fun TimerProcess :: "(nat \<Rightarrow> u32) \<Rightarrow> nat \<Rightarrow> nat \<Rightarrow> ms_timer list \<Rightarrow> ms_timer list \<times> timer_call list" where
  "TimerProcess clk 0 n l = (l, [])"
| "TimerProcess clk (Suc k) n l =
     (let (l', c) = timer_walk clk n l; (l'', cs) = TimerProcess clk k (n + length l) l'
      in (l'', c @ cs))"

section \<open>The list\<close>

fun link_timer :: "ms_timer list \<Rightarrow> ms_timer \<Rightarrow> ms_timer list" where
  "link_timer [] t = [t]"
| "link_timer (p # ps) t = p # link_timer ps t"

text \<open>The allocator gives the address of the new cell, or 0. The start time of a timer that is
  created stopped keeps the content of the fresh memory.\<close>

definition MsOS_CreateTimer ::
  "u32 \<Rightarrow> u32 \<Rightarrow> u32 \<Rightarrow> u32 \<Rightarrow> u32 \<Rightarrow> u32 \<Rightarrow> bool \<Rightarrow> ms_timer list \<Rightarrow> u32 \<times> ms_timer list" where
  "MsOS_CreateTimer new junk now cb first period start l =
     (if new \<noteq> 0 then
        (new, link_timer l \<lparr>tm_addr = new, tm_start = start, tm_first = first,
           tm_period = period, tm_cb = cb, tm_init = (if start then now else junk),
           tm_times = 0\<rparr>)
      else (0, l))"

fun MsOS_DeleteTimer :: "u32 \<Rightarrow> ms_timer list \<Rightarrow> ms_timer list" where
  "MsOS_DeleteTimer i [] = []"
| "MsOS_DeleteTimer i (t # ts) = (if tm_addr t = i then ts else t # MsOS_DeleteTimer i ts)"

fun with_timer :: "(ms_timer \<Rightarrow> ms_timer) \<Rightarrow> u32 \<Rightarrow> ms_timer list \<Rightarrow> ms_timer list" where
  "with_timer f i [] = []"
| "with_timer f i (t # ts) = (if tm_addr t = i then f t # ts else t # with_timer f i ts)"

definition MsOS_StartTimer :: "u32 \<Rightarrow> u32 \<Rightarrow> ms_timer list \<Rightarrow> ms_timer list" where
  "MsOS_StartTimer now = with_timer (\<lambda>t. t\<lparr>tm_start := True, tm_init := now, tm_times := 0\<rparr>)"

definition MsOS_StopTimer :: "u32 \<Rightarrow> u32 \<Rightarrow> ms_timer list \<Rightarrow> ms_timer list" where
  "MsOS_StopTimer now = with_timer (\<lambda>t. t\<lparr>tm_start := False, tm_init := now, tm_times := 0\<rparr>)"

definition MsOS_ResetTimer ::
  "u32 \<Rightarrow> u32 \<Rightarrow> u32 \<Rightarrow> bool \<Rightarrow> u32 \<Rightarrow> ms_timer list \<Rightarrow> ms_timer list" where
  "MsOS_ResetTimer now first period start =
     with_timer (\<lambda>t. t\<lparr>tm_start := start, tm_first := first, tm_period := period,
                        tm_init := now, tm_times := 0\<rparr>)"

section \<open>The list keeps its timers apart\<close>

definition timers_ok :: "ms_timer list \<Rightarrow> bool" where
  "timers_ok l \<longleftrightarrow> distinct (map tm_addr l) \<and> 0 \<notin> tm_addr ` set l"

definition timer_of :: "u32 \<Rightarrow> ms_timer list \<Rightarrow> ms_timer option" where
  "timer_of i l = find (\<lambda>t. tm_addr t = i) l"

lemma link_timer_eq [simp]: "link_timer l t = l @ [t]"
  by (induction l) auto

lemma timer_step_addr [simp]: "tm_addr (fst (timer_step t now)) = tm_addr t"
  by (simp add: timer_step_def)

lemma timer_walk_addr [simp]: "map tm_addr (fst (timer_walk clk n l)) = map tm_addr l"
  by (induction l arbitrary: n) (simp_all add: split_beta)

lemma timer_walk_length [simp]: "length (fst (timer_walk clk n l)) = length l"
  by (induction l arbitrary: n) (simp_all add: split_beta)

lemma timer_run_addr [simp]: "map tm_addr (fst (TimerProcess clk k n l)) = map tm_addr l"
proof (induction k arbitrary: n l)
  case (Suc k)
  show ?case
    using Suc [of "n + length l" "fst (timer_walk clk n l)"] by (simp add: split_beta)
qed simp

lemma with_timer_addr:
  assumes "\<And>t. tm_addr (f t) = tm_addr t"
  shows "map tm_addr (with_timer f i l) = map tm_addr l"
  using assms by (induction l) auto

lemma delete_timer_set: "set (MsOS_DeleteTimer i l) \<subseteq> set l"
  by (induction l) auto

lemma timers_ok_addr: "map tm_addr l' = map tm_addr l \<Longrightarrow> timers_ok l' = timers_ok l"
  unfolding timers_ok_def by (metis list.set_map)

lemma timers_ok_delete: "timers_ok l \<Longrightarrow> timers_ok (MsOS_DeleteTimer i l)"
proof (induction l)
  case (Cons t l)
  then show ?case
    using delete_timer_set [of i l] by (auto simp: timers_ok_def)
qed simp

lemma timer_of_with_timer:
  assumes "\<And>t. tm_addr (f t) = tm_addr t"
  shows "timer_of j (with_timer f i l) =
           (if i = j then map_option f (timer_of i l) else timer_of j l)"
  using assms by (induction l) (auto simp: timer_of_def)

lemma timer_of_delete:
  "timers_ok l \<Longrightarrow> timer_of j (MsOS_DeleteTimer i l) = (if i = j then None else timer_of j l)"
  by (induction l) (auto simp: timer_of_def timers_ok_def find_None_iff image_iff)

text \<open>
  Every operation on the list of timers keeps the identifiers apart and none of them 0; a
  created timer is found and started, a deleted one is not found, and a stopped one is not
  called.
\<close>

theorem timer_list_operations:
  assumes "timers_ok l" and "new \<noteq> 0" and "new \<notin> tm_addr ` set l"
  shows "timers_ok (snd (MsOS_CreateTimer new junk now cb first period start l))
    \<and> timer_of new (MsOS_StartTimer now' new
         (snd (MsOS_CreateTimer new junk now cb first period start l)))
       = Some \<lparr>tm_addr = new, tm_start = True, tm_first = first, tm_period = period,
               tm_cb = cb, tm_init = now', tm_times = 0\<rparr>
    \<and> timers_ok (MsOS_DeleteTimer i l) \<and> timer_of i (MsOS_DeleteTimer i l) = None
    \<and> timers_ok (MsOS_StopTimer now i l)
    \<and> (\<forall>t. timer_of i (MsOS_StopTimer now i l) = Some t \<longrightarrow> snd (timer_step t now') = [])
    \<and> timers_ok (MsOS_ResetTimer now first period start i l)
    \<and> timers_ok (fst (TimerProcess clk k n l))"
proof -
  have none: "timer_of new l = None"
    using assms(3) by (auto simp: timer_of_def find_None_iff)
  have new: "timer_of new (l @ [t]) = (if tm_addr t = new then Some t else None)" for t
    using none by (induction l) (auto simp: timer_of_def split: if_splits)
  show ?thesis
    using assms timers_ok_delete [OF assms(1), of i] timer_of_delete [OF assms(1), of i i]
    by (auto simp: MsOS_CreateTimer_def MsOS_StartTimer_def MsOS_StopTimer_def
        MsOS_ResetTimer_def timer_of_with_timer new timers_ok_addr [OF with_timer_addr]
        timers_ok_addr [OF timer_run_addr] timer_step_def)
      (auto simp: timers_ok_def)
qed

lemma timer_list_operations_witness:
  "timer_of 8 (MsOS_DeleteTimer 8 (snd (MsOS_CreateTimer 8 0 7 1 0 1000 True []))) = None"
proof -
  have ok: "timers_ok (snd (MsOS_CreateTimer 8 0 7 1 0 1000 True []))"
    using timer_list_operations [of "[]" 8 0 7 1 0 1000 True 0 0 "\<lambda>n. 0" 0 0]
    by (simp add: timers_ok_def)
  have new: "(9 :: u32) \<notin> tm_addr ` set (snd (MsOS_CreateTimer 8 0 7 1 0 1000 True []))"
    by (simp add: MsOS_CreateTimer_def)
  show ?thesis
    using timer_list_operations [OF ok _ new, of 0 7 1 0 1000 True 0 8 "\<lambda>n. 0" 0 0] by simp
qed

section \<open>One timer among the others\<close>

text \<open>What happens to a timer that is alone, at the times that are read for it.\<close>

fun timer_alone :: "u32 list \<Rightarrow> ms_timer \<Rightarrow> ms_timer \<times> timer_call list" where
  "timer_alone [] t = (t, [])"
| "timer_alone (now # ns) t =
     (let (t', c) = timer_step t now; (t'', cs) = timer_alone ns t' in (t'', c @ cs))"

abbreviation calls_of :: "u32 \<Rightarrow> timer_call list \<Rightarrow> timer_call list" where
  "calls_of a cs \<equiv> filter (\<lambda>c. snd c = a) cs"

definition readings :: "(nat \<Rightarrow> u32) \<Rightarrow> nat \<Rightarrow> nat \<Rightarrow> nat \<Rightarrow> nat \<Rightarrow> u32 list" where
  "readings clk n len i k = map (\<lambda>r. clk (n + r * len + i)) [0 ..< k]"

lemma readings_Suc: "readings clk n len i (Suc k) = clk (n + i) # readings clk (n + len) len i k"
  unfolding readings_def upt_conv_Cons [OF zero_less_Suc] map_Suc_upt [symmetric]
  by (simp add: algebra_simps del: upt_Suc)

lemma timer_step_calls: "c \<in> set (snd (timer_step t now)) \<Longrightarrow> snd c = tm_addr t"
  by (auto simp: timer_step_def timer_fire_def split: if_splits)

lemma calls_of_step [simp]:
  "calls_of a (snd (timer_step t now)) = (if tm_addr t = a then snd (timer_step t now) else [])"
  using timer_step_calls [of _ t now] by (auto simp: filter_id_conv filter_empty_conv)

lemma calls_of_walk_none: "a \<notin> tm_addr ` set l \<Longrightarrow> calls_of a (snd (timer_walk clk n l)) = []"
  by (induction l arbitrary: n) (auto simp: split_beta)

lemma timer_walk_at:
  assumes "timers_ok l" and "i < length l"
  shows "fst (timer_walk clk n l) ! i = fst (timer_step (l ! i) (clk (n + i)))
    \<and> calls_of (tm_addr (l ! i)) (snd (timer_walk clk n l)) = snd (timer_step (l ! i) (clk (n + i)))"
  using assms
proof (induction l arbitrary: n i)
  case (Cons t l)
  show ?case
  proof (cases i)
    case 0
    then show ?thesis
      using Cons.prems calls_of_walk_none [of "tm_addr t" l clk "Suc n"]
      by (simp add: split_beta timers_ok_def)
  next
    case (Suc j)
    then have "tm_addr t \<noteq> tm_addr (l ! j)"
      using Cons.prems by (auto simp: timers_ok_def)
    then show ?thesis
      using Cons.prems Cons.IH [of j "Suc n"] Suc by (simp add: split_beta timers_ok_def)
  qed
qed simp

lemma timer_run_at:
  assumes "timers_ok l" and "i < length l"
  shows "fst (TimerProcess clk k n l) ! i = fst (timer_alone (readings clk n (length l) i k) (l ! i))
    \<and> calls_of (tm_addr (l ! i)) (snd (TimerProcess clk k n l))
      = snd (timer_alone (readings clk n (length l) i k) (l ! i))"
  using assms
proof (induction k arbitrary: n l)
  case 0
  then show ?case by (simp add: readings_def)
next
  case (Suc k)
  let ?l = "fst (timer_walk clk n l)"
  have ok: "timers_ok ?l" and len: "i < length ?l"
    using Suc.prems timers_ok_addr [OF timer_walk_addr] by auto
  have addr: "tm_addr (?l ! i) = tm_addr (l ! i)"
    using timer_walk_at [OF Suc.prems] by simp
  show ?case
    using Suc.IH [OF ok len, of "n + length l"] timer_walk_at [OF Suc.prems, of clk n] addr
    by (simp add: split_beta readings_Suc)
qed

section \<open>The number of calls\<close>

definition timer_base :: "ms_timer \<Rightarrow> nat" where
  "timer_base t = unat (tm_init t) + unat (tm_first t)"

text \<open>How many times a timer is due until a time, in unbounded arithmetic.\<close>

definition timer_due :: "ms_timer \<Rightarrow> nat \<Rightarrow> nat" where
  "timer_due t now =
     (if now < timer_base t then 0
      else if tm_period t = 0 then 1
      else Suc ((now - timer_base t) div unat (tm_period t)))"

lemma timer_due_Suc:
  assumes "tm_period t \<noteq> 0"
  shows "Suc n \<le> timer_due t now \<longleftrightarrow> timer_base t + unat (tm_period t) * n \<le> now"
proof -
  have pos: "0 < unat (tm_period t)" using assms by (simp add: unat_gt_0)
  then show ?thesis
    using assms by (auto simp: timer_due_def less_eq_div_iff_mult_less_eq algebra_simps)
qed

lemma timer_due_one: "timer_due t now = 0 \<longleftrightarrow> now < timer_base t"
  by (simp add: timer_due_def)

lemma timer_due_period0: "tm_period t = 0 \<Longrightarrow> timer_due t now \<le> 1"
  by (simp add: timer_due_def)

lemma timer_due_mono: "a \<le> b \<Longrightarrow> timer_due t a \<le> timer_due t b"
  by (auto simp: timer_due_def div_le_mono)

lemma timer_sum_le:
  assumes "timer_base t + unat (tm_period t) * unat (tm_times t) < 2 ^ 32"
  shows "tm_init t + tm_first t + tm_period t * tm_times t \<le> now
    \<longleftrightarrow> timer_base t + unat (tm_period t) * unat (tm_times t) \<le> unat now"
  using assms by (simp add: word_le_nat_alt unat_word_ariths timer_base_def)

text \<open>One step makes up for one due time, and only when there is one left.\<close>

lemma timer_step_due:
  assumes "tm_start t" "timer_base t < 2 ^ 32" "unat now + unat (tm_period t) < 2 ^ 32"
    and "unat (tm_times t) \<le> timer_due t (unat now)"
  shows "timer_step t now =
    (if unat (tm_times t) < timer_due t (unat now) then (t\<lparr>tm_times := tm_times t + 1\<rparr>, timer_fire t)
     else (t, []))
    \<and> (unat (tm_times t) < timer_due t (unat now) \<longrightarrow> unat (tm_times t + 1) = Suc (unat (tm_times t)))"
proof (cases "tm_times t = 0")
  case True
  have "tm_init t + tm_first t \<le> now \<longleftrightarrow> timer_base t \<le> unat now"
    using assms(2) by (simp add: word_le_nat_alt unat_word_ariths timer_base_def)
  then show ?thesis
    using True assms(1) timer_due_one [of t "unat now"] by (auto simp: timer_step_def)
next
  case nz: False
  then have times: "0 < unat (tm_times t)" by (simp add: unat_gt_0)
  show ?thesis
  proof (cases "tm_period t = 0")
    case True
    then show ?thesis
      using nz times assms(1) timer_due_period0 [OF True, of "unat now"] by (auto simp: timer_step_def)
  next
    case p: False
    obtain m where m: "unat (tm_times t) = Suc m" using times by (cases "unat (tm_times t)") auto
    have "timer_base t + unat (tm_period t) * m \<le> unat now"
      using assms(4) timer_due_Suc [OF p] unfolding m by blast
    then have small: "timer_base t + unat (tm_period t) * unat (tm_times t) < 2 ^ 32"
      using assms(3) by (simp add: m)
    have fire: "tm_init t + tm_first t + tm_period t * tm_times t \<le> now
        \<longleftrightarrow> unat (tm_times t) < timer_due t (unat now)"
      unfolding timer_sum_le [OF small] timer_due_Suc [OF p, symmetric] Suc_le_eq by (rule refl)
    have "unat (tm_times t) < timer_due t (unat now) \<Longrightarrow> Suc (unat (tm_times t)) < 2 ^ 32"
    proof -
      assume "unat (tm_times t) < timer_due t (unat now)"
      then have le: "timer_base t + unat (tm_period t) * unat (tm_times t) \<le> unat now"
        unfolding timer_due_Suc [OF p, symmetric] Suc_le_eq .
      have "1 * unat (tm_times t) \<le> unat (tm_period t) * unat (tm_times t)"
        by (rule mult_le_mono1) (use p in \<open>simp add: unat_gt_0 Suc_le_eq\<close>)
      moreover have "0 < unat (tm_period t)" using p by (simp add: unat_gt_0)
      ultimately show ?thesis using le assms(3) by linarith
    qed
    then have inc: "unat (tm_times t) < timer_due t (unat now) \<Longrightarrow>
        unat (tm_times t + 1) = Suc (unat (tm_times t))"
      by (simp add: unat_word_ariths)
    have "timer_step t now = (if unat (tm_times t) < timer_due t (unat now)
        then (t\<lparr>tm_times := tm_times t + 1\<rparr>, timer_fire t) else (t, []))"
      unfolding timer_step_def fire by (simp only: assms(1) nz p if_True if_False not_False_eq_True)
    then show ?thesis using inc by blast
  qed
qed

text \<open>Readings that follow each other closely enough for the period of the timer.\<close>

definition close_readings :: "ms_timer \<Rightarrow> u32 list \<Rightarrow> bool" where
  "close_readings t ns \<longleftrightarrow>
     (tm_period t \<noteq> 0 \<longrightarrow>
        unat (hd ns) < timer_base t + unat (tm_period t)
        \<and> successively (\<lambda>a b. unat b \<le> unat a + unat (tm_period t)) ns)"

lemma timer_due_close:
  assumes "tm_period t \<noteq> 0" "b \<le> a + unat (tm_period t)"
  shows "timer_due t b \<le> Suc (timer_due t a)"
proof (rule ccontr)
  let ?n = "timer_due t a"
  assume "\<not> timer_due t b \<le> Suc ?n"
  then have "Suc (Suc ?n) \<le> timer_due t b" by simp
  then have "timer_base t + unat (tm_period t) * Suc ?n \<le> b" unfolding timer_due_Suc [OF assms(1)] .
  moreover have "\<not> timer_base t + unat (tm_period t) * ?n \<le> a"
    unfolding timer_due_Suc [OF assms(1), symmetric] by simp
  ultimately show False using assms(2) by (simp add: algebra_simps)
qed

lemma timer_due_next:
  assumes "tm_period t \<noteq> 0 \<longrightarrow> unat now < timer_base t + unat (tm_period t)
             \<or> unat now \<le> prev + unat (tm_period t) \<and> n = timer_due t prev"
  shows "timer_due t (unat now) \<le> Suc n"
proof (cases "tm_period t = 0")
  case True
  then show ?thesis using timer_due_period0 [OF True, of "unat now"] by simp
next
  case False
  then consider "unat now < timer_base t + unat (tm_period t)"
    | "unat now \<le> prev + unat (tm_period t)" "n = timer_due t prev"
    using assms by blast
  then show ?thesis
  proof cases
    case 1
    then have "\<not> timer_base t + unat (tm_period t) * 1 \<le> unat now" by simp
    then have "\<not> Suc 1 \<le> timer_due t (unat now)" unfolding timer_due_Suc [OF False] .
    then show ?thesis by simp
  next
    case 2
    then show ?thesis using timer_due_close [OF False, of "unat now" prev] by simp
  qed
qed

definition same_schedule :: "ms_timer \<Rightarrow> ms_timer \<Rightarrow> bool" where
  "same_schedule t t' \<longleftrightarrow> tm_start t' = tm_start t \<and> tm_init t' = tm_init t \<and> tm_first t' = tm_first t
     \<and> tm_period t' = tm_period t \<and> tm_cb t' = tm_cb t \<and> tm_addr t' = tm_addr t"

lemma same_schedule_due: "same_schedule t t' \<Longrightarrow> timer_due t' = timer_due t \<and> timer_base t' = timer_base t"
  by (rule conjI ext)+ (auto simp: same_schedule_def timer_due_def timer_base_def)

text \<open>Never a call that is not due, whatever the readings; and when the readings are close, no
  due call is missing.\<close>

lemma timer_alone_counts:
  assumes "tm_start t" "timer_base t < 2 ^ 32"
    and "\<forall>n \<in> set ns. unat n + unat (tm_period t) < 2 ^ 32" "sorted (prev # map unat ns)"
    and "unat (tm_times t) \<le> timer_due t prev"
  shows "unat (tm_times (fst (timer_alone ns t))) \<le> timer_due t (last (prev # map unat ns))
    \<and> same_schedule t (fst (timer_alone ns t))
    \<and> (tm_cb t \<noteq> 0 \<longrightarrow> unat (tm_times (fst (timer_alone ns t)))
          = unat (tm_times t) + length (snd (timer_alone ns t)))"
  using assms
proof (induction ns arbitrary: t prev)
  case Nil
  then show ?case by (simp add: same_schedule_def)
next
  case (Cons now ns)
  have le: "unat (tm_times t) \<le> timer_due t (unat now)"
    using Cons.prems(4,5) timer_due_mono [of prev "unat now" t] by simp
  let ?t = "fst (timer_step t now)"
  have sc: "same_schedule t ?t" by (simp add: timer_step_def same_schedule_def)
  note due = same_schedule_due [OF sc]
  note step = timer_step_due [OF Cons.prems(1,2) _ le]
  have b: "unat now + unat (tm_period t) < 2 ^ 32" using Cons.prems(3) by simp
  have t1: "unat (tm_times ?t) \<le> timer_due ?t (unat now)
      \<and> (tm_cb t \<noteq> 0 \<longrightarrow> unat (tm_times ?t) = unat (tm_times t) + length (snd (timer_step t now)))"
    using step [OF b] le due by (auto simp: timer_fire_def)
  have "unat (tm_times (fst (timer_alone ns ?t))) \<le> timer_due ?t (last (unat now # map unat ns))
    \<and> same_schedule ?t (fst (timer_alone ns ?t))
    \<and> (tm_cb ?t \<noteq> 0 \<longrightarrow> unat (tm_times (fst (timer_alone ns ?t)))
          = unat (tm_times ?t) + length (snd (timer_alone ns ?t)))"
    by (rule Cons.IH) (use Cons.prems sc due t1 in \<open>auto simp: same_schedule_def\<close>)
  then show ?case
    using sc due t1 by (auto simp: split_beta same_schedule_def)
qed

lemma timer_alone_exact:
  assumes "tm_start t" "timer_base t < 2 ^ 32"
    and "\<forall>n \<in> set ns. unat n + unat (tm_period t) < 2 ^ 32" "sorted (prev # map unat ns)"
    and "unat (tm_times t) = timer_due t prev"
    and "tm_period t \<noteq> 0 \<longrightarrow> successively (\<lambda>a b. b \<le> a + unat (tm_period t)) (prev # map unat ns)"
  shows "unat (tm_times (fst (timer_alone ns t))) = timer_due t (last (prev # map unat ns))"
  using assms
proof (induction ns arbitrary: t prev)
  case (Cons now ns)
  have le: "unat (tm_times t) \<le> timer_due t (unat now)"
    using Cons.prems(4,5) timer_due_mono [of prev "unat now" t] by simp
  have next1: "timer_due t (unat now) \<le> Suc (unat (tm_times t))"
    by (rule timer_due_next [of t now prev]) (use Cons.prems(5,6) in auto)
  let ?t = "fst (timer_step t now)"
  have sc: "same_schedule t ?t" by (simp add: timer_step_def same_schedule_def)
  note due = same_schedule_due [OF sc]
  have b: "unat now + unat (tm_period t) < 2 ^ 32" using Cons.prems(3) by simp
  have t1: "unat (tm_times ?t) = timer_due ?t (unat now)"
    using timer_step_due [OF Cons.prems(1,2) b le] le next1 due by auto
  have "unat (tm_times (fst (timer_alone ns ?t))) = timer_due ?t (last (unat now # map unat ns))"
    by (rule Cons.IH) (use Cons.prems sc due t1 in \<open>auto simp: same_schedule_def\<close>)
  then show ?case using due by (simp add: split_beta)
qed simp

lemma timer_alone_close:
  assumes "tm_start t" "tm_times t = 0" "timer_base t < 2 ^ 32" "ns \<noteq> []"
    and "\<forall>n \<in> set ns. unat n + unat (tm_period t) < 2 ^ 32" "sorted (map unat ns)"
    and "close_readings t ns"
  shows "unat (tm_times (fst (timer_alone ns t))) = timer_due t (unat (last ns))"
proof -
  obtain now ns' where ns: "ns = now # ns'" using assms(4) by (cases ns) auto
  have next1: "timer_due t (unat now) \<le> Suc 0"
    by (rule timer_due_next [of t now 0]) (use assms(7) in \<open>simp add: close_readings_def ns\<close>)
  let ?t = "fst (timer_step t now)"
  have sc: "same_schedule t ?t" by (simp add: timer_step_def same_schedule_def)
  note due = same_schedule_due [OF sc]
  have b: "unat now + unat (tm_period t) < 2 ^ 32" using assms(5) by (simp add: ns)
  have "unat (tm_times ?t) = timer_due ?t (unat now)"
    using timer_step_due [OF assms(1,3) b] next1 due assms(2) by auto
  moreover have "successively (\<lambda>a b. b \<le> a + unat (tm_period t)) (map unat (now # ns'))"
    if "tm_period t \<noteq> 0"
    using assms(7) that unfolding close_readings_def ns successively_map by blast
  ultimately have "unat (tm_times (fst (timer_alone ns' ?t))) = timer_due ?t (last (unat now # map unat ns'))"
    by (intro timer_alone_exact)
      (use assms sc due ns in \<open>auto simp: same_schedule_def\<close>)
  then show ?thesis using due by (simp add: split_beta ns last_map)
qed

text \<open>
  C31: Among any other timers, and as long as its times fit 32 bits, a started timer is never
  called more often than it was due at the last reading of the clock, and exactly as often
  when the readings are no further apart than its period: no call is early, none is lost and
  the period does not drift.
\<close>

theorem timer_calls_are_the_due_times:
  assumes "timers_ok l" "i < length l" "tm_start (l ! i)" "tm_times (l ! i) = 0" "tm_cb (l ! i) \<noteq> 0"
    and "timer_base (l ! i) < 2 ^ 32" "ns = readings clk n (length l) i k" "0 < k"
    and "\<forall>r \<in> set ns. unat r + unat (tm_period (l ! i)) < 2 ^ 32" "sorted (map unat ns)"
  shows "length (calls_of (tm_addr (l ! i)) (snd (TimerProcess clk k n l)))
           \<le> timer_due (l ! i) (unat (last ns))
    \<and> (close_readings (l ! i) ns \<longrightarrow>
         length (calls_of (tm_addr (l ! i)) (snd (TimerProcess clk k n l)))
           = timer_due (l ! i) (unat (last ns)))"
proof -
  have ne: "ns \<noteq> []" using assms(7,8) by (simp add: readings_def)
  note run = timer_run_at [OF assms(1,2), of clk k n, folded assms(7)]
  note counts = timer_alone_counts [OF assms(3,6,9), of 0]
  have len: "length (snd (timer_alone ns (l ! i))) = unat (tm_times (fst (timer_alone ns (l ! i))))"
    and le: "unat (tm_times (fst (timer_alone ns (l ! i)))) \<le> timer_due (l ! i) (unat (last ns))"
    using counts assms(4,5,10) ne by (auto simp: last_map)
  show ?thesis
    using run len le timer_alone_close [OF assms(3,4,6) ne assms(9,10)] by simp
qed

definition heart_beat :: ms_timer where
  "heart_beat = \<lparr>tm_addr = 8, tm_start = True, tm_first = 0, tm_period = 1000, tm_cb = 1,
     tm_init = 100, tm_times = 0\<rparr>"

definition even_clock :: "nat \<Rightarrow> u32" where
  "even_clock n = 100 + 500 * of_nat n"

lemma timer_calls_are_the_due_times_witness:
  "length (calls_of 8 (snd (TimerProcess even_clock 5 0 [heart_beat]))) = 3"
proof -
  have r: "readings even_clock 0 1 0 5 = [100, 600, 1100, 1600, 2100]"
    by (simp add: readings_def even_clock_def upt_rec)
  show ?thesis
    using timer_calls_are_the_due_times [of "[heart_beat]" 0 "[100, 600, 1100, 1600, 2100]" even_clock 0 5] r
    by (simp add: heart_beat_def timers_ok_def timer_base_def close_readings_def timer_due_def)
qed

section \<open>When the times wrap\<close>

text \<open>The heart beat of the client after \<open>4294968\<close> calls: its next due time is
  \<open>4294968000\<close>, which does not fit 32 bits.\<close>

definition worn_timer :: "nat \<Rightarrow> ms_timer" where
  "worn_timer k = heart_beat\<lparr>tm_init := 0, tm_times := 4294968 + of_nat k\<rparr>"

lemma worn_timer_step:
  assumes "2 ^ 31 \<le> unat now" "k \<le> 2147482"
  shows "timer_step (worn_timer k) now = (worn_timer (Suc k), [(1, 8)])"
proof -
  have nat: "unat (of_nat m :: u32) = m" if "m < 2 ^ 32" for m
    using that by (simp add: unsigned_of_nat take_bit_nat_eq_self)
  have small: "unat (of_nat k :: u32) = k" by (rule nat) (use assms in simp)
  have times: "unat (4294968 + of_nat k :: u32) = 4294968 + k"
    using assms(2) by (simp add: unat_word_ariths small)
  then have "4294968 + of_nat k \<noteq> (0 :: u32)" by (metis add_eq_0_iff_both_eq_0 unat_0 zero_neq_numeral)
  moreover have "unat (1000 * (4294968 + of_nat k) :: u32) = 704 + 1000 * k"
  proof -
    have "1000 * 4294968 = (704 :: u32)" by code_simp
    then have "1000 * (4294968 + of_nat k) = (of_nat (704 + 1000 * k) :: u32)"
      by (simp only: distrib_left of_nat_add of_nat_mult of_nat_numeral)
    also have "unat \<dots> = 704 + 1000 * k"
      by (rule nat) (use assms in simp)
    finally show ?thesis .
  qed
  moreover have "(1000 :: u32) \<noteq> 0" by code_simp
  moreover have "(4294968 + of_nat k :: u32) + 1 = 4294968 + of_nat (Suc k)" by simp
  ultimately show ?thesis
    using assms unfolding worn_timer_def timer_step_def timer_fire_def heart_beat_def word_le_nat_alt
    by (simp del: of_nat_Suc)
qed

text \<open>
  When the due time of the heart beat has passed 32 bits, it is called in every round, two
  million times or more in a row.
\<close>

theorem worn_timer_fires_every_round:
  assumes "\<forall>r \<in> set ns. 2 ^ 31 \<le> unat r" "length ns \<le> 2147482"
  shows "snd (timer_alone ns (worn_timer 0)) = replicate (length ns) (1, 8)"
proof -
  have "snd (timer_alone ns (worn_timer k)) = replicate (length ns) (1, 8)"
    if "k + length ns \<le> 2147482" for k
    using that assms(1)
    by (induction ns arbitrary: k) (simp_all add: worn_timer_step split_beta)
  then show ?thesis using assms(2) by simp
qed

lemma worn_timer_fires_every_round_witness:
  "snd (timer_alone [4294967290, 4294967291, 4294967292] (worn_timer 0)) = [(1, 8), (1, 8), (1, 8)]"
  using worn_timer_fires_every_round [of "[4294967290, 4294967291, 4294967292]"]
  by (simp add: numeral_3_eq_3)

end
