(* ===== verification/Json.thy ===== *)
theory Json
  imports CStrings Prelude
begin

text \<open>
  The JSON library as the program uses it, \<open>json/cJSON.c\<close>: a local version of cJSON whose parser
  takes the whole value of a number for \<open>valueint\<close> before it looks at the decimal point. Every
  message that is not binary goes through it. Items are a \<open>datatype\<close>; a text is its characters
  without the terminating zero. A \<open>double\<close> is kept as an exact decimal, mantissa and exponent of
  ten, without its rounding and limits; a conversion to \<open>int\<close> saturates, as on the processor.
  Shown: the parser ends on every text, the printed text fits the blocks that are allocated for
  it, what is printed is parsed back, and the fields of an object are found.
\<close>

section \<open>Items\<close>

datatype dbl = Dbl int int

datatype json =
  JNull | JFalse | JTrue
  | JNumber int dbl
  | JString string
  | JArray "json list"
  | JObject "(string \<times> json) list"

text \<open>Numerator and denominator of a decimal.\<close>

definition dbl_num :: "int \<Rightarrow> int \<Rightarrow> int" where "dbl_num m e = (if 0 \<le> e then m * 10 ^ nat e else m)"
definition dbl_den :: "int \<Rightarrow> int" where "dbl_den e = (if 0 \<le> e then 1 else 10 ^ nat (- e))"

fun dbl_trunc :: "dbl \<Rightarrow> int" where
  "dbl_trunc (Dbl m e) = sgn m * (\<bar>dbl_num m e\<bar> div dbl_den e)"

definition cJSON_CreateNumber :: "dbl \<Rightarrow> json" where
  "cJSON_CreateNumber d = JNumber (clamp32 (dbl_trunc d)) d"

definition json_num :: "int \<Rightarrow> json" where "json_num i = cJSON_CreateNumber (Dbl i 0)"

definition cJSON_CreateIntArray :: "int list \<Rightarrow> json" where
  "cJSON_CreateIntArray numbers = JArray (map json_num numbers)"

text \<open>An item of an object: its name and the item.\<close>

fun cJSON_AddItemToObject :: "json \<Rightarrow> string \<Rightarrow> json \<Rightarrow> json" where
  "cJSON_AddItemToObject (JObject ms) k v = JObject (ms @ [(k, v)])"
| "cJSON_AddItemToObject j k v = j"

fun valueint :: "json \<Rightarrow> int" where
  "valueint (JNumber i _) = i"
| "valueint JTrue = 1"
| "valueint _ = 0"

fun valuedouble :: "json \<Rightarrow> dbl" where
  "valuedouble (JNumber _ d) = d"
| "valuedouble _ = Dbl 0 0"

fun valuestring :: "json \<Rightarrow> string option" where
  "valuestring (JString s) = Some s"
| "valuestring _ = None"

definition tolower :: "char \<Rightarrow> char" where
  "tolower c = (let n = of_char c :: nat in if 65 \<le> n \<and> n \<le> 90 then char_of (n + 32) else c)"

definition cJSON_strcasecmp :: "string \<Rightarrow> string \<Rightarrow> bool" where
  "cJSON_strcasecmp s1 s2 \<longleftrightarrow> map tolower s1 = map tolower s2"

text \<open>Items of an array have no names and are never found.\<close>

fun cJSON_GetObjectItem :: "json \<Rightarrow> string \<Rightarrow> json option" where
  "cJSON_GetObjectItem (JObject ms) k = map_option snd (find (\<lambda>m. cJSON_strcasecmp (fst m) k) ms)"
| "cJSON_GetObjectItem _ k = None"

fun cJSON_GetArraySize :: "json \<Rightarrow> nat" where
  "cJSON_GetArraySize (JArray js) = length js"
| "cJSON_GetArraySize (JObject ms) = length ms"
| "cJSON_GetArraySize _ = 0"

fun cJSON_GetArrayItem :: "json \<Rightarrow> nat \<Rightarrow> json option" where
  "cJSON_GetArrayItem (JArray js) i = (if i < length js then Some (js ! i) else None)"
| "cJSON_GetArrayItem (JObject ms) i = (if i < length ms then Some (snd (ms ! i)) else None)"
| "cJSON_GetArrayItem _ i = None"

section \<open>Printing\<close>

definition round_half_even :: "nat \<Rightarrow> nat \<Rightarrow> nat" where
  "round_half_even n d =
     (let q = n div d; r = n mod d in if 2 * r < d \<or> 2 * r = d \<and> even q then q else q + 1)"

definition pad_left :: "nat \<Rightarrow> string \<Rightarrow> string" where
  "pad_left k s = replicate (k - length s) (CHR ''0'') @ s"

definition sign_str :: "int \<Rightarrow> string" where "sign_str m = (if m < 0 then ''-'' else '''')"

text \<open>The formats \<open>%.0f\<close>, \<open>%f\<close> and \<open>%e\<close>.\<close>

definition fmt_0f :: "int \<Rightarrow> int \<Rightarrow> string" where
  "fmt_0f m e = sign_str m @ digits (round_half_even (nat \<bar>dbl_num m e\<bar>) (nat (dbl_den e)))"

definition fmt_f :: "int \<Rightarrow> int \<Rightarrow> string" where
  "fmt_f m e =
     (let q = round_half_even (nat \<bar>dbl_num m e\<bar> * 10 ^ 6) (nat (dbl_den e))
      in sign_str m @ digits (q div 10 ^ 6) @ ''.'' @ pad_left 6 (digits (q mod 10 ^ 6)))"

definition fmt_e :: "int \<Rightarrow> int \<Rightarrow> string" where
  "fmt_e m e =
     (let n = nat \<bar>m\<bar>; len = length (digits n);
          q = (if len \<le> 7 then n * 10 ^ (7 - len) else round_half_even n (10 ^ (len - 7)));
          x = int len - 1 + e;
          (q, x) = (if q = 10 ^ 7 then (10 ^ 6, x + 1) else (q, x))
      in sign_str m @ digits (q div 10 ^ 6) @ ''.'' @ pad_left 6 (digits (q mod 10 ^ 6)) @ ''e''
         @ (if x < 0 then ''-'' else ''+'') @ pad_left 2 (digits (nat \<bar>x\<bar>)))"

text \<open>The double is the integer beside it, in the range of \<open>int\<close>.\<close>

definition prints_int :: "int \<Rightarrow> int \<Rightarrow> int \<Rightarrow> bool" where
  "prints_int i m e \<longleftrightarrow>
     (let num = dbl_num m e; den = dbl_den e in
      \<bar>i * den - num\<bar> * 2 ^ 52 \<le> den \<and> num \<le> (2 ^ 31 - 1) * den \<and> - (2 ^ 31) * den \<le> num)"

fun print_number :: "int \<Rightarrow> dbl \<Rightarrow> string" where
  "print_number i (Dbl m e) =
     (let num = dbl_num m e; den = dbl_den e in
      if m = 0 then ''0''
      else if prints_int i m e then d_str i
      else if num mod den * 2 ^ 52 \<le> den \<and> \<bar>num\<bar> < 10 ^ 60 * den then fmt_0f m e
      else if \<bar>num\<bar> * 10 ^ 6 < den \<or> 10 ^ 9 * den < \<bar>num\<bar> then fmt_e m e
      else fmt_f m e)"

declare print_number.simps [simp del]

definition quote :: char where "quote = CHR 0x22"
definition backslash :: char where "backslash = CHR 0x5C"

definition hex_lower :: "nat \<Rightarrow> char" where
  "hex_lower n = (if n < 10 then char_of (48 + n) else char_of (87 + n))"

definition needs_escape :: "char \<Rightarrow> bool" where
  "needs_escape c \<longleftrightarrow> (of_char c :: nat) < 32 \<or> c = quote \<or> c = backslash"

definition escape_char :: "char \<Rightarrow> string" where
  "escape_char c =
     (if \<not> needs_escape c then [c]
      else backslash #
        (if c = backslash then [backslash]
         else if c = quote then [quote]
         else if c = CHR 0x08 then ''b''
         else if c = CHR 0x0C then ''f''
         else if c = CHR 0x0A then ''n''
         else if c = CHR 0x0D then ''r''
         else if c = CHR 0x09 then ''t''
         else let t = of_char c :: nat in
           CHR ''u'' # map hex_lower [t div 4096, t div 256 mod 16, t div 16 mod 16, t mod 16]))"

definition print_string_ptr :: "string \<Rightarrow> string" where
  "print_string_ptr s =
     (if \<exists>c \<in> set s. needs_escape c then quote # concat (map escape_char s) @ [quote]
      else quote # s @ [quote])"

definition tabs :: "nat \<Rightarrow> string" where "tabs n = replicate n (CHR 0x09)"

text \<open>The items of an array with its closing bracket, and the members of an object with its
  closing brace; \<open>depth\<close> is that of the items.\<close>

fun print_value :: "bool \<Rightarrow> nat \<Rightarrow> json \<Rightarrow> string"
  and print_items :: "bool \<Rightarrow> nat \<Rightarrow> json list \<Rightarrow> string"
  and print_members :: "bool \<Rightarrow> nat \<Rightarrow> (string \<times> json) list \<Rightarrow> string" where
  "print_value fmt depth JNull = ''null''"
| "print_value fmt depth JFalse = ''false''"
| "print_value fmt depth JTrue = ''true''"
| "print_value fmt depth (JNumber i d) = print_number i d"
| "print_value fmt depth (JString s) = print_string_ptr s"
| "print_value fmt depth (JArray js) =
     (if js = [] then ''[]'' else ''['' @ print_items fmt (depth + 1) js)"
| "print_value fmt depth (JObject ms) =
     (if ms = [] then ''{'' @ (if fmt then CHR 0x0A # tabs (depth - 1) else []) @ ''}''
      else ''{'' @ (if fmt then [CHR 0x0A] else []) @ print_members fmt (depth + 1) ms)"
| "print_items fmt depth [] = '']''"
| "print_items fmt depth (j # js) =
     print_value fmt depth j
     @ (if js = [] then '']'' else '','' @ (if fmt then '' '' else []) @ print_items fmt depth js)"
| "print_members fmt depth [] = (if fmt then tabs (depth - 1) else []) @ ''}''"
| "print_members fmt depth ((k, j) # ms) =
     (if fmt then tabs depth else []) @ print_string_ptr k @ '':'' @ (if fmt then [CHR 0x09] else [])
     @ print_value fmt depth j @ (if ms = [] then [] else '','') @ (if fmt then [CHR 0x0A] else [])
     @ print_members fmt depth ms"

definition cJSON_Print :: "json \<Rightarrow> string" where "cJSON_Print j = print_value True 0 j"
definition cJSON_PrintUnformatted :: "json \<Rightarrow> string" where "cJSON_PrintUnformatted j = print_value False 0 j"

text \<open>The blocks that are allocated for the texts, with their terminating zero.\<close>

definition string_block :: "string \<Rightarrow> nat" where
  "string_block s =
     (if \<exists>c \<in> set s. needs_escape c then
        sum_list (map (\<lambda>c. if c \<in> {quote, backslash, CHR 0x08, CHR 0x0C, CHR 0x0A, CHR 0x0D, CHR 0x09} then 2
                           else if (of_char c :: nat) < 32 then 6 else 1) s) + 3
      else length s + 3)"

fun print_block :: "bool \<Rightarrow> nat \<Rightarrow> json \<Rightarrow> nat" where
  "print_block fmt depth JNull = 5"
| "print_block fmt depth JFalse = 6"
| "print_block fmt depth JTrue = 5"
| "print_block fmt depth (JNumber i (Dbl m e)) =
     (if m = 0 then 2 else if prints_int i m e then 21 else 64)"
| "print_block fmt depth (JString s) = string_block s"
| "print_block fmt depth (JArray js) =
     (if js = [] then 3
      else 5 + sum_list (map (\<lambda>j. length (print_value fmt (depth + 1) j) + 2 + (if fmt then 1 else 0)) js))"
| "print_block fmt depth (JObject ms) =
     (if ms = [] then if fmt then depth + 4 else 3
      else 7 + (if fmt then depth + 1 else 0)
         + sum_list (map (\<lambda>(k, j). length (print_value fmt (depth + 1) j) + length (print_string_ptr k) + 2
                           + (if fmt then 2 + (depth + 1) else 0)) ms))"

section \<open>Parsing\<close>

text \<open>\<open>Bad\<close> is a text that is refused, \<open>Fault\<close> an access outside of the text or a block. \<open>NoFuel\<close> is
  not a result of the program: it stands for a call that the fuel did not let end.\<close>

datatype 'a parsed = Bad | Fault | NoFuel | Got 'a string

definition skip :: "string \<Rightarrow> string" where "skip s = dropWhile (\<lambda>c. (of_char c :: nat) \<le> 32) s"

definition dec :: "char \<Rightarrow> bool" where "dec c \<longleftrightarrow> is_digit 10 c"

definition starts :: "(char \<Rightarrow> bool) \<Rightarrow> string \<Rightarrow> bool" where
  "starts P s = (case s of [] \<Rightarrow> False | c # _ \<Rightarrow> P c)"

definition parse_exponent :: "string \<Rightarrow> int parsed" where
  "parse_exponent s =
     (if starts (\<lambda>c. c = CHR ''e'' \<or> c = CHR ''E'') s then
        let s1 = tl s;
            s2 = (if starts (\<lambda>c. c = CHR ''+'' \<or> c = CHR ''-'') s1 then tl s1 else s1);
            x = int (num_value 10 s2)
        in if x < 2 ^ 31
           then Got (if starts (\<lambda>c. c = CHR ''-'') s1 then - x else x) (dropWhile dec s2) else Fault
      else Got 0 s)"

text \<open>The digits before and behind the point, and what follows them.\<close>

definition parse_whole :: "string \<Rightarrow> string \<times> string" where
  "parse_whole s =
     (let s' = (if starts (\<lambda>c. c = CHR ''0'') s then tl s else s)
      in if starts (\<lambda>c. dec c \<and> c \<noteq> CHR ''0'') s' then (takeWhile dec s', dropWhile dec s') else ([], s'))"

definition parse_frac :: "string \<Rightarrow> string \<times> string" where
  "parse_frac s =
     (if starts (\<lambda>c. c = CHR ''.'') s \<and> starts dec (tl s)
      then (takeWhile dec (tl s), dropWhile dec (tl s)) else ([], s))"

definition parse_number :: "string \<Rightarrow> json parsed" where
  "parse_number s =
     (let neg = starts (\<lambda>c. c = CHR ''-'') s;
          (whole, s1) = parse_whole (if neg then tl s else s);
          (frac, s2) = parse_frac s1;
          n = int (num_value 10 (whole @ frac));
          m = (if neg then - n else n)
      in case parse_exponent s2 of
           Got x s3 \<Rightarrow> Got (JNumber (clamp32 m) (Dbl m (x - int (length frac)))) s3
         | Bad \<Rightarrow> Bad | Fault \<Rightarrow> Fault | NoFuel \<Rightarrow> NoFuel)"

definition hex_value :: "char \<Rightarrow> u32 option" where
  "hex_value c = (case digit_value c of None \<Rightarrow> None | Some d \<Rightarrow> if d < 16 then Some (of_nat d) else None)"

fun hex_fold :: "u32 \<Rightarrow> nat \<Rightarrow> string \<Rightarrow> u32" where
  "hex_fold h 0 s = h"
| "hex_fold h (Suc n) [] = 0"
| "hex_fold h (Suc n) (c # s) = (case hex_value c of None \<Rightarrow> 0 | Some d \<Rightarrow> hex_fold (16 * h + d) n s)"

definition parse_hex4 :: "string \<Rightarrow> u32" where "parse_hex4 s = hex_fold 0 4 s"

definition char_of32 :: "u32 \<Rightarrow> char" where "char_of32 w = char_of (unat w)"

definition utf8 :: "u32 \<Rightarrow> string" where
  "utf8 uc =
     (let low = \<lambda>w. char_of32 ((w OR 0x80) AND 0xBF) in
      if uc < 0x80 then [char_of32 uc]
      else if uc < 0x800 then [char_of32 (drop_bit 6 uc OR 0xC0), low uc]
      else if uc < 0x10000 then [char_of32 (drop_bit 12 uc OR 0xE0), low (drop_bit 6 uc), low uc]
      else [char_of32 (drop_bit 18 uc OR 0xF0), low (drop_bit 12 uc), low (drop_bit 6 uc), low uc])"

text \<open>What follows \<open>\u\<close>: the characters it stands for and how many characters of the text it takes.\<close>

definition parse_unicode :: "string \<Rightarrow> string \<times> nat" where
  "parse_unicode s =
     (let uc = parse_hex4 s in
      if 0xDC00 \<le> uc \<and> uc \<le> 0xDFFF \<or> uc = 0 then ([], 4)
      else if 0xD800 \<le> uc \<and> uc \<le> 0xDBFF then
        if take 2 (drop 4 s) \<noteq> [backslash, CHR ''u''] then ([], 4)
        else
          let uc2 = parse_hex4 (drop 6 s) in
          if uc2 < 0xDC00 \<or> 0xDFFF < uc2 then ([], 10)
          else (utf8 (0x10000 + (push_bit 10 (uc AND 0x3FF) OR (uc2 AND 0x3FF))), 10)
      else (utf8 uc, 4))"

definition unescape_char :: "char \<Rightarrow> char" where
  "unescape_char c =
     (if c = CHR ''b'' then CHR 0x08 else if c = CHR ''f'' then CHR 0x0C
      else if c = CHR ''n'' then CHR 0x0A else if c = CHR ''r'' then CHR 0x0D
      else if c = CHR ''t'' then CHR 0x09 else c)"

text \<open>The first pass counts the characters for the block; \<open>None\<close> is a step over the end of the text.\<close>

fun string_len :: "string \<Rightarrow> nat option" where
  "string_len [] = Some 0"
| "string_len (c # s) =
     (if c = quote then Some 0
      else if c = backslash then (case s of [] \<Rightarrow> None | d # s' \<Rightarrow> map_option Suc (string_len s'))
      else map_option Suc (string_len s))"

fun string_body :: "string \<Rightarrow> (string \<times> string) option" where
  "string_body [] = Some ([], [])"
| "string_body (c # s) =
     (if c = quote then Some ([], s)
      else if c \<noteq> backslash then map_option (\<lambda>(x, r). (c # x, r)) (string_body s)
      else
        (case s of
           [] \<Rightarrow> None
         | e # s' \<Rightarrow>
             if e = CHR ''u'' then
               if length s' < snd (parse_unicode s') then None
               else map_option (\<lambda>(x, r). (fst (parse_unicode s') @ x, r))
                      (string_body (drop (snd (parse_unicode s')) s'))
             else map_option (\<lambda>(x, r). (unescape_char e # x, r)) (string_body s')))"

definition parse_string :: "string \<Rightarrow> string parsed" where
  "parse_string s =
     (if \<not> starts (\<lambda>c. c = quote) s then Bad
      else case (string_len (tl s), string_body (tl s)) of
        (Some n, Some (x, r)) \<Rightarrow> if length x \<le> n then Got x r else Fault
      | _ \<Rightarrow> Fault)"

text \<open>The fuel bounds the nesting of calls; two calls at least take a character off the text.\<close>

fun parse_value :: "nat \<Rightarrow> string \<Rightarrow> json parsed"
  and parse_items :: "nat \<Rightarrow> string \<Rightarrow> json list parsed"
  and parse_members :: "nat \<Rightarrow> string \<Rightarrow> (string \<times> json) list parsed" where
  "parse_value 0 s = NoFuel"
| "parse_value (Suc n) s =
     (if take 4 s = ''null'' then Got JNull (drop 4 s)
      else if take 5 s = ''false'' then Got JFalse (drop 5 s)
      else if take 4 s = ''true'' then Got JTrue (drop 4 s)
      else case s of
        [] \<Rightarrow> Bad
      | c # r \<Rightarrow>
          if c = quote then (case parse_string s of Got x r' \<Rightarrow> Got (JString x) r' | Bad \<Rightarrow> Bad | Fault \<Rightarrow> Fault | NoFuel \<Rightarrow> NoFuel)
          else if c = CHR ''-'' \<or> dec c then parse_number s
          else if c = CHR ''['' then
            if starts (\<lambda>c. c = CHR '']'') (skip r) then Got (JArray []) (tl (skip r))
            else (case parse_items n r of Got js r' \<Rightarrow> Got (JArray js) r' | Bad \<Rightarrow> Bad | Fault \<Rightarrow> Fault | NoFuel \<Rightarrow> NoFuel)
          else if c = CHR ''{'' then
            if starts (\<lambda>c. c = CHR ''}'') (skip r) then Got (JObject []) (tl (skip r))
            else (case parse_members n r of Got ms r' \<Rightarrow> Got (JObject ms) r' | Bad \<Rightarrow> Bad | Fault \<Rightarrow> Fault | NoFuel \<Rightarrow> NoFuel)
          else Bad)"
| "parse_items 0 s = NoFuel"
| "parse_items (Suc n) s =
     (case parse_value n (skip s) of
        Got j r \<Rightarrow>
          (case skip r of
             c # r' \<Rightarrow>
               if c = CHR '','' then
                 (case parse_items n r' of Got js r'' \<Rightarrow> Got (j # js) r'' | Bad \<Rightarrow> Bad | Fault \<Rightarrow> Fault | NoFuel \<Rightarrow> NoFuel)
               else if c = CHR '']'' then Got [j] r' else Bad
           | [] \<Rightarrow> Bad)
      | Bad \<Rightarrow> Bad | Fault \<Rightarrow> Fault | NoFuel \<Rightarrow> NoFuel)"
| "parse_members 0 s = NoFuel"
| "parse_members (Suc n) s =
     (case parse_string (skip s) of
        Got k r \<Rightarrow>
          if \<not> starts (\<lambda>c. c = CHR '':'') (skip r) then Bad
          else
            (case parse_value n (skip (tl (skip r))) of
               Got j r' \<Rightarrow>
                 (case skip r' of
                    c # r'' \<Rightarrow>
                      if c = CHR '','' then
                        (case parse_members n r'' of
                           Got ms r3 \<Rightarrow> Got ((k, j) # ms) r3 | Bad \<Rightarrow> Bad | Fault \<Rightarrow> Fault | NoFuel \<Rightarrow> NoFuel)
                      else if c = CHR ''}'' then Got [(k, j)] r'' else Bad
                  | [] \<Rightarrow> Bad)
             | Bad \<Rightarrow> Bad | Fault \<Rightarrow> Fault | NoFuel \<Rightarrow> NoFuel)
      | Bad \<Rightarrow> Bad | Fault \<Rightarrow> Fault | NoFuel \<Rightarrow> NoFuel)"

definition cJSON_Parse :: "string \<Rightarrow> json parsed" where
  "cJSON_Parse s = parse_value (2 * length s + 1) (skip s)"

section \<open>Strings read back\<close>

lemma quote_backslash [simp]: "quote \<noteq> backslash" "backslash \<noteq> quote"
  by (simp_all add: quote_def backslash_def)

lemma parse_hex4_small:
  assumes "hex_value a = Some 0" "hex_value b = Some 0" "hex_value c = Some x" "hex_value d = Some y"
  shows "parse_hex4 (a # b # c # d # t) = 16 * x + y"
  using assms by (simp add: parse_hex4_def eval_nat_numeral)

lemma control_char_unicode:
  assumes "hex_value c = Some x" "hex_value d = Some y" "0 < 16 * x + y" "16 * x + y < 0x80"
  shows "parse_unicode (CHR ''0'' # CHR ''0'' # c # d # t) = ([char_of32 (16 * x + y)], 4)"
proof -
  have z: "hex_value (CHR ''0'') = Some 0" by (simp add: hex_value_def digit_value_def)
  have "16 * x + y < 0xD800" "16 * x + y < 0xDC00"
    by (rule less_trans [OF assms(4)], simp)+
  then have "\<not> 0xD800 \<le> 16 * x + y" "\<not> 0xDC00 \<le> 16 * x + y" by (simp_all only: not_le)
  then show ?thesis
    using assms(3,4) unfolding parse_unicode_def parse_hex4_small [OF z z assms(1,2)] utf8_def Let_def
    by simp
qed

lemma hex_value_lower: "n < 16 \<Longrightarrow> hex_value (hex_lower n) = Some (of_nat n)"
proof -
  assume n: "n < 16"
  have c: "of_char (char_of (48 + n)) = 48 + n" "of_char (char_of (87 + n)) = 87 + n"
    unfolding of_char_of by (rule mod_less, use n in simp)+
  have v: "digit_value (char_of (48 + n)) = Some n" if "n < 10"
    unfolding digit_value_def c Let_def using that by simp
  have w: "digit_value (char_of (87 + n)) = Some n" if "\<not> n < 10"
    unfolding digit_value_def c Let_def using that n by simp
  show ?thesis using v w n by (cases "n < 10") (simp_all add: hex_lower_def hex_value_def)
qed

lemma control_char:
  assumes "k < 32" "k \<noteq> 0"
  shows "parse_unicode (map hex_lower [k div 4096, k div 256 mod 16, k div 16 mod 16, k mod 16] @ t)
    = ([char_of k], 4)"
proof -
  have "of_nat (16 * (k div 16) + k mod 16) = (of_nat k :: u32)" by (simp only: mult_div_mod_eq)
  then have v: "16 * of_nat (k div 16) + of_nat (k mod 16) = (of_nat k :: u32)"
    by (simp only: of_nat_add of_nat_mult of_nat_numeral)
  have n: "unat (of_nat k :: u32) = k" using assms by (simp add: unsigned_of_nat take_bit_nat_eq_self)
  have b: "0 < (of_nat k :: u32)" "(of_nat k :: u32) < 0x80"
    using assms n by (simp_all add: word_less_nat_alt)
  have d: "hex_value (hex_lower (k div 16)) = Some (of_nat (k div 16))"
      "hex_value (hex_lower (k mod 16)) = Some (of_nat (k mod 16))"
    by (rule hex_value_lower, use assms in simp)+
  have "k div 4096 = 0" "k div 256 mod 16 = 0" "k div 16 mod 16 = k div 16" using assms by simp_all
  moreover have "hex_lower 0 = CHR ''0''" by (simp add: hex_lower_def char_of_eq_iff)
  ultimately show ?thesis
    using control_char_unicode [OF d, of t] b v n by (simp add: char_of32_def)
qed

lemma string_body_escape:
  assumes "c \<noteq> CHR 0x00"
  shows "string_body (escape_char c @ t) = map_option (\<lambda>(x, r). (c # x, r)) (string_body t)"
proof (cases "needs_escape c")
  case True
  note not_special = quote_def backslash_def char_of_eq_iff
  show ?thesis
  proof (cases "c \<in> {backslash, quote, CHR 0x08, CHR 0x0C, CHR 0x0A, CHR 0x0D, CHR 0x09}")
    case True
    then show ?thesis
      unfolding insert_iff empty_iff
      by (elim disjE; simp add: escape_char_def needs_escape_def unescape_char_def quote_def backslash_def)
  next
    case False
    let ?k = "of_char c :: nat"
    have k: "?k < 32" using True False by (auto simp: needs_escape_def)
    have "?k \<noteq> of_char (CHR 0x00)" using assms by (simp only: of_char_eq_iff not_False_eq_True)
    then have "?k \<noteq> 0" by simp
    then have u: "parse_unicode (map hex_lower [?k div 4096, ?k div 256 mod 16, ?k div 16 mod 16, ?k mod 16] @ t)
        = ([c], 4)"
      using control_char [OF k, of t] by simp
    have "escape_char c @ t = backslash # CHR ''u'' #
        map hex_lower [?k div 4096, ?k div 256 mod 16, ?k div 16 mod 16, ?k mod 16] @ t"
      using True False by (simp add: escape_char_def Let_def)
    moreover have "CHR ''u'' \<noteq> quote" by (simp add: quote_def)
    ultimately show ?thesis
      using u by (simp del: map_append list.map)
  qed
next
  case False
  then have "c \<noteq> quote" "c \<noteq> backslash" by (auto simp: needs_escape_def)
  then show ?thesis using False by (simp add: escape_char_def)
qed

lemma string_len_escape:
  "\<exists>k \<ge> 1. string_len (escape_char c @ t) = map_option ((+) k) (string_len t)"
proof -
  let ?k = "of_char c :: nat"
  have hex: "hex_lower n \<noteq> quote \<and> hex_lower n \<noteq> backslash" if "n < 16" for n
  proof -
    have "take_bit 8 (48 + n) = 48 + n" "take_bit 8 (87 + n) = 87 + n"
      by (rule take_bit_nat_eq_self, use that in simp)+
    then show ?thesis using that by (auto simp: hex_lower_def quote_def backslash_def char_of_eq_iff)
  qed
  have d: "?k div 4096 < 16" 
  proof -
    have "?k < 256" by (metis of_char_mod_256 mod_less_divisor zero_less_numeral)
    then have "?k < 4096" by linarith
    then have "?k div 4096 = 0" by (rule div_less)
    then show ?thesis by simp
  qed
  show ?thesis
  proof (cases "needs_escape c \<and> c \<notin> {backslash, quote, CHR 0x08, CHR 0x0C, CHR 0x0A, CHR 0x0D, CHR 0x09}")
    case True
    then have "escape_char c @ t = backslash # CHR ''u'' #
        map hex_lower [?k div 4096, ?k div 256 mod 16, ?k div 16 mod 16, ?k mod 16] @ t"
      by (simp add: escape_char_def Let_def)
    then have len: "string_len (escape_char c @ t)
        = map_option (\<lambda>x. Suc (Suc (Suc (Suc (Suc x))))) (string_len t)"
      using hex [OF d] hex [of "?k div 256 mod 16"] hex [of "?k div 16 mod 16"] hex [of "?k mod 16"]
      by (simp add: option.map_comp comp_def)
    have "string_len (escape_char c @ t) = map_option ((+) 5) (string_len t)"
      unfolding len by (cases "string_len t") simp_all
    then show ?thesis by (intro exI [of _ 5]) simp
  next
    case False
    have "escape_char c = [c] \<and> c \<noteq> quote \<and> c \<noteq> backslash \<or> (\<exists>x. escape_char c = [backslash, x])"
    proof (cases "needs_escape c")
      case True
      then have "c \<in> {backslash, quote, CHR 0x08, CHR 0x0C, CHR 0x0A, CHR 0x0D, CHR 0x09}" using False by blast
      then have "\<exists>x. escape_char c = [backslash, x]"
        unfolding insert_iff empty_iff
        by (elim disjE; simp add: escape_char_def needs_escape_def quote_def backslash_def)
      then show ?thesis ..
    next
      case False
      then show ?thesis by (auto simp: escape_char_def needs_escape_def)
    qed
    then have "string_len (escape_char c @ t) = map_option Suc (string_len t)" by auto
    then have "string_len (escape_char c @ t) = map_option ((+) 1) (string_len t)"
      by (cases "string_len t") simp_all
    then show ?thesis by blast
  qed
qed

definition c_text :: "string \<Rightarrow> bool" where "c_text s \<longleftrightarrow> CHR 0x00 \<notin> set s"

lemma string_roundtrip:
  assumes "c_text s"
  shows "string_body (concat (map escape_char s) @ quote # r) = Some (s, r)"
    and "\<exists>n \<ge> length s. string_len (concat (map escape_char s) @ quote # r) = Some n"
proof -
  show "string_body (concat (map escape_char s) @ quote # r) = Some (s, r)"
    using assms by (induction s) (auto simp: c_text_def string_body_escape simp del: string_body.simps(2) simp: string_body.simps(2) [of quote])
  show "\<exists>n \<ge> length s. string_len (concat (map escape_char s) @ quote # r) = Some n"
  proof (induction s)
    case (Cons c s)
    obtain k where k: "1 \<le> k" "string_len (escape_char c @ concat (map escape_char s) @ quote # r)
        = map_option ((+) k) (string_len (concat (map escape_char s) @ quote # r))"
      using string_len_escape by blast
    then show ?case using Cons by (auto intro: exI [of _ "k + _"])
  qed simp
qed

lemma print_string_escape: "print_string_ptr s = quote # concat (map escape_char s) @ [quote]"
proof (cases "\<exists>c \<in> set s. needs_escape c")
  case False
  then have "concat (map escape_char s) = s" by (induction s) (auto simp: escape_char_def)
  then show ?thesis using False by (simp add: print_string_ptr_def)
qed (simp add: print_string_ptr_def)

lemma parse_print_string:
  assumes "c_text s"
  shows "parse_string (print_string_ptr s @ r) = Got s r"
  using string_roundtrip [OF assms, of r] unfolding print_string_escape
  by (auto simp: parse_string_def starts_def)

section \<open>The fuel is enough\<close>

lemma skip_length: "length (skip s) \<le> length s"
  by (simp add: skip_def length_dropWhile_le)

lemma string_body_length: "string_body s = Some (x, r) \<Longrightarrow> length r \<le> length s"
proof (induction s arbitrary: x r rule: string_body.induct)
  case (2 c s)
  then show ?case
    by (auto split: if_splits list.splits simp: le_SucI) (force simp: le_SucI dest: le_trans)+
qed simp

lemma parse_string_length:
  assumes "parse_string s = Got x r"
  shows "length r < length s"
proof -
  obtain c t where "s = c # t" using assms by (cases s) (auto simp: parse_string_def starts_def)
  then show ?thesis
    using assms string_body_length [of t x r]
    by (auto simp: parse_string_def split: if_splits option.splits prod.splits)
qed

lemma parse_exponent_length: "parse_exponent s = Got x r \<Longrightarrow> length r \<le> length s"
proof -
  have d: "length (dropWhile P t) \<le> length t" for P and t :: string by (rule length_dropWhile_le)
  assume "parse_exponent s = Got x r"
  then show ?thesis
    using d [of dec "tl s"] d [of dec "tl (tl s)"]
    by (auto simp: parse_exponent_def Let_def split: if_splits)
qed

lemma parse_whole_length:
  "parse_whole s = (w, r) \<Longrightarrow> length r \<le> length s \<and> (starts dec s \<longrightarrow> length r < length s)"
proof -
  assume w: "parse_whole s = (w, r)"
  show ?thesis
  proof (cases s)
    case (Cons c t)
    have drop: "length (dropWhile dec u) \<le> length u" for u by (rule length_dropWhile_le)
    show ?thesis using w drop [of t] drop [of "tl t"] drop [of "c # t"]
      by (auto simp: parse_whole_def Cons starts_def split: if_splits)
  qed (use w in \<open>simp add: parse_whole_def starts_def\<close>)
qed

lemma parse_frac_length: "parse_frac s = (w, r) \<Longrightarrow> length r \<le> length s"
  using length_dropWhile_le [of dec "tl s"] by (auto simp: parse_frac_def split: if_splits)

lemma parse_number_length:
  assumes "parse_number s = Got j r" "starts (\<lambda>c. c = CHR ''-'' \<or> dec c) s"
  shows "length r < length s"
proof -
  let ?neg = "starts (\<lambda>c. c = CHR ''-'') s"
  obtain whole s1 where 1: "parse_whole (if ?neg then tl s else s) = (whole, s1)" by fastforce
  obtain frac s2 where 2: "parse_frac s1 = (frac, s2)" by fastforce
  have "length s1 < length s"
    using parse_whole_length [OF 1] assms(2) by (cases s) (auto simp: starts_def split: if_splits)
  moreover have "length r \<le> length s2"
    using assms(1) parse_exponent_length [of s2]
    by (auto simp: parse_number_def Let_def 1 2 split: parsed.splits)
  ultimately show ?thesis using parse_frac_length [OF 2] by simp
qed

definition keyword :: "string \<Rightarrow> bool" where
  "keyword s \<longleftrightarrow> take 4 s = ''null'' \<or> take 5 s = ''false'' \<or> take 4 s = ''true''"

lemma parse_value_keyword:
  assumes "keyword s" "parse_value (Suc n) s = Got j r"
  shows "length r < length s"
proof -
  have "take 4 s = ''null'' \<Longrightarrow> 4 \<le> length s" "take 5 s = ''false'' \<Longrightarrow> 5 \<le> length s"
      "take 4 s = ''true'' \<Longrightarrow> 4 \<le> length s"
    by (drule arg_cong [of _ _ length], simp)+
  then show ?thesis using assms unfolding keyword_def by (auto split: if_splits)
qed

lemma parse_value_cons:
  "\<not> keyword (c # t) \<Longrightarrow> parse_value (Suc n) (c # t) =
     (if c = quote then (case parse_string (c # t) of Got x r \<Rightarrow> Got (JString x) r | Bad \<Rightarrow> Bad | Fault \<Rightarrow> Fault | NoFuel \<Rightarrow> NoFuel)
      else if c = CHR ''-'' \<or> dec c then parse_number (c # t)
      else if c = CHR ''['' then
        if starts (\<lambda>c. c = CHR '']'') (skip t) then Got (JArray []) (tl (skip t))
        else (case parse_items n t of Got js r \<Rightarrow> Got (JArray js) r | Bad \<Rightarrow> Bad | Fault \<Rightarrow> Fault | NoFuel \<Rightarrow> NoFuel)
      else if c = CHR ''{'' then
        if starts (\<lambda>c. c = CHR ''}'') (skip t) then Got (JObject []) (tl (skip t))
        else (case parse_members n t of Got ms r \<Rightarrow> Got (JObject ms) r | Bad \<Rightarrow> Bad | Fault \<Rightarrow> Fault | NoFuel \<Rightarrow> NoFuel)
      else Bad)"
  unfolding parse_value.simps keyword_def de_Morgan_disj by (simp only: if_False list.case)

lemma parse_value_Nil [simp]: "parse_value (Suc n) [] = Bad"
  by simp

declare parse_value.simps(2) [simp del]

lemma parse_value_length:
  assumes "parse_value (Suc n) s = Got j r"
    and "\<And>t js r. parse_items n t = Got js r \<Longrightarrow> length r < length t"
    and "\<And>t ms r. parse_members n t = Got ms r \<Longrightarrow> length r < length t"
  shows "length r < length s"
proof (cases "keyword s")
  case True
  then show ?thesis using assms(1) by (rule parse_value_keyword)
next
  case False
  then obtain c t where s: "s = c # t" using assms(1) by (cases s) auto
  note val = assms(1) [unfolded s parse_value_cons [OF False [unfolded s]]]
  consider "c = quote" | "c \<noteq> quote" "c = CHR ''-'' \<or> dec c" | "c \<noteq> quote" "\<not> (c = CHR ''-'' \<or> dec c)" by blast
  then show ?thesis
  proof cases
    case 1
    then show ?thesis using val parse_string_length [of s] by (auto simp: s split: parsed.splits)
  next
    case 2
    then have "starts (\<lambda>c. c = CHR ''-'' \<or> dec c) s" by (simp add: s starts_def)
    then show ?thesis using val 2 parse_number_length [of s] by (simp add: s)
  next
    case 3
    have l: "length (tl (skip t)) < Suc (length t)" using skip_length [of t] by simp
    show ?thesis using val 3 l assms(2) [of t] assms(3) [of t]
      by (cases "parse_items n t"; cases "parse_members n t") (auto simp: s split: if_splits intro: less_SucI)
  qed
qed

lemma parse_length:
  "(parse_value n s = Got j r \<longrightarrow> length r < length s)
   \<and> (parse_items n s = Got js r \<longrightarrow> length r < length s)
   \<and> (parse_members n s = Got ms r \<longrightarrow> length r < length s)"
proof (induction n arbitrary: s j r js ms)
  case (Suc n)
  have v: "length r < length s" if "parse_value n s = Got j r" for s j r using Suc that by blast
  have i: "length r < length s" if "parse_items n s = Got js r" for s js r using Suc that by blast
  have m: "length r < length s" if "parse_members n s = Got js r" for s js r using Suc that by blast
  have sk: "length (skip t) \<le> length t" for t by (rule skip_length)
  have items: "length r < length s" if it: "parse_items (Suc n) s = Got js r"
  proof -
    obtain j r1 where 1: "parse_value n (skip s) = Got j r1" using it by (auto split: parsed.splits)
    obtain c r2 where 2: "skip r1 = c # r2" using it 1 by (auto split: list.splits)
    have "length r \<le> length r2" using it 1 2 i [of r2] by (auto split: if_splits parsed.splits intro: less_imp_le)
    then show ?thesis using v [OF 1] sk [of s] sk [of r1] 2 by simp
  qed
  have members: "length r < length s" if it: "parse_members (Suc n) s = Got ms r"
  proof -
    obtain k r0 where 0: "parse_string (skip s) = Got k r0" using it by (auto split: parsed.splits)
    have "starts (\<lambda>c. c = CHR '':'') (skip r0)" using it 0 by (simp split: if_splits)
    then obtain j r1 where 1: "parse_value n (skip (tl (skip r0))) = Got j r1"
      using it 0 by (auto split: parsed.splits)
    obtain c r2 where 2: "skip r1 = c # r2" using it 0 1 by (auto split: list.splits if_splits)
    have "length r \<le> length r2" using it 0 1 2 m [of r2] by (auto split: if_splits parsed.splits intro: less_imp_le)
    then show ?thesis
      using parse_string_length [OF 0] v [OF 1] sk [of s] sk [of r1] sk [of r0] sk [of "tl (skip r0)"] 2 by simp
  qed
  show ?case using items members parse_value_length [of n s j r] i m by blast
qed simp

lemma parse_value_shorter: "parse_value n s = Got j r \<Longrightarrow> length r < length s"
  using parse_length by blast

lemma fuel_enough:
  "(2 * length s < n \<and> 2 * length s < m \<longrightarrow> parse_value n s = parse_value m s)
   \<and> (2 * length s + 1 < n \<and> 2 * length s + 1 < m \<longrightarrow> parse_items n s = parse_items m s)
   \<and> (2 * length s + 1 < n \<and> 2 * length s + 1 < m \<longrightarrow> parse_members n s = parse_members m s)"
proof (induction n arbitrary: m s)
  case (Suc n)
  show ?case
  proof (cases m)
    case m: (Suc m')
    have v: "parse_value n t = parse_value m' t" if "2 * length t < n" "2 * length t < m'" for t
      using Suc [of t m'] that by blast
    have i: "parse_items n t = parse_items m' t" if "2 * length t + 1 < n" "2 * length t + 1 < m'" for t
      using Suc [of t m'] that by blast
    have ms: "parse_members n t = parse_members m' t" if "2 * length t + 1 < n" "2 * length t + 1 < m'" for t
      using Suc [of t m'] that by blast
    have val: "parse_value (Suc n) s = parse_value (Suc m') s" if "2 * length s < Suc n" "2 * length s < Suc m'"
    proof (cases "keyword s \<or> s = []")
      case True
      then show ?thesis by (auto simp: keyword_def parse_value.simps(2))
    next
      case False
      then obtain c t where s: "s = c # t" by (cases s) auto
      then have "parse_items n t = parse_items m' t" "parse_members n t = parse_members m' t"
        using that i [of t] ms [of t] by auto
      then show ?thesis using False unfolding s by (simp only: parse_value_cons if_cancel de_Morgan_disj simp_thms)
    qed
    have items: "parse_items (Suc n) s = parse_items (Suc m') s"
      if "2 * length s + 1 < Suc n" "2 * length s + 1 < Suc m'"
    proof -
      have "parse_value n (skip s) = parse_value m' (skip s)"
        using skip_length [of s] that by (intro v) simp_all
      moreover have "parse_items n r' = parse_items m' r'"
        if "parse_value m' (skip s) = Got j r" "skip r = c # r'" for j r c r'
        using parse_value_shorter [OF that(1)] that skip_length [of s] skip_length [of r] \<open>2 * length s + 1 < Suc n\<close>
          \<open>2 * length s + 1 < Suc m'\<close> by (intro i) simp_all
      ultimately show ?thesis by (simp split: parsed.split list.split)
    qed
    have members: "parse_members (Suc n) s = parse_members (Suc m') s"
      if "2 * length s + 1 < Suc n" "2 * length s + 1 < Suc m'"
    proof (cases "parse_string (skip s)")
      case (Got k r0)
      have l0: "length (skip (tl (skip r0))) < length s"
        using parse_string_length [OF Got] skip_length [of s] skip_length [of r0] skip_length [of "tl (skip r0)"] by simp
      then have "parse_value n (skip (tl (skip r0))) = parse_value m' (skip (tl (skip r0)))"
        using that by (intro v) simp_all
      moreover have "parse_members n r' = parse_members m' r'"
        if "parse_value m' (skip (tl (skip r0))) = Got j r" "skip r = c # r'" for j r c r'
        using parse_value_shorter [OF that(1)] that l0 skip_length [of r]
          \<open>2 * length s + 1 < Suc n\<close> \<open>2 * length s + 1 < Suc m'\<close> by (intro ms) simp_all
      ultimately show ?thesis using Got by (simp split: parsed.split list.split)
    qed simp_all
    show ?thesis unfolding m using val items members by blast
  qed simp
qed simp

text \<open>With that much fuel every call ends.\<close>

lemma strings_end [simp]: "parse_string s \<noteq> NoFuel" and numbers_end [simp]: "parse_number s \<noteq> NoFuel"
proof -
  show "parse_string s \<noteq> NoFuel"
    by (auto simp: parse_string_def split: option.split prod.split)
  have "parse_exponent t \<noteq> NoFuel" for t by (simp add: parse_exponent_def Let_def)
  then show "parse_number s \<noteq> NoFuel"
    by (auto simp: parse_number_def Let_def split: parsed.split prod.split)
qed

lemma fuel_left:
  "(2 * length s < n \<longrightarrow> parse_value n s \<noteq> NoFuel)
   \<and> (2 * length s + 1 < n \<longrightarrow> parse_items n s \<noteq> NoFuel)
   \<and> (2 * length s + 1 < n \<longrightarrow> parse_members n s \<noteq> NoFuel)"
proof (induction n arbitrary: s)
  case (Suc n)
  have v: "parse_value n t \<noteq> NoFuel" if "2 * length t < n" for t using Suc [of t] that by blast
  have i: "parse_items n t \<noteq> NoFuel" if "2 * length t + 1 < n" for t using Suc [of t] that by blast
  have m: "parse_members n t \<noteq> NoFuel" if "2 * length t + 1 < n" for t using Suc [of t] that by blast
  have val: "parse_value (Suc n) s \<noteq> NoFuel" if "2 * length s < Suc n"
  proof (cases "keyword s \<or> s = []")
    case True
    then show ?thesis by (auto simp: keyword_def parse_value.simps(2))
  next
    case False
    then obtain c t where s: "s = c # t" by (cases s) auto
    then have "parse_items n t \<noteq> NoFuel" "parse_members n t \<noteq> NoFuel"
      using that i [of t] m [of t] by auto
    moreover have "(case parse_string u of Bad \<Rightarrow> Bad | Fault \<Rightarrow> Fault | NoFuel \<Rightarrow> NoFuel
        | Got x r \<Rightarrow> Got (JString x) r) \<noteq> NoFuel" for u
      using strings_end [of u] by (cases "parse_string u") simp_all
    ultimately show ?thesis
      using False unfolding s
      by (cases "parse_items n t"; cases "parse_members n t") (simp_all add: parse_value_cons)
  qed
  have items: "parse_items (Suc n) s \<noteq> NoFuel" if "2 * length s + 1 < Suc n"
  proof -
    have "parse_value n (skip s) \<noteq> NoFuel" using skip_length [of s] that by (intro v) simp_all
    moreover have "parse_items n r' \<noteq> NoFuel" if "parse_value n (skip s) = Got j r" "skip r = c # r'" for j r c r'
      using parse_value_shorter [OF that(1)] that skip_length [of s] skip_length [of r] \<open>2 * length s + 1 < Suc n\<close>
      by (intro i) simp_all
    ultimately show ?thesis by (auto split: parsed.split list.split)
  qed
  have members: "parse_members (Suc n) s \<noteq> NoFuel" if "2 * length s + 1 < Suc n"
  proof (cases "parse_string (skip s)")
    case (Got k r0)
    have l0: "length (skip (tl (skip r0))) < length s"
      using parse_string_length [OF Got] skip_length [of s] skip_length [of r0] skip_length [of "tl (skip r0)"] by simp
    then have "parse_value n (skip (tl (skip r0))) \<noteq> NoFuel" using that by (intro v) simp_all
    moreover have "parse_members n r' \<noteq> NoFuel"
      if "parse_value n (skip (tl (skip r0))) = Got j r" "skip r = c # r'" for j r c r'
      using parse_value_shorter [OF that(1)] that l0 skip_length [of r] \<open>2 * length s + 1 < Suc n\<close>
      by (intro m) simp_all
    ultimately show ?thesis using Got by (auto split: parsed.split list.split)
  qed (use strings_end in auto)
  show ?case using val items members by blast
qed simp

section \<open>What is printed is parsed back\<close>

text \<open>Numbers of 32 bits without fraction, and strings that do not hold the terminating zero.\<close>

fun json_ok :: "json \<Rightarrow> bool" and items_ok :: "json list \<Rightarrow> bool"
  and members_ok :: "(string \<times> json) list \<Rightarrow> bool" where
  "json_ok JNull = True" | "json_ok JFalse = True" | "json_ok JTrue = True"
| "json_ok (JNumber i d) = (int32 i \<and> d = Dbl i 0)"
| "json_ok (JString s) = c_text s"
| "json_ok (JArray js) = items_ok js"
| "json_ok (JObject ms) = members_ok ms"
| "items_ok [] = True"
| "items_ok (j # js) = (json_ok j \<and> items_ok js)"
| "members_ok [] = True"
| "members_ok ((k, j) # ms) = (c_text k \<and> json_ok j \<and> members_ok ms)"

text \<open>What may follow a number.\<close>

definition num_end :: "string \<Rightarrow> bool" where
  "num_end s \<longleftrightarrow> \<not> starts (\<lambda>c. dec c \<or> c = CHR ''.'' \<or> c = CHR ''e'' \<or> c = CHR ''E'') s"

lemma dec_digit_char: "k < 10 \<Longrightarrow> dec (digit_char k)"
  by (simp add: dec_def is_digit_def digit_char_value)

lemma digits_dec: "c \<in> set (digits n) \<Longrightarrow> dec c"
  using digits_all [of c n] dec_digit_char by auto

lemma num_value_digits: "num_value 10 (digits n) = n"
proof -
  have "takeWhile (is_digit 10) (digits n) = digits n"
    by (rule takeWhile_eq_all_conv [THEN iffD2]) (auto dest: digits_dec simp: dec_def)
  then show ?thesis by (simp only: num_value_def digits_value)
qed

lemma num_end_exponent: "num_end s \<Longrightarrow> parse_exponent s = Got 0 s"
  by (auto simp: num_end_def parse_exponent_def starts_def split: list.splits)

lemma takeWhile_dec: "num_end s \<Longrightarrow> takeWhile dec (digits n @ s) = digits n"
  by (subst takeWhile_append2) (auto simp: digits_dec num_end_def starts_def split: list.splits)

lemma parse_frac_none: "num_end s \<Longrightarrow> parse_frac s = ([], s)"
  by (auto simp: num_end_def parse_frac_def starts_def split: list.splits)

lemma parse_whole_digits:
  assumes "num_end s"
  shows "parse_whole (digits n @ s) = (if n = 0 then [] else digits n, s)"
proof (cases "n = 0")
  case True
  then have "digits n = ''0''" by (simp add: digits.simps digit_char_def char_of_eq_iff)
  moreover have "\<not> starts (\<lambda>c. dec c \<and> c \<noteq> CHR ''0'') s"
    using assms by (auto simp: num_end_def starts_def split: list.splits)
  ultimately show ?thesis using True by (simp add: parse_whole_def starts_def)
next
  case False
  obtain c t where d: "digits n = c # t" by (cases "digits n") auto
  have "dec c" using digits_dec [of c n] d by simp
  moreover have "c \<noteq> CHR ''0''" using digits_hd [of n] d False by simp
  ultimately have "starts (\<lambda>c. dec c \<and> c \<noteq> CHR ''0'') (digits n @ s)" "\<not> starts (\<lambda>c. c = CHR ''0'') (digits n @ s)"
    by (simp_all add: starts_def d)
  moreover have "dropWhile dec (digits n @ s) = s"
    using assms by (subst dropWhile_append2) (auto simp: digits_dec num_end_def starts_def dropWhile_eq_self_iff split: list.splits)
  ultimately show ?thesis using False by (simp add: parse_whole_def takeWhile_dec [OF assms])
qed

lemma parse_number_d_str:
  assumes "int32 i" "num_end s"
  shows "parse_number (d_str i @ s) = Got (JNumber i (Dbl i 0)) s"
proof -
  have v: "num_value 10 (if n = 0 then [] else digits n) = n" for n
    using num_value_digits by (simp add: num_value_def)
  have c: "clamp32 i = i" using assms(1) by (auto simp: clamp32_def int32_def)
  note parts = parse_whole_digits [OF assms(2)] parse_frac_none [OF assms(2)] num_end_exponent [OF assms(2)]
  show ?thesis
  proof (cases "i < 0")
    case True
    then show ?thesis using v [of "nat (- i)"] c
      by (simp add: parse_number_def d_str_def parts starts_def)
  next
    case False
    obtain x t where d: "digits (nat i) = x # t" by (cases "digits (nat i)") auto
    have "x \<noteq> CHR ''-''" using digits_all [of x "nat i"] digit_char_value(3) d by auto
    then have "\<not> starts (\<lambda>c. c = CHR ''-'') (digits (nat i) @ s)" by (simp add: starts_def d)
    then show ?thesis using v [of "nat i"] c False
      by (simp add: parse_number_def d_str_def parts)
  qed
qed

lemma print_number_int: "int32 i \<Longrightarrow> print_number i (Dbl i 0) = d_str i"
proof -
  have "digit_char 0 = CHR ''0''" by (simp add: digit_char_def char_of_eq_iff)
  then show "int32 i \<Longrightarrow> print_number i (Dbl i 0) = d_str i"
    by (simp add: print_number.simps prints_int_def dbl_num_def dbl_den_def int32_def d_str_def digits.simps [of 0])
qed

text \<open>White space before an item does not matter.\<close>

lemma skip_space [simp]: "(of_char c :: nat) \<le> 32 \<Longrightarrow> skip (c # s) = skip s"
  and skip_visible [simp]: "\<not> (of_char c :: nat) \<le> 32 \<Longrightarrow> skip (c # s) = c # s"
  by (simp_all add: skip_def)

lemma skip_tabs [simp]: "skip (tabs n @ s) = skip s"
  by (induction n) (simp_all add: tabs_def)

lemma skip_skip [simp]: "skip (skip s) = skip s"
  by (simp add: skip_def dropWhile_idem)

lemma parse_items_skip: "parse_items n (skip s) = parse_items n s"
  and parse_members_skip: "parse_members n (skip s) = parse_members n s"
  by (cases n; simp)+

lemma quote_visible [simp]: "skip (quote # s) = quote # s"
  by (simp add: quote_def)

lemma digit_visible: "dec c \<Longrightarrow> \<not> (of_char c :: nat) \<le> 32 \<and> c \<notin> {CHR '']'', CHR ''n'', CHR ''f'', CHR ''t'', quote}"
  by (auto simp: dec_def is_digit_def digit_value_def Let_def quote_def split: if_splits)

lemma print_head:
  assumes "json_ok j"
  shows "\<exists>c t. print_value fmt d j = c # t \<and> \<not> (of_char c :: nat) \<le> 32 \<and> c \<noteq> CHR '']''"
proof (cases j)
  case (JNumber i x)
  obtain c t where d: "digits (nat i) = c # t" by (cases "digits (nat i)") auto
  have "dec c" using digits_dec [of c "nat i"] d by simp
  then show ?thesis using assms JNumber d digit_visible [of c] by (auto simp: print_number_int d_str_def)
next
  case (JString s)
  then show ?thesis by (simp add: print_string_escape quote_def)
qed auto

lemma not_keyword: "c \<notin> {CHR ''n'', CHR ''f'', CHR ''t''} \<Longrightarrow> \<not> keyword (c # s)"
  by (simp add: keyword_def)

lemma parse_value_int:
  assumes "int32 i" "num_end s"
  shows "parse_value (Suc n) (d_str i @ s) = Got (JNumber i (Dbl i 0)) s"
proof -
  obtain x u where x: "digits (nat i) = x # u" by (cases "digits (nat i)") auto
  have "\<exists>c t. d_str i @ s = c # t \<and> (c = CHR ''-'' \<or> dec c)"
    using digits_dec [of x "nat i"] x by (simp add: d_str_def)
  then obtain c t where d: "d_str i @ s = c # t" "c = CHR ''-'' \<or> dec c" by blast
  have "c \<notin> {CHR ''n'', CHR ''f'', CHR ''t''}" "c \<noteq> quote"
    using d(2) digit_visible [of c] by (auto simp: quote_def)
  then show ?thesis
    using parse_number_d_str [OF assms] d unfolding d(1) by (simp add: parse_value_cons not_keyword)
qed

lemma parse_value_string: "c_text s \<Longrightarrow> parse_value (Suc n) (print_string_ptr s @ r) = Got (JString s) r"
  using parse_print_string [of s r] not_keyword [of quote]
  by (simp add: print_string_escape parse_value_cons quote_def)

lemma parse_items_step:
  assumes "parse_value n (pv @ r) = Got j r" "skip (pv @ r) = pv @ r" "skip r = c # r'"
    and "if js = [] then c = CHR '']'' \<and> r' = r'' else c = CHR '','' \<and> parse_items n r' = Got js r''"
  shows "parse_items (Suc n) (pv @ r) = Got (j # js) r''"
  using assms by (auto split: if_splits)

lemma parse_members_step:
  assumes "c_text k" "parse_value n (pv @ r) = Got j r" "skip (pv @ r) = pv @ r" "skip r = c # r'"
    and "if ms = [] then c = CHR ''}'' \<and> r' = r'' else c = CHR '','' \<and> parse_members n r' = Got ms r''"
    and "skip s = print_string_ptr k @ CHR '':'' # s'" "skip s' = pv @ r"
  shows "parse_members (Suc n) s = Got ((k, j) # ms) r''"
  using assms parse_print_string [OF assms(1), of "CHR '':'' # s'"] by (auto simp: starts_def split: if_splits)

lemma parse_print:
  "json_ok j \<Longrightarrow> num_end r \<Longrightarrow> 2 * length (print_value fmt depth j @ r) < n
    \<Longrightarrow> parse_value n (print_value fmt depth j @ r) = Got j r"
  "items_ok js \<Longrightarrow> js \<noteq> [] \<Longrightarrow> 2 * length (print_items fmt depth js @ r) + 1 < n
    \<Longrightarrow> parse_items n (print_items fmt depth js @ r) = Got js r"
  "members_ok ms \<Longrightarrow> ms \<noteq> [] \<Longrightarrow> 2 * length (print_members fmt depth ms @ r) + 1 < n
    \<Longrightarrow> parse_members n (print_members fmt depth ms @ r) = Got ms r"
proof (induction fmt depth j and fmt depth js and fmt depth ms arbitrary: r n and r n and r n
    rule: print_value_print_items_print_members.induct)
  case (1 fmt depth)
  then show ?case by (cases n) (simp_all add: parse_value.simps(2))
next
  case (2 fmt depth)
  then show ?case by (cases n) (simp_all add: parse_value.simps(2))
next
  case (3 fmt depth)
  then show ?case by (cases n) (simp_all add: parse_value.simps(2))
next
  case (4 fmt depth i d)
  then show ?case by (cases n) (simp_all add: print_number_int parse_value_int)
next
  case (5 fmt depth s)
  then show ?case by (cases n) (simp_all add: parse_value_string)
next
  case (6 fmt depth js)
  obtain n' where n: "n = Suc n'" using 6(4) by (cases n) auto
  show ?case
  proof (cases js)
    case Nil
    then show ?thesis by (simp add: n parse_value_cons not_keyword quote_def dec_def is_digit_def digit_value_def starts_def)
  next
    case (Cons j js')
    obtain c t where h: "print_value fmt (depth + 1) j = c # t" "\<not> (of_char c :: nat) \<le> 32" "c \<noteq> CHR '']''"
      using print_head [of j fmt "depth + 1"] 6(2) Cons by auto
    have "parse_items n' (print_items fmt (depth + 1) js @ r) = Got js r"
      using 6(1) [of r n'] 6(2,4) Cons n by auto
    moreover have "\<not> starts (\<lambda>c. c = CHR '']'') (skip (print_items fmt (depth + 1) js @ r))"
      using h by (simp add: Cons starts_def)
    ultimately show ?thesis
      using Cons by (simp add: n parse_value_cons not_keyword quote_def dec_def is_digit_def digit_value_def)
  qed
next
  case (7 fmt depth ms)
  obtain n' where n: "n = Suc n'" using 7(4) by (cases n) auto
  show ?case
  proof (cases ms)
    case Nil
    then show ?thesis
      by (cases fmt) (simp_all add: n parse_value_cons not_keyword quote_def dec_def is_digit_def digit_value_def starts_def)
  next
    case (Cons m ms')
    let ?nl = "if fmt then [CHR 0x0A] else []"
    have nl: "skip (?nl @ s) = skip s" for s by simp
    have "parse_members n' (print_members fmt (depth + 1) ms @ r) = Got ms r"
      using 7(1) [of r n'] 7(2,4) Cons n by (auto split: if_splits)
    then have p: "parse_members n' (?nl @ print_members fmt (depth + 1) ms @ r) = Got ms r"
      by (metis nl parse_members_skip)
    have "\<not> starts (\<lambda>c. c = CHR ''}'') (skip (?nl @ print_members fmt (depth + 1) ms @ r))"
      by (cases m) (simp add: Cons starts_def print_string_escape, simp add: quote_def)
    then show ?thesis
      using Cons p by (simp add: n parse_value_cons not_keyword quote_def dec_def is_digit_def digit_value_def)
  qed
next
  case (9 fmt depth j js)
  obtain n' where n: "n = Suc n'" using 9(5) by (cases n) auto
  obtain c t where h: "print_value fmt depth j = c # t" "\<not> (of_char c :: nat) \<le> 32"
    using print_head [of j fmt depth] 9(3) by auto
  let ?r = "(if js = [] then '']'' else '','' @ (if fmt then '' '' else []) @ print_items fmt depth js) @ r"
  have "num_end ?r" by (simp add: num_end_def starts_def dec_def is_digit_def digit_value_def)
  then have v: "parse_value n' (print_value fmt depth j @ ?r) = Got j ?r"
    using 9(3,5) n by (intro 9(1)) auto
  have i: "parse_items n' ((if fmt then '' '' else []) @ print_items fmt depth js @ r) = Got js r" if "js \<noteq> []"
  proof -
    have "parse_items n' (print_items fmt depth js @ r) = Got js r"
      using 9(3,5) n that by (intro 9(2)) (auto split: if_splits)
    moreover have "skip ((if fmt then '' '' else []) @ print_items fmt depth js @ r) = skip (print_items fmt depth js @ r)"
      by simp
    ultimately show ?thesis by (metis parse_items_skip)
  qed
  have "parse_items (Suc n') (print_value fmt depth j @ ?r) = Got (j # js) r"
    by (rule parse_items_step [where c = "if js = [] then CHR '']'' else CHR '',''" and
          r' = "if js = [] then r else (if fmt then '' '' else []) @ print_items fmt depth js @ r"])
      (use v h i in auto)
  then show ?case by (simp add: n)
next
  case (11 fmt depth k j ms)
  obtain n' where n: "n = Suc n'" using 11(5) by (cases n) auto
  obtain c t where h: "print_value fmt depth j = c # t" "\<not> (of_char c :: nat) \<le> 32"
    using print_head [of j fmt depth] 11(3) by auto
  let ?nl = "if fmt then [CHR 0x0A] else []"
  let ?m = "print_members fmt depth ms @ r"
  let ?r = "(if ms = [] then [] else '','') @ ?nl @ ?m"
  have nl: "skip (?nl @ s) = skip s" for s by simp
  have close: "skip (print_members fmt depth [] @ r) = CHR ''}'' # r" by simp
  have "num_end ?r"
    by (auto simp: num_end_def starts_def dec_def is_digit_def digit_value_def)
  then have v: "parse_value n' (print_value fmt depth j @ ?r) = Got j ?r"
    using 11(3,5) n by (intro 11(1)) auto
  have i: "parse_members n' (?nl @ ?m) = Got ms r" if "ms \<noteq> []"
  proof -
    have "parse_members n' ?m = Got ms r"
      using 11(3,5) n that by (intro 11(2)) (auto split: if_splits)
    then show ?thesis by (metis nl parse_members_skip)
  qed
  have "parse_members (Suc n') (print_members fmt depth ((k, j) # ms) @ r) = Got ((k, j) # ms) r"
    by (rule parse_members_step [where pv = "print_value fmt depth j" and r = ?r and
          c = "if ms = [] then CHR ''}'' else CHR '',''" and r' = "if ms = [] then r else ?nl @ ?m" and
          s' = "(if fmt then [CHR 0x09] else []) @ print_value fmt depth j @ ?r"])
      (use 11(3) v h i close in \<open>auto simp: print_string_escape\<close>)
  then show ?case by (simp add: n)
qed simp_all

section \<open>Properties\<close>

lemma cJSON_Parse_print:
  assumes "json_ok j"
  shows "cJSON_Parse (print_value fmt 0 j) = Got j []"
proof -
  obtain c t where h: "print_value fmt 0 j = c # t" "\<not> (of_char c :: nat) \<le> 32"
    using print_head [OF assms] by blast
  have "num_end []" by (simp add: num_end_def starts_def)
  from parse_print(1) [OF assms this, of fmt 0 "2 * length (print_value fmt 0 j) + 1"]
  have "parse_value (2 * length (print_value fmt 0 j) + 1) (print_value fmt 0 j) = Got j []" by simp
  moreover have "skip (print_value fmt 0 j) = print_value fmt 0 j" using h by simp
  ultimately show ?thesis by (simp only: cJSON_Parse_def)
qed

text \<open>
  C32: Every JSON item with 32-bit integers and strings without the terminating zero, printed
  with or without formatting, is parsed back to the same item, to the end of the text.
\<close>

theorem json_parse_print:
  assumes "json_ok j"
  shows "cJSON_Parse (cJSON_Print j) = Got j [] \<and> cJSON_Parse (cJSON_PrintUnformatted j) = Got j []"
  using cJSON_Parse_print [OF assms] by (simp add: cJSON_Print_def cJSON_PrintUnformatted_def)

lemma json_parse_print_witness:
  "cJSON_Parse (cJSON_Print (JObject [(''channel'', json_num 2), (''data'', JString [CHR 0x0A, quote]),
      (''ids'', cJSON_CreateIntArray [1, -5])]))
    = Got (JObject [(''channel'', json_num 2), (''data'', JString [CHR 0x0A, quote]),
      (''ids'', cJSON_CreateIntArray [1, -5])]) []"
  using json_parse_print [of "JObject [(''channel'', json_num 2), (''data'', JString [CHR 0x0A, quote]),
      (''ids'', cJSON_CreateIntArray [1, -5])]"]
  by (simp add: json_num_def cJSON_CreateNumber_def cJSON_CreateIntArray_def c_text_def int32_def
      dbl_num_def dbl_den_def clamp32_def quote_def)

text \<open>
  C33: The parser ends on every text: calls nested to twice the length of the text plus one
  are enough, so that none is cut off (a cut-off call is a result of its own, apart from a
  refused text and from an access outside of the text), and any more fuel gives the same
  result.
\<close>

theorem json_parser_terminates:
  "cJSON_Parse s \<noteq> NoFuel \<and> (\<forall>n > 2 * length s. parse_value n (skip s) = cJSON_Parse s)"
proof -
  have "parse_value n (skip s) = cJSON_Parse s" if "2 * length s < n" for n
    unfolding cJSON_Parse_def
    using fuel_enough [of "skip s" n "2 * length s + 1"] skip_length [of s] that by simp
  moreover have "cJSON_Parse s \<noteq> NoFuel"
    unfolding cJSON_Parse_def using fuel_left [of "skip s" "2 * length s + 1"] skip_length [of s] by simp
  ultimately show ?thesis by blast
qed

lemma json_parser_terminates_witness:
  "cJSON_Parse ''[1, 2]'' \<noteq> NoFuel \<and> parse_value 100 (skip ''[1, 2]'') = cJSON_Parse ''[1, 2]''"
  using json_parser_terminates [of "''[1, 2]''"] by simp

text \<open>
  The integer value of a number with a fraction is the number without its point, and an
  exponent does not change it.
\<close>

theorem whole_value_has_the_digits_of_the_fraction:
  assumes "0 < n" "k < 10" "num_end s"
  shows "parse_value (Suc f) (digits n @ CHR ''.'' # digits k @ s)
      = Got (JNumber (clamp32 (10 * int n + int k)) (Dbl (10 * int n + int k) (- 1))) s
    \<and> parse_value (Suc f) (digits n @ CHR ''e'' # digits k @ s)
      = Got (JNumber (clamp32 (int n)) (Dbl (int n) (int k))) s"
proof -
  obtain c t where d: "digits n = c # t" by (cases "digits n") auto
  have c: "dec c" "c \<noteq> CHR ''0''" "c \<noteq> CHR ''-''"
    using digits_dec [of c n] digits_hd [of n] assms(1) d digits_all [of c n] digit_char_value(3) by auto
  have k: "digits k = [digit_char k]" using assms(2) by (simp add: digits.simps)
  have dk: "dec (digit_char k)" by (rule dec_digit_char [OF assms(2)])
  have head: "starts (\<lambda>c. dec c \<and> c \<noteq> CHR ''0'') (digits n @ u)" "\<not> starts (\<lambda>c. c = CHR ''0'') (digits n @ u)"
      "\<not> starts (\<lambda>c. c = CHR ''-'') (digits n @ u)" for u
    using c by (simp_all add: starts_def d)
  have whole: "parse_whole (digits n @ x # u) = (digits n, x # u)" if "\<not> dec x" for x u
    using head that by (simp add: parse_whole_def takeWhile_append2 dropWhile_append2 digits_dec)
  have dot: "\<not> dec (CHR ''.'')" "\<not> dec (CHR ''e'')"
    by (simp_all add: dec_def is_digit_def digit_value_def)
  have end1: "dropWhile dec s = s" "takeWhile dec s = []"
    using assms(3) by (cases s; simp add: num_end_def starts_def)+
  have v: "num_value 10 (digits n @ [digit_char k]) = 10 * n + k"
  proof -
    have "takeWhile (is_digit 10) (digits n @ [digit_char k]) = digits n @ [digit_char k]"
      by (rule takeWhile_eq_all_conv [THEN iffD2]) (use dk in \<open>auto dest: digits_dec simp: dec_def\<close>)
    then show ?thesis
      using digits_value [of n] digit_char_value(1) [OF assms(2)] by (simp add: num_value_def)
  qed
  have x: "num_value 10 (digit_char k # s) = k"
    using dk end1(2) digit_char_value(1) [OF assms(2)]
    by (simp add: num_value_def dec_def [abs_def])
  have sgn: "digit_char k \<noteq> CHR ''+'' \<and> digit_char k \<noteq> CHR ''-''"
    using digit_char_value(3,4) [OF assms(2)] by simp
  have "parse_number (digits n @ CHR ''.'' # digits k @ s)
      = Got (JNumber (clamp32 (10 * int n + int k)) (Dbl (10 * int n + int k) (- 1))) s"
    by (simp add: parse_number_def head whole dot parse_frac_def starts_def [of _ "_ # _"] k dk end1 v Let_def
        num_end_exponent [OF assms(3)])
  moreover have "parse_exponent (CHR ''e'' # digit_char k # s) = Got (int k) s"
    using assms(2) sgn by (simp add: parse_exponent_def starts_def x dk end1)
  then have "parse_number (digits n @ CHR ''e'' # digits k @ s)
      = Got (JNumber (clamp32 (int n)) (Dbl (int n) (int k))) s"
    by (simp add: parse_number_def head whole dot parse_frac_def starts_def [of _ "_ # _"] k num_value_digits Let_def)
  ultimately show ?thesis
    using c digit_visible [of c] unfolding d append_Cons by (simp add: parse_value_cons not_keyword)
qed

lemma whole_value_has_the_digits_of_the_fraction_witness:
  "parse_value 1 (digits 1 @ CHR ''.'' # digits 5 @ ''}'') = Got (JNumber 15 (Dbl 15 (- 1))) ''}''"
  using whole_value_has_the_digits_of_the_fraction [of 1 5 "''}''" 0]
  by (simp add: num_end_def starts_def dec_def is_digit_def digit_value_def clamp32_def)

text \<open>
  A string in which a unicode escape ends before its four digits makes the parser step over
  the closing quote and write behind the block it allocated.
\<close>

theorem short_escape_overruns_block:
  assumes "\<forall>c \<in> set s. c \<noteq> quote \<and> c \<noteq> backslash" "2 \<le> length s"
  shows "cJSON_Parse (quote # backslash # CHR ''u'' # quote # x # y # z # s @ [quote]) = Fault"
proof -
  let ?t = "backslash # CHR ''u'' # quote # x # y # z # s @ [quote]"
  have body: "string_body (s @ [quote]) = Some (s, [])"
    using assms(1) by (induction s) auto
  have "hex_value quote = None" by (simp add: hex_value_def digit_value_def quote_def)
  then have "parse_unicode (quote # u) = ([], 4)" for u
    by (simp add: parse_unicode_def parse_hex4_def eval_nat_numeral)
  then have "string_body ?t = Some (s, [])" using body by simp
  moreover have "string_len ?t = Some 1" by simp
  ultimately have "parse_string (quote # ?t) = Fault"
    using assms(2) by (simp add: parse_string_def starts_def)
  moreover have "\<not> keyword (quote # ?t)" by (rule not_keyword) (simp add: quote_def)
  ultimately show ?thesis
    by (simp add: cJSON_Parse_def parse_value_cons del: string_body.simps string_len.simps)
qed

lemma short_escape_overruns_block_witness:
  "cJSON_Parse (quote # backslash # ''u'' @ quote # ''123abcdef'' @ [quote]) = Fault"
  using short_escape_overruns_block [of "''abcdef''" "CHR ''1''" "CHR ''2''" "CHR ''3''"]
  by (simp add: quote_def backslash_def)

text \<open>The printed text and its terminating zero fit the block.\<close>

lemma length_escape_char:
  "length (escape_char c) = (if c \<in> {quote, backslash, CHR 0x08, CHR 0x0C, CHR 0x0A, CHR 0x0D, CHR 0x09} then 2
     else if (of_char c :: nat) < 32 then 6 else 1)"
  by (auto simp: escape_char_def needs_escape_def Let_def quote_def backslash_def)

lemma print_string_fits: "length (print_string_ptr s) < string_block s"
proof -
  have "length (concat (map escape_char s))
      = sum_list (map (\<lambda>c. if c \<in> {quote, backslash, CHR 0x08, CHR 0x0C, CHR 0x0A, CHR 0x0D, CHR 0x09} then 2
                         else if (of_char c :: nat) < 32 then 6 else 1) s)"
    unfolding length_concat map_map comp_def length_escape_char by (rule refl)
  then show ?thesis by (simp add: print_string_ptr_def string_block_def del: insert_iff)
qed

lemma print_items_length:
  "js \<noteq> [] \<Longrightarrow> length (print_items fmt depth js)
    \<le> sum_list (map (\<lambda>j. length (print_value fmt depth j) + 2 + (if fmt then 1 else 0)) js)"
  by (induction js) auto

lemma print_members_length:
  "length (print_members fmt depth ms)
    \<le> sum_list (map (\<lambda>(k, j). length (print_value fmt depth j) + length (print_string_ptr k) + 2
                       + (if fmt then 2 + depth else 0)) ms) + (if fmt then depth else 0) + 1"
  by (induction ms) (auto simp: tabs_def)

text \<open>Numbers: a \<open>double\<close> has a decimal exponent of at most three digits.\<close>

fun double_range :: "dbl \<Rightarrow> bool" where
  "double_range (Dbl m e) \<longleftrightarrow> \<bar>int (length (digits (nat \<bar>m\<bar>))) + e\<bar> \<le> 400"

lemma round_half_even_le:
  assumes "n \<le> k * d" "0 < d"
  shows "round_half_even n d \<le> k"
proof (cases "n div d = k")
  case True
  then have "n mod d = 0" using assms(1) mult_div_mod_eq [of d n] by (simp add: mult.commute)
  then show ?thesis using True assms(2) by (simp add: round_half_even_def)
next
  case False
  have "n div d \<le> k" using div_le_mono [OF assms(1), of d] assms(2) by simp
  then show ?thesis using False by (simp add: round_half_even_def Let_def)
qed

lemma length_sign: "length (sign_str m) \<le> 1"
  by (simp add: sign_str_def)

lemma length_pad: "length (digits k) \<le> n \<Longrightarrow> length (pad_left n (digits k)) = n"
  by (simp add: pad_left_def)

lemma length_six: "length (pad_left 6 (digits (q mod 10 ^ 6))) = 6"
  by (rule length_pad, rule length_digits) simp_all

lemma dbl_den_pos: "0 < dbl_den e"
  by (simp add: dbl_den_def)

lemma abs_le_nat: "\<bar>x\<bar> \<le> int k * d \<Longrightarrow> 0 < d \<Longrightarrow> nat \<bar>x\<bar> \<le> k * nat d"
  by (simp add: nat_le_iff)

lemma length_fmt_0f:
  assumes "\<bar>dbl_num m e\<bar> < 10 ^ 60 * dbl_den e"
  shows "length (fmt_0f m e) \<le> 62"
proof -
  have "nat \<bar>dbl_num m e\<bar> \<le> 10 ^ 60 * nat (dbl_den e)"
    using assms dbl_den_pos [of e] by (intro abs_le_nat) simp_all
  then have "round_half_even (nat \<bar>dbl_num m e\<bar>) (nat (dbl_den e)) \<le> 10 ^ 60"
    using dbl_den_pos [of e] by (intro round_half_even_le) simp_all
  then have "length (digits (round_half_even (nat \<bar>dbl_num m e\<bar>) (nat (dbl_den e)))) \<le> 61"
    by (intro length_digits) simp_all
  then show ?thesis using length_sign [of m] by (simp add: fmt_0f_def)
qed

lemma length_fmt_f:
  assumes "\<bar>dbl_num m e\<bar> \<le> 10 ^ 9 * dbl_den e"
  shows "length (fmt_f m e) \<le> 18"
proof -
  let ?q = "round_half_even (nat \<bar>dbl_num m e\<bar> * 10 ^ 6) (nat (dbl_den e))"
  have "nat \<bar>dbl_num m e\<bar> \<le> 10 ^ 9 * nat (dbl_den e)"
    using assms dbl_den_pos [of e] by (intro abs_le_nat) simp_all
  then have "?q \<le> 10 ^ 15" using dbl_den_pos [of e] by (intro round_half_even_le) simp_all
  then have "?q div 10 ^ 6 \<le> 10 ^ 15 div 10 ^ 6" by (rule div_le_mono)
  then have "length (digits (?q div 10 ^ 6)) \<le> 10" by (intro length_digits) simp_all
  then show ?thesis using length_sign [of m] length_six [of ?q] by (simp add: fmt_f_def Let_def)
qed

lemma digits_bound: "n < 10 ^ length (digits n)"
proof (induction n rule: digits.induct)
  case (1 n)
  show ?case
  proof (cases "n < 10")
    case True
    then show ?thesis by (simp add: digits.simps)
  next
    case False
    then have "n div 10 < 10 ^ length (digits (n div 10))" by (rule 1)
    then have "n < 10 * 10 ^ length (digits (n div 10))" by linarith
    then show ?thesis using False by (subst digits.simps) simp
  qed
qed

lemma length_fmt_e:
  assumes "double_range (Dbl m e)"
  shows "length (fmt_e m e) \<le> 14"
proof -
  define n where "n = nat \<bar>m\<bar>"
  define len where "len = length (digits n)"
  define q where "q = (if len \<le> 7 then n * 10 ^ (7 - len) else round_half_even n (10 ^ (len - 7)))"
  define x where "x = int len - 1 + e"
  have n: "n < 10 ^ len" unfolding len_def by (rule digits_bound)
  have "q \<le> 10 ^ 7"
  proof (cases "len \<le> 7")
    case True
    have "n * 10 ^ (7 - len) \<le> 10 ^ len * 10 ^ (7 - len)" using n by (intro mult_le_mono1) simp
    then show ?thesis using True by (simp add: q_def flip: power_add)
  next
    case False
    then have "(10 :: nat) ^ len = 10 ^ 7 * 10 ^ (len - 7)" unfolding power_add [symmetric] by simp
    then have "n \<le> 10 ^ 7 * 10 ^ (len - 7)" using n by simp
    then show ?thesis using False by (simp add: q_def round_half_even_le)
  qed
  moreover obtain q' x' where qx: "(if q = 10 ^ 7 then (10 ^ 6, x + 1) else (q, x)) = (q', x')" by fastforce
  ultimately have q': "q' < 10 ^ 7" and x': "\<bar>x'\<bar> < 1000"
    using assms by (auto simp: x_def len_def n_def split: if_splits)
  have "length (digits (q' div 10 ^ 6)) \<le> 1"
    by (rule length_digits) (use q' in \<open>simp_all add: less_mult_imp_div_less\<close>)
  moreover have "length (digits (nat \<bar>x'\<bar>)) \<le> 3" by (rule length_digits) (use x' in simp_all)
  then have "length (pad_left 2 (digits (nat \<bar>x'\<bar>))) \<le> 3" by (simp add: pad_left_def)
  moreover have "fmt_e m e = sign_str m @ digits (q' div 10 ^ 6) @ ''.'' @ pad_left 6 (digits (q' mod 10 ^ 6)) @ ''e''
      @ (if x' < 0 then ''-'' else ''+'') @ pad_left 2 (digits (nat \<bar>x'\<bar>))"
    unfolding fmt_e_def Let_def n_def [symmetric] len_def [symmetric] q_def [symmetric] x_def [symmetric] qx
      prod.case by (rule refl)
  ultimately show ?thesis using length_sign [of m] length_six [of q'] by (cases "x' < 0") simp_all
qed

lemma print_number_fits:
  assumes "int32 i" "double_range d"
  shows "length (print_value fmt depth (JNumber i d)) < print_block fmt depth (JNumber i d)"
proof -
  obtain m e where d: "d = Dbl m e" by (cases d)
  have i: "length (d_str i) \<le> 11" by (rule length_d_str [OF assms(1)])
  have f: "length (fmt_f m e) < 64" if "\<not> 10 ^ 9 * dbl_den e < \<bar>dbl_num m e\<bar>"
    using length_fmt_f [of m e] that by simp
  have z: "length (fmt_0f m e) < 64" if "\<bar>dbl_num m e\<bar> < 10 ^ 60 * dbl_den e"
    using length_fmt_0f [OF that] by simp
  have x: "length (fmt_e m e) \<le> 14" using assms(2) unfolding d by (rule length_fmt_e)
  show ?thesis
  proof (cases "m = 0 \<or> prints_int i m e")
    case True
    then show ?thesis using i by (auto simp: d print_number.simps)
  next
    case False
    then show ?thesis using f z x unfolding d print_value.simps print_block.simps print_number.simps Let_def
      by (simp only: de_Morgan_disj if_False simp_thms split: if_split) linarith
  qed
qed

text \<open>
  C34: The text of an item and its terminating zero fit the block that is allocated for it, at
  any depth, formatted or not: for every string, array and object, and for every number with a
  32-bit integer value and a double within the range of the type (decimal exponent up to 400),
  with or without a fraction.
\<close>

theorem printed_text_fits_its_block:
  assumes "\<And>i d. j = JNumber i d \<Longrightarrow> int32 i \<and> double_range d"
  shows "length (print_value fmt depth j) < print_block fmt depth j"
proof (cases j)
  case (JNumber i d)
  then show ?thesis using print_number_fits assms by blast
next
  case (JString s)
  then show ?thesis using print_string_fits by simp
next
  case (JArray js)
  then show ?thesis using print_items_length [of js fmt "depth + 1"] by auto
next
  case (JObject ms)
  then show ?thesis using print_members_length [of fmt "depth + 1" ms] by (auto simp: tabs_def)
qed auto

lemma printed_text_fits_its_block_witness:
  "length (print_value True 0 (JNumber 31 (Dbl 3125 (- 4)))) < 64"
  using printed_text_fits_its_block [of "JNumber 31 (Dbl 3125 (- 4))" True 0]
  by (simp add: int32_def prints_int_def dbl_num_def dbl_den_def digits.simps)

end
