(* ===== verification/Answers.thy ===== *)
theory Answers
  imports Json OtpMessages GammaMessages PackDelivery
begin

text \<open>
  What the program tells the host, the senders of \<open>client.c\<close> and \<open>net_general_command.c\<close>: a
  command and, for most, the text of a JSON object. A message is the command with the text as
  it is handed to \<open>sendSocketCmd\<close>; numbers that the program holds as \<open>double\<close> are decimals as in
  \<open>Json\<close>. Shown: the host that takes the frame off the stream and parses it has the fields the
  program put in, whatever follows on the stream.
\<close>

section \<open>Messages\<close>

type_synonym client_msg = "u32 \<times> string"

definition CLIENT_MSG_REGISTER :: u32 where "CLIENT_MSG_REGISTER = 0x2000"
definition CLIENT_MSG_SYNCFILE :: u32 where "CLIENT_MSG_SYNCFILE = 0x2001"
definition CLIENT_MSG_SYNCPROC :: u32 where "CLIENT_MSG_SYNCPROC = 0x2002"
definition CLIENT_MSG_SYNCFIN :: u32 where "CLIENT_MSG_SYNCFIN = 0x2003"
definition CLIENT_MSG_SENDEDID :: u32 where "CLIENT_MSG_SENDEDID = 0x2004"
definition CLIENT_MSG_SENDVCOM :: u32 where "CLIENT_MSG_SENDVCOM = 0x2005"
definition CLIENT_MSG_SENDPOW :: u32 where "CLIENT_MSG_SENDPOW = 0x2007"
definition CLIENT_MSG_SENDREG :: u32 where "CLIENT_MSG_SENDREG = 0x2008"
definition CLIENT_MSG_REGSTAT :: u32 where "CLIENT_MSG_REGSTAT = 0x2009"
definition CLIENT_MSG_REGISTER_EX :: u32 where "CLIENT_MSG_REGISTER_EX = 0x200A"
definition CLIENT_MSG_UPDSTAT :: u32 where "CLIENT_MSG_UPDSTAT = 0x2011"
definition CLIENT_MSG_POWER_VER :: u32 where "CLIENT_MSG_POWER_VER = 0x2021"
definition CLIENT_MSG_BOX_VER :: u32 where "CLIENT_MSG_BOX_VER = 0x2022"
definition CLIENT_MSG_NOTIFY :: u32 where "CLIENT_MSG_NOTIFY = 0x2023"
definition CLIENT_MSG_RGBW :: u32 where "CLIENT_MSG_RGBW = 0x2038"
definition CLIENT_MSG_OTP :: u32 where "CLIENT_MSG_OTP = 0x2039"
definition CLIENT_MSG_GAMMA :: u32 where "CLIENT_MSG_GAMMA = 0x203A"
definition CLIENT_MSG_READ_GAMMA :: u32 where "CLIENT_MSG_READ_GAMMA = 0x203B"
definition CLIENT_MSG_GAMMA_OTP :: u32 where "CLIENT_MSG_GAMMA_OTP = 0x203C"
definition CLIENT_MSG_REALTIME_CONTROL :: u32 where "CLIENT_MSG_REALTIME_CONTROL = 0x203D"
definition CLIENT_MSG_LCD_READ_REG :: u32 where "CLIENT_MSG_LCD_READ_REG = 0x2040"
definition CLIENT_MSG_FLICK_TEST :: u32 where "CLIENT_MSG_FLICK_TEST = 0x2046"
definition CLIENT_MSG_WRITE_ID_OTP_INFO :: u32 where "CLIENT_MSG_WRITE_ID_OTP_INFO = 0x2049"
definition CLIENT_MSG_READ_OPEN_SHORT_MODE :: u32 where "CLIENT_MSG_READ_OPEN_SHORT_MODE = 0x204C"
definition CLIENT_MSG_UPGRADE_END :: u32 where "CLIENT_MSG_UPGRADE_END = 0x2050"
definition CLIENT_MSG_POWER_TEST_READ_VCOM_VOLT :: u32 where "CLIENT_MSG_POWER_TEST_READ_VCOM_VOLT = 0x2062"
definition CLIENT_MSG_POWER_TEST_READ_VCOM_VOLT_STATUS :: u32 where
  "CLIENT_MSG_POWER_TEST_READ_VCOM_VOLT_STATUS = 0x2063"
definition CLIENT_MSG_POWER_TEST_READ_OTP_VOLT :: u32 where "CLIENT_MSG_POWER_TEST_READ_OTP_VOLT = 0x2066"
definition CLIENT_MSG_POWER_TEST_READ_OTP_VOLT_STATUS :: u32 where
  "CLIENT_MSG_POWER_TEST_READ_OTP_VOLT_STATUS = 0x2067"
definition CLIENT_MSG_POWER_TEST_READ_OPEN_SHORT_DATA :: u32 where
  "CLIENT_MSG_POWER_TEST_READ_OPEN_SHORT_DATA = 0x2068"
definition CLIENT_MSG_POWER_TEST_READ_NTC_AG_DATA :: u32 where
  "CLIENT_MSG_POWER_TEST_READ_NTC_AG_DATA = 0x2069"
definition CLIENT_MSG_GPIO_GET_STATE :: u32 where "CLIENT_MSG_GPIO_GET_STATE = 0x206A"
definition CLIENT_MSG_GENERAL_CMD :: u32 where "CLIENT_MSG_GENERAL_CMD = 0x2080"

definition REBACK_POWER_STATUS :: u32 where "REBACK_POWER_STATUS = 1"
definition REBACK_ERROR_INFO :: u32 where "REBACK_ERROR_INFO = 3"
definition REBACK_FLICK_INFO :: u32 where "REBACK_FLICK_INFO = 4"
definition REBACK_AUTO_FLICK :: u32 where "REBACK_AUTO_FLICK = 5"
definition REBACK_FLICK_OVER :: u32 where "REBACK_FLICK_OVER = 6"

definition E_NET_GEN_CMD_READ_CABC_PWM_ACK :: int where "E_NET_GEN_CMD_READ_CABC_PWM_ACK = 2"
definition E_NET_GEN_CMD_READ_DISPLAY_ID_NOTIFY :: int where "E_NET_GEN_CMD_READ_DISPLAY_ID_NOTIFY = 3"

text \<open>The subtype of a message is in the upper half of its command.\<close>

definition reback :: "u32 \<Rightarrow> u32" where "reback t = push_bit 16 t OR CLIENT_MSG_REBACK"

text \<open>An object with the members in the order in which they are added.\<close>

definition object_msg :: "u32 \<Rightarrow> (string \<times> json) list \<Rightarrow> client_msg" where
  "object_msg cmd ms =
     (cmd, cJSON_Print (fold (\<lambda>(k, v) root. cJSON_AddItemToObject root k v) ms (JObject [])))"

definition empty_msg :: "u32 \<Rightarrow> client_msg" where "empty_msg cmd = (cmd, [])"

section \<open>Registration and status\<close>

definition client_register :: "int \<Rightarrow> int \<Rightarrow> string \<Rightarrow> string \<Rightarrow> string \<Rightarrow> client_msg" where
  "client_register syncProcess timeStamp pSoftVer pHardVer pgCode =
     object_msg CLIENT_MSG_REGISTER
       [(''syncStatus'', json_num syncProcess), (''syncTimeStamp'', json_num timeStamp),
        (''pgCode'', JString pgCode), (''hardVersion'', JString pHardVer), (''softVersion'', JString pSoftVer)]"

text \<open>\<open>u\<close> and \<open>b\<close> bits of a version number, as \<open>%d\<close> prints them.\<close>

definition ver_part :: "u32 \<Rightarrow> nat \<Rightarrow> u32 \<Rightarrow> string" where
  "ver_part v n m = d_str (uint (drop_bit n v AND m))"

definition ver3 :: "u32 \<Rightarrow> string" where
  "ver3 v = ver_part v 16 0xff @ ''.'' @ ver_part v 8 0xff @ ''.'' @ ver_part v 0 0xff"

definition ver4 :: "u32 \<Rightarrow> string" where
  "ver4 v = ver_part v 12 0xf @ ''.'' @ ver_part v 8 0xf @ ''.'' @ ver_part v 4 0xf @ ''.'' @ ver_part v 0 0xf"

definition client_register_ex :: "string \<Rightarrow> u32 \<Rightarrow> u32 \<Rightarrow> u32 \<Rightarrow> client_msg" where
  "client_register_ex build_time fpga_version box_version power_version =
     object_msg CLIENT_MSG_REGISTER_EX
       [(''arm_ver'', JString (d_str 0 @ ''.'' @ d_str 0 @ ''.'' @ d_str 2)),
        (''fpga_ver'', JString (ver4 fpga_version)), (''box_ver'', JString (ver3 box_version)),
        (''power_ver'', JString (ver3 power_version)), (''build_time'', JString build_time),
        (''soft_desc'', JString ''Release: ''), (''ic_list'', JString ''OTM8019A, ILI9806E, ICN9706.''),
        (''hard_model'', JString ''ETS-1011''), (''hard_ver'', JString ''1.0.0''),
        (''SN'', JString ''0000-0000-000000'')]"

definition client_syncStatu :: "int \<Rightarrow> int \<Rightarrow> client_msg" where
  "client_syncStatu syncProcess timeStamp =
     object_msg CLIENT_MSG_SYNCPROC
       [(''syncStatus'', json_num syncProcess), (''syncTimeStamp'', json_num timeStamp)]"

definition file_request_msg :: "string \<Rightarrow> client_msg" where
  "file_request_msg pFileName = object_msg CLIENT_MSG_SYNCFILE [(''fileName'', JString pFileName)]"

definition client_sendEdid :: client_msg where "client_sendEdid = empty_msg CLIENT_MSG_SENDEDID"
definition client_updateStatus :: client_msg where "client_updateStatus = empty_msg CLIENT_MSG_UPDSTAT"
definition sync_finish_msg :: client_msg where "sync_finish_msg = empty_msg CLIENT_MSG_SYNCFIN"

definition client_sendVcom :: "int \<Rightarrow> int \<Rightarrow> int \<Rightarrow> int \<Rightarrow> client_msg" where
  "client_sendVcom channel vcom otp flick =
     object_msg CLIENT_MSG_SENDVCOM
       [(''channel'', json_num channel), (''vcom'', json_num vcom), (''otp'', json_num otp),
        (''flick'', json_num flick)]"

definition client_end_rgbw :: "int \<Rightarrow> int \<Rightarrow> dbl \<Rightarrow> dbl \<Rightarrow> dbl \<Rightarrow> client_msg" where
  "client_end_rgbw channel rgbw x y Lv =
     object_msg CLIENT_MSG_RGBW
       [(''channel'', json_num channel), (''rgbw'', json_num rgbw), (''x'', cJSON_CreateNumber x),
        (''y'', cJSON_CreateNumber y), (''Lv'', cJSON_CreateNumber Lv)]"

definition client_end_gamma_otp :: "int \<Rightarrow> string \<Rightarrow> client_msg" where
  "client_end_gamma_otp channel msg =
     object_msg CLIENT_MSG_GAMMA_OTP [(''channel'', json_num channel), (''msg'', JString msg)]"

definition client_end_realtime_control :: "int \<Rightarrow> u8 list \<Rightarrow> client_msg option" where
  "client_end_realtime_control channel data =
     map_option (\<lambda>str_data. object_msg CLIENT_MSG_REALTIME_CONTROL
         [(''channel'', json_num channel), (''data'', JString str_data)])
       (gamma_text data)"

definition client_end_firmware_upgrade :: "int \<Rightarrow> int \<Rightarrow> client_msg" where
  "client_end_firmware_upgrade upgrade_type upgrade_state =
     object_msg CLIENT_MSG_UPGRADE_END
       [(''upgrade_type'', json_num upgrade_type), (''upgrade_state'', json_num upgrade_state)]"

definition client_sendReg :: "int \<Rightarrow> int \<Rightarrow> client_msg" where
  "client_sendReg regAddr regValue =
     object_msg CLIENT_MSG_SENDREG [(''regAddr'', json_num regAddr), (''regValue'', json_num regValue)]"

definition client_sendRegStatus :: "int \<Rightarrow> int \<Rightarrow> client_msg" where
  "client_sendRegStatus regAddr regStatu =
     object_msg CLIENT_MSG_REGSTAT [(''regAddr'', json_num regAddr), (''regStatu'', json_num regStatu)]"

definition client_rebackPower :: "int \<Rightarrow> client_msg" where
  "client_rebackPower powerOn =
     object_msg (reback REBACK_POWER_STATUS) [(''whatInfo'', json_num 1), (''powerOn'', json_num powerOn)]"

definition client_notify_msg :: "int \<Rightarrow> string option \<Rightarrow> client_msg" where
  "client_notify_msg msg_flag p_msg =
     object_msg CLIENT_MSG_NOTIFY
       [(''msg_flag'', json_num msg_flag), (''msg'', JString (case p_msg of Some m \<Rightarrow> m | None \<Rightarrow> ''OK!''))]"

definition client_rebackError :: "int \<Rightarrow> client_msg" where
  "client_rebackError errorNo = object_msg (reback REBACK_ERROR_INFO) [(''errorNo'', json_num errorNo)]"

definition client_rebackFlick :: "u8 \<Rightarrow> u8 \<Rightarrow> client_msg" where
  "client_rebackFlick flick polar =
     object_msg (reback REBACK_FLICK_INFO)
       [(''curflick'', json_num (uint flick)), (''curpolar'', json_num (uint polar))]"

definition client_rebackautoFlick :: "int \<Rightarrow> int \<Rightarrow> int \<Rightarrow> client_msg" where
  "client_rebackautoFlick channel index autoflick =
     object_msg (reback REBACK_AUTO_FLICK)
       [(''index'', json_num index), (''autoflick'', json_num autoflick), (''Channel'', json_num channel)]"

definition client_rebackFlickOver :: "int \<Rightarrow> int \<Rightarrow> int \<Rightarrow> client_msg" where
  "client_rebackFlickOver channel vcom flick =
     object_msg (reback REBACK_FLICK_OVER)
       [(''Channel'', json_num channel), (''vcom'', json_num vcom), (''flicker'', json_num flick)]"

definition client_sendPowerVersion :: "u32 \<Rightarrow> u32 \<Rightarrow> client_msg" where
  "client_sendPowerVersion channel version =
     object_msg CLIENT_MSG_POWER_VER
       [(''channel'', json_num (uint channel)), (''version'', json_num (uint version))]"

definition client_sendBoxVersion :: "u32 \<Rightarrow> u32 \<Rightarrow> client_msg" where
  "client_sendBoxVersion channel version =
     object_msg CLIENT_MSG_BOX_VER
       [(''channel'', json_num (uint channel)), (''version'', json_num (uint version))]"

section \<open>Measured values\<close>

text \<open>A rail of \<open>sByPtnPwrInfo\<close>: the voltage with its limits and the current with its limits.\<close>

record rail =
  rl_v :: int
  rl_vh :: int
  rl_vl :: int
  rl_i :: int
  rl_ih :: int
  rl_il :: int

record power_report =
  pr_VDD :: rail
  pr_VDDIO :: rail
  pr_ELVDD :: rail
  pr_ELVSS :: rail
  pr_VBL :: int
  pr_iVBL :: int
  pr_VSP :: rail
  pr_VSN :: rail
  pr_MTP :: rail

definition rail_fields :: "string \<Rightarrow> rail \<Rightarrow> (string \<times> json) list" where
  "rail_fields name r =
     [(name, json_num (rl_v r)), (name @ ''h'', json_num (rl_vh r)), (name @ ''l'', json_num (rl_vl r)),
      (''i'' @ name, json_num (rl_i r)), (''i'' @ name @ ''h'', json_num (rl_ih r)),
      (''i'' @ name @ ''l'', json_num (rl_il r))]"

definition client_sendPower :: "int \<Rightarrow> power_report \<Rightarrow> client_msg" where
  "client_sendPower channel p =
     object_msg CLIENT_MSG_SENDPOW
       ([(''Channel'', json_num channel)] @ rail_fields ''VDD'' (pr_VDD p) @ rail_fields ''VDDIO'' (pr_VDDIO p)
        @ rail_fields ''ELVDD'' (pr_ELVDD p) @ rail_fields ''ELVSS'' (pr_ELVSS p)
        @ [(''VBL'', json_num (pr_VBL p)), (''iVBL'', json_num (pr_iVBL p)), (''VBLh'', json_num 0),
           (''VBLl'', json_num 0), (''iVBLh'', json_num 0), (''iVBLl'', json_num 0)]
        @ rail_fields ''VSP'' (pr_VSP p) @ rail_fields ''VSN'' (pr_VSN p) @ rail_fields ''MTP'' (pr_MTP p))"

text \<open>Sixteen bytes to a line; \<open>None\<close> when the text leaves its array of 2048.\<close>

definition reg_text :: "u8 list \<Rightarrow> string option" where
  "reg_text data =
     fits 2048 (concat (map (\<lambda>i. (if i \<noteq> 0 \<and> i mod 16 = 0 then [CHR 0x0D, CHR 0x0A] else [])
                                 @ hex2 (data ! i) @ '' '') [0 ..< length data]))"

definition client_lcd_read_reg_ack :: "int \<Rightarrow> u8 list \<Rightarrow> client_msg option" where
  "client_lcd_read_reg_ack channel data =
     map_option (\<lambda>str_data. object_msg CLIENT_MSG_LCD_READ_REG
         [(''channel'', json_num channel), (''read_data'', JString str_data)])
       (reg_text data)"

definition client_flick_test_ack :: "int \<Rightarrow> int \<Rightarrow> dbl \<Rightarrow> client_msg" where
  "client_flick_test_ack channel vcom flick =
     object_msg CLIENT_MSG_FLICK_TEST
       [(''mipi_channel'', json_num channel), (''vcom'', json_num vcom), (''flick'', cJSON_CreateNumber flick)]"

definition client_power_test_read_open_short_mode_ack :: "u8 \<Rightarrow> client_msg" where
  "client_power_test_read_open_short_mode_ack mode =
     object_msg CLIENT_MSG_READ_OPEN_SHORT_MODE [(''mode'', json_num (uint mode))]"

definition client_power_test_read_vcom_volt_ack :: "16 word \<Rightarrow> client_msg" where
  "client_power_test_read_vcom_volt_ack vcom_volt =
     object_msg CLIENT_MSG_POWER_TEST_READ_VCOM_VOLT [(''volt_vcom'', json_num (sint vcom_volt))]"

definition client_power_test_read_vcom_status_ack :: "16 word \<Rightarrow> client_msg" where
  "client_power_test_read_vcom_status_ack vcom_status =
     object_msg CLIENT_MSG_POWER_TEST_READ_VCOM_VOLT_STATUS [(''vcom_enable'', json_num (sint vcom_status))]"

definition client_power_test_read_otp_volt_ack :: "u16 \<Rightarrow> client_msg" where
  "client_power_test_read_otp_volt_ack otp_volt =
     object_msg CLIENT_MSG_POWER_TEST_READ_OTP_VOLT [(''volt_otp'', json_num (uint otp_volt))]"

definition client_power_test_read_otp_status_ack :: "16 word \<Rightarrow> client_msg" where
  "client_power_test_read_otp_status_ack otp_status =
     object_msg CLIENT_MSG_POWER_TEST_READ_OTP_VOLT_STATUS [(''otp_enable'', json_num (sint otp_status))]"

definition client_power_test_read_open_short_ack :: "u16 \<Rightarrow> client_msg" where
  "client_power_test_read_open_short_ack open_short =
     object_msg CLIENT_MSG_POWER_TEST_READ_OPEN_SHORT_DATA [(''open_short'', json_num (uint open_short))]"

definition client_power_test_read_ntc_ag_ack :: "u16 \<Rightarrow> client_msg" where
  "client_power_test_read_ntc_ag_ack ntc_ag =
     object_msg CLIENT_MSG_POWER_TEST_READ_NTC_AG_DATA [(''ntc_ag'', json_num (uint ntc_ag))]"

definition client_gpio_get_state_ack :: "u8 \<Rightarrow> u8 \<Rightarrow> u8 \<Rightarrow> u8 \<Rightarrow> client_msg" where
  "client_gpio_get_state_ack index pin dir val =
     object_msg CLIENT_MSG_GPIO_GET_STATE
       [(''index'', json_num (uint index)), (''pin'', json_num (uint pin)), (''dir'', json_num (uint dir)),
        (''value'', json_num (uint val))]"

section \<open>Answers of the burn and gamma messages\<close>

text \<open>The identification has at most the 32 numbers of an array; a text of the general commands is
  sent with its terminating zero in one case.\<close>

definition client_send_gen_cmd_ack_read_cabc_end :: "int \<Rightarrow> u16 \<Rightarrow> u16 \<Rightarrow> client_msg" where
  "client_send_gen_cmd_ack_read_cabc_end channel cabc_freq cabc_duty =
     object_msg CLIENT_MSG_GENERAL_CMD
       [(''gen_cmd_id'', json_num E_NET_GEN_CMD_READ_CABC_PWM_ACK), (''gen_cmd_tag'', JString ''gen_ack_read_cabc_info''),
        (''channel'', json_num channel), (''cabc_freq'', json_num (uint cabc_freq)),
        (''cabc_duty'', json_num (uint cabc_duty))]"

fun otp_answer_msg :: "otp_answer \<Rightarrow> client_msg option" where
  "otp_answer_msg (client_sendOtp channel otp_result max_otp_times) =
     Some (object_msg CLIENT_MSG_OTP
       [(''channel'', json_num channel), (''otp_result'', json_num otp_result),
        (''max_otp_times'', json_num max_otp_times)])"
| "otp_answer_msg (client_send_id_Otp_end channel result max_otp_times) =
     Some (object_msg CLIENT_MSG_WRITE_ID_OTP_INFO
       [(''channel'', json_num channel), (''result'', json_num result),
        (''max_otp_times'', json_num max_otp_times)])"
| "otp_answer_msg (client_send_gen_cmd_read_lcd_id_notify channel id_data id_data_len otp_times) =
     (if 32 < id_data_len \<or> int (length id_data) < id_data_len then None
      else Some (let (cmd, out) = object_msg CLIENT_MSG_GENERAL_CMD
        [(''gen_cmd_id'', json_num E_NET_GEN_CMD_READ_DISPLAY_ID_NOTIFY),
         (''gen_cmd_tag'', JString ''gen_ack_read_display_id''), (''channel'', json_num channel),
         (''id_array'', cJSON_CreateIntArray (map uint (take (nat id_data_len) id_data))),
         (''otp_times'', json_num (uint otp_times))] in (cmd, out @ [CHR 0x00])))"

text \<open>Only these events of the gamma messages go to the host; what the analyser measured are decimals.\<close>

fun gamma_answer_msg :: "(dbl \<times> dbl \<times> dbl) gamma_act \<Rightarrow> client_msg option" where
  "gamma_answer_msg (client_end_gamma_write channel write_type) =
     Some (object_msg CLIENT_MSG_GAMMA [(''channel'', json_num channel), (''write_type'', json_num write_type)])"
| "gamma_answer_msg (client_end_read_gamma channel data otpp otpn read_type) =
     Some (object_msg CLIENT_MSG_READ_GAMMA
       [(''channel'', json_num channel), (''data'', JString data), (''otpp'', json_num otpp),
        (''otpn'', json_num otpn), (''read_type'', json_num read_type)])"
| "gamma_answer_msg (client_end_gamma_otp_info channel error_no vcom flick xylv) =
     (let (x, y, lv) = (case xylv of Some v \<Rightarrow> v | None \<Rightarrow> (Dbl 0 0, Dbl 0 0, Dbl 0 0)) in
      Some (object_msg CLIENT_MSG_GAMMA_OTP
        [(''channel'', json_num channel), (''error_no'', json_num error_no), (''vcom'', json_num vcom),
         (''flick'', json_num flick), (''x'', cJSON_CreateNumber x), (''y'', cJSON_CreateNumber y),
         (''lv'', cJSON_CreateNumber lv)]))"
| "gamma_answer_msg _ = None"

section \<open>What the host reads\<close>

text \<open>The text as the bytes that are sent, and back.\<close>

definition text_bytes :: "string \<Rightarrow> u8 list" where "text_bytes s = map (\<lambda>c. of_nat (of_char c)) s"
definition bytes_text :: "u8 list \<Rightarrow> string" where "bytes_text b = map (\<lambda>w. char_of (unat w)) b"

lemma bytes_text_bytes [simp]: "bytes_text (text_bytes s) = s"
proof -
  have "char_of (unat (of_nat (of_char c) :: u8)) = c" for c
  proof -
    have "(of_char c :: nat) mod 256 = of_char c" by (rule of_char_mod_256)
    then have "unat (of_nat (of_char c) :: u8) = of_char c"
      unfolding unsigned_of_nat by (simp add: take_bit_eq_mod)
    then show ?thesis by simp
  qed
  then show ?thesis by (simp add: bytes_text_def text_bytes_def comp_def)
qed

lemma fold_members:
  "fold (\<lambda>(k, v) root. cJSON_AddItemToObject root k v) ms (JObject ns) = JObject (ns @ ms)"
  by (induction ms arbitrary: ns) auto

lemma object_msg_eq: "object_msg cmd ms = (cmd, cJSON_Print (JObject ms))"
  by (simp add: object_msg_def fold_members)

text \<open>How a message goes onto the stream.\<close>

definition send_msg :: "(u8 list \<Rightarrow> int) \<Rightarrow> int \<Rightarrow> client_msg \<Rightarrow> (int \<times> u8 list option) option" where
  "send_msg snd_fn send_fd m =
     sendSocketCmd snd_fn send_fd (fst m) 0 0 0 (text_bytes (snd m)) (of_nat (length (snd m)))"

definition host_reads :: "u8 list \<Rightarrow> (u16 \<times> u16 \<times> json parsed \<times> u8 list) option" where
  "host_reads stream =
     map_option (\<lambda>(i, rest). (si_cmd i, si_type i, cJSON_Parse (bytes_text (si_pValid i)), rest)) (next_frame stream)"

theorem answer_is_read_by_the_host:
  assumes "members_ok ms" "send_fd \<noteq> -1" "length (snd (object_msg cmd ms)) < 65536"
  shows "\<exists>b. send_msg snd_fn send_fd (object_msg cmd ms) = Some (if snd_fn b \<le> 0 then -1 else 0, Some b)
    \<and> host_reads (b @ rest) = Some (ucast (cmd AND 0xFFFF), ucast (drop_bit 16 cmd), Got (JObject ms) [], rest)"
proof -
  let ?out = "cJSON_Print (JObject ms)"
  let ?len = "of_nat (length ?out) :: u32"
  have out: "length ?out < 65536" using assms(3) by (simp add: object_msg_eq)
  have "length ?out < 2 ^ 32" by (rule less_trans [OF out]) simp
  then have len: "unat ?len = length ?out" by (simp add: unsigned_of_nat take_bit_nat_eq_self)
  have bytes: "length (text_bytes ?out) = length ?out" by (simp add: text_bytes_def)
  obtain b i where b: "sendSocketCmd snd_fn send_fd cmd 0 0 0 (text_bytes ?out) ?len
      = Some (if snd_fn b \<le> 0 then -1 else 0, Some b)"
    and i: "next_frame (b @ rest) = Some (i, rest)" "si_cmd i = ucast (cmd AND 0xFFFF)"
      "si_type i = ucast (drop_bit 16 cmd)" "si_pValid i = take (unat ?len) (text_bytes ?out)"
    using frame_of_call [OF assms(2), of ?len "text_bytes ?out" snd_fn cmd 0 0 0 rest] out
    unfolding len bytes by auto
  have "cJSON_Parse ?out = Got (JObject ms) []" using cJSON_Parse_print [of "JObject ms" True] assms(1) by (simp add: cJSON_Print_def)
  then have "host_reads (b @ rest) = Some (ucast (cmd AND 0xFFFF), ucast (drop_bit 16 cmd), Got (JObject ms) [], rest)"
    using i bytes by (simp add: host_reads_def len)
  then show ?thesis using b by (auto simp: send_msg_def object_msg_eq)
qed

lemma json_num_int: "int32 i \<Longrightarrow> json_num i = JNumber i (Dbl i 0)"
  by (simp add: json_num_def cJSON_CreateNumber_def dbl_num_def dbl_den_def sgn_mult_abs clamp32_def int32_def)

lemma answer_is_read_by_the_host_witness:
  "\<exists>b. send_msg (\<lambda>b. int (length b)) 4 (client_sendReg 16 (-1)) = Some (if int (length b) \<le> 0 then -1 else 0, Some b)
    \<and> host_reads (b @ []) = Some (0x2008, 0, Got (JObject [(''regAddr'', json_num 16), (''regValue'', json_num (-1))]) [], [])"
proof -
  have ok: "members_ok [(''regAddr'', json_num 16), (''regValue'', json_num (-1))]"
    by (simp add: json_num_int int32_def c_text_def)
  have "length (snd (object_msg CLIENT_MSG_SENDREG [(''regAddr'', json_num 16), (''regValue'', json_num (-1))])) < 65536"
    by (simp add: object_msg_eq cJSON_Print_def json_num_int int32_def print_number_int d_str_def digits.simps
        print_string_ptr_def needs_escape_def quote_def backslash_def tabs_def)
  from answer_is_read_by_the_host [OF ok _ this, of 4 "\<lambda>b. int (length b)" "[]"]
  show ?thesis by (simp add: client_sendReg_def CLIENT_MSG_SENDREG_def)
qed

section \<open>Objects of numbers\<close>

definition num_members :: "(string \<times> json) list \<Rightarrow> bool" where
  "num_members ms \<longleftrightarrow> list_all (\<lambda>(k, v). length k \<le> 20 \<and> c_text k \<and> (\<exists>i. int32 i \<and> v = JNumber i (Dbl i 0))) ms"

lemma num_members_append [simp]: "num_members (xs @ ys) \<longleftrightarrow> num_members xs \<and> num_members ys"
  and num_members_Nil [simp]: "num_members []"
  and num_members_Cons [simp]: "num_members ((k, v) # ms) \<longleftrightarrow>
     length k \<le> 20 \<and> c_text k \<and> (\<exists>i. int32 i \<and> v = JNumber i (Dbl i 0)) \<and> num_members ms"
  by (simp_all add: num_members_def)

lemma num_members_ok: "num_members ms \<Longrightarrow> members_ok ms"
  by (induction ms) auto

lemma length_print_string: "length (print_string_ptr s) \<le> 6 * length s + 2"
proof -
  have "length (concat (map escape_char s)) \<le> 6 * length s"
    by (induction s) (auto simp: length_escape_char)
  then show ?thesis by (simp add: print_string_ptr_def)
qed

lemma num_members_short:
  assumes "num_members ms" "length ms \<le> 100"
  shows "length (snd (object_msg cmd ms)) < 65536"
proof -
  have "length (print_members True 1 ms)
      \<le> sum_list (map (\<lambda>(k, j). length (print_value True 1 j) + length (print_string_ptr k) + 2 + 3) ms) + 2"
    using print_members_length [of True 1 ms] by simp
  moreover have "sum_list (map (\<lambda>(k, j). length (print_value True 1 j) + length (print_string_ptr k) + 2 + 3) ms)
      \<le> 138 * length ms"
    using assms(1)
  proof (induction ms)
    case (Cons m ms)
    obtain k i where m: "m = (k, JNumber i (Dbl i 0))" "int32 i" "length k \<le> 20"
      using Cons.prems by (cases m) auto
    then show ?case
      using Cons length_d_str [OF m(2)] length_print_string [of k] by (simp add: print_number_int)
  qed simp
  ultimately have "length (print_members True 1 ms) \<le> 13802" using assms(2) by linarith
  then show ?thesis by (simp add: object_msg_eq cJSON_Print_def tabs_def)
qed

definition int_field :: "json \<Rightarrow> string \<Rightarrow> int option" where
  "int_field root k = map_option valueint (cJSON_GetObjectItem root k)"

lemma int_field_member:
  assumes "distinct (map (\<lambda>(k, v). map tolower k) ms)" "(k, v) \<in> set ms"
  shows "int_field (JObject ms) k = Some (valueint v)"
proof -
  have "find (\<lambda>m. cJSON_strcasecmp (fst m) k) ms = Some (k, v)"
    using assms by (induction ms) (auto simp: cJSON_strcasecmp_def rev_image_eqI)
  then show ?thesis by (simp add: int_field_def)
qed

lemma int_field_case: "map tolower k = map tolower k' \<Longrightarrow> int_field (JObject ms) k = int_field (JObject ms) k'"
  by (simp add: int_field_def cJSON_strcasecmp_def)

lemma channel_case: "map tolower ''channel'' = map tolower ''Channel''"
  by code_simp

section \<open>The report of the power board\<close>

definition rail_ok :: "rail \<Rightarrow> bool" where
  "rail_ok r \<longleftrightarrow> int32 (rl_v r) \<and> int32 (rl_vh r) \<and> int32 (rl_vl r) \<and> int32 (rl_i r) \<and> int32 (rl_ih r) \<and> int32 (rl_il r)"

definition report_ok :: "power_report \<Rightarrow> bool" where
  "report_ok p \<longleftrightarrow> list_all rail_ok [pr_VDD p, pr_VDDIO p, pr_ELVDD p, pr_ELVSS p, pr_VSP p, pr_VSN p, pr_MTP p]
     \<and> int32 (pr_VBL p) \<and> int32 (pr_iVBL p)"

text \<open>What the host takes for a rail.\<close>

definition host_rail :: "json \<Rightarrow> string \<Rightarrow> rail option" where
  "host_rail root name = do {
     v \<leftarrow> int_field root name; vh \<leftarrow> int_field root (name @ ''h''); vl \<leftarrow> int_field root (name @ ''l'');
     i \<leftarrow> int_field root (''i'' @ name); ih \<leftarrow> int_field root (''i'' @ name @ ''h'');
     il \<leftarrow> int_field root (''i'' @ name @ ''l'');
     Some \<lparr>rl_v = v, rl_vh = vh, rl_vl = vl, rl_i = i, rl_ih = ih, rl_il = il\<rparr>
   }"

lemma host_rail_member:
  assumes "distinct (map (\<lambda>(k, v). map tolower k) ms)" "set (rail_fields name r) \<subseteq> set ms" "rail_ok r"
  shows "host_rail (JObject ms) name = Some r"
proof -
  have field: "(k, JNumber i d) \<in> set ms \<Longrightarrow> int_field (JObject ms) k = Some i" for k i d
    using int_field_member [OF assms(1), of k "JNumber i d"] by simp
  have mem: "(name, JNumber (rl_v r) (Dbl (rl_v r) 0)) \<in> set ms"
      "(name @ ''h'', JNumber (rl_vh r) (Dbl (rl_vh r) 0)) \<in> set ms"
      "(name @ ''l'', JNumber (rl_vl r) (Dbl (rl_vl r) 0)) \<in> set ms"
      "(''i'' @ name, JNumber (rl_i r) (Dbl (rl_i r) 0)) \<in> set ms"
      "(''i'' @ name @ ''h'', JNumber (rl_ih r) (Dbl (rl_ih r) 0)) \<in> set ms"
      "(''i'' @ name @ ''l'', JNumber (rl_il r) (Dbl (rl_il r) 0)) \<in> set ms"
    using assms(2,3) by (simp_all add: rail_fields_def rail_ok_def json_num_int)
  show ?thesis unfolding host_rail_def mem [THEN field] by simp
qed

lemma rail_fields_num: "rail_ok r \<Longrightarrow> length name \<le> 10 \<Longrightarrow> c_text name \<Longrightarrow> num_members (rail_fields name r)"
  by (auto simp: rail_fields_def rail_ok_def json_num_int c_text_def)

definition report_names :: "string list" where
  "report_names = ''Channel'' # concat (map (\<lambda>n. [n, n @ ''h'', n @ ''l'', ''i'' @ n, ''i'' @ n @ ''h'', ''i'' @ n @ ''l''])
     [''VDD'', ''VDDIO'', ''ELVDD'', ''ELVSS''])
   @ [''VBL'', ''iVBL'', ''VBLh'', ''VBLl'', ''iVBLh'', ''iVBLl'']
   @ concat (map (\<lambda>n. [n, n @ ''h'', n @ ''l'', ''i'' @ n, ''i'' @ n @ ''h'', ''i'' @ n @ ''l'']) [''VSP'', ''VSN'', ''MTP''])"

lemma report_names_distinct: "distinct (map (map tolower) report_names)"
  by (simp add: report_names_def tolower_def Let_def char_of_def)

text \<open>
  C35: The host that takes the frame of the power report off the stream and parses its text
  has the channel and, for every rail, the voltage, the current and their limits that the
  program put in, and what follows on the stream is untouched.
\<close>

theorem power_report_reaches_the_host:
  assumes "report_ok p" "int32 channel" "send_fd \<noteq> -1"
  shows "\<exists>b root. send_msg snd_fn send_fd (client_sendPower channel p) = Some (if snd_fn b \<le> 0 then -1 else 0, Some b)
    \<and> host_reads (b @ rest) = Some (0x2007, 0, Got root [], rest)
    \<and> int_field root ''channel'' = Some channel
    \<and> map (host_rail root) [''VDD'', ''VDDIO'', ''ELVDD'', ''ELVSS'', ''VSP'', ''VSN'', ''MTP'']
      = map Some [pr_VDD p, pr_VDDIO p, pr_ELVDD p, pr_ELVSS p, pr_VSP p, pr_VSN p, pr_MTP p]
    \<and> int_field root ''VBL'' = Some (pr_VBL p) \<and> int_field root ''iVBL'' = Some (pr_iVBL p)"
proof -
  let ?ms = "[(''Channel'', json_num channel)] @ rail_fields ''VDD'' (pr_VDD p) @ rail_fields ''VDDIO'' (pr_VDDIO p)
        @ rail_fields ''ELVDD'' (pr_ELVDD p) @ rail_fields ''ELVSS'' (pr_ELVSS p)
        @ [(''VBL'', json_num (pr_VBL p)), (''iVBL'', json_num (pr_iVBL p)), (''VBLh'', json_num 0),
           (''VBLl'', json_num 0), (''iVBLh'', json_num 0), (''iVBLl'', json_num 0)]
        @ rail_fields ''VSP'' (pr_VSP p) @ rail_fields ''VSN'' (pr_VSN p) @ rail_fields ''MTP'' (pr_MTP p)"
  have rails: "rail_ok (pr_VDD p)" "rail_ok (pr_VDDIO p)" "rail_ok (pr_ELVDD p)" "rail_ok (pr_ELVSS p)"
      "rail_ok (pr_VSP p)" "rail_ok (pr_VSN p)" "rail_ok (pr_MTP p)"
    and vbl: "int32 (pr_VBL p)" "int32 (pr_iVBL p)" "int32 0"
    using assms(1) by (simp_all add: report_ok_def int32_def)
  have num: "num_members ?ms"
    unfolding num_members_append using rails vbl assms(2)
    by (intro conjI) (simp_all add: rail_fields_num json_num_int c_text_def)
  have len: "length ?ms = 49" by (simp add: rail_fields_def)
  have names: "map (\<lambda>(k, v). map tolower k) ?ms = map (map tolower) report_names"
    by (simp add: report_names_def rail_fields_def)
  have dist: "distinct (map (\<lambda>(k, v). map tolower k) ?ms)" unfolding names by (rule report_names_distinct)
  note field = int_field_member [OF dist]
  have msg: "client_sendPower channel p = object_msg CLIENT_MSG_SENDPOW ?ms" by (simp only: client_sendPower_def)
  have "length ?ms \<le> 100" unfolding len by simp
  note short = num_members_short [OF num this, of CLIENT_MSG_SENDPOW]
  obtain b where b: "send_msg snd_fn send_fd (client_sendPower channel p) = Some (if snd_fn b \<le> 0 then -1 else 0, Some b)"
      "host_reads (b @ rest) = Some (ucast (CLIENT_MSG_SENDPOW AND 0xFFFF), ucast (drop_bit 16 CLIENT_MSG_SENDPOW),
         Got (JObject ?ms) [], rest)"
    using answer_is_read_by_the_host [OF num_members_ok [OF num] assms(3) short, of snd_fn rest]
    unfolding msg by blast
  have cmd: "ucast (CLIENT_MSG_SENDPOW AND 0xFFFF) = (0x2007 :: u16)" "ucast (drop_bit 16 CLIENT_MSG_SENDPOW) = (0 :: u16)"
    by (simp_all add: CLIENT_MSG_SENDPOW_def)
  have "int_field (JObject ?ms) ''Channel'' = Some channel"
    using field [of "''Channel''" "json_num channel"] assms(2) by (simp add: json_num_int)
  then have "int_field (JObject ?ms) ''channel'' = Some channel"
    using int_field_case [OF channel_case, of ?ms] by (simp only:)
  moreover have "int_field (JObject ?ms) ''VBL'' = Some (pr_VBL p)" "int_field (JObject ?ms) ''iVBL'' = Some (pr_iVBL p)"
    using field [of "''VBL''" "json_num (pr_VBL p)"] field [of "''iVBL''" "json_num (pr_iVBL p)"] vbl
    by (simp_all add: json_num_int)
  moreover have "map (host_rail (JObject ?ms)) [''VDD'', ''VDDIO'', ''ELVDD'', ''ELVSS'', ''VSP'', ''VSN'', ''MTP'']
      = map Some [pr_VDD p, pr_VDDIO p, pr_ELVDD p, pr_ELVSS p, pr_VSP p, pr_VSN p, pr_MTP p]"
    unfolding list.map
    by (intro arg_cong2 [where f = Cons] host_rail_member [OF dist] rails refl) auto
  ultimately show ?thesis using b cmd by (intro exI [of _ b] exI [of _ "JObject ?ms"]) (simp only: simp_thms)
qed

lemma power_report_reaches_the_host_witness:
  "\<exists>b root. send_msg (\<lambda>b. 1) 4 (client_sendPower 1 (let r = \<lparr>rl_v = 1800, rl_vh = 1900, rl_vl = 1700, rl_i = 20, rl_ih = 40, rl_il = 0\<rparr>
        in \<lparr>pr_VDD = r, pr_VDDIO = r, pr_ELVDD = r, pr_ELVSS = r\<lparr>rl_v := -5000\<rparr>, pr_VBL = 12, pr_iVBL = 3,
            pr_VSP = r, pr_VSN = r, pr_MTP = r\<rparr>)) = Some (0, Some b)
    \<and> host_reads b = Some (0x2007, 0, Got root [], [])"
proof -
  let ?r = "\<lparr>rl_v = 1800, rl_vh = 1900, rl_vl = 1700, rl_i = 20, rl_ih = 40, rl_il = 0\<rparr>"
  let ?p = "\<lparr>pr_VDD = ?r, pr_VDDIO = ?r, pr_ELVDD = ?r, pr_ELVSS = ?r\<lparr>rl_v := -5000\<rparr>, pr_VBL = 12, pr_iVBL = 3,
            pr_VSP = ?r, pr_VSN = ?r, pr_MTP = ?r\<rparr>"
  have "report_ok ?p" by (simp add: report_ok_def rail_ok_def int32_def)
  from power_report_reaches_the_host [OF this, of 1 4 "\<lambda>b. 1" "[]"]
  show ?thesis by (auto simp: Let_def int32_def)
qed

end
