(* ===== verification/Dispatch.thy ===== *)
theory Dispatch
  imports Answers PowerSupply "HOL-Library.Monad_Syntax"
begin

text \<open>
  The commands of the host that carry a JSON text, \<open>msgProc\<close> of \<open>clirecvcmd5srv.c\<close> and
  \<open>net_general_command_proc\<close>: from the text of a command to the calls of the layers below, in
  order, with their arguments. What the program asks of the hardware in between is a record of
  readings. \<open>None\<close> is a crash: a member that is not there, a text that is no JSON, a copy that
  leaves its array. Commands about files, upgrades, gamma tables and burns are in the theories
  \<open>FileSync\<close>, \<open>Upgrades\<close>, \<open>GammaMessages\<close> and \<open>OtpMessages\<close> and appear here as \<open>Elsewhere\<close>.
\<close>

section \<open>Calls and readings\<close>

datatype pg_call =
    SetClock int
  | PgShutOn string int int
  | PgShutDown
  | BoxClearPower
  | PgShowPtn int
  | CrossCursor int int
  | HideCursor
  | FpgaWrite int int
  | FlickAuto int
  | SetVcomValue int int
  | FpgaShowRgb u8 u8 u8
  | CaptureXyLv int
  | StartXyLv int
  | StartFlickMode int
  | StopFlickMode int
  | MtpPower bool int
  | HighSpeedMode int bool
  | FlickTest int int int
  | OpenShortData int u32
  | EntryOpenShort
  | LeaveOpenShort
  | McuVcomVolt "16 word"
  | McuVcomEnable int
  | CabcTest int
  | SaveNetConfig "string option" "string option" "string option"
  | SaveMac "string option"
  | FactoryReset
  | SystemSync
  | SystemReboot
  | PowerPacket "u8 list"
  | Tell client_msg
  | Elsewhere u16

record readings =
  rd_vcom_ptn :: int
  rd_xylv :: "dbl \<times> dbl \<times> dbl"
  rd_cabc :: "u16 \<times> u16"
  rd_open_short_mode :: u8
  rd_vcom_volt :: "bool \<Rightarrow> 16 word"
  rd_vcom_status :: "16 word"
  rd_otp_volt :: u16
  rd_otp_status :: u16
  rd_open_short :: "bool \<Rightarrow> u16"
  rd_ntc_ag :: "bool \<Rightarrow> u16"

record host_state =
  ps_home :: string
  ps_module :: string
  ps_time_set :: bool

section \<open>Access to the text\<close>

text \<open>\<open>cJSON_Parse\<close> of a command without data gives \<open>NULL\<close>, as for a text it refuses.\<close>

definition parse_root :: "string option \<Rightarrow> json option option" where
  "parse_root pcmd =
     (case pcmd of None \<Rightarrow> Some None
      | Some s \<Rightarrow> (case cJSON_Parse s of Got j _ \<Rightarrow> Some (Some j) | Bad \<Rightarrow> Some None | Fault \<Rightarrow> None | NoFuel \<Rightarrow> None))"

text \<open>\<open>cJSON_GetObjectItem\<close> of \<open>NULL\<close> is a crash, and so is a member of an item that is \<open>NULL\<close>.\<close>

definition get_item :: "json option \<Rightarrow> string \<Rightarrow> json option option" where
  "get_item root k = (case root of None \<Rightarrow> None | Some r \<Rightarrow> Some (cJSON_GetObjectItem r k))"

definition need_int :: "json option \<Rightarrow> string \<Rightarrow> int option" where
  "need_int root k = do { item \<leftarrow> get_item root k; map_option valueint item }"

definition int_or :: "int \<Rightarrow> json option \<Rightarrow> string \<Rightarrow> int option" where
  "int_or d root k = do { item \<leftarrow> get_item root k; Some (case item of Some j \<Rightarrow> valueint j | None \<Rightarrow> d) }"

text \<open>\<open>strcpy\<close> of a \<open>valuestring\<close> into an array.\<close>

definition copy_string :: "nat \<Rightarrow> json \<Rightarrow> string option" where
  "copy_string n j = do { s \<leftarrow> valuestring j; fits n s }"

definition byte_of :: "int \<Rightarrow> nat \<Rightarrow> u8" where
  "byte_of i n = word_of_int (drop_bit n i AND 0xff)"

section \<open>Commands\<close>

definition client_pg_setTime :: "int \<Rightarrow> host_state \<Rightarrow> pg_call list \<times> host_state" where
  "client_pg_setTime stampTime s =
     (if stampTime = 0 then ([], s)
      else if \<not> ps_time_set s then ([SetClock stampTime], s\<lparr>ps_time_set := True\<rparr>)
      else ([], s))"

definition server_msg_register :: "string option \<Rightarrow> host_state \<Rightarrow> (pg_call list \<times> host_state) option" where
  "server_msg_register pcmd s = do {
     root \<leftarrow> parse_root pcmd;
     time \<leftarrow> need_int root ''timeStamp'';
     home \<leftarrow> get_item root ''homePath'';
     home \<leftarrow> home;
     let (cs, s) = client_pg_setTime time s;
     path \<leftarrow> copy_string 128 home;
     Some (cs, s\<lparr>ps_home := path\<rparr>)
   }"

definition server_msg_synctime :: "string option \<Rightarrow> host_state \<Rightarrow> (pg_call list \<times> host_state) option" where
  "server_msg_synctime pcmd s = do {
     root \<leftarrow> parse_root pcmd;
     time \<leftarrow> need_int root ''timeStamp'';
     Some (client_pg_setTime time s)
   }"

definition server_msg_shuton :: "string option \<Rightarrow> host_state \<Rightarrow> (pg_call list \<times> host_state) option" where
  "server_msg_shuton pcmd s = do {
     root \<leftarrow> parse_root pcmd;
     (case root of None \<Rightarrow> Some ([], s)
      | Some r \<Rightarrow>
          (case cJSON_GetObjectItem r ''tstModleName'' of None \<Rightarrow> Some ([], s)
           | Some name \<Rightarrow> do {
               m \<leftarrow> copy_string 256 name;
               ptn_id \<leftarrow> int_or 0 root ''ptn_index'';
               channel \<leftarrow> int_or 1 root ''channel'';
               Some ([PgShutOn m channel ptn_id], s\<lparr>ps_module := m\<rparr>)
             }))
   }"

definition server_msg_showptn :: "string option \<Rightarrow> pg_call list option" where
  "server_msg_showptn pcmd = do {
     root \<leftarrow> parse_root pcmd;
     ptn \<leftarrow> need_int root ''ptnId'';
     Some [PgShowPtn ptn]
   }"

text \<open>The points of \<open>client_pg_showCrossCur\<close>, each of which is set in the FPGA.\<close>

fun cross_points :: "json list \<Rightarrow> pg_call list option" where
  "cross_points [] = Some []"
| "cross_points (pxy # ps) = do {
     x \<leftarrow> need_int (Some pxy) ''x'';
     y \<leftarrow> need_int (Some pxy) ''y'';
     cs \<leftarrow> cross_points ps;
     Some (CrossCursor x y # cs)
   }"

definition array_items :: "json \<Rightarrow> json list" where
  "array_items root = map (\<lambda>i. the (cJSON_GetArrayItem root i)) [0 ..< cJSON_GetArraySize root]"

definition server_msg_crosscur :: "string option \<Rightarrow> pg_call list option" where
  "server_msg_crosscur pcmd = do {
     root \<leftarrow> parse_root pcmd;
     root \<leftarrow> root;
     cross_points (array_items root)
   }"

definition server_msg_writereg :: "string option \<Rightarrow> pg_call list option" where
  "server_msg_writereg pcmd = do {
     root \<leftarrow> parse_root pcmd;
     regAddr \<leftarrow> need_int root ''regAddr'';
     regVal \<leftarrow> need_int root ''regVal'';
     Some [FpgaWrite regAddr regVal]
   }"

definition server_msg_autoflick :: "readings \<Rightarrow> string option \<Rightarrow> pg_call list option" where
  "server_msg_autoflick rd pcmd = do {
     root \<leftarrow> parse_root pcmd;
     enableFlick \<leftarrow> need_int root ''enableFlick'';
     Some ((if rd_vcom_ptn rd \<ge> 0 then [PgShowPtn (rd_vcom_ptn rd)] else []) @ [FlickAuto enableFlick])
   }"

definition server_msg_manualflick :: "string option \<Rightarrow> pg_call list option" where
  "server_msg_manualflick pcmd = do {
     root \<leftarrow> parse_root pcmd;
     mipi_channel \<leftarrow> int_or 1 root ''channel'';
     flickValue \<leftarrow> need_int root ''flickValue'';
     Some [SetVcomValue mipi_channel flickValue]
   }"

definition rgb_call :: "int \<Rightarrow> pg_call" where
  "rgb_call v = FpgaShowRgb (byte_of v 16) (byte_of v 8) (byte_of v 0)"

definition server_msg_rgbw :: "readings \<Rightarrow> string option \<Rightarrow> pg_call list option" where
  "server_msg_rgbw rd pcmd = do {
     root \<leftarrow> parse_root pcmd;
     channel \<leftarrow> need_int root ''channel'';
     rgbw \<leftarrow> need_int root ''rgbw'';
     let (x, y, Lv) = rd_xylv rd;
     Some [rgb_call rgbw, CaptureXyLv 1, Tell (client_end_rgbw channel rgbw x y Lv)]
   }"

definition server_msg_ca310_start :: "string option \<Rightarrow> pg_call list option" where
  "server_msg_ca310_start pcmd = do {
     root \<leftarrow> parse_root pcmd;
     lcd_channel \<leftarrow> need_int root ''lcd_channel'';
     mode \<leftarrow> need_int root ''mode'';
     Some (if mode = 0 then [StartXyLv lcd_channel] else if mode = 1 then [StartFlickMode lcd_channel] else [])
   }"

definition server_msg_ca310_stop :: "string option \<Rightarrow> pg_call list option" where
  "server_msg_ca310_stop pcmd = do {
     root \<leftarrow> parse_root pcmd;
     lcd_channel \<leftarrow> need_int root ''lcd_channel'';
     Some [StopFlickMode lcd_channel]
   }"

text \<open>The register is not read: the answer is always one byte 0.\<close>

definition server_msg_lcd_read_reg :: "string option \<Rightarrow> pg_call list option" where
  "server_msg_lcd_read_reg pcmd = do {
     root \<leftarrow> parse_root pcmd;
     channel \<leftarrow> int_or 1 root ''channel'';
     _ \<leftarrow> get_item root ''reg'';
     m \<leftarrow> client_lcd_read_reg_ack channel [0];
     Some [Tell m]
   }"

definition server_msg_lcd_write_code :: "string option \<Rightarrow> pg_call list option" where
  "server_msg_lcd_write_code pcmd = do {
     root \<leftarrow> parse_root pcmd;
     _ \<leftarrow> get_item root ''channel'';
     _ \<leftarrow> get_item root ''code'';
     Some []
   }"

definition server_msg_photo_debug :: "string option \<Rightarrow> pg_call list option" where
  "server_msg_photo_debug pcmd = do {
     root \<leftarrow> parse_root pcmd;
     _ \<leftarrow> need_int root ''photo_type'';
     photo_value \<leftarrow> need_int root ''photo_value'';
     Some [rgb_call photo_value]
   }"

definition server_msg_mipi_channel_mtp :: "string option \<Rightarrow> pg_call list option" where
  "server_msg_mipi_channel_mtp pcmd = do {
     root \<leftarrow> parse_root pcmd;
     mipi_channel \<leftarrow> int_or 1 root ''channel'';
     mtp_on \<leftarrow> int_or 0 root ''mtp_on'';
     Some [MtpPower (mtp_on \<noteq> 0) mipi_channel]
   }"

definition server_msg_mipi_mode :: "string option \<Rightarrow> pg_call list option" where
  "server_msg_mipi_mode pcmd = do {
     root \<leftarrow> parse_root pcmd;
     mipi_channel \<leftarrow> int_or 1 root ''channel'';
     hs_mode \<leftarrow> int_or 0 root ''mode'';
     Some [HighSpeedMode mipi_channel (hs_mode \<noteq> 0)]
   }"

definition server_msg_flick_test :: "string option \<Rightarrow> pg_call list option" where
  "server_msg_flick_test pcmd = do {
     root \<leftarrow> parse_root pcmd;
     mipi_channel \<leftarrow> int_or 1 root ''mipi_channel'';
     vcom \<leftarrow> int_or 0 root ''vcom'';
     delay \<leftarrow> int_or 100 root ''delay'';
     Some [FlickTest mipi_channel vcom delay]
   }"

text \<open>This command has a default for everything, a text that is refused included.\<close>

definition debug_value :: "json option \<Rightarrow> u32 option" where
  "debug_value root = do {
     v1 \<leftarrow> int_or 0 root ''value_1'';
     v2 \<leftarrow> int_or 0 root ''value_2'';
     v3 \<leftarrow> int_or 0 root ''value_3'';
     v4 \<leftarrow> int_or 0 root ''value_4'';
     Some (word_of_int (v1 AND 0xff) OR push_bit 8 (word_of_int (v2 AND 0xff))
       OR push_bit 16 (word_of_int (v3 AND 0xff)) OR push_bit 24 (word_of_int (v4 AND 0xff)))
   }"

definition server_msg_open_short_debug :: "string option \<Rightarrow> pg_call list option" where
  "server_msg_open_short_debug pcmd = do {
     root \<leftarrow> parse_root pcmd;
     (case root of None \<Rightarrow> Some [OpenShortData 1 0]
      | Some _ \<Rightarrow> do {
          channel \<leftarrow> int_or 1 root ''channel'';
          v \<leftarrow> debug_value root;
          Some [OpenShortData channel v]
        })
   }"

definition server_msg_set_open_short_mode :: "string option \<Rightarrow> pg_call list option" where
  "server_msg_set_open_short_mode pcmd = do {
     root \<leftarrow> parse_root pcmd;
     enable \<leftarrow> int_or 0 root ''enable'';
     Some [if enable \<noteq> 0 then EntryOpenShort else LeaveOpenShort]
   }"

definition server_msg_set_vcom_volt :: "string option \<Rightarrow> pg_call list option" where
  "server_msg_set_vcom_volt pcmd = do {
     root \<leftarrow> parse_root pcmd;
     volt_vcom \<leftarrow> int_or 0 root ''volt_vcom'';
     Some [McuVcomVolt (word_of_int volt_vcom)]
   }"

definition server_msg_enable_vcom_volt :: "string option \<Rightarrow> pg_call list option" where
  "server_msg_enable_vcom_volt pcmd = do {
     root \<leftarrow> parse_root pcmd;
     enable \<leftarrow> int_or 0 root ''vcom_enable'';
     Some [McuVcomEnable enable]
   }"

text \<open>Readings of the left channel when the channel is 1 and of the right one otherwise.\<close>

definition read_side :: "string option \<Rightarrow> bool option" where
  "read_side pcmd = do {
     root \<leftarrow> parse_root pcmd;
     channel \<leftarrow> int_or 1 root ''channel'';
     Some (channel = 1)
   }"

definition server_msg_read_vcom_volt :: "readings \<Rightarrow> string option \<Rightarrow> pg_call list option" where
  "server_msg_read_vcom_volt rd pcmd =
     map_option (\<lambda>left. [Tell (client_power_test_read_vcom_volt_ack (rd_vcom_volt rd left))]) (read_side pcmd)"

definition server_msg_read_open_short_data :: "readings \<Rightarrow> string option \<Rightarrow> pg_call list option" where
  "server_msg_read_open_short_data rd pcmd =
     map_option (\<lambda>left. [Tell (client_power_test_read_open_short_ack (rd_open_short rd left))]) (read_side pcmd)"

definition server_msg_read_ntc_ag_data :: "readings \<Rightarrow> string option \<Rightarrow> pg_call list option" where
  "server_msg_read_ntc_ag_data rd pcmd =
     map_option (\<lambda>left. [Tell (client_power_test_read_ntc_ag_ack (rd_ntc_ag rd left))]) (read_side pcmd)"

text \<open>A command whose only member has no effect.\<close>

definition server_msg_unused :: "string \<Rightarrow> string option \<Rightarrow> pg_call list option" where
  "server_msg_unused k pcmd = do { root \<leftarrow> parse_root pcmd; _ \<leftarrow> get_item root k; Some [] }"

section \<open>General commands\<close>

definition power_side_of :: "u8 \<Rightarrow> pwr_channel" where
  "power_side_of c = (if c = 2 then PWR_CHANNEL_RIGHT else PWR_CHANNEL_LEFT)"

definition burn_side_of :: "u8 \<Rightarrow> pwr_channel" where
  "burn_side_of c = (if c = 2 then PWR_CHANNEL_LEFT else PWR_CHANNEL_RIGHT)"

definition gen_read_cabc :: "readings \<Rightarrow> json option \<Rightarrow> pg_call list option" where
  "gen_read_cabc rd root = do {
     mipi_channel \<leftarrow> int_or 1 root ''channel'';
     let cabc_channel = (if mipi_channel = 4 then 4 else 1);
     let (freq, duty) = rd_cabc rd;
     Some [CabcTest cabc_channel, CabcTest cabc_channel,
           Tell (client_send_gen_cmd_ack_read_cabc_end 1 freq duty)]
   }"

definition gen_set_ip :: "json option \<Rightarrow> pg_call list option" where
  "gen_set_ip root = do {
     ip \<leftarrow> get_item root ''ip'';
     netmask \<leftarrow> get_item root ''net_mask'';
     gateway \<leftarrow> get_item root ''gateway'';
     Some (case (ip, netmask, gateway) of
       (Some i, Some n, Some g) \<Rightarrow>
         [SaveNetConfig (valuestring i) (valuestring n) (valuestring g), SystemSync, SystemReboot]
     | _ \<Rightarrow> [])
   }"

definition gen_set_mac :: "json option \<Rightarrow> pg_call list option" where
  "gen_set_mac root = do {
     mac \<leftarrow> get_item root ''mac'';
     Some ((case mac of Some m \<Rightarrow> [SaveMac (valuestring m), SystemSync, SystemReboot] | None \<Rightarrow> []))
   }"

definition gen_calibrate :: "json option \<Rightarrow> pg_call list option" where
  "gen_calibrate root = do {
     c \<leftarrow> get_item root ''power_channel'';
     t \<leftarrow> get_item root ''power_type'';
     d \<leftarrow> get_item root ''power_data'';
     Some (case (c, t, d) of
       (Some c, Some t, Some d) \<Rightarrow>
         [PowerPacket (powerCmdCalibrationPowerItem (power_side_of (word_of_int (valueint c)))
            (uint (word_of_int (valueint t) :: u8)) 1 (valueint d))]
     | _ \<Rightarrow> [])
   }"

definition gen_burn_setting :: "json option \<Rightarrow> pg_call list option" where
  "gen_burn_setting root = do {
     c \<leftarrow> get_item root ''power_channel'';
     Some (case c of
       Some c \<Rightarrow> [PowerPacket (powerCmdCalibrationPowerItem (burn_side_of (word_of_int (valueint c))) 0 2 0)]
     | None \<Rightarrow> [])
   }"

text \<open>The members are looked up before the text is tested for \<open>NULL\<close>.\<close>

definition net_general_command_proc ::
  "readings \<Rightarrow> string option \<Rightarrow> int \<Rightarrow> (int \<times> pg_call list) option" where
  "net_general_command_proc rd pcmd len =
     (if pcmd = None then Some (-1, [])
      else if len \<le> 0 then Some (-2, [])
      else do {
        root \<leftarrow> parse_root pcmd;
        gen_cmd_id \<leftarrow> get_item root ''gen_cmd_id'';
        _ \<leftarrow> get_item root ''gen_cmd_tag'';
        (case gen_cmd_id of None \<Rightarrow> Some (-4, [])
         | Some j \<Rightarrow> do {
             cs \<leftarrow> (let gen_cmd = valueint j in
               if gen_cmd = 1 then gen_read_cabc rd root
               else if gen_cmd = 4 then gen_set_ip root
               else if gen_cmd = 5 then gen_set_mac root
               else if gen_cmd = 6 then Some [FactoryReset, SystemSync, SystemReboot]
               else if gen_cmd = 7 then gen_calibrate root
               else if gen_cmd = 8 then gen_burn_setting root
               else Some []);
             Some (0, cs)
           })
      })"

section \<open>The dispatch\<close>

definition with_state :: "host_state \<Rightarrow> pg_call list option \<Rightarrow> (pg_call list \<times> host_state) option" where
  "with_state s cs = map_option (\<lambda>cs. (cs, s)) cs"

definition msgProc :: "readings \<Rightarrow> u16 \<Rightarrow> string option \<Rightarrow> int \<Rightarrow> host_state \<Rightarrow> (pg_call list \<times> host_state) option" where
  "msgProc rd cmd pcmd len s =
     (if cmd = 0x4000 then server_msg_register pcmd s
      else if cmd = 0x4003 then server_msg_shuton pcmd s
      else if cmd = 0x4010 then server_msg_synctime pcmd s
      else with_state s
       (if cmd = 0x4004 then Some [PgShutDown, BoxClearPower]
        else if cmd = 0x4005 then server_msg_showptn pcmd
        else if cmd = 0x4006 then server_msg_crosscur pcmd
        else if cmd = 0x4007 then Some [HideCursor]
        else if cmd = 0x4009 then server_msg_writereg pcmd
        else if cmd = 0x4029 then server_msg_autoflick rd pcmd
        else if cmd = 0x402a then server_msg_manualflick pcmd
        else if cmd = 0x4033 then server_msg_unused ''modeName'' pcmd
        else if cmd = 0x4038 then server_msg_rgbw rd pcmd
        else if cmd = 0x403E then server_msg_ca310_start pcmd
        else if cmd = 0x403F then server_msg_ca310_stop pcmd
        else if cmd = 0x4040 then server_msg_lcd_read_reg pcmd
        else if cmd = 0x4041 then server_msg_lcd_write_code pcmd
        else if cmd = 0x4042 then server_msg_photo_debug pcmd
        else if cmd = 0x4044 then server_msg_mipi_channel_mtp pcmd
        else if cmd = 0x4045 then server_msg_mipi_mode pcmd
        else if cmd = 0x4046 then server_msg_flick_test pcmd
        else if cmd = 0x404A then server_msg_open_short_debug pcmd
        else if cmd = 0x404B then server_msg_set_open_short_mode pcmd
        else if cmd = 0x404C then Some [Tell (client_power_test_read_open_short_mode_ack (rd_open_short_mode rd))]
        else if cmd = 0x4060 then server_msg_set_vcom_volt pcmd
        else if cmd = 0x4061 then server_msg_enable_vcom_volt pcmd
        else if cmd = 0x4062 then server_msg_read_vcom_volt rd pcmd
        else if cmd = 0x4063 then Some [Tell (client_power_test_read_vcom_status_ack (rd_vcom_status rd))]
        else if cmd = 0x4064 then server_msg_unused ''volt_otp'' pcmd
        else if cmd = 0x4065 then server_msg_unused ''otp_enable'' pcmd
        else if cmd = 0x4066 then Some [Tell (client_power_test_read_otp_volt_ack (rd_otp_volt rd))]
        else if cmd = 0x4067 then Some [Tell (client_power_test_read_otp_status_ack (rd_otp_status rd))]
        else if cmd = 0x4068 then server_msg_read_open_short_data rd pcmd
        else if cmd = 0x4069 then server_msg_read_ntc_ag_data rd pcmd
        else if cmd = 0x4080 then map_option snd (net_general_command_proc rd pcmd len)
        else if cmd \<in> {0x4002, 0x4011, 0x4012, 0x4021, 0x4032, 0x4036, 0x4037, 0x4039, 0x403A, 0x403B, 0x403C, 0x4048, 0x4049}
          then Some [Elsewhere cmd]
        else Some []))"

section \<open>Texts of the host\<close>

lemma parse_root_print [simp]: "json_ok j \<Longrightarrow> parse_root (Some (cJSON_Print j)) = Some (Some j)"
  using cJSON_Parse_print [of j True] by (simp add: parse_root_def cJSON_Print_def)

definition object_text :: "(string \<times> json) list \<Rightarrow> string option" where
  "object_text ms = Some (cJSON_Print (JObject ms))"

lemma parse_object_text [simp]: "members_ok ms \<Longrightarrow> parse_root (object_text ms) = Some (Some (JObject ms))"
  by (simp add: object_text_def)

lemma get_item_object [simp]:
  "get_item (Some (JObject [])) k = Some None"
  "get_item (Some (JObject ((k', v) # ms))) k =
     (if cJSON_strcasecmp k' k then Some (Some v) else get_item (Some (JObject ms)) k)"
  by (simp_all add: get_item_def)

lemma strcasecmp_refl [simp]: "cJSON_strcasecmp k k"
  by (simp add: cJSON_strcasecmp_def)

lemma strcasecmp_length: "length k \<noteq> length k' \<Longrightarrow> \<not> cJSON_strcasecmp k k'"
  unfolding cJSON_strcasecmp_def by (metis length_map)

lemma get_item_NULL [simp]: "get_item None k = None"
  by (simp add: get_item_def)

lemmas item_simps = need_int_def int_or_def get_item_object json_num_int copy_string_def



lemma array_items_JArray [simp]: "array_items (JArray js) = js"
proof -
  have "map (\<lambda>i. the (if i < length js then Some (js ! i) else None)) [0 ..< length js] = map ((!) js) [0 ..< length js]"
    by (rule map_cong) auto
  then show ?thesis by (simp add: array_items_def map_nth)
qed

section \<open>What the commands mean\<close>


















section \<open>Properties\<close>





text \<open>
  C37: A text that is no JSON crashes the program for 26 commands, the general command
  included; the command that powers the panel does nothing and the one that sets the open and
  short data sets 0 on channel 1.
\<close>

theorem text_that_is_no_json_crashes:
  assumes "cJSON_Parse t = Bad" "0 < len"
    "cmd \<in> {0x4000, 0x4005, 0x4006, 0x4009, 0x4010, 0x4029, 0x402a, 0x4033, 0x4038, 0x403E, 0x403F, 0x4040, 0x4041,
            0x4042, 0x4044, 0x4045, 0x4046, 0x404B, 0x4060, 0x4061, 0x4062, 0x4064, 0x4065, 0x4068, 0x4069, 0x4080}"
  shows "msgProc rd cmd (Some t) len s = None
    \<and> msgProc rd 0x4003 (Some t) len s = Some ([], s)
    \<and> msgProc rd 0x404A (Some t) len s = Some ([OpenShortData 1 0], s)"
proof -
  have root: "parse_root (Some t) = Some None" using assms(1) by (simp add: parse_root_def)
  have none: "need_int None k = None" "int_or d None k = None" for k d by (simp_all add: need_int_def int_or_def)
  have "msgProc rd cmd (Some t) len s = None"
    using assms(2,3) unfolding insert_iff empty_iff
    by (elim disjE FalseE)
      (simp_all add: msgProc_def with_state_def root none server_msg_register_def server_msg_showptn_def
        server_msg_crosscur_def server_msg_writereg_def server_msg_synctime_def server_msg_autoflick_def
        server_msg_manualflick_def server_msg_rgbw_def server_msg_ca310_start_def server_msg_ca310_stop_def
        server_msg_lcd_read_reg_def server_msg_lcd_write_code_def server_msg_photo_debug_def
        server_msg_mipi_channel_mtp_def server_msg_mipi_mode_def server_msg_flick_test_def
        server_msg_set_open_short_mode_def server_msg_set_vcom_volt_def server_msg_enable_vcom_volt_def
        server_msg_read_vcom_volt_def server_msg_read_open_short_data_def server_msg_read_ntc_ag_data_def
        read_side_def server_msg_unused_def net_general_command_proc_def)
  then show ?thesis
    by (simp add: msgProc_def with_state_def root server_msg_shuton_def server_msg_open_short_debug_def)
qed

lemma text_that_is_no_json_crashes_witness: "\<forall>rd s. msgProc rd 0x4005 (Some ''on'') 2 s = None"
proof (intro allI)
  fix rd s
  have "cJSON_Parse ''on'' = Bad"
    by (simp add: cJSON_Parse_def eval_nat_numeral parse_value.simps(2) dec_def is_digit_def digit_value_def quote_def)
  then show "msgProc rd 0x4005 (Some ''on'') 2 s = None"
    using text_that_is_no_json_crashes [of "''on''" 2 "0x4005" rd s] by simp
qed

text \<open>
  For every channel and value, the packets that the calibration command and the command that
  burns the calibration send for the same channel go to different boards.
\<close>

theorem calibration_is_burnt_on_the_other_board:
  assumes "int32 c" "int32 t" "int32 d" "0 < len"
  shows "\<exists>p q. net_general_command_proc rd
        (object_text [(''gen_cmd_id'', json_num 7), (''power_channel'', json_num c), (''power_type'', json_num t), (''power_data'', json_num d)]) len
      = Some (0, [PowerPacket p])
    \<and> net_general_command_proc rd (object_text [(''gen_cmd_id'', json_num 8), (''power_channel'', json_num c)]) len
      = Some (0, [PowerPacket q])
    \<and> ph_ways (bytes_head p) \<noteq> ph_ways (bytes_head q)"
proof -
  have id: "\<not> cJSON_strcasecmp ''gen_cmd_id'' ''power_type''" "\<not> cJSON_strcasecmp ''gen_cmd_id'' ''power_data''"
      "\<not> cJSON_strcasecmp ''power_type'' ''power_data''"
    by (simp_all add: cJSON_strcasecmp_def tolower_def Let_def char_of_def)
  have ways: "ph_ways (bytes_head (powerCmdCalibrationPowerItem ch a b e)) = word_of_int (channel_no ch)" for ch a b e
    unfolding powerCmdCalibrationPowerItem_def bytes_head_bytes initPwrMsgHead_def by simp
  let ?w = "word_of_int c :: u8"
  have cal: "net_general_command_proc rd
        (object_text [(''gen_cmd_id'', json_num 7), (''power_channel'', json_num c), (''power_type'', json_num t), (''power_data'', json_num d)]) len
      = Some (0, [PowerPacket (powerCmdCalibrationPowerItem (power_side_of ?w) (uint (word_of_int t :: u8)) 1 d)])"
    using assms by (simp add: net_general_command_proc_def object_text_def item_simps strcasecmp_length id c_text_def
        int32_def gen_calibrate_def)
  have burn: "net_general_command_proc rd (object_text [(''gen_cmd_id'', json_num 8), (''power_channel'', json_num c)]) len
      = Some (0, [PowerPacket (powerCmdCalibrationPowerItem (burn_side_of ?w) 0 2 0)])"
    using assms by (simp add: net_general_command_proc_def object_text_def item_simps strcasecmp_length id c_text_def
        int32_def gen_burn_setting_def)
  have "word_of_int (channel_no (power_side_of ?w)) \<noteq> (word_of_int (channel_no (burn_side_of ?w)) :: u16)"
    by (simp add: power_side_of_def burn_side_of_def channel_no_def)
  then show ?thesis using cal burn by (auto simp: ways)
qed

lemma calibration_is_burnt_on_the_other_board_witness:
  "\<forall>rd. \<exists>p q. net_general_command_proc rd
        (object_text [(''gen_cmd_id'', json_num 7), (''power_channel'', json_num 2), (''power_type'', json_num 1), (''power_data'', json_num (-15))]) 80
      = Some (0, [PowerPacket p])
    \<and> net_general_command_proc rd (object_text [(''gen_cmd_id'', json_num 8), (''power_channel'', json_num 2)]) 80
      = Some (0, [PowerPacket q])
    \<and> ph_ways (bytes_head p) \<noteq> ph_ways (bytes_head q)"
  by (intro allI, rule calibration_is_burnt_on_the_other_board) (simp_all add: int32_def)

text \<open>
  The request of the open and short data of a channel is answered with the reading of its
  side: the host that takes the frame off the stream and parses it has that number.
\<close>

theorem open_short_reading_reaches_the_host:
  assumes "int32 c" "send_fd \<noteq> -1"
  shows "\<exists>m b root. msgProc rd 0x4068 (object_text [(''channel'', json_num c)]) len s = Some ([Tell m], s)
    \<and> send_msg snd_fn send_fd m = Some (if snd_fn b \<le> 0 then -1 else 0, Some b)
    \<and> host_reads (b @ rest) = Some (0x2068, 0, Got root [], rest)
    \<and> int_field root ''open_short'' = Some (uint (rd_open_short rd (c = 1)))"
proof -
  let ?v = "rd_open_short rd (c = 1)"
  let ?ms = "[(''open_short'', json_num (uint ?v))]"
  have "int32 w" if "0 \<le> w" "w < 65536" for w using that by (simp add: int32_def)
  then have v: "int32 (uint ?v)" using uint_bounded [of ?v] by simp
  have num: "num_members ?ms" using v by (simp add: json_num_int c_text_def)
  have "length ?ms \<le> 100" by simp
  note short = num_members_short [OF num this, of CLIENT_MSG_POWER_TEST_READ_OPEN_SHORT_DATA]
  obtain b where b: "send_msg snd_fn send_fd (object_msg CLIENT_MSG_POWER_TEST_READ_OPEN_SHORT_DATA ?ms)
        = Some (if snd_fn b \<le> 0 then -1 else 0, Some b)"
      "host_reads (b @ rest) = Some (ucast (CLIENT_MSG_POWER_TEST_READ_OPEN_SHORT_DATA AND 0xFFFF),
         ucast (drop_bit 16 CLIENT_MSG_POWER_TEST_READ_OPEN_SHORT_DATA), Got (JObject ?ms) [], rest)"
    using answer_is_read_by_the_host [OF num_members_ok [OF num] assms(2) short, of snd_fn rest] by blast
  have "int_field (JObject ?ms) ''open_short'' = Some (uint ?v)"
    using v by (simp add: int_field_def json_num_int)
  moreover have "msgProc rd 0x4068 (object_text [(''channel'', json_num c)]) len s
      = Some ([Tell (object_msg CLIENT_MSG_POWER_TEST_READ_OPEN_SHORT_DATA ?ms)], s)"
    using assms(1) by (simp add: msgProc_def with_state_def server_msg_read_open_short_data_def read_side_def
        item_simps c_text_def client_power_test_read_open_short_ack_def)
  ultimately show ?thesis using b
    by (intro exI [of _ "object_msg CLIENT_MSG_POWER_TEST_READ_OPEN_SHORT_DATA ?ms"] exI [of _ b] exI [of _ "JObject ?ms"])
      (simp add: CLIENT_MSG_POWER_TEST_READ_OPEN_SHORT_DATA_def)
qed

lemma open_short_reading_reaches_the_host_witness:
  "\<forall>rd s. \<exists>m b root. msgProc rd 0x4068 (object_text [(''channel'', json_num 2)]) 9 s = Some ([Tell m], s)
    \<and> send_msg (\<lambda>b. 1) 4 m = Some (if (1 :: int) \<le> 0 then -1 else 0, Some b)
    \<and> host_reads (b @ []) = Some (0x2068, 0, Got root [], [])
    \<and> int_field root ''open_short'' = Some (uint (rd_open_short rd ((2 :: int) = 1)))"
  by (intro allI, rule open_short_reading_reaches_the_host) (simp_all add: int32_def)

end
