(* ===== verification/Bitmap.thy ===== *)
theory Bitmap
  imports LittleEndian CStrings "HOL-Library.Monad_Syntax"
begin

text \<open>
  Pictures, \<open>util/bitmap.c\<close>: a BMP file is turned into the pattern the FPGA shows, 64 bytes of
  head and four bytes for each pixel of rows whose length is rounded up to 16 pixels; the pattern
  is saved under the name of the picture and loaded again when the picture is shown. The content
  of a file is its bytes. \<open>None\<close> is an access outside a block, the use of a block that cannot be had,
  or an overflow of \<open>int\<close>.
\<close>

section \<open>Blocks and loops\<close>

definition peek :: "'a list \<Rightarrow> nat \<Rightarrow> 'a option" where
  "peek b p = (if p < length b then Some (b ! p) else None)"

definition poke :: "'a list \<Rightarrow> nat \<Rightarrow> 'a \<Rightarrow> 'a list option" where
  "poke b p v = (if p < length b then Some (b[p := v]) else None)"

text \<open>\<open>malloc\<close> and \<open>memset\<close> with 0: a negative size is a huge one as \<open>size_t\<close>. \<open>fread\<close> into a block
  overwrites its beginning with what the file has left.\<close>

definition zeroed :: "int \<Rightarrow> u8 list option" where
  "zeroed n = (if 0 \<le> n then Some (replicate (nat n) 0) else None)"

definition fread :: "'a list \<Rightarrow> 'a list \<Rightarrow> 'a list" where
  "fread b file = take (length b) file @ drop (length file) b"

definition c_int :: "int \<Rightarrow> int option" where
  "c_int i = (if int32 i then Some i else None)"

text \<open>\<open>for (i = a; i < a + n; i++)\<close>.\<close>

fun for_up :: "nat \<Rightarrow> nat \<Rightarrow> (nat \<Rightarrow> 's \<Rightarrow> 's option) \<Rightarrow> 's \<Rightarrow> 's option" where
  "for_up a 0 f s = Some s"
| "for_up a (Suc n) f s = Option.bind (f a s) (for_up (Suc a) n f)"

section \<open>The heads of a file\<close>

record bmp_head =
  bfType :: u16
  bfSize :: u32
  bfReserved1 :: u16
  bfReserved2 :: u16
  bfOffBits :: u32

record bmp_info =
  biSize :: u32
  biWidth :: int
  biHeight :: int
  biPlanes :: u16
  biBitCount :: u16
  biCompression :: u32
  biSizeImage :: u32
  biXPelsPerMeter :: int
  biYPelsPerMeter :: int
  biClrUsed :: u32
  biClrImportant :: u32

record rgb_quad =
  rgbBlue :: u8
  rgbGreen :: u8
  rgbRed :: u8
  rgbReserved :: u8

definition bmp_head_of :: "u8 list \<Rightarrow> bmp_head" where
  "bmp_head_of b = \<lparr>bfType = rd16 b 0, bfSize = rd32 b 2, bfReserved1 = rd16 b 6, bfReserved2 = rd16 b 8,
     bfOffBits = rd32 b 10\<rparr>"

definition bmp_info_of :: "u8 list \<Rightarrow> bmp_info" where
  "bmp_info_of b = \<lparr>biSize = rd32 b 0, biWidth = sint (rd32 b 4), biHeight = sint (rd32 b 8),
     biPlanes = rd16 b 12, biBitCount = rd16 b 14, biCompression = rd32 b 16, biSizeImage = rd32 b 20,
     biXPelsPerMeter = sint (rd32 b 24), biYPelsPerMeter = sint (rd32 b 28), biClrUsed = rd32 b 32,
     biClrImportant = rd32 b 36\<rparr>"

definition quad_of :: "u8 list \<Rightarrow> nat \<Rightarrow> rgb_quad" where
  "quad_of b i = \<lparr>rgbBlue = b ! (4 * i), rgbGreen = b ! (4 * i + 1), rgbRed = b ! (4 * i + 2),
     rgbReserved = b ! (4 * i + 3)\<rparr>"

definition WIDTHBYTES :: "int \<Rightarrow> int" where "WIDTHBYTES bits = c_div (bits + 31) 32 * 4"

text \<open>The width rounded up to 16, from the width with 15 added.\<close>

definition pad16 :: "int \<Rightarrow> int" where "pad16 w15 = c_div w15 16 * 16"

section \<open>Pixels\<close>

text \<open>The pattern of a picture after its head of 64 bytes.\<close>

definition PTN_HEAD :: nat where "PTN_HEAD = 64"

definition put_pixel :: "nat \<Rightarrow> u8 \<Rightarrow> u8 \<Rightarrow> u8 \<Rightarrow> u8 list \<Rightarrow> u8 list option" where
  "put_pixel index a b c ptn =
     do {
       ptn \<leftarrow> poke ptn (PTN_HEAD + index * 4 + 0) a;
       ptn \<leftarrow> poke ptn (PTN_HEAD + index * 4 + 1) b;
       poke ptn (PTN_HEAD + index * 4 + 2) c
     }"

text \<open>The bits of a byte that are the pixel at column \<open>j\<close>, by shifts of a byte.\<close>

definition mix_index1 :: "nat \<Rightarrow> u8 \<Rightarrow> u8" where
  "mix_index1 j b = (if j mod 8 < 7 then drop_bit 7 (push_bit (7 - j mod 8) b) else drop_bit 7 b)"

definition mix_index2 :: "nat \<Rightarrow> u8 \<Rightarrow> u8" where
  "mix_index2 j b = (if j mod 4 < 3 then drop_bit 6 (push_bit (6 - 2 * (j mod 4)) b) else drop_bit 6 b)"

definition mix_index4 :: "nat \<Rightarrow> u8 \<Rightarrow> u8" where
  "mix_index4 j b = (if j mod 2 = 0 then drop_bit 4 (push_bit 4 b) else drop_bit 4 b)"

text \<open>The rows of a picture with few colours: \<open>per\<close> pixels in a byte, \<open>per * width\<close> steps for a row,
  and green in the place of blue.\<close>

definition few_colours :: "nat \<Rightarrow> (nat \<Rightarrow> u8 \<Rightarrow> u8) \<Rightarrow> u8 list \<Rightarrow> nat \<Rightarrow> nat \<Rightarrow> nat \<Rightarrow> u8 list \<Rightarrow> u8 list
    \<Rightarrow> u8 list option" where
  "few_colours per mix pal height width l_width dat ptn =
     map_option snd (for_up 0 height (\<lambda>i. for_up 0 (per * width) (\<lambda>j (index, ptn). do {
       b \<leftarrow> peek dat (i * l_width + j div per);
       let q = quad_of pal (unat (mix j b));
       ptn \<leftarrow> put_pixel index (rgbRed q) (rgbGreen q) (rgbGreen q) ptn;
       Some (index + 1, ptn)
     })) (0, ptn))"

definition colours256 :: "u8 list \<Rightarrow> nat \<Rightarrow> nat \<Rightarrow> nat \<Rightarrow> u8 list \<Rightarrow> u8 list \<Rightarrow> u8 list option" where
  "colours256 pal height width l_width dat ptn =
     map_option snd (for_up 0 height (\<lambda>i. for_up 0 width (\<lambda>j (index, ptn). do {
       b \<leftarrow> peek dat (i * l_width + j);
       let q = quad_of pal (unat b);
       ptn \<leftarrow> put_pixel index (rgbRed q) (rgbGreen q) (rgbBlue q) ptn;
       Some (index + 1, ptn)
     })) (0, ptn))"

text \<open>The row of a picture of true colours, and after it the step over the pixels that fill it up.\<close>

definition row24 :: "nat \<Rightarrow> nat \<Rightarrow> nat \<Rightarrow> u8 list \<Rightarrow> nat \<Rightarrow> nat \<times> u8 list \<Rightarrow> (nat \<times> u8 list) option" where
  "row24 orgwidth width l_width dat i s = do {
     (index, ptn) \<leftarrow> for_up 0 orgwidth (\<lambda>j (index, ptn). do {
       b2 \<leftarrow> peek dat (i * l_width + j * 3 + 2);
       b1 \<leftarrow> peek dat (i * l_width + j * 3 + 1);
       b0 \<leftarrow> peek dat (i * l_width + j * 3);
       ptn \<leftarrow> put_pixel index b0 b1 b2 ptn;
       Some (index + 1, ptn)
     }) s;
     let index = index + (width - orgwidth);
     if index < 10000 then do {
       _ \<leftarrow> peek ptn (PTN_HEAD + i * 4 + 0);
       _ \<leftarrow> peek ptn (PTN_HEAD + i * 4 + 1);
       _ \<leftarrow> peek ptn (PTN_HEAD + i * 4 + 2);
       Some (index, ptn)
     } else Some (index, ptn)
   }"

definition row32 :: "nat \<Rightarrow> nat \<Rightarrow> nat \<Rightarrow> u8 list \<Rightarrow> nat \<Rightarrow> nat \<times> u8 list \<Rightarrow> (nat \<times> u8 list) option" where
  "row32 orgwidth width l_width dat i s = do {
     (index, ptn) \<leftarrow> for_up 0 orgwidth (\<lambda>j (index, ptn). do {
       b2 \<leftarrow> peek dat (i * l_width + j * 4 + 2);
       b1 \<leftarrow> peek dat (i * l_width + j * 4 + 1);
       b0 \<leftarrow> peek dat (i * l_width + j * 4);
       ptn \<leftarrow> put_pixel index b2 b1 b0 ptn;
       Some (index + 1, ptn)
     }) s;
     Some (index + (width - orgwidth), ptn)
   }"

section \<open>The conversion\<close>

text \<open>The head of the pattern.\<close>

definition ptn_head :: "int \<Rightarrow> int \<Rightarrow> u8 list \<Rightarrow> u8 list option" where
  "ptn_head height width ptn = do {
     ptn \<leftarrow> for_up 0 8 (\<lambda>i ptn. poke ptn i (of_nat i)) ptn;
     ptn \<leftarrow> poke ptn 24 (word_of_int (height AND 0xFF));
     ptn \<leftarrow> poke ptn 25 (word_of_int (drop_bit 8 (height AND 0xFF00)));
     ptn \<leftarrow> poke ptn 26 (word_of_int (width AND 0xFF));
     ptn \<leftarrow> poke ptn 27 (word_of_int (drop_bit 8 (width AND 0xFF00)));
     ptn \<leftarrow> poke ptn 32 32;
     poke ptn 33 0
   }"

text \<open>\<open>old\<close> is what the 14 bytes of the first head and the 40 of the second hold before they are read.
  The result is the value returned and the pattern that was built with its size.\<close>

definition parseBmp :: "u8 list \<times> u8 list \<Rightarrow> u8 list option \<Rightarrow> (int \<times> u8 list) option" where
  "parseBmp old pfile =
     (case pfile of
        None \<Rightarrow> Some (-2, [])
      | Some file \<Rightarrow>
          let bitHead = bmp_head_of (fread (fst old) file);
              bitInfoHead = bmp_info_of (fread (snd old) (drop 14 file));
              bits = uint (biBitCount bitInfoHead);
              nPlantNum = (if bits < 16 then 2 ^ nat bits else 0);
              pRgb = fread (replicate (4 * nPlantNum) 0) (drop 54 file);
              rest = drop (54 + 4 * nPlantNum) file;
              orgwidth = biWidth bitInfoHead;
              height = biHeight bitInfoHead
          in if bfType bitHead \<noteq> 0x4d42 then Some (-1, [])
             else do {
               w15 \<leftarrow> c_int (orgwidth + 15);
               let width = pad16 w15;
               rowbits \<leftarrow> c_int (orgwidth * bits);
               rowbits31 \<leftarrow> c_int (rowbits + 31);
               let l_width = WIDTHBYTES rowbits;
               nData \<leftarrow> c_int (height * l_width);
               dat \<leftarrow> zeroed nData;
               let dat = fread dat rest;
               _ \<leftarrow> mem_read dat 0 6;
               wh \<leftarrow> c_int (width * height);
               wh4 \<leftarrow> c_int (wh * 4);
               len \<leftarrow> c_int (wh4 + 64);
               ptn \<leftarrow> zeroed len;
               ptn \<leftarrow> ptn_head height width ptn;
               let h = nat height;
               let w = nat width;
               let lw = nat l_width;
               let ow = nat orgwidth;
               ptn \<leftarrow> (if bits = 1 then few_colours 8 mix_index1 pRgb h w lw dat ptn
                       else if bits = 2 then few_colours 4 mix_index2 pRgb h w lw dat ptn
                       else if bits = 4 then few_colours 2 mix_index4 pRgb h w lw dat ptn
                       else if bits = 8 then colours256 pRgb h w lw dat ptn
                       else if bits \<le> 16 then Some ptn
                       else if bits = 24 then map_option snd (for_up 0 h (row24 ow w lw dat) (0, ptn))
                       else map_option snd (for_up 0 h (row32 ow w lw dat) (0, ptn)));
               Some (0, ptn)
             })"

section \<open>Files of patterns\<close>

text \<open>\<open>strstr\<close>, \<open>strchr\<close> and \<open>strrchr\<close> give the rest of the string from the place they find.\<close>

fun strstr_at :: "string \<Rightarrow> string \<Rightarrow> string option" where
  "strstr_at [] p = (if p = [] then Some [] else None)"
| "strstr_at (c # s) p = (if take (length p) (c # s) = p then Some (c # s) else strstr_at s p)"

definition strchr :: "string \<Rightarrow> char \<Rightarrow> string option" where
  "strchr s c = (if c \<in> set s then Some (dropWhile (\<lambda>x. x \<noteq> c) s) else None)"

definition strrchr :: "string \<Rightarrow> char \<Rightarrow> string option" where
  "strrchr s c = (if c \<in> set s then Some (c # rev (takeWhile (\<lambda>x. x \<noteq> c) (rev s))) else None)"

text \<open>The file system: what a path names are its components, without empty ones and the current
  directory; a path that begins with a slash keeps it. \<open>can\<close> says which files can be made.\<close>

fun split_path :: "string \<Rightarrow> string list" where
  "split_path [] = [[]]"
| "split_path (c # s) = (if c = CHR ''/'' then [] # split_path s else (c # hd (split_path s)) # tl (split_path s))"

definition path_parts :: "string \<Rightarrow> string list" where
  "path_parts s = (if take 1 s = ''/'' then [''/''] else []) @ filter (\<lambda>p. p \<noteq> [] \<and> p \<noteq> ''.'') (split_path s)"

type_synonym pic_files = "string list \<Rightarrow> u8 list option"

definition IMAGE_DIR :: string where "IMAGE_DIR = ''imageOrigin''"
definition PTN_FILE_PATH :: string where "PTN_FILE_PATH = ''cfg/ptn/''"

text \<open>A \<open>memcpy\<close> of a negative count, and one that leaves no zero behind the string, are \<open>None\<close>.\<close>

definition saveBmpToPtn :: "u8 list \<times> u8 list \<Rightarrow> (string \<Rightarrow> bool) \<Rightarrow> string \<Rightarrow> pic_files \<Rightarrow> pic_files option" where
  "saveBmpToPtn old can pBmpFullName fs =
     (case strstr_at pBmpFullName IMAGE_DIR of
        None \<Rightarrow> Some fs
      | Some found \<Rightarrow> do {
          let pStr = drop (length IMAGE_DIR) found;
          pStr2 \<leftarrow> strrchr pBmpFullName (CHR ''/'');
          _ \<leftarrow> (if length pStr2 \<le> length pStr then Some () else None);
          tmpDir \<leftarrow> fits 64 (take (length pStr - length pStr2) pStr);
          ptnDir \<leftarrow> fits 128 (PTN_FILE_PATH @ ''/'' @ tmpDir);
          (r, ptn) \<leftarrow> parseBmp old (fs (path_parts pBmpFullName));
          if r \<noteq> 0 then Some fs
          else do {
            bmpBaseName \<leftarrow> fits 64 (tl pStr2);
            ptnFullName \<leftarrow> fits 128 (ptnDir @ ''/'' @ bmpBaseName);
            Some (if can ptnFullName then fs(path_parts ptnFullName \<mapsto> ptn) else fs)
          }
        })"

text \<open>The inner \<open>None\<close> is a pattern that is not there: the results are left as they were.\<close>

definition loadPtnToMem :: "string \<Rightarrow> pic_files \<Rightarrow> u8 list option option" where
  "loadPtnToMem pBmpFullName fs =
     (case strstr_at pBmpFullName IMAGE_DIR of
        None \<Rightarrow> Some None
      | Some pStr \<Rightarrow>
          (case strchr pStr (CHR ''/'') of
             None \<Rightarrow> Some None
           | Some pStr2 \<Rightarrow> do {
               bmpBaseName \<leftarrow> fits 64 (tl pStr2);
               ptnFullName \<leftarrow> fits 128 (PTN_FILE_PATH @ ''/'' @ bmpBaseName);
               Some (fs (path_parts ptnFullName))
             }))"

section \<open>Loops and pixels\<close>

text \<open>The rule for a loop that comes to its end.\<close>

lemma for_up_total:
  assumes "P a s"
    and "\<And>i s. a \<le> i \<Longrightarrow> i < a + n \<Longrightarrow> P i s \<Longrightarrow> \<exists>s'. f i s = Some s' \<and> P (Suc i) s'"
  shows "\<exists>s'. for_up a n f s = Some s' \<and> P (a + n) s'"
  using assms
proof (induction n arbitrary: a s)
  case (Suc n)
  obtain s1 where "f a s = Some s1" "P (Suc a) s1" using Suc.prems(2) [of a s] Suc.prems(1) by auto
  moreover have "\<exists>s'. for_up (Suc a) n f s1 = Some s' \<and> P (Suc a + n) s'"
    using \<open>P (Suc a) s1\<close> Suc.prems(2) by (intro Suc.IH) auto
  ultimately show ?case by simp
qed simp

text \<open>The rule for what holds if it comes to its end.\<close>

lemma for_up_partial:
  assumes "for_up a n f s = Some s'" "P a s"
    and "\<And>i s s'. a \<le> i \<Longrightarrow> i < a + n \<Longrightarrow> P i s \<Longrightarrow> f i s = Some s' \<Longrightarrow> P (Suc i) s'"
  shows "P (a + n) s'"
  using assms
proof (induction n arbitrary: a s)
  case (Suc n)
  obtain s1 where s1: "f a s = Some s1" "for_up (Suc a) n f s1 = Some s'"
    using Suc.prems(1) by (auto simp: bind_eq_Some_conv)
  have "P (Suc a + n) s'"
    using s1 Suc.prems(2,3) by (intro Suc.IH [OF s1(2)]) auto
  then show ?case by simp
qed simp

definition pixel :: "u8 list \<Rightarrow> nat \<Rightarrow> u8 \<times> u8 \<times> u8 \<times> u8" where
  "pixel ptn k = (ptn ! (PTN_HEAD + k * 4), ptn ! (PTN_HEAD + k * 4 + 1), ptn ! (PTN_HEAD + k * 4 + 2),
     ptn ! (PTN_HEAD + k * 4 + 3))"

lemma put_pixel_eq:
  "put_pixel k a b c ptn =
     (if PTN_HEAD + k * 4 + 2 < length ptn
      then Some (ptn[PTN_HEAD + k * 4 := a, PTN_HEAD + k * 4 + 1 := b, PTN_HEAD + k * 4 + 2 := c]) else None)"
  by (simp add: put_pixel_def poke_def)

lemma pixel_put:
  assumes "PTN_HEAD + k * 4 + 3 < length ptn"
  shows "pixel (ptn[PTN_HEAD + k * 4 := a, PTN_HEAD + k * 4 + 1 := b, PTN_HEAD + k * 4 + 2 := c]) k'
    = (if k' = k then (a, b, c, snd (snd (snd (pixel ptn k)))) else pixel ptn k')"
proof -
  have "PTN_HEAD + k' * 4 + d \<noteq> PTN_HEAD + k * 4 + e" if "k' \<noteq> k" "d < 4" "e < 4" for d e
    using that by presburger
  note ne = this [of _ 0] this [of 0] this [of 0 0] this
  show ?thesis
  proof (cases "k' = k")
    case True
    then show ?thesis using assms by (simp add: pixel_def)
  next
    case False
    then show ?thesis using ne [OF False] by (simp add: pixel_def)
  qed
qed

text \<open>The pattern when the first \<open>n\<close> pixels of rows of \<open>width\<close> are done: the others, and those that
  fill up a row, are black.\<close>

definition painted :: "(nat \<Rightarrow> nat \<Rightarrow> u8 \<times> u8 \<times> u8) \<Rightarrow> u8 list \<Rightarrow> nat \<Rightarrow> nat \<Rightarrow> nat \<Rightarrow> nat \<Rightarrow> u8 list \<Rightarrow> bool" where
  "painted colour front orgwidth width height n ptn \<longleftrightarrow>
     length ptn = PTN_HEAD + width * height * 4 \<and> take PTN_HEAD ptn = front \<and>
     (\<forall>k < width * height. pixel ptn k =
        (if k < n \<and> k mod width < orgwidth then (case colour (k div width) (k mod width) of (a, b, c) \<Rightarrow> (a, b, c, 0))
         else (0, 0, 0, 0)))"

lemma painted_step:
  assumes p: "painted colour front ow w h (i * w + j) ptn" and ij: "j < ow" "ow \<le> w" "i < h" and c: "colour i j = (a, b, c)"
  shows "\<exists>ptn'. put_pixel (i * w + j) a b c ptn = Some ptn' \<and> painted colour front ow w h (i * w + Suc j) ptn'"
proof -
  define K where "K = i * w + j"
  have "i * w + w \<le> w * h" using ij(3) by (metis Suc_leI add.commute mult.commute mult_Suc mult_le_mono2)
  then have k: "K < w * h" using ij unfolding K_def by linarith
  have len: "length ptn = PTN_HEAD + w * h * 4" using p by (simp add: painted_def)
  have "Suc K * 4 \<le> w * h * 4" using k by (intro mult_le_mono1) simp
  then have room: "PTN_HEAD + K * 4 + 3 < length ptn" using len by simp
  have dm: "K div w = i" "K mod w = j" using ij by (auto simp: K_def)
  define q where "q = ptn[PTN_HEAD + K * 4 := a, PTN_HEAD + K * 4 + 1 := b, PTN_HEAD + K * 4 + 2 := c]"
  have q: "put_pixel K a b c ptn = Some q" using room by (simp add: put_pixel_eq q_def)
  have old: "\<forall>k < w * h. pixel ptn k =
        (if k < K \<and> k mod w < ow then (case colour (k div w) (k mod w) of (a, b, c) \<Rightarrow> (a, b, c, 0)) else (0, 0, 0, 0))"
    using p by (simp add: painted_def K_def)
  then have "pixel ptn K = (0, 0, 0, 0)" using k by simp
  then have new: "pixel q k = (if k = K then (a, b, c, 0) else pixel ptn k)" for k
    unfolding q_def pixel_put [OF room] by simp
  have "pixel q k = (if k < Suc K \<and> k mod w < ow then (case colour (k div w) (k mod w) of (a, b, c) \<Rightarrow> (a, b, c, 0))
      else (0, 0, 0, 0))" if "k < w * h" for k
  proof (cases "k = K")
    case True
    then show ?thesis unfolding new using dm ij(1) c by simp
  next
    case False
    then have "k < Suc K \<longleftrightarrow> k < K" by (simp add: less_Suc_eq)
    then show ?thesis unfolding new using False old that by simp
  qed
  moreover have "length q = length ptn" "take PTN_HEAD q = take PTN_HEAD ptn" by (simp_all add: q_def take_update_cancel)
  ultimately have "painted colour front ow w h (Suc K) q" using p by (simp add: painted_def)
  then show ?thesis using q by (simp add: K_def)
qed

lemma painted_skip:
  assumes "painted colour front ow w h (i * w + ow) ptn" "ow \<le> w"
  shows "painted colour front ow w h (Suc i * w) ptn"
proof -
  have "k < i * w + ow \<longleftrightarrow> k < Suc i * w" if "k mod w < ow" for k
  proof
    assume k: "k < Suc i * w"
    show "k < i * w + ow"
    proof (cases "k < i * w")
      case False
      then have "k div w = i" using k by (intro div_nat_eqI) (auto simp: mult.commute)
      then show ?thesis using that by (metis div_mult_mod_eq nat_add_left_cancel_less)
    qed simp
  qed (use assms(2) in simp)
  then show ?thesis using assms(1) unfolding painted_def by auto
qed

text \<open>A row whose body puts the colour of each column.\<close>

lemma columns_paint:
  assumes "painted colour front ow w h (i * w) ptn" "ow \<le> w" "i < h"
    and body: "\<And>j ptn. j < ow \<Longrightarrow> f j (i * w + j, ptn) = (case colour i j of (a, b, c) \<Rightarrow>
      map_option (Pair (i * w + j + 1)) (put_pixel (i * w + j) a b c ptn))"
  shows "\<exists>ptn'. for_up 0 ow f (i * w, ptn) = Some (i * w + ow, ptn') \<and> painted colour front ow w h (Suc i * w) ptn'"
proof -
  let ?P = "\<lambda>j s. fst s = i * w + j \<and> painted colour front ow w h (i * w + j) (snd s)"
  have "\<exists>s. for_up 0 ow f (i * w, ptn) = Some s \<and> ?P (0 + ow) s"
  proof (rule for_up_total)
    fix j s assume j: "j < 0 + ow" and s: "?P j s"
    obtain a b c where c: "colour i j = (a, b, c)" by (cases "colour i j")
    show "\<exists>s'. f j s = Some s' \<and> ?P (Suc j) s'"
      using painted_step [of colour front ow w h i j "snd s" a b c] s j assms(2,3) body [of j "snd s"] c
      by (cases s) auto
  qed (use assms(1) in simp)
  then obtain s where s: "for_up 0 ow f (i * w, ptn) = Some s" "?P ow s" by auto
  have "painted colour front ow w h (Suc i * w) (snd s)"
    using painted_skip [of colour front ow w h i "snd s"] s(2) assms(2) by blast
  then show ?thesis using s by (cases s) auto
qed

lemma peek_three:
  assumes "p + 2 < length b"
  shows "peek b (p + 2) = Some (b ! (p + 2))" "peek b (p + 1) = Some (b ! (p + 1))" "peek b p = Some (b ! p)"
  using assms by (simp_all add: peek_def)

lemma row24_paints:
  assumes "painted colour front ow w h (i * w) ptn" "ow \<le> w" "i < h" "0 < w"
    and "\<And>j. j < ow \<Longrightarrow> i * lw + j * 3 + 2 < length dat"
    and "\<And>j. j < ow \<Longrightarrow> colour i j = (dat ! (i * lw + j * 3), dat ! (i * lw + j * 3 + 1), dat ! (i * lw + j * 3 + 2))"
  shows "\<exists>ptn'. row24 ow w lw dat i (i * w, ptn) = Some (Suc i * w, ptn') \<and> painted colour front ow w h (Suc i * w) ptn'"
proof -
  have "\<exists>p. for_up 0 ow (\<lambda>j (index, ptn). do {
       b2 \<leftarrow> peek dat (i * lw + j * 3 + 2);
       b1 \<leftarrow> peek dat (i * lw + j * 3 + 1);
       b0 \<leftarrow> peek dat (i * lw + j * 3);
       ptn \<leftarrow> put_pixel index b0 b1 b2 ptn;
       Some (index + 1, ptn)
     }) (i * w, ptn) = Some (i * w + ow, p) \<and> painted colour front ow w h (Suc i * w) p"
    by (rule columns_paint [OF assms(1-3)])
      (simp add: peek_three [OF assms(5)] assms(6) o_def map_conv_bind_option del: add_2_eq_Suc' One_nat_def add_Suc_right)
  then obtain p where p: "for_up 0 ow (\<lambda>j (index, ptn). do {
       b2 \<leftarrow> peek dat (i * lw + j * 3 + 2);
       b1 \<leftarrow> peek dat (i * lw + j * 3 + 1);
       b0 \<leftarrow> peek dat (i * lw + j * 3);
       ptn \<leftarrow> put_pixel index b0 b1 b2 ptn;
       Some (index + 1, ptn)
     }) (i * w, ptn) = Some (i * w + ow, p)" "painted colour front ow w h (Suc i * w) p" by blast
  have "i * 4 < w * h * 4" using assms(3,4) by (cases w) auto
  then have "PTN_HEAD + i * 4 + 2 < length p" using p(2) by (simp add: painted_def)
  then show ?thesis unfolding row24_def using p assms(2) by (simp add: peek_def Let_def)
qed

lemma row32_paints:
  assumes "painted colour front ow w h (i * w) ptn" "ow \<le> w" "i < h"
    and "\<And>j. j < ow \<Longrightarrow> i * lw + j * 4 + 2 < length dat"
    and "\<And>j. j < ow \<Longrightarrow> colour i j = (dat ! (i * lw + j * 4 + 2), dat ! (i * lw + j * 4 + 1), dat ! (i * lw + j * 4))"
  shows "\<exists>ptn'. row32 ow w lw dat i (i * w, ptn) = Some (Suc i * w, ptn') \<and> painted colour front ow w h (Suc i * w) ptn'"
proof -
  have "\<exists>p. for_up 0 ow (\<lambda>j (index, ptn). do {
       b2 \<leftarrow> peek dat (i * lw + j * 4 + 2);
       b1 \<leftarrow> peek dat (i * lw + j * 4 + 1);
       b0 \<leftarrow> peek dat (i * lw + j * 4);
       ptn \<leftarrow> put_pixel index b2 b1 b0 ptn;
       Some (index + 1, ptn)
     }) (i * w, ptn) = Some (i * w + ow, p) \<and> painted colour front ow w h (Suc i * w) p"
    by (rule columns_paint [OF assms(1-3)])
      (simp add: peek_three [OF assms(4)] assms(5) o_def map_conv_bind_option del: add_2_eq_Suc' One_nat_def add_Suc_right)
  then show ?thesis unfolding row32_def using assms(2) by (auto simp: Let_def)
qed

text \<open>All rows of a picture whose rows paint.\<close>

lemma rows_paint:
  assumes "painted colour front ow w h 0 ptn"
    and "\<And>i ptn. i < h \<Longrightarrow> painted colour front ow w h (i * w) ptn \<Longrightarrow>
      \<exists>ptn'. row i (i * w, ptn) = Some (Suc i * w, ptn') \<and> painted colour front ow w h (Suc i * w) ptn'"
  shows "\<exists>ptn'. map_option snd (for_up 0 h row (0, ptn)) = Some ptn' \<and> painted colour front ow w h (h * w) ptn'"
proof -
  have "\<exists>s. for_up 0 h row (0, ptn) = Some s \<and> (fst s = (0 + h) * w \<and> painted colour front ow w h ((0 + h) * w) (snd s))"
    using assms by (intro for_up_total [where P = "\<lambda>i s. fst s = i * w \<and> painted colour front ow w h (i * w) (snd s)"]) auto
  then show ?thesis by auto
qed

section \<open>Pictures of true colours\<close>

text \<open>A file of \<open>bits\<close> per pixel that holds a whole picture of \<open>w\<close> columns and \<open>h\<close> rows right behind the
  two heads, as the format has it: the offset of the pixels in the file (\<open>bfOffBits\<close>) is 54, and the
  rows are filled up to a multiple of four bytes. The sizes are such that no product leaves \<open>int\<close>.\<close>

definition stride :: "nat \<Rightarrow> nat \<Rightarrow> nat" where
  "stride bits w = (w * bits + 31) div 32 * 4"

definition bmp_file :: "nat \<Rightarrow> nat \<Rightarrow> nat \<Rightarrow> u8 list \<Rightarrow> bool" where
  "bmp_file bits w h file \<longleftrightarrow>
     rd16 file 0 = 0x4d42 \<and> rd32 file 10 = 54 \<and> rd32 file 18 = of_nat w \<and> rd32 file 22 = of_nat h \<and> rd16 file 28 = of_nat bits \<and>
     54 + h * stride bits w \<le> length file \<and> 2 \<le> w \<and> w \<le> 4096 \<and> 1 \<le> h \<and> h \<le> 4096"

text \<open>The three bytes of a pixel as they stand in the file: blue, green, red. The rows begin at
  \<open>bfOffBits\<close>.\<close>

definition file_pixel :: "nat \<Rightarrow> nat \<Rightarrow> u8 list \<Rightarrow> nat \<Rightarrow> nat \<Rightarrow> u8 \<times> u8 \<times> u8" where
  "file_pixel bits w file y x =
     (let p = unat (rd32 file 10) + y * stride bits w + x * (bits div 8) in (file ! p, file ! (p + 1), file ! (p + 2)))"

lemma file_pixel_behind_heads:
  "bmp_file bits w h file \<Longrightarrow> file_pixel bits w file y x =
     (let p = 54 + y * stride bits w + x * (bits div 8) in (file ! p, file ! (p + 1), file ! (p + 2)))"
  by (simp add: file_pixel_def bmp_file_def)

definition round16 :: "nat \<Rightarrow> nat" where "round16 w = (w + 15) div 16 * 16"

lemma round16_bounds: "w \<le> round16 w" "round16 w \<le> w + 15"
  unfolding round16_def by presburger+

lemma info_of_file:
  assumes "54 \<le> length file" "length old1 = 14" "length old2 = 40"
  shows "bfType (bmp_head_of (fread old1 file)) = rd16 file 0"
    "biWidth (bmp_info_of (fread old2 (drop 14 file))) = sint (rd32 file 18)"
    "biHeight (bmp_info_of (fread old2 (drop 14 file))) = sint (rd32 file 22)"
    "biBitCount (bmp_info_of (fread old2 (drop 14 file))) = rd16 file 28"
  using assms by (simp_all add: fread_def bmp_head_of_def bmp_info_of_def rd16_def rd32_def)

lemma sint_of_nat32: "n < 2 ^ 31 \<Longrightarrow> sint (of_nat n :: u32) = int n"
  by (simp add: signed_of_nat signed_take_bit_int_eq_self)

lemma c_int_nat: "n < 2 ^ 31 \<Longrightarrow> c_int (int n) = Some (int n)"
  by (simp add: c_int_def int32_def)

text \<open>The arithmetic of the conversion for such a picture.\<close>

lemma picture_arith:
  assumes "2 \<le> w" "w \<le> 4096" "1 \<le> h" "h \<le> 4096" "bits \<in> {24, 32}"
  shows "c_int (int w + 15) = Some (int w + 15)"
    "pad16 (int w + 15) = int (round16 w)"
    "c_int (int w * int bits) = Some (int w * int bits)"
    "c_int (int w * int bits + 31) = Some (int w * int bits + 31)"
    "WIDTHBYTES (int w * int bits) = int (stride bits w)"
    "c_int (int h * int (stride bits w)) = Some (int (h * stride bits w))"
    "6 \<le> h * stride bits w"
    "c_int (int (round16 w) * int h) = Some (int (round16 w * h))"
    "c_int (int (round16 w * h) * 4) = Some (int (round16 w * h * 4))"
    "c_int (int (round16 w * h * 4) + 64) = Some (int (PTN_HEAD + round16 w * h * 4))"
proof -
  have b: "bits \<le> 32" "24 \<le> bits" using assms(5) by auto
  have wb: "w * bits \<le> 4096 * 32" using mult_le_mono [OF assms(2) b(1)] .
  have wb2: "48 \<le> w * bits" using mult_le_mono [OF assms(1) b(2)] by simp
  have st: "8 \<le> stride bits w" "stride bits w \<le> 16388"
    using div_le_mono [of 79 "w * bits + 31" 32] div_le_mono [of "w * bits + 31" "131072 + 31" 32] wb wb2
    by (simp_all add: stride_def)
  have hs: "h * stride bits w \<le> 4096 * 16388" "1 * 8 \<le> h * stride bits w"
    using mult_le_mono [OF assms(4) st(2)] mult_le_mono [OF assms(3) st(1)] by auto
  have r: "round16 w \<le> 4111" using round16_bounds(2) [of w] assms(2) by simp
  have rh: "round16 w * h \<le> 4111 * 4096" using mult_le_mono [OF r assms(4)] .
  show "c_int (int w + 15) = Some (int w + 15)" using c_int_nat [of "w + 15"] assms(2) by simp
  show "pad16 (int w + 15) = int (round16 w)" by (simp add: pad16_def c_div_def round16_def zdiv_int)
  show "c_int (int w * int bits) = Some (int w * int bits)" "c_int (int w * int bits + 31) = Some (int w * int bits + 31)"
    using c_int_nat [of "w * bits"] c_int_nat [of "w * bits + 31"] wb by simp_all
  show "WIDTHBYTES (int w * int bits) = int (stride bits w)"
    by (simp add: WIDTHBYTES_def c_div_def stride_def zdiv_int)
  show "c_int (int h * int (stride bits w)) = Some (int (h * stride bits w))"
    using c_int_nat [of "h * stride bits w"] hs by simp
  show "6 \<le> h * stride bits w" using hs by simp
  show "c_int (int (round16 w) * int h) = Some (int (round16 w * h))"
    "c_int (int (round16 w * h) * 4) = Some (int (round16 w * h * 4))"
    "c_int (int (round16 w * h * 4) + 64) = Some (int (PTN_HEAD + round16 w * h * 4))"
    using c_int_nat [of "round16 w * h"] c_int_nat [of "round16 w * h * 4"] c_int_nat [of "round16 w * h * 4 + 64"] rh
    by (simp_all add: PTN_HEAD_def add.commute [of 64] mult.commute [of h])
qed

text \<open>The head of a pattern.\<close>

lemma byte_of_low: "(word_of_int (int n AND 0xFF) :: u8) = ucast (of_nat n :: u16)"
proof (rule bit_word_eqI)
  fix i assume i: "i < LENGTH(8)"
  have m: "(0xFF :: int) = mask 8" by (simp add: mask_eq_exp_minus_1)
  show "bit (word_of_int (int n AND 0xFF) :: u8) i \<longleftrightarrow> bit (ucast (of_nat n :: u16) :: u8) i"
    using i unfolding m by (simp add: bit_simps)
qed

lemma byte_of_high: "(word_of_int (drop_bit 8 (int n AND 0xFF00)) :: u8) = ucast (drop_bit 8 (of_nat n :: u16))"
proof (rule bit_word_eqI)
  fix i assume i: "i < LENGTH(8)"
  have m: "(0xFF00 :: int) = push_bit 8 (mask 8)" by (simp add: mask_eq_exp_minus_1 push_bit_eq_mult)
  show "bit (word_of_int (drop_bit 8 (int n AND 0xFF00)) :: u8) i
      \<longleftrightarrow> bit (ucast (drop_bit 8 (of_nat n :: u16)) :: u8) i"
    using i unfolding m by (simp add: bit_simps)
qed

text \<open>The 64 bytes before the pixels of a pattern of \<open>height\<close> rows of \<open>width\<close>.\<close>

definition ptn_front :: "nat \<Rightarrow> nat \<Rightarrow> u8 list" where
  "ptn_front height width = [0, 1, 2, 3, 4, 5, 6, 7] @ replicate 16 0 @ le16 (of_nat height) @ le16 (of_nat width)
     @ replicate 4 0 @ [32] @ replicate 31 0"

lemma length_ptn_front [simp]: "length (ptn_front h w) = PTN_HEAD"
  by (simp add: ptn_front_def PTN_HEAD_def)

lemma ptn_head_front: "ptn_head (int h) (int w) (replicate (PTN_HEAD + n) 0) = Some (ptn_front h w @ replicate n 0)"
proof -
  have s: "replicate (PTN_HEAD + n) (0 :: u8) = replicate 64 0 @ replicate n 0" by (simp add: PTN_HEAD_def replicate_add)
  show ?thesis
    unfolding ptn_head_def s byte_of_low byte_of_high
    by (simp add: poke_def ptn_front_def le16_def eval_nat_numeral)
qed

text \<open>The conversion of such a picture is its loop over the rows.\<close>

lemma parse_true_colours:
  assumes f: "bmp_file bits w h file" and bits: "bits \<in> {24, 32}"
    and old: "length (fst old) = 14" "length (snd old) = 40"
  shows "parseBmp old (Some file) = map_option (Pair 0) (map_option snd
    (for_up 0 h ((if bits = 24 then row24 else row32) w (round16 w) (stride bits w) (take (h * stride bits w) (drop 54 file)))
       (0, ptn_front h (round16 w) @ replicate (round16 w * h * 4) 0)))"
proof -
  have sizes: "2 \<le> w" "w \<le> 4096" "1 \<le> h" "h \<le> 4096" "54 + h * stride bits w \<le> length file"
    using f by (simp_all add: bmp_file_def)
  note ar = picture_arith [OF sizes(1-4) bits]
  have "54 \<le> length file" using sizes(5) by simp
  note info = info_of_file [OF this old]
  have w: "biWidth (bmp_info_of (fread (snd old) (drop 14 file))) = int w"
    and h: "biHeight (bmp_info_of (fread (snd old) (drop 14 file))) = int h"
    using f sizes by (simp_all add: info bmp_file_def sint_of_nat32)
  have b: "uint (biBitCount (bmp_info_of (fread (snd old) (drop 14 file)))) = int bits"
    using f bits by (auto simp: info bmp_file_def)
  have t: "bfType (bmp_head_of (fread (fst old) file)) = 0x4d42" using f by (simp add: info bmp_file_def)
  have len: "length (take (h * stride bits w) (drop 54 file)) = h * stride bits w" using sizes(5) by simp
  then have dat: "fread (replicate (h * stride bits w) 0) (drop 54 file) = take (h * stride bits w) (drop 54 file)"
    by (simp add: fread_def)
  have six: "mem_read (take (h * stride bits w) (drop 54 file)) 0 6 \<noteq> None"
    using ar(7) len by (simp add: mem_read_def)
  then obtain r where r: "mem_read (take (h * stride bits w) (drop 54 file)) 0 6 = Some r" by blast
  have z: "zeroed (int n) = Some (replicate n 0)" for n by (simp add: zeroed_def)
  have nb: "bits \<noteq> 1" "bits \<noteq> Suc 0" "bits \<noteq> 2" "bits \<noteq> 4" "bits \<noteq> 8" "\<not> bits < 16" "\<not> bits \<le> 16"
    using bits by auto
  note facts = t w h b ar dat r nb
  show ?thesis
  proof (cases "bits = 24")
    case True
    show ?thesis unfolding True
      by (simp add: parseBmp_def Let_def facts [unfolded True of_nat_numeral] z ptn_head_front map_conv_bind_option o_def
          del: replicate_add of_nat_mult of_nat_add)
  next
    case False
    then show ?thesis
      by (simp add: parseBmp_def Let_def facts z ptn_head_front map_conv_bind_option o_def
          del: replicate_add of_nat_mult of_nat_add)
  qed
qed

lemma painted_nothing:
  "length front = PTN_HEAD \<Longrightarrow> painted colour front ow w h 0 (front @ replicate (w * h * 4) 0)"
  by (auto simp: painted_def pixel_def nth_append)

lemma rd16_front: "rd16 (take PTN_HEAD ptn) 24 = rd16 ptn 24" "rd16 (take PTN_HEAD ptn) 26 = rd16 ptn 26"
  by (simp_all add: rd16_def PTN_HEAD_def)

lemma ptn_front_sizes: "rd16 (ptn_front h w) 24 = of_nat h" "rd16 (ptn_front h w) 26 = of_nat w"
proof -
  let ?pre = "[0, 1, 2, 3, 4, 5, 6, 7] @ replicate 16 (0 :: u8)"
  have "rd16 (?pre @ le16 (of_nat h) @ le16 (of_nat w) @ replicate 4 0 @ [32] @ replicate 31 0) 24 = of_nat h"
    by (rule rd16_at) simp
  then show "rd16 (ptn_front h w) 24 = of_nat h" by (simp add: ptn_front_def)
  have "rd16 ((?pre @ le16 (of_nat h)) @ le16 (of_nat w) @ replicate 4 0 @ [32] @ replicate 31 0) 26 = of_nat w"
    by (rule rd16_at) simp
  then show "rd16 (ptn_front h w) 26 = of_nat w" by (simp add: ptn_front_def)
qed

text \<open>
  C38: A picture of 24 or 32 bits, 2 to 4096 pixels wide and 1 to 4096 high, whose pixels
  stand right behind the two heads of the file (bfOffBits is 54), becomes a pattern of its
  height and its width rounded up to 16: each row of the file, in the order of the file, is a
  row of the pattern with the colours of its pixels in their places and black where it was
  filled up. At 24 bits a pixel of the pattern is blue, green, red, at 32 bits red, green,
  blue.
\<close>

theorem picture_becomes_pattern:
  assumes "bmp_file bits w h file" "bits \<in> {24, 32}" "length (fst old) = 14" "length (snd old) = 40"
  shows "\<exists>ptn. parseBmp old (Some file) = Some (0, ptn) \<and> length ptn = PTN_HEAD + round16 w * h * 4
    \<and> rd16 ptn 24 = of_nat h \<and> rd16 ptn 26 = of_nat (round16 w)
    \<and> (\<forall>y < h. \<forall>x < round16 w. pixel ptn (y * round16 w + x) =
         (if x < w then (case file_pixel bits w file y x of (blue, green, red) \<Rightarrow>
            if bits = 24 then (blue, green, red, 0) else (red, green, blue, 0))
          else (0, 0, 0, 0)))"
proof -
  let ?W = "round16 w" and ?lw = "stride bits w"
  let ?dat = "take (h * ?lw) (drop 54 file)"
  let ?colour = "\<lambda>y x. case file_pixel bits w file y x of (b, g, r) \<Rightarrow> if bits = 24 then (b, g, r) else (r, g, b)"
  let ?row = "if bits = 24 then row24 else row32"
  have len: "54 + h * ?lw \<le> length file" and w: "2 \<le> w" using assms(1) by (simp_all add: bmp_file_def)
  have W: "w \<le> ?W" "0 < ?W" using round16_bounds(1) [of w] w by auto
  have inside: "y * ?lw + x * (bits div 8) + 2 < h * ?lw" if "y < h" "x < w" for y x
  proof -
    have "w * bits \<le> ?lw * 8" by (simp add: stride_def)
    then have "w * (bits div 8) \<le> ?lw" using assms(2) by auto
    moreover have "Suc x * (bits div 8) \<le> w * (bits div 8)" using that(2) by (intro mult_le_mono1) simp
    moreover have "3 \<le> bits div 8" using assms(2) by auto
    moreover have "Suc y * ?lw \<le> h * ?lw" using that(1) by (intro mult_le_mono1) simp
    ultimately show ?thesis by simp
  qed
  then have bytes: "?dat ! (y * ?lw + x * (bits div 8) + d) = file ! (54 + y * ?lw + x * (bits div 8) + d)"
      if "y < h" "x < w" "d < 3" for y x d
  proof -
    have "y * ?lw + x * (bits div 8) + d < h * ?lw" using inside [OF that(1,2)] that(3) by linarith
    then show ?thesis using len by (simp add: add.assoc)
  qed
  have "\<exists>ptn. map_option snd (for_up 0 h (?row w ?W ?lw ?dat) (0, ptn_front h ?W @ replicate (?W * h * 4) 0)) = Some ptn
      \<and> painted ?colour (ptn_front h ?W) w ?W h (h * ?W) ptn"
  proof (rule rows_paint [OF painted_nothing])
    fix i ptn assume i: "i < h" and p: "painted ?colour (ptn_front h ?W) w ?W h (i * ?W) ptn"
    have b: "?dat ! (i * ?lw + j * (bits div 8)) = file ! (54 + i * ?lw + j * (bits div 8))"
        "?dat ! (i * ?lw + j * (bits div 8) + 1) = file ! (54 + i * ?lw + j * (bits div 8) + 1)"
        "?dat ! (i * ?lw + j * (bits div 8) + 2) = file ! (54 + i * ?lw + j * (bits div 8) + 2)" if "j < w" for j
      using bytes [OF i that, of 0] bytes [OF i that, of 1] bytes [OF i that, of 2] by simp_all
    have l: "i * ?lw + j * (bits div 8) + 2 < length ?dat" if "j < w" for j using inside [OF i that] len by simp
    show "\<exists>ptn'. ?row w ?W ?lw ?dat i (i * ?W, ptn) = Some (Suc i * ?W, ptn') \<and> painted ?colour (ptn_front h ?W) w ?W h (Suc i * ?W) ptn'"
    proof (cases "bits = 24")
      case True
      have "\<exists>ptn'. row24 w ?W ?lw ?dat i (i * ?W, ptn) = Some (Suc i * ?W, ptn') \<and> painted ?colour (ptn_front h ?W) w ?W h (Suc i * ?W) ptn'"
        using b l True by (intro row24_paints [OF p W(1) i W(2)]) (simp_all add: file_pixel_behind_heads [OF assms(1) [unfolded True]] Let_def)
      then show ?thesis using True by simp
    next
      case False
      then have bits: "bits = 32" using assms(2) by simp
      have "\<exists>ptn'. row32 w ?W ?lw ?dat i (i * ?W, ptn) = Some (Suc i * ?W, ptn') \<and> painted ?colour (ptn_front h ?W) w ?W h (Suc i * ?W) ptn'"
        using b l bits by (intro row32_paints [OF p W(1) i]) (simp_all add: file_pixel_behind_heads [OF assms(1) [unfolded bits]] Let_def)
      then show ?thesis using False by simp
    qed
  qed simp
  then obtain ptn where ptn: "parseBmp old (Some file) = Some (0, ptn)" "painted ?colour (ptn_front h ?W) w ?W h (h * ?W) ptn"
    unfolding parse_true_colours [OF assms] by auto
  have "pixel ptn (y * ?W + x) = (if x < w then (case ?colour y x of (a, b, c) \<Rightarrow> (a, b, c, 0)) else (0, 0, 0, 0))"
    if "y < h" "x < ?W" for y x
  proof -
    have "Suc y * ?W \<le> h * ?W" using that(1) by (intro mult_le_mono1) simp
    then have k: "y * ?W + x < h * ?W" using that(2) by simp
    then have "y * ?W + x < ?W * h" by (simp only: mult.commute)
    moreover have "(y * ?W + x) div ?W = y" "(y * ?W + x) mod ?W = x" using that(2) by auto
    ultimately show ?thesis using ptn(2) k unfolding painted_def by simp
  qed
  moreover have "rd16 ptn 24 = of_nat h" "rd16 ptn 26 = of_nat ?W"
    using rd16_front [of ptn] ptn(2) ptn_front_sizes [of h ?W] by (simp_all add: painted_def)
  ultimately show ?thesis
    using ptn by (intro exI [of _ ptn]) (auto simp: painted_def split: prod.splits)
qed

text \<open>A picture of two pixels.\<close>

definition two_pixels :: "u8 list" where
  "two_pixels = [0x42, 0x4d, 62, 0, 0, 0, 0, 0, 0, 0, 54, 0, 0, 0, 40, 0, 0, 0, 2, 0, 0, 0, 1, 0, 0, 0, 1, 0, 24, 0,
     0, 0, 0, 0, 0, 0, 0, 0, 0, 0, 0, 0, 0, 0, 0, 0, 0, 0, 0, 0, 0, 0, 0, 0, 1, 2, 3, 4, 5, 6, 0, 0]"

lemma bmp_two_pixels: "bmp_file 24 2 1 two_pixels"
  by (simp add: bmp_file_def rd16_def rd32_def two_pixels_def stride_def)

lemma picture_becomes_pattern_witness:
  "\<exists>ptn. parseBmp (replicate 14 0, replicate 40 0) (Some two_pixels) = Some (0, ptn) \<and> length ptn = 128
     \<and> rd16 ptn 26 = 16 \<and> pixel ptn 1 = (4, 5, 6, 0)"
proof -
  have "round16 2 = 16" by (simp add: round16_def)
  moreover have "file_pixel 24 2 two_pixels 0 (Suc 0) = (4, 5, 6)"
    unfolding file_pixel_behind_heads [OF bmp_two_pixels] by (simp add: stride_def two_pixels_def)
  ultimately show ?thesis
    using picture_becomes_pattern [OF bmp_two_pixels, of "(replicate 14 0, replicate 40 0)"]
    by (auto simp: PTN_HEAD_def)
qed

section \<open>Pictures with a palette\<close>

lemma put_pixel_room: "put_pixel k a b c ptn = Some ptn' \<Longrightarrow> length ptn' = length ptn \<and> PTN_HEAD + k * 4 + 2 < length ptn"
  by (auto simp: put_pixel_eq split: if_splits)

lemma few_colours_room:
  assumes "few_colours per mix pal h w lw dat ptn = Some ptn'" "0 < per" "0 < w" "0 < h"
  shows "h * (per * w) * 4 + PTN_HEAD \<le> length ptn + 1"
proof -
  let ?P = "\<lambda>n s. fst s = n \<and> length (snd s) = length ptn \<and> (0 < n \<longrightarrow> n * 4 + PTN_HEAD \<le> length ptn + 1)"
  from assms(1) obtain s where "for_up 0 h (\<lambda>i. for_up 0 (per * w) (\<lambda>j (index, ptn). do {
       b \<leftarrow> peek dat (i * lw + j div per);
       let q = quad_of pal (unat (mix j b));
       ptn \<leftarrow> put_pixel index (rgbRed q) (rgbGreen q) (rgbGreen q) ptn;
       Some (index + 1, ptn)
     })) (0, ptn) = Some s"
    by (auto simp: few_colours_def)
  then have "?P ((0 + h) * (per * w)) s"
  proof (rule for_up_partial)
    fix i s s' assume s: "?P (i * (per * w)) s" and "for_up 0 (per * w) (\<lambda>j (index, ptn). do {
       b \<leftarrow> peek dat (i * lw + j div per);
       let q = quad_of pal (unat (mix j b));
       ptn \<leftarrow> put_pixel index (rgbRed q) (rgbGreen q) (rgbGreen q) ptn;
       Some (index + 1, ptn)
     }) s = Some s'"
    from this(2) have "?P (i * (per * w) + (0 + per * w)) s'"
    proof (rule for_up_partial)
      fix j u u' assume u: "?P (i * (per * w) + j) u" and step: "(case u of (index, ptn) \<Rightarrow> do {
         b \<leftarrow> peek dat (i * lw + j div per);
         let q = quad_of pal (unat (mix j b));
         ptn \<leftarrow> put_pixel index (rgbRed q) (rgbGreen q) (rgbGreen q) ptn;
         Some (index + 1, ptn)
       }) = Some u'"
      then show "?P (i * (per * w) + Suc j) u'"
        by (cases u) (auto simp: bind_eq_Some_conv Let_def dest!: put_pixel_room)
    qed (use s in simp)
    then show "?P (Suc i * (per * w)) s'" by (simp add: add.commute)
  qed simp
  then show ?thesis using assms(2-4) by simp
qed

lemma colours256_room:
  assumes "colours256 pal h w lw dat ptn = Some ptn'" "0 < w" "0 < h"
  shows "(h - 1) * lw + w \<le> length dat"
proof -
  let ?P = "\<lambda>i s. 0 < i \<longrightarrow> (i - 1) * lw + w \<le> length dat"
  from assms(1) obtain s where "for_up 0 h (\<lambda>i. for_up 0 w (\<lambda>j (index, ptn). do {
       b \<leftarrow> peek dat (i * lw + j);
       let q = quad_of pal (unat b);
       ptn \<leftarrow> put_pixel index (rgbRed q) (rgbGreen q) (rgbBlue q) ptn;
       Some (index + 1, ptn)
     })) (0, ptn) = Some s"
    by (auto simp: colours256_def)
  then have "?P (0 + h) s"
  proof (rule for_up_partial)
    fix i s s' assume "for_up 0 w (\<lambda>j (index, ptn). do {
       b \<leftarrow> peek dat (i * lw + j);
       let q = quad_of pal (unat b);
       ptn \<leftarrow> put_pixel index (rgbRed q) (rgbGreen q) (rgbBlue q) ptn;
       Some (index + 1, ptn)
     }) s = Some s'"
    then have "0 < 0 + w \<longrightarrow> i * lw + (0 + w) \<le> length dat"
      by (rule for_up_partial) (auto simp: bind_eq_Some_conv peek_def split: prod.splits if_splits)
    then show "?P (Suc i) s'" using assms(2) by simp
  qed simp
  then show ?thesis using assms(3) by simp
qed

lemma poke_length: "poke b p v = Some b' \<Longrightarrow> length b' = length b"
  by (auto simp: poke_def split: if_splits)

lemma ptn_head_length:
  assumes "ptn_head h w ptn = Some ptn'"
  shows "length ptn' = length ptn"
proof -
  from assms obtain p where p: "for_up 0 8 (\<lambda>i ptn. poke ptn i (of_nat i)) ptn = Some p" "length ptn' = length p"
    by (auto simp: ptn_head_def bind_eq_Some_conv dest!: poke_length)
  have "length p = length ptn"
    by (rule for_up_partial [OF p(1), where P = "\<lambda>_ b. length b = length ptn"]) (auto dest: poke_length)
  then show ?thesis using p(2) by simp
qed

lemma length_fread [simp]: "length (fread b file) = length b"
  by (simp add: fread_def)

lemma c_int_Some: "c_int i = Some j \<longleftrightarrow> j = i \<and> int32 i"
  by (auto simp: c_int_def)

lemma zeroed_Some: "zeroed n = Some b \<longleftrightarrow> 0 \<le> n \<and> b = replicate (nat n) 0"
  by (auto simp: zeroed_def)

definition two_colours :: "u8 list" where
  "two_colours = [0x42, 0x4d, 0, 0, 0, 0, 0, 0, 0, 0, 0, 0, 0, 0, 0, 0, 0, 0, 8, 0, 0, 0, 1, 0, 0, 0, 1, 0, 1, 0,
     0, 0, 0, 0, 0, 0, 0, 0, 0, 0, 0, 0, 0, 0, 0, 0, 0, 0, 0, 0, 0, 0, 0, 0, 0, 0, 0, 0, 0, 0, 0, 0, 170, 0, 0, 0]"

text \<open>
  C39: No picture with 1, 2 or 4 bits per pixel is converted: the conversion writes behind the
  pattern. With 8 bits it reads behind the rows if the width modulo 16 is from 1 to 12.
\<close>

theorem palette_pictures_overrun:
  assumes "54 \<le> length file" "length (fst old) = 14" "length (snd old) = 40" "rd16 file 0 = 0x4d42"
    and "sint (rd32 file 18) = int w" "0 < w" "sint (rd32 file 22) = int h" "0 < h" "rd16 file 28 = of_nat bits"
    and bits: "bits \<in> {1, 2, 4} \<or> bits = 8 \<and> w mod 16 \<in> {1..12}"
  shows "parseBmp old (Some file) = None"
proof (rule ccontr)
  note info = info_of_file [OF assms(1-3)]
  have ub: "uint (rd16 file 28) = int bits" using assms(9) bits by auto
  have W: "pad16 (int w + 15) = int (round16 w)" by (simp add: pad16_def c_div_def round16_def zdiv_int)
  have L: "WIDTHBYTES (int w * int b) = int (stride b w)" for b by (simp add: WIDTHBYTES_def c_div_def stride_def zdiv_int)
  note L = L [of 1, simplified] L [of 2, simplified] L [of 4, simplified] L [of 8, simplified]
  let ?W = "round16 w" and ?lw = "stride bits w"
  have pos: "0 < ?W" using round16_bounds(1) [of w] assms(6) by simp
  assume "parseBmp old (Some file) \<noteq> None"
  moreover have "\<exists>dat ptn pal. length dat = h * ?lw \<and> length ptn = ?W * h * 4 + PTN_HEAD
      \<and> (if bits = 1 then few_colours 8 mix_index1 pal h ?W ?lw dat ptn
         else if bits = 2 then few_colours 4 mix_index2 pal h ?W ?lw dat ptn
         else if bits = 4 then few_colours 2 mix_index4 pal h ?W ?lw dat ptn
         else colours256 pal h ?W ?lw dat ptn) = Some (snd r)"
    if run: "parseBmp old (Some file) = Some r" for r
  proof -
    let ?dat = "fread (replicate (h * ?lw) 0) (drop (54 + 4 * 2 ^ bits) file)"
    let ?pal = "fread (replicate (4 * 2 ^ bits) 0) (drop 54 file)"
    obtain ptn where "length ptn = ?W * h * 4 + PTN_HEAD" and loop: "(if bits = 1 then few_colours 8 mix_index1 ?pal h ?W ?lw ?dat ptn
         else if bits = 2 then few_colours 4 mix_index2 ?pal h ?W ?lw ?dat ptn
         else if bits = 4 then few_colours 2 mix_index4 ?pal h ?W ?lw ?dat ptn
         else colours256 ?pal h ?W ?lw ?dat ptn) = Some (snd r)"
      using run bits unfolding parseBmp_def Let_def
      by (auto simp: info assms(4,5,7) ub W L bind_eq_Some_conv c_int_Some zeroed_Some nat_mult_distrib nat_add_distrib PTN_HEAD_def
          dest!: ptn_head_length)
    then show ?thesis by (intro exI [of _ ?dat] exI [of _ ptn] exI [of _ ?pal]) simp
  qed
  ultimately obtain dat ptn ptn' pal where dat: "length dat = h * ?lw" and ptn: "length ptn = ?W * h * 4 + PTN_HEAD"
    and loop: "(if bits = 1 then few_colours 8 mix_index1 pal h ?W ?lw dat ptn
       else if bits = 2 then few_colours 4 mix_index2 pal h ?W ?lw dat ptn
       else if bits = 4 then few_colours 2 mix_index4 pal h ?W ?lw dat ptn
       else colours256 pal h ?W ?lw dat ptn) = Some ptn'"
    by blast
  show False
  proof (cases "bits = 8")
    case True
    then have "colours256 pal h ?W ?lw dat ptn = Some ptn'" using loop by simp
    from colours256_room [OF this pos assms(8)] have "(h - 1) * ?lw + ?W \<le> h * ?lw" by (simp only: dat)
    then have "?W \<le> ?lw" using assms(8) by (cases h) auto
    moreover define q r where "q = w div 16" and "r = w mod 16"
    then have w: "w = 16 * q + r" and r: "1 \<le> r" "r \<le> 12" using bits True by auto
    have "(w + 15) div 16 = q + 1" by (rule div_nat_eqI) (use w r in simp_all)
    then have "?W = 16 * q + 16" by (simp add: round16_def)
    moreover have "(w * 8 + 31) div 32 < 4 * q + 4" by (rule div_less_iff_less_mult [THEN iffD2]) (use w r in simp_all)
    then have "?lw \<le> 16 * q + 12" using True by (simp add: stride_def)
    ultimately show False by linarith
  next
    case False
    then have "\<exists>per mix. few_colours per mix pal h ?W ?lw dat ptn = Some ptn' \<and> per \<in> {2, 4, 8}"
      using loop bits by (auto split: if_splits)
    then obtain per mix where "per \<in> {2, 4, 8}" and few: "few_colours per mix pal h ?W ?lw dat ptn = Some ptn'" by blast
    then have per: "2 \<le> per" by auto
    have "h * (per * ?W) * 4 + PTN_HEAD \<le> ?W * h * 4 + PTN_HEAD + 1"
      using few_colours_room [OF few _ pos assms(8)] per ptn by simp
    moreover have "2 * (?W * h) \<le> per * (?W * h)" using per by (rule mult_le_mono1)
    moreover have "0 < ?W * h" using pos assms(8) by simp
    moreover have "h * (per * ?W) = per * (?W * h)" by simp
    ultimately show False by linarith
  qed
qed

lemma palette_pictures_overrun_witness: "parseBmp (replicate 14 0, replicate 40 0) (Some two_colours) = None"
  using palette_pictures_overrun [of two_colours "(replicate 14 0, replicate 40 0)" 8 1 1]
  by (simp add: rd16_def rd32_def two_colours_def)

section \<open>Saved and loaded\<close>

lemma split_path_not_Nil [simp]: "split_path s \<noteq> []"
  by (induction s) auto

lemma split_path_slash: "split_path (a @ CHR ''/'' # b) = split_path a @ split_path b"
  by (induction a) (auto simp: hd_append tl_append split: list.splits)

lemma split_path_simple: "CHR ''/'' \<notin> set s \<Longrightarrow> split_path s = [s]"
  by (induction s) auto

text \<open>Two slashes are one.\<close>

lemma path_parts_slash: "a \<noteq> [] \<Longrightarrow> path_parts (a @ CHR ''/'' # b) =
    path_parts a @ filter (\<lambda>p. p \<noteq> [] \<and> p \<noteq> ''.'') (split_path b)"
  by (cases a) (auto simp: path_parts_def split_path_slash [of "_ # _", simplified] split_path_slash)

text \<open>The name of a picture as the program makes it.\<close>

definition image_name :: "string \<Rightarrow> string \<Rightarrow> string" where
  "image_name dir base = ''./cfg/'' @ IMAGE_DIR @ ''/'' @ dir @ ''/'' @ base"

lemma image_found: "strstr_at (image_name dir base) IMAGE_DIR = Some (IMAGE_DIR @ ''/'' @ dir @ ''/'' @ base)"
  by (simp add: image_name_def IMAGE_DIR_def)

lemma image_base: "CHR ''/'' \<notin> set base \<Longrightarrow> strrchr (image_name dir base) (CHR ''/'') = Some (CHR ''/'' # base)"
proof -
  assume base: "CHR ''/'' \<notin> set base"
  have "takeWhile (\<lambda>x. x \<noteq> CHR ''/'') (rev base @ CHR ''/'' # xs) = rev base" for xs
    using base by (subst takeWhile_append2) auto
  then show ?thesis by (simp add: strrchr_def image_name_def)
qed

lemma image_first: "strchr (IMAGE_DIR @ ''/'' @ s) (CHR ''/'') = Some (CHR ''/'' # s)"
  by (simp add: strchr_def IMAGE_DIR_def)

text \<open>
  C40: A picture of the program that was converted and saved is loaded again as the very
  pattern, and no other file changes, as long as its directory and name together are shorter
  than 63 characters.
\<close>

theorem saved_pattern_is_loaded:
  assumes base: "CHR ''/'' \<notin> set base" and len: "length dir + length base < 63"
    and parse: "parseBmp old (fs (path_parts (image_name dir base))) = Some (0, ptn)"
    and can: "\<And>name. can name"
  shows "\<exists>fs'. saveBmpToPtn old can (image_name dir base) fs = Some fs'
    \<and> loadPtnToMem (image_name dir base) fs' = Some (Some ptn)
    \<and> (\<forall>p. p \<noteq> [''cfg'', ''ptn''] @ filter (\<lambda>p. p \<noteq> [] \<and> p \<noteq> ''.'') (split_path dir @ [base]) \<longrightarrow> fs' p = fs p)"
proof -
  let ?parts = "[''cfg'', ''ptn''] @ filter (\<lambda>p. p \<noteq> [] \<and> p \<noteq> ''.'') (split_path dir @ [base])"
  have saved: "path_parts (PTN_FILE_PATH @ ''/'' @ (''/'' @ dir) @ ''/'' @ base) = ?parts"
    by (simp add: PTN_FILE_PATH_def path_parts_def split_path_slash split_path_simple [OF base])
  have loaded: "path_parts (PTN_FILE_PATH @ ''/'' @ dir @ ''/'' @ base) = ?parts"
    by (simp add: PTN_FILE_PATH_def path_parts_def split_path_slash split_path_simple [OF base])
  have "saveBmpToPtn old can (image_name dir base) fs = Some (fs(?parts \<mapsto> ptn))"
    using len unfolding saveBmpToPtn_def image_found image_base [OF base] parse
    by (simp add: can Let_def saved [simplified] PTN_FILE_PATH_def [THEN arg_cong [where f = length]])
  moreover have "loadPtnToMem (image_name dir base) (fs(?parts \<mapsto> ptn)) = Some (Some ptn)"
    using len unfolding loadPtnToMem_def image_found
    by (simp add: image_first [simplified] loaded [simplified] PTN_FILE_PATH_def [THEN arg_cong [where f = length]])
  ultimately show ?thesis by auto
qed

lemma saved_pattern_is_loaded_witness:
  "\<exists>fs' ptn. saveBmpToPtn (replicate 14 0, replicate 40 0) (\<lambda>_. True) (image_name ''2X1'' ''red.bmp'')
        [path_parts (image_name ''2X1'' ''red.bmp'') \<mapsto> two_pixels] = Some fs'
    \<and> loadPtnToMem (image_name ''2X1'' ''red.bmp'') fs' = Some (Some ptn)"
proof -
  have "map_option fst (parseBmp (replicate 14 0, replicate 40 0) (Some two_pixels)) = Some 0"
    by code_simp
  then obtain ptn where "parseBmp (replicate 14 0, replicate 40 0) (Some two_pixels) = Some (0, ptn)" by auto
  then show ?thesis
    using saved_pattern_is_loaded [of "''red.bmp''" "''2X1''" "(replicate 14 0, replicate 40 0)"
        "[path_parts (image_name ''2X1'' ''red.bmp'') \<mapsto> two_pixels]" ptn "\<lambda>_. True"]
    by auto
qed

end
