(* ===== verification/Spec2Isabelle.thy ===== *)
theory Spec2Isabelle
  imports PackDelivery RingBuf LoopQueue MsQueue MsEvent ThreadPool Clock5338 PowerSupply ComUart
    IcManager OpenShort AutoFlick LcdTask PgControl OtpMessages ChipDrivers FileSync Upgrades
    GammaMessages PatternDb MsTimer Dispatch Bitmap
begin

text \<open>
  The ARM program of a panel test box. A host sends commands over a TCP connection in packets
  (\<open>packsocket/packsocket.c\<close>, driven by \<open>client.c\<close>); the program works through them with the
  help of a small operating-system layer (\<open>pgos/\<close>: message queues, event groups), containers
  (\<open>loop/loop.c\<close>, \<open>hw/common/include/ringBuf.h\<close>) and drivers of the boards: the power supply
  and the control box hang on serial lines (\<open>hw/common/source/comUart.c\<close>,
  \<open>hw/power/source/pubPwrTask.c\<close>), the pixel clock on I2C (\<open>hw/clk/clk.c\<close>), the FPGA that makes
  the picture on a memory map (\<open>hw/fpga/source/fpgaFunc.c\<close>), colour analysers on USB serial lines
  (\<open>hw/lcd\<close>). Above them are the power sequence of a panel (\<open>clipg.c\<close>), the search for its common
  voltage (\<open>hw/mipi/mipiflick.c\<close>) and the table of panel chips (\<open>icm/ic_manager.c\<close>).

  Conventions. Structures are records, integers of a width are words where the width matters and
  \<open>int\<close> or \<open>nat\<close> where the values stay small; memory blocks are lists. \<open>None\<close> stands for what
  the C program must not do or does not survive: a copy that leaves its block, a null or freed
  node, an overflow of \<open>int\<close>, a failed \<open>assert\<close>, and a wait that never ends. Loops over linked
  nodes and rings are \<open>partial_function\<close>s, so that not ending is \<open>None\<close> too: a lemma that gives
  \<open>Some\<close> includes the end of the loop. Calls out of the program (system calls, I2C, serial
  output, callbacks) are recorded as traces or are arguments of the definitions.

  Theories.

  \<^item> \<open>Prelude\<close>: words, memory blocks, positions in rings. \<open>LittleEndian\<close>: bytes of words in the
    order of the processor, C division and \<open>short\<close>.
  \<^item> \<open>ByteFifo\<close>, \<open>BoundedQueue\<close>, \<open>FrameCodec\<close>: the interfaces, as locales. A byte FIFO gives its
    bytes out in order; a bounded queue refines the list queue \<open>q_spec\<close>: every run returns, each
    operation gives the result the list gives, a refused one exactly when the list is full or
    empty. A frame codec takes single frames off a stream, from which the decoding of streams
    follows.
  \<^item> \<open>Crc32\<close>: \<open>crc32_le\<close> (\<open>util.c\<close>) and \<open>jcrc32_le\<close> (\<open>comUart.c\<close>); one changed byte changes the sum.
  \<^item> \<open>CmdFifo\<close>: the byte ring of the packet protocol (\<open>init_cmd_fifo\<close> to \<open>read_cmd_fifo\<close>), a byte FIFO.
  \<^item> \<open>PackSocket\<close>: sending, the list of received packets, parsing. \<open>PackList\<close>: the list operations
    on a store of nodes. \<open>PackFrame\<close>: one frame, a frame codec. \<open>PackParse\<close>: \<open>parseSocketCmd\<close>.
    \<open>PackStream\<close>: the receive loop of \<open>server_start\<close> over intact and damaged packets in any
    segments, with the specification \<open>deframe\<close>, and \<open>client_rebackMipiCode\<close> (\<open>client.c\<close>).
    \<open>PackDelivery\<close>: what the protocol delivers from end to end.
  \<^item> \<open>RingBuf\<close> (\<open>ringBuf.h\<close>): a byte FIFO. \<open>LoopQueue\<close> (\<open>loop.c\<close>) and \<open>MsQueue\<close> (\<open>MsOS_queue.c\<close>,
    semaphores of \<open>MsOS_task.c\<close>): bounded queues. \<open>MsEvent\<close> (\<open>MsOS_event.c\<close>): event groups.
  \<^item> \<open>Clock5338\<close> (\<open>clk.c\<close>): the divider of the clock generator and its registers.
  \<^item> \<open>PowerTable\<close>, \<open>PowerSupply\<close> (\<open>pubPwrTask.c\<close>): checks of measured values, which rail an error
    message names, messages, upgrade.
  \<^item> \<open>ComUart\<close> (\<open>comUart.c\<close>): packets on a serial line, a frame codec.
  \<^item> \<open>ThreadPool\<close> (\<open>threadpool.c\<close>): the operations under the mutex, and a step relation of workers,
    callers and the destroyer.
  \<^item> \<open>IcManager\<close> (\<open>ic_manager.c\<close>): the registered chips and the calls handed on to the current one.
  \<^item> \<open>OpenShort\<close> (\<open>openshort.c\<close>): the test of the panel's pins before it is powered.
  \<^item> \<open>Fpga\<close> (\<open>fpgaFunc.c\<close>): the register operations; register 1 refines the record of the signal
    format. \<open>PgControl\<close> (\<open>clipg.c\<close>): loading a module, which joins \<open>Clock5338\<close> and \<open>Fpga\<close>, and
    powering a panel on and off, which joins \<open>OpenShort\<close> and the pins.
  \<^item> \<open>Ca310\<close> (\<open>ca310.c\<close>): the commands and replies of a colour analyser. \<open>LcdTask\<close>
    (\<open>pubLcdTask.c\<close>): the task that owns the analysers. \<open>AutoFlick\<close> (\<open>mipiflick.c\<close>): the search
    for the voltage with the least flicker.
  \<^item> \<open>Timing\<close>, \<open>Ssd2828\<close> (\<open>mipi2828.c\<close>, \<open>mipi_interface.c\<close>, \<open>hi_unf_spi.c\<close>): the MIPI bridges, as SPI
    transfers with chip selects, register accesses, packets and their set-up. What a
    packet puts on the wires is specified byte by byte, apart from the code that does it.
    \<open>ChipBus\<close>: the events a panel chip driver makes, which the bridge implements, and rules for
    such programs.
  \<^item> \<open>PanelRegs\<close>: panels that keep their registers, and the contract of the common voltage, a locale.
    \<open>ChipJd9367\<close>, \<open>ChipHx8394\<close>, \<open>ChipIli9806\<close>, \<open>ChipOtm8019a\<close>, \<open>ChipIcn9706\<close>, \<open>ChipIli9881c\<close> (\<open>icm/chips\<close>):
    the drivers of panel chips over these events; all but the first interpret the contract.
    \<open>ChipDrivers\<close>: what they promise together.
  \<^item> \<open>CStrings\<close>: the string functions of the C library. \<open>LocalDb\<close> (\<open>pgLocalDB.c\<close>): the list of files
    the box holds and its table. \<open>FileSync\<close> (\<open>clirecvcmd5srv.c\<close>, \<open>client.c\<close>, \<open>clipg.c\<close>): the transfer of
    module files, run against a host that answers the requests. \<open>Upgrades\<close>: images for the
    firmware, the control box and the power board.
  \<^item> \<open>RecList\<close>, \<open>PatternDb\<close> (\<open>pgDB.c\<close>): lists of records over \<open>LoopQueue\<close>; the patterns of a test module
    and its names, loaded from the tables of its file, and the list of all modules.
  \<^item> \<open>MsTimer\<close> (\<open>MsOS_timer.c\<close>): the list of timers and the task that calls them; the number of
    calls against the number of due times.
  \<^item> \<open>Json\<close> (\<open>json/cJSON.c\<close>): the JSON texts of the messages, printed and parsed; its
    value \<open>NoFuel\<close> is a parser still running and is apart from \<open>Fault\<close>, a bad access. \<open>Answers\<close>
    (\<open>client.c\<close>, \<open>net_general_command.c\<close>): what the program tells the host, down to the frame.
    \<open>Dispatch\<close> (\<open>clirecvcmd5srv.c\<close>, \<open>net_general_command.c\<close>): from the text of a command to the
    calls of the layers below.
  \<^item> \<open>Bitmap\<close> (\<open>util/bitmap.c\<close>): pictures and the patterns made of them, saved and loaded.
  \<^item> \<open>GammaMessages\<close> (\<open>clirecvcmd5srv.c\<close>): the messages about gamma tables, over the operations of a
    panel chip.
  \<^item> \<open>OtpMessages\<close> (\<open>clirecvcmd5srv.c\<close>): the messages that burn a voltage and an identification, over
    a chip that keeps what is burnt.

  Bounds. A stream segment has at most 20480 bytes, which is what \<open>server_start\<close> asks \<open>recv\<close> for,
  and a packet at most as many; together they fit the buffer of 40960 bytes. Answers have less
  than 65536 packets, the range of the packet number. The blocks of message queues lie inside the
  32-bit address space. The parser of \<open>Json\<close> counts its calls with fuel: twice the length of the
  text and one is enough, and more changes nothing (\<open>json_parser_terminates\<close>).

  Not modelled: start-up, thread creation and sockets; the debug console; XML and the files of
  the configuration; the engine of the data base (an argument of \<open>LocalDb\<close> and \<open>PatternDb\<close>); the box
  screens; the virtual SPI bus and the panel chips on it; vendored libraries other than the JSON
  one. Time is modelled for the timers alone: elsewhere waiting with a limit either succeeds at
  once or fails.
\<close>

end
